(* ===== verification/Falcon_Prelude.thy ===== *)
theory Falcon_Prelude
  imports Main "HOL-Library.Word"
begin

text \<open>
  Shared vocabulary of the development: machine integer types, the outcome type of
  operations that may abort the simulator, status codes, simulation time, and the ordered
  containers of the C++ code (ordered maps and ordered sets, iterated in key order), with
  the generic lemmas the components use.

  \<^item> An operation that may hit \<^verbatim>\<open>CHECK(...)\<close> or \<^verbatim>\<open>LOG(FATAL)\<close> returns a value of
    type \<open>'a res\<close>: \<open>Inl\<close> of a \<open>fault\<close> when the process aborts, \<open>Inr\<close> otherwise.
  \<^item> An operation that returns \<^verbatim>\<open>absl::Status\<close> returns a \<open>status\<close> next to its state.
  \<^item> \<^verbatim>\<open>absl::Duration\<close> is \<open>duration\<close>: a finite number of ticks or one of the two
    infinities, with the documented saturating addition.
  \<^item> \<^verbatim>\<open>btree_map\<close> is an association list kept sorted by key, \<^verbatim>\<open>btree_set\<close> a sorted
    list without repetition: \<^verbatim>\<open>begin()\<close> is the head and iteration is list order.
\<close>

section \<open>Machine integers\<close>

type_synonym u8 = "8 word"
type_synonym u16 = "16 word"
type_synonym u32 = "32 word"
type_synonym u64 = "64 word"

named_theorems res_simps \<open>rewriting of outcomes\<close>
named_theorems omap_simps \<open>laws of the ordered containers\<close>

lemma word_plus_one_less:
  fixes x y :: "'a::len word"
  assumes "x < y"
  shows "unat (x + 1) = Suc (unat x)"
proof -
  have "unat x < unat y" using assms by (simp add: word_less_nat_alt)
  moreover have "unat y < 2 ^ LENGTH('a)" by (rule unsigned_less)
  ultimately have "Suc (unat x) < 2 ^ LENGTH('a)" by linarith
  then show ?thesis by (simp add: unat_word_ariths)
qed

lemma unat_plus_of_nat:
  fixes x :: "'a::len word"
  assumes "unat x + k < 2 ^ LENGTH('a)"
  shows "unat (x + of_nat k) = unat x + k"
  using assms by (simp add: unat_word_ariths unat_of_nat)

lemma unat_word_of_int:
  assumes "0 \<le> x" and "x < 2 ^ LENGTH('a)"
  shows "unat (word_of_int x :: 'a::len word) = nat x"
proof -
  obtain n where n: "x = int n" using assms(1) nonneg_int_cases by blast
  with assms(2) have "int n < int (2 ^ LENGTH('a))" by simp
  then have "n < 2 ^ LENGTH('a)" by (simp only: of_nat_less_iff)
  with n show ?thesis by (simp add: unat_of_nat)
qed

lemma unat_diff_le:
  fixes x y :: "'a::len word"
  assumes "y \<le> x"
  shows "unat (x - y) = unat x - unat y"
  using assms by (simp add: unat_sub)

section \<open>Outcomes\<close>

datatype fault = CheckFailed | LogFatal | UndefinedBehaviour

type_synonym 'a res = "fault + 'a"

definition res_bind :: "'a res \<Rightarrow> ('a \<Rightarrow> 'b res) \<Rightarrow> 'b res" where
  "res_bind m f = (case m of Inl e \<Rightarrow> Inl e | Inr x \<Rightarrow> f x)"

definition check :: "bool \<Rightarrow> 'a res \<Rightarrow> 'a res" where
  "check b m = (if b then m else Inl CheckFailed)"

lemma res_bind_Inl [simp]: "res_bind (Inl e) f = Inl e"
  by (simp add: res_bind_def)

lemma res_bind_Inr [simp]: "res_bind (Inr x) f = f x"
  by (simp add: res_bind_def)

lemma res_bind_eq_Inr [res_simps]:
  "res_bind m f = Inr y \<longleftrightarrow> (\<exists>x. m = Inr x \<and> f x = Inr y)"
  by (cases m) auto

lemma check_True [simp]: "check True m = m"
  by (simp add: check_def)

lemma check_False [simp]: "check False m = Inl CheckFailed"
  by (simp add: check_def)

lemma check_eq_Inr [res_simps]: "check b m = Inr y \<longleftrightarrow> b \<and> m = Inr y"
  by (simp add: check_def)

datatype status =
    OkStatus
  | AlreadyExistsError
  | NotFoundError
  | FailedPreconditionError
  | InvalidArgumentError
  | UnavailableError
  | ResourceExhaustedError
  | InternalError
  | OutOfRangeError
  | UnknownError

section \<open>Simulation time\<close>

datatype duration = NegInfinite | Finite int | Infinite

instantiation duration :: linorder
begin

fun less_eq_duration :: "duration \<Rightarrow> duration \<Rightarrow> bool" where
  "less_eq_duration NegInfinite _ = True"
| "less_eq_duration (Finite a) NegInfinite = False"
| "less_eq_duration (Finite a) (Finite b) = (a \<le> b)"
| "less_eq_duration (Finite a) Infinite = True"
| "less_eq_duration Infinite Infinite = True"
| "less_eq_duration Infinite _ = False"

definition less_duration :: "duration \<Rightarrow> duration \<Rightarrow> bool" where
  "less_duration a b \<longleftrightarrow> a \<le> b \<and> \<not> b \<le> a"

instance
proof
  fix x y z :: duration
  show "(x < y) = (x \<le> y \<and> \<not> y \<le> x)" by (rule less_duration_def)
  show "x \<le> x" by (cases x) simp_all
  show "x \<le> y \<Longrightarrow> y \<le> z \<Longrightarrow> x \<le> z" by (cases x; cases y; cases z) simp_all
  show "x \<le> y \<Longrightarrow> y \<le> x \<Longrightarrow> x = y" by (cases x; cases y) simp_all
  show "x \<le> y \<or> y \<le> x" by (cases x; cases y) auto
qed

end

lemma Finite_less_Finite [simp]: "Finite a < Finite b \<longleftrightarrow> a < b"
  by (auto simp: less_duration_def)

lemma Infinite_le_Finite [simp]: "\<not> Infinite \<le> Finite a"
  by simp

abbreviation ZeroDuration :: duration where
  "ZeroDuration \<equiv> Finite 0"

fun dur_add :: "duration \<Rightarrow> duration \<Rightarrow> duration" where
  "dur_add (Finite a) (Finite b) = Finite (a + b)"
| "dur_add (Finite a) d = d"
| "dur_add Infinite d = Infinite"
| "dur_add NegInfinite d = NegInfinite"

fun dur_diff :: "duration \<Rightarrow> duration \<Rightarrow> duration" where
  "dur_diff (Finite a) (Finite b) = Finite (a - b)"
| "dur_diff (Finite a) Infinite = NegInfinite"
| "dur_diff (Finite a) NegInfinite = Infinite"
| "dur_diff Infinite d = Infinite"
| "dur_diff NegInfinite d = NegInfinite"

section \<open>Ordered maps\<close>

text \<open>
  The keys of an ordered map are strictly increasing. The interface is stated as a locale
  over the operations the code calls, and interpreted on the list operations below.
\<close>

type_synonym ('k, 'v) omap = "('k \<times> 'v) list"

fun omap_put :: "'k::linorder \<Rightarrow> 'v \<Rightarrow> ('k, 'v) omap \<Rightarrow> ('k, 'v) omap" where
  "omap_put k v [] = [(k, v)]"
| "omap_put k v ((k', v') # m) =
     (if k < k' then (k, v) # (k', v') # m
      else if k = k' then (k, v) # m
      else (k', v') # omap_put k v m)"

definition omap_erase :: "'k \<Rightarrow> ('k, 'v) omap \<Rightarrow> ('k, 'v) omap" where
  "omap_erase k m = filter (\<lambda>(k', _). k' \<noteq> k) m"

definition omap_ok :: "('k::linorder, 'v) omap \<Rightarrow> bool" where
  "omap_ok m \<longleftrightarrow> sorted_wrt (<) (map fst m)"

lemma omap_ok_Nil [simp]: "omap_ok []"
  by (simp add: omap_ok_def)

lemma omap_ok_Cons: "omap_ok ((k, v) # m) \<longleftrightarrow> (\<forall>k' \<in> set (map fst m). k < k') \<and> omap_ok m"
  by (simp add: omap_ok_def)

lemma set_keys_omap_put: "set (map fst (omap_put k v m)) = insert k (set (map fst m))"
  by (induction k v m rule: omap_put.induct) auto

lemma set_omap_put_fresh: "k \<notin> fst ` set m \<Longrightarrow> set (omap_put k v m) = insert (k, v) (set m)"
  by (induction k v m rule: omap_put.induct) auto

lemma omap_ok_put: "omap_ok m \<Longrightarrow> omap_ok (omap_put k v m)"
proof (induction k v m rule: omap_put.induct)
  case (2 k v k' v' m)
  then show ?case
    using set_keys_omap_put [of k v m]
    by (auto simp: omap_ok_Cons simp del: set_map)
qed (simp add: omap_ok_def)

lemma omap_erase_Cons [simp]:
  "omap_erase k ((k', v) # m) = (if k' = k then omap_erase k m else (k', v) # omap_erase k m)"
  by (simp add: omap_erase_def)

lemma set_keys_omap_erase: "set (map fst (omap_erase k m)) = set (map fst m) - {k}"
  by (induction m) (auto simp: omap_erase_def)

lemma omap_ok_erase: "omap_ok m \<Longrightarrow> omap_ok (omap_erase k m)"
proof (induction m)
  case (Cons p m)
  then show ?case
    using set_keys_omap_erase [of k m]
    by (cases p) (auto simp: omap_ok_Cons simp del: set_map)
qed (simp add: omap_erase_def)

lemma map_of_omap_put [omap_simps]: "map_of (omap_put k v m) = (map_of m)(k \<mapsto> v)"
  by (induction k v m rule: omap_put.induct) auto

lemma map_of_omap_erase [omap_simps]: "map_of (omap_erase k m) = (map_of m)(k := None)"
  by (induction m) (auto simp: omap_erase_def)

lemma omap_ok_head_least:
  "omap_ok ((k, v) # m) \<Longrightarrow> map_of ((k, v) # m) k' = Some v' \<Longrightarrow> k \<le> k'"
  by (auto simp: omap_ok_Cons dest!: map_of_SomeD split: if_splits)

lemma omap_ok_head_fresh: "omap_ok ((k, v) # m) \<Longrightarrow> map_of m k = None"
  by (auto simp: omap_ok_Cons map_of_eq_None_iff)

locale ordered_map =
  fixes empty :: "'m"
    and put :: "'k::linorder \<Rightarrow> 'v \<Rightarrow> 'm \<Rightarrow> 'm"
    and erase :: "'k \<Rightarrow> 'm \<Rightarrow> 'm"
    and find :: "'m \<Rightarrow> 'k \<Rightarrow> 'v option"
    and keys :: "'m \<Rightarrow> 'k list"
    and ok :: "'m \<Rightarrow> bool"
  assumes find_empty: "find empty = Map.empty"
    and find_put: "ok m \<Longrightarrow> find (put k v m) = (find m)(k \<mapsto> v)"
    and find_erase: "ok m \<Longrightarrow> find (erase k m) = (find m)(k := None)"
    and keys_find: "ok m \<Longrightarrow> set (keys m) = dom (find m)"
    and keys_increasing: "ok m \<Longrightarrow> sorted_wrt (<) (keys m)"
    and ok_empty: "ok empty"
    and ok_put: "ok m \<Longrightarrow> ok (put k v m)"
    and ok_erase: "ok m \<Longrightarrow> ok (erase k m)"
begin

text \<open>The head of the key sequence is the least key, as \<^verbatim>\<open>begin()\<close> promises.\<close>

lemma begin_least:
  assumes "ok m" and "keys m = k # ks" and "find m k' = Some v"
  shows "k \<le> k'"
proof -
  have "k' \<in> set (keys m)" using assms(1,3) by (auto simp: keys_find)
  moreover have "sorted_wrt (<) (k # ks)" using assms(1,2) keys_increasing by metis
  ultimately show ?thesis using assms(2) by auto
qed

lemma put_put: "ok m \<Longrightarrow> find (put k v (put k w m)) = find (put k v m)"
  by (simp add: find_put ok_put)

lemma put_erase_fresh: "ok m \<Longrightarrow> find m k = None \<Longrightarrow> find (erase k (put k v m)) = find m"
  by (auto simp: find_put find_erase ok_put)

end

interpretation omap: ordered_map "[]" omap_put omap_erase map_of "map fst" omap_ok
proof unfold_locales
  fix m :: "('a, 'b) omap"
  show "omap_ok m \<Longrightarrow> sorted_wrt (<) (map fst m)" by (simp add: omap_ok_def)
qed (auto simp: omap_simps omap_ok_put omap_ok_erase dom_map_of_conv_image_fst)

section \<open>Ordered sets\<close>

text \<open>
  \<^verbatim>\<open>btree_set\<close>: the library's sorted insertion without repetition, removal, and
  \<^verbatim>\<open>upper_bound\<close> (the first element greater than the argument).
\<close>

definition oset_ok :: "'a::linorder list \<Rightarrow> bool" where
  "oset_ok xs \<longleftrightarrow> sorted_wrt (<) xs"

fun oset_insert :: "'a::linorder \<Rightarrow> 'a list \<Rightarrow> 'a list" where
  "oset_insert x [] = [x]"
| "oset_insert x (y # ys) =
     (if x < y then x # y # ys else if x = y then y # ys else y # oset_insert x ys)"

definition oset_erase :: "'a \<Rightarrow> 'a list \<Rightarrow> 'a list" where
  "oset_erase x xs = filter (\<lambda>y. y \<noteq> x) xs"

definition upper_bound :: "'a::linorder \<Rightarrow> 'a list \<Rightarrow> 'a option" where
  "upper_bound x xs = List.find (\<lambda>y. x < y) xs"

lemma set_oset_insert [simp]: "set (oset_insert x xs) = insert x (set xs)"
  by (induction x xs rule: oset_insert.induct) auto

lemma set_oset_erase [simp]: "set (oset_erase x xs) = set xs - {x}"
  by (auto simp: oset_erase_def)

lemma oset_ok_Nil [simp]: "oset_ok []"
  by (simp add: oset_ok_def)

lemma oset_ok_insert [simp]: "oset_ok xs \<Longrightarrow> oset_ok (oset_insert x xs)"
  by (induction x xs rule: oset_insert.induct) (auto simp: oset_ok_def)

lemma oset_ok_filter [simp]: "oset_ok xs \<Longrightarrow> oset_ok (filter P xs)"
  by (simp add: oset_ok_def sorted_wrt_filter)

lemma oset_ok_erase [simp]: "oset_ok xs \<Longrightarrow> oset_ok (oset_erase x xs)"
  by (simp add: oset_erase_def)

lemma oset_ok_distinct: "oset_ok xs \<Longrightarrow> distinct xs"
  by (simp add: oset_ok_def strict_sorted_iff)

lemma upper_bound_in_set: "upper_bound x xs = Some y \<Longrightarrow> y \<in> set xs \<and> x < y"
  by (auto simp: upper_bound_def find_Some_iff)

section \<open>Lists\<close>

lemma upt_plus: "[0..<a + b] = [0..<a] @ map (\<lambda>i. a + i) [0..<b]"
  by (induction b) simp_all

text \<open>Consecutive words from \<open>n\<close>: first one apart, and two runs joined.\<close>

lemma consecutive_Suc:
  "map (\<lambda>i. n + of_nat i) [0..<Suc l] = n # map (\<lambda>i. n + 1 + of_nat i :: 'a::len word) [0..<l]"
  by (simp add: upt_conv_Cons map_Suc_upt [symmetric] o_def add.assoc del: upt_Suc)

lemma consecutive_plus:
  "map (\<lambda>i. n + of_nat i) [0..<a + b] =
     map (\<lambda>i. n + of_nat i :: 'a::len word) [0..<a] @ map (\<lambda>i. n + of_nat a + of_nat i) [0..<b]"
  by (simp add: upt_plus add.assoc)

lemma consecutive_passes:
  fixes n k :: "'a::len word"
  assumes "n \<le> k" and "k \<notin> set (map (\<lambda>i. n + of_nat i) [0..<l])"
  shows "n + of_nat l \<le> k"
  using assms(2)
proof (induction l)
  case 0
  then show ?case using assms(1) by simp
next
  case (Suc l)
  then have "n + of_nat l \<le> k" and "k \<noteq> n + of_nat l" by auto
  then have "n + of_nat l < k" by simp
  then have "n + of_nat l + 1 \<le> k" by (rule inc_le)
  then show ?case by (simp add: ac_simps)
qed

text \<open>A list moved down by \<open>k\<close> positions and filled up at the end.\<close>

lemma nth_shifted:
  assumes "i < length xs"
  shows "(drop k xs @ replicate (min k (length xs)) v) ! i = (if i + k < length xs then xs ! (i + k) else v)"
proof (cases "i + k < length xs")
  case True
  then have "i < length xs - k" by linarith
  with True show ?thesis by (simp add: nth_append add.commute)
next
  case False
  with assms have "\<not> i < length xs - k" and "i - (length xs - k) < min k (length xs)" by linarith+
  with False show ?thesis by (simp add: nth_append)
qed

lemma sum_list_nonneg_zero:
  fixes f :: "'a \<Rightarrow> int"
  assumes "\<And>x. x \<in> set xs \<Longrightarrow> 0 \<le> f x" and "sum_list (map f xs) = 0" and "x \<in> set xs"
  shows "f x = 0"
  using assms sum_list_nonneg_eq_0_iff [of "map f xs"] by auto

lemma sum_list_map_update:
  fixes f g :: "'a \<Rightarrow> int"
  assumes "distinct xs" and "x \<in> set xs" and "\<And>y. y \<noteq> x \<Longrightarrow> g y = f y"
  shows "sum_list (map g xs) = sum_list (map f xs) - f x + g x"
  using assms
proof (induction xs)
  case (Cons a xs)
  show ?case
  proof (cases "a = x")
    case True
    have "map g xs = map f xs"
    proof (rule map_cong)
      fix y assume "y \<in> set xs"
      with True Cons.prems(1) have "y \<noteq> x" by auto
      then show "g y = f y" by (rule Cons.prems(3))
    qed simp
    then have "sum_list (map g xs) = sum_list (map f xs)" by (rule arg_cong)
    with True show ?thesis by simp
  next
    case False
    with Cons show ?thesis by simp
  qed
qed simp

end
