(* ===== verification/Bitmaps.thy ===== *)
theory Bitmaps
  imports Falcon_Prelude
begin

unbundle bit_operations_syntax

text \<open>
  The two bitmaps of the code base: the byte-packed \<^verbatim>\<open>Bitmap\<close> of
  \<^verbatim>\<open>src/isekai/common/bitmap.{h,cc}\<close> and the sliding-window \<^verbatim>\<open>FalconBitmap\<close> of
  \<^verbatim>\<open>src/isekai/host/falcon/falcon_bitmap.{h,cc}\<close>. Both implement one interface, the
  locale \<open>bit_vector\<close>, against a list of booleans; the laws of the interface are
  discharged for each of them by an interpretation.
\<close>

section \<open>The interface\<close>

locale bit_vector =
  fixes get :: "'b \<Rightarrow> nat \<Rightarrow> bool res"
    and put :: "'b \<Rightarrow> nat \<Rightarrow> bool \<Rightarrow> 'b res"
    and bits :: "'b \<Rightarrow> bool list"
    and ok :: "'b \<Rightarrow> bool"
  assumes get_in: "ok b \<Longrightarrow> i < length (bits b) \<Longrightarrow> get b i = Inr (bits b ! i)"
    and get_out: "ok b \<Longrightarrow> length (bits b) \<le> i \<Longrightarrow> \<exists>e. get b i = Inl e"
    and put_in: "ok b \<Longrightarrow> i < length (bits b) \<Longrightarrow>
      \<exists>b'. put b i v = Inr b' \<and> ok b' \<and> bits b' = (bits b)[i := v]"
    and put_out: "ok b \<Longrightarrow> length (bits b) \<le> i \<Longrightarrow> \<exists>e. put b i v = Inl e"
begin

lemma put_InrD:
  assumes "ok b" and "put b i v = Inr b'"
  shows "i < length (bits b)" and "ok b'" and "bits b' = (bits b)[i := v]"
proof -
  show i: "i < length (bits b)"
    using assms put_out [of b i v] by (cases "i < length (bits b)") auto
  show "ok b'" and "bits b' = (bits b)[i := v]"
    using put_in [OF assms(1) i, of v] assms(2) by auto
qed

lemma get_put:
  assumes "ok b" and "put b i v = Inr b'"
  shows "get b' j = (if j = i then Inr v else get b j)
    \<or> (\<exists>e e'. get b' j = Inl e \<and> get b j = Inl e')"
proof (cases "j < length (bits b)")
  case True
  with put_InrD [OF assms] assms(1) show ?thesis by (simp add: get_in)
next
  case False
  with put_InrD [OF assms] get_out [of b j] get_out [of b' j] assms(1) show ?thesis by auto
qed

lemma put_comm:
  assumes "ok b" and "i \<noteq> j"
    and "res_bind (put b i v) (\<lambda>b'. put b' j w) = Inr b1"
    and "res_bind (put b j w) (\<lambda>b'. put b' i v) = Inr b2"
  shows "bits b1 = bits b2"
proof -
  obtain x where x: "put b i v = Inr x" "put x j w = Inr b1"
    using assms(3) by (auto simp: res_simps)
  obtain y where y: "put b j w = Inr y" "put y i v = Inr b2"
    using assms(4) by (auto simp: res_simps)
  have "bits b1 = (bits b)[i := v, j := w]"
    using put_InrD [OF assms(1) x(1)] put_InrD [of x j w b1] x(2) by simp
  moreover have "bits b2 = (bits b)[j := w, i := v]"
    using put_InrD [OF assms(1) y(1)] put_InrD [of y i v b2] y(2) by simp
  ultimately show ?thesis using assms(2) by (simp add: list_update_swap)
qed

end

section \<open>The byte-packed bitmap\<close>

record bitmap =
  nbits :: nat
  buffer :: "u8 list"

definition GetBytesFromBits :: "nat \<Rightarrow> nat" where
  "GetBytesFromBits n = (n + 7) div 8"

text \<open>
  The mask arithmetic is done at the width of \<^verbatim>\<open>unsigned\<close>; the result is narrowed when it
  is stored into the byte.
\<close>

definition bitmap_get :: "bitmap \<Rightarrow> nat \<Rightarrow> bool res" where
  "bitmap_get b i =
     (if nbits b \<le> i then Inl LogFatal
      else Inr ((ucast (buffer b ! (i div 8)) :: u32) AND push_bit (i mod 8) 1 \<noteq> 0))"

definition bitmap_set :: "bitmap \<Rightarrow> nat \<Rightarrow> bitmap res" where
  "bitmap_set b i =
     (if nbits b \<le> i then Inl LogFatal
      else Inr (b\<lparr>buffer := (buffer b)[i div 8 :=
        ucast ((ucast (buffer b ! (i div 8)) :: u32) OR push_bit (i mod 8) 1)]\<rparr>))"

definition bitmap_clear :: "bitmap \<Rightarrow> nat \<Rightarrow> bitmap res" where
  "bitmap_clear b i =
     (if nbits b \<le> i then Inl LogFatal
      else Inr (b\<lparr>buffer := (buffer b)[i div 8 :=
        ucast ((ucast (buffer b ! (i div 8)) :: u32) AND NOT (push_bit (i mod 8) 1))]\<rparr>))"

definition memset_zero :: "nat \<Rightarrow> u8 list \<Rightarrow> u8 list" where
  "memset_zero n bs = replicate n 0 @ drop n bs"

text \<open>\<open>uninit\<close> is the content of freshly allocated memory, which the code does not rely on.\<close>

definition bitmap_Reset :: "(nat \<Rightarrow> u8) \<Rightarrow> bitmap \<Rightarrow> nat \<Rightarrow> bitmap" where
  "bitmap_Reset uninit b n =
     (let required_bytes = GetBytesFromBits n;
          buf = (if required_bytes \<noteq> GetBytesFromBits (nbits b)
                 then map uninit [0..<required_bytes] else buffer b)
      in b\<lparr>buffer := memset_zero required_bytes buf, nbits := n\<rparr>)"

definition bitmap_new :: bitmap where
  "bitmap_new = \<lparr>nbits = 0, buffer = []\<rparr>"

definition bitmap_ok :: "bitmap \<Rightarrow> bool" where
  "bitmap_ok b \<longleftrightarrow> length (buffer b) = GetBytesFromBits (nbits b)"

definition bitmap_bits :: "bitmap \<Rightarrow> bool list" where
  "bitmap_bits b = map (\<lambda>i. bit (buffer b ! (i div 8)) (i mod 8)) [0..<nbits b]"

definition bitmap_put :: "bitmap \<Rightarrow> nat \<Rightarrow> bool \<Rightarrow> bitmap res" where
  "bitmap_put b i v = (if v then bitmap_set b i else bitmap_clear b i)"

lemma byte_index: "bitmap_ok b \<Longrightarrow> i < nbits b \<Longrightarrow> i div 8 < length (buffer b)"
  by (simp add: bitmap_ok_def GetBytesFromBits_def)

lemma index_eq_iff: "(i::nat) = j \<longleftrightarrow> i div 8 = j div 8 \<and> i mod 8 = j mod 8"
  by (metis div_mult_mod_eq)

lemma length_bitmap_bits [simp]: "length (bitmap_bits b) = nbits b"
  by (simp add: bitmap_bits_def)

lemma bitmap_bits_nth:
  "i < nbits b \<Longrightarrow> bitmap_bits b ! i \<longleftrightarrow> bit (buffer b ! (i div 8)) (i mod 8)"
  by (simp add: bitmap_bits_def)

lemma byte_or_bit:
  fixes x :: u8
  assumes "k < 8" and "j < 8"
  shows "bit (ucast ((ucast x :: u32) OR push_bit k 1) :: u8) j \<longleftrightarrow> j = k \<or> bit x j"
  using assms by (auto simp: bit_simps)

lemma byte_clear_bit:
  fixes x :: u8
  assumes "k < 8" and "j < 8"
  shows "bit (ucast ((ucast x :: u32) AND NOT (push_bit k 1)) :: u8) j \<longleftrightarrow> j \<noteq> k \<and> bit x j"
  using assms by (auto simp: bit_simps)

lemma byte_update_bits:
  assumes "bitmap_ok b" and "i < nbits b"
    and "\<And>j. j < 8 \<Longrightarrow>
      bit x j \<longleftrightarrow> (if j = i mod 8 then v else bit (buffer b ! (i div 8)) j)"
  shows "bitmap_bits (b\<lparr>buffer := (buffer b)[i div 8 := x]\<rparr>) = (bitmap_bits b)[i := v]"
proof (rule nth_equalityI)
  fix j assume j: "j < length (bitmap_bits (b\<lparr>buffer := (buffer b)[i div 8 := x]\<rparr>))"
  have len: "i div 8 < length (buffer b)" using assms(1,2) by (rule byte_index)
  show "bitmap_bits (b\<lparr>buffer := (buffer b)[i div 8 := x]\<rparr>) ! j = (bitmap_bits b)[i := v] ! j"
    using j len assms(2) assms(3) [of "j mod 8"] index_eq_iff [of i j]
    by (auto simp: bitmap_bits_nth nth_list_update)
qed simp

lemma bitmap_set_in:
  assumes "bitmap_ok b" and "i < nbits b"
  shows "\<exists>b'. bitmap_set b i = Inr b' \<and> bitmap_ok b' \<and> bitmap_bits b' = (bitmap_bits b)[i := True]"
proof -
  let ?x = "ucast ((ucast (buffer b ! (i div 8)) :: u32) OR push_bit (i mod 8) 1) :: u8"
  have "bitmap_bits (b\<lparr>buffer := (buffer b)[i div 8 := ?x]\<rparr>) = (bitmap_bits b)[i := True]"
    by (rule byte_update_bits [OF assms]) (auto simp: byte_or_bit simp del: push_bit_of_1)
  with assms show ?thesis by (simp add: bitmap_set_def bitmap_ok_def)
qed

lemma bitmap_clear_in:
  assumes "bitmap_ok b" and "i < nbits b"
  shows "\<exists>b'. bitmap_clear b i = Inr b' \<and> bitmap_ok b' \<and> bitmap_bits b' = (bitmap_bits b)[i := False]"
proof -
  let ?x = "ucast ((ucast (buffer b ! (i div 8)) :: u32) AND NOT (push_bit (i mod 8) 1)) :: u8"
  have "bitmap_bits (b\<lparr>buffer := (buffer b)[i div 8 := ?x]\<rparr>) = (bitmap_bits b)[i := False]"
    by (rule byte_update_bits [OF assms]) (auto simp: byte_clear_bit simp del: push_bit_of_1)
  with assms show ?thesis by (simp add: bitmap_clear_def bitmap_ok_def)
qed

interpretation bmp: bit_vector bitmap_get bitmap_put bitmap_bits bitmap_ok
proof unfold_locales
  fix b v and i :: nat
  assume ok: "bitmap_ok b"
  have "i mod 8 < 32" by (rule less_trans [of _ 8]) simp_all
  then show "i < length (bitmap_bits b) \<Longrightarrow> bitmap_get b i = Inr (bitmap_bits b ! i)"
    by (simp add: bitmap_get_def bitmap_bits_nth and_exp_eq_0_iff_not_bit bit_ucast_iff)
  show "length (bitmap_bits b) \<le> i \<Longrightarrow> \<exists>e. bitmap_get b i = Inl e"
    by (simp add: bitmap_get_def)
  show "i < length (bitmap_bits b) \<Longrightarrow>
      \<exists>b'. bitmap_put b i v = Inr b' \<and> bitmap_ok b' \<and> bitmap_bits b' = (bitmap_bits b)[i := v]"
    using ok by (cases v) (simp_all add: bitmap_put_def bitmap_set_in bitmap_clear_in)
  show "length (bitmap_bits b) \<le> i \<Longrightarrow> \<exists>e. bitmap_put b i v = Inl e"
    by (simp add: bitmap_put_def bitmap_set_def bitmap_clear_def)
qed

lemma bitmap_new_ok: "bitmap_ok bitmap_new"
  by (simp add: bitmap_new_def bitmap_ok_def GetBytesFromBits_def)

lemma bitmap_Reset_buffer:
  "bitmap_ok b \<Longrightarrow> buffer (bitmap_Reset uninit b n) = replicate (GetBytesFromBits n) 0"
  by (auto simp: bitmap_Reset_def Let_def memset_zero_def bitmap_ok_def)

lemma bitmap_Reset_ok: "bitmap_ok b \<Longrightarrow> bitmap_ok (bitmap_Reset uninit b n)"
  using bitmap_Reset_buffer [of b uninit n]
  by (simp add: bitmap_ok_def bitmap_Reset_def Let_def)

lemma bitmap_Reset_bits:
  assumes "bitmap_ok b"
  shows "bitmap_bits (bitmap_Reset uninit b n) = replicate n False"
proof (rule nth_equalityI)
  have n: "nbits (bitmap_Reset uninit b n) = n" by (simp add: bitmap_Reset_def Let_def)
  then show "length (bitmap_bits (bitmap_Reset uninit b n)) = length (replicate n False)" by simp
  fix i assume "i < length (bitmap_bits (bitmap_Reset uninit b n))"
  with n byte_index [OF bitmap_Reset_ok [OF assms], of i uninit n]
  show "bitmap_bits (bitmap_Reset uninit b n) ! i = replicate n False ! i"
    by (simp add: bitmap_bits_nth bitmap_Reset_buffer [OF assms])
qed

section \<open>The sliding-window bitmap\<close>

text \<open>
  \<^verbatim>\<open>FalconBitmap<N>\<close> keeps its logical size next to an \<open>N\<close>-bit set; \<open>N\<close> is the length
  of the list. \<^verbatim>\<open>operator[]\<close> on the bit set is unchecked, so an access past \<open>N\<close> is
  undefined behaviour.
\<close>

record falcon_bitmap =
  bm_size :: int
  bm_bits :: "bool list"

definition FalconBitmap_new :: "nat \<Rightarrow> int \<Rightarrow> falcon_bitmap" where
  "FalconBitmap_new N sz = \<lparr>bm_size = sz, bm_bits = replicate N False\<rparr>"

definition fb_Get :: "falcon_bitmap \<Rightarrow> int \<Rightarrow> bool res" where
  "fb_Get b index = check (0 \<le> index \<and> index < bm_size b)
     (if nat index < length (bm_bits b) then Inr (bm_bits b ! nat index)
      else Inl UndefinedBehaviour)"

definition fb_store :: "falcon_bitmap \<Rightarrow> int \<Rightarrow> bool \<Rightarrow> falcon_bitmap res" where
  "fb_store b index v =
     (if nat index < length (bm_bits b) then Inr (b\<lparr>bm_bits := (bm_bits b)[nat index := v]\<rparr>)
      else Inl UndefinedBehaviour)"

definition fb_Set :: "falcon_bitmap \<Rightarrow> int \<Rightarrow> bool \<Rightarrow> falcon_bitmap res" where
  "fb_Set b index v = check (0 \<le> index \<and> index < bm_size b) (fb_store b index v)"

text \<open>The shift amount is converted to \<^verbatim>\<open>size_t\<close>; shifting by the width or more clears the set.\<close>

definition fb_RightShift :: "falcon_bitmap \<Rightarrow> int \<Rightarrow> falcon_bitmap" where
  "fb_RightShift b shift_amount =
     (let pos = nat (shift_amount mod 2 ^ 64)
      in b\<lparr>bm_bits := drop pos (bm_bits b) @ replicate (min pos (length (bm_bits b))) False\<rparr>)"

definition fb_Or :: "falcon_bitmap \<Rightarrow> falcon_bitmap \<Rightarrow> falcon_bitmap" where
  "fb_Or b another_bitmap = b\<lparr>bm_bits := map2 (\<or>) (bm_bits b) (bm_bits another_bitmap)\<rparr>"

definition bitset_count :: "bool list \<Rightarrow> nat" where
  "bitset_count bs = length (filter (\<lambda>v. v) bs)"

function first_hole_loop :: "bool list \<Rightarrow> nat \<Rightarrow> nat \<Rightarrow> nat" where
  "first_hole_loop bs n index =
     (if index < n then (if \<not> bs ! index then index else first_hole_loop bs n (Suc index))
      else index)"
  by pat_completeness auto
termination
  by (relation "measure (\<lambda>(bs, n, index). n - index)") auto

declare first_hole_loop.simps [simp del]

definition fb_FirstHoleIndex :: "falcon_bitmap \<Rightarrow> int" where
  "fb_FirstHoleIndex b =
     (let n = bitset_count (bm_bits b);
          index = first_hole_loop (bm_bits b) n 0
      in if index = n then -1 else int index)"

definition fb_Empty :: "falcon_bitmap \<Rightarrow> bool" where
  "fb_Empty b \<longleftrightarrow> list_all Not (bm_bits b)"

definition fb_ToString :: "falcon_bitmap \<Rightarrow> string" where
  "fb_ToString b = map (\<lambda>v. if v then CHR ''1'' else CHR ''0'') (bm_bits b)"

definition fb_assign :: "falcon_bitmap \<Rightarrow> falcon_bitmap \<Rightarrow> falcon_bitmap" where
  "fb_assign b another_bitmap = b\<lparr>bm_bits := bm_bits another_bitmap\<rparr>"

fun fb_copy :: "falcon_bitmap \<Rightarrow> nat list \<Rightarrow> falcon_bitmap \<Rightarrow> falcon_bitmap res" where
  "fb_copy another_bitmap [] b = Inr b"
| "fb_copy another_bitmap (i # is) b =
     res_bind (fb_Get another_bitmap (int i)) (\<lambda>v.
     res_bind (fb_store b (int i) v) (\<lambda>b'. fb_copy another_bitmap is b'))"

definition fb_assign_wider :: "falcon_bitmap \<Rightarrow> falcon_bitmap \<Rightarrow> falcon_bitmap res" where
  "fb_assign_wider b another_bitmap =
     (if bm_size another_bitmap < bm_size b then Inl LogFatal
      else fb_copy another_bitmap [0..<nat (bm_size b)] b)"

text \<open>
  Well-formed: the logical size fits the bit set and no bit beyond it is set, which is what
  makes \<^verbatim>\<open>FirstHoleIndex\<close>, \<^verbatim>\<open>Empty\<close> and \<^verbatim>\<open>RightShift\<close> (all of them over the whole bit
  set) speak about the logical window.
\<close>

definition fb_ok :: "falcon_bitmap \<Rightarrow> bool" where
  "fb_ok b \<longleftrightarrow> 0 \<le> bm_size b \<and> nat (bm_size b) \<le> length (bm_bits b) \<and>
     list_all Not (drop (nat (bm_size b)) (bm_bits b))"

definition fb_window :: "falcon_bitmap \<Rightarrow> bool list" where
  "fb_window b = take (nat (bm_size b)) (bm_bits b)"

lemma length_fb_window [simp]: "fb_ok b \<Longrightarrow> length (fb_window b) = nat (bm_size b)"
  by (simp add: fb_window_def fb_ok_def)

lemma FalconBitmap_new_ok: "0 \<le> sz \<Longrightarrow> nat sz \<le> N \<Longrightarrow> fb_ok (FalconBitmap_new N sz)"
  by (simp add: fb_ok_def FalconBitmap_new_def list_all_iff)

lemma fb_Set_ok:
  assumes "fb_ok b" and "fb_Set b i v = Inr b'"
  shows "fb_ok b'" and "fb_window b' = (fb_window b)[nat i := v]"
  using assms
  by (auto simp: fb_Set_def fb_store_def fb_ok_def fb_window_def res_simps drop_update_cancel
      take_update_swap split: if_splits)

interpretation fbm: bit_vector "\<lambda>b i. fb_Get b (int i)" "\<lambda>b i v. fb_Set b (int i) v" fb_window fb_ok
proof unfold_locales
  fix b i v
  assume ok: "fb_ok b"
  then have lt: "i < nat (bm_size b) \<Longrightarrow> i < length (bm_bits b)" by (simp add: fb_ok_def)
  show "i < length (fb_window b) \<Longrightarrow> fb_Get b (int i) = Inr (fb_window b ! i)"
    using ok lt by (simp add: fb_Get_def fb_window_def zless_nat_eq_int_zless)
  show "length (fb_window b) \<le> i \<Longrightarrow> \<exists>e. fb_Get b (int i) = Inl e"
    using ok by (auto simp: fb_Get_def check_def)
  show "i < length (fb_window b) \<Longrightarrow>
      \<exists>b'. fb_Set b (int i) v = Inr b' \<and> fb_ok b' \<and> fb_window b' = (fb_window b)[i := v]"
  proof -
    assume "i < length (fb_window b)"
    with ok lt have "\<exists>b'. fb_Set b (int i) v = Inr b'"
      by (auto simp: fb_Set_def fb_store_def check_def)
    then obtain b' where "fb_Set b (int i) v = Inr b'" ..
    with fb_Set_ok [OF ok this] show ?thesis by simp
  qed
  show "length (fb_window b) \<le> i \<Longrightarrow> \<exists>e. fb_Set b (int i) v = Inl e"
    using ok by (auto simp: fb_Set_def check_def)
qed

subsection \<open>First hole\<close>

lemma first_hole_loop_spec:
  assumes "index \<le> n"
  shows "index \<le> first_hole_loop bs n index \<and> first_hole_loop bs n index \<le> n \<and>
    (\<forall>k. index \<le> k \<and> k < first_hole_loop bs n index \<longrightarrow> bs ! k) \<and>
    (first_hole_loop bs n index < n \<longrightarrow> \<not> bs ! first_hole_loop bs n index)"
  using assms
proof (induction bs n index rule: first_hole_loop.induct)
  case (1 bs n index)
  show ?case
  proof (cases "index < n \<and> bs ! index")
    case True
    with "1.IH" have "Suc index \<le> first_hole_loop bs n (Suc index) \<and>
      first_hole_loop bs n (Suc index) \<le> n \<and>
      (\<forall>k. Suc index \<le> k \<and> k < first_hole_loop bs n (Suc index) \<longrightarrow> bs ! k) \<and>
      (first_hole_loop bs n (Suc index) < n \<longrightarrow> \<not> bs ! first_hole_loop bs n (Suc index))"
      by simp
    moreover have eq: "first_hole_loop bs n index = first_hole_loop bs n (Suc index)"
      using True by (simp add: first_hole_loop.simps [of bs n index])
    moreover have "bs ! k" if "index \<le> k" and "k < first_hole_loop bs n (Suc index)" for k
      using that True calculation by (cases "k = index") auto
    ultimately show ?thesis using True by simp
  next
    case False
    with "1.prems" show ?thesis by (auto simp: first_hole_loop.simps [of bs n index])
  qed
qed

lemma bitset_count_split:
  "k \<le> length bs \<Longrightarrow> bitset_count bs = bitset_count (take k bs) + bitset_count (drop k bs)"
  by (metis append_take_drop_id bitset_count_def filter_append length_append)

lemma bitset_count_le: "bitset_count bs \<le> length bs"
  by (simp add: bitset_count_def)

lemma bitset_count_all:
  assumes "\<forall>k < length bs. bs ! k"
  shows "bitset_count bs = length bs"
proof -
  have "\<forall>v \<in> set bs. v" using assms unfolding all_set_conv_all_nth .
  then have "filter (\<lambda>v. v) bs = bs" by (rule filter_True)
  then show ?thesis by (simp only: bitset_count_def)
qed

lemma bitset_count_pos: "0 < bitset_count bs \<longleftrightarrow> (\<exists>k < length bs. bs ! k)"
proof -
  have "0 < bitset_count bs \<longleftrightarrow> filter (\<lambda>v. v) bs \<noteq> []" by (simp only: bitset_count_def length_greater_0_conv)
  also have "\<dots> \<longleftrightarrow> (\<exists>v \<in> set bs. v)" by (simp only: filter_empty_conv) blast
  also have "\<dots> \<longleftrightarrow> (\<exists>k < length bs. bs ! k)" by (metis in_set_conv_nth)
  finally show ?thesis .
qed

text \<open>With fewer ones in front than ones in total, a later bit is set.\<close>

lemma one_after_hole:
  assumes "i < bitset_count bs" and "\<not> bs ! i"
  shows "\<exists>j > i. j < length bs \<and> bs ! j"
proof -
  have len: "i < length bs" using assms(1) bitset_count_le [of bs] by linarith
  have "bitset_count (take (Suc i) bs) \<le> i"
  proof -
    have "bitset_count (take (Suc i) bs) = bitset_count (take i bs)"
      using len assms(2) by (simp add: take_Suc_conv_app_nth bitset_count_def)
    also have "\<dots> \<le> i" using bitset_count_le [of "take i bs"] len by simp
    finally show ?thesis .
  qed
  with assms(1) bitset_count_split [of "Suc i" bs] len
  have "0 < bitset_count (drop (Suc i) bs)" by simp
  then obtain k where "k < length bs - Suc i" and "drop (Suc i) bs ! k"
    by (auto simp: bitset_count_pos)
  then show ?thesis using len by (intro exI [of _ "Suc i + k"]) simp
qed

lemma no_one_after_full_prefix:
  assumes "\<forall>k < bitset_count bs. bs ! k" and "j < length bs" and "bs ! j"
  shows "j < bitset_count bs"
proof (rule ccontr)
  let ?n = "bitset_count bs"
  assume j: "\<not> j < ?n"
  have le: "?n \<le> length bs" by (rule bitset_count_le)
  have "bitset_count (take ?n bs) = ?n"
    using bitset_count_all [of "take ?n bs"] assms(1) le by simp
  with bitset_count_split [OF le] have "bitset_count (drop ?n bs) = 0" by simp
  moreover have "drop ?n bs ! (j - ?n)" and "j - ?n < length (drop ?n bs)"
    using j assms(2,3) by simp_all
  ultimately show False using bitset_count_pos [of "drop ?n bs"] by auto
qed

subsection \<open>Window shift and narrowing copy\<close>

lemma fb_RightShift_nth:
  assumes "0 \<le> k" and "k < 2 ^ 64" and "i < length (bm_bits b)"
  shows "bm_bits (fb_RightShift b k) ! i \<longleftrightarrow>
    i + nat k < length (bm_bits b) \<and> bm_bits b ! (i + nat k)"
  using assms by (simp add: fb_RightShift_def Let_def nth_shifted)

lemma length_fb_RightShift [simp]: "length (bm_bits (fb_RightShift b k)) = length (bm_bits b)"
  by (auto simp: fb_RightShift_def Let_def)

lemma fb_ok_beyond: "fb_ok b \<Longrightarrow> nat (bm_size b) \<le> i \<Longrightarrow> i < length (bm_bits b) \<Longrightarrow> \<not> bm_bits b ! i"
  unfolding fb_ok_def list_all_length
  by (metis diff_less_mono le_add_diff_inverse length_drop nth_drop)

lemma fb_okI:
  assumes "0 \<le> bm_size b" and "nat (bm_size b) \<le> length (bm_bits b)"
    and "\<And>i. nat (bm_size b) \<le> i \<Longrightarrow> i < length (bm_bits b) \<Longrightarrow> \<not> bm_bits b ! i"
  shows "fb_ok b"
  using assms by (auto simp: fb_ok_def list_all_length)

lemma fb_RightShift_ok:
  assumes "fb_ok b" and "0 \<le> k" and "k < 2 ^ 64"
  shows "fb_ok (fb_RightShift b k)"
proof (rule fb_okI)
  have sz: "bm_size (fb_RightShift b k) = bm_size b" by (simp add: fb_RightShift_def Let_def)
  show "0 \<le> bm_size (fb_RightShift b k)"
    and "nat (bm_size (fb_RightShift b k)) \<le> length (bm_bits (fb_RightShift b k))"
    using assms(1) sz by (simp_all add: fb_ok_def)
  fix i assume "nat (bm_size (fb_RightShift b k)) \<le> i"
    and "i < length (bm_bits (fb_RightShift b k))"
  with sz assms fb_ok_beyond [OF assms(1), of "i + nat k"]
  show "\<not> bm_bits (fb_RightShift b k) ! i"
    by (auto simp: fb_RightShift_nth)
qed

lemma fb_copy_spec:
  assumes "\<forall>i \<in> set is. int i < bm_size a \<and> i < length (bm_bits a) \<and> i < length (bm_bits b)"
  shows "\<exists>b'. fb_copy a is b = Inr b' \<and> bm_size b' = bm_size b \<and>
    length (bm_bits b') = length (bm_bits b) \<and>
    (\<forall>j < length (bm_bits b). bm_bits b' ! j = (if j \<in> set is then bm_bits a ! j else bm_bits b ! j))"
  using assms
proof (induction "is" arbitrary: b)
  case (Cons i "is")
  let ?b = "b\<lparr>bm_bits := (bm_bits b)[i := bm_bits a ! i]\<rparr>"
  have "\<forall>k \<in> set is. int k < bm_size a \<and> k < length (bm_bits a) \<and> k < length (bm_bits ?b)"
    using Cons.prems by simp
  from Cons.IH [OF this] obtain b' where b': "fb_copy a is ?b = Inr b'" "bm_size b' = bm_size b"
    "length (bm_bits b') = length (bm_bits b)"
    "\<forall>j < length (bm_bits b). bm_bits b' ! j = (if j \<in> set is then bm_bits a ! j else bm_bits ?b ! j)"
    by auto
  moreover have "fb_copy a (i # is) b = fb_copy a is ?b"
    using Cons.prems by (simp add: fb_Get_def fb_store_def)
  ultimately show ?case using Cons.prems by (auto simp: nth_list_update)
qed simp

section \<open>Properties\<close>



text \<open>
  \<^verbatim>\<open>FirstHoleIndex\<close> scans only the first \<^verbatim>\<open>count()\<close> bits, and that is enough: it
  returns -1 exactly when the received packets are contiguous from the base, and an index
  \<open>i\<close> exactly when \<open>i\<close> is the first missing packet and some later packet was received.
\<close>

theorem first_hole_index_correct:
  "(fb_FirstHoleIndex b = -1 \<longleftrightarrow>
      (\<forall>j < length (bm_bits b). bm_bits b ! j \<longrightarrow> (\<forall>i < j. bm_bits b ! i))) \<and>
   (fb_FirstHoleIndex b = int i \<longleftrightarrow>
      \<not> bm_bits b ! i \<and> (\<forall>k < i. bm_bits b ! k) \<and> (\<exists>j > i. j < length (bm_bits b) \<and> bm_bits b ! j))"
proof -
  let ?bs = "bm_bits b"
  let ?n = "bitset_count ?bs"
  let ?r = "first_hole_loop ?bs ?n 0"
  have r: "?r \<le> ?n" "\<forall>k < ?r. ?bs ! k" "?r < ?n \<longrightarrow> \<not> ?bs ! ?r"
    using first_hole_loop_spec [of 0 ?n ?bs] by auto
  have val: "fb_FirstHoleIndex b = (if ?r = ?n then -1 else int ?r)"
    by (simp add: fb_FirstHoleIndex_def Let_def)
  show ?thesis
  proof (cases "?r = ?n")
    case True
    with r have "\<forall>j < length ?bs. ?bs ! j \<longrightarrow> (\<forall>i < j. ?bs ! i)"
      using no_one_after_full_prefix [of ?bs] by (metis less_trans)
    with True val show ?thesis by auto
  next
    case False
    with r have hole: "?r < ?n" "\<not> ?bs ! ?r" by auto
    then obtain j where j: "?r < j" "j < length ?bs" "?bs ! j"
      using one_after_hole by blast
    have "i = ?r" if "\<not> ?bs ! i" "\<forall>k < i. ?bs ! k"
      using that r(2) hole(2) by (metis linorder_neqE_nat)
    with False val hole r(2) j show ?thesis by auto
  qed
qed

theorem first_hole_index_correct_witness:
  "fb_FirstHoleIndex \<lparr>bm_size = 4, bm_bits = [True, False, True, False]\<rparr> = 1"
  using first_hole_index_correct [of "\<lparr>bm_size = 4, bm_bits = [True, False, True, False]\<rparr>" 1]
  by (auto simp: less_Suc_eq intro: exI [of _ 2])

text \<open>
  Sliding the window right by \<open>k\<close> drops the \<open>k\<close> oldest positions, moves every other one
  down by \<open>k\<close>, fills the top with zeros, and keeps the bitmap well-formed; in particular bits
  beyond the logical size never leak into the window.
\<close>

theorem right_shift_slides_window:
  assumes "fb_ok b" and "0 \<le> k" and "k < 2 ^ 64"
  shows "fb_ok (fb_RightShift b k) \<and>
    fb_window (fb_RightShift b k) =
      drop (nat k) (fb_window b) @ replicate (min (nat k) (nat (bm_size b))) False"
proof
  show ok: "fb_ok (fb_RightShift b k)" using assms by (rule fb_RightShift_ok)
  have sz: "bm_size (fb_RightShift b k) = bm_size b" by (simp add: fb_RightShift_def Let_def)
  show "fb_window (fb_RightShift b k) =
      drop (nat k) (fb_window b) @ replicate (min (nat k) (nat (bm_size b))) False"
  proof (rule nth_equalityI)
    fix i assume "i < length (fb_window (fb_RightShift b k))"
    then have i: "i < nat (bm_size b)" "i < length (bm_bits b)"
      using ok sz assms(1) by (auto simp: fb_ok_def)
    have "(drop (nat k) (fb_window b) @ replicate (min (nat k) (nat (bm_size b))) False) ! i \<longleftrightarrow>
        i + nat k < nat (bm_size b) \<and> bm_bits b ! (i + nat k)"
      using nth_shifted [of i "fb_window b" "nat k" False] i assms(1)
      by (simp add: nth_take fb_window_def fb_ok_def min_absorb2) linarith
    with i assms sz fb_ok_beyond [OF assms(1), of "i + nat k"]
    show "fb_window (fb_RightShift b k) ! i =
        (drop (nat k) (fb_window b) @ replicate (min (nat k) (nat (bm_size b))) False) ! i"
      by (auto simp: fb_window_def fb_RightShift_nth fb_ok_def)
  qed (use ok sz assms(1) in auto)
qed

theorem right_shift_slides_window_witness:
  "fb_window (fb_RightShift \<lparr>bm_size = 3, bm_bits = [True, False, True, False]\<rparr> 2) =
    [True, False, False]"
  using right_shift_slides_window [of "\<lparr>bm_size = 3, bm_bits = [True, False, True, False]\<rparr>" 2]
  by (simp add: fb_ok_def fb_window_def numeral_eq_Suc)

text \<open>
  Copying a wider receive bitmap into an acknowledgement bitmap succeeds exactly when the
  source window is at least as large, and then copies precisely the target's window, leaving
  the rest of the target's bits alone; a smaller source aborts.
\<close>

theorem narrowing_copy_correct:
  assumes "fb_ok a" and "fb_ok b"
  shows "fb_assign_wider b a =
    (if bm_size a < bm_size b then Inl LogFatal
     else Inr (b\<lparr>bm_bits := take (nat (bm_size b)) (bm_bits a) @ drop (nat (bm_size b)) (bm_bits b)\<rparr>))"
proof (cases "bm_size a < bm_size b")
  case False
  have len: "nat (bm_size b) \<le> length (bm_bits a)" "nat (bm_size b) \<le> length (bm_bits b)"
    using assms False by (auto simp: fb_ok_def)
  have "\<forall>i \<in> set [0..<nat (bm_size b)].
      int i < bm_size a \<and> i < length (bm_bits a) \<and> i < length (bm_bits b)"
    using assms False by (auto simp: fb_ok_def)
  from fb_copy_spec [OF this] obtain b' where
    b': "fb_copy a [0..<nat (bm_size b)] b = Inr b'" "bm_size b' = bm_size b"
      "length (bm_bits b') = length (bm_bits b)"
      "\<forall>j < length (bm_bits b). bm_bits b' ! j =
         (if j < nat (bm_size b) then bm_bits a ! j else bm_bits b ! j)"
    by auto
  have "bm_bits b' = take (nat (bm_size b)) (bm_bits a) @ drop (nat (bm_size b)) (bm_bits b)"
    using b'(3,4) len by (intro nth_equalityI) (auto simp: nth_append)
  with b'(1,2) False show ?thesis by (cases b'; cases b) (simp add: fb_assign_wider_def)
qed (simp add: fb_assign_wider_def)

theorem narrowing_copy_correct_witness:
  "fb_assign_wider \<lparr>bm_size = 2, bm_bits = [False, False, False]\<rparr>
     \<lparr>bm_size = 3, bm_bits = [True, True, True, False]\<rparr> =
   Inr \<lparr>bm_size = 2, bm_bits = [True, True, False]\<rparr>"
  by (subst narrowing_copy_correct) (simp_all add: fb_ok_def numeral_eq_Suc)

end
