(* ===== verification/Falcon_Types.thy ===== *)
theory Falcon_Types
  imports Bitmaps "HOL-Library.Signed_Division"
begin

text \<open>
  The enumerations and structures of \<^verbatim>\<open>src/isekai/host/falcon/falcon.h\<close>,
  \<^verbatim>\<open>src/isekai/common/packet.h\<close> and \<^verbatim>\<open>src/isekai/host/falcon/gen1/falcon_types.h\<close> that
  the modelled components use, and the helper functions of
  \<^verbatim>\<open>src/isekai/host/falcon/gen1/falcon_utils.cc\<close>: packet classification, the transaction
  location of a packet, and the buffer credits of a packet.
  Enumerators that would clash carry a prefix (\<open>kSt\<close> for transaction states, \<open>kOp\<close> for
  RDMA opcodes); fields of \<^verbatim>\<open>Packet\<close> that no modelled code reads are left out.
\<close>

section \<open>Enumerations\<close>

datatype packet_type =
    kInvalid
  | kPullRequest
  | kPushRequest
  | kPushGrant
  | kPullData
  | kPushSolicitedData
  | kPushUnsolicitedData
  | kResync
  | kAck
  | kNack
  | kBack
  | kEack

datatype ordering_mode = kOrdered | kUnordered

datatype opcode = kOpInvalid | kSendOnly | kWriteOnly | kReadRequest | kReadResponseOnly | kOpAck

datatype syndrome =
    kSynAck | kRnrNak | kPsnSeqErrNak | kInvReqNak | kRemoteAccessErrNak
  | kRemoteOperationalErrNak | kInvRDReqNak

datatype nack_code =
    kNotANack | kRxResourceExhaustion | kUlpReceiverNotReady | kXlrDrop | kReserved
  | kUlpCompletionInError | kUlpNonRecoverableError | kInvalidCidError

datatype transaction_type = kPull | kPushSolicited | kPushUnsolicited

datatype transaction_location = kInitiator | kTarget

datatype transaction_stage =
    UlpRx | UlpTx | UlpAckRx | UlpRnrRx | UlpCompletionTx | NtwkRx | NtwkTx | NtwkAckRx

datatype transaction_state =
    kStInvalid
  | kPullReqUlpRx | kPullDataUlpRx | kPushSolicitedReqUlpRx | kPushUnsolicitedReqUlpRx
  | kPullReqUlpTx | kPullDataUlpTx | kPushSolicitedDataUlpTx | kPushUnsolicitedDataUlpTx
  | kPushCompletionUlpTx
  | kPullReqAckUlpRx | kPushSolicitedDataAckUlpRx | kPushUnsolicitedDataAckUlpRx
  | kPullReqRnrUlpRx | kPushSolicitedDataRnrUlpRx | kPushUnsolicitedDataRnrUlpRx
  | kPullReqNtwkRx | kPullDataNtwkRx | kPushReqNtwkRx | kPushGrantNtwkRx
  | kPushSolicitedDataNtwkRx | kPushUnsolicitedDataNtwkRx
  | kPullReqNtwkTx | kPullDataNtwkTx | kPushReqNtwkTx | kPushGrantNtwkTx
  | kPushSolicitedDataNtwkTx | kPushUnsolicitedDataNtwkTx
  | kPullDataAckNtwkRx | kPushSolicitedDataAckNtwkRx | kPushUnsolicitedDataAckNtwkRx

datatype packet_direction = kOutgoing | kIncoming

datatype ack_type = kAckPlain | kAckEack   \<comment> \<open>\<^verbatim>\<open>Packet::Ack::kAck\<close>, \<^verbatim>\<open>Packet::Ack::kEack\<close>\<close>

datatype retransmit_reason = kTimeout | kEarlyOooDis | kEarlyRack | kEarlyTlp | kEarlyNack | kUlpRto

section \<open>Packets and transactions\<close>

text \<open>
  The acknowledgement headers. Their bitmaps are \<^verbatim>\<open>FalconAckPacketBitmap\<close>s, 128 bits wide; bit
  fields are words, and are only copied between fields of the same width.
\<close>

record ack_header =
  ack_type :: ack_type
  ack_dest_cid :: u32
  ack_rrbpsn :: u32
  ack_rdbpsn :: u32
  ack_receiver_request_bitmap :: falcon_bitmap
  ack_receiver_data_bitmap :: falcon_bitmap
  ack_timestamp_1 :: duration
  ack_timestamp_2 :: duration
  ack_forward_hops :: u8
  ack_rx_buffer_level :: u8
  ack_cc_metadata :: u32
  ack_received_bitmap :: falcon_bitmap
  ack_request_own :: bool
  ack_data_own :: bool

definition ack_default :: ack_header where
  "ack_default = \<lparr>ack_type = kAckPlain, ack_dest_cid = 0, ack_rrbpsn = 0, ack_rdbpsn = 0,
     ack_receiver_request_bitmap = FalconBitmap_new 128 64,
     ack_receiver_data_bitmap = FalconBitmap_new 128 128,
     ack_timestamp_1 = ZeroDuration, ack_timestamp_2 = ZeroDuration, ack_forward_hops = 0,
     ack_rx_buffer_level = 0, ack_cc_metadata = 0, ack_received_bitmap = FalconBitmap_new 128 128,
     ack_request_own = False, ack_data_own = False\<rparr>"

record nack_header =
  nack_dest_cid :: u32
  nack_rrbpsn :: u32
  nack_rdbpsn :: u32
  nack_psn :: u32
  nack_request_window :: bool
  nack_code :: nack_code
  nack_ulp_nack_code :: syndrome
  nack_rnr_timeout :: duration
  nack_timestamp_1 :: duration
  nack_timestamp_2 :: duration
  nack_forward_hops :: u8
  nack_rx_buffer_level :: u8
  nack_cc_metadata :: u32
  nack_request_own :: bool
  nack_data_own :: bool

text \<open>The two codes have no initializer; the first enumerator stands for what they hold.\<close>

definition nack_default :: nack_header where
  "nack_default = \<lparr>nack_dest_cid = 0, nack_rrbpsn = 0, nack_rdbpsn = 0, nack_psn = 0,
     nack_request_window = False, nack_code = kNotANack, nack_ulp_nack_code = kSynAck,
     nack_rnr_timeout = ZeroDuration, nack_timestamp_1 = ZeroDuration, nack_timestamp_2 = ZeroDuration,
     nack_forward_hops = 0, nack_rx_buffer_level = 0, nack_cc_metadata = 0,
     nack_request_own = False, nack_data_own = False\<rparr>"

record packet =
  pkt_type :: packet_type
  pkt_scid :: u32             \<comment> \<open>\<^verbatim>\<open>metadata.scid\<close>\<close>
  pkt_sgl_length :: u32       \<comment> \<open>\<^verbatim>\<open>metadata.sgl_length\<close>\<close>
  pkt_rdma_src_qp_id :: u32
  pkt_timing_wheel_timestamp :: duration
  pkt_source_bifurcation_id :: u8
  pkt_destination_bifurcation_id :: u8
  pkt_forward_hops :: u8
  pkt_flow_label :: u32
  pkt_is_last_packet :: bool
  pkt_sent_timestamp :: duration      \<comment> \<open>\<^verbatim>\<open>timestamps.sent_timestamp\<close>\<close>
  pkt_received_timestamp :: duration
  falcon_ack_req :: bool
  falcon_dest_cid :: u32      \<comment> \<open>\<^verbatim>\<open>falcon.dest_cid\<close>\<close>
  falcon_rrbpsn :: u32
  falcon_rdbpsn :: u32
  falcon_psn :: u32
  falcon_rsn :: u32
  falcon_ssn :: u32
  falcon_request_length :: u16
  falcon_payload_length :: u16
  rdma_opcode :: opcode
  rdma_rsn :: u32
  rdma_data_length :: u32
  rdma_request_length :: u32  \<comment> \<open>in a union with \<^verbatim>\<open>response_length\<close>\<close>
  rdma_dest_qp_id :: u32
  pkt_ack :: ack_header
  pkt_nack :: nack_header

text \<open>A default-constructed \<^verbatim>\<open>Packet\<close>.\<close>

definition packet_default :: packet where
  "packet_default = \<lparr>pkt_type = kInvalid, pkt_scid = 0, pkt_sgl_length = 0, pkt_rdma_src_qp_id = 0,
     pkt_timing_wheel_timestamp = ZeroDuration, pkt_source_bifurcation_id = 0,
     pkt_destination_bifurcation_id = 0, pkt_forward_hops = 0, pkt_flow_label = 0,
     pkt_is_last_packet = False, pkt_sent_timestamp = ZeroDuration, pkt_received_timestamp = ZeroDuration,
     falcon_ack_req = False, falcon_dest_cid = 0, falcon_rrbpsn = 0, falcon_rdbpsn = 0, falcon_psn = 0,
     falcon_rsn = 0, falcon_ssn = 0, falcon_request_length = 0, falcon_payload_length = 0,
     rdma_opcode = kOpInvalid, rdma_rsn = 0, rdma_data_length = 0, rdma_request_length = 0,
     rdma_dest_qp_id = 0, pkt_ack = ack_default, pkt_nack = nack_default\<rparr>"

text \<open>\<^verbatim>\<open>UlpNackMetadata\<close>.\<close>

record ulp_nack_metadata =
  ulp_nack_code :: syndrome
  ulp_rnr_timeout :: duration

record packet_metadata =
  pm_type :: packet_type
  pm_direction :: packet_direction
  pm_resources_reserved :: status
  pm_data_length :: u32
  pm_sgl_length :: u32
  pm_payload_length :: u32
  pm_active_packet :: "packet option"
  pm_is_transmission_eligible :: bool
  pm_psn :: u32
  pm_transmit_attempts :: u32
  pm_timeout_retransmission_attempts :: u32
  pm_early_retx_attempts :: u32
  pm_retransmission_reason :: retransmit_reason
  pm_transmission_time :: duration
  pm_retransmission_packet_copy :: packet
  pm_schedule_status :: status
  pm_received :: bool
  pm_nack_code :: nack_code
  pm_ulp_nack_metadata :: ulp_nack_metadata
  pm_bypass_recency_check :: bool
  pm_bypass_scanning_exit_criteria :: bool

text \<open>The constructor \<^verbatim>\<open>PacketMetadata(type, direction, packet, eligible)\<close>.\<close>

definition PacketMetadata_new ::
  "packet_type \<Rightarrow> packet_direction \<Rightarrow> packet option \<Rightarrow> bool \<Rightarrow> packet_metadata" where
  "PacketMetadata_new type direction pkt eligible =
     \<lparr>pm_type = type, pm_direction = direction, pm_resources_reserved = OkStatus, pm_data_length = 0,
      pm_sgl_length = 0, pm_payload_length = 0, pm_active_packet = pkt,
      pm_is_transmission_eligible = eligible, pm_psn = 0, pm_transmit_attempts = 0,
      pm_timeout_retransmission_attempts = 0, pm_early_retx_attempts = 0,
      pm_retransmission_reason = kTimeout, pm_transmission_time = ZeroDuration,
      pm_retransmission_packet_copy = packet_default, pm_schedule_status = UnknownError,
      pm_received = False, pm_nack_code = kNotANack,
      pm_ulp_nack_metadata = \<lparr>ulp_nack_code = kSynAck, ulp_rnr_timeout = ZeroDuration\<rparr>,
      pm_bypass_recency_check = True, pm_bypass_scanning_exit_criteria = False\<rparr>"

text \<open>The context of a received packet, kept by the sliding window layer.\<close>

record received_packet_context =
  rpc_qp_id :: u32
  rpc_psn :: u32
  rpc_type :: packet_type
  rpc_is_ack_requested :: bool

type_synonym transaction_key = "u32 \<times> transaction_location"

record transaction_metadata =
  tm_rsn :: u32
  tm_request_length :: u32
  tm_type :: transaction_type
  tm_location :: transaction_location
  tm_state :: transaction_state
  tm_resources_reserved :: status
  tm_solicitation_window_reservation_timestamp :: duration
  tm_packets :: "packet_type \<rightharpoonup> packet_metadata"
  tm_transaction_start_timestamp :: duration
  tm_last_state_update_timestamp :: duration

text \<open>The constructor \<^verbatim>\<open>TransactionMetadata(rsn, type, location)\<close>.\<close>

definition TransactionMetadata_new ::
  "u32 \<Rightarrow> transaction_type \<Rightarrow> transaction_location \<Rightarrow> transaction_metadata" where
  "TransactionMetadata_new rsn ctype location =
     \<lparr>tm_rsn = rsn, tm_request_length = 0, tm_type = ctype, tm_location = location,
      tm_state = kStInvalid, tm_resources_reserved = OkStatus, tm_solicitation_window_reservation_timestamp = ZeroDuration,
      tm_packets = Map.empty, tm_transaction_start_timestamp = ZeroDuration,
      tm_last_state_update_timestamp = ZeroDuration\<rparr>"

text \<open>
  The three overloads of \<^verbatim>\<open>CreatePacket\<close>: the plain one, the one for packets of the upper
  layer (data and scatter-gather length) and the one for packets of the network (payload
  length). Each replaces the packet metadata of its type.
\<close>

definition CreatePacket ::
  "packet_type \<Rightarrow> packet_direction \<Rightarrow> packet option \<Rightarrow> bool \<Rightarrow>
   transaction_metadata \<Rightarrow> transaction_metadata" where
  "CreatePacket type direction pkt eligible t =
     t\<lparr>tm_packets := (tm_packets t)(type \<mapsto> PacketMetadata_new type direction pkt eligible)\<rparr>"

definition CreatePacket_ulp ::
  "packet_type \<Rightarrow> packet_direction \<Rightarrow> u32 \<Rightarrow> u32 \<Rightarrow> packet option \<Rightarrow> bool \<Rightarrow>
   transaction_metadata \<Rightarrow> transaction_metadata" where
  "CreatePacket_ulp type direction data_length sgl_length pkt eligible t =
     t\<lparr>tm_packets := (tm_packets t)(type \<mapsto>
       (PacketMetadata_new type direction pkt eligible)
         \<lparr>pm_data_length := data_length, pm_sgl_length := sgl_length\<rparr>)\<rparr>"

definition CreatePacket_network ::
  "packet_type \<Rightarrow> packet_direction \<Rightarrow> u32 \<Rightarrow> packet option \<Rightarrow> bool \<Rightarrow>
   transaction_metadata \<Rightarrow> transaction_metadata" where
  "CreatePacket_network type direction payload_length pkt eligible t =
     t\<lparr>tm_packets := (tm_packets t)(type \<mapsto>
       (PacketMetadata_new type direction pkt eligible)\<lparr>pm_payload_length := payload_length\<rparr>)\<rparr>"

definition GetPacketMetadata :: "transaction_metadata \<Rightarrow> packet_type \<Rightarrow> status + packet_metadata" where
  "GetPacketMetadata t type =
     (case tm_packets t type of Some p \<Rightarrow> Inr p | None \<Rightarrow> Inl NotFoundError)"

section \<open>Packet classification\<close>

text \<open>
  \<^verbatim>\<open>request_length >= solicited_write_threshold\<close> compares an unsigned with a signed 32-bit
  integer, so the threshold is converted to unsigned.
\<close>

definition RdmaOpcodeToPacketType :: "packet \<Rightarrow> int \<Rightarrow> packet_type res" where
  "RdmaOpcodeToPacketType pkt solicited_write_threshold =
     (case rdma_opcode pkt of
        kReadRequest \<Rightarrow> Inr kPullRequest
      | kReadResponseOnly \<Rightarrow> Inr kPullData
      | kWriteOnly \<Rightarrow>
          Inr (if word_of_int solicited_write_threshold \<le> rdma_request_length pkt
               then kPushRequest else kPushUnsolicitedData)
      | kSendOnly \<Rightarrow>
          Inr (if word_of_int solicited_write_threshold \<le> rdma_request_length pkt
               then kPushRequest else kPushUnsolicitedData)
      | kOpAck \<Rightarrow> Inl LogFatal
      | kOpInvalid \<Rightarrow> Inl LogFatal)"

definition BelongsToRequestWindow :: "packet_type \<Rightarrow> bool" where
  "BelongsToRequestWindow type \<longleftrightarrow> type = kPullRequest \<or> type = kPushRequest"

definition AckSyndromeToNackCode :: "syndrome \<Rightarrow> nack_code" where
  "AckSyndromeToNackCode syn = (case syn of kRnrNak \<Rightarrow> kUlpReceiverNotReady | _ \<Rightarrow> kNotANack)"

definition GetFalconPacketConnectionId :: "packet \<Rightarrow> u32" where
  "GetFalconPacketConnectionId pkt =
     (case pkt_type pkt of kAck \<Rightarrow> ack_dest_cid (pkt_ack pkt) | kNack \<Rightarrow> nack_dest_cid (pkt_nack pkt)
      | _ \<Rightarrow> falcon_dest_cid pkt)"

fun IsFalconTransaction :: "packet_type \<Rightarrow> bool res" where
  "IsFalconTransaction kPullRequest = Inr True"
| "IsFalconTransaction kPushRequest = Inr True"
| "IsFalconTransaction kPushGrant = Inr True"
| "IsFalconTransaction kPullData = Inr True"
| "IsFalconTransaction kPushSolicitedData = Inr True"
| "IsFalconTransaction kPushUnsolicitedData = Inr True"
| "IsFalconTransaction kResync = Inr True"
| "IsFalconTransaction kNack = Inr False"
| "IsFalconTransaction kAck = Inr False"
| "IsFalconTransaction kEack = Inr False"
| "IsFalconTransaction kBack = Inr False"
| "IsFalconTransaction kInvalid = Inl LogFatal"

definition GetNextFalconPacket :: "packet_type \<Rightarrow> packet_type res" where
  "GetNextFalconPacket type =
     (if type = kPushRequest then Inr kPushGrant
      else if type = kPushGrant then Inr kPushSolicitedData
      else Inl LogFatal)"

fun GetTransactionLocation :: "packet_type \<Rightarrow> bool \<Rightarrow> transaction_location res" where
  "GetTransactionLocation kPullRequest incoming = Inr (if incoming then kTarget else kInitiator)"
| "GetTransactionLocation kPushRequest incoming = Inr (if incoming then kTarget else kInitiator)"
| "GetTransactionLocation kPushSolicitedData incoming =
     Inr (if incoming then kTarget else kInitiator)"
| "GetTransactionLocation kPushUnsolicitedData incoming =
     Inr (if incoming then kTarget else kInitiator)"
| "GetTransactionLocation kPullData incoming = Inr (if incoming then kInitiator else kTarget)"
| "GetTransactionLocation kPushGrant incoming = Inr (if incoming then kInitiator else kTarget)"
| "GetTransactionLocation _ incoming = Inl LogFatal"

section \<open>Buffer credits\<close>

text \<open>
  Lengths are unsigned 32-bit words, the two helpers work on 32-bit signed integers: the
  conversion reinterprets the word, a sum outside the signed range and a division by zero
  are undefined, and C division truncates.
\<close>

definition in_int32 :: "int \<Rightarrow> bool" where
  "in_int32 x \<longleftrightarrow> - (2 ^ 31) \<le> x \<and> x < 2 ^ 31"

definition Subtract :: "int \<Rightarrow> int \<Rightarrow> int" where
  "Subtract x y = (if y \<le> x then x - y else 0)"

definition CeilDiv :: "int \<Rightarrow> int \<Rightarrow> int res" where
  "CeilDiv n q =
     (if q = 0 \<or> \<not> in_int32 (n + q) \<or> \<not> in_int32 (n + q - 1) then Inl UndefinedBehaviour
      else Inr ((n + q - 1) sdiv q))"

definition CalculateFalconTxBufferCredits :: "u32 \<Rightarrow> u32 \<Rightarrow> u32 \<Rightarrow> u32 res" where
  "CalculateFalconTxBufferCredits txPktDataLen txPmdSglLen mbau =
     res_bind (CeilDiv (Subtract (sint txPktDataLen) 64) (sint mbau)) (\<lambda>a.
     res_bind (CeilDiv (Subtract (sint txPmdSglLen) 8) (sint mbau)) (\<lambda>b.
     Inr (word_of_int (a + b))))"

definition CalculateFalconRxBufferCredits :: "u32 \<Rightarrow> u32 \<Rightarrow> u32 res" where
  "CalculateFalconRxBufferCredits len mbau =
     res_bind (CeilDiv (Subtract (sint len) 0) (sint mbau)) (\<lambda>a. Inr (word_of_int (a + 0)))"

lemma CeilDiv_pos:
  assumes "0 \<le> n" and "0 < q" and "n + q < 2 ^ 31"
  shows "\<exists>c. CeilDiv n q = Inr c \<and> 0 \<le> c \<and> c \<le> n \<and> n \<le> c * q \<and> c * q < n + q"
proof -
  let ?c = "(n + q - 1) div q"
  have cd: "CeilDiv n q = Inr ?c"
    using assms by (cases "n + q - 1 = 0") (auto simp: CeilDiv_def in_int32_def signed_divide_int_def)
  have nn: "0 \<le> ?c" using assms by (simp add: pos_imp_zdiv_nonneg_iff)
  have eq: "q * ?c = (n + q - 1) - (n + q - 1) mod q"
    by (simp add: minus_mod_eq_mult_div)
  have m: "0 \<le> (n + q - 1) mod q" "(n + q - 1) mod q < q" using assms(2) by simp_all
  have "?c \<le> n"
  proof (cases "n = 0")
    case True
    with assms(2) show ?thesis by (simp add: div_pos_pos_trivial)
  next
    case False
    with assms have "n + q - 1 \<le> n * q"
      using mult_right_mono [of 1 n "q - 1"] by (simp add: algebra_simps)
    then have "?c \<le> n * q div q" using assms(2) by (rule zdiv_mono1)
    with assms(2) show ?thesis by simp
  qed
  with cd nn eq m show ?thesis by (intro exI [of _ ?c]) (simp add: mult.commute)
qed

lemma sint_eq_unat:
  fixes w :: u32
  assumes "unat w < 2 ^ 31"
  shows "sint w = int (unat w)"
proof -
  have "int (unat w) < int (2 ^ 31)" using assms by (simp only: of_nat_less_iff)
  then have "uint w < 2 ^ 31" by simp
  then have "signed_take_bit 31 (uint w) = uint w"
    using order_trans [OF _ uint_ge_0, of "- (2 ^ 31)" w]
    by (intro signed_take_bit_int_eq_self) simp_all
  then show ?thesis by (simp add: sint_uint)
qed

lemma int_diff_bound:
  fixes a b c :: nat
  assumes "a + b < 2 ^ 31"
  shows "int (a - c) + int b < 2 ^ 31"
proof -
  have "int (a - c) + int b \<le> int (a + b)" by simp
  also have "\<dots> < int (2 ^ 31)" using assms by (simp only: of_nat_less_iff)
  finally show ?thesis by simp
qed

section \<open>Properties\<close>

text \<open>
  The transmit buffer credits of a packet are exact: with lengths and the allocation unit
  in the signed range, the result counts the least number of units whose bytes hold the packet
  data beyond the 64 context bytes plus the least number for the scatter-gather list beyond
  its 8 metadata bytes, and no overflow or division by zero occurs.
\<close>

theorem tx_buffer_credits_exact:
  assumes "0 < unat mbau" and "unat data_len + unat mbau < 2 ^ 31"
    and "unat sgl_len + unat mbau < 2 ^ 31" and "unat data_len + unat sgl_len < 2 ^ 31"
  shows "\<exists>c a b. CalculateFalconTxBufferCredits data_len sgl_len mbau = Inr c \<and> unat c = a + b \<and>
    (unat data_len - 64) \<le> a * unat mbau \<and> a * unat mbau < (unat data_len - 64) + unat mbau \<and>
    (unat sgl_len - 8) \<le> b * unat mbau \<and> b * unat mbau < (unat sgl_len - 8) + unat mbau"
proof -
  let ?q = "int (unat mbau)"
  let ?n = "int (unat data_len - 64)" and ?m = "int (unat sgl_len - 8)"
  have s: "sint data_len = int (unat data_len)" "sint sgl_len = int (unat sgl_len)" "sint mbau = ?q"
    using assms by (simp_all add: sint_eq_unat)
  then have sub: "Subtract (sint data_len) 64 = ?n" "Subtract (sint sgl_len) 8 = ?m"
    by (auto simp: Subtract_def simp del: uint_nat of_nat_unat)
  have b1: "0 \<le> ?n" "0 < ?q" "?n + ?q < 2 ^ 31" and b2: "0 \<le> ?m" "?m + ?q < 2 ^ 31"
    using assms by (simp_all only: of_nat_0_le_iff of_nat_0_less_iff int_diff_bound)
  obtain x where x: "CeilDiv ?n ?q = Inr x" "0 \<le> x" "x \<le> ?n" "?n \<le> x * ?q" "x * ?q < ?n + ?q"
    using CeilDiv_pos [OF b1] by blast
  obtain y where y: "CeilDiv ?m ?q = Inr y" "0 \<le> y" "y \<le> ?m" "?m \<le> y * ?q" "y * ?q < ?m + ?q"
    using CeilDiv_pos [OF b2(1) b1(2) b2(2)] by blast
  have "int (unat data_len) + int (unat sgl_len) < 2 ^ 31"
    using int_diff_bound [OF assms(4), of 0] by simp
  moreover have "x + y \<le> int (unat data_len) + int (unat sgl_len)"
    using x(3) y(3) by linarith
  ultimately have "x + y < 2 ^ 31" by linarith
  then have "0 \<le> x + y" and "x + y < 2 ^ 32" using x(2) y(2) by simp_all
  then have "unat (word_of_int (x + y) :: u32) = nat x + nat y"
    using x(2) y(2) by (subst unat_word_of_int) (simp_all add: nat_add_distrib)
  moreover have "unat data_len - 64 \<le> nat x * unat mbau"
    and "nat x * unat mbau < unat data_len - 64 + unat mbau"
    and "unat sgl_len - 8 \<le> nat y * unat mbau"
    and "nat y * unat mbau < unat sgl_len - 8 + unat mbau"
    using x(2,4,5) y(2,4,5)
    by (simp_all flip: of_nat_le_iff [where 'a = int] of_nat_less_iff [where 'a = int])
  ultimately show ?thesis
    using x(1) y(1) s(3) sub by (simp add: CalculateFalconTxBufferCredits_def) blast
qed

theorem tx_buffer_credits_exact_witness:
  "\<exists>c. CalculateFalconTxBufferCredits 100 24 32 = Inr c \<and> (36::nat) \<le> unat c * 32"
proof -
  obtain c a b where c: "CalculateFalconTxBufferCredits 100 24 32 = Inr c" "unat c = a + b"
    "unat (100::u32) - 64 \<le> a * unat (32::u32)"
    using tx_buffer_credits_exact [of 32 100 24] by auto
  then have "(36::nat) \<le> unat c * 32" by simp
  with c(1) show ?thesis by blast
qed

text \<open>
  Both ends key a transaction consistently: whenever a packet type has a location, the
  sender of the packet and its receiver hold opposite roles, and the packet that Falcon
  generates in reply (grant for request, data for grant) is sent from the role that received
  its predecessor. Only acknowledgements, resync and invalid packets have no location.
\<close>

theorem transaction_location_consistent:
  "(GetTransactionLocation t False = Inr l \<longrightarrow>
      GetTransactionLocation t True = Inr (if l = kInitiator then kTarget else kInitiator)) \<and>
   (GetNextFalconPacket t = Inr t' \<longrightarrow>
      GetTransactionLocation t' False = GetTransactionLocation t True) \<and>
   (GetTransactionLocation t incoming = Inl LogFatal \<longleftrightarrow>
      t \<in> {kInvalid, kResync, kAck, kNack, kBack, kEack})"
  by (cases t) (auto simp: GetNextFalconPacket_def)

theorem transaction_location_consistent_witness:
  "GetTransactionLocation kPushGrant False = GetTransactionLocation kPushRequest True"
  using transaction_location_consistent [of kPushRequest kInitiator kPushGrant True]
  by (simp add: GetNextFalconPacket_def)

end
