(* ===== verification/Resource_Credits.thy ===== *)
theory Resource_Credits
  imports Falcon_Types "HOL-Library.Multiset"
begin

text \<open>
  Credit vectors: \<^verbatim>\<open>FalconResourceCredits\<close>
  (\<^verbatim>\<open>src/isekai/host/falcon/falcon_resource_credits.{h,cc}\<close>), ten signed 32-bit counters of the
  Falcon resource pools, and \<^verbatim>\<open>FalconCredit\<close> (\<^verbatim>\<open>src/isekai/common/model_interfaces.h\<close>), the six
  unsigned 32-bit counters the upper layer manages.

  The signed counters are integers: \<open>credits_plus\<close> and \<open>credits_minus\<close> are the exact
  sums, and the operators \<^verbatim>\<open>+=\<close> and \<^verbatim>\<open>-=\<close> are undefined where a counter leaves the range. The
  unsigned ones wrap around. Both are instances of locale \<open>credit_vector\<close>: credits taken
  in any order and given back in any other order leave the pool as it was.
\<close>

section \<open>Falcon resource credits\<close>

record resource_credits =
  tx_packet_ulp_requests :: int
  tx_packet_ulp_data :: int
  tx_packet_network_requests :: int
  tx_buffer_ulp_requests :: int
  tx_buffer_ulp_data :: int
  tx_buffer_network_requests :: int
  rx_packet_ulp_requests :: int
  rx_packet_network_requests :: int
  rx_buffer_ulp_requests :: int
  rx_buffer_network_requests :: int

definition credits_zero :: resource_credits where
  "credits_zero =
     \<lparr>tx_packet_ulp_requests = 0, tx_packet_ulp_data = 0, tx_packet_network_requests = 0,
      tx_buffer_ulp_requests = 0, tx_buffer_ulp_data = 0, tx_buffer_network_requests = 0,
      rx_packet_ulp_requests = 0, rx_packet_network_requests = 0,
      rx_buffer_ulp_requests = 0, rx_buffer_network_requests = 0\<rparr>"

definition credits_IsInitialized :: "resource_credits \<Rightarrow> bool" where
  "credits_IsInitialized c \<longleftrightarrow>
     tx_packet_ulp_requests c \<noteq> 0 \<or> tx_packet_ulp_data c \<noteq> 0 \<or> tx_packet_network_requests c \<noteq> 0 \<or>
     tx_buffer_ulp_requests c \<noteq> 0 \<or> tx_buffer_ulp_data c \<noteq> 0 \<or> tx_buffer_network_requests c \<noteq> 0 \<or>
     rx_packet_ulp_requests c \<noteq> 0 \<or> rx_packet_network_requests c \<noteq> 0 \<or>
     rx_buffer_ulp_requests c \<noteq> 0 \<or> rx_buffer_network_requests c \<noteq> 0"

definition credits_eq :: "resource_credits \<Rightarrow> resource_credits \<Rightarrow> bool" where
  "credits_eq a b \<longleftrightarrow>
     tx_packet_ulp_requests a = tx_packet_ulp_requests b \<and>
     tx_packet_ulp_data a = tx_packet_ulp_data b \<and>
     tx_packet_network_requests a = tx_packet_network_requests b \<and>
     tx_buffer_ulp_requests a = tx_buffer_ulp_requests b \<and>
     tx_buffer_ulp_data a = tx_buffer_ulp_data b \<and>
     tx_buffer_network_requests a = tx_buffer_network_requests b \<and>
     rx_packet_ulp_requests a = rx_packet_ulp_requests b \<and>
     rx_packet_network_requests a = rx_packet_network_requests b \<and>
     rx_buffer_ulp_requests a = rx_buffer_ulp_requests b \<and>
     rx_buffer_network_requests a = rx_buffer_network_requests b"

definition credits_le :: "resource_credits \<Rightarrow> resource_credits \<Rightarrow> bool" where
  "credits_le a b \<longleftrightarrow>
     tx_packet_ulp_requests a \<le> tx_packet_ulp_requests b \<and>
     tx_packet_network_requests a \<le> tx_packet_network_requests b \<and>
     tx_buffer_ulp_requests a \<le> tx_buffer_ulp_requests b \<and>
     tx_buffer_network_requests a \<le> tx_buffer_network_requests b \<and>
     rx_packet_ulp_requests a \<le> rx_packet_ulp_requests b \<and>
     rx_packet_network_requests a \<le> rx_packet_network_requests b \<and>
     rx_buffer_ulp_requests a \<le> rx_buffer_ulp_requests b \<and>
     rx_buffer_network_requests a \<le> rx_buffer_network_requests b \<and>
     tx_packet_ulp_data a \<le> tx_packet_ulp_data b \<and>
     tx_buffer_ulp_data a \<le> tx_buffer_ulp_data b"

definition credits_lift2 ::
  "(int \<Rightarrow> int \<Rightarrow> int) \<Rightarrow> resource_credits \<Rightarrow> resource_credits \<Rightarrow> resource_credits" where
  "credits_lift2 f a b =
     \<lparr>tx_packet_ulp_requests = f (tx_packet_ulp_requests a) (tx_packet_ulp_requests b),
      tx_packet_ulp_data = f (tx_packet_ulp_data a) (tx_packet_ulp_data b),
      tx_packet_network_requests = f (tx_packet_network_requests a) (tx_packet_network_requests b),
      tx_buffer_ulp_requests = f (tx_buffer_ulp_requests a) (tx_buffer_ulp_requests b),
      tx_buffer_ulp_data = f (tx_buffer_ulp_data a) (tx_buffer_ulp_data b),
      tx_buffer_network_requests = f (tx_buffer_network_requests a) (tx_buffer_network_requests b),
      rx_packet_ulp_requests = f (rx_packet_ulp_requests a) (rx_packet_ulp_requests b),
      rx_packet_network_requests = f (rx_packet_network_requests a) (rx_packet_network_requests b),
      rx_buffer_ulp_requests = f (rx_buffer_ulp_requests a) (rx_buffer_ulp_requests b),
      rx_buffer_network_requests = f (rx_buffer_network_requests a) (rx_buffer_network_requests b)\<rparr>"

definition credits_plus :: "resource_credits \<Rightarrow> resource_credits \<Rightarrow> resource_credits" where
  "credits_plus = credits_lift2 (+)"

definition credits_minus :: "resource_credits \<Rightarrow> resource_credits \<Rightarrow> resource_credits" where
  "credits_minus = credits_lift2 (-)"

definition credits_in_range :: "resource_credits \<Rightarrow> bool" where
  "credits_in_range c \<longleftrightarrow>
     in_int32 (tx_packet_ulp_requests c) \<and> in_int32 (tx_packet_ulp_data c) \<and>
     in_int32 (tx_packet_network_requests c) \<and> in_int32 (tx_buffer_ulp_requests c) \<and>
     in_int32 (tx_buffer_ulp_data c) \<and> in_int32 (tx_buffer_network_requests c) \<and>
     in_int32 (rx_packet_ulp_requests c) \<and> in_int32 (rx_packet_network_requests c) \<and>
     in_int32 (rx_buffer_ulp_requests c) \<and> in_int32 (rx_buffer_network_requests c)"

definition credits_plus_assign :: "resource_credits \<Rightarrow> resource_credits \<Rightarrow> resource_credits res" where
  "credits_plus_assign a b =
     (if credits_in_range (credits_plus a b) then Inr (credits_plus a b) else Inl UndefinedBehaviour)"

definition credits_minus_assign :: "resource_credits \<Rightarrow> resource_credits \<Rightarrow> resource_credits res" where
  "credits_minus_assign a b =
     (if credits_in_range (credits_minus a b) then Inr (credits_minus a b) else Inl UndefinedBehaviour)"

section \<open>Credits of the upper layer\<close>

record falcon_credit =
  request_tx_packet :: u32
  request_tx_buffer :: u32
  request_rx_packet :: u32
  request_rx_buffer :: u32
  response_tx_packet :: u32
  response_tx_buffer :: u32

definition fcredit_zero :: falcon_credit where
  "fcredit_zero = \<lparr>request_tx_packet = 0, request_tx_buffer = 0, request_rx_packet = 0,
     request_rx_buffer = 0, response_tx_packet = 0, response_tx_buffer = 0\<rparr>"

definition fcredit_IsInitialized :: "falcon_credit \<Rightarrow> bool" where
  "fcredit_IsInitialized c \<longleftrightarrow> request_tx_packet c \<noteq> 0 \<or> request_tx_buffer c \<noteq> 0 \<or>
     request_rx_packet c \<noteq> 0 \<or> request_rx_buffer c \<noteq> 0 \<or>
     response_tx_packet c \<noteq> 0 \<or> response_tx_buffer c \<noteq> 0"

definition fcredit_eq :: "falcon_credit \<Rightarrow> falcon_credit \<Rightarrow> bool" where
  "fcredit_eq a b \<longleftrightarrow> request_tx_packet a = request_tx_packet b \<and>
     request_tx_buffer a = request_tx_buffer b \<and> request_rx_packet a = request_rx_packet b \<and>
     request_rx_buffer a = request_rx_buffer b \<and> response_tx_packet a = response_tx_packet b \<and>
     response_tx_buffer a = response_tx_buffer b"

definition fcredit_less :: "falcon_credit \<Rightarrow> falcon_credit \<Rightarrow> bool" where
  "fcredit_less a b \<longleftrightarrow> request_tx_packet a < request_tx_packet b \<and>
     request_tx_buffer a < request_tx_buffer b \<and> request_rx_packet a < request_rx_packet b \<and>
     request_rx_buffer a < request_rx_buffer b \<and> response_tx_packet a < response_tx_packet b \<and>
     response_tx_buffer a < response_tx_buffer b"

definition fcredit_le :: "falcon_credit \<Rightarrow> falcon_credit \<Rightarrow> bool" where
  "fcredit_le a b \<longleftrightarrow> request_tx_packet a \<le> request_tx_packet b \<and>
     request_tx_buffer a \<le> request_tx_buffer b \<and> request_rx_packet a \<le> request_rx_packet b \<and>
     request_rx_buffer a \<le> request_rx_buffer b \<and> response_tx_packet a \<le> response_tx_packet b \<and>
     response_tx_buffer a \<le> response_tx_buffer b"

definition fcredit_plus :: "falcon_credit \<Rightarrow> falcon_credit \<Rightarrow> falcon_credit" where
  "fcredit_plus a b =
     \<lparr>request_tx_packet = request_tx_packet a + request_tx_packet b,
      request_tx_buffer = request_tx_buffer a + request_tx_buffer b,
      request_rx_packet = request_rx_packet a + request_rx_packet b,
      request_rx_buffer = request_rx_buffer a + request_rx_buffer b,
      response_tx_packet = response_tx_packet a + response_tx_packet b,
      response_tx_buffer = response_tx_buffer a + response_tx_buffer b\<rparr>"

definition fcredit_minus :: "falcon_credit \<Rightarrow> falcon_credit \<Rightarrow> falcon_credit" where
  "fcredit_minus a b =
     \<lparr>request_tx_packet = request_tx_packet a - request_tx_packet b,
      request_tx_buffer = request_tx_buffer a - request_tx_buffer b,
      request_rx_packet = request_rx_packet a - request_rx_packet b,
      request_rx_buffer = request_rx_buffer a - request_rx_buffer b,
      response_tx_packet = response_tx_packet a - response_tx_packet b,
      response_tx_buffer = response_tx_buffer a - response_tx_buffer b\<rparr>"

text \<open>The assignment from \<^verbatim>\<open>FalconResourceCredits\<close>: signed counters are reinterpreted.\<close>

definition fcredit_of :: "resource_credits \<Rightarrow> falcon_credit" where
  "fcredit_of c =
     \<lparr>request_tx_packet = word_of_int (tx_packet_ulp_requests c),
      request_tx_buffer = word_of_int (tx_buffer_ulp_requests c),
      request_rx_packet = word_of_int (rx_packet_ulp_requests c),
      request_rx_buffer = word_of_int (rx_buffer_ulp_requests c),
      response_tx_packet = word_of_int (tx_packet_ulp_data c),
      response_tx_buffer = word_of_int (tx_buffer_ulp_data c)\<rparr>"

section \<open>The common contract\<close>

lemmas credits_simps = credits_plus_def credits_minus_def credits_lift2_def credits_zero_def
  credits_le_def credits_eq_def

lemmas fcredit_simps = fcredit_plus_def fcredit_minus_def fcredit_zero_def fcredit_le_def fcredit_eq_def

lemma credits_eq_iff: "credits_eq a b \<longleftrightarrow> a = b"
  by (cases a; cases b) (auto simp: credits_eq_def)

lemma fcredit_eq_iff: "fcredit_eq a b \<longleftrightarrow> a = b"
  by (cases a; cases b) (auto simp: fcredit_eq_def)

locale credit_vector =
  fixes zero :: 'c
    and plus :: "'c \<Rightarrow> 'c \<Rightarrow> 'c"
    and minus :: "'c \<Rightarrow> 'c \<Rightarrow> 'c"
    and within :: "'c \<Rightarrow> 'c \<Rightarrow> bool"
  assumes plus_assoc: "plus (plus a b) c = plus a (plus b c)"
    and plus_commute: "plus a b = plus b a"
    and plus_zero: "plus a zero = a"
    and minus_plus: "plus (minus a b) b = a"
    and plus_minus: "minus (plus a b) b = a"
    and within_refl: "within a a"
    and within_trans: "within a b \<Longrightarrow> within b c \<Longrightarrow> within a c"
    and within_antisym: "within a b \<Longrightarrow> within b a \<Longrightarrow> a = b"
begin

definition take_all :: "'c list \<Rightarrow> 'c \<Rightarrow> 'c" where
  "take_all cs pool = fold (\<lambda>c p. minus p c) cs pool"

definition give_all :: "'c list \<Rightarrow> 'c \<Rightarrow> 'c" where
  "give_all cs pool = fold (\<lambda>c p. plus p c) cs pool"

lemma plus_left_commute: "plus a (plus b c) = plus b (plus a c)"
  by (metis plus_assoc plus_commute)

lemma minus_eq: "minus a b = c \<longleftrightarrow> a = plus c b"
  by (metis minus_plus plus_minus)

lemma give_all_plus: "give_all cs (plus p c) = plus (give_all cs p) c"
proof (induction cs arbitrary: p)
  case (Cons d cs)
  have "plus (plus p c) d = plus (plus p d) c" by (metis plus_assoc plus_commute)
  with Cons show ?case by (simp add: give_all_def)
qed (simp add: give_all_def)

lemma give_all_perm: "mset cs = mset ds \<Longrightarrow> give_all cs p = give_all ds p"
proof (induction cs arbitrary: ds p)
  case (Cons c cs)
  then have "c \<in> set ds" by (metis list.set_intros(1) set_mset_mset)
  then obtain xs ys where ds: "ds = xs @ c # ys" by (auto simp: in_set_conv_decomp)
  with Cons.prems have "mset cs = mset (xs @ ys)" by simp
  from Cons.IH [OF this] have "give_all (c # cs) p = give_all (xs @ ys) (plus p c)"
    by (simp add: give_all_def)
  also have "\<dots> = give_all ys (plus (give_all xs p) c)"
    using give_all_plus [of xs] by (simp add: give_all_def)
  also have "\<dots> = give_all ds p" using ds by (simp add: give_all_def)
  finally show ?case .
qed (simp add: give_all_def)

lemma give_take: "give_all (rev cs) (take_all cs p) = p"
  by (induction cs arbitrary: p) (simp_all add: give_all_def take_all_def minus_plus)

text \<open>Credits taken and given back in any order leave the pool as it was.\<close>

lemma balanced:
  assumes "mset given = mset taken"
  shows "give_all given (take_all taken pool) = pool"
  using give_all_perm [of given "rev taken" "take_all taken pool"] give_take assms by simp

end

interpretation rc: credit_vector credits_zero credits_plus credits_minus credits_le
  by unfold_locales (auto simp: credits_simps intro!: resource_credits.equality)

interpretation fc: credit_vector fcredit_zero fcredit_plus fcredit_minus fcredit_le
  by unfold_locales (auto simp: fcredit_simps ac_simps intro!: falcon_credit.equality)

section \<open>Properties\<close>

definition credits_nonneg :: "resource_credits \<Rightarrow> bool" where
  "credits_nonneg c \<longleftrightarrow> credits_le credits_zero c"

lemma within_leaves_nonneg: "credits_le b a \<longleftrightarrow> credits_nonneg (credits_minus a b)"
  by (simp add: credits_nonneg_def credits_simps)

lemma in_int32_diff: "in_int32 a \<Longrightarrow> 0 \<le> b \<Longrightarrow> b \<le> a \<Longrightarrow> in_int32 (a - b)"
  by (simp add: in_int32_def)

lemma credits_minus_assign_ok:
  assumes "credits_le b a" and "credits_nonneg b" and "credits_in_range a"
  shows "credits_minus_assign a b = Inr (credits_minus a b)"
proof -
  have "credits_in_range (credits_minus a b)"
    using assms by (simp add: credits_in_range_def credits_nonneg_def credits_simps in_int32_diff)
  then show ?thesis by (simp add: credits_minus_assign_def)
qed

lemma fcredit_of_plus: "fcredit_of (credits_plus a b) = fcredit_plus (fcredit_of a) (fcredit_of b)"
  by (simp add: fcredit_of_def fcredit_simps credits_simps)

text \<open>
  A request within the pool can be taken and leaves no pool negative; taking a request that
  is not within the pool would make one negative. What was taken can be given back and restores
  the pool exactly, and the upper layer's view of the credits moves in step, modulo \<open>2^32\<close>.
\<close>

theorem credit_take_give:
  assumes "credits_in_range pool" and "credits_nonneg request"
  shows "(credits_le request pool \<longrightarrow>
      (\<exists>rest. credits_minus_assign pool request = Inr rest \<and> credits_nonneg rest \<and>
         credits_plus_assign rest request = Inr pool \<and>
         fcredit_plus (fcredit_of rest) (fcredit_of request) = fcredit_of pool)) \<and>
    (\<not> credits_le request pool \<longrightarrow> \<not> credits_nonneg (credits_minus pool request))"
proof (intro conjI impI)
  assume le: "credits_le request pool"
  let ?rest = "credits_minus pool request"
  have restored: "credits_plus ?rest request = pool" by (rule rc.minus_plus)
  have "credits_minus_assign pool request = Inr ?rest"
    using credits_minus_assign_ok [OF le assms(2,1)] .
  moreover have "credits_nonneg ?rest" using le within_leaves_nonneg by blast
  moreover have "credits_plus_assign ?rest request = Inr pool"
    using restored assms(1) by (simp add: credits_plus_assign_def)
  moreover have "fcredit_plus (fcredit_of ?rest) (fcredit_of request) = fcredit_of pool"
    using fcredit_of_plus [of ?rest request] restored by simp
  ultimately show "\<exists>rest. credits_minus_assign pool request = Inr rest \<and> credits_nonneg rest \<and>
         credits_plus_assign rest request = Inr pool \<and>
         fcredit_plus (fcredit_of rest) (fcredit_of request) = fcredit_of pool" by blast
next
  assume "\<not> credits_le request pool"
  then show "\<not> credits_nonneg (credits_minus pool request)" using within_leaves_nonneg by blast
qed

theorem credit_take_give_witness:
  "\<exists>rest. credits_minus_assign (credits_zero\<lparr>tx_packet_ulp_requests := 5\<rparr>)
      (credits_zero\<lparr>tx_packet_ulp_requests := 2\<rparr>) = Inr rest \<and> credits_nonneg rest"
  using credit_take_give [of "credits_zero\<lparr>tx_packet_ulp_requests := 5\<rparr>"
      "credits_zero\<lparr>tx_packet_ulp_requests := 2\<rparr>"]
  by (auto simp: credits_in_range_def credits_nonneg_def credits_simps in_int32_def)

end
