(* ===== verification/Transactions.thy ===== *)
theory Transactions
  imports Falcon_Types "HOL-Library.Sublist"
begin

text \<open>
  The transaction state machine of \<^verbatim>\<open>src/isekai/host/falcon/falcon_connection_state.cc\<close>:
  \<^verbatim>\<open>TransactionMetadata::UpdateState\<close>, one function per packet type as the outer
  \<^verbatim>\<open>switch\<close> has it, and the two operations of \<^verbatim>\<open>ConnectionState\<close> that create and update
  transactions from the upper layer protocol (ULP) and from the network.

  \<open>UpdateState\<close> returns the new metadata and the samples handed to the histogram
  collector, or the fault of a failed \<^verbatim>\<open>CHECK\<close> or a \<^verbatim>\<open>LOG(FATAL)\<close>. Its abstract
  specification is the step relation \<open>txn_step\<close> on states alone; \<open>UpdateState_refines\<close>
  relates the two, and the properties about orders of events are proved on traces of the
  relation.
\<close>

section \<open>Latency samples\<close>

datatype latency_type =
    Pull_kRxUlpRequestToTxNetworkRequest
  | Pull_kTxNetworkRequestToRxNetworkData
  | Pull_kRxNetworkDataToTxUlpData
  | Pull_kTxNetworkRequestToTxUlpData
  | Pull_kRxNetworkRequestToTxUlpRequest
  | Pull_kTxUlpRequestToRxUlpRequestAck
  | Pull_kRxUlpRequestAckToRxUlpData
  | Pull_kRxUlpDataToTxNetworkData
  | Pull_kTxNetworkDataToRxNetworkAck
  | Pull_kTotalLatency
  | PushSolicited_kRxUlpDataToTxNetworkRequest
  | PushSolicited_kTxNetworkRequestToRxNetworkGrant
  | PushSolicited_kRxNetworkGrantToTxNetworkData
  | PushSolicited_kTxNetworkDataToRxNetworkAck
  | PushSolicited_kRxNetworkAckToTxUlpCompletion
  | PushSolicited_kRxNetworkRequestToTxNetworkGrant
  | PushSolicited_kTxNetworkGrantToRxNetworkData
  | PushSolicited_kRxNetworkDataToTxUlpData
  | PushSolicited_kTxUlpDataToRxUlpAck
  | PushSolicited_kTxNetworkGrantToTxUlpData
  | PushSolicited_kTotalLatency
  | PushUnsolicited_kRxUlpDataToTxNetworkData
  | PushUnsolicited_kTxNetworkDataToRxNetworkAck
  | PushUnsolicited_kRxNetworkAckToTxUlpCompletion
  | PushUnsolicited_kRxNetworkDataToTxUlpData
  | PushUnsolicited_kTxUlpDataToRxUlpAck
  | PushUnsolicited_kTotalLatency

type_synonym sample = "latency_type \<times> duration"

text \<open>
  What one branch of the \<^verbatim>\<open>switch\<close> yields: the metadata, the samples, and
  \<^verbatim>\<open>is_timestamp_update_eligible\<close>.
\<close>

type_synonym branch = "(transaction_metadata \<times> sample list \<times> bool) res"

definition since_update :: "duration \<Rightarrow> transaction_metadata \<Rightarrow> duration" where
  "since_update now t = dur_diff now (tm_last_state_update_timestamp t)"

definition since_start :: "duration \<Rightarrow> transaction_metadata \<Rightarrow> duration" where
  "since_start now t = dur_diff now (tm_transaction_start_timestamp t)"

section \<open>UpdateState\<close>

fun UpdateState_PullRequest :: "duration \<Rightarrow> transaction_stage \<Rightarrow> transaction_metadata \<Rightarrow> branch" where
  "UpdateState_PullRequest now UlpRx t =
     Inr (t\<lparr>tm_transaction_start_timestamp := now, tm_state := kPullReqUlpRx\<rparr>, [], True)"
| "UpdateState_PullRequest now UlpTx t =
     check (tm_state t = kPullReqNtwkRx \<or> tm_state t = kPullReqRnrUlpRx)
       (Inr (t\<lparr>tm_state := kPullReqUlpTx\<rparr>,
         [(Pull_kRxNetworkRequestToTxUlpRequest, since_update now t)], True))"
| "UpdateState_PullRequest now UlpAckRx t =
     check (tm_state t = kPullReqUlpTx)
       (Inr (t\<lparr>tm_state := kPullReqAckUlpRx\<rparr>,
         [(Pull_kTxUlpRequestToRxUlpRequestAck, since_update now t)], True))"
| "UpdateState_PullRequest now UlpCompletionTx t = Inl LogFatal"
| "UpdateState_PullRequest now NtwkRx t = Inr (t\<lparr>tm_state := kPullReqNtwkRx\<rparr>, [], True)"
| "UpdateState_PullRequest now NtwkTx t =
     check (tm_state t = kPullReqUlpRx)
       (Inr (t\<lparr>tm_state := kPullReqNtwkTx\<rparr>,
         [(Pull_kRxUlpRequestToTxNetworkRequest, since_update now t)], True))"
| "UpdateState_PullRequest now NtwkAckRx t = Inr (t, [], False)"
| "UpdateState_PullRequest now UlpRnrRx t =
     check (tm_state t = kPullReqUlpTx \<or> tm_state t = kPullReqNtwkRx)
       (Inr (t\<lparr>tm_state := kPullReqRnrUlpRx\<rparr>, [], True))"

fun UpdateState_PullData :: "duration \<Rightarrow> transaction_stage \<Rightarrow> transaction_metadata \<Rightarrow> branch" where
  "UpdateState_PullData now UlpRx t =
     check (tm_state t = kPullReqAckUlpRx)
       (Inr (t\<lparr>tm_state := kPullDataUlpRx\<rparr>,
         [(Pull_kRxUlpRequestAckToRxUlpData, since_update now t)], True))"
| "UpdateState_PullData now UlpTx t =
     check (tm_state t = kPullDataNtwkRx)
       (Inr (t\<lparr>tm_state := kPullDataUlpTx\<rparr>,
         [(Pull_kRxNetworkDataToTxUlpData, since_update now t),
          (Pull_kTotalLatency, since_start now t)], True))"
| "UpdateState_PullData now UlpAckRx t = Inl LogFatal"
| "UpdateState_PullData now UlpCompletionTx t = Inl LogFatal"
| "UpdateState_PullData now NtwkRx t =
     check (tm_state t = kPullReqNtwkTx)
       (Inr (t\<lparr>tm_state := kPullDataNtwkRx\<rparr>,
         [(Pull_kTxNetworkRequestToRxNetworkData, since_update now t)], True))"
| "UpdateState_PullData now NtwkTx t =
     check (tm_state t = kPullDataUlpRx)
       (Inr (t\<lparr>tm_state := kPullDataNtwkTx\<rparr>,
         [(Pull_kRxUlpDataToTxNetworkData, since_update now t)], True))"
| "UpdateState_PullData now NtwkAckRx t =
     check (tm_state t = kPullDataNtwkTx)
       (Inr (t\<lparr>tm_state := kPullDataAckNtwkRx\<rparr>,
         [(Pull_kTxNetworkDataToRxNetworkAck, since_update now t)], True))"
| "UpdateState_PullData now UlpRnrRx t = Inl LogFatal"

fun UpdateState_PushRequest :: "duration \<Rightarrow> transaction_stage \<Rightarrow> transaction_metadata \<Rightarrow> branch" where
  "UpdateState_PushRequest now UlpRx t =
     Inr (t\<lparr>tm_transaction_start_timestamp := now, tm_state := kPushSolicitedReqUlpRx\<rparr>, [], True)"
| "UpdateState_PushRequest now UlpTx t = Inl LogFatal"
| "UpdateState_PushRequest now UlpAckRx t = Inl LogFatal"
| "UpdateState_PushRequest now UlpCompletionTx t = Inl LogFatal"
| "UpdateState_PushRequest now NtwkRx t = Inr (t\<lparr>tm_state := kPushReqNtwkRx\<rparr>, [], True)"
| "UpdateState_PushRequest now NtwkTx t =
     check (tm_state t = kPushSolicitedReqUlpRx)
       (Inr (t\<lparr>tm_state := kPushReqNtwkTx\<rparr>,
         [(PushSolicited_kRxUlpDataToTxNetworkRequest, since_update now t)], True))"
| "UpdateState_PushRequest now NtwkAckRx t = Inr (t, [], False)"
| "UpdateState_PushRequest now UlpRnrRx t = Inl LogFatal"

fun UpdateState_PushGrant :: "duration \<Rightarrow> transaction_stage \<Rightarrow> transaction_metadata \<Rightarrow> branch" where
  "UpdateState_PushGrant now UlpRx t = Inl LogFatal"
| "UpdateState_PushGrant now UlpTx t = Inl LogFatal"
| "UpdateState_PushGrant now UlpAckRx t = Inl LogFatal"
| "UpdateState_PushGrant now UlpCompletionTx t = Inl LogFatal"
| "UpdateState_PushGrant now NtwkRx t =
     check (tm_state t = kPushReqNtwkTx)
       (Inr (t\<lparr>tm_state := kPushGrantNtwkRx\<rparr>,
         [(PushSolicited_kTxNetworkRequestToRxNetworkGrant, since_update now t)], True))"
| "UpdateState_PushGrant now NtwkTx t =
     check (tm_state t = kPushReqNtwkRx)
       (Inr (t\<lparr>tm_state := kPushGrantNtwkTx\<rparr>,
         [(PushSolicited_kRxNetworkRequestToTxNetworkGrant, since_update now t)], True))"
| "UpdateState_PushGrant now NtwkAckRx t = Inr (t, [], False)"
| "UpdateState_PushGrant now UlpRnrRx t = Inl LogFatal"

fun UpdateState_PushSolicitedData ::
  "duration \<Rightarrow> transaction_stage \<Rightarrow> transaction_metadata \<Rightarrow> branch" where
  "UpdateState_PushSolicitedData now UlpRx t = Inl LogFatal"
| "UpdateState_PushSolicitedData now UlpTx t =
     check (tm_state t = kPushSolicitedDataNtwkRx \<or> tm_state t = kPushSolicitedDataRnrUlpRx)
       (Inr (t\<lparr>tm_state := kPushSolicitedDataUlpTx\<rparr>,
         [(PushSolicited_kRxNetworkDataToTxUlpData, since_update now t)], True))"
| "UpdateState_PushSolicitedData now UlpAckRx t =
     check (tm_state t = kPushSolicitedDataUlpTx)
       (Inr (t\<lparr>tm_state := kPushSolicitedDataAckUlpRx\<rparr>,
         [(PushSolicited_kTxUlpDataToRxUlpAck, since_update now t)], True))"
| "UpdateState_PushSolicitedData now UlpCompletionTx t =
     check (tm_state t = kPushSolicitedDataAckNtwkRx)
       (Inr (t\<lparr>tm_state := kPushCompletionUlpTx\<rparr>,
         [(PushSolicited_kRxNetworkAckToTxUlpCompletion, since_update now t),
          (PushSolicited_kTotalLatency, since_start now t)], True))"
| "UpdateState_PushSolicitedData now NtwkRx t =
     check (tm_state t = kPushGrantNtwkTx)
       (Inr (t\<lparr>tm_state := kPushSolicitedDataNtwkRx\<rparr>,
         [(PushSolicited_kTxNetworkGrantToRxNetworkData, since_update now t)], True))"
| "UpdateState_PushSolicitedData now NtwkTx t =
     check (tm_state t = kPushGrantNtwkRx)
       (Inr (t\<lparr>tm_state := kPushSolicitedDataNtwkTx\<rparr>,
         [(PushSolicited_kRxNetworkGrantToTxNetworkData, since_update now t)], True))"
| "UpdateState_PushSolicitedData now NtwkAckRx t =
     check (tm_state t = kPushSolicitedDataNtwkTx)
       (Inr (t\<lparr>tm_state := kPushSolicitedDataAckNtwkRx\<rparr>,
         [(PushSolicited_kTxNetworkDataToRxNetworkAck, since_update now t)], True))"
| "UpdateState_PushSolicitedData now UlpRnrRx t =
     check (tm_state t = kPushSolicitedDataUlpTx \<or> tm_state t = kPushSolicitedDataNtwkRx)
       (Inr (t\<lparr>tm_state := kPushSolicitedDataRnrUlpRx\<rparr>, [], True))"

fun UpdateState_PushUnsolicitedData ::
  "duration \<Rightarrow> transaction_stage \<Rightarrow> transaction_metadata \<Rightarrow> branch" where
  "UpdateState_PushUnsolicitedData now UlpRx t =
     Inr (t\<lparr>tm_transaction_start_timestamp := now, tm_state := kPushUnsolicitedReqUlpRx\<rparr>, [], True)"
| "UpdateState_PushUnsolicitedData now UlpTx t =
     check (tm_state t = kPushUnsolicitedDataNtwkRx \<or> tm_state t = kPushUnsolicitedDataRnrUlpRx)
       (Inr (t\<lparr>tm_state := kPushUnsolicitedDataUlpTx\<rparr>,
         [(PushUnsolicited_kRxNetworkDataToTxUlpData, since_update now t)], True))"
| "UpdateState_PushUnsolicitedData now UlpAckRx t =
     check (tm_state t = kPushUnsolicitedDataUlpTx)
       (Inr (t\<lparr>tm_state := kPushUnsolicitedDataAckUlpRx\<rparr>,
         [(PushUnsolicited_kTxUlpDataToRxUlpAck, since_update now t)], True))"
| "UpdateState_PushUnsolicitedData now UlpCompletionTx t =
     check (tm_state t = kPushUnsolicitedDataAckNtwkRx)
       (Inr (t\<lparr>tm_state := kPushCompletionUlpTx\<rparr>,
         [(PushUnsolicited_kRxNetworkAckToTxUlpCompletion, since_update now t),
          (PushUnsolicited_kTotalLatency, since_start now t)], True))"
| "UpdateState_PushUnsolicitedData now NtwkRx t =
     Inr (t\<lparr>tm_state := kPushUnsolicitedDataNtwkRx\<rparr>, [], True)"
| "UpdateState_PushUnsolicitedData now NtwkTx t =
     check (tm_state t = kPushUnsolicitedReqUlpRx)
       (Inr (t\<lparr>tm_state := kPushUnsolicitedDataNtwkTx\<rparr>,
         [(PushUnsolicited_kRxUlpDataToTxNetworkData, since_update now t)], True))"
| "UpdateState_PushUnsolicitedData now NtwkAckRx t =
     check (tm_state t = kPushUnsolicitedDataNtwkTx)
       (Inr (t\<lparr>tm_state := kPushUnsolicitedDataAckNtwkRx\<rparr>,
         [(PushUnsolicited_kTxNetworkDataToRxNetworkAck, since_update now t)], True))"
| "UpdateState_PushUnsolicitedData now UlpRnrRx t =
     check (tm_state t = kPushUnsolicitedDataUlpTx \<or> tm_state t = kPushUnsolicitedDataNtwkRx)
       (Inr (t\<lparr>tm_state := kPushUnsolicitedDataRnrUlpRx\<rparr>, [], True))"

fun UpdateState_branch ::
  "duration \<Rightarrow> packet_type \<Rightarrow> transaction_stage \<Rightarrow> transaction_metadata \<Rightarrow> branch" where
  "UpdateState_branch now kPullRequest stage t = UpdateState_PullRequest now stage t"
| "UpdateState_branch now kPullData stage t = UpdateState_PullData now stage t"
| "UpdateState_branch now kPushRequest stage t = UpdateState_PushRequest now stage t"
| "UpdateState_branch now kPushGrant stage t = UpdateState_PushGrant now stage t"
| "UpdateState_branch now kPushSolicitedData stage t = UpdateState_PushSolicitedData now stage t"
| "UpdateState_branch now kPushUnsolicitedData stage t =
     UpdateState_PushUnsolicitedData now stage t"
| "UpdateState_branch now _ stage t = Inl LogFatal"

definition UpdateState ::
  "duration \<Rightarrow> packet_type \<Rightarrow> transaction_stage \<Rightarrow> transaction_metadata \<Rightarrow>
   (transaction_metadata \<times> sample list) res" where
  "UpdateState now type stage t =
     res_bind (UpdateState_branch now type stage t) (\<lambda>(t', samples, is_timestamp_update_eligible).
       Inr (if is_timestamp_update_eligible
            then t'\<lparr>tm_last_state_update_timestamp := now\<rparr> else t', samples))"

section \<open>The step relation on states\<close>

type_synonym txn_event = "packet_type \<times> transaction_stage"

inductive txn_step :: "transaction_state \<Rightarrow> txn_event \<Rightarrow> transaction_state \<Rightarrow> bool" where
  pull_start: "txn_step s (kPullRequest, UlpRx) kPullReqUlpRx"
| pull_req_out: "txn_step kPullReqUlpRx (kPullRequest, NtwkTx) kPullReqNtwkTx"
| pull_data_in: "txn_step kPullReqNtwkTx (kPullData, NtwkRx) kPullDataNtwkRx"
| pull_data_up: "txn_step kPullDataNtwkRx (kPullData, UlpTx) kPullDataUlpTx"
| pull_req_in: "txn_step s (kPullRequest, NtwkRx) kPullReqNtwkRx"
| pull_req_up: "s \<in> {kPullReqNtwkRx, kPullReqRnrUlpRx} \<Longrightarrow>
    txn_step s (kPullRequest, UlpTx) kPullReqUlpTx"
| pull_req_rnr: "s \<in> {kPullReqUlpTx, kPullReqNtwkRx} \<Longrightarrow>
    txn_step s (kPullRequest, UlpRnrRx) kPullReqRnrUlpRx"
| pull_req_acked: "txn_step kPullReqUlpTx (kPullRequest, UlpAckRx) kPullReqAckUlpRx"
| pull_data_down: "txn_step kPullReqAckUlpRx (kPullData, UlpRx) kPullDataUlpRx"
| pull_data_out: "txn_step kPullDataUlpRx (kPullData, NtwkTx) kPullDataNtwkTx"
| pull_data_acked: "txn_step kPullDataNtwkTx (kPullData, NtwkAckRx) kPullDataAckNtwkRx"
| push_sol_start: "txn_step s (kPushRequest, UlpRx) kPushSolicitedReqUlpRx"
| push_req_out: "txn_step kPushSolicitedReqUlpRx (kPushRequest, NtwkTx) kPushReqNtwkTx"
| push_grant_in: "txn_step kPushReqNtwkTx (kPushGrant, NtwkRx) kPushGrantNtwkRx"
| push_sol_out: "txn_step kPushGrantNtwkRx (kPushSolicitedData, NtwkTx) kPushSolicitedDataNtwkTx"
| push_sol_acked:
    "txn_step kPushSolicitedDataNtwkTx (kPushSolicitedData, NtwkAckRx) kPushSolicitedDataAckNtwkRx"
| push_sol_done:
    "txn_step kPushSolicitedDataAckNtwkRx (kPushSolicitedData, UlpCompletionTx) kPushCompletionUlpTx"
| push_req_in: "txn_step s (kPushRequest, NtwkRx) kPushReqNtwkRx"
| push_grant_out: "txn_step kPushReqNtwkRx (kPushGrant, NtwkTx) kPushGrantNtwkTx"
| push_sol_in: "txn_step kPushGrantNtwkTx (kPushSolicitedData, NtwkRx) kPushSolicitedDataNtwkRx"
| push_sol_up: "s \<in> {kPushSolicitedDataNtwkRx, kPushSolicitedDataRnrUlpRx} \<Longrightarrow>
    txn_step s (kPushSolicitedData, UlpTx) kPushSolicitedDataUlpTx"
| push_sol_rnr: "s \<in> {kPushSolicitedDataUlpTx, kPushSolicitedDataNtwkRx} \<Longrightarrow>
    txn_step s (kPushSolicitedData, UlpRnrRx) kPushSolicitedDataRnrUlpRx"
| push_sol_ulp_acked:
    "txn_step kPushSolicitedDataUlpTx (kPushSolicitedData, UlpAckRx) kPushSolicitedDataAckUlpRx"
| push_uns_start: "txn_step s (kPushUnsolicitedData, UlpRx) kPushUnsolicitedReqUlpRx"
| push_uns_out:
    "txn_step kPushUnsolicitedReqUlpRx (kPushUnsolicitedData, NtwkTx) kPushUnsolicitedDataNtwkTx"
| push_uns_acked:
    "txn_step kPushUnsolicitedDataNtwkTx (kPushUnsolicitedData, NtwkAckRx) kPushUnsolicitedDataAckNtwkRx"
| push_uns_done:
    "txn_step kPushUnsolicitedDataAckNtwkRx (kPushUnsolicitedData, UlpCompletionTx) kPushCompletionUlpTx"
| push_uns_in: "txn_step s (kPushUnsolicitedData, NtwkRx) kPushUnsolicitedDataNtwkRx"
| push_uns_up: "s \<in> {kPushUnsolicitedDataNtwkRx, kPushUnsolicitedDataRnrUlpRx} \<Longrightarrow>
    txn_step s (kPushUnsolicitedData, UlpTx) kPushUnsolicitedDataUlpTx"
| push_uns_rnr: "s \<in> {kPushUnsolicitedDataUlpTx, kPushUnsolicitedDataNtwkRx} \<Longrightarrow>
    txn_step s (kPushUnsolicitedData, UlpRnrRx) kPushUnsolicitedDataRnrUlpRx"
| push_uns_ulp_acked:
    "txn_step kPushUnsolicitedDataUlpTx (kPushUnsolicitedData, UlpAckRx) kPushUnsolicitedDataAckUlpRx"
| control_acked: "type \<in> {kPullRequest, kPushRequest, kPushGrant} \<Longrightarrow> txn_step s (type, NtwkAckRx) s"

text \<open>
  Events that only acknowledge a control packet leave the state (and the time of its last
  update) alone; all others change it.
\<close>

definition changes_state :: "txn_event \<Rightarrow> bool" where
  "changes_state e \<longleftrightarrow> \<not> (snd e = NtwkAckRx \<and> fst e \<in> {kPullRequest, kPushRequest, kPushGrant})"

inductive_simps txn_step_to_completion [simp]: "txn_step s e kPushCompletionUlpTx"
inductive_simps txn_step_to_sol_acked [simp]: "txn_step s e kPushSolicitedDataAckNtwkRx"
inductive_simps txn_step_to_sol_out [simp]: "txn_step s e kPushSolicitedDataNtwkTx"
inductive_simps txn_step_to_grant_in [simp]: "txn_step s e kPushGrantNtwkRx"
inductive_simps txn_step_to_req_out [simp]: "txn_step s e kPushReqNtwkTx"
inductive_simps txn_step_to_sol_start [simp]: "txn_step s e kPushSolicitedReqUlpRx"
inductive_simps txn_step_to_uns_acked [simp]: "txn_step s e kPushUnsolicitedDataAckNtwkRx"
inductive_simps txn_step_to_uns_out [simp]: "txn_step s e kPushUnsolicitedDataNtwkTx"
inductive_simps txn_step_to_uns_start [simp]: "txn_step s e kPushUnsolicitedReqUlpRx"
inductive_simps txn_step_to_pull_done [simp]: "txn_step s e kPullDataUlpTx"
inductive_simps txn_step_to_pull_data_in [simp]: "txn_step s e kPullDataNtwkRx"
inductive_simps txn_step_to_pull_req_out [simp]: "txn_step s e kPullReqNtwkTx"
inductive_simps txn_step_to_pull_start [simp]: "txn_step s e kPullReqUlpRx"
inductive_simps txn_step_to_pull_data_acked [simp]: "txn_step s e kPullDataAckNtwkRx"
inductive_simps txn_step_to_pull_data_out [simp]: "txn_step s e kPullDataNtwkTx"
inductive_simps txn_step_to_pull_data_down [simp]: "txn_step s e kPullDataUlpRx"
inductive_simps txn_step_to_pull_req_acked [simp]: "txn_step s e kPullReqAckUlpRx"
inductive_simps txn_step_to_pull_req_up [simp]: "txn_step s e kPullReqUlpTx"
inductive_simps txn_step_to_pull_req_rnr [simp]: "txn_step s e kPullReqRnrUlpRx"
inductive_simps txn_step_to_pull_req_in [simp]: "txn_step s e kPullReqNtwkRx"

lemma UpdateState_eq_Inr:
  "UpdateState now type stage t = Inr (t', samples) \<longleftrightarrow>
     (\<exists>u b. UpdateState_branch now type stage t = Inr (u, samples, b) \<and>
        t' = (if b then u\<lparr>tm_last_state_update_timestamp := now\<rparr> else u))"
  by (auto simp: UpdateState_def res_simps)

text \<open>The detailed machine implements the relation: it succeeds exactly on its steps.\<close>

lemma UpdateState_step:
  assumes "UpdateState now type stage t = Inr (t', samples)"
  shows "txn_step (tm_state t) (type, stage) (tm_state t')"
  using assms
  by (cases type; cases stage)
    (auto simp: UpdateState_eq_Inr res_simps txn_step.simps split: if_splits)

lemma UpdateState_complete:
  assumes "txn_step (tm_state t) (type, stage) s'"
  shows "\<exists>t' samples. UpdateState now type stage t = Inr (t', samples) \<and> tm_state t' = s'"
  using assms
  by (cases type; cases stage) (auto simp: UpdateState_def txn_step.simps [of _ "(_, _)"] check_def)

section \<open>Runs and traces\<close>

text \<open>
  A run feeds a transaction a sequence of timed events; \<open>txn_trace es s\<close> says that the
  events \<open>es\<close> lead a fresh transaction to state \<open>s\<close>.
\<close>

type_synonym timed_event = "int \<times> txn_event"

fun run_updates ::
  "transaction_metadata \<Rightarrow> timed_event list \<Rightarrow> (transaction_metadata \<times> sample list) res" where
  "run_updates t [] = Inr (t, [])"
| "run_updates t ((now, type, stage) # evs) =
     res_bind (UpdateState (Finite now) type stage t) (\<lambda>(t', samples).
     res_bind (run_updates t' evs) (\<lambda>(t'', samples'). Inr (t'', samples @ samples')))"

inductive txn_trace :: "txn_event list \<Rightarrow> transaction_state \<Rightarrow> bool" where
  fresh: "txn_trace [] kStInvalid"
| extend: "txn_trace es s \<Longrightarrow> txn_step s e s' \<Longrightarrow> txn_trace (es @ [e]) s'"

lemma run_updates_trace:
  assumes "run_updates t evs = Inr (t', samples)" and "txn_trace es (tm_state t)"
  shows "txn_trace (es @ map snd evs) (tm_state t')"
  using assms
proof (induction t evs arbitrary: es samples rule: run_updates.induct)
  case (2 t now type stage evs)
  from "2.prems"(1) obtain u sm sm' where
    u: "UpdateState (Finite now) type stage t = Inr (u, sm)" "run_updates u evs = Inr (t', sm')"
    by (auto simp: res_simps)
  have "txn_trace (es @ [(type, stage)]) (tm_state u)"
    using "2.prems"(2) UpdateState_step [OF u(1)] by (rule txn_trace.extend)
  from "2.IH" [OF u(2) this] show ?case by simp
qed simp

text \<open>Every state other than the initial one was entered by an event that changes the state.\<close>

lemma txn_trace_last:
  assumes "txn_trace es s" and "s \<noteq> kStInvalid"
  shows "\<exists>es0 e s0. filter changes_state es = filter changes_state es0 @ [e] \<and>
    txn_trace es0 s0 \<and> txn_step s0 e s \<and> changes_state e"
  using assms
proof (induction rule: txn_trace.induct)
  case (extend es s e s')
  show ?case
  proof (cases "changes_state e")
    case True
    with extend.hyps show ?thesis by auto
  next
    case False
    then have "s' = s"
      using extend.hyps(2) by (auto simp: changes_state_def elim: txn_step.cases)
    with extend False show ?thesis by auto
  qed
qed simp

lemma changes_state_simps [simp]:
  "changes_state (type, stage) \<longleftrightarrow>
     stage \<noteq> NtwkAckRx \<or> type \<notin> {kPullRequest, kPushRequest, kPushGrant}"
  by (auto simp: changes_state_def)

text \<open>
  Going back one event at a time: if state \<open>s\<close> is only ever entered from state \<open>p\<close> by the
  last event of \<open>u\<close>, the events before it lead to \<open>p\<close>.
\<close>

lemma txn_trace_back:
  assumes "txn_trace es s" and "s \<noteq> kStInvalid" and "u \<noteq> []"
    and "\<And>s' e'. txn_step s' e' s \<Longrightarrow> changes_state e' \<Longrightarrow> s' = p \<and> e' = last u"
    and "\<And>es0. txn_trace es0 p \<Longrightarrow> suffix (butlast u) (filter changes_state es0)"
  shows "suffix u (filter changes_state es)"
proof -
  obtain es0 e' s' where b: "filter changes_state es = filter changes_state es0 @ [e']"
    "txn_trace es0 s'" "txn_step s' e' s" "changes_state e'"
    using txn_trace_last [OF assms(1,2)] by blast
  with assms(4) have "s' = p" "e' = last u" by blast+
  with b(1,2) assms(5) [of es0] have "suffix (butlast u @ [last u]) (filter changes_state es)"
    by simp
  with assms(3) show ?thesis by simp
qed

lemma txn_trace_start:
  assumes "txn_trace es s" and "s \<noteq> kStInvalid"
    and "\<And>s' e'. txn_step s' e' s \<Longrightarrow> changes_state e' \<Longrightarrow> e' = e"
  shows "suffix [e] (filter changes_state es)"
  using txn_trace_last [OF assms(1,2)] assms(3) by (metis suffixI)

lemma trace_pull_done:
  assumes "txn_trace es kPullDataUlpTx"
  shows "suffix [(kPullRequest, UlpRx), (kPullRequest, NtwkTx), (kPullData, NtwkRx), (kPullData, UlpTx)]
    (filter changes_state es)"
proof -
  have start: "txn_trace es kPullReqUlpRx \<Longrightarrow>
      suffix [(kPullRequest, UlpRx)] (filter changes_state es)" for es
    by (rule txn_trace_start) auto
  have req: "txn_trace es kPullReqNtwkTx \<Longrightarrow>
      suffix [(kPullRequest, UlpRx), (kPullRequest, NtwkTx)] (filter changes_state es)" for es
    by (rule txn_trace_back [where p = kPullReqUlpRx]) (auto intro: start)
  have data: "txn_trace es kPullDataNtwkRx \<Longrightarrow>
      suffix [(kPullRequest, UlpRx), (kPullRequest, NtwkTx), (kPullData, NtwkRx)]
        (filter changes_state es)" for es
    by (rule txn_trace_back [where p = kPullReqNtwkTx]) (auto intro: req)
  show ?thesis
    using assms by (rule txn_trace_back [where p = kPullDataNtwkRx]) (auto intro: data)
qed

lemma trace_push_uns_acked:
  assumes "txn_trace es kPushUnsolicitedDataAckNtwkRx"
  shows "suffix [(kPushUnsolicitedData, UlpRx), (kPushUnsolicitedData, NtwkTx),
    (kPushUnsolicitedData, NtwkAckRx)] (filter changes_state es)"
proof -
  have start: "txn_trace es kPushUnsolicitedReqUlpRx \<Longrightarrow>
      suffix [(kPushUnsolicitedData, UlpRx)] (filter changes_state es)" for es
    by (rule txn_trace_start) auto
  have out: "txn_trace es kPushUnsolicitedDataNtwkTx \<Longrightarrow>
      suffix [(kPushUnsolicitedData, UlpRx), (kPushUnsolicitedData, NtwkTx)]
        (filter changes_state es)" for es
    by (rule txn_trace_back [where p = kPushUnsolicitedReqUlpRx]) (auto intro: start)
  show ?thesis
    using assms by (rule txn_trace_back [where p = kPushUnsolicitedDataNtwkTx]) (auto intro: out)
qed

lemma trace_push_sol_acked:
  assumes "txn_trace es kPushSolicitedDataAckNtwkRx"
  shows "suffix [(kPushRequest, UlpRx), (kPushRequest, NtwkTx), (kPushGrant, NtwkRx),
    (kPushSolicitedData, NtwkTx), (kPushSolicitedData, NtwkAckRx)] (filter changes_state es)"
proof -
  have start: "txn_trace es kPushSolicitedReqUlpRx \<Longrightarrow>
      suffix [(kPushRequest, UlpRx)] (filter changes_state es)" for es
    by (rule txn_trace_start) auto
  have req: "txn_trace es kPushReqNtwkTx \<Longrightarrow>
      suffix [(kPushRequest, UlpRx), (kPushRequest, NtwkTx)] (filter changes_state es)" for es
    by (rule txn_trace_back [where p = kPushSolicitedReqUlpRx]) (auto intro: start)
  have grant: "txn_trace es kPushGrantNtwkRx \<Longrightarrow>
      suffix [(kPushRequest, UlpRx), (kPushRequest, NtwkTx), (kPushGrant, NtwkRx)]
        (filter changes_state es)" for es
    by (rule txn_trace_back [where p = kPushReqNtwkTx]) (auto intro: req)
  have out: "txn_trace es kPushSolicitedDataNtwkTx \<Longrightarrow>
      suffix [(kPushRequest, UlpRx), (kPushRequest, NtwkTx), (kPushGrant, NtwkRx),
        (kPushSolicitedData, NtwkTx)] (filter changes_state es)" for es
    by (rule txn_trace_back [where p = kPushGrantNtwkRx]) (auto intro: grant)
  show ?thesis
    using assms by (rule txn_trace_back [where p = kPushSolicitedDataNtwkTx]) (auto intro: out)
qed

lemma trace_push_done:
  assumes "txn_trace es kPushCompletionUlpTx"
  shows "suffix [(kPushRequest, UlpRx), (kPushRequest, NtwkTx), (kPushGrant, NtwkRx),
      (kPushSolicitedData, NtwkTx), (kPushSolicitedData, NtwkAckRx),
      (kPushSolicitedData, UlpCompletionTx)] (filter changes_state es) \<or>
    suffix [(kPushUnsolicitedData, UlpRx), (kPushUnsolicitedData, NtwkTx),
      (kPushUnsolicitedData, NtwkAckRx), (kPushUnsolicitedData, UlpCompletionTx)]
      (filter changes_state es)"
proof -
  obtain es0 e s0 where b: "filter changes_state es = filter changes_state es0 @ [e]"
    "txn_trace es0 s0" "txn_step s0 e kPushCompletionUlpTx" "changes_state e"
    using txn_trace_last [OF assms] by auto
  from b(3,4) have "s0 = kPushSolicitedDataAckNtwkRx \<and> e = (kPushSolicitedData, UlpCompletionTx) \<or>
    s0 = kPushUnsolicitedDataAckNtwkRx \<and> e = (kPushUnsolicitedData, UlpCompletionTx)"
    by auto
  with b(1,2) trace_push_sol_acked [of es0] trace_push_uns_acked [of es0] show ?thesis by auto
qed

text \<open>At the target, a pull request may bounce between the ULP and the RNR state any number of times.\<close>

definition pull_bounce :: "txn_event list \<Rightarrow> bool" where
  "pull_bounce w \<longleftrightarrow> set w \<subseteq> {(kPullRequest, UlpTx), (kPullRequest, UlpRnrRx)}"

lemma trace_pull_req_at_target:
  assumes "txn_trace es s" and "s \<in> {kPullReqNtwkRx, kPullReqUlpTx, kPullReqRnrUlpRx}"
  shows "\<exists>w. pull_bounce w \<and> suffix ((kPullRequest, NtwkRx) # w) (filter changes_state es) \<and>
    (s = kPullReqUlpTx \<longrightarrow> w \<noteq> [] \<and> last w = (kPullRequest, UlpTx))"
  using assms
proof (induction rule: txn_trace.induct)
  case (extend es s e s')
  show ?case
  proof (cases "changes_state e \<and> e \<noteq> (kPullRequest, NtwkRx)")
    case True
    with extend.hyps(2) extend.prems
    have s: "s \<in> {kPullReqNtwkRx, kPullReqUlpTx, kPullReqRnrUlpRx}"
      and e: "e \<in> {(kPullRequest, UlpTx), (kPullRequest, UlpRnrRx)}"
      and l: "s' = kPullReqUlpTx \<longrightarrow> e = (kPullRequest, UlpTx)"
      by auto
    from extend.IH [OF s] obtain w where
      "pull_bounce w" "suffix ((kPullRequest, NtwkRx) # w) (filter changes_state es)"
      by blast
    with True e l show ?thesis
      by (intro exI [of _ "w @ [e]"]) (auto simp: pull_bounce_def suffix_def)
  next
    case False
    show ?thesis
    proof (cases "changes_state e")
      case True
      with False extend.hyps(2) extend.prems show ?thesis
        by (intro exI [of _ "[]"]) (auto simp: pull_bounce_def suffix_def)
    next
      case nochange: False
      then have "s' = s"
        using extend.hyps(2) by (auto simp: changes_state_def elim: txn_step.cases)
      with nochange extend show ?thesis by auto
    qed
  qed
qed simp

section \<open>Latency accounting\<close>

definition is_total :: "latency_type \<Rightarrow> bool" where
  "is_total l \<longleftrightarrow> l \<in> {Pull_kTotalLatency, PushSolicited_kTotalLatency, PushUnsolicited_kTotalLatency}"

fun ticks :: "duration \<Rightarrow> int" where
  "ticks (Finite n) = n"
| "ticks _ = 0"

definition stage_sum :: "sample list \<Rightarrow> int" where
  "stage_sum samples = (\<Sum>(l, d) \<leftarrow> samples. if is_total l then 0 else ticks d)"

text \<open>
  Events that begin a transaction anew, and receiver-not-ready events, for which the code
  keeps no stage sample.
\<close>

definition begins :: "txn_event \<Rightarrow> bool" where
  "begins e \<longleftrightarrow> e \<in> {kPullRequest, kPushRequest, kPushUnsolicitedData} \<times> {UlpRx, NtwkRx}"

definition measured :: "txn_event \<Rightarrow> bool" where
  "measured e \<longleftrightarrow> \<not> begins e \<and> snd e \<noteq> UlpRnrRx"

definition finished :: "transaction_state \<Rightarrow> bool" where
  "finished s \<longleftrightarrow> s \<in> {kPullDataUlpTx, kPushCompletionUlpTx}"

lemma stage_sum_append [simp]: "stage_sum (xs @ ys) = stage_sum xs + stage_sum ys"
  by (simp add: stage_sum_def)

lemma UpdateState_latency:
  assumes "UpdateState (Finite now) type stage t = Inr (t', samples)" and "measured (type, stage)"
    and "tm_last_state_update_timestamp t = Finite a" and "tm_transaction_start_timestamp t = Finite b"
  shows "tm_transaction_start_timestamp t' = Finite b \<and>
    (\<exists>a'. tm_last_state_update_timestamp t' = Finite a' \<and> stage_sum samples = a' - a \<and>
      (\<forall>l d. (l, d) \<in> set samples \<longrightarrow> is_total l \<longrightarrow> finished (tm_state t') \<and> d = Finite (a' - b)))"
  using assms
  by (cases type; cases stage)
    (auto simp: UpdateState_eq_Inr res_simps since_update_def since_start_def stage_sum_def
      is_total_def measured_def begins_def finished_def)

lemma finished_stuck:
  assumes "UpdateState now type stage t = Inr (t', samples)" and "measured (type, stage)"
    and "finished (tm_state t)"
  shows "t' = t \<and> samples = []"
  using assms
  by (cases type; cases stage)
    (auto simp: UpdateState_eq_Inr res_simps measured_def begins_def finished_def)

lemma run_finished_stuck:
  assumes "run_updates t evs = Inr (t', samples)" and "\<forall>e \<in> set evs. measured (snd e)"
    and "finished (tm_state t)"
  shows "t' = t \<and> samples = []"
  using assms
proof (induction t evs arbitrary: samples rule: run_updates.induct)
  case (2 t now type stage evs)
  from "2.prems"(1) obtain u sm sm' where u: "UpdateState (Finite now) type stage t = Inr (u, sm)"
    "run_updates u evs = Inr (t', sm')" "samples = sm @ sm'"
    by (auto simp: res_simps)
  with finished_stuck [OF u(1)] "2.prems" have "u = t" "sm = []" by auto
  with u "2.IH" [of u sm'] "2.prems" show ?case by auto
qed simp

lemma run_latency:
  assumes "run_updates t evs = Inr (t', samples)" and "\<forall>e \<in> set evs. measured (snd e)"
    and "tm_last_state_update_timestamp t = Finite a" and "tm_transaction_start_timestamp t = Finite b"
  shows "\<exists>a'. tm_last_state_update_timestamp t' = Finite a' \<and> stage_sum samples = a' - a \<and>
      (\<forall>l d. (l, d) \<in> set samples \<longrightarrow> is_total l \<longrightarrow> d = Finite (a' - b))"
  using assms
proof (induction t evs arbitrary: samples a rule: run_updates.induct)
  case (1 t)
  then show ?case by (simp add: stage_sum_def)
next
  case (2 t now type stage evs)
  from "2.prems"(1) obtain u sm sm' where u: "UpdateState (Finite now) type stage t = Inr (u, sm)"
    "run_updates u evs = Inr (t', sm')" "samples = sm @ sm'"
    by (auto simp: res_simps)
  from "2.prems"(2) have m: "measured (type, stage)" "\<forall>e \<in> set evs. measured (snd e)" by auto
  from UpdateState_latency [OF u(1) m(1) "2.prems"(3,4)] obtain a1 where
    a1: "tm_transaction_start_timestamp u = Finite b" "tm_last_state_update_timestamp u = Finite a1"
      "stage_sum sm = a1 - a"
      "\<forall>l d. (l, d) \<in> set sm \<longrightarrow> is_total l \<longrightarrow> finished (tm_state u) \<and> d = Finite (a1 - b)"
    by auto
  from "2.IH" [OF u(2) m(2) a1(2,1)] obtain a2 where
    a2: "tm_last_state_update_timestamp t' = Finite a2" "stage_sum sm' = a2 - a1"
      "\<forall>l d. (l, d) \<in> set sm' \<longrightarrow> is_total l \<longrightarrow> d = Finite (a2 - b)"
    by auto
  have "d = Finite (a2 - b)" if "(l, d) \<in> set sm" "is_total l" for l d
  proof -
    from that a1(4) have f: "finished (tm_state u)" "d = Finite (a1 - b)" by auto
    with run_finished_stuck [OF u(2) m(2)] a1(2) a2(1) show ?thesis by simp
  qed
  with a1 a2 u(3) show ?case by auto
qed

section \<open>Creating and updating transactions\<close>

text \<open>
  The part of \<^verbatim>\<open>ConnectionState\<close> the two operations touch. \<^verbatim>\<open>transactions[key]->f()\<close> on a
  missing key dereferences a null pointer, hence \<open>deref\<close>.
\<close>

record connection_state =
  cs_version :: nat
  cs_scid :: u32
  cs_ordered_mode :: ordering_mode   \<comment> \<open>\<^verbatim>\<open>connection_metadata->ordered_mode\<close>\<close>
  cs_tx_next_rsn :: u32   \<comment> \<open>\<^verbatim>\<open>tx_transaction_metadata.next_request_sequence_number\<close>\<close>
  cs_received_packet_contexts :: "transaction_key \<rightharpoonup> received_packet_context"
  cs_transactions :: "transaction_key \<rightharpoonup> transaction_metadata"

definition ConnectionState_new :: "nat \<Rightarrow> u32 \<Rightarrow> ordering_mode \<Rightarrow> connection_state" where
  "ConnectionState_new version scid mode =
     \<lparr>cs_version = version, cs_scid = scid, cs_ordered_mode = mode, cs_tx_next_rsn = 0,
      cs_received_packet_contexts = Map.empty, cs_transactions = Map.empty\<rparr>"

definition GetTransaction :: "connection_state \<Rightarrow> transaction_key \<Rightarrow> status + transaction_metadata" where
  "GetTransaction cs key =
     (case cs_transactions cs key of Some t \<Rightarrow> Inr t | None \<Rightarrow> Inl NotFoundError)"

definition CreateTransactionMetadata ::
  "nat \<Rightarrow> u32 \<Rightarrow> transaction_type \<Rightarrow> transaction_location \<Rightarrow> transaction_metadata res" where
  "CreateTransactionMetadata falcon_version rsn type location =
     (if falcon_version = 1 then Inr (TransactionMetadata_new rsn type location)
      else if falcon_version = 2 then Inr (TransactionMetadata_new rsn type location)
      else if 2 < falcon_version then Inr (TransactionMetadata_new rsn type location)
      else Inl LogFatal)"

definition deref :: "connection_state \<Rightarrow> transaction_key \<Rightarrow> transaction_metadata res" where
  "deref cs key = (case cs_transactions cs key of Some t \<Rightarrow> Inr t | None \<Rightarrow> Inl UndefinedBehaviour)"

definition put_transaction ::
  "transaction_key \<Rightarrow> transaction_metadata \<Rightarrow> connection_state \<Rightarrow> connection_state" where
  "put_transaction key t cs = cs\<lparr>cs_transactions := (cs_transactions cs)(key \<mapsto> t)\<rparr>"

text \<open>The \<^verbatim>\<open>switch\<close> on the opcode: sequence number, transaction type, location, packet type.\<close>

definition ulp_switch ::
  "packet \<Rightarrow> int \<Rightarrow> connection_state \<Rightarrow>
   (u32 \<times> transaction_type \<times> transaction_location \<times> packet_type \<times> connection_state) res" where
  "ulp_switch pkt solicited_write_threshold cs =
     (let rsn = cs_tx_next_rsn cs; cs' = cs\<lparr>cs_tx_next_rsn := rsn + 1\<rparr>;
          push = (if word_of_int solicited_write_threshold \<le> rdma_request_length pkt
                  then (rsn, kPushSolicited, kInitiator, kPushSolicitedData, cs')
                  else (rsn, kPushUnsolicited, kInitiator, kPushUnsolicitedData, cs'))
      in case rdma_opcode pkt of
           kReadRequest \<Rightarrow> Inr (rsn, kPull, kInitiator, kPullRequest, cs')
         | kReadResponseOnly \<Rightarrow> Inr (rdma_rsn pkt, kPull, kTarget, kPullData, cs)
         | kWriteOnly \<Rightarrow> Inr push
         | kSendOnly \<Rightarrow> Inr push
         | kOpAck \<Rightarrow> Inl LogFatal
         | kOpInvalid \<Rightarrow> Inl LogFatal)"

definition CreateOrUpdateTransactionFromUlp ::
  "duration \<Rightarrow> packet \<Rightarrow> int \<Rightarrow> ordering_mode \<Rightarrow> connection_state \<Rightarrow>
   ((u32 \<times> packet_type) \<times> sample list \<times> connection_state) res" where
  "CreateOrUpdateTransactionFromUlp now pkt solicited_write_threshold mode cs =
     res_bind (ulp_switch pkt solicited_write_threshold cs)
       (\<lambda>(rsn, transaction_type, location, packet_type, cs1).
     let key = (rsn, location) in
     res_bind (if location = kInitiator
               then res_bind (CreateTransactionMetadata (cs_version cs1) rsn transaction_type location)
                      (\<lambda>t. Inr (put_transaction key
                             (t\<lparr>tm_request_length := rdma_request_length pkt\<rparr>) cs1))
               else Inr cs1)
       (\<lambda>cs2.
     res_bind (deref cs2 key) (\<lambda>t.
     let phantom = (transaction_type = kPushUnsolicited \<and> mode = kOrdered);
         t1 = (if phantom then CreatePacket_ulp kInvalid kOutgoing 0 0 None True t else t);
         eligible = (\<not> phantom);
         data_length = rdma_data_length pkt; sgl_length = pkt_sgl_length pkt;
         (t2, pkt2, packet_type2) =
           (if transaction_type = kPushSolicited
            then (CreatePacket_ulp kPushSolicitedData kOutgoing data_length sgl_length
                    (Some (pkt\<lparr>falcon_rsn := rsn, pkt_type := kPushSolicitedData\<rparr>))
                    (mode \<noteq> kOrdered) t1,
                  packet_default\<lparr>pkt_scid := cs_scid cs2\<rparr>, kPushRequest)
            else (t1, pkt, packet_type));
         t3 = CreatePacket_ulp packet_type2 kOutgoing data_length sgl_length (Some pkt2) eligible t2
     in res_bind (UpdateState now packet_type2 UlpRx t3) (\<lambda>(t4, samples).
        Inr ((rsn, packet_type2), samples, put_transaction key t4 cs2)))))"

text \<open>
  \<^verbatim>\<open>try_emplace\<close>: the fresh metadata is always built, and stored only if the key is new;
  \<open>on_insert\<close> is what the code does to it in that case.
\<close>

definition try_emplace ::
  "u32 \<Rightarrow> transaction_type \<Rightarrow> transaction_location \<Rightarrow> (transaction_metadata \<Rightarrow> transaction_metadata) \<Rightarrow>
   connection_state \<Rightarrow> connection_state res" where
  "try_emplace rsn type location on_insert cs =
     res_bind (CreateTransactionMetadata (cs_version cs) rsn type location) (\<lambda>t.
       case cs_transactions cs (rsn, location) of
         Some _ \<Rightarrow> Inr cs
       | None \<Rightarrow> Inr (put_transaction (rsn, location) (on_insert t) cs))"

definition network_switch ::
  "packet \<Rightarrow> connection_state \<Rightarrow> (transaction_key \<times> u16 \<times> connection_state) res" where
  "network_switch pkt cs =
     (let rsn = falcon_rsn pkt;
          at_location = (\<lambda>f. res_bind (GetTransactionLocation (pkt_type pkt) True) f);
          set_length = (\<lambda>t. t\<lparr>tm_request_length := ucast (falcon_request_length pkt)\<rparr>)
      in case pkt_type pkt of
           kPullRequest \<Rightarrow> at_location (\<lambda>location.
             res_bind (try_emplace rsn kPull location set_length cs)
               (\<lambda>cs'. Inr ((rsn, location), 0, cs')))
         | kPushRequest \<Rightarrow> at_location (\<lambda>location.
             res_bind (try_emplace rsn kPushSolicited location
               (\<lambda>t. CreatePacket kPushGrant kOutgoing
                  (Some (packet_default\<lparr>pkt_scid := cs_scid cs, pkt_type := kPushGrant,
                     falcon_rsn := rsn, falcon_ssn := falcon_ssn pkt\<rparr>)) True (set_length t)) cs)
               (\<lambda>cs'. Inr ((rsn, location), 0, cs')))
         | kPushUnsolicitedData \<Rightarrow> at_location (\<lambda>location.
             res_bind (try_emplace rsn kPushUnsolicited location (\<lambda>t. t) cs)
               (\<lambda>cs'. Inr ((rsn, location), 0, cs')))
         | kPullData \<Rightarrow> at_location (\<lambda>location. Inr ((rsn, location), falcon_payload_length pkt, cs))
         | kPushGrant \<Rightarrow> at_location (\<lambda>location. Inr ((rsn, location), falcon_request_length pkt, cs))
         | kPushSolicitedData \<Rightarrow>
             at_location (\<lambda>location. Inr ((rsn, location), falcon_payload_length pkt, cs))
         | _ \<Rightarrow> Inl LogFatal)"

definition CreateOrUpdateTransactionFromNetwork ::
  "duration \<Rightarrow> packet \<Rightarrow> connection_state \<Rightarrow>
   ((u16 \<times> u16) \<times> sample list \<times> connection_state) res" where
  "CreateOrUpdateTransactionFromNetwork now pkt cs =
     res_bind (network_switch pkt cs) (\<lambda>(key, actual_length, cs1).
     case cs_transactions cs1 key of
       None \<Rightarrow> Inl CheckFailed
     | Some t \<Rightarrow>
         res_bind (UpdateState now (pkt_type pkt) NtwkRx
             (CreatePacket_network (pkt_type pkt) kIncoming (ucast (falcon_payload_length pkt))
                (Some pkt) True t)) (\<lambda>(t', samples).
         Inr ((ucast (tm_request_length t'), actual_length), samples, put_transaction key t' cs1)))"

text \<open>Successive operations of the upper layer on one connection; the result lists their RSNs.\<close>

fun ulp_requests ::
  "int \<Rightarrow> ordering_mode \<Rightarrow> (int \<times> packet) list \<Rightarrow> connection_state \<Rightarrow> (u32 list \<times> connection_state) res" where
  "ulp_requests thr mode [] cs = Inr ([], cs)"
| "ulp_requests thr mode ((now, pkt) # ops) cs =
     res_bind (CreateOrUpdateTransactionFromUlp (Finite now) pkt thr mode cs) (\<lambda>((rsn, _), _, cs').
     res_bind (ulp_requests thr mode ops cs') (\<lambda>(rsns, cs''). Inr (rsn # rsns, cs'')))"

definition initiates :: "packet \<Rightarrow> bool" where
  "initiates pkt \<longleftrightarrow> rdma_opcode pkt \<in> {kReadRequest, kWriteOnly, kSendOnly}"

fun start_state :: "packet_type \<Rightarrow> transaction_state" where
  "start_state kPullRequest = kPullReqUlpRx"
| "start_state kPushRequest = kPushSolicitedReqUlpRx"
| "start_state _ = kPushUnsolicitedReqUlpRx"

lemma from_ulp_initiates:
  assumes "initiates pkt" and "1 \<le> cs_version cs"
  shows "\<exists>t samples cs'. CreateOrUpdateTransactionFromUlp (Finite now) pkt thr mode cs =
      Inr ((cs_tx_next_rsn cs, projr (RdmaOpcodeToPacketType pkt thr)), samples, cs') \<and>
    cs' = cs\<lparr>cs_tx_next_rsn := cs_tx_next_rsn cs + 1,
      cs_transactions := (cs_transactions cs)((cs_tx_next_rsn cs, kInitiator) \<mapsto> t)\<rparr> \<and>
    tm_state t = start_state (projr (RdmaOpcodeToPacketType pkt thr)) \<and>
    tm_rsn t = cs_tx_next_rsn cs \<and>
    tm_request_length t = rdma_request_length pkt \<and>
    tm_transaction_start_timestamp t = Finite now \<and>
    tm_last_state_update_timestamp t = Finite now"
  using assms
  by (auto simp: initiates_def CreateOrUpdateTransactionFromUlp_def ulp_switch_def Let_def
      RdmaOpcodeToPacketType_def CreateTransactionMetadata_def deref_def put_transaction_def
      UpdateState_def CreatePacket_ulp_def TransactionMetadata_new_def)

lemma ulp_requests_rsns:
  assumes "\<forall>op \<in> set ops. initiates (snd op)" and "1 \<le> cs_version cs"
  shows "\<exists>cs'. ulp_requests thr mode ops cs =
      Inr (map (\<lambda>i. cs_tx_next_rsn cs + of_nat i) [0..<length ops], cs') \<and>
    cs_tx_next_rsn cs' = cs_tx_next_rsn cs + of_nat (length ops) \<and> cs_version cs' = cs_version cs"
  using assms
proof (induction ops arbitrary: cs)
  case (Cons op ops)
  obtain now pkt where op: "op = (now, pkt)" by (cases op)
  with Cons.prems have "initiates pkt" by simp
  from from_ulp_initiates [OF this Cons.prems(2), of now thr mode] obtain sm cs1 where
    cs1: "CreateOrUpdateTransactionFromUlp (Finite now) pkt thr mode cs =
        Inr ((cs_tx_next_rsn cs, projr (RdmaOpcodeToPacketType pkt thr)), sm, cs1)"
      "cs_tx_next_rsn cs1 = cs_tx_next_rsn cs + 1" "cs_version cs1 = cs_version cs"
    by auto
  with Cons.IH [of cs1] Cons.prems obtain cs2 where
    cs2: "ulp_requests thr mode ops cs1 =
        Inr (map (\<lambda>i. cs_tx_next_rsn cs + 1 + of_nat i) [0..<length ops], cs2)"
      "cs_tx_next_rsn cs2 = cs_tx_next_rsn cs + 1 + of_nat (length ops)"
      "cs_version cs2 = cs_version cs"
    by auto
  have "map (\<lambda>i. cs_tx_next_rsn cs + of_nat i) [0..<length (op # ops)] =
      cs_tx_next_rsn cs # map (\<lambda>i. cs_tx_next_rsn cs + 1 + of_nat i) [0..<length ops]"
    by (simp add: upt_conv_Cons map_Suc_upt [symmetric] o_def add.assoc del: upt_Suc)
  with cs1 cs2 op show ?case by (simp add: add.assoc)
qed simp

lemma word_of_nat_inj_bound:
  "i < 2 ^ LENGTH('a) \<Longrightarrow> j < 2 ^ LENGTH('a) \<Longrightarrow> (of_nat i :: 'a::len word) = of_nat j \<longleftrightarrow> i = j"
  by (metis of_nat_inverse)

section \<open>Properties\<close>

text \<open>
  C1. \<open>UpdateState\<close> implements the abstract state machine: it returns (rather than aborting)
  exactly when the abstract machine has a step for the event, it then moves to that step's
  state, and it changes nothing of the transaction but its state and its two timestamps.
\<close>

theorem UpdateState_refines:
  "((\<exists>t' samples. UpdateState now type stage t = Inr (t', samples) \<and> tm_state t' = s')
      \<longleftrightarrow> txn_step (tm_state t) (type, stage) s') \<and>
   (UpdateState now type stage t = Inr (t', samples) \<longrightarrow>
      t' = t\<lparr>tm_state := tm_state t',
             tm_transaction_start_timestamp := tm_transaction_start_timestamp t',
             tm_last_state_update_timestamp :=
               (if changes_state (type, stage) then now else tm_last_state_update_timestamp t)\<rparr>)"
proof
  show "(\<exists>t' samples. UpdateState now type stage t = Inr (t', samples) \<and> tm_state t' = s')
      \<longleftrightarrow> txn_step (tm_state t) (type, stage) s'"
    using UpdateState_step UpdateState_complete by blast
  show "UpdateState now type stage t = Inr (t', samples) \<longrightarrow>
      t' = t\<lparr>tm_state := tm_state t',
             tm_transaction_start_timestamp := tm_transaction_start_timestamp t',
             tm_last_state_update_timestamp :=
               (if changes_state (type, stage) then now else tm_last_state_update_timestamp t)\<rparr>"
    by (cases type; cases stage) (auto simp: UpdateState_eq_Inr res_simps)
qed

theorem UpdateState_refines_witness:
  "txn_step kPullReqUlpRx (kPullRequest, NtwkTx) kPullReqNtwkTx \<and>
   (\<exists>t' samples. UpdateState (Finite 5) kPullRequest NtwkTx
      ((TransactionMetadata_new 7 kPull kInitiator)\<lparr>tm_state := kPullReqUlpRx\<rparr>) = Inr (t', samples) \<and>
      tm_state t' = kPullReqNtwkTx)"
  using UpdateState_refines [of "Finite 5" kPullRequest NtwkTx
      "(TransactionMetadata_new 7 kPull kInitiator)\<lparr>tm_state := kPullReqUlpRx\<rparr>" kPullReqNtwkTx]
  by (simp add: txn_step.intros)

text \<open>
  C2. A push completion reaches the upper layer only after the whole handshake: in every run of
  a fresh transaction that ends in the completion state, the latest state-changing events are,
  in this order, either request queued, request sent, grant received, data sent, data
  acknowledged, completion (solicited), or data queued, data sent, data acknowledged,
  completion (unsolicited).
\<close>

theorem push_completion_causality:
  assumes "tm_state t = kStInvalid" and "run_updates t evs = Inr (t', samples)"
    and "tm_state t' = kPushCompletionUlpTx"
  shows "suffix [(kPushRequest, UlpRx), (kPushRequest, NtwkTx), (kPushGrant, NtwkRx),
      (kPushSolicitedData, NtwkTx), (kPushSolicitedData, NtwkAckRx),
      (kPushSolicitedData, UlpCompletionTx)] (filter changes_state (map snd evs)) \<or>
    suffix [(kPushUnsolicitedData, UlpRx), (kPushUnsolicitedData, NtwkTx),
      (kPushUnsolicitedData, NtwkAckRx), (kPushUnsolicitedData, UlpCompletionTx)]
      (filter changes_state (map snd evs))"
  using run_updates_trace [OF assms(2), of "[]"] assms(1,3) trace_push_done [of "map snd evs"]
  by (auto intro: txn_trace.fresh)

lemmas run_eval = UpdateState_def since_update_def since_start_def TransactionMetadata_new_def

theorem push_completion_causality_witness:
  "\<exists>t' samples. run_updates (TransactionMetadata_new 3 kPushUnsolicited kInitiator)
     [(1, kPushUnsolicitedData, UlpRx), (4, kPushUnsolicitedData, NtwkTx),
      (9, kPushUnsolicitedData, NtwkAckRx), (12, kPushUnsolicitedData, UlpCompletionTx)] =
     Inr (t', samples) \<and> tm_state t' = kPushCompletionUlpTx \<and>
   suffix [(kPushUnsolicitedData, UlpRx), (kPushUnsolicitedData, NtwkTx),
      (kPushUnsolicitedData, NtwkAckRx), (kPushUnsolicitedData, UlpCompletionTx)]
     (filter changes_state (map snd [(1::int, kPushUnsolicitedData, UlpRx),
        (4, kPushUnsolicitedData, NtwkTx), (9, kPushUnsolicitedData, NtwkAckRx),
        (12, kPushUnsolicitedData, UlpCompletionTx)]))"
proof -
  let ?t = "TransactionMetadata_new 3 kPushUnsolicited kInitiator"
  let ?evs = "[(1::int, kPushUnsolicitedData, UlpRx), (4, kPushUnsolicitedData, NtwkTx),
      (9, kPushUnsolicitedData, NtwkAckRx), (12, kPushUnsolicitedData, UlpCompletionTx)]"
  obtain t' samples where r: "run_updates ?t ?evs = Inr (t', samples)" "tm_state t' = kPushCompletionUlpTx"
    by (simp add: run_eval)
  have "tm_state ?t = kStInvalid" by (simp add: TransactionMetadata_new_def)
  from push_completion_causality [OF this r] r show ?thesis by auto
qed

text \<open>
  C6. Pull data reaches the initiator's upper layer only after the request was queued, sent and
  answered, in this order; and a target transaction that sees its pull data acknowledged has
  received the request, handed it to the upper layer (possibly several times, bouncing through
  receiver-not-ready), had it acknowledged, received the data and sent it, in this order.
\<close>

theorem pull_causality:
  assumes "tm_state t = kStInvalid" and "run_updates t evs = Inr (t', samples)"
  shows "(tm_state t' = kPullDataUlpTx \<longrightarrow>
      suffix [(kPullRequest, UlpRx), (kPullRequest, NtwkTx), (kPullData, NtwkRx), (kPullData, UlpTx)]
        (filter changes_state (map snd evs))) \<and>
    (tm_state t' = kPullDataAckNtwkRx \<longrightarrow>
      (\<exists>w. pull_bounce w \<and> w \<noteq> [] \<and> last w = (kPullRequest, UlpTx) \<and>
        suffix ((kPullRequest, NtwkRx) # w @ [(kPullRequest, UlpAckRx), (kPullData, UlpRx),
          (kPullData, NtwkTx), (kPullData, NtwkAckRx)]) (filter changes_state (map snd evs))))"
proof -
  have tr: "txn_trace (map snd evs) (tm_state t')"
    using run_updates_trace [OF assms(2), of "[]"] assms(1) by (simp add: txn_trace.fresh)
  have prev: "\<exists>es0. txn_trace es0 p \<and> filter changes_state es = filter changes_state es0 @ [e]"
    if "txn_trace es s" "s \<noteq> kStInvalid"
      "\<forall>s' e'. txn_step s' e' s \<and> changes_state e' \<longrightarrow> s' = p \<and> e' = e" for es s p e
    using txn_trace_last [OF that(1,2)] that(3) by blast
  have target: "\<exists>w. pull_bounce w \<and> w \<noteq> [] \<and> last w = (kPullRequest, UlpTx) \<and>
      suffix ((kPullRequest, NtwkRx) # w @ [(kPullRequest, UlpAckRx), (kPullData, UlpRx),
        (kPullData, NtwkTx), (kPullData, NtwkAckRx)]) (filter changes_state (map snd evs))"
    if "tm_state t' = kPullDataAckNtwkRx"
  proof -
    have "txn_trace (map snd evs) kPullDataAckNtwkRx" using tr that by simp
    then obtain e1 where e1: "txn_trace e1 kPullDataNtwkTx"
      "filter changes_state (map snd evs) = filter changes_state e1 @ [(kPullData, NtwkAckRx)]"
      using prev [of "map snd evs" kPullDataAckNtwkRx kPullDataNtwkTx "(kPullData, NtwkAckRx)"] by fastforce
    then obtain e2 where e2: "txn_trace e2 kPullDataUlpRx"
      "filter changes_state e1 = filter changes_state e2 @ [(kPullData, NtwkTx)]"
      using prev [of e1 kPullDataNtwkTx kPullDataUlpRx "(kPullData, NtwkTx)"] by fastforce
    then obtain e3 where e3: "txn_trace e3 kPullReqAckUlpRx"
      "filter changes_state e2 = filter changes_state e3 @ [(kPullData, UlpRx)]"
      using prev [of e2 kPullDataUlpRx kPullReqAckUlpRx "(kPullData, UlpRx)"] by fastforce
    then obtain e4 where e4: "txn_trace e4 kPullReqUlpTx"
      "filter changes_state e3 = filter changes_state e4 @ [(kPullRequest, UlpAckRx)]"
      using prev [of e3 kPullReqAckUlpRx kPullReqUlpTx "(kPullRequest, UlpAckRx)"] by fastforce
    from trace_pull_req_at_target [OF this(1)] e1 e2 e3 e4 show ?thesis
      by (auto simp: suffix_def)
  qed
  show ?thesis using tr trace_pull_done target by auto
qed

theorem pull_causality_witness:
  "\<exists>t' samples. run_updates (TransactionMetadata_new 3 kPull kInitiator)
     [(1, kPullRequest, UlpRx), (4, kPullRequest, NtwkTx), (6, kPullRequest, NtwkAckRx),
      (9, kPullData, NtwkRx), (12, kPullData, UlpTx)] = Inr (t', samples) \<and>
   suffix [(kPullRequest, UlpRx), (kPullRequest, NtwkTx), (kPullData, NtwkRx), (kPullData, UlpTx)]
     (filter changes_state (map snd [(1::int, kPullRequest, UlpRx), (4, kPullRequest, NtwkTx),
        (6, kPullRequest, NtwkAckRx), (9, kPullData, NtwkRx), (12, kPullData, UlpTx)]))"
proof -
  let ?t = "TransactionMetadata_new 3 kPull kInitiator"
  let ?evs = "[(1::int, kPullRequest, UlpRx), (4, kPullRequest, NtwkTx), (6, kPullRequest, NtwkAckRx),
      (9, kPullData, NtwkRx), (12, kPullData, UlpTx)]"
  obtain t' samples where r: "run_updates ?t ?evs = Inr (t', samples)" "tm_state t' = kPullDataUlpTx"
    by (simp add: run_eval)
  have "tm_state ?t = kStInvalid" by (simp add: TransactionMetadata_new_def)
  from pull_causality [OF this r(1)] r show ?thesis by auto
qed

text \<open>
  Stage latencies add up: for a transaction begun by the upper layer and not restarted, the
  total latency sampled at its end is exactly the sum of the stage latencies sampled on the
  way, however many acknowledgements of control packets arrive in between (which is why those
  must not update the timestamp).
\<close>

theorem latency_adds_up:
  assumes "type \<in> {kPullRequest, kPushRequest, kPushUnsolicitedData}"
    and "UpdateState (Finite now) type UlpRx t = Inr (t1, samples0)"
    and "run_updates t1 evs = Inr (t', samples)" and "\<forall>e \<in> set evs. measured (snd e)"
    and "(l, d) \<in> set samples" and "is_total l"
  shows "d = Finite (stage_sum samples)"
proof -
  have "tm_last_state_update_timestamp t1 = Finite now" "tm_transaction_start_timestamp t1 = Finite now"
    using assms(1,2) by (auto simp: UpdateState_eq_Inr)
  from run_latency [OF assms(3,4) this] assms(5,6) show ?thesis by auto
qed

theorem latency_adds_up_witness:
  "\<exists>t' samples. run_updates ((TransactionMetadata_new 3 kPull kInitiator)\<lparr>tm_state := kPullReqUlpRx,
       tm_transaction_start_timestamp := Finite 1, tm_last_state_update_timestamp := Finite 1\<rparr>)
     [(4, kPullRequest, NtwkTx), (6, kPullRequest, NtwkAckRx), (9, kPullData, NtwkRx),
      (12, kPullData, UlpTx)] = Inr (t', samples) \<and> stage_sum samples = 11"
proof -
  let ?t0 = "TransactionMetadata_new 3 kPull kInitiator"
  let ?t = "?t0\<lparr>tm_state := kPullReqUlpRx, tm_transaction_start_timestamp := Finite 1,
     tm_last_state_update_timestamp := Finite 1\<rparr>"
  let ?evs = "[(4, kPullRequest, NtwkTx), (6, kPullRequest, NtwkAckRx), (9, kPullData, NtwkRx),
      (12, kPullData, UlpTx)]"
  have s: "UpdateState (Finite 1) kPullRequest UlpRx ?t0 = Inr (?t, [])"
    by (simp add: run_eval)
  obtain t' samples where r: "run_updates ?t ?evs = Inr (t', samples)"
    "(Pull_kTotalLatency, Finite 11) \<in> set samples"
    by (simp add: run_eval)
  have "Finite 11 = Finite (stage_sum samples)"
    by (rule latency_adds_up [OF _ s r(1) _ r(2)]) (auto simp: measured_def begins_def is_total_def)
  with r show ?thesis by auto
qed

text \<open>
  C21. An operation of the upper layer that starts a transaction always succeeds: it takes the
  next request sequence number, files a fresh transaction under it in the start state of its
  packet type, with the request length and both timestamps set, and leaves every other
  transaction of the connection alone.
\<close>

theorem ulp_request_files_transaction:
  assumes "initiates pkt" and "1 \<le> cs_version cs"
  shows "\<exists>type t samples cs'. RdmaOpcodeToPacketType pkt thr = Inr type \<and>
    CreateOrUpdateTransactionFromUlp (Finite now) pkt thr mode cs =
      Inr ((cs_tx_next_rsn cs, type), samples, cs') \<and>
    cs' = cs\<lparr>cs_tx_next_rsn := cs_tx_next_rsn cs + 1,
      cs_transactions := (cs_transactions cs)((cs_tx_next_rsn cs, kInitiator) \<mapsto> t)\<rparr> \<and>
    tm_state t = start_state type \<and> tm_rsn t = cs_tx_next_rsn cs \<and>
    tm_request_length t = rdma_request_length pkt \<and>
    tm_transaction_start_timestamp t = Finite now \<and> tm_last_state_update_timestamp t = Finite now"
proof -
  have "\<exists>type. RdmaOpcodeToPacketType pkt thr = Inr type"
    using assms(1) by (auto simp: initiates_def RdmaOpcodeToPacketType_def)
  with from_ulp_initiates [OF assms, of now thr mode] show ?thesis by auto
qed

theorem ulp_request_files_transaction_witness:
  "\<exists>type t samples cs'.
    CreateOrUpdateTransactionFromUlp (Finite 3) (packet_default\<lparr>rdma_opcode := kReadRequest\<rparr>) 64 kOrdered
      ((ConnectionState_new 1 5 kOrdered)\<lparr>cs_tx_next_rsn := 8\<rparr>) =
      Inr ((8, type), samples, cs') \<and> cs_transactions cs' (8, kInitiator) = Some t"
  using ulp_request_files_transaction [of "packet_default\<lparr>rdma_opcode := kReadRequest\<rparr>"
      "(ConnectionState_new 1 5 kOrdered)\<lparr>cs_tx_next_rsn := 8\<rparr>" 64 3 kOrdered]
  by (auto simp: initiates_def ConnectionState_new_def)

text \<open>
  Successive operations of the upper layer receive consecutive request sequence numbers
  (modulo \<open>2^32\<close>), pairwise different as long as fewer than \<open>2^32\<close> are issued.
\<close>

theorem rsns_consecutive:
  assumes "\<forall>op \<in> set ops. initiates (snd op)" and "1 \<le> cs_version cs" and "length ops < 2 ^ 32"
  shows "\<exists>rsns cs'. ulp_requests thr mode ops cs = Inr (rsns, cs') \<and> distinct rsns \<and>
    length rsns = length ops \<and> (\<forall>i < length ops. rsns ! i = cs_tx_next_rsn cs + of_nat i)"
proof -
  let ?rsns = "map (\<lambda>i. cs_tx_next_rsn cs + of_nat i) [0..<length ops]"
  have "distinct ?rsns"
    using assms(3) by (auto simp: distinct_map inj_on_def word_of_nat_inj_bound)
  with ulp_requests_rsns [OF assms(1,2), of thr mode] show ?thesis by auto
qed

theorem rsns_consecutive_witness:
  "\<exists>cs'. ulp_requests 64 kOrdered [(1, packet_default\<lparr>rdma_opcode := kReadRequest\<rparr>),
      (2, packet_default\<lparr>rdma_opcode := kWriteOnly\<rparr>)]
      ((ConnectionState_new 1 5 kOrdered)\<lparr>cs_tx_next_rsn := - 1\<rparr>) = Inr ([- 1, 0], cs')"
proof -
  let ?ops = "[(1, packet_default\<lparr>rdma_opcode := kReadRequest\<rparr>),
      (2, packet_default\<lparr>rdma_opcode := kWriteOnly\<rparr>)] :: (int \<times> packet) list"
  let ?cs = "(ConnectionState_new 1 5 kOrdered)\<lparr>cs_tx_next_rsn := - 1\<rparr>"
  obtain rsns cs' where r: "ulp_requests 64 kOrdered ?ops ?cs = Inr (rsns, cs')"
    "length rsns = 2" "\<forall>i < 2. rsns ! i = - 1 + of_nat i"
    using rsns_consecutive [of ?ops ?cs 64 kOrdered] by (auto simp: initiates_def ConnectionState_new_def)
  then have "rsns = [- 1, 0]"
    by (intro nth_equalityI) (auto simp: less_2_cases_iff)
  with r show ?thesis by auto
qed

text \<open>
  A duplicate of a request packet never overwrites the transaction it belongs to: the
  request length the ULP was promised and, for a push request, the grant prepared for it
  survive, and the length reported back is the original one.
\<close>

theorem duplicate_request_keeps_transaction:
  assumes "pkt_type pkt \<in> {kPullRequest, kPushRequest, kPushUnsolicitedData}"
    and "1 \<le> cs_version cs" and "cs_transactions cs (falcon_rsn pkt, kTarget) = Some t"
  shows "\<exists>t' samples cs'. CreateOrUpdateTransactionFromNetwork now pkt cs =
      Inr ((ucast (tm_request_length t), 0), samples, cs') \<and>
    cs' = cs\<lparr>cs_transactions := (cs_transactions cs)((falcon_rsn pkt, kTarget) \<mapsto> t')\<rparr> \<and>
    tm_request_length t' = tm_request_length t \<and> tm_type t' = tm_type t \<and>
    tm_packets t' kPushGrant = tm_packets t kPushGrant"
  using assms
  by (auto simp: CreateOrUpdateTransactionFromNetwork_def network_switch_def Let_def try_emplace_def
      CreateTransactionMetadata_def put_transaction_def UpdateState_def CreatePacket_network_def)

theorem duplicate_request_keeps_transaction_witness:
  "\<exists>samples cs'. CreateOrUpdateTransactionFromNetwork (Finite 9)
     (packet_default\<lparr>pkt_type := kPullRequest, falcon_rsn := 4, falcon_request_length := 99\<rparr>)
     ((ConnectionState_new 1 5 kOrdered)\<lparr>cs_transactions :=
        [(4, kTarget) \<mapsto> (TransactionMetadata_new 4 kPull kTarget)\<lparr>tm_request_length := 50\<rparr>]\<rparr>) =
     Inr ((50, 0), samples, cs')"
  using duplicate_request_keeps_transaction
    [of "packet_default\<lparr>pkt_type := kPullRequest, falcon_rsn := 4, falcon_request_length := 99\<rparr>"
      "(ConnectionState_new 1 5 kOrdered)\<lparr>cs_transactions := [(4, kTarget) \<mapsto> (TransactionMetadata_new 4 kPull kTarget)\<lparr>tm_request_length := 50\<rparr>]\<rparr>"
      "(TransactionMetadata_new 4 kPull kTarget)\<lparr>tm_request_length := 50\<rparr>" "Finite 9"]
  by (auto simp: ConnectionState_new_def)

end
