(* ===== verification/Reorder_Engine.thy ===== *)
theory Reorder_Engine
  imports Transactions
begin

text \<open>
  The receive-side reorder engine of
  \<^verbatim>\<open>src/isekai/host/falcon/gen1/buffer_reorder_engine.{h,cc}\<close>.

  The calls of \<^verbatim>\<open>FalconModel::ReorderCallback\<close> and the events put into the simulator's queue
  are collected, in order, in the list of \<open>reorder_out\<close> each operation returns:
  \<^verbatim>\<open>ReorderCallback\<close> only enqueues into the inter-host receive scheduler and never calls back
  into the engine. The four buffers are ordered maps keyed by 32-bit words.

  The three buffers that are drained from their head (completions and grants at the initiator,
  push requests at the target) share the contract of locale \<open>in_order_buffer\<close>, proved once
  and interpreted on each of the three; the target's request buffer, with its rewinding
  for receiver-not-ready, is treated separately.
\<close>

section \<open>State\<close>

record target_transaction =
  tt_packet_type :: packet_type
  tt_retry_time :: duration

text \<open>The constructor \<^verbatim>\<open>TransactionMetadata(type)\<close> of the engine: ready to be sent.\<close>

definition target_transaction_new :: "packet_type \<Rightarrow> target_transaction" where
  "target_transaction_new type = \<lparr>tt_packet_type = type, tt_retry_time = ZeroDuration\<rparr>"

record connection_reorder_metadata =
  next_initiator_rsn :: u32
  next_target_rsn :: u32
  next_target_network_rsn :: u32
  next_initiator_ssn :: u32
  next_target_ssn :: u32
  ri_ordering_mode :: ordering_mode
  in_rnr :: bool
  rnr_timeout :: duration
  initiator_rsn_buffer :: "(u32, packet_type) omap"
  target_rsn_buffer :: "(u32, target_transaction) omap"
  initiator_ssn_buffer :: "(u32, u32) omap"
  target_ssn_buffer :: "(u32, u32) omap"

type_synonym reorder_info = "u32 \<rightharpoonup> connection_reorder_metadata"

text \<open>
  \<^verbatim>\<open>reorder_info_[cid]\<close> on an unknown connection value-initializes the entry: every number is
  zero and the first enumerator, \<^verbatim>\<open>kOrdered\<close>, is the ordering mode.
\<close>

definition reorder_metadata_default :: connection_reorder_metadata where
  "reorder_metadata_default =
     \<lparr>next_initiator_rsn = 0, next_target_rsn = 0, next_target_network_rsn = 0,
      next_initiator_ssn = 0, next_target_ssn = 0, ri_ordering_mode = kOrdered, in_rnr = False,
      rnr_timeout = ZeroDuration, initiator_rsn_buffer = [], target_rsn_buffer = [],
      initiator_ssn_buffer = [], target_ssn_buffer = []\<rparr>"

definition ri_at :: "reorder_info \<Rightarrow> u32 \<Rightarrow> connection_reorder_metadata" where
  "ri_at ri cid = (case ri cid of Some info \<Rightarrow> info | None \<Rightarrow> reorder_metadata_default)"

datatype reorder_out =
    ReorderCallback u32 u32 packet_type
  | ScheduleRnrTimeout u32 u32 duration

section \<open>Operations\<close>

definition InitializeConnection ::
  "u32 \<Rightarrow> u32 \<Rightarrow> u32 \<Rightarrow> u32 \<Rightarrow> u32 \<Rightarrow> ordering_mode \<Rightarrow> reorder_info \<Rightarrow> status \<times> reorder_info" where
  "InitializeConnection cid initiator_rsn target_rsn initiator_ssn target_ssn mode ri =
     (case ri cid of
        Some _ \<Rightarrow> (AlreadyExistsError, ri)
      | None \<Rightarrow> (OkStatus, ri(cid \<mapsto>
          \<lparr>next_initiator_rsn = initiator_rsn, next_target_rsn = target_rsn,
           next_target_network_rsn = target_rsn, next_initiator_ssn = initiator_ssn,
           next_target_ssn = target_ssn, ri_ordering_mode = mode, in_rnr = False,
           rnr_timeout = ZeroDuration, initiator_rsn_buffer = [], target_rsn_buffer = [],
           initiator_ssn_buffer = [], target_ssn_buffer = []\<rparr>)))"

definition DeleteConnection :: "u32 \<Rightarrow> reorder_info \<Rightarrow> status \<times> reorder_info" where
  "DeleteConnection cid ri =
     (case ri cid of None \<Rightarrow> (NotFoundError, ri) | Some _ \<Rightarrow> (OkStatus, ri(cid := None)))"

text \<open>
  The loop shared by the head-drained buffers: as long as the head of the buffer is the
  expected number, hand it out, erase it and expect the successor (with wrap-around).
\<close>

fun drain :: "u32 \<Rightarrow> (u32, 'v) omap \<Rightarrow> (u32 \<times> 'v) list \<times> u32 \<times> (u32, 'v) omap" where
  "drain next_key [] = ([], next_key, [])"
| "drain next_key ((k, v) # m) =
     (if next_key = k
      then let (outs, n, m') = drain (next_key + 1) m in ((k, v) # outs, n, m')
      else ([], next_key, (k, v) # m))"

definition CheckInitiatorRsnBuffer ::
  "connection_reorder_metadata \<Rightarrow> (u32 \<times> packet_type) list \<times> connection_reorder_metadata" where
  "CheckInitiatorRsnBuffer info =
     (let (outs, n, m) = drain (next_initiator_rsn info) (initiator_rsn_buffer info)
      in (outs, info\<lparr>next_initiator_rsn := n, initiator_rsn_buffer := m\<rparr>))"

definition CheckInitiatorSsnBuffer ::
  "connection_reorder_metadata \<Rightarrow> (u32 \<times> u32) list \<times> connection_reorder_metadata" where
  "CheckInitiatorSsnBuffer info =
     (let (outs, n, m) = drain (next_initiator_ssn info) (initiator_ssn_buffer info)
      in (outs, info\<lparr>next_initiator_ssn := n, initiator_ssn_buffer := m\<rparr>))"

definition CheckTargetSsnBuffer ::
  "connection_reorder_metadata \<Rightarrow> (u32 \<times> u32) list \<times> connection_reorder_metadata" where
  "CheckTargetSsnBuffer info =
     (let (outs, n, m) = drain (next_target_ssn info) (target_ssn_buffer info)
      in (outs, info\<lparr>next_target_ssn := n, target_ssn_buffer := m\<rparr>))"

text \<open>
  The loop over the target's buffer starts at the entry of the expected number, if there is
  one, and runs on in key order while entry and expected number agree and the entry is
  ready; an entry handed out stays in the buffer, in flight.
\<close>

fun drain_target ::
  "duration \<Rightarrow> u32 \<Rightarrow> (u32, target_transaction) omap \<Rightarrow>
   (u32 \<times> packet_type) list \<times> u32 \<times> (u32, target_transaction) omap" where
  "drain_target now next_key [] = ([], next_key, [])"
| "drain_target now next_key ((k, t) # m) =
     (if next_key = k \<and> tt_retry_time t \<le> now
      then let (outs, n, m') = drain_target now (next_key + 1) m
           in ((k, tt_packet_type t) # outs, n, (k, t\<lparr>tt_retry_time := Infinite\<rparr>) # m')
      else ([], next_key, (k, t) # m))"

definition CheckTargetRsnBuffer ::
  "duration \<Rightarrow> connection_reorder_metadata \<Rightarrow> (u32 \<times> packet_type) list \<times> connection_reorder_metadata" where
  "CheckTargetRsnBuffer now info =
     (let before = takeWhile (\<lambda>e. fst e \<noteq> next_target_rsn info) (target_rsn_buffer info);
          from_next = dropWhile (\<lambda>e. fst e \<noteq> next_target_rsn info) (target_rsn_buffer info);
          (outs, n, m) = drain_target now (next_target_rsn info) from_next
      in (outs, info\<lparr>next_target_rsn := n, target_rsn_buffer := before @ m\<rparr>))"

text \<open>Handing one entry to the upper layer; an iterator at the end would be dereferenced.\<close>

definition SendToUlpTarget ::
  "u32 \<Rightarrow> connection_reorder_metadata \<Rightarrow> ((u32 \<times> packet_type) list \<times> connection_reorder_metadata) res" where
  "SendToUlpTarget rsn info =
     (case map_of (target_rsn_buffer info) rsn of
        None \<Rightarrow> Inl UndefinedBehaviour
      | Some t \<Rightarrow>
          let info1 = info\<lparr>target_rsn_buffer :=
                omap_put rsn (t\<lparr>tt_retry_time := Infinite\<rparr>) (target_rsn_buffer info)\<rparr>
          in Inr ([(rsn, tt_packet_type t)],
                  if ri_ordering_mode info = kOrdered
                  then info1\<lparr>next_target_rsn := next_target_rsn info + 1\<rparr> else info1))"

definition IsInflightToUlpTarget :: "target_transaction \<Rightarrow> bool" where
  "IsInflightToUlpTarget t \<longleftrightarrow> tt_retry_time t = Infinite"

text \<open>The branches of \<^verbatim>\<open>InsertPacket\<close> for one connection.\<close>

definition insert_initiator_rsn ::
  "u32 \<Rightarrow> packet_type \<Rightarrow> connection_reorder_metadata \<Rightarrow>
   (u32 \<times> packet_type) list \<times> connection_reorder_metadata" where
  "insert_initiator_rsn rsn type info =
     (if rsn = next_initiator_rsn info
      then let (outs, info') =
             CheckInitiatorRsnBuffer (info\<lparr>next_initiator_rsn := next_initiator_rsn info + 1\<rparr>)
           in ((rsn, type) # outs, info')
      else ([], info\<lparr>initiator_rsn_buffer := omap_put rsn type (initiator_rsn_buffer info)\<rparr>))"

definition insert_initiator_ssn ::
  "u32 \<Rightarrow> u32 \<Rightarrow> connection_reorder_metadata \<Rightarrow> (u32 \<times> u32) list \<times> connection_reorder_metadata" where
  "insert_initiator_ssn ssn rsn info =
     (if ssn = next_initiator_ssn info
      then let (outs, info') =
             CheckInitiatorSsnBuffer (info\<lparr>next_initiator_ssn := next_initiator_ssn info + 1\<rparr>)
           in ((ssn, rsn) # outs, info')
      else ([], info\<lparr>initiator_ssn_buffer := omap_put ssn rsn (initiator_ssn_buffer info)\<rparr>))"

definition insert_target_ssn ::
  "u32 \<Rightarrow> u32 \<Rightarrow> connection_reorder_metadata \<Rightarrow> (u32 \<times> u32) list \<times> connection_reorder_metadata" where
  "insert_target_ssn ssn rsn info =
     (if ssn = next_target_ssn info
      then let (outs, info') =
             CheckTargetSsnBuffer (info\<lparr>next_target_ssn := next_target_ssn info + 1\<rparr>)
           in ((ssn, rsn) # outs, info')
      else ([], info\<lparr>target_ssn_buffer := omap_put ssn rsn (target_ssn_buffer info)\<rparr>))"

definition insert_target_rsn ::
  "duration \<Rightarrow> u32 \<Rightarrow> packet_type \<Rightarrow> connection_reorder_metadata \<Rightarrow>
   (status \<times> (u32 \<times> packet_type) list \<times> connection_reorder_metadata) res" where
  "insert_target_rsn now rsn type info =
     check (map_of (target_rsn_buffer info) rsn = None)
       (let info1 = info\<lparr>target_rsn_buffer :=
              omap_put rsn (target_transaction_new type) (target_rsn_buffer info)\<rparr>
        in if rsn = next_target_rsn info1
           then res_bind (SendToUlpTarget rsn info1) (\<lambda>(outs, info2).
                  let (outs', info3) = CheckTargetRsnBuffer now info2
                  in Inr (OkStatus, outs @ outs', info3))
           else if in_rnr info1 \<and> type \<noteq> kPullRequest
           then Inr (FailedPreconditionError, [], info1)
           else Inr (OkStatus, [], info1))"

definition insert_unordered ::
  "u32 \<Rightarrow> packet_type \<Rightarrow> connection_reorder_metadata \<Rightarrow>
   ((u32 \<times> packet_type) list \<times> connection_reorder_metadata) res" where
  "insert_unordered rsn type info =
     (if type = kPullRequest \<or> type = kPushSolicitedData \<or> type = kPushUnsolicitedData
      then check (map_of (target_rsn_buffer info) rsn = None)
             (SendToUlpTarget rsn (info\<lparr>target_rsn_buffer :=
                omap_put rsn (target_transaction_new type) (target_rsn_buffer info)\<rparr>))
      else Inr ([(rsn, type)], info))"

definition callbacks :: "u32 \<Rightarrow> (u32 \<times> packet_type) list \<Rightarrow> reorder_out list" where
  "callbacks cid outs = map (\<lambda>(rsn, type). ReorderCallback cid rsn type) outs"

text \<open>In the SSN buffers the payload is the RSN and the packet type is fixed.\<close>

definition ssn_callbacks :: "u32 \<Rightarrow> packet_type \<Rightarrow> (u32 \<times> u32) list \<Rightarrow> reorder_out list" where
  "ssn_callbacks cid type outs = map (\<lambda>(ssn, rsn). ReorderCallback cid rsn type) outs"

definition InsertPacket ::
  "duration \<Rightarrow> packet_type \<Rightarrow> u32 \<Rightarrow> u32 \<Rightarrow> u32 \<Rightarrow> reorder_info \<Rightarrow>
   (status \<times> reorder_out list \<times> reorder_info) res" where
  "InsertPacket now type cid rsn ssn ri =
     (case ri cid of
        None \<Rightarrow> Inr (NotFoundError, [], ri)
      | Some info \<Rightarrow>
          if ri_ordering_mode info = kUnordered
          then res_bind (insert_unordered rsn type info) (\<lambda>(outs, info').
                 Inr (OkStatus, callbacks cid outs, ri(cid \<mapsto> info')))
          else if type \<in> {kPullData, kAck, kNack}
          then let (outs, info') = insert_initiator_rsn rsn type info
               in Inr (OkStatus, callbacks cid outs, ri(cid \<mapsto> info'))
          else if type \<in> {kPullRequest, kPushSolicitedData, kPushUnsolicitedData}
          then res_bind (insert_target_rsn now rsn type info) (\<lambda>(st, outs, info').
                 Inr (st, callbacks cid outs, ri(cid \<mapsto> info')))
          else if type = kPushGrant
          then let (outs, info') = insert_initiator_ssn ssn rsn info
               in Inr (OkStatus, ssn_callbacks cid kPushGrant outs, ri(cid \<mapsto> info'))
          else if type = kPushRequest
          then let (outs, info') = insert_target_ssn ssn rsn info
               in Inr (OkStatus, ssn_callbacks cid kPushRequest outs, ri(cid \<mapsto> info'))
          else Inl LogFatal)"

definition retry_target ::
  "duration \<Rightarrow> u32 \<Rightarrow> connection_reorder_metadata \<Rightarrow>
   (status \<times> (u32 \<times> packet_type) list \<times> connection_reorder_metadata) res" where
  "retry_target now rsn info =
     (case map_of (target_rsn_buffer info) rsn of
        None \<Rightarrow> Inl CheckFailed
      | Some t \<Rightarrow>
          check (tt_packet_type t \<noteq> kPullRequest)
            (if \<not> IsInflightToUlpTarget t
             then if ri_ordering_mode info = kUnordered
                  then res_bind (SendToUlpTarget rsn info) (\<lambda>(outs, info'). Inr (OkStatus, outs, info'))
                  else if rsn = next_target_rsn info
                  then let (outs, info') = CheckTargetRsnBuffer now
                         (info\<lparr>target_rsn_buffer :=
                            omap_put rsn (t\<lparr>tt_retry_time := now\<rparr>) (target_rsn_buffer info)\<rparr>)
                       in Inr (OkStatus, outs, info')
                  else if in_rnr info then Inr (FailedPreconditionError, [], info)
                  else Inr (OkStatus, [], info)
             else Inr (OkStatus, [], info)))"

definition RetryRnrNackedPacket ::
  "duration \<Rightarrow> u32 \<Rightarrow> u32 \<Rightarrow> reorder_info \<Rightarrow> (status \<times> reorder_out list \<times> reorder_info) res" where
  "RetryRnrNackedPacket now cid rsn ri =
     (case ri cid of
        None \<Rightarrow> Inr (NotFoundError, [], ri)
      | Some info \<Rightarrow> res_bind (retry_target now rsn info) (\<lambda>(st, outs, info').
          Inr (st, callbacks cid outs, ri(cid \<mapsto> info'))))"

text \<open>
  \<^verbatim>\<open>IsHeadOfLineNetworkRequest\<close> looks the connection up in the state manager first;
  \<open>conns\<close> is \<^verbatim>\<open>connection_contexts_\<close>.
\<close>

definition PerformDirectLookup ::
  "(u32 \<rightharpoonup> connection_state) \<Rightarrow> u32 \<Rightarrow> status + connection_state" where
  "PerformDirectLookup conns scid = (case conns scid of Some cs \<Rightarrow> Inr cs | None \<Rightarrow> Inl NotFoundError)"

definition IsHeadOfLineNetworkRequest ::
  "(u32 \<rightharpoonup> connection_state) \<Rightarrow> reorder_info \<Rightarrow> u32 \<Rightarrow> u32 \<Rightarrow> bool res" where
  "IsHeadOfLineNetworkRequest conns ri cid rsn =
     (case PerformDirectLookup conns cid of
        Inl _ \<Rightarrow> Inl CheckFailed
      | Inr cs \<Rightarrow>
          if cs_ordered_mode cs = kUnordered then Inr True
          else (case ri cid of
                  None \<Rightarrow> Inl LogFatal
                | Some info \<Rightarrow> Inr (rsn = next_target_network_rsn info)))"

text \<open>
  \<^verbatim>\<open>HandleRnrNackFromUlp\<close>: for a number that is not in the buffer, \<^verbatim>\<open>operator[]\<close> makes an entry
  whose packet type is never initialized; the model stops there.
\<close>

definition HandleRnrNackFromUlp ::
  "duration \<Rightarrow> u32 \<Rightarrow> u32 \<Rightarrow> duration \<Rightarrow> reorder_info \<Rightarrow> (reorder_out list \<times> reorder_info) res" where
  "HandleRnrNackFromUlp now cid rsn timeout ri =
     (case ri cid of
        None \<Rightarrow> Inl CheckFailed
      | Some info \<Rightarrow>
          let info1 = (if ri_ordering_mode info = kOrdered
                then (if rsn < next_target_rsn info then info\<lparr>next_target_rsn := rsn\<rparr> else info)
                       \<lparr>in_rnr := True, rnr_timeout := timeout\<rparr>
                else info)
          in case map_of (target_rsn_buffer info1) rsn of
               None \<Rightarrow> Inl UndefinedBehaviour
             | Some t \<Rightarrow> Inr ([ScheduleRnrTimeout cid rsn timeout],
                 ri(cid \<mapsto> info1\<lparr>target_rsn_buffer :=
                   omap_put rsn (t\<lparr>tt_retry_time := dur_add now timeout\<rparr>) (target_rsn_buffer info1)\<rparr>)))"

definition HandleAckFromUlp :: "u32 \<Rightarrow> u32 \<Rightarrow> reorder_info \<Rightarrow> reorder_info" where
  "HandleAckFromUlp cid rsn ri =
     (let info = ri_at ri cid;
          info1 = info\<lparr>target_rsn_buffer := omap_erase rsn (target_rsn_buffer info)\<rparr>
      in ri(cid \<mapsto> (if ri_ordering_mode info = kOrdered
           then info1\<lparr>next_target_network_rsn := next_target_network_rsn info + 1, in_rnr := False\<rparr>
           else info1)))"

definition timeout_target ::
  "duration \<Rightarrow> u32 \<Rightarrow> connection_reorder_metadata \<Rightarrow>
   ((u32 \<times> packet_type) list \<times> connection_reorder_metadata) res" where
  "timeout_target now rsn info =
     (case map_of (target_rsn_buffer info) rsn of
        None \<Rightarrow> Inr ([], info)
      | Some t \<Rightarrow>
          if tt_retry_time t \<noteq> now then Inr ([], info)
          else if ri_ordering_mode info = kUnordered then SendToUlpTarget rsn info
          else if rsn \<noteq> next_target_rsn info then Inr ([], info)
          else Inr (CheckTargetRsnBuffer now info))"

definition HandleRnrTimeout ::
  "duration \<Rightarrow> u32 \<Rightarrow> u32 \<Rightarrow> reorder_info \<Rightarrow> (reorder_out list \<times> reorder_info) res" where
  "HandleRnrTimeout now cid rsn ri =
     res_bind (timeout_target now rsn (ri_at ri cid)) (\<lambda>(outs, info').
       Inr (callbacks cid outs, ri(cid \<mapsto> info')))"

definition GetRnrTimeout :: "u32 \<Rightarrow> reorder_info \<Rightarrow> duration res" where
  "GetRnrTimeout cid ri =
     (case ri cid of None \<Rightarrow> Inl CheckFailed | Some info \<Rightarrow> Inr (rnr_timeout info))"

section \<open>The head-drained buffers\<close>

text \<open>What the drain loop hands out is consecutive, also across the wrap-around.\<close>

lemma drain_consecutive:
  "drain n m = (outs, n', m') \<Longrightarrow> m = outs @ m' \<and> n' = n + of_nat (length outs) \<and>
     map fst outs = map (\<lambda>i. n + of_nat i) [0..<length outs]"
proof (induction n m arbitrary: outs n' m' rule: drain.induct)
  case (2 n k v m)
  show ?case
  proof (cases "n = k")
    case True
    obtain os n1 m1 where d: "drain (n + 1) m = (os, n1, m1)" by (metis prod_cases3)
    from "2.IH" [OF True d] have
      ih: "m = os @ m1" "n1 = n + 1 + of_nat (length os)"
      "map fst os = map (\<lambda>i. n + 1 + of_nat i) [0..<length os]"
      by auto
    have "outs = (k, v) # os" "n' = n1" "m' = m1" using "2.prems" True d by auto
    then show ?thesis using ih True by (simp add: consecutive_Suc add.assoc del: upt_Suc)
  next
    case False
    then show ?thesis using "2.prems" by simp
  qed
qed simp

text \<open>
  Away from the wrap-around, what stays behind the drain lies strictly above the next
  expected number.
\<close>

lemma drain_rest_above:
  assumes "drain n m = (outs, n', m')" and "omap_ok m"
    and "\<forall>k \<in> fst ` set m. n \<le> k" and "\<forall>k \<in> fst ` set m. unat k < 2 ^ 32 - 1"
  shows "\<forall>k \<in> fst ` set m'. n' < k"
  using assms
proof (induction n m arbitrary: outs n' m' rule: drain.induct)
  case (2 n k v m)
  show ?case
  proof (cases "n = k")
    case True
    obtain os n1 m1 where d: "drain (n + 1) m = (os, n1, m1)" by (metis prod_cases3)
    have above: "\<forall>k' \<in> fst ` set m. n < k'" using "2.prems"(2) True by (simp add: omap_ok_Cons)
    have "\<forall>k' \<in> fst ` set m. n + 1 \<le> k'" using above by (auto intro: inc_le)
    moreover have "omap_ok m" using "2.prems"(2) by (simp add: omap_ok_Cons)
    moreover have "\<forall>k' \<in> fst ` set m. unat k' < 2 ^ 32 - 1" using "2.prems"(4) by simp
    ultimately have "\<forall>k \<in> fst ` set m1. n1 < k" using "2.IH" [OF True d] by blast
    then show ?thesis using "2.prems"(1) True d by auto
  next
    case False
    then have "n < k" using "2.prems"(3) by (simp add: order_less_le)
    moreover have "\<forall>k' \<in> fst ` set m. k < k'" using "2.prems"(2) by (simp add: omap_ok_Cons)
    ultimately show ?thesis using "2.prems"(1) False by (auto intro: less_trans)
  qed
qed simp

text \<open>Feeding arrivals, one after the other, to a component that accepts them.\<close>

fun feed ::
  "(u32 \<Rightarrow> 'v \<Rightarrow> 's \<Rightarrow> (u32 \<times> 'v) list \<times> 's) \<Rightarrow> (u32 \<times> 'v) list \<Rightarrow> 's \<Rightarrow> (u32 \<times> 'v) list \<times> 's" where
  "feed accept [] s = ([], s)"
| "feed accept ((k, v) # arrivals) s =
     (let (outs, s1) = accept k v s; (outs', s2) = feed accept arrivals s1 in (outs @ outs', s2))"

locale in_order_buffer =
  fixes accept :: "u32 \<Rightarrow> 'v \<Rightarrow> 's \<Rightarrow> (u32 \<times> 'v) list \<times> 's"
    and expected :: "'s \<Rightarrow> u32"
    and buffer :: "'s \<Rightarrow> (u32, 'v) omap"
  assumes accept_expected: "k = expected s \<Longrightarrow>
      (case drain (expected s + 1) (buffer s) of (outs, n, m) \<Rightarrow>
         \<exists>s'. accept k v s = ((k, v) # outs, s') \<and> expected s' = n \<and> buffer s' = m)"
    and accept_other: "k \<noteq> expected s \<Longrightarrow>
      \<exists>s'. accept k v s = ([], s') \<and> expected s' = expected s \<and> buffer s' = omap_put k v (buffer s)"
begin

lemma accept_consecutive:
  assumes "accept k v s = (outs, s')"
  shows "map fst outs = map (\<lambda>i. expected s + of_nat i) [0..<length outs] \<and>
    expected s' = expected s + of_nat (length outs)"
proof (cases "k = expected s")
  case True
  obtain os n m where d: "drain (expected s + 1) (buffer s) = (os, n, m)" by (metis prod_cases3)
  with accept_expected [OF True, of v] assms have
    "outs = (k, v) # os" "expected s' = n" by auto
  with drain_consecutive [OF d] True show ?thesis
    by (simp add: consecutive_Suc add.assoc del: upt_Suc)
next
  case False
  with accept_other [OF False, of v] assms show ?thesis by auto
qed

text \<open>Whatever arrives, in whatever order, the numbers handed out are consecutive.\<close>

lemma feed_consecutive:
  "feed accept arrivals s = (outs, s') \<Longrightarrow>
     map fst outs = map (\<lambda>i. expected s + of_nat i) [0..<length outs] \<and>
     expected s' = expected s + of_nat (length outs)"
proof (induction arrivals arbitrary: s outs)
  case (Cons a arrivals)
  obtain k v where a: "a = (k, v)" by fastforce
  obtain o1 s1 where s1: "accept k v s = (o1, s1)" by fastforce
  obtain o2 where s2: "feed accept arrivals s1 = (o2, s')" and "outs = o1 @ o2"
    using Cons.prems a s1 by (auto split: prod.splits)
  then show ?case
    using accept_consecutive [OF s1] Cons.IH [OF s2] by (simp add: consecutive_plus add.assoc)
qed simp

text \<open>Nothing is lost or invented: what arrived is handed out or still in the buffer.\<close>

definition sound :: "'s \<Rightarrow> bool" where
  "sound s \<longleftrightarrow> omap_ok (buffer s) \<and> (\<forall>k \<in> fst ` set (buffer s). expected s < k)"

lemma accept_sound:
  assumes "accept k v s = (outs, s')" and "sound s" and "expected s \<le> k"
    and "k \<notin> fst ` set (buffer s)"
    and "unat k < 2 ^ 32 - 1" and "\<forall>k' \<in> fst ` set (buffer s). unat k' < 2 ^ 32 - 1"
  shows "sound s' \<and> insert (k, v) (set (buffer s)) = set outs \<union> set (buffer s')"
proof (cases "k = expected s")
  case True
  obtain os n m where d: "drain (expected s + 1) (buffer s) = (os, n, m)" by (metis prod_cases3)
  with accept_expected [OF True, of v] assms(1) have
    o: "outs = (k, v) # os" "expected s' = n" "buffer s' = m" by auto
  have ge: "\<forall>k' \<in> fst ` set (buffer s). expected s + 1 \<le> k'"
    using assms(2) by (auto simp: sound_def intro: inc_le)
  have ok: "omap_ok (buffer s)" using assms(2) by (simp add: sound_def)
  have eq: "buffer s = os @ m" using drain_consecutive [OF d] by simp
  then have "omap_ok m" using ok by (simp add: omap_ok_def sorted_wrt_append)
  with drain_rest_above [OF d ok ge assms(6)] o eq show ?thesis by (auto simp: sound_def)
next
  case False
  with accept_other [OF False, of v] assms(1) have
    o: "outs = []" "expected s' = expected s" "buffer s' = omap_put k v (buffer s)" by auto
  have ok: "omap_ok (buffer s')" using assms(2) o by (simp add: sound_def omap_ok_put)
  have "set (omap_put k v (buffer s)) = insert (k, v) (set (buffer s))"
    using assms(4) by (rule set_omap_put_fresh)
  with ok o assms(2,3) False show ?thesis by (auto simp: sound_def order_less_le)
qed

lemma feed_sound:
  assumes "feed accept arrivals s = (outs, s')" and "sound s" and "distinct (map fst arrivals)"
    and "\<forall>k \<in> fst ` set arrivals. expected s \<le> k \<and> k \<notin> fst ` set (buffer s) \<and> unat k < 2 ^ 32 - 1"
    and "\<forall>k \<in> fst ` set (buffer s). unat k < 2 ^ 32 - 1"
  shows "sound s' \<and> set arrivals \<union> set (buffer s) = set outs \<union> set (buffer s')"
  using assms
proof (induction arrivals arbitrary: s outs)
  case (Cons a arrivals)
  obtain k v where a: "a = (k, v)" by fastforce
  obtain o1 s1 where s1: "accept k v s = (o1, s1)" by fastforce
  obtain o2 where s2: "feed accept arrivals s1 = (o2, s')" and out: "outs = o1 @ o2"
    using Cons.prems(1) a s1 by (auto split: prod.splits)
  have "k \<notin> fst ` set (buffer s)" "expected s \<le> k" "unat k < 2 ^ 32 - 1" using Cons.prems(4) a by auto
  from accept_sound [OF s1 Cons.prems(2) this(2,1,3) Cons.prems(5)]
  have p: "sound s1" "insert (k, v) (set (buffer s)) = set o1 \<union> set (buffer s1)" by auto
  have keys: "fst ` set (buffer s1) \<subseteq> insert k (fst ` set (buffer s))" using p(2) by force
  have "expected s1 \<le> k' \<and> k' \<notin> fst ` set (buffer s1) \<and> unat k' < 2 ^ 32 - 1"
    if "k' \<in> fst ` set arrivals" for k'
  proof -
    have bound: "expected s \<le> k'" "k' \<noteq> k" "k' \<notin> fst ` set (buffer s)" "unat k' < 2 ^ 32 - 1"
      using that Cons.prems(3,4) a by auto
    have "fst ` set o1 \<subseteq> insert k (fst ` set (buffer s))" using p(2) by force
    with bound have "k' \<notin> set (map fst o1)" by auto
    with accept_consecutive [OF s1] consecutive_passes [OF bound(1), of "length o1"]
    have "expected s1 \<le> k'" by auto
    with bound keys show ?thesis by blast
  qed
  then have later: "\<forall>k \<in> fst ` set arrivals. expected s1 \<le> k \<and> k \<notin> fst ` set (buffer s1) \<and>
      unat k < 2 ^ 32 - 1" by blast
  have small: "\<forall>k \<in> fst ` set (buffer s1). unat k < 2 ^ 32 - 1"
    using keys \<open>unat k < 2 ^ 32 - 1\<close> Cons.prems(5) by blast
  have "distinct (map fst arrivals)" using Cons.prems(3) by simp
  from Cons.IH [OF s2 p(1) this later small] p(2) out a show ?case by auto
qed simp

text \<open>
  A whole window arrives, in any order: everything is handed out, in order, and the buffer
  is empty again.
\<close>

lemma feed_complete:
  assumes "feed accept arrivals s = (outs, s')" and "buffer s = []"
    and "distinct (map fst arrivals)"
    and "fst ` set arrivals = (\<lambda>i. expected s + of_nat i) ` {..<l}"
    and "unat (expected s) + l < 2 ^ 32"
  shows "map fst outs = map (\<lambda>i. expected s + of_nat i) [0..<l] \<and> set outs = set arrivals \<and>
    buffer s' = [] \<and> expected s' = expected s + of_nat l"
proof -
  let ?n = "expected s"
  have key: "unat (?n + of_nat i) = unat ?n + i" if "i < l" for i
    using that assms(5) by (intro unat_plus_of_nat) simp
  have range: "?n \<le> k \<and> unat k < 2 ^ 32 - 1 \<and> unat k < unat ?n + l" if "k \<in> fst ` set arrivals" for k
  proof -
    from that assms(4) obtain i where "i < l" "k = ?n + of_nat i" by auto
    with key [of i] assms(5) show ?thesis by (simp add: word_le_nat_alt)
  qed
  have "sound s" using assms(2) by (simp add: sound_def)
  then have fs: "sound s'" "set arrivals = set outs \<union> set (buffer s')"
    using feed_sound [OF assms(1) _ assms(3)] assms(2) range by auto
  have c: "map fst outs = map (\<lambda>i. ?n + of_nat i) [0..<length outs]"
    "expected s' = ?n + of_nat (length outs)"
    using feed_consecutive [OF assms(1)] by auto
  have len: "length outs \<le> l"
  proof (rule ccontr)
    assume "\<not> length outs \<le> l"
    then have "?n + of_nat l \<in> set (map fst outs)" unfolding c(1) by auto
    then have "?n + of_nat l \<in> fst ` set arrivals" using fs(2) by auto
    with range have "unat (?n + of_nat l) < unat ?n + l" by blast
    moreover have "unat (?n + of_nat l) = unat ?n + l"
      using unat_plus_of_nat [of ?n l] assms(5) by simp
    ultimately show False by simp
  qed
  have full: "length outs = l"
  proof (rule ccontr)
    assume "length outs \<noteq> l"
    with len have lt: "length outs < l" by simp
    then have "expected s' \<in> fst ` set arrivals" using c(2) assms(4) by auto
    moreover have "expected s' \<notin> fst ` set (buffer s')" using fs(1) by (auto simp: sound_def)
    ultimately have "expected s' \<in> set (map fst outs)" using fs(2) by auto
    then obtain i where i: "i < length outs" "?n + of_nat (length outs) = ?n + of_nat i"
      unfolding c by auto
    then have "unat ?n + length outs = unat ?n + i" using key lt by (metis less_trans)
    with i(1) show False by simp
  qed
  have "k \<notin> fst ` set (buffer s')" for k
  proof
    assume k: "k \<in> fst ` set (buffer s')"
    then have "unat (expected s') < unat k" using fs(1) by (auto simp: sound_def word_less_nat_alt)
    moreover have "unat (expected s') = unat ?n + l"
      using c(2) full assms(5) by (simp add: unat_plus_of_nat)
    moreover have "k \<in> fst ` set arrivals" using fs(2) k by auto
    ultimately show False using range by fastforce
  qed
  then have "buffer s' = []" by (cases "buffer s'") auto
  with c full fs(2) show ?thesis by simp
qed

end

text \<open>The three buffers of a connection.\<close>

interpretation initiator_rsn: in_order_buffer insert_initiator_rsn next_initiator_rsn initiator_rsn_buffer
  by unfold_locales
    (auto simp: insert_initiator_rsn_def CheckInitiatorRsnBuffer_def Let_def split: prod.splits)

interpretation initiator_ssn: in_order_buffer insert_initiator_ssn next_initiator_ssn initiator_ssn_buffer
  by unfold_locales
    (auto simp: insert_initiator_ssn_def CheckInitiatorSsnBuffer_def Let_def split: prod.splits)

interpretation target_ssn: in_order_buffer insert_target_ssn next_target_ssn target_ssn_buffer
  by unfold_locales
    (auto simp: insert_target_ssn_def CheckTargetSsnBuffer_def Let_def split: prod.splits)

section \<open>The target's request buffer\<close>

lemma drain_target_spec:
  "drain_target now n m = (outs, n', m') \<Longrightarrow> distinct (map fst m) \<Longrightarrow>
     map fst m' = map fst m \<and> n' = n + of_nat (length outs) \<and>
     map fst outs = map (\<lambda>i. n + of_nat i) [0..<length outs] \<and>
     (\<forall>(r, ty) \<in> set outs. \<exists>t. map_of m r = Some t \<and> tt_retry_time t \<le> now \<and>
        tt_packet_type t = ty \<and> map_of m' r = Some (t\<lparr>tt_retry_time := Infinite\<rparr>)) \<and>
     (\<forall>r. r \<notin> fst ` set outs \<longrightarrow> map_of m' r = map_of m r)"
proof (induction now n m arbitrary: outs n' m' rule: drain_target.induct)
  case (2 now n k t m)
  show ?case
  proof (cases "n = k \<and> tt_retry_time t \<le> now")
    case True
    obtain os n1 m1 where d: "drain_target now (n + 1) m = (os, n1, m1)" by (metis prod_cases3)
    have o: "outs = (k, tt_packet_type t) # os" "n' = n1" "m' = (k, t\<lparr>tt_retry_time := Infinite\<rparr>) # m1"
      using "2.prems"(1) True d by auto
    have dist: "distinct (map fst m)" "k \<notin> fst ` set m" using "2.prems"(2) by auto
    note ih = "2.IH" [OF True d dist(1)]
    have "k \<notin> fst ` set os"
    proof
      assume "k \<in> fst ` set os"
      then obtain ty where "(k, ty) \<in> set os" by auto
      with ih have "map_of m k \<noteq> None" by fastforce
      with dist(2) show False by (simp add: map_of_eq_None_iff)
    qed
    with ih o True show ?thesis
      by (auto simp: consecutive_Suc add.assoc rev_image_eqI simp del: upt_Suc)
  next
    case False
    then have "outs = []" "n' = n" "m' = (k, t) # m" using "2.prems"(1) by (auto split: if_splits)
    then show ?thesis by simp
  qed
qed simp

lemma CheckTargetRsnBuffer_spec:
  assumes "CheckTargetRsnBuffer now info = (outs, info')" and "omap_ok (target_rsn_buffer info)"
  shows "map fst outs = map (\<lambda>i. next_target_rsn info + of_nat i) [0..<length outs]"
    and "next_target_rsn info' = next_target_rsn info + of_nat (length outs)"
    and "\<forall>(r, ty) \<in> set outs. \<exists>t. map_of (target_rsn_buffer info) r = Some t \<and>
       tt_retry_time t \<le> now \<and> tt_packet_type t = ty \<and>
       map_of (target_rsn_buffer info') r = Some (t\<lparr>tt_retry_time := Infinite\<rparr>)"
    and "\<forall>r. r \<notin> fst ` set outs \<longrightarrow> map_of (target_rsn_buffer info') r = map_of (target_rsn_buffer info) r"
    and "map fst (target_rsn_buffer info') = map fst (target_rsn_buffer info)"
proof -
  define b where "b = takeWhile (\<lambda>e. fst e \<noteq> next_target_rsn info) (target_rsn_buffer info)"
  define f where "f = dropWhile (\<lambda>e. fst e \<noteq> next_target_rsn info) (target_rsn_buffer info)"
  obtain os n m where d: "drain_target now (next_target_rsn info) f = (os, n, m)"
    by (metis prod_cases3)
  have o: "outs = os" "next_target_rsn info' = n" "target_rsn_buffer info' = b @ m"
    using assms(1) d by (auto simp: CheckTargetRsnBuffer_def Let_def b_def f_def)
  have split: "target_rsn_buffer info = b @ f" by (simp add: b_def f_def)
  have "distinct (map fst (target_rsn_buffer info))"
    using assms(2) by (simp add: omap_ok_def strict_sorted_iff)
  then have dist: "distinct (map fst f)" "fst ` set b \<inter> fst ` set f = {}" unfolding split by auto
  note sp = drain_target_spec [OF d dist(1)]
  have out_b: "map_of b r = None" if "r \<in> fst ` set f" for r
    using that dist(2) by (auto simp: map_of_eq_None_iff)
  have find: "map_of (target_rsn_buffer info) r = (case map_of b r of Some t \<Rightarrow> Some t | None \<Rightarrow> map_of f r)"
    "map_of (target_rsn_buffer info') r = (case map_of b r of Some t \<Rightarrow> Some t | None \<Rightarrow> map_of m r)" for r
    unfolding o(3) unfolding split by (simp_all add: map_add_def split: option.splits)
  show "map fst outs = map (\<lambda>i. next_target_rsn info + of_nat i) [0..<length outs]"
    "next_target_rsn info' = next_target_rsn info + of_nat (length outs)"
    using sp o by auto
  show "map fst (target_rsn_buffer info') = map fst (target_rsn_buffer info)"
    using sp unfolding o(3) unfolding split by simp
  show "\<forall>r. r \<notin> fst ` set outs \<longrightarrow> map_of (target_rsn_buffer info') r = map_of (target_rsn_buffer info) r"
    using sp o(1) find by (simp split: option.splits)
  show "\<forall>(r, ty) \<in> set outs. \<exists>t. map_of (target_rsn_buffer info) r = Some t \<and>
       tt_retry_time t \<le> now \<and> tt_packet_type t = ty \<and>
       map_of (target_rsn_buffer info') r = Some (t\<lparr>tt_retry_time := Infinite\<rparr>)"
  proof (clarify)
    fix r ty assume "(r, ty) \<in> set outs"
    then obtain t where t: "map_of f r = Some t" "tt_retry_time t \<le> now" "tt_packet_type t = ty"
      "map_of m r = Some (t\<lparr>tt_retry_time := Infinite\<rparr>)" using sp o(1) by fastforce
    then have "r \<in> fst ` set f" by (force dest: map_of_SomeD)
    with t find [of r] out_b [of r]
    show "\<exists>t. map_of (target_rsn_buffer info) r = Some t \<and> tt_retry_time t \<le> now \<and>
      tt_packet_type t = ty \<and> map_of (target_rsn_buffer info') r = Some (t\<lparr>tt_retry_time := Infinite\<rparr>)"
      by simp
  qed
qed

lemma CheckTargetRsnBuffer_omap_ok:
  "CheckTargetRsnBuffer now info = (outs, info') \<Longrightarrow> omap_ok (target_rsn_buffer info) \<Longrightarrow>
     omap_ok (target_rsn_buffer info')"
  using CheckTargetRsnBuffer_spec(5) by (fastforce simp: omap_ok_def)

lemma omap_put_from:
  assumes "omap_ok m"
  shows "\<exists>rest. dropWhile (\<lambda>e. fst e \<noteq> k) (omap_put k v m) = (k, v) # rest"
  using assms
proof (induction k v m rule: omap_put.induct)
  case (2 k v k' v' m)
  then show ?case by (auto simp: omap_ok_Cons)
qed simp

text \<open>The operations on the target's buffer, as steps of one connection.\<close>

datatype target_op = Insert packet_type u32 | Retry u32 | Timeout u32

fun target_step ::
  "duration \<Rightarrow> target_op \<Rightarrow> connection_reorder_metadata \<Rightarrow>
   (status \<times> (u32 \<times> packet_type) list \<times> connection_reorder_metadata) res" where
  "target_step now (Insert type rsn) info = insert_target_rsn now rsn type info"
| "target_step now (Retry rsn) info = retry_target now rsn info"
| "target_step now (Timeout rsn) info =
     res_bind (timeout_target now rsn info) (\<lambda>(outs, info'). Inr (OkStatus, outs, info'))"

definition delivers ::
  "connection_reorder_metadata \<Rightarrow> (u32 \<times> packet_type) list \<Rightarrow> connection_reorder_metadata \<Rightarrow> bool" where
  "delivers info outs info' \<longleftrightarrow>
     map fst outs = map (\<lambda>i. next_target_rsn info + of_nat i) [0..<length outs] \<and>
     next_target_rsn info' = next_target_rsn info + of_nat (length outs) \<and>
     (\<forall>(rsn, type) \<in> set outs.
        (case map_of (target_rsn_buffer info) rsn of None \<Rightarrow> True | Some t \<Rightarrow> \<not> IsInflightToUlpTarget t) \<and>
        map_of (target_rsn_buffer info') rsn = Some \<lparr>tt_packet_type = type, tt_retry_time = Infinite\<rparr>)"

lemma delivers_nothing: "next_target_rsn info' = next_target_rsn info \<Longrightarrow> delivers info [] info'"
  by (simp add: delivers_def)

lemma CheckTargetRsnBuffer_delivers:
  assumes "CheckTargetRsnBuffer (Finite now) info = (outs, info')" and "omap_ok (target_rsn_buffer info)"
  shows "delivers info outs info'"
  unfolding delivers_def
proof (intro conjI ballI, simp_all only: case_prod_unfold)
  note sp = CheckTargetRsnBuffer_spec [OF assms]
  show "map fst outs = map (\<lambda>i. next_target_rsn info + of_nat i) [0..<length outs]"
    "next_target_rsn info' = next_target_rsn info + of_nat (length outs)" by (fact sp)+
  fix e assume "e \<in> set outs"
  with sp(3) obtain t where t: "map_of (target_rsn_buffer info) (fst e) = Some t"
    "tt_retry_time t \<le> Finite now" "tt_packet_type t = snd e"
    "map_of (target_rsn_buffer info') (fst e) = Some (t\<lparr>tt_retry_time := Infinite\<rparr>)"
    by (auto simp: case_prod_unfold)
  then have "\<not> IsInflightToUlpTarget t" by (auto simp: IsInflightToUlpTarget_def)
  with t show "(case map_of (target_rsn_buffer info) (fst e) of None \<Rightarrow> True
      | Some t \<Rightarrow> \<not> IsInflightToUlpTarget t) \<and>
    map_of (target_rsn_buffer info') (fst e) = Some \<lparr>tt_packet_type = snd e, tt_retry_time = Infinite\<rparr>"
    by (cases t) simp
qed

lemma insert_target_rsn_delivers:
  assumes "insert_target_rsn (Finite now) rsn type info = Inr (st, outs, info')"
    and "ri_ordering_mode info = kOrdered" and "omap_ok (target_rsn_buffer info)"
  shows "delivers info outs info'"
proof (cases "rsn = next_target_rsn info")
  case False
  then show ?thesis
    using assms(1) by (auto simp: insert_target_rsn_def res_simps Let_def split: if_splits intro!: delivers_nothing)
next
  case True
  let ?b = "omap_put rsn (target_transaction_new type) (target_rsn_buffer info)"
  let ?sent = "\<lparr>tt_packet_type = type, tt_retry_time = Infinite\<rparr>"
  let ?i2 = "info\<lparr>target_rsn_buffer := omap_put rsn ?sent ?b, next_target_rsn := next_target_rsn info + 1\<rparr>"
  have new: "map_of (target_rsn_buffer info) rsn = None"
    using assms(1) by (auto simp: insert_target_rsn_def res_simps)
  have send: "SendToUlpTarget rsn (info\<lparr>target_rsn_buffer := ?b\<rparr>) = Inr ([(rsn, type)], ?i2)"
    using assms(2) by (simp add: SendToUlpTarget_def omap_simps target_transaction_new_def)
  obtain os i3 where c: "CheckTargetRsnBuffer (Finite now) ?i2 = (os, i3)" by fastforce
  have o: "outs = (rsn, type) # os" "info' = i3"
    using assms(1) True new send c by (auto simp: insert_target_rsn_def Let_def)
  have "omap_ok (target_rsn_buffer ?i2)" using assms(3) by (simp add: omap_ok_put)
  from CheckTargetRsnBuffer_delivers [OF c this] CheckTargetRsnBuffer_spec(4) [OF c this]
  have d: "delivers ?i2 os i3"
    "\<forall>r. r \<notin> fst ` set os \<longrightarrow> map_of (target_rsn_buffer i3) r = map_of (target_rsn_buffer ?i2) r" by auto
  have fresh: "rsn \<notin> fst ` set os"
    using d(1) by (auto simp: delivers_def omap_simps IsInflightToUlpTarget_def)
  have "map_of (target_rsn_buffer i3) rsn = Some ?sent" using d(2) fresh by (simp add: omap_simps)
  moreover have "case map_of (target_rsn_buffer info) (fst e) of None \<Rightarrow> True | Some t \<Rightarrow> \<not> IsInflightToUlpTarget t"
    if "e \<in> set os" for e
  proof -
    have "fst e \<noteq> rsn" using that fresh by auto
    moreover have "case map_of (target_rsn_buffer ?i2) (fst e) of None \<Rightarrow> True
        | Some t \<Rightarrow> \<not> IsInflightToUlpTarget t"
      using d(1) that by (auto simp: delivers_def case_prod_unfold)
    ultimately show ?thesis by (simp add: omap_simps)
  qed
  ultimately show ?thesis
    using d(1) o True new by (auto simp: delivers_def consecutive_Suc add.assoc case_prod_unfold simp del: upt_Suc)
qed

lemma retry_target_delivers:
  assumes "retry_target (Finite now) rsn info = Inr (st, outs, info')"
    and "ri_ordering_mode info = kOrdered" and "omap_ok (target_rsn_buffer info)"
  shows "delivers info outs info'"
proof -
  obtain t where t: "map_of (target_rsn_buffer info) rsn = Some t"
    using assms(1) by (auto simp: retry_target_def split: option.splits)
  let ?i1 = "info\<lparr>target_rsn_buffer := omap_put rsn (t\<lparr>tt_retry_time := Finite now\<rparr>) (target_rsn_buffer info)\<rparr>"
  show ?thesis
  proof (cases "\<not> IsInflightToUlpTarget t \<and> rsn = next_target_rsn info")
    case False
    then show ?thesis
      using assms(1,2) t
      by (auto simp: retry_target_def res_simps split: if_splits intro!: delivers_nothing)
  next
    case True
    then have "CheckTargetRsnBuffer (Finite now) ?i1 = (outs, info')"
      using assms(1,2) t by (auto simp: retry_target_def res_simps split: prod.splits)
    then have d: "delivers ?i1 outs info'"
      using assms(3) by (intro CheckTargetRsnBuffer_delivers) (auto simp: omap_ok_put)
    have "case map_of (target_rsn_buffer info) (fst e) of None \<Rightarrow> True | Some t \<Rightarrow> \<not> IsInflightToUlpTarget t"
      if "e \<in> set outs" for e
      using d that True t by (cases "fst e = rsn") (auto simp: delivers_def case_prod_unfold omap_simps)
    with d show ?thesis by (auto simp: delivers_def case_prod_unfold)
  qed
qed

lemma timeout_target_delivers:
  assumes "timeout_target (Finite now) rsn info = Inr (outs, info')"
    and "ri_ordering_mode info = kOrdered" and "omap_ok (target_rsn_buffer info)"
  shows "delivers info outs info'"
  using assms CheckTargetRsnBuffer_delivers [of now info outs info']
  by (auto simp: timeout_target_def delivers_nothing split: option.splits if_splits)

section \<open>Runs of insertions\<close>

fun insert_packets ::
  "u32 \<Rightarrow> (duration \<times> packet_type \<times> u32 \<times> u32) list \<Rightarrow> reorder_info \<Rightarrow>
   (reorder_out list \<times> reorder_info) res" where
  "insert_packets cid [] ri = Inr ([], ri)"
| "insert_packets cid ((now, type, rsn, ssn) # ps) ri =
     res_bind (InsertPacket now type cid rsn ssn ri) (\<lambda>(st, outs, ri1).
     res_bind (insert_packets cid ps ri1) (\<lambda>(outs', ri2). Inr (outs @ outs', ri2)))"

definition completion_types :: "packet_type set" where
  "completion_types = {kPullData, kAck, kNack}"

definition request_types :: "packet_type set" where
  "request_types = {kPullRequest, kPushSolicitedData, kPushUnsolicitedData}"

fun completion_rsns :: "reorder_out list \<Rightarrow> u32 list" where
  "completion_rsns [] = []"
| "completion_rsns (ReorderCallback cid rsn type # outs) =
     (if type \<in> completion_types then rsn # completion_rsns outs else completion_rsns outs)"
| "completion_rsns (ScheduleRnrTimeout cid rsn d # outs) = completion_rsns outs"

lemma completion_rsns_append [simp]:
  "completion_rsns (xs @ ys) = completion_rsns xs @ completion_rsns ys"
  by (induction xs rule: completion_rsns.induct) auto

lemma completion_rsns_callbacks:
  "snd ` set outs \<subseteq> completion_types \<Longrightarrow> completion_rsns (callbacks cid outs) = map fst outs"
  by (induction outs) (auto simp: callbacks_def)

lemma completion_rsns_other:
  "snd ` set outs \<subseteq> request_types \<Longrightarrow> completion_rsns (callbacks cid outs) = []"
  by (induction outs) (auto simp: callbacks_def request_types_def completion_types_def)

lemma completion_rsns_ssn:
  "type \<notin> completion_types \<Longrightarrow> completion_rsns (ssn_callbacks cid type outs) = []"
  by (induction outs) (auto simp: ssn_callbacks_def)

text \<open>Each buffer holds packets of its own kind only.\<close>

definition kinds_ok :: "connection_reorder_metadata \<Rightarrow> bool" where
  "kinds_ok info \<longleftrightarrow> snd ` set (initiator_rsn_buffer info) \<subseteq> completion_types \<and>
     (tt_packet_type \<circ> snd) ` set (target_rsn_buffer info) \<subseteq> request_types"

lemma set_omap_put_subset: "set (omap_put k v m) \<subseteq> insert (k, v) (set m)"
  by (induction k v m rule: omap_put.induct) auto

lemma drain_target_kinds:
  "drain_target now n m = (outs, n', m') \<Longrightarrow> (tt_packet_type \<circ> snd) ` set m \<subseteq> T \<Longrightarrow>
     snd ` set outs \<subseteq> T \<and> (tt_packet_type \<circ> snd) ` set m' \<subseteq> T"
proof (induction now n m arbitrary: outs n' m' rule: drain_target.induct)
  case (2 now n k t m)
  show ?case
  proof (cases "n = k \<and> tt_retry_time t \<le> now")
    case True
    obtain os n1 m1 where d: "drain_target now (n + 1) m = (os, n1, m1)" by (metis prod_cases3)
    have o: "outs = (k, tt_packet_type t) # os" "m' = (k, t\<lparr>tt_retry_time := Infinite\<rparr>) # m1"
      using "2.prems"(1) True d by auto
    from "2.prems"(2) have k: "tt_packet_type t \<in> T" "(tt_packet_type \<circ> snd) ` set m \<subseteq> T" by simp_all
    from "2.IH" [OF True d k(2)] k(1) o show ?thesis by simp
  next
    case False
    then have "outs = []" "m' = (k, t) # m" using "2.prems"(1) by (auto split: if_splits)
    then show ?thesis using "2.prems"(2) by simp
  qed
qed simp

lemma CheckTargetRsnBuffer_kinds:
  assumes "CheckTargetRsnBuffer now info = (outs, info')" and "kinds_ok info"
  shows "snd ` set outs \<subseteq> request_types \<and> kinds_ok info' \<and>
    next_initiator_rsn info' = next_initiator_rsn info \<and>
    initiator_rsn_buffer info' = initiator_rsn_buffer info \<and> ri_ordering_mode info' = ri_ordering_mode info"
proof -
  define b where "b = takeWhile (\<lambda>e. fst e \<noteq> next_target_rsn info) (target_rsn_buffer info)"
  define f where "f = dropWhile (\<lambda>e. fst e \<noteq> next_target_rsn info) (target_rsn_buffer info)"
  have split: "target_rsn_buffer info = b @ f" by (simp add: b_def f_def)
  obtain os n m where d: "drain_target now (next_target_rsn info) f = (os, n, m)" by (metis prod_cases3)
  have o: "outs = os" "info' = info\<lparr>next_target_rsn := n, target_rsn_buffer := b @ m\<rparr>"
    using assms(1) d by (auto simp: CheckTargetRsnBuffer_def Let_def b_def f_def)
  have k: "snd ` set (initiator_rsn_buffer info) \<subseteq> completion_types"
    "(tt_packet_type \<circ> snd) ` set b \<subseteq> request_types" "(tt_packet_type \<circ> snd) ` set f \<subseteq> request_types"
    using assms(2) split by (simp_all add: kinds_ok_def image_Un)
  from drain_target_kinds [OF d k(3)] k o show ?thesis by (simp add: kinds_ok_def image_Un)
qed

lemma insert_target_rsn_kinds:
  assumes "insert_target_rsn now rsn type info = Inr (st, outs, info')" and "kinds_ok info"
    and "type \<in> request_types"
  shows "snd ` set outs \<subseteq> request_types \<and> kinds_ok info' \<and>
    next_initiator_rsn info' = next_initiator_rsn info \<and> ri_ordering_mode info' = ri_ordering_mode info"
proof -
  let ?b = "omap_put rsn (target_transaction_new type) (target_rsn_buffer info)"
  let ?i1 = "info\<lparr>target_rsn_buffer := ?b\<rparr>"
  have k1: "kinds_ok ?i1"
    using assms(2,3) set_omap_put_subset [of rsn "target_transaction_new type" "target_rsn_buffer info"]
    by (force simp: kinds_ok_def target_transaction_new_def)
  show ?thesis
  proof (cases "rsn = next_target_rsn info")
    case False
    with assms(1) k1 show ?thesis by (auto simp: insert_target_rsn_def res_simps Let_def split: if_splits)
  next
    case True
    let ?sent = "\<lparr>tt_packet_type = type, tt_retry_time = Infinite\<rparr>"
    define i2 where "i2 = (if ri_ordering_mode info = kOrdered
        then info\<lparr>target_rsn_buffer := omap_put rsn ?sent ?b, next_target_rsn := next_target_rsn info + 1\<rparr>
        else info\<lparr>target_rsn_buffer := omap_put rsn ?sent ?b\<rparr>)"
    have send: "SendToUlpTarget rsn ?i1 = Inr ([(rsn, type)], i2)"
      by (simp add: SendToUlpTarget_def omap_simps target_transaction_new_def i2_def)
    have i2: "target_rsn_buffer i2 = omap_put rsn ?sent ?b" "next_initiator_rsn i2 = next_initiator_rsn info"
      "initiator_rsn_buffer i2 = initiator_rsn_buffer info" "ri_ordering_mode i2 = ri_ordering_mode info"
      by (simp_all add: i2_def)
    have "kinds_ok i2"
      using k1 i2 assms(3) set_omap_put_subset [of rsn ?sent ?b] by (force simp: kinds_ok_def)
    moreover obtain os i3 where c: "CheckTargetRsnBuffer now i2 = (os, i3)" by fastforce
    moreover have "outs = (rsn, type) # os" "info' = i3"
      using assms(1) True send c by (auto simp: insert_target_rsn_def Let_def res_simps)
    ultimately show ?thesis
      using CheckTargetRsnBuffer_kinds [OF c] i2 assms(3) by auto
  qed
qed

lemma insert_initiator_rsn_kinds:
  assumes "insert_initiator_rsn rsn type info = (outs, info')" and "kinds_ok info"
    and "type \<in> completion_types"
  shows "snd ` set outs \<subseteq> completion_types \<and> kinds_ok info' \<and> ri_ordering_mode info' = ri_ordering_mode info"
proof (cases "rsn = next_initiator_rsn info")
  case True
  obtain os n m where d: "drain (next_initiator_rsn info + 1) (initiator_rsn_buffer info) = (os, n, m)"
    by (metis prod_cases3)
  have "outs = (rsn, type) # os" "info' = info\<lparr>next_initiator_rsn := n, initiator_rsn_buffer := m\<rparr>"
    using assms(1) True d by (auto simp: insert_initiator_rsn_def CheckInitiatorRsnBuffer_def)
  moreover have "initiator_rsn_buffer info = os @ m" using drain_consecutive [OF d] by simp
  ultimately show ?thesis using assms(2,3) by (auto simp: kinds_ok_def)
next
  case False
  then have "outs = []" "info' = info\<lparr>initiator_rsn_buffer := omap_put rsn type (initiator_rsn_buffer info)\<rparr>"
    using assms(1) by (simp_all add: insert_initiator_rsn_def)
  moreover have "snd ` set (omap_put rsn type (initiator_rsn_buffer info)) \<subseteq>
      insert type (snd ` set (initiator_rsn_buffer info))"
    using set_omap_put_subset [of rsn type "initiator_rsn_buffer info"] by force
  ultimately show ?thesis using assms(2,3) by (auto simp: kinds_ok_def)
qed

lemma insert_ssn_frame:
  "insert_initiator_ssn ssn rsn info = (os, i) \<Longrightarrow> next_initiator_rsn i = next_initiator_rsn info \<and>
     ri_ordering_mode i = ri_ordering_mode info \<and> initiator_rsn_buffer i = initiator_rsn_buffer info \<and>
     target_rsn_buffer i = target_rsn_buffer info"
  "insert_target_ssn ssn rsn info = (os, i) \<Longrightarrow> next_initiator_rsn i = next_initiator_rsn info \<and>
     ri_ordering_mode i = ri_ordering_mode info \<and> initiator_rsn_buffer i = initiator_rsn_buffer info \<and>
     target_rsn_buffer i = target_rsn_buffer info"
  by (auto simp: insert_initiator_ssn_def insert_target_ssn_def CheckInitiatorSsnBuffer_def
      CheckTargetSsnBuffer_def split: if_splits prod.splits)

lemma InsertPacket_completions:
  assumes "InsertPacket now type cid rsn ssn ri = Inr (st, outs, ri')" and "ri cid = Some info"
    and "ri_ordering_mode info = kOrdered" and "kinds_ok info"
  shows "\<exists>info'. ri' = ri(cid \<mapsto> info') \<and> ri_ordering_mode info' = kOrdered \<and> kinds_ok info' \<and>
    completion_rsns outs = map (\<lambda>i. next_initiator_rsn info + of_nat i) [0..<length (completion_rsns outs)] \<and>
    next_initiator_rsn info' = next_initiator_rsn info + of_nat (length (completion_rsns outs))"
proof -
  consider (completion) "type \<in> completion_types" | (request) "type \<in> request_types"
    | (grant) "type = kPushGrant" | (push) "type = kPushRequest"
    using assms(1-3)
    by (cases type) (auto simp: InsertPacket_def completion_types_def request_types_def)
  then show ?thesis
  proof cases
    case completion
    obtain os i where i: "insert_initiator_rsn rsn type info = (os, i)" by fastforce
    have "outs = callbacks cid os" "ri' = ri(cid \<mapsto> i)"
      using assms(1-3) completion i by (auto simp: InsertPacket_def completion_types_def)
    with insert_initiator_rsn_kinds [OF i assms(4) completion] initiator_rsn.accept_consecutive [OF i]
      assms(3)
    show ?thesis by (auto simp: completion_rsns_callbacks)
  next
    case request
    obtain st' os i where i: "insert_target_rsn now rsn type info = Inr (st', os, i)"
      "outs = callbacks cid os" "ri' = ri(cid \<mapsto> i)"
      using assms(1-3) request
      by (auto simp: InsertPacket_def request_types_def res_simps)
    with insert_target_rsn_kinds [OF i(1) assms(4) request] assms(3)
    show ?thesis by (auto simp: completion_rsns_other)
  next
    case grant
    obtain os i where i: "insert_initiator_ssn ssn rsn info = (os, i)" by fastforce
    have "outs = ssn_callbacks cid type os" "ri' = ri(cid \<mapsto> i)"
      using assms(1-3) grant i by (auto simp: InsertPacket_def)
    moreover have "kinds_ok i" using insert_ssn_frame(1) [OF i] assms(4) by (simp add: kinds_ok_def)
    ultimately show ?thesis
      using insert_ssn_frame(1) [OF i] assms(3) grant
      by (intro exI [of _ i]) (simp add: completion_rsns_ssn completion_types_def)
  next
    case push
    obtain os i where i: "insert_target_ssn ssn rsn info = (os, i)" by fastforce
    have "outs = ssn_callbacks cid type os" "ri' = ri(cid \<mapsto> i)"
      using assms(1-3) push i by (auto simp: InsertPacket_def)
    moreover have "kinds_ok i" using insert_ssn_frame(2) [OF i] assms(4) by (simp add: kinds_ok_def)
    ultimately show ?thesis
      using insert_ssn_frame(2) [OF i] assms(3) push
      by (intro exI [of _ i]) (simp add: completion_rsns_ssn completion_types_def)
  qed
qed

lemma insert_packets_completions:
  assumes "insert_packets cid ps ri = Inr (outs, ri')" and "ri cid = Some info"
    and "ri_ordering_mode info = kOrdered" and "kinds_ok info"
  shows "completion_rsns outs =
    map (\<lambda>i. next_initiator_rsn info + of_nat i) [0..<length (completion_rsns outs)]"
  using assms
proof (induction ps arbitrary: ri info outs)
  case (Cons p ps)
  obtain now type rsn ssn where p: "p = (now, type, rsn, ssn)" by (metis prod_cases4)
  obtain st o1 ri1 o2 where r: "InsertPacket now type cid rsn ssn ri = Inr (st, o1, ri1)"
    "insert_packets cid ps ri1 = Inr (o2, ri')" "outs = o1 @ o2"
    using Cons.prems(1) p by (auto simp: res_simps)
  obtain info' where i: "ri1 = ri(cid \<mapsto> info')" "ri_ordering_mode info' = kOrdered" "kinds_ok info'"
    "completion_rsns o1 = map (\<lambda>i. next_initiator_rsn info + of_nat i) [0..<length (completion_rsns o1)]"
    "next_initiator_rsn info' = next_initiator_rsn info + of_nat (length (completion_rsns o1))"
    using InsertPacket_completions [OF r(1) Cons.prems(2-4)] by blast
  have "ri1 cid = Some info'" using i(1) by simp
  from Cons.IH [OF r(2) this i(2,3)] i(4,5) r(3) show ?case
    by (simp add: consecutive_plus)
qed simp

text \<open>A run of completions only, and of push requests only, is a run of one buffer.\<close>

lemma insert_packets_initiator:
  assumes "ri cid = Some info" and "ri_ordering_mode info = kOrdered"
    and "\<forall>p \<in> set ps. fst (snd p) \<in> completion_types"
    and "feed insert_initiator_rsn (map (\<lambda>(now, type, rsn, ssn). (rsn, type)) ps) info = (outs, info')"
  shows "insert_packets cid ps ri = Inr (callbacks cid outs, ri(cid \<mapsto> info'))"
  using assms
proof (induction ps arbitrary: ri info outs)
  case (Cons p ps)
  obtain now type rsn ssn where p: "p = (now, type, rsn, ssn)" by (metis prod_cases4)
  obtain o1 i1 where i: "insert_initiator_rsn rsn type info = (o1, i1)" by fastforce
  obtain o2 where f: "feed insert_initiator_rsn (map (\<lambda>(now, type, rsn, ssn). (rsn, type)) ps) i1 = (o2, info')"
    and o: "outs = o1 @ o2"
    using Cons.prems(4) p i by (auto split: prod.splits)
  have m: "ri_ordering_mode i1 = kOrdered"
    using i Cons.prems(2) by (auto simp: insert_initiator_rsn_def CheckInitiatorRsnBuffer_def split: if_splits prod.splits)
  have "InsertPacket now type cid rsn ssn ri = Inr (OkStatus, callbacks cid o1, ri(cid \<mapsto> i1))"
    using Cons.prems(1-3) p i by (auto simp: InsertPacket_def completion_types_def)
  moreover have "insert_packets cid ps (ri(cid \<mapsto> i1)) =
      Inr (callbacks cid o2, (ri(cid \<mapsto> i1))(cid \<mapsto> info'))"
    using Cons.prems(3) by (intro Cons.IH [OF _ m _ f]) auto
  ultimately show ?case using p o by (auto simp: callbacks_def fun_upd_def)
qed (simp add: callbacks_def fun_upd_idem)

lemma insert_packets_push_requests:
  assumes "ri cid = Some info" and "ri_ordering_mode info = kOrdered"
    and "\<forall>p \<in> set ps. fst (snd p) = kPushRequest"
    and "feed insert_target_ssn (map (\<lambda>(now, type, rsn, ssn). (ssn, rsn)) ps) info = (outs, info')"
  shows "insert_packets cid ps ri = Inr (ssn_callbacks cid kPushRequest outs, ri(cid \<mapsto> info'))"
  using assms
proof (induction ps arbitrary: ri info outs)
  case (Cons p ps)
  obtain now type rsn ssn where p: "p = (now, type, rsn, ssn)" by (metis prod_cases4)
  obtain o1 i1 where i: "insert_target_ssn ssn rsn info = (o1, i1)" by fastforce
  obtain o2 where f: "feed insert_target_ssn (map (\<lambda>(now, type, rsn, ssn). (ssn, rsn)) ps) i1 = (o2, info')"
    and o: "outs = o1 @ o2"
    using Cons.prems(4) p i by (auto split: prod.splits)
  have m: "ri_ordering_mode i1 = kOrdered" using insert_ssn_frame(2) [OF i] Cons.prems(2) by simp
  have "InsertPacket now type cid rsn ssn ri =
      Inr (OkStatus, ssn_callbacks cid kPushRequest o1, ri(cid \<mapsto> i1))"
    using Cons.prems(1-3) p i by (auto simp: InsertPacket_def)
  moreover have "insert_packets cid ps (ri(cid \<mapsto> i1)) =
      Inr (ssn_callbacks cid kPushRequest o2, (ri(cid \<mapsto> i1))(cid \<mapsto> info'))"
    using Cons.prems(3) by (intro Cons.IH [OF _ m _ f]) auto
  ultimately show ?case using p o by (auto simp: ssn_callbacks_def fun_upd_def)
qed (simp add: ssn_callbacks_def fun_upd_idem)

section \<open>Properties\<close>

text \<open>
  C23. On an ordered connection, completions reach the initiator's upper layer in request order:
  whatever packets are inserted, of all kinds and in any order, the request sequence numbers of
  the completions handed over are consecutive from the next expected one on, also across the
  32-bit wrap-around.
\<close>

theorem completions_in_order:
  assumes "insert_packets cid ps ri = Inr (outs, ri')" and "ri cid = Some info"
    and "ri_ordering_mode info = kOrdered" and "kinds_ok info"
  shows "completion_rsns outs =
    map (\<lambda>i. next_initiator_rsn info + of_nat i) [0..<length (completion_rsns outs)]"
  using assms by (rule insert_packets_completions)

theorem completions_in_order_witness:
  "\<exists>outs ri'. insert_packets 3 [(Finite 1, kAck, 1, 0), (Finite 2, kPushUnsolicitedData, 0, 0),
      (Finite 3, kPullData, 0, 0)]
     [3 \<mapsto> reorder_metadata_default] = Inr (outs, ri') \<and> completion_rsns outs = [0, 1] \<and>
     completion_rsns outs = map (\<lambda>i. 0 + of_nat i) [0..<length (completion_rsns outs)]"
proof -
  let ?ps = "[(Finite 1, kAck, 1, 0), (Finite 2, kPushUnsolicitedData, 0, 0), (Finite 3, kPullData, 0, 0)]
    :: (duration \<times> packet_type \<times> u32 \<times> u32) list"
  let ?ri = "[3 \<mapsto> reorder_metadata_default] :: reorder_info"
  obtain outs ri' where r: "insert_packets 3 ?ps ?ri = Inr (outs, ri')" "completion_rsns outs = [0, 1]"
    by (simp add: InsertPacket_def reorder_metadata_default_def insert_initiator_rsn_def
        CheckInitiatorRsnBuffer_def insert_target_rsn_def SendToUlpTarget_def CheckTargetRsnBuffer_def
        target_transaction_new_def callbacks_def completion_types_def)
  have "kinds_ok reorder_metadata_default" by (simp add: kinds_ok_def reorder_metadata_default_def)
  from completions_in_order [OF r(1) _ _ this] r show ?thesis
    by (simp add: reorder_metadata_default_def)
qed





text \<open>
  C27. On an ordered connection the target hands requests to the upper layer in order and never
  twice at a time: whatever insertion, retry or timer expiry happens, the requests handed over
  are consecutive from the next expected number on, each of them was not in flight to the
  upper layer before and is in flight afterwards.
\<close>

theorem target_requests_in_order:
  assumes "target_step (Finite now) op info = Inr (st, outs, info')"
    and "ri_ordering_mode info = kOrdered" and "omap_ok (target_rsn_buffer info)"
  shows "map fst outs = map (\<lambda>i. next_target_rsn info + of_nat i) [0..<length outs] \<and>
     next_target_rsn info' = next_target_rsn info + of_nat (length outs) \<and>
     (\<forall>(rsn, type) \<in> set outs.
        (case map_of (target_rsn_buffer info) rsn of None \<Rightarrow> True | Some t \<Rightarrow> \<not> IsInflightToUlpTarget t) \<and>
        map_of (target_rsn_buffer info') rsn = Some \<lparr>tt_packet_type = type, tt_retry_time = Infinite\<rparr>)"
proof -
  have "delivers info outs info'"
  proof (cases op)
    case (Insert type rsn)
    with assms show ?thesis by (auto intro: insert_target_rsn_delivers)
  next
    case (Retry rsn)
    with assms show ?thesis by (auto intro: retry_target_delivers)
  next
    case (Timeout rsn)
    with assms show ?thesis by (auto simp: res_simps intro: timeout_target_delivers)
  qed
  then show ?thesis by (simp add: delivers_def)
qed

theorem target_requests_in_order_witness:
  "\<exists>st outs info'. target_step (Finite 5) (Insert kPullRequest 0)
     (reorder_metadata_default\<lparr>target_rsn_buffer := [(1, target_transaction_new kPushUnsolicitedData)]\<rparr>) =
     Inr (st, outs, info') \<and> map fst outs = [0, 1] \<and> next_target_rsn info' = 0 + of_nat (length outs)"
proof -
  let ?i = "reorder_metadata_default\<lparr>target_rsn_buffer := [(1, target_transaction_new kPushUnsolicitedData)]\<rparr>"
  obtain st outs info' where r: "target_step (Finite 5) (Insert kPullRequest 0) ?i = Inr (st, outs, info')"
    "map fst outs = [0, 1]"
    by (simp add: insert_target_rsn_def SendToUlpTarget_def CheckTargetRsnBuffer_def
        reorder_metadata_default_def target_transaction_new_def)
  have "omap_ok (target_rsn_buffer ?i)" by (simp add: omap_ok_def)
  from target_requests_in_order [OF r(1) _ this] r show ?thesis
    by (auto simp: reorder_metadata_default_def)
qed



end
