(* ===== verification/Resource_Manager.thy ===== *)
theory Resource_Manager
  imports Resource_Credits Reorder_Engine
begin

text \<open>
  The resource manager of \<^verbatim>\<open>src/isekai/host/falcon/gen1/resource_manager.{h,cc}\<close>: reservation of
  credits for a transaction, their release packet by packet, the three-zone admission of network
  requests, flow control towards the upper layer (xoff), and the quantized occupancy of the
  network region that is reflected to the peer.

  \<^item> Calls into the RDMA model (\<^verbatim>\<open>SetXoff\<close>, \<^verbatim>\<open>ReturnFalconCredit\<close>) are outputs; statistics are
    left out.
  \<^item> The moving average is computed in double precision; \<open>ema_blend c o e\<close> stands for the
    double expression with coefficient \<open>c\<close>, occupancy \<open>o\<close> and fixed-point average \<open>e\<close>.
  \<^item> \<open>rm_config\<close> holds the fields of the configuration message the code reads.
\<close>

section \<open>State\<close>

datatype reservation_mode = FIRST_PHASE_RESERVATION | BYPASS_RESERVATION

record zone_thresholds =
  green_zone_end :: u32
  yellow_zone_end :: u32

record rm_config =
  resource_reservation_mode :: reservation_mode
  threshold_solicit :: u32
  tx_buffer_minimum_allocation_unit :: int
  rx_buffer_minimum_allocation_unit :: int
  config_credits :: resource_credits
  rx_buffer_pool_thresholds :: zone_thresholds
  rx_packet_pool_thresholds :: zone_thresholds
  tx_packet_pool_thresholds :: zone_thresholds
  enable_rx_buffer_occupancy_reflection :: bool
  ema_rx_buffer :: u32
  ema_rx_context :: u32
  ema_tx_context :: u32
  table_rx_buffer :: "u32 list"
  table_rx_context :: "u32 list"
  table_tx_context :: "u32 list"
  xoff_tx_packet_request :: int
  xoff_tx_buffer_request :: int
  xoff_rx_packet_request :: int
  xoff_rx_buffer_request :: int
  xoff_tx_packet_data :: int
  xoff_tx_buffer_data :: int

datatype rx_network_request_zone = kGreen | kYellow | kRed

record network_region_ema =
  rx_buffer_pool_occupancy_ema :: u32
  rx_packet_pool_occupancy_ema :: u32
  tx_packet_pool_occupancy_ema :: u32

record resource_manager =
  global_credits :: resource_credits
  request_xoff_limit :: resource_credits
  global_xoff_limit :: resource_credits
  request_xoff :: bool
  global_xoff :: bool
  rm_network_region_ema :: network_region_ema
  network_region_occupancy :: "5 word"

datatype rm_event = SetXoff bool bool | ReturnFalconCredit u32 falcon_credit

definition ResourceManager_new :: "rm_config \<Rightarrow> resource_manager" where
  "ResourceManager_new cfg =
     \<lparr>global_credits = config_credits cfg,
      request_xoff_limit = credits_zero
        \<lparr>tx_packet_ulp_requests := xoff_tx_packet_request cfg,
         tx_buffer_ulp_requests := xoff_tx_buffer_request cfg,
         rx_packet_ulp_requests := xoff_rx_packet_request cfg,
         rx_buffer_ulp_requests := xoff_rx_buffer_request cfg\<rparr>,
      global_xoff_limit = credits_zero
        \<lparr>tx_packet_ulp_data := xoff_tx_packet_data cfg, tx_buffer_ulp_data := xoff_tx_buffer_data cfg\<rparr>,
      request_xoff = False, global_xoff = False,
      rm_network_region_ema = \<lparr>rx_buffer_pool_occupancy_ema = 0, rx_packet_pool_occupancy_ema = 0,
        tx_packet_pool_occupancy_ema = 0\<rparr>,
      network_region_occupancy = 0\<rparr>"

section \<open>Credits of a packet\<close>

definition tx_credits :: "rm_config \<Rightarrow> u32 \<Rightarrow> u32 \<Rightarrow> int res" where
  "tx_credits cfg data_length sgl_length =
     res_bind (CalculateFalconTxBufferCredits data_length sgl_length
         (word_of_int (tx_buffer_minimum_allocation_unit cfg))) (\<lambda>c. Inr (sint c))"

definition rx_credits :: "rm_config \<Rightarrow> u32 \<Rightarrow> int res" where
  "rx_credits cfg len =
     res_bind (CalculateFalconRxBufferCredits len
         (word_of_int (rx_buffer_minimum_allocation_unit cfg))) (\<lambda>c. Inr (sint c))"

definition ComputeOutgoingPullRequestResources ::
  "rm_config \<Rightarrow> u32 \<Rightarrow> u32 \<Rightarrow> resource_credits res" where
  "ComputeOutgoingPullRequestResources cfg data_length sgl_length =
     res_bind (tx_credits cfg data_length sgl_length) (\<lambda>c.
       Inr (credits_zero\<lparr>tx_packet_ulp_requests := 1, tx_buffer_ulp_requests := c\<rparr>))"

definition ComputeIncomingPullRequestResources :: "rm_config \<Rightarrow> u32 \<Rightarrow> resource_credits res" where
  "ComputeIncomingPullRequestResources cfg payload_length =
     res_bind (rx_credits cfg payload_length) (\<lambda>c.
       Inr (credits_zero\<lparr>rx_packet_network_requests := 1, rx_buffer_network_requests := c\<rparr>))"

definition ComputeOutgoingPullDataResources ::
  "rm_config \<Rightarrow> u32 \<Rightarrow> u32 \<Rightarrow> resource_credits res" where
  "ComputeOutgoingPullDataResources cfg data_length sgl_length =
     res_bind (tx_credits cfg data_length sgl_length) (\<lambda>c.
       Inr (credits_zero\<lparr>tx_packet_ulp_data := 1, tx_buffer_ulp_data := c\<rparr>))"

definition ComputeIncomingPullDataResources :: "rm_config \<Rightarrow> u32 \<Rightarrow> resource_credits res" where
  "ComputeIncomingPullDataResources cfg request_length =
     res_bind (rx_credits cfg request_length) (\<lambda>c.
       Inr (credits_zero\<lparr>rx_packet_ulp_requests := 1, rx_buffer_ulp_requests := c\<rparr>))"

definition ComputeOutgoingPushRequestResources ::
  "rm_config \<Rightarrow> u32 \<Rightarrow> u32 \<Rightarrow> resource_credits res" where
  "ComputeOutgoingPushRequestResources cfg data_length sgl_length =
     res_bind (tx_credits cfg data_length sgl_length) (\<lambda>c.
       Inr (credits_zero\<lparr>tx_packet_ulp_requests := 1, tx_buffer_ulp_requests := c\<rparr>))"

definition ComputeIncomingPushRequestResources :: resource_credits where
  "ComputeIncomingPushRequestResources =
     credits_zero\<lparr>rx_packet_network_requests := 1, rx_buffer_network_requests := 0\<rparr>"

definition ComputeOutgoingPushGrantResources :: resource_credits where
  "ComputeOutgoingPushGrantResources =
     credits_zero\<lparr>tx_packet_network_requests := 1, tx_buffer_network_requests := 0\<rparr>"

definition ComputeIncomingPushGrantResources :: resource_credits where
  "ComputeIncomingPushGrantResources =
     credits_zero\<lparr>rx_packet_ulp_requests := 1, rx_buffer_ulp_requests := 0\<rparr>"

definition ComputeOutgoingPushSolicitedDataResources ::
  "rm_config \<Rightarrow> u32 \<Rightarrow> u32 \<Rightarrow> resource_credits res" where
  "ComputeOutgoingPushSolicitedDataResources cfg data_length sgl_length =
     res_bind (tx_credits cfg data_length sgl_length) (\<lambda>c.
       let credits = credits_zero\<lparr>tx_packet_ulp_requests := 1, tx_buffer_ulp_requests := c\<rparr>
       in if resource_reservation_mode cfg = FIRST_PHASE_RESERVATION
          then res_bind (ComputeOutgoingPushRequestResources cfg data_length sgl_length)
                 (credits_minus_assign credits)
          else Inr credits)"

definition ComputeIncomingPushUnsolicitedCompletionResources :: resource_credits where
  "ComputeIncomingPushUnsolicitedCompletionResources =
     credits_zero\<lparr>rx_packet_ulp_requests := 1, rx_buffer_ulp_requests := 0\<rparr>"

definition ComputeIncomingPushSolicitedDataResources :: "rm_config \<Rightarrow> u32 \<Rightarrow> resource_credits res" where
  "ComputeIncomingPushSolicitedDataResources cfg request_length =
     res_bind (rx_credits cfg request_length) (\<lambda>c.
       let credits = credits_zero\<lparr>rx_packet_network_requests := 1, rx_buffer_network_requests := c\<rparr>
       in if resource_reservation_mode cfg = FIRST_PHASE_RESERVATION
          then credits_minus_assign credits ComputeIncomingPushRequestResources
          else Inr credits)"

definition ComputeOutgoingPushUnsolicitedDataResources ::
  "rm_config \<Rightarrow> u32 \<Rightarrow> u32 \<Rightarrow> resource_credits res" where
  "ComputeOutgoingPushUnsolicitedDataResources cfg data_length sgl_length =
     res_bind (tx_credits cfg data_length sgl_length) (\<lambda>c.
       Inr (credits_zero\<lparr>tx_packet_ulp_requests := 1, tx_buffer_ulp_requests := c\<rparr>))"

definition ComputeIncomingPushUnsolicitedDataResources :: "rm_config \<Rightarrow> u32 \<Rightarrow> resource_credits res" where
  "ComputeIncomingPushUnsolicitedDataResources cfg request_length =
     res_bind (rx_credits cfg request_length) (\<lambda>c.
       Inr (credits_zero\<lparr>rx_packet_network_requests := 1, rx_buffer_network_requests := c\<rparr>))"

section \<open>Flow control towards the upper layer\<close>

definition CheckUlpRequestXoff :: "resource_manager \<Rightarrow> rm_event list \<times> resource_manager" where
  "CheckUlpRequestXoff rm =
     (let req = \<not> credits_le (request_xoff_limit rm) (global_credits rm);
          glob = \<not> credits_le (global_xoff_limit rm) (global_credits rm)
      in if req \<noteq> request_xoff rm \<or> glob \<noteq> global_xoff rm
         then ([SetXoff req glob], rm\<lparr>request_xoff := req, global_xoff := glob\<rparr>)
         else ([], rm))"

section \<open>Admission of network requests\<close>

text \<open>
  Occupancies are differences of signed counters, compared with unsigned thresholds: a
  negative occupancy is reinterpreted as a large one.
\<close>

definition occupancy_zone :: "int \<Rightarrow> int \<Rightarrow> zone_thresholds \<Rightarrow> rx_network_request_zone res" where
  "occupancy_zone capacity available thresholds =
     (let occupancy = word_of_int (capacity - available) :: u32
      in if \<not> in_int32 (capacity - available) then Inl UndefinedBehaviour
         else if occupancy < green_zone_end thresholds then Inr kGreen
         else if occupancy < yellow_zone_end thresholds then Inr kYellow
         else Inr kRed)"

definition GetNetworkRequestRxBufferPoolOccupancyZone ::
  "rm_config \<Rightarrow> resource_manager \<Rightarrow> rx_network_request_zone res" where
  "GetNetworkRequestRxBufferPoolOccupancyZone cfg rm =
     occupancy_zone (rx_buffer_network_requests (config_credits cfg))
       (rx_buffer_network_requests (global_credits rm)) (rx_buffer_pool_thresholds cfg)"

definition GetNetworkRequestRxPacketPoolOccupancyZone ::
  "rm_config \<Rightarrow> resource_manager \<Rightarrow> rx_network_request_zone res" where
  "GetNetworkRequestRxPacketPoolOccupancyZone cfg rm =
     occupancy_zone (rx_packet_network_requests (config_credits cfg))
       (rx_packet_network_requests (global_credits rm)) (rx_packet_pool_thresholds cfg)"

definition GetNetworkRequestTxPacketPoolOccupancyZone ::
  "rm_config \<Rightarrow> resource_manager \<Rightarrow> rx_network_request_zone res" where
  "GetNetworkRequestTxPacketPoolOccupancyZone cfg rm =
     occupancy_zone (tx_packet_network_requests (config_credits cfg))
       (tx_packet_network_requests (global_credits rm)) (tx_packet_pool_thresholds cfg)"

definition zone_max :: "rx_network_request_zone \<Rightarrow> rx_network_request_zone \<Rightarrow> rx_network_request_zone" where
  "zone_max a b = (if a = kRed \<or> b = kRed then kRed else if a = kYellow \<or> b = kYellow then kYellow else kGreen)"

definition network_zone :: "rm_config \<Rightarrow> resource_manager \<Rightarrow> rx_network_request_zone res" where
  "network_zone cfg rm =
     res_bind (GetNetworkRequestRxBufferPoolOccupancyZone cfg rm) (\<lambda>a.
     res_bind (GetNetworkRequestRxPacketPoolOccupancyZone cfg rm) (\<lambda>b.
     res_bind (GetNetworkRequestTxPacketPoolOccupancyZone cfg rm) (\<lambda>c.
       Inr (zone_max a (zone_max b c)))))"

definition MeetsNetworkRequestAdmissionCriteria ::
  "rm_config \<Rightarrow> (u32 \<rightharpoonup> connection_state) \<Rightarrow> reorder_info \<Rightarrow> u32 \<Rightarrow> u32 \<Rightarrow> packet_type \<Rightarrow>
   resource_manager \<Rightarrow> bool res" where
  "MeetsNetworkRequestAdmissionCriteria cfg conns ri cid rsn type rm =
     res_bind (network_zone cfg rm) (\<lambda>zone.
       case zone of
         kGreen \<Rightarrow> Inr True
       | kYellow \<Rightarrow> IsHeadOfLineNetworkRequest conns ri cid rsn
       | kRed \<Rightarrow> if type = kPullRequest \<or> type = kPushUnsolicitedData
                 then IsHeadOfLineNetworkRequest conns ri cid rsn else Inr False)"

section \<open>Occupancy reflection\<close>

definition UintToFixed :: "u32 \<Rightarrow> nat \<Rightarrow> u32" where
  "UintToFixed num frac = push_bit frac num"

definition FixedToUint :: "u32 \<Rightarrow> nat \<Rightarrow> u16" where
  "FixedToUint num frac = ucast (drop_bit frac num)"

definition kEmaOccupancyFractionalBits :: nat where
  "kEmaOccupancyFractionalBits = 15"

fun quantized_level :: "nat \<Rightarrow> u32 list \<Rightarrow> u16 \<Rightarrow> nat" where
  "quantized_level n [] occupancy = n"
| "quantized_level n (t # ts) occupancy =
     (if ucast occupancy < t then n else quantized_level (Suc n) ts occupancy)"

definition UpdateQuantizedNetworkRegionOccupancy :: "rm_config \<Rightarrow> resource_manager \<Rightarrow> resource_manager" where
  "UpdateQuantizedNetworkRegionOccupancy cfg rm =
     (let ema = rm_network_region_ema rm;
          q = (\<lambda>table e. quantized_level 0 table (FixedToUint e kEmaOccupancyFractionalBits))
      in rm\<lparr>network_region_occupancy := of_nat (max (max
           (q (table_rx_buffer cfg) (rx_buffer_pool_occupancy_ema ema))
           (q (table_rx_context cfg) (rx_packet_pool_occupancy_ema ema)))
           (q (table_tx_context cfg) (tx_packet_pool_occupancy_ema ema)))\<rparr>)"

definition ema_step :: "(u32 \<Rightarrow> int \<Rightarrow> u32 \<Rightarrow> u32) \<Rightarrow> u32 \<Rightarrow> int \<Rightarrow> u32 \<Rightarrow> u32" where
  "ema_step ema_blend coefficient occupancy ema =
     (if ema = 0 then UintToFixed (word_of_int occupancy) kEmaOccupancyFractionalBits
      else ema_blend coefficient occupancy ema)"

definition UpdateNetworkRegionEmaOccupancy ::
  "(u32 \<Rightarrow> int \<Rightarrow> u32 \<Rightarrow> u32) \<Rightarrow> rm_config \<Rightarrow> resource_manager \<Rightarrow> resource_manager res" where
  "UpdateNetworkRegionEmaOccupancy ema_blend cfg rm =
     (let cap = config_credits cfg; cur = global_credits rm; ema = rm_network_region_ema rm;
          rx_buffer = rx_buffer_network_requests cap - rx_buffer_network_requests cur;
          rx_packet = rx_packet_network_requests cap - rx_packet_network_requests cur;
          tx_packet = tx_packet_network_requests cap - tx_packet_network_requests cur
      in if \<not> (in_int32 rx_buffer \<and> in_int32 rx_packet \<and> in_int32 tx_packet) then Inl UndefinedBehaviour
         else Inr (UpdateQuantizedNetworkRegionOccupancy cfg (rm\<lparr>rm_network_region_ema :=
           \<lparr>rx_buffer_pool_occupancy_ema =
              ema_step ema_blend (ema_rx_buffer cfg) rx_buffer (rx_buffer_pool_occupancy_ema ema),
            rx_packet_pool_occupancy_ema =
              ema_step ema_blend (ema_rx_context cfg) rx_packet (rx_packet_pool_occupancy_ema ema),
            tx_packet_pool_occupancy_ema =
              ema_step ema_blend (ema_tx_context cfg) tx_packet (tx_packet_pool_occupancy_ema ema)\<rparr>\<rparr>)))"

definition reflect_occupancy ::
  "(u32 \<Rightarrow> int \<Rightarrow> u32 \<Rightarrow> u32) \<Rightarrow> rm_config \<Rightarrow> resource_credits \<Rightarrow> resource_manager \<Rightarrow> resource_manager res" where
  "reflect_occupancy ema_blend cfg credits rm =
     (if credits_IsInitialized credits \<and> enable_rx_buffer_occupancy_reflection cfg
      then UpdateNetworkRegionEmaOccupancy ema_blend cfg rm else Inr rm)"

section \<open>Reservation\<close>

definition reservation_type :: "rm_config \<Rightarrow> packet \<Rightarrow> packet_direction \<Rightarrow> packet_type res" where
  "reservation_type cfg pkt direction =
     (case direction of
        kOutgoing \<Rightarrow>
          if pkt_type pkt = kInvalid then RdmaOpcodeToPacketType pkt (sint (threshold_solicit cfg))
          else check (pkt_type pkt = kPushGrant \<or> pkt_type pkt = kPushSolicitedData) (Inr (pkt_type pkt))
      | kIncoming \<Rightarrow> Inr (pkt_type pkt))"

text \<open>
  The \<^verbatim>\<open>switch\<close> over packet type and direction. \<open>Inr\<close> carries the credits to ask for,
  \<open>Inl\<close> a status the function returns at once: the request is not admitted, or the credits
  were reserved along with the first packet of the transaction.
\<close>

definition reserved_before ::
  "connection_state \<Rightarrow> transaction_key \<Rightarrow> (status + resource_credits) res" where
  "reserved_before cs key =
     (case GetTransaction cs key of Inl e \<Rightarrow> Inr (Inl e) | Inr t \<Rightarrow> Inr (Inl (tm_resources_reserved t)))"

definition admitted_credits ::
  "bool res \<Rightarrow> resource_credits res \<Rightarrow> (status + resource_credits) res" where
  "admitted_credits admitted credits =
     res_bind admitted (\<lambda>ok. if \<not> ok then Inr (Inl ResourceExhaustedError)
       else res_bind credits (\<lambda>c. Inr (Inr c)))"

definition outgoing_credits ::
  "rm_config \<Rightarrow> connection_state \<Rightarrow> packet \<Rightarrow> packet_type \<Rightarrow> (status + resource_credits) res" where
  "outgoing_credits cfg cs pkt type =
     (let first_phase = (resource_reservation_mode cfg = FIRST_PHASE_RESERVATION);
          dl = rdma_data_length pkt; sgl = pkt_sgl_length pkt;
          ask = (\<lambda>m. res_bind m (\<lambda>c. Inr (Inr c)));
          nothing = Inr (Inr credits_zero)
      in case type of
           kPullRequest \<Rightarrow>
             if first_phase then ask (res_bind (ComputeOutgoingPullRequestResources cfg dl sgl) (\<lambda>c.
               res_bind (ComputeIncomingPullDataResources cfg (rdma_request_length pkt)) (credits_plus_assign c)))
             else nothing
         | kPullData \<Rightarrow> ask (ComputeOutgoingPullDataResources cfg dl sgl)
         | kPushRequest \<Rightarrow>
             if first_phase then ask (res_bind (ComputeOutgoingPushRequestResources cfg dl sgl) (\<lambda>c.
               res_bind (credits_plus_assign c ComputeIncomingPushGrantResources) (\<lambda>c.
               res_bind (ComputeOutgoingPushSolicitedDataResources cfg dl sgl) (credits_plus_assign c))))
             else nothing
         | kPushGrant \<Rightarrow>
             if first_phase then reserved_before cs (falcon_rsn pkt, kTarget) else nothing
         | kPushSolicitedData \<Rightarrow>
             if first_phase then reserved_before cs (falcon_rsn pkt, kInitiator) else nothing
         | kPushUnsolicitedData \<Rightarrow>
             ask (res_bind (ComputeOutgoingPushUnsolicitedDataResources cfg dl sgl) (\<lambda>c.
               credits_plus_assign c ComputeIncomingPushUnsolicitedCompletionResources))
         | _ \<Rightarrow> Inl LogFatal)"

definition incoming_credits ::
  "rm_config \<Rightarrow> (u32 \<rightharpoonup> connection_state) \<Rightarrow> reorder_info \<Rightarrow> connection_state \<Rightarrow> packet \<Rightarrow> packet_type \<Rightarrow>
   resource_manager \<Rightarrow> (status + resource_credits) res" where
  "incoming_credits cfg conns ri cs pkt type rm =
     (let first_phase = (resource_reservation_mode cfg = FIRST_PHASE_RESERVATION);
          payload = ucast (falcon_payload_length pkt);
          admitted = MeetsNetworkRequestAdmissionCriteria cfg conns ri (falcon_dest_cid pkt) (falcon_rsn pkt) type rm;
          nothing = Inr (Inr credits_zero)
      in case type of
           kPullRequest \<Rightarrow> admitted_credits admitted (ComputeIncomingPullRequestResources cfg payload)
         | kPullData \<Rightarrow>
             if first_phase then reserved_before cs (rdma_rsn pkt, kInitiator) else nothing
         | kPushRequest \<Rightarrow> admitted_credits admitted
             (if first_phase
              then res_bind (credits_plus_assign ComputeIncomingPushRequestResources
                     ComputeOutgoingPushGrantResources) (\<lambda>c.
                   res_bind (ComputeIncomingPushSolicitedDataResources cfg (ucast (falcon_request_length pkt)))
                     (credits_plus_assign c))
              else Inr credits_zero)
         | kPushGrant \<Rightarrow>
             if first_phase then reserved_before cs (falcon_rsn pkt, kInitiator) else nothing
         | kPushSolicitedData \<Rightarrow>
             (case GetTransaction cs (falcon_rsn pkt, kTarget) of
                Inl e \<Rightarrow> Inr (Inl e)
              | Inr t \<Rightarrow> if first_phase then Inr (Inl (tm_resources_reserved t)) else nothing)
         | kPushUnsolicitedData \<Rightarrow>
             admitted_credits admitted (ComputeIncomingPushUnsolicitedDataResources cfg payload)
         | _ \<Rightarrow> Inl LogFatal)"

definition VerifyResourceAvailabilityOrReserveResources ::
  "(u32 \<Rightarrow> int \<Rightarrow> u32 \<Rightarrow> u32) \<Rightarrow> rm_config \<Rightarrow> (u32 \<rightharpoonup> connection_state) \<Rightarrow> reorder_info \<Rightarrow>
   u32 \<Rightarrow> packet \<Rightarrow> packet_direction \<Rightarrow> bool \<Rightarrow> resource_manager \<Rightarrow>
   (status \<times> rm_event list \<times> resource_manager) res" where
  "VerifyResourceAvailabilityOrReserveResources ema_blend cfg conns ri scid pkt direction reserve rm =
     (if resource_reservation_mode cfg = BYPASS_RESERVATION then Inr (OkStatus, [], rm)
      else case PerformDirectLookup conns scid of
        Inl e \<Rightarrow> Inr (e, [], rm)
      | Inr cs \<Rightarrow>
          res_bind (reservation_type cfg pkt direction) (\<lambda>type.
          res_bind (case direction of
              kOutgoing \<Rightarrow> outgoing_credits cfg cs pkt type
            | kIncoming \<Rightarrow> incoming_credits cfg conns ri cs pkt type rm) (\<lambda>r.
          case r of
            Inl st \<Rightarrow> Inr (st, [], rm)
          | Inr request_credits \<Rightarrow>
              if credits_le request_credits (global_credits rm)
              then if reserve
                then res_bind (credits_minus_assign (global_credits rm) request_credits) (\<lambda>g.
                     res_bind (reflect_occupancy ema_blend cfg request_credits (rm\<lparr>global_credits := g\<rparr>)) (\<lambda>rm1.
                     let (evs, rm2) = CheckUlpRequestXoff rm1 in Inr (OkStatus, evs, rm2)))
                else Inr (OkStatus, [], rm)
              else Inr (ResourceExhaustedError, [], rm))))"

section \<open>Release\<close>

text \<open>The \<^verbatim>\<open>switch\<close> of \<^verbatim>\<open>ReleaseResources\<close>: credits released and credits returned to RDMA.\<close>

definition release_outgoing ::
  "rm_config \<Rightarrow> packet_metadata \<Rightarrow> packet_type \<Rightarrow> (resource_credits \<times> falcon_credit) res" where
  "release_outgoing cfg pm type =
     (let dl = pm_data_length pm; sgl = pm_sgl_length pm;
          internal = (\<lambda>m. res_bind m (\<lambda>c. Inr (c, fcredit_zero)));
          rdma_managed = (\<lambda>m. res_bind m (\<lambda>c. Inr (c, fcredit_of c)))
      in case type of
           kPullRequest \<Rightarrow> internal (ComputeOutgoingPullRequestResources cfg dl sgl)
         | kPullData \<Rightarrow> rdma_managed (ComputeOutgoingPullDataResources cfg dl sgl)
         | kPushRequest \<Rightarrow> Inr (credits_zero, fcredit_zero)
         | kPushGrant \<Rightarrow> Inr (ComputeOutgoingPushGrantResources, fcredit_zero)
         | kPushSolicitedData \<Rightarrow> rdma_managed
             (res_bind (ComputeOutgoingPushSolicitedDataResources cfg dl sgl) (\<lambda>c.
              res_bind (credits_plus_assign c ComputeIncomingPushGrantResources) (\<lambda>c.
              if resource_reservation_mode cfg = FIRST_PHASE_RESERVATION
              then res_bind (ComputeOutgoingPushRequestResources cfg dl sgl) (credits_plus_assign c)
              else Inr c)))
         | kPushUnsolicitedData \<Rightarrow> rdma_managed
             (res_bind (ComputeOutgoingPushUnsolicitedDataResources cfg dl sgl) (\<lambda>c.
              credits_plus_assign c ComputeIncomingPushUnsolicitedCompletionResources))
         | _ \<Rightarrow> Inl LogFatal)"

definition release_incoming ::
  "rm_config \<Rightarrow> transaction_metadata \<Rightarrow> packet_metadata \<Rightarrow> packet_type \<Rightarrow>
   (status + resource_credits \<times> falcon_credit) res" where
  "release_incoming cfg t pm type =
     (let payload = pm_payload_length pm;
          internal = (\<lambda>m. res_bind m (\<lambda>c. Inr (Inr (c, fcredit_zero))))
      in case type of
           kPullRequest \<Rightarrow> internal (ComputeIncomingPullRequestResources cfg payload)
         | kPullData \<Rightarrow>
             res_bind (ComputeIncomingPullDataResources cfg payload) (\<lambda>c.
             case GetPacketMetadata t kPullRequest of
               Inl e \<Rightarrow> Inr (Inl e)
             | Inr req \<Rightarrow>
                 res_bind (ComputeOutgoingPullRequestResources cfg (pm_data_length req) (pm_sgl_length req)) (\<lambda>tc.
                 res_bind (credits_plus_assign tc c) (\<lambda>tc. Inr (Inr (c, fcredit_of tc)))))
         | kPushRequest \<Rightarrow> Inr (Inr (credits_zero, fcredit_zero))
         | kPushGrant \<Rightarrow> Inr (Inr (credits_zero, fcredit_zero))
         | kPushSolicitedData \<Rightarrow> internal
             (res_bind (ComputeIncomingPushSolicitedDataResources cfg payload) (\<lambda>c.
              if resource_reservation_mode cfg = FIRST_PHASE_RESERVATION
              then credits_plus_assign c ComputeIncomingPushRequestResources else Inr c))
         | kPushUnsolicitedData \<Rightarrow> internal (ComputeIncomingPushUnsolicitedDataResources cfg payload)
         | _ \<Rightarrow> Inl LogFatal)"

definition ReturnRdmaManagedFalconResourceCredits ::
  "connection_state \<Rightarrow> transaction_key \<Rightarrow> falcon_credit \<Rightarrow> rm_event list res" where
  "ReturnRdmaManagedFalconResourceCredits cs key credits =
     (if fcredit_IsInitialized credits
      then case cs_received_packet_contexts cs key of
             None \<Rightarrow> Inl CheckFailed
           | Some ctx \<Rightarrow> Inr [ReturnFalconCredit (rpc_qp_id ctx) credits]
      else Inr [])"

definition ReleaseResources ::
  "(u32 \<Rightarrow> int \<Rightarrow> u32 \<Rightarrow> u32) \<Rightarrow> rm_config \<Rightarrow> u32 \<Rightarrow> transaction_key \<Rightarrow> packet_type \<Rightarrow>
   (u32 \<rightharpoonup> connection_state) \<Rightarrow> resource_manager \<Rightarrow>
   (status \<times> rm_event list \<times> (u32 \<rightharpoonup> connection_state) \<times> resource_manager) res" where
  "ReleaseResources ema_blend cfg scid key type conns rm =
     (if resource_reservation_mode cfg = BYPASS_RESERVATION then Inr (OkStatus, [], conns, rm)
      else case PerformDirectLookup conns scid of
        Inl e \<Rightarrow> Inr (e, [], conns, rm)
      | Inr cs \<Rightarrow> (case GetTransaction cs key of
        Inl e \<Rightarrow> Inr (e, [], conns, rm)
      | Inr t \<Rightarrow> (case GetPacketMetadata t type of
        Inl e \<Rightarrow> Inr (e, [], conns, rm)
      | Inr pm \<Rightarrow>
          if pm_resources_reserved pm \<noteq> OkStatus then Inr (pm_resources_reserved pm, [], conns, rm)
          else
          res_bind (case pm_direction pm of
              kOutgoing \<Rightarrow> res_bind (release_outgoing cfg pm type) (\<lambda>r. Inr (Inr r))
            | kIncoming \<Rightarrow> release_incoming cfg t pm type) (\<lambda>r.
          case r of
            Inl e \<Rightarrow> Inr (e, [], conns, rm)
          | Inr (release_credits, rdma_credits) \<Rightarrow>
              res_bind (credits_plus_assign (global_credits rm) release_credits) (\<lambda>g.
              res_bind (reflect_occupancy ema_blend cfg release_credits (rm\<lparr>global_credits := g\<rparr>)) (\<lambda>rm1.
              res_bind (ReturnRdmaManagedFalconResourceCredits cs key rdma_credits) (\<lambda>evs.
              let (xevs, rm2) = CheckUlpRequestXoff rm1;
                  pm' = pm\<lparr>pm_resources_reserved := ResourceExhaustedError\<rparr>;
                  t' = t\<lparr>tm_packets := (tm_packets t)(type \<mapsto> pm')\<rparr>
              in Inr (OkStatus, evs @ xevs, conns(scid \<mapsto> put_transaction key t' cs), rm2))))))))"

section \<open>Lemmas\<close>

definition xoff_ok :: "resource_manager \<Rightarrow> bool" where
  "xoff_ok rm \<longleftrightarrow>
     request_xoff rm = (\<not> credits_le (request_xoff_limit rm) (global_credits rm)) \<and>
     global_xoff rm = (\<not> credits_le (global_xoff_limit rm) (global_credits rm))"

text \<open>What the upper layer was last told, given what it believed before.\<close>

fun told :: "bool \<times> bool \<Rightarrow> rm_event list \<Rightarrow> bool \<times> bool" where
  "told b [] = b"
| "told b (SetXoff r g # evs) = told (r, g) evs"
| "told b (ReturnFalconCredit q c # evs) = told b evs"

lemma told_append [simp]: "told b (xs @ ys) = told (told b xs) ys"
  by (induction b xs rule: told.induct) simp_all

lemma CheckUlpRequestXoff_spec:
  assumes "CheckUlpRequestXoff rm = (evs, rm')"
  shows "global_credits rm' = global_credits rm" and "xoff_ok rm'"
    and "told (request_xoff rm, global_xoff rm) evs = (request_xoff rm', global_xoff rm')"
    and "evs = [] \<longleftrightarrow> xoff_ok rm"
  using assms by (auto simp: CheckUlpRequestXoff_def xoff_ok_def Let_def split: if_splits)

lemma reflect_occupancy_frame:
  assumes "reflect_occupancy ema_blend cfg c rm = Inr rm'"
  shows "global_credits rm' = global_credits rm" and "request_xoff rm' = request_xoff rm"
    and "global_xoff rm' = global_xoff rm"
  using assms
  by (auto simp: reflect_occupancy_def UpdateNetworkRegionEmaOccupancy_def
      UpdateQuantizedNetworkRegionOccupancy_def Let_def split: if_splits)

lemma ReturnRdma_told: "ReturnRdmaManagedFalconResourceCredits cs key c = Inr evs \<Longrightarrow> told b evs = b"
  by (auto simp: ReturnRdmaManagedFalconResourceCredits_def split: if_splits option.splits)

text \<open>The outcome of a reservation: either nothing happens, or the request is taken.\<close>

lemma reserve_cases:
  assumes "VerifyResourceAvailabilityOrReserveResources eb cfg conns ri scid pkt dir reserve rm =
    Inr (st, evs, rm')"
  obtains (nothing) "evs = []" "rm' = rm" "st = OkStatus \<longrightarrow> \<not> reserve \<or>
      resource_reservation_mode cfg = BYPASS_RESERVATION \<or>
      (\<exists>cs type. conns scid = Some cs \<and> reservation_type cfg pkt dir = Inr type \<and>
         (case dir of kOutgoing \<Rightarrow> outgoing_credits cfg cs pkt type
          | kIncoming \<Rightarrow> incoming_credits cfg conns ri cs pkt type rm) = Inr (Inl OkStatus))"
  | (taken) cs type c rm1 where "st = OkStatus" "reserve" "conns scid = Some cs"
      "reservation_type cfg pkt dir = Inr type"
      "(case dir of kOutgoing \<Rightarrow> outgoing_credits cfg cs pkt type
        | kIncoming \<Rightarrow> incoming_credits cfg conns ri cs pkt type rm) = Inr (Inr c)"
      "credits_le c (global_credits rm)"
      "credits_minus_assign (global_credits rm) c = Inr (credits_minus (global_credits rm) c)"
      "reflect_occupancy eb cfg c (rm\<lparr>global_credits := credits_minus (global_credits rm) c\<rparr>) = Inr rm1"
      "CheckUlpRequestXoff rm1 = (evs, rm')"
proof (cases "resource_reservation_mode cfg = BYPASS_RESERVATION")
  case True
  then show ?thesis
    using assms that(1) by (simp add: VerifyResourceAvailabilityOrReserveResources_def)
next
  case False
  note v = assms [unfolded VerifyResourceAvailabilityOrReserveResources_def]
  show ?thesis
  proof (cases "conns scid")
    case None
    then show ?thesis using v False that(1) by (auto simp: PerformDirectLookup_def)
  next
    case (Some cs)
    then obtain type r where t: "reservation_type cfg pkt dir = Inr type"
      "(case dir of kOutgoing \<Rightarrow> outgoing_credits cfg cs pkt type
        | kIncoming \<Rightarrow> incoming_credits cfg conns ri cs pkt type rm) = Inr r"
      using v False by (auto simp: PerformDirectLookup_def res_simps)
    show ?thesis
    proof (cases r)
      case (Inl st')
      then show ?thesis using v False Some t that(1) by (auto simp: PerformDirectLookup_def)
    next
      case (Inr c)
      show ?thesis
      proof (cases "credits_le c (global_credits rm) \<and> reserve")
        case True
        then obtain g rm1 where g: "credits_minus_assign (global_credits rm) c = Inr g"
          "reflect_occupancy eb cfg c (rm\<lparr>global_credits := g\<rparr>) = Inr rm1"
          "CheckUlpRequestXoff rm1 = (evs, rm')" "st = OkStatus"
          using v False Some t Inr by (auto simp: PerformDirectLookup_def res_simps split: prod.splits)
        moreover have "g = credits_minus (global_credits rm) c"
          using g(1) by (simp add: credits_minus_assign_def split: if_splits)
        ultimately show ?thesis using that(2) Some t Inr True by blast
      next
        case no: False
        then show ?thesis
          using v False Some t Inr that(1) by (auto simp: PerformDirectLookup_def split: if_splits)
      qed
    qed
  qed
qed

text \<open>The outcome of a release.\<close>

lemma release_cases:
  assumes "ReleaseResources eb cfg scid key type conns rm = Inr (st, evs, conns', rm')"
  obtains (nothing) "evs = []" "rm' = rm" "conns' = conns"
      "st = OkStatus \<longrightarrow> resource_reservation_mode cfg = BYPASS_RESERVATION \<or>
        (\<exists>cs t pm. conns scid = Some cs \<and> cs_transactions cs key = Some t \<and>
           tm_packets t type = Some pm \<and> pm_resources_reserved pm = OkStatus \<and>
           release_incoming cfg t pm type = Inr (Inl OkStatus))"
  | (released) cs t pm c fc evs1 evs2 rm1 where "st = OkStatus" "conns scid = Some cs"
      "cs_transactions cs key = Some t" "tm_packets t type = Some pm"
      "pm_resources_reserved pm = OkStatus"
      "(case pm_direction pm of kOutgoing \<Rightarrow> res_bind (release_outgoing cfg pm type) (\<lambda>r. Inr (Inr r))
        | kIncoming \<Rightarrow> release_incoming cfg t pm type) = Inr (Inr (c, fc))"
      "reflect_occupancy eb cfg c (rm\<lparr>global_credits := credits_plus (global_credits rm) c\<rparr>) = Inr rm1"
      "ReturnRdmaManagedFalconResourceCredits cs key fc = Inr evs1" "CheckUlpRequestXoff rm1 = (evs2, rm')"
      "evs = evs1 @ evs2"
      "conns' = conns(scid \<mapsto> put_transaction key (t\<lparr>tm_packets :=
         (tm_packets t)(type \<mapsto> pm\<lparr>pm_resources_reserved := ResourceExhaustedError\<rparr>)\<rparr>) cs)"
proof -
  note v = assms [unfolded ReleaseResources_def PerformDirectLookup_def GetTransaction_def
      GetPacketMetadata_def]
  show ?thesis
  proof (cases "resource_reservation_mode cfg \<noteq> BYPASS_RESERVATION \<and>
      (\<exists>cs t pm. conns scid = Some cs \<and> cs_transactions cs key = Some t \<and>
         tm_packets t type = Some pm \<and> pm_resources_reserved pm = OkStatus)")
    case False
    then show ?thesis using v that(1) by (auto split: option.splits if_splits)
  next
    case True
    then obtain cs t pm where h: "resource_reservation_mode cfg \<noteq> BYPASS_RESERVATION"
      "conns scid = Some cs" "cs_transactions cs key = Some t"
      "tm_packets t type = Some pm" "pm_resources_reserved pm = OkStatus" by blast
    obtain r where r: "(case pm_direction pm of
        kOutgoing \<Rightarrow> res_bind (release_outgoing cfg pm type) (\<lambda>r. Inr (Inr r))
      | kIncoming \<Rightarrow> release_incoming cfg t pm type) = Inr r"
      using v h by (auto simp: res_simps)
    show ?thesis
    proof (cases r)
      case (Inl e)
      then have "pm_direction pm = kIncoming" "release_incoming cfg t pm type = Inr (Inl e)"
        using r by (auto simp: res_simps split: packet_direction.splits)
      then show ?thesis using v h r Inl that(1) by auto
    next
      case (Inr cf)
      then obtain c fc where cf: "r = Inr (c, fc)" by (cases cf) auto
      then obtain g rm1 evs1 where g: "credits_plus_assign (global_credits rm) c = Inr g"
        "reflect_occupancy eb cfg c (rm\<lparr>global_credits := g\<rparr>) = Inr rm1"
        "ReturnRdmaManagedFalconResourceCredits cs key fc = Inr evs1"
        using v h r by (auto simp: res_simps)
      obtain evs2 rm2 where x: "CheckUlpRequestXoff rm1 = (evs2, rm2)" by fastforce
      have "rm2 = rm'" "evs = evs1 @ evs2" "st = OkStatus"
        "conns' = conns(scid \<mapsto> put_transaction key (t\<lparr>tm_packets :=
           (tm_packets t)(type \<mapsto> pm\<lparr>pm_resources_reserved := ResourceExhaustedError\<rparr>)\<rparr>) cs)"
        using v h r cf g x by auto
      moreover have "g = credits_plus (global_credits rm) c"
        using g(1) by (simp add: credits_plus_assign_def split: if_splits)
      ultimately show ?thesis using that(2) [of cs t pm c fc rm1 evs1 evs2] h r cf g x by simp
    qed
  qed
qed

text \<open>An example configuration: a hundred credits in every pool.\<close>

definition example_config :: rm_config where
  "example_config =
     \<lparr>resource_reservation_mode = FIRST_PHASE_RESERVATION, threshold_solicit = 64,
      tx_buffer_minimum_allocation_unit = 32, rx_buffer_minimum_allocation_unit = 32,
      config_credits =
        \<lparr>tx_packet_ulp_requests = 100, tx_packet_ulp_data = 100, tx_packet_network_requests = 100,
         tx_buffer_ulp_requests = 100, tx_buffer_ulp_data = 100, tx_buffer_network_requests = 100,
         rx_packet_ulp_requests = 100, rx_packet_network_requests = 100,
         rx_buffer_ulp_requests = 100, rx_buffer_network_requests = 100\<rparr>,
      rx_buffer_pool_thresholds = \<lparr>green_zone_end = 50, yellow_zone_end = 80\<rparr>,
      rx_packet_pool_thresholds = \<lparr>green_zone_end = 50, yellow_zone_end = 80\<rparr>,
      tx_packet_pool_thresholds = \<lparr>green_zone_end = 50, yellow_zone_end = 80\<rparr>,
      enable_rx_buffer_occupancy_reflection = False, ema_rx_buffer = 0, ema_rx_context = 0,
      ema_tx_context = 0, table_rx_buffer = [10, 20], table_rx_context = [10, 20],
      table_tx_context = [10, 20],
      xoff_tx_packet_request = 10, xoff_tx_buffer_request = 10, xoff_rx_packet_request = 10,
      xoff_rx_buffer_request = 10, xoff_tx_packet_data = 10, xoff_tx_buffer_data = 10\<rparr>"

lemmas compute_defs = ComputeOutgoingPullRequestResources_def ComputeIncomingPullRequestResources_def
  ComputeOutgoingPullDataResources_def ComputeIncomingPullDataResources_def
  ComputeOutgoingPushRequestResources_def ComputeIncomingPushRequestResources_def
  ComputeOutgoingPushGrantResources_def ComputeIncomingPushGrantResources_def
  ComputeOutgoingPushSolicitedDataResources_def ComputeIncomingPushUnsolicitedCompletionResources_def
  ComputeIncomingPushSolicitedDataResources_def ComputeOutgoingPushUnsolicitedDataResources_def
  ComputeIncomingPushUnsolicitedDataResources_def

lemmas rm_eval = VerifyResourceAvailabilityOrReserveResources_def ReleaseResources_def
  example_config_def ResourceManager_new_def PerformDirectLookup_def reservation_type_def
  RdmaOpcodeToPacketType_def packet_default_def outgoing_credits_def compute_defs tx_credits_def
  rx_credits_def CalculateFalconTxBufferCredits_def CalculateFalconRxBufferCredits_def CeilDiv_def
  Subtract_def in_int32_def credits_plus_assign_def credits_minus_assign_def credits_in_range_def
  credits_simps reflect_occupancy_def CheckUlpRequestXoff_def Let_def signed_divide_int_def

text \<open>
  Which packets of a transaction reserve credits and which release them, at either end; and
  the credits of one packet. \<open>ulp\<close> is the packet the upper layer handed over, \<open>net\<close> the
  request packet from the network, \<open>pms\<close> the packet metadata of the transaction.
\<close>

fun txn_reserves :: "transaction_type \<Rightarrow> transaction_location \<Rightarrow> (packet_direction \<times> packet_type) list" where
  "txn_reserves kPull kInitiator = [(kOutgoing, kPullRequest)]"
| "txn_reserves kPull kTarget = [(kIncoming, kPullRequest), (kOutgoing, kPullData)]"
| "txn_reserves kPushSolicited kInitiator = [(kOutgoing, kPushRequest)]"
| "txn_reserves kPushSolicited kTarget = [(kIncoming, kPushRequest)]"
| "txn_reserves kPushUnsolicited kInitiator = [(kOutgoing, kPushUnsolicitedData)]"
| "txn_reserves kPushUnsolicited kTarget = [(kIncoming, kPushUnsolicitedData)]"

fun txn_releases :: "transaction_type \<Rightarrow> transaction_location \<Rightarrow> (packet_direction \<times> packet_type) list" where
  "txn_releases kPull kInitiator = [(kOutgoing, kPullRequest), (kIncoming, kPullData)]"
| "txn_releases kPull kTarget = [(kIncoming, kPullRequest), (kOutgoing, kPullData)]"
| "txn_releases kPushSolicited kInitiator =
     [(kOutgoing, kPushRequest), (kIncoming, kPushGrant), (kOutgoing, kPushSolicitedData)]"
| "txn_releases kPushSolicited kTarget =
     [(kIncoming, kPushRequest), (kOutgoing, kPushGrant), (kIncoming, kPushSolicitedData)]"
| "txn_releases kPushUnsolicited kInitiator = [(kOutgoing, kPushUnsolicitedData)]"
| "txn_releases kPushUnsolicited kTarget = [(kIncoming, kPushUnsolicitedData)]"

definition reserve_one ::
  "rm_config \<Rightarrow> (u32 \<rightharpoonup> connection_state) \<Rightarrow> reorder_info \<Rightarrow> connection_state \<Rightarrow> resource_manager \<Rightarrow>
   packet \<Rightarrow> packet \<Rightarrow> packet_direction \<times> packet_type \<Rightarrow> (status + resource_credits) res" where
  "reserve_one cfg conns ri cs rm ulp net p =
     (case fst p of kOutgoing \<Rightarrow> outgoing_credits cfg cs ulp (snd p)
      | kIncoming \<Rightarrow> incoming_credits cfg conns ri cs net (snd p) rm)"

definition release_one ::
  "rm_config \<Rightarrow> transaction_metadata \<Rightarrow> (packet_type \<Rightarrow> packet_metadata) \<Rightarrow> packet_direction \<times> packet_type \<Rightarrow>
   (status + resource_credits \<times> falcon_credit) res" where
  "release_one cfg t pms p =
     (case fst p of kOutgoing \<Rightarrow> res_bind (release_outgoing cfg (pms (snd p)) (snd p)) (\<lambda>r. Inr (Inr r))
      | kIncoming \<Rightarrow> release_incoming cfg t (pms (snd p)) (snd p))"

lemma release_incoming_error: "release_incoming cfg t pm type \<noteq> Inr (Inl OkStatus)"
  by (cases type)
    (auto simp: release_incoming_def Let_def GetPacketMetadata_def res_simps split: option.splits sum.splits)

text \<open>The connection of the example: one pull request in flight.\<close>

definition example_conns :: "u32 \<rightharpoonup> connection_state" where
  "example_conns = [5 \<mapsto> (ConnectionState_new 1 5 kOrdered)\<lparr>cs_transactions := [(1, kInitiator) \<mapsto>
     (TransactionMetadata_new 1 kPull kInitiator)\<lparr>tm_packets := [kPullRequest \<mapsto>
       (PacketMetadata_new kPullRequest kOutgoing None True)\<lparr>pm_data_length := 100\<rparr>]\<rparr>]\<rparr>]"

lemmas release_eval = example_conns_def GetTransaction_def GetPacketMetadata_def ConnectionState_new_def
  PacketMetadata_new_def TransactionMetadata_new_def ReturnRdmaManagedFalconResourceCredits_def
  fcredit_IsInitialized_def fcredit_zero_def release_outgoing_def

text \<open>Zones in order of occupancy; fewer credits available never mean a lower zone.\<close>

fun zone_level :: "rx_network_request_zone \<Rightarrow> nat" where
  "zone_level kGreen = 0"
| "zone_level kYellow = 1"
| "zone_level kRed = 2"

lemma zone_level_max: "zone_level (zone_max a b) = max (zone_level a) (zone_level b)"
  by (cases a; cases b) (simp_all add: zone_max_def)

lemma word_of_int_mono:
  assumes "0 \<le> a" and "a \<le> b" and "b < 2 ^ LENGTH('a)"
  shows "(word_of_int a :: 'a::len word) \<le> word_of_int b"
  using assms by (simp add: word_le_nat_alt unat_word_of_int nat_mono)

lemma occupancy_zone_mono:
  assumes "occupancy_zone capacity a' th = Inr z'" and "a' \<le> a" and "a \<le> capacity"
  shows "\<exists>z. occupancy_zone capacity a th = Inr z \<and> zone_level z \<le> zone_level z'"
proof -
  have "in_int32 (capacity - a')" using assms(1) by (auto simp: occupancy_zone_def Let_def split: if_splits)
  with assms(2,3) have r: "in_int32 (capacity - a)" "capacity - a' < 2 ^ 32"
    by (auto simp: in_int32_def)
  have "(word_of_int (capacity - a) :: u32) \<le> word_of_int (capacity - a')"
    using assms(2,3) r(2) by (intro word_of_int_mono) auto
  then show ?thesis
    using assms(1) r(1) by (auto simp: occupancy_zone_def Let_def split: if_splits)
qed

lemma network_zone_mono:
  assumes "credits_le (global_credits rm') (global_credits rm)"
    and "credits_le (global_credits rm) (config_credits cfg)"
    and "network_zone cfg rm' = Inr z'"
  shows "\<exists>z. network_zone cfg rm = Inr z \<and> zone_level z \<le> zone_level z'"
proof -
  obtain a' b' c' where z': "GetNetworkRequestRxBufferPoolOccupancyZone cfg rm' = Inr a'"
    "GetNetworkRequestRxPacketPoolOccupancyZone cfg rm' = Inr b'"
    "GetNetworkRequestTxPacketPoolOccupancyZone cfg rm' = Inr c'" "z' = zone_max a' (zone_max b' c')"
    using assms(3) by (auto simp: network_zone_def res_simps)
  obtain a where a: "GetNetworkRequestRxBufferPoolOccupancyZone cfg rm = Inr a" "zone_level a \<le> zone_level a'"
    using occupancy_zone_mono z'(1) assms(1,2)
    unfolding GetNetworkRequestRxBufferPoolOccupancyZone_def credits_le_def by blast
  obtain b where b: "GetNetworkRequestRxPacketPoolOccupancyZone cfg rm = Inr b" "zone_level b \<le> zone_level b'"
    using occupancy_zone_mono z'(2) assms(1,2)
    unfolding GetNetworkRequestRxPacketPoolOccupancyZone_def credits_le_def by blast
  obtain c where c: "GetNetworkRequestTxPacketPoolOccupancyZone cfg rm = Inr c" "zone_level c \<le> zone_level c'"
    using occupancy_zone_mono z'(3) assms(1,2)
    unfolding GetNetworkRequestTxPacketPoolOccupancyZone_def credits_le_def by blast
  from a b c z'(4) show ?thesis by (auto simp: network_zone_def zone_level_max)
qed

lemmas zone_defs = GetNetworkRequestRxBufferPoolOccupancyZone_def
  GetNetworkRequestRxPacketPoolOccupancyZone_def GetNetworkRequestTxPacketPoolOccupancyZone_def

text \<open>Quantization against increasing thresholds.\<close>

lemma quantized_level_sorted:
  "sorted table \<Longrightarrow> quantized_level n table x = n + length (filter (\<lambda>t. unat t \<le> unat x) table)"
proof (induction n table x rule: quantized_level.induct)
  case (2 n t ts x)
  have "unat x < 2 ^ 16" using unsigned_less [of x, where 'a = nat] by simp
  then have lt: "ucast x < t \<longleftrightarrow> unat x < unat t"
    by (simp add: word_less_nat_alt unsigned_ucast_eq take_bit_nat_eq_self)
  show ?case
  proof (cases "unat x < unat t")
    case True
    with "2.prems" have "\<forall>u \<in> set (t # ts). \<not> unat u \<le> unat x" by (force simp: word_le_nat_alt)
    then have "filter (\<lambda>t. unat t \<le> unat x) (t # ts) = []" by (simp add: filter_empty_conv)
    with True lt show ?thesis by simp
  next
    case False
    with 2 lt show ?thesis by simp
  qed
qed simp

lemma unat_FixedToUint: "unat (FixedToUint e kEmaOccupancyFractionalBits) = unat e div 2 ^ 15 mod 2 ^ 16"
  by (simp add: FixedToUint_def kEmaOccupancyFractionalBits_def unsigned_ucast_eq take_bit_eq_mod
      drop_bit_eq_div unat_div)

lemma unat_of_nat_small: "n \<le> 31 \<Longrightarrow> unat (of_nat n :: 5 word) = n"
  by (simp add: unat_of_nat)

section \<open>Properties\<close>

text \<open>
  The pools never go negative and are charged exactly: a reservation that reports an error
  changes nothing and says nothing to the upper layer; one that succeeds charges exactly the
  credits the packet needs, leaving no pool negative; a mere availability check changes nothing.
\<close>

theorem reservation_safe:
  assumes "VerifyResourceAvailabilityOrReserveResources eb cfg conns ri scid pkt dir reserve rm =
    Inr (st, evs, rm')"
  shows "(st \<noteq> OkStatus \<or> \<not> reserve \<longrightarrow> evs = [] \<and> rm' = rm) \<and>
    (global_credits rm' = global_credits rm \<or>
     (\<exists>cs type c. conns scid = Some cs \<and> reservation_type cfg pkt dir = Inr type \<and>
        (case dir of kOutgoing \<Rightarrow> outgoing_credits cfg cs pkt type
         | kIncoming \<Rightarrow> incoming_credits cfg conns ri cs pkt type rm) = Inr (Inr c) \<and>
        credits_plus (global_credits rm') c = global_credits rm \<and> credits_nonneg (global_credits rm')))"
  using assms
proof (cases rule: reserve_cases)
  case nothing
  then show ?thesis by simp
next
  case (taken cs type c rm1)
  have "global_credits rm' = credits_minus (global_credits rm) c"
    using CheckUlpRequestXoff_spec(1) [OF taken(9)] reflect_occupancy_frame(1) [OF taken(8)] by simp
  then have "credits_plus (global_credits rm') c = global_credits rm" "credits_nonneg (global_credits rm')"
    using taken(6) within_leaves_nonneg by (auto simp: rc.minus_plus)
  with taken show ?thesis by blast
qed

theorem reservation_safe_witness:
  "\<exists>evs rm'. VerifyResourceAvailabilityOrReserveResources (\<lambda>_ _ e. e) example_config
     [5 \<mapsto> ConnectionState_new 1 5 kOrdered] Map.empty 5
     (packet_default\<lparr>rdma_opcode := kReadRequest, rdma_data_length := 100, rdma_request_length := 70\<rparr>)
     kOutgoing True (ResourceManager_new example_config) = Inr (OkStatus, evs, rm') \<and>
   global_credits rm' \<noteq> global_credits (ResourceManager_new example_config) \<and>
   credits_nonneg (global_credits rm')"
proof -
  let ?pkt = "packet_default\<lparr>rdma_opcode := kReadRequest, rdma_data_length := 100, rdma_request_length := 70\<rparr>"
  obtain evs rm' where r: "VerifyResourceAvailabilityOrReserveResources (\<lambda>_ _ e. e) example_config
     [5 \<mapsto> ConnectionState_new 1 5 kOrdered] Map.empty 5 ?pkt kOutgoing True
     (ResourceManager_new example_config) = Inr (OkStatus, evs, rm')"
    "global_credits rm' \<noteq> global_credits (ResourceManager_new example_config)"
    by (simp add: rm_eval)
  from reservation_safe [OF r(1)] r show ?thesis by blast
qed



text \<open>
  Credits cannot be released twice: after a release of a packet's credits that succeeded,
  every later release for that packet reports the error that no credits are held, and neither
  the pools nor the connection change.
\<close>

theorem no_double_release:
  assumes "ReleaseResources eb cfg scid key type conns rm = Inr (OkStatus, evs, conns', rm')"
    and "resource_reservation_mode cfg = FIRST_PHASE_RESERVATION"
  shows "ReleaseResources eb cfg scid key type conns' rm'' = Inr (ResourceExhaustedError, [], conns', rm'')"
  using assms(1)
proof (cases rule: release_cases)
  case nothing
  with assms(2) release_incoming_error show ?thesis by auto
next
  case (released cs t pm c fc evs1 evs2 rm1)
  from released(11) assms(2) show ?thesis
    by (simp add: ReleaseResources_def PerformDirectLookup_def GetTransaction_def GetPacketMetadata_def
        put_transaction_def)
qed

theorem no_double_release_witness:
  "\<exists>evs conns' rm'. ReleaseResources (\<lambda>_ _ e. e) example_config 5 (1, kInitiator) kPullRequest example_conns
      (ResourceManager_new example_config) = Inr (OkStatus, evs, conns', rm') \<and>
    ReleaseResources (\<lambda>_ _ e. e) example_config 5 (1, kInitiator) kPullRequest conns' rm' =
      Inr (ResourceExhaustedError, [], conns', rm')"
proof -
  have "\<exists>evs conns' rm'. ReleaseResources (\<lambda>_ _ e. e) example_config 5 (1, kInitiator) kPullRequest example_conns
      (ResourceManager_new example_config) = Inr (OkStatus, evs, conns', rm')"
    by (simp add: rm_eval release_eval)
  moreover have "resource_reservation_mode example_config = FIRST_PHASE_RESERVATION"
    by (simp add: example_config_def)
  ultimately show ?thesis using no_double_release by blast
qed

text \<open>
  The upper layer is always told the truth about flow control: after every reservation that
  charges credits and every release, the xoff state last signalled (the initial one is off) is
  exactly whether the pools are below the configured limits; while nothing changes, nothing is
  signalled.
\<close>

theorem xoff_truthful:
  "(VerifyResourceAvailabilityOrReserveResources eb cfg conns ri scid pkt dir reserve rm = Inr (st, evs, rm') \<longrightarrow>
      (rm' = rm \<and> evs = [] \<or>
       xoff_ok rm' \<and> told (request_xoff rm, global_xoff rm) evs = (request_xoff rm', global_xoff rm'))) \<and>
   (ReleaseResources eb cfg scid key type conns rm = Inr (st, evs, conns', rm') \<longrightarrow>
      (rm' = rm \<and> evs = [] \<or>
       xoff_ok rm' \<and> told (request_xoff rm, global_xoff rm) evs = (request_xoff rm', global_xoff rm')))"
proof (intro conjI impI)
  assume "VerifyResourceAvailabilityOrReserveResources eb cfg conns ri scid pkt dir reserve rm = Inr (st, evs, rm')"
  then show "rm' = rm \<and> evs = [] \<or>
       xoff_ok rm' \<and> told (request_xoff rm, global_xoff rm) evs = (request_xoff rm', global_xoff rm')"
  proof (cases rule: reserve_cases)
    case (taken cs type c rm1)
    with CheckUlpRequestXoff_spec(2,3) [OF taken(9)] reflect_occupancy_frame(2,3) [OF taken(8)]
    show ?thesis by simp
  qed simp
next
  assume "ReleaseResources eb cfg scid key type conns rm = Inr (st, evs, conns', rm')"
  then show "rm' = rm \<and> evs = [] \<or>
       xoff_ok rm' \<and> told (request_xoff rm, global_xoff rm) evs = (request_xoff rm', global_xoff rm')"
  proof (cases rule: release_cases)
    case (released cs t pm c fc evs1 evs2 rm1)
    with CheckUlpRequestXoff_spec(2,3) [OF released(9)] reflect_occupancy_frame(2,3) [OF released(7)]
      ReturnRdma_told [OF released(8)]
    show ?thesis by simp
  qed simp
qed

theorem xoff_truthful_witness:
  "\<exists>evs conns' rm'. ReleaseResources (\<lambda>_ _ e. e) example_config 5 (1, kInitiator) kPullRequest example_conns
      (ResourceManager_new example_config) = Inr (OkStatus, evs, conns', rm') \<and>
    rm' \<noteq> ResourceManager_new example_config \<and> xoff_ok rm'"
proof -
  have "\<exists>evs conns' rm'. ReleaseResources (\<lambda>_ _ e. e) example_config 5 (1, kInitiator) kPullRequest example_conns
      (ResourceManager_new example_config) = Inr (OkStatus, evs, conns', rm') \<and>
      tx_packet_ulp_requests (global_credits rm') \<noteq>
        tx_packet_ulp_requests (global_credits (ResourceManager_new example_config))"
    by (simp add: rm_eval release_eval)
  then show ?thesis using xoff_truthful by blast
qed

text \<open>
  Admission of network requests: lower occupancy never turns an admitted request away, and
  the requests that keep the protocol moving (a head-of-line pull request or unsolicited push)
  are admitted at every occupancy.
\<close>

theorem admission_monotone:
  assumes "credits_le (global_credits rm') (global_credits rm)"
    and "credits_le (global_credits rm) (config_credits cfg)"
    and "MeetsNetworkRequestAdmissionCriteria cfg conns ri cid rsn type rm' = Inr admitted"
    and "IsHeadOfLineNetworkRequest conns ri cid rsn = Inr hol"
  shows "(admitted \<longrightarrow> MeetsNetworkRequestAdmissionCriteria cfg conns ri cid rsn type rm = Inr True) \<and>
    (hol \<and> type \<in> {kPullRequest, kPushUnsolicitedData} \<longrightarrow> admitted)"
proof -
  obtain z' where z': "network_zone cfg rm' = Inr z'"
    using assms(3) by (auto simp: MeetsNetworkRequestAdmissionCriteria_def res_simps)
  obtain z where z: "network_zone cfg rm = Inr z" "zone_level z \<le> zone_level z'"
    using network_zone_mono [OF assms(1,2) z'] by blast
  have crit: "MeetsNetworkRequestAdmissionCriteria cfg conns ri cid rsn type r =
      Inr (zn = kGreen \<or> hol \<and> (zn = kYellow \<or> type \<in> {kPullRequest, kPushUnsolicitedData}))"
    if "network_zone cfg r = Inr zn" for r zn
    using that assms(4)
    by (cases zn) (auto simp: MeetsNetworkRequestAdmissionCriteria_def)
  have "admitted = (z' = kGreen \<or> hol \<and> (z' = kYellow \<or> type \<in> {kPullRequest, kPushUnsolicitedData}))"
    using crit [OF z'] assms(3) by simp
  with crit [OF z(1)] z(2) show ?thesis by (cases z; cases z') auto
qed

theorem admission_monotone_witness:
  "MeetsNetworkRequestAdmissionCriteria example_config [5 \<mapsto> ConnectionState_new 1 5 kUnordered]
      Map.empty 5 1 kPullRequest (ResourceManager_new example_config) = Inr True"
proof -
  let ?conns = "[5 \<mapsto> ConnectionState_new 1 5 kUnordered]"
  let ?rm = "ResourceManager_new example_config"
  let ?rm' = "?rm\<lparr>global_credits := (global_credits ?rm)\<lparr>rx_packet_network_requests := 30\<rparr>\<rparr>"
  have hol: "IsHeadOfLineNetworkRequest ?conns Map.empty 5 1 = Inr True"
    by (simp add: IsHeadOfLineNetworkRequest_def PerformDirectLookup_def ConnectionState_new_def)
  have le: "credits_le (global_credits ?rm') (global_credits ?rm)"
    "credits_le (global_credits ?rm) (config_credits example_config)"
    by (simp_all add: ResourceManager_new_def example_config_def credits_le_def)
  have "network_zone example_config ?rm' = Inr kYellow"
    by (simp add: network_zone_def zone_defs occupancy_zone_def ResourceManager_new_def
        example_config_def in_int32_def zone_max_def)
  with hol have "MeetsNetworkRequestAdmissionCriteria example_config ?conns Map.empty 5 1 kPullRequest ?rm' = Inr True"
    by (simp add: MeetsNetworkRequestAdmissionCriteria_def)
  from admission_monotone [OF le this hol] show ?thesis by simp
qed

text \<open>
  The reflected occupancy fits its five bits: with tables of at most 31 increasing
  thresholds, the level of a resource is the number of thresholds its averaged occupancy has
  reached, and the field reported to the peer is the largest of the three levels, never
  truncated.
\<close>

theorem reflected_occupancy_exact:
  assumes "sorted (table_rx_buffer cfg)" and "sorted (table_rx_context cfg)" and "sorted (table_tx_context cfg)"
    and "length (table_rx_buffer cfg) \<le> 31" and "length (table_rx_context cfg) \<le> 31"
    and "length (table_tx_context cfg) \<le> 31"
  shows "unat (network_region_occupancy (UpdateQuantizedNetworkRegionOccupancy cfg rm)) =
    (let ema = rm_network_region_ema rm;
         level = (\<lambda>table e. length (filter (\<lambda>t. unat t \<le> unat e div 2 ^ 15 mod 2 ^ 16) table))
     in max (max (level (table_rx_buffer cfg) (rx_buffer_pool_occupancy_ema ema))
                 (level (table_rx_context cfg) (rx_packet_pool_occupancy_ema ema)))
            (level (table_tx_context cfg) (tx_packet_pool_occupancy_ema ema)))"
proof -
  let ?level = "\<lambda>table e. length (filter (\<lambda>t. unat t \<le> unat e div 2 ^ 15 mod 2 ^ 16) table)"
  let ?q = "\<lambda>table e. quantized_level 0 table (FixedToUint e kEmaOccupancyFractionalBits)"
  have q: "?q table e = ?level table e" if "sorted table" for table and e :: u32
    using quantized_level_sorted [OF that, of 0 "FixedToUint e kEmaOccupancyFractionalBits"]
    by (simp add: unat_FixedToUint)
  have bound: "?level table e \<le> 31" if "length table \<le> 31" for table :: "u32 list" and e :: u32
    using that length_filter_le [of "\<lambda>t. unat t \<le> unat e div 2 ^ 15 mod 2 ^ 16" table] by linarith
  show ?thesis
    unfolding UpdateQuantizedNetworkRegionOccupancy_def Let_def
    using bound assms(4-6) by (simp add: q assms(1-3) unat_of_nat_small)
qed

theorem reflected_occupancy_exact_witness:
  "unat (network_region_occupancy (UpdateQuantizedNetworkRegionOccupancy example_config
     ((ResourceManager_new example_config)\<lparr>rm_network_region_ema :=
        \<lparr>rx_buffer_pool_occupancy_ema = 491520, rx_packet_pool_occupancy_ema = 819200,
         tx_packet_pool_occupancy_ema = 0\<rparr>\<rparr>))) = 2"
proof -
  have tables: "table_rx_buffer example_config = [10, 20]" "table_rx_context example_config = [10, 20]"
    "table_tx_context example_config = [10, 20]"
    by (simp_all add: example_config_def)
  show ?thesis
    using reflected_occupancy_exact [of example_config "(ResourceManager_new example_config)\<lparr>rm_network_region_ema :=
        \<lparr>rx_buffer_pool_occupancy_ema = 491520, rx_packet_pool_occupancy_ema = 819200,
         tx_packet_pool_occupancy_ema = 0\<rparr>\<rparr>"]
    unfolding Let_def by (simp add: tables)
qed

end
