(* ===== verification/WRR_Policy.thy ===== *)
theory WRR_Policy
  imports Falcon_Prelude
begin

text \<open>
  The deficit-based weighted round-robin policy of
  \<^verbatim>\<open>src/isekai/host/falcon/gen1/weighted_round_robin_policy.h\<close>, over any linearly ordered type of
  entities.

  The four \<^verbatim>\<open>btree_set\<close>s are sorted lists, the metadata map an ordered association list (the
  code only sums over it). The weight fetcher is an argument of the operations that call it:
  \<open>None\<close> is the null fetcher, \<open>Some f\<close> the weights at the time of the call. Weights and
  credits are unbounded integers. \<^verbatim>\<open>metadata_.at\<close> on a missing key throws, hence the fault.

  The theorems show that the four sets always partition the entities by their state, that the
  policy never trips its checks, that it finds an entity whenever one has work, and that
  a round serves every active entity exactly as often as its weight says.
\<close>

section \<open>State\<close>

datatype entity_state = kIdle | kEligible | kWaiting | kWaitingGoingIdle

record entity_metadata =
  em_state :: entity_state
  em_weight :: int
  em_remaining_credits :: int
  em_round_number :: int

record 'a wrr =
  idle :: "'a list"
  eligible :: "'a list"
  waiting :: "'a list"
  waiting_going_idle :: "'a list"
  metadata :: "('a, entity_metadata) omap"
  global_round_number :: int
  global_credits_remaining :: int
  batched :: bool
  enforce_order :: bool
  last_serviced_entity :: "'a option"   \<comment> \<open>\<open>None\<close>: not yet assigned\<close>

definition wrr_new :: "bool \<Rightarrow> bool \<Rightarrow> 'a wrr" where
  "wrr_new b e = \<lparr>idle = [], eligible = [], waiting = [], waiting_going_idle = [], metadata = [],
     global_round_number = 0, global_credits_remaining = 0, batched = b, enforce_order = e,
     last_serviced_entity = None\<rparr>"

section \<open>Operations\<close>

definition InitializeEntity ::
  "('a::linorder \<Rightarrow> int) option \<Rightarrow> 'a \<Rightarrow> 'a wrr \<Rightarrow> status \<times> 'a wrr" where
  "InitializeEntity fetcher entity s =
     (case map_of (metadata s) entity of
        Some _ \<Rightarrow> (InvalidArgumentError, s)
      | None \<Rightarrow> (OkStatus, s
          \<lparr>idle := oset_insert entity (idle s),
           metadata := omap_put entity
             \<lparr>em_state = kIdle, em_weight = (case fetcher of Some f \<Rightarrow> f entity | None \<Rightarrow> 1),
              em_remaining_credits = 0, em_round_number = - 1\<rparr> (metadata s),
           last_serviced_entity := Some entity\<rparr>))"

definition DeleteEntity :: "'a::linorder \<Rightarrow> 'a wrr \<Rightarrow> status \<times> 'a wrr" where
  "DeleteEntity entity s =
     (case map_of (metadata s) entity of
        None \<Rightarrow> (InvalidArgumentError, s)
      | Some m \<Rightarrow>
          let s1 = (case em_state m of
                kIdle \<Rightarrow> s\<lparr>idle := oset_erase entity (idle s)\<rparr>
              | kEligible \<Rightarrow> s\<lparr>eligible := oset_erase entity (eligible s)\<rparr>
              | kWaiting \<Rightarrow> s\<lparr>waiting := oset_erase entity (waiting s)\<rparr>
              | kWaitingGoingIdle \<Rightarrow>
                  s\<lparr>waiting_going_idle := oset_erase entity (waiting_going_idle s)\<rparr>)
          in (OkStatus, s1\<lparr>metadata := omap_erase entity (metadata s)\<rparr>))"

definition MarkEntityActive :: "'a::linorder \<Rightarrow> 'a wrr \<Rightarrow> (bool \<times> 'a wrr) res" where
  "MarkEntityActive entity s =
     (case map_of (metadata s) entity of
        None \<Rightarrow> Inl CheckFailed
      | Some m \<Rightarrow>
          if em_state m = kEligible \<or> em_state m = kWaiting then Inr (False, s)
          else if em_state m = kIdle then
            let m1 = (if em_round_number m < global_round_number s
                  then m\<lparr>em_remaining_credits := em_weight m, em_round_number := global_round_number s\<rparr>
                  else m)
            in Inr (True,
              if em_remaining_credits m1 = 0
              then s\<lparr>waiting := oset_insert entity (waiting s),
                     metadata := omap_put entity (m1\<lparr>em_state := kWaiting\<rparr>) (metadata s),
                     idle := oset_erase entity (idle s)\<rparr>
              else s\<lparr>eligible := oset_insert entity (eligible s),
                     metadata := omap_put entity (m1\<lparr>em_state := kEligible\<rparr>) (metadata s),
                     idle := oset_erase entity (idle s)\<rparr>)
          else Inr (True, s\<lparr>waiting := oset_insert entity (waiting s),
                 metadata := omap_put entity (m\<lparr>em_state := kWaiting\<rparr>) (metadata s),
                 waiting_going_idle := oset_erase entity (waiting_going_idle s)\<rparr>))"

definition MarkEntityInactive :: "'a::linorder \<Rightarrow> 'a wrr \<Rightarrow> (bool \<times> 'a wrr) res" where
  "MarkEntityInactive entity s =
     (case map_of (metadata s) entity of
        None \<Rightarrow> Inl CheckFailed
      | Some m \<Rightarrow>
          if em_state m = kIdle \<or> em_state m = kWaitingGoingIdle then Inr (False, s)
          else if em_state m = kEligible
          then Inr (True, s\<lparr>idle := oset_insert entity (idle s),
                 metadata := omap_put entity (m\<lparr>em_state := kIdle\<rparr>) (metadata s),
                 eligible := oset_erase entity (eligible s)\<rparr>)
          else Inr (True, s\<lparr>waiting_going_idle := oset_insert entity (waiting_going_idle s),
                 metadata := omap_put entity (m\<lparr>em_state := kWaitingGoingIdle\<rparr>) (metadata s),
                 waiting := oset_erase entity (waiting s)\<rparr>))"

definition IsActive :: "'a \<Rightarrow> 'a wrr \<Rightarrow> bool" where
  "IsActive entity s \<longleftrightarrow> entity \<in> set (eligible s) \<or> entity \<in> set (waiting s)"

text \<open>The loop over the Waiting list that starts a sub-round.\<close>

fun start_waiting :: "'a::linorder list \<Rightarrow> 'a wrr \<Rightarrow> 'a wrr res" where
  "start_waiting [] s = Inr s"
| "start_waiting (x # xs) s =
     (case map_of (metadata s) x of
        None \<Rightarrow> Inl UndefinedBehaviour
      | Some m \<Rightarrow> start_waiting xs
          (if 0 < em_remaining_credits m
           then s\<lparr>metadata := omap_put x (m\<lparr>em_state := kEligible\<rparr>) (metadata s),
                  eligible := oset_insert x (eligible s), waiting := oset_erase x (waiting s)\<rparr>
           else s))"

text \<open>The loop from WaitingGoingIdle to Idle.\<close>

fun going_idle :: "'a::linorder list \<Rightarrow> 'a wrr \<Rightarrow> 'a wrr res" where
  "going_idle [] s = Inr s"
| "going_idle (x # xs) s =
     (case map_of (metadata s) x of
        None \<Rightarrow> Inl UndefinedBehaviour
      | Some m \<Rightarrow> going_idle xs
          (s\<lparr>metadata := omap_put x (m\<lparr>em_state := kIdle\<rparr>) (metadata s), idle := oset_insert x (idle s)\<rparr>))"

definition retire_going_idle :: "'a::linorder wrr \<Rightarrow> 'a wrr res" where
  "retire_going_idle s =
     res_bind (going_idle (waiting_going_idle s) s) (\<lambda>s'. Inr (s'\<lparr>waiting_going_idle := []\<rparr>))"

definition StartSubRound :: "'a::linorder wrr \<Rightarrow> 'a wrr res" where
  "StartSubRound s = res_bind (start_waiting (waiting s) s) retire_going_idle"

text \<open>The two loops of \<^verbatim>\<open>ResetAndRestartRound\<close> that hand out fresh credits.\<close>

definition fresh_credits :: "int \<Rightarrow> entity_metadata \<Rightarrow> entity_metadata" where
  "fresh_credits round m = m\<lparr>em_remaining_credits := em_weight m, em_round_number := round\<rparr>"

fun reset_eligible :: "'a::linorder list \<Rightarrow> 'a wrr \<Rightarrow> 'a wrr res" where
  "reset_eligible [] s = Inr s"
| "reset_eligible (x # xs) s =
     (case map_of (metadata s) x of
        None \<Rightarrow> Inl UndefinedBehaviour
      | Some m \<Rightarrow> reset_eligible xs
          (if em_weight m \<le> 0
           then s\<lparr>metadata := omap_put x ((fresh_credits (global_round_number s) m)\<lparr>em_state := kWaiting\<rparr>) (metadata s),
                  waiting := oset_insert x (waiting s), eligible := oset_erase x (eligible s)\<rparr>
           else s\<lparr>metadata := omap_put x (fresh_credits (global_round_number s) m) (metadata s)\<rparr>))"

fun reset_waiting :: "'a::linorder list \<Rightarrow> 'a wrr \<Rightarrow> 'a wrr res" where
  "reset_waiting [] s = Inr s"
| "reset_waiting (x # xs) s =
     (case map_of (metadata s) x of
        None \<Rightarrow> Inl UndefinedBehaviour
      | Some m \<Rightarrow> reset_waiting xs
          (if 0 < em_weight m
           then s\<lparr>metadata := omap_put x ((fresh_credits (global_round_number s) m)\<lparr>em_state := kEligible\<rparr>) (metadata s),
                  eligible := oset_insert x (eligible s), waiting := oset_erase x (waiting s)\<rparr>
           else s\<lparr>metadata := omap_put x (fresh_credits (global_round_number s) m) (metadata s)\<rparr>))"

definition fetch_weights :: "('a::linorder \<Rightarrow> int) option \<Rightarrow> 'a wrr \<Rightarrow> 'a wrr" where
  "fetch_weights fetcher s =
     (case fetcher of
        Some f \<Rightarrow>
          let md = map (\<lambda>(x, m). (x, m\<lparr>em_weight := f x\<rparr>)) (metadata s)
          in s\<lparr>metadata := md, global_credits_remaining := (\<Sum>p\<leftarrow>md. em_weight (snd p))\<rparr>
      | None \<Rightarrow> s\<lparr>global_credits_remaining := int (length (metadata s))\<rparr>)"

definition ResetAndRestartRound :: "('a::linorder \<Rightarrow> int) option \<Rightarrow> 'a wrr \<Rightarrow> 'a wrr res" where
  "ResetAndRestartRound fetcher s =
     (let s1 = fetch_weights fetcher s; s2 = s1\<lparr>global_round_number := global_round_number s1 + 1\<rparr>
      in res_bind (reset_eligible (eligible s2) s2) (\<lambda>s3.
         res_bind (reset_waiting (waiting s3) s3) retire_going_idle))"

definition IsRoundOver :: "'a::linorder wrr \<Rightarrow> (bool \<times> 'a wrr) res" where
  "IsRoundOver s =
     (if global_credits_remaining s = 0 then Inr (True, s)
      else if eligible s \<noteq> [] then Inr (False, s)
      else if waiting s = [] then Inr (True, s)
      else res_bind (StartSubRound s) (\<lambda>s'. Inr (eligible s' = [], s')))"

definition HasWork :: "('a::linorder \<Rightarrow> int) option \<Rightarrow> 'a wrr \<Rightarrow> (bool \<times> 'a wrr) res" where
  "HasWork fetcher s =
     res_bind (IsRoundOver s) (\<lambda>(over, s1).
       if over then res_bind (ResetAndRestartRound fetcher s1) (\<lambda>s2. Inr (eligible s2 \<noteq> [], s2))
       else Inr (True, s1))"

text \<open>Which entity is next, and charging it.\<close>

definition pick :: "'a::linorder wrr \<Rightarrow> ('a \<times> 'a wrr) res" where
  "pick s =
     (if enforce_order s
      then (case last_serviced_entity s of
              None \<Rightarrow> Inl UndefinedBehaviour
            | Some l \<Rightarrow>
                let x = (case upper_bound l (eligible s) of Some y \<Rightarrow> y | None \<Rightarrow> hd (eligible s))
                in Inr (x, s\<lparr>last_serviced_entity := Some x\<rparr>))
      else Inr (hd (eligible s), s))"

definition serve :: "'a::linorder \<Rightarrow> 'a wrr \<Rightarrow> 'a wrr res" where
  "serve x s =
     (case map_of (metadata s) x of
        None \<Rightarrow> Inl UndefinedBehaviour
      | Some m \<Rightarrow>
          check (0 < em_remaining_credits m) (check (0 < global_credits_remaining s)
            (let m1 = m\<lparr>em_remaining_credits := em_remaining_credits m - 1\<rparr>;
                 s1 = s\<lparr>global_credits_remaining := global_credits_remaining s - 1\<rparr>
             in Inr (if \<not> batched s \<or> em_remaining_credits m1 = 0
                then s1\<lparr>eligible := oset_erase x (eligible s), waiting := oset_insert x (waiting s),
                        metadata := omap_put x (m1\<lparr>em_state := kWaiting\<rparr>) (metadata s)\<rparr>
                else s1\<lparr>metadata := omap_put x m1 (metadata s)\<rparr>))))"

definition GetNextEntity :: "('a::linorder \<Rightarrow> int) option \<Rightarrow> 'a wrr \<Rightarrow> ((status + 'a) \<times> 'a wrr) res" where
  "GetNextEntity fetcher s =
     (if eligible s = [] \<and> waiting s = [] then Inr (Inl UnavailableError, s)
      else res_bind (IsRoundOver s) (\<lambda>(over, s1).
           res_bind (if over then ResetAndRestartRound fetcher s1 else Inr s1) (\<lambda>s2.
           if eligible s2 = [] then Inr (Inl UnavailableError, s2)
           else res_bind (pick s2) (\<lambda>(x, s3).
                res_bind (serve x s3) (\<lambda>s4. Inr (Inr x, s4))))))"

definition SanityCheckForTesting :: "'a wrr \<Rightarrow> unit res" where
  "SanityCheckForTesting s =
     (if list_all (\<lambda>(x, m).
           let i = x \<in> set (idle s); e = x \<in> set (eligible s); w = x \<in> set (waiting s);
               g = x \<in> set (waiting_going_idle s)
           in case em_state m of
                kIdle \<Rightarrow> i \<and> \<not> e \<and> \<not> w \<and> \<not> g
              | kEligible \<Rightarrow> \<not> i \<and> e \<and> \<not> w \<and> \<not> g
              | kWaiting \<Rightarrow> \<not> i \<and> \<not> e \<and> w \<and> \<not> g
              | kWaitingGoingIdle \<Rightarrow> \<not> i \<and> \<not> e \<and> \<not> w \<and> g) (metadata s)
      then Inr () else Inl CheckFailed)"

section \<open>The partition invariant\<close>

definition st_of :: "'a wrr \<Rightarrow> 'a \<Rightarrow> entity_state option" where
  "st_of s x = map_option em_state (map_of (metadata s) x)"

definition part :: "'a::linorder wrr \<Rightarrow> bool" where
  "part s \<longleftrightarrow> oset_ok (idle s) \<and> oset_ok (eligible s) \<and> oset_ok (waiting s) \<and>
     oset_ok (waiting_going_idle s) \<and> omap_ok (metadata s) \<and>
     (\<forall>x. (x \<in> set (idle s) \<longleftrightarrow> st_of s x = Some kIdle) \<and>
          (x \<in> set (eligible s) \<longleftrightarrow> st_of s x = Some kEligible) \<and>
          (x \<in> set (waiting s) \<longleftrightarrow> st_of s x = Some kWaiting) \<and>
          (x \<in> set (waiting_going_idle s) \<longleftrightarrow> st_of s x = Some kWaitingGoingIdle))"

text \<open>Everything but the lists and the metadata.\<close>

definition rest :: "'a wrr \<Rightarrow> int \<times> int \<times> bool \<times> bool \<times> 'a option" where
  "rest s = (global_round_number s, global_credits_remaining s, batched s, enforce_order s,
     last_serviced_entity s)"

lemma rest_update [simp]:
  "rest (s\<lparr>idle := a\<rparr>) = rest s" "rest (s\<lparr>eligible := a\<rparr>) = rest s" "rest (s\<lparr>waiting := a\<rparr>) = rest s"
  "rest (s\<lparr>waiting_going_idle := a\<rparr>) = rest s" "rest (s\<lparr>metadata := md\<rparr>) = rest s"
  by (simp_all add: rest_def)

lemma rest_fields:
  assumes "rest s' = rest s"
  shows "global_round_number s' = global_round_number s"
    and "global_credits_remaining s' = global_credits_remaining s" and "batched s' = batched s"
    and "enforce_order s' = enforce_order s" and "last_serviced_entity s' = last_serviced_entity s"
  using assms by (simp_all add: rest_def)

lemma part_member:
  assumes "part s"
  shows "x \<in> set (idle s) \<longleftrightarrow> st_of s x = Some kIdle"
    and "x \<in> set (eligible s) \<longleftrightarrow> st_of s x = Some kEligible"
    and "x \<in> set (waiting s) \<longleftrightarrow> st_of s x = Some kWaiting"
    and "x \<in> set (waiting_going_idle s) \<longleftrightarrow> st_of s x = Some kWaitingGoingIdle"
  using assms by (simp_all add: part_def)

lemma st_of_put [simp]:
  "st_of (s\<lparr>metadata := omap_put x m md\<rparr>) y =
     (if y = x then Some (em_state m) else map_option em_state (map_of md y))"
  by (simp add: st_of_def omap_simps)

text \<open>The policy's own sanity check is the partition, entity by entity.\<close>

lemma part_disjoint:
  assumes "part s"
  shows "set (idle s) \<inter> set (eligible s) = {}" "set (idle s) \<inter> set (waiting s) = {}"
    "set (idle s) \<inter> set (waiting_going_idle s) = {}" "set (eligible s) \<inter> set (waiting s) = {}"
    "set (eligible s) \<inter> set (waiting_going_idle s) = {}" "set (waiting s) \<inter> set (waiting_going_idle s) = {}"
  using part_member [OF assms] by auto

lemma part_update_metadata:
  assumes "part s" and "map_of (metadata s) x = Some m" and "em_state m' = em_state m"
  shows "part (s\<lparr>metadata := omap_put x m' (metadata s)\<rparr>)"
  using assms by (auto simp: part_def omap_ok_put st_of_def omap_simps)

lemma part_wait_to_eligible:
  assumes "part s" and "st_of s x = Some kWaiting" and "em_state m = kEligible"
  shows "part (s\<lparr>metadata := omap_put x m (metadata s), eligible := oset_insert x (eligible s),
    waiting := oset_erase x (waiting s)\<rparr>)"
  using assms by (auto simp: part_def omap_ok_put st_of_def omap_simps)

lemma part_eligible_to_wait:
  assumes "part s" and "st_of s x = Some kEligible" and "em_state m = kWaiting"
  shows "part (s\<lparr>metadata := omap_put x m (metadata s), waiting := oset_insert x (waiting s),
    eligible := oset_erase x (eligible s)\<rparr>)"
  using assms by (auto simp: part_def omap_ok_put st_of_def omap_simps)

lemma part_idle_to_active:
  assumes "part s" and "st_of s x = Some kIdle"
  shows "em_state m = kEligible \<Longrightarrow> part (s\<lparr>eligible := oset_insert x (eligible s),
      metadata := omap_put x m (metadata s), idle := oset_erase x (idle s)\<rparr>)"
    and "em_state m = kWaiting \<Longrightarrow> part (s\<lparr>waiting := oset_insert x (waiting s),
      metadata := omap_put x m (metadata s), idle := oset_erase x (idle s)\<rparr>)"
  using assms by (auto simp: part_def omap_ok_put st_of_def omap_simps)

lemma part_going_idle_to_wait:
  assumes "part s" and "st_of s x = Some kWaitingGoingIdle" and "em_state m = kWaiting"
  shows "part (s\<lparr>waiting := oset_insert x (waiting s), metadata := omap_put x m (metadata s),
    waiting_going_idle := oset_erase x (waiting_going_idle s)\<rparr>)"
  using assms by (auto simp: part_def omap_ok_put st_of_def omap_simps)

lemma part_eligible_to_idle:
  assumes "part s" and "st_of s x = Some kEligible" and "em_state m = kIdle"
  shows "part (s\<lparr>idle := oset_insert x (idle s), metadata := omap_put x m (metadata s),
    eligible := oset_erase x (eligible s)\<rparr>)"
  using assms by (auto simp: part_def omap_ok_put st_of_def omap_simps)

lemma part_wait_to_going_idle:
  assumes "part s" and "st_of s x = Some kWaiting" and "em_state m = kWaitingGoingIdle"
  shows "part (s\<lparr>waiting_going_idle := oset_insert x (waiting_going_idle s),
    metadata := omap_put x m (metadata s), waiting := oset_erase x (waiting s)\<rparr>)"
  using assms by (auto simp: part_def omap_ok_put st_of_def omap_simps)

lemma oset_erase_fresh: "x \<notin> set xs \<Longrightarrow> oset_erase x xs = xs"
  by (auto simp: oset_erase_def intro: filter_True)

lemma part_erase:
  assumes "part s"
  shows "part (s\<lparr>idle := oset_erase x (idle s), eligible := oset_erase x (eligible s), waiting := oset_erase x (waiting s),
    waiting_going_idle := oset_erase x (waiting_going_idle s), metadata := omap_erase x (metadata s)\<rparr>)"
proof -
  have "st_of (s\<lparr>metadata := omap_erase x (metadata s)\<rparr>) y = (if y = x then None else st_of s y)" for y
    by (simp add: st_of_def omap_simps)
  then show ?thesis using assms by (simp add: part_def omap_ok_erase st_of_def)
qed

section \<open>The loops\<close>

lemma start_waiting_spec:
  assumes "part s" and "distinct xs" and "set xs \<subseteq> set (waiting s)"
  shows "\<exists>s'. start_waiting xs s = Inr s' \<and> part s' \<and> rest s' = rest s \<and>
    (\<forall>y. map_of (metadata s') y = map_option (\<lambda>m. if y \<in> set xs \<and> 0 < em_remaining_credits m
       then m\<lparr>em_state := kEligible\<rparr> else m) (map_of (metadata s) y))"
  using assms
proof (induction xs arbitrary: s)
  case Nil
  then show ?case by (simp add: option.map_ident)
next
  case (Cons x xs)
  have w: "st_of s x = Some kWaiting" using Cons.prems by (simp add: part_member)
  then obtain m where m: "map_of (metadata s) x = Some m" by (auto simp: st_of_def)
  let ?s1 = "if 0 < em_remaining_credits m
      then s\<lparr>metadata := omap_put x (m\<lparr>em_state := kEligible\<rparr>) (metadata s),
             eligible := oset_insert x (eligible s), waiting := oset_erase x (waiting s)\<rparr> else s"
  have "part ?s1" using part_wait_to_eligible [OF Cons.prems(1) w] Cons.prems(1) by simp
  moreover have "set xs \<subseteq> set (waiting ?s1)" "distinct xs" using Cons.prems(2,3) by auto
  ultimately obtain s' where s': "start_waiting xs ?s1 = Inr s'" "part s'" "rest s' = rest ?s1"
    "\<forall>y. map_of (metadata s') y = map_option (\<lambda>m. if y \<in> set xs \<and> 0 < em_remaining_credits m
       then m\<lparr>em_state := kEligible\<rparr> else m) (map_of (metadata ?s1) y)"
    using Cons.IH by blast
  have "map_of (metadata s') y = map_option (\<lambda>m. if y \<in> set (x # xs) \<and> 0 < em_remaining_credits m
       then m\<lparr>em_state := kEligible\<rparr> else m) (map_of (metadata s) y)" for y
    using s'(4) m Cons.prems(2) by (cases "y = x") (auto simp: omap_simps)
  with s'(1-3) m show ?case by (auto split: if_splits)
qed

lemma going_idle_spec:
  assumes "omap_ok (metadata s)" and "oset_ok (idle s)" and "\<forall>x \<in> set xs. map_of (metadata s) x \<noteq> None"
  shows "\<exists>s'. going_idle xs s = Inr s' \<and> rest s' = rest s \<and> omap_ok (metadata s') \<and> oset_ok (idle s') \<and>
    set (idle s') = set (idle s) \<union> set xs \<and> eligible s' = eligible s \<and> waiting s' = waiting s \<and>
    (\<forall>y. map_of (metadata s') y = map_option (\<lambda>m. if y \<in> set xs then m\<lparr>em_state := kIdle\<rparr> else m)
       (map_of (metadata s) y))"
  using assms
proof (induction xs arbitrary: s)
  case Nil
  then show ?case by (simp add: option.map_ident)
next
  case (Cons x xs)
  then obtain m where m: "map_of (metadata s) x = Some m" by auto
  let ?s1 = "s\<lparr>metadata := omap_put x (m\<lparr>em_state := kIdle\<rparr>) (metadata s), idle := oset_insert x (idle s)\<rparr>"
  have "omap_ok (metadata ?s1)" "oset_ok (idle ?s1)" "\<forall>y \<in> set xs. map_of (metadata ?s1) y \<noteq> None"
    using Cons.prems by (auto simp: omap_ok_put omap_simps)
  then obtain s' where s': "going_idle xs ?s1 = Inr s'" "rest s' = rest ?s1" "omap_ok (metadata s')"
    "oset_ok (idle s')" "set (idle s') = set (idle ?s1) \<union> set xs" "eligible s' = eligible ?s1"
    "waiting s' = waiting ?s1"
    "\<forall>y. map_of (metadata s') y = map_option (\<lambda>m. if y \<in> set xs then m\<lparr>em_state := kIdle\<rparr> else m)
       (map_of (metadata ?s1) y)"
    using Cons.IH [of ?s1] by blast
  have "map_of (metadata s') y = map_option (\<lambda>m. if y \<in> set (x # xs) then m\<lparr>em_state := kIdle\<rparr> else m)
       (map_of (metadata s) y)" for y
    using s'(8) m by (cases "y = x") (auto simp: omap_simps)
  with s' m show ?case by auto
qed

lemma retire_going_idle_spec:
  assumes "part s"
  shows "\<exists>s'. retire_going_idle s = Inr s' \<and> part s' \<and> rest s' = rest s \<and>
    (\<forall>y. map_of (metadata s') y = map_option (\<lambda>m. if em_state m = kWaitingGoingIdle
       then m\<lparr>em_state := kIdle\<rparr> else m) (map_of (metadata s) y))"
proof -
  have "\<forall>x \<in> set (waiting_going_idle s). map_of (metadata s) x \<noteq> None"
    using part_member(4) [OF assms] by (auto simp: st_of_def)
  then obtain s1 where s1: "going_idle (waiting_going_idle s) s = Inr s1" "rest s1 = rest s"
    "omap_ok (metadata s1)" "oset_ok (idle s1)" "set (idle s1) = set (idle s) \<union> set (waiting_going_idle s)"
    "eligible s1 = eligible s" "waiting s1 = waiting s"
    "\<forall>y. map_of (metadata s1) y = map_option (\<lambda>m. if y \<in> set (waiting_going_idle s)
       then m\<lparr>em_state := kIdle\<rparr> else m) (map_of (metadata s) y)"
    using going_idle_spec [of s "waiting_going_idle s"] assms by (auto simp: part_def)
  let ?s' = "s1\<lparr>waiting_going_idle := []\<rparr>"
  have md: "map_of (metadata s1) y = map_option (\<lambda>m. if em_state m = kWaitingGoingIdle
       then m\<lparr>em_state := kIdle\<rparr> else m) (map_of (metadata s) y)" for y
    using s1(8) part_member(4) [OF assms, of y] by (cases "map_of (metadata s) y") (auto simp: st_of_def)
  have "st_of ?s' y = (if st_of s y = Some kWaitingGoingIdle then Some kIdle else st_of s y)" for y
    using md [of y] by (cases "map_of (metadata s) y") (auto simp: st_of_def)
  then have "part ?s'"
    using assms s1(3-7) by (auto simp: part_def)
  with s1(1,2) md show ?thesis by (auto simp: retire_going_idle_def)
qed

lemma reset_eligible_spec:
  assumes "part s" and "distinct xs" and "set xs \<subseteq> set (eligible s)"
  shows "\<exists>s'. reset_eligible xs s = Inr s' \<and> part s' \<and> rest s' = rest s \<and>
    (\<forall>y. map_of (metadata s') y = map_option (\<lambda>m. if y \<in> set xs
       then (fresh_credits (global_round_number s) m)\<lparr>em_state := (if em_weight m \<le> 0 then kWaiting else kEligible)\<rparr> else m)
       (map_of (metadata s) y))"
  using assms
proof (induction xs arbitrary: s)
  case Nil
  then show ?case by (simp add: option.map_ident)
next
  case (Cons x xs)
  have e: "st_of s x = Some kEligible" using Cons.prems by (simp add: part_member)
  then obtain m where m: "map_of (metadata s) x = Some m" "em_state m = kEligible" by (auto simp: st_of_def)
  let ?s1 = "if em_weight m \<le> 0
      then s\<lparr>metadata := omap_put x ((fresh_credits (global_round_number s) m)\<lparr>em_state := kWaiting\<rparr>) (metadata s),
             waiting := oset_insert x (waiting s), eligible := oset_erase x (eligible s)\<rparr>
      else s\<lparr>metadata := omap_put x (fresh_credits (global_round_number s) m) (metadata s)\<rparr>"
  have "part ?s1"
    using part_eligible_to_wait [OF Cons.prems(1) e] part_update_metadata [OF Cons.prems(1) m(1), of "fresh_credits (global_round_number s) m"]
    by (simp add: fresh_credits_def)
  moreover have "set xs \<subseteq> set (eligible ?s1)" "distinct xs" using Cons.prems(2,3) by auto
  ultimately obtain s' where s': "reset_eligible xs ?s1 = Inr s'" "part s'" "rest s' = rest ?s1"
    "\<forall>y. map_of (metadata s') y = map_option (\<lambda>m. if y \<in> set xs
       then (fresh_credits (global_round_number ?s1) m)\<lparr>em_state := (if em_weight m \<le> 0 then kWaiting else kEligible)\<rparr> else m)
       (map_of (metadata ?s1) y)"
    using Cons.IH by blast
  have g: "global_round_number ?s1 = global_round_number s" by simp
  have "map_of (metadata s') y = map_option (\<lambda>m. if y \<in> set (x # xs)
       then (fresh_credits (global_round_number s) m)\<lparr>em_state := (if em_weight m \<le> 0 then kWaiting else kEligible)\<rparr> else m)
       (map_of (metadata s) y)" for y
    using s'(4) [unfolded g] m Cons.prems(2) by (cases "y = x") (auto simp: omap_simps fresh_credits_def)
  with s'(1-3) m show ?case by (auto split: if_splits)
qed

lemma reset_waiting_spec:
  assumes "part s" and "distinct xs" and "set xs \<subseteq> set (waiting s)"
  shows "\<exists>s'. reset_waiting xs s = Inr s' \<and> part s' \<and> rest s' = rest s \<and>
    (\<forall>y. map_of (metadata s') y = map_option (\<lambda>m. if y \<in> set xs
       then (fresh_credits (global_round_number s) m)\<lparr>em_state := (if 0 < em_weight m then kEligible else kWaiting)\<rparr> else m)
       (map_of (metadata s) y))"
  using assms
proof (induction xs arbitrary: s)
  case Nil
  then show ?case by (simp add: option.map_ident)
next
  case (Cons x xs)
  have w: "st_of s x = Some kWaiting" using Cons.prems by (simp add: part_member)
  then obtain m where m: "map_of (metadata s) x = Some m" "em_state m = kWaiting" by (auto simp: st_of_def)
  let ?s1 = "if 0 < em_weight m
      then s\<lparr>metadata := omap_put x ((fresh_credits (global_round_number s) m)\<lparr>em_state := kEligible\<rparr>) (metadata s),
             eligible := oset_insert x (eligible s), waiting := oset_erase x (waiting s)\<rparr>
      else s\<lparr>metadata := omap_put x (fresh_credits (global_round_number s) m) (metadata s)\<rparr>"
  have "part ?s1"
    using part_wait_to_eligible [OF Cons.prems(1) w] part_update_metadata [OF Cons.prems(1) m(1), of "fresh_credits (global_round_number s) m"]
    by (simp add: fresh_credits_def)
  moreover have "set xs \<subseteq> set (waiting ?s1)" "distinct xs" using Cons.prems(2,3) by auto
  ultimately obtain s' where s': "reset_waiting xs ?s1 = Inr s'" "part s'" "rest s' = rest ?s1"
    "\<forall>y. map_of (metadata s') y = map_option (\<lambda>m. if y \<in> set xs
       then (fresh_credits (global_round_number ?s1) m)\<lparr>em_state := (if 0 < em_weight m then kEligible else kWaiting)\<rparr> else m)
       (map_of (metadata ?s1) y)"
    using Cons.IH by blast
  have g: "global_round_number ?s1 = global_round_number s" by simp
  have "map_of (metadata s') y = map_option (\<lambda>m. if y \<in> set (x # xs)
       then (fresh_credits (global_round_number s) m)\<lparr>em_state := (if 0 < em_weight m then kEligible else kWaiting)\<rparr> else m)
       (map_of (metadata s) y)" for y
    using s'(4) [unfolded g] m Cons.prems(2) by (cases "y = x") (auto simp: omap_simps fresh_credits_def)
  with s'(1-3) m show ?case by (auto split: if_splits)
qed

section \<open>The invariant\<close>

definition fetcher_ok :: "('a \<Rightarrow> int) option \<Rightarrow> bool" where
  "fetcher_ok fetcher \<longleftrightarrow> (case fetcher of Some f \<Rightarrow> \<forall>x. 0 \<le> f x | None \<Rightarrow> True)"

definition entity_ok :: "entity_metadata \<Rightarrow> bool" where
  "entity_ok m \<longleftrightarrow> 0 \<le> em_remaining_credits m \<and> 0 \<le> em_weight m \<and>
     (em_state m = kEligible \<longrightarrow> 0 < em_remaining_credits m)"

definition wrr_ok :: "'a::linorder wrr \<Rightarrow> bool" where
  "wrr_ok s \<longleftrightarrow> part s \<and> (\<forall>x m. map_of (metadata s) x = Some m \<longrightarrow> entity_ok m) \<and>
     0 \<le> global_credits_remaining s \<and>
     ((\<exists>x. map_of (metadata s) x \<noteq> None) \<longrightarrow> last_serviced_entity s \<noteq> None)"

definition is_active :: "entity_metadata \<Rightarrow> bool" where
  "is_active m \<longleftrightarrow> em_state m = kEligible \<or> em_state m = kWaiting"

lemma IsActive_iff:
  "part s \<Longrightarrow> IsActive x s \<longleftrightarrow> (\<exists>m. map_of (metadata s) x = Some m \<and> is_active m)"
  by (auto simp: IsActive_def part_member st_of_def is_active_def)

text \<open>A state whose metadata is the image of another state's, entity by entity.\<close>

lemma wrr_ok_image:
  assumes "wrr_ok s" and "part s'" and "\<forall>y. map_of (metadata s') y = map_option (f y) (map_of (metadata s) y)"
    and "\<And>y m. map_of (metadata s) y = Some m \<Longrightarrow> entity_ok m \<Longrightarrow> entity_ok (f y m)"
    and "0 \<le> global_credits_remaining s'" and "last_serviced_entity s' = last_serviced_entity s"
  shows "wrr_ok s'"
  unfolding wrr_ok_def
proof (intro conjI allI impI)
  fix x m assume "map_of (metadata s') x = Some m"
  with assms(3) obtain m0 where "map_of (metadata s) x = Some m0" "m = f x m0" by auto
  with assms(1,4) show "entity_ok m" by (auto simp: wrr_ok_def)
next
  assume "\<exists>x. map_of (metadata s') x \<noteq> None"
  with assms(3) have "\<exists>x. map_of (metadata s) x \<noteq> None" by auto
  with assms(1,6) show "last_serviced_entity s' \<noteq> None" by (auto simp: wrr_ok_def)
qed (use assms(2,5) in auto)

lemma active_image:
  assumes "part s" and "part s'" and "\<forall>y. map_of (metadata s') y = map_option (f y) (map_of (metadata s) y)"
    and "\<And>m. is_active (f y m) = is_active m"
  shows "IsActive y s' = IsActive y s"
  using assms by (auto simp: IsActive_iff)

definition sub_round :: "entity_metadata \<Rightarrow> entity_metadata" where
  "sub_round m = (if em_state m = kWaiting \<and> 0 < em_remaining_credits m then m\<lparr>em_state := kEligible\<rparr>
     else if em_state m = kWaitingGoingIdle then m\<lparr>em_state := kIdle\<rparr> else m)"

lemma StartSubRound_spec:
  assumes "part s"
  shows "\<exists>s'. StartSubRound s = Inr s' \<and> part s' \<and> rest s' = rest s \<and>
    (\<forall>y. map_of (metadata s') y = map_option sub_round (map_of (metadata s) y))"
proof -
  have "distinct (waiting s)" using assms by (simp add: part_def oset_ok_distinct)
  then obtain s1 where s1: "start_waiting (waiting s) s = Inr s1" "part s1" "rest s1 = rest s"
    "\<forall>y. map_of (metadata s1) y = map_option (\<lambda>m. if y \<in> set (waiting s) \<and> 0 < em_remaining_credits m
       then m\<lparr>em_state := kEligible\<rparr> else m) (map_of (metadata s) y)"
    using start_waiting_spec [OF assms] by blast
  obtain s' where s': "retire_going_idle s1 = Inr s'" "part s'" "rest s' = rest s1"
    "\<forall>y. map_of (metadata s') y = map_option (\<lambda>m. if em_state m = kWaitingGoingIdle
       then m\<lparr>em_state := kIdle\<rparr> else m) (map_of (metadata s1) y)"
    using retire_going_idle_spec [OF s1(2)] by blast
  have "map_of (metadata s') y = map_option sub_round (map_of (metadata s) y)" for y
    using s1(4) s'(4) part_member(3) [OF assms, of y]
    by (cases "map_of (metadata s) y") (auto simp: sub_round_def st_of_def)
  with s1 s' show ?thesis by (auto simp: StartSubRound_def)
qed

definition fetched :: "('a \<Rightarrow> int) option \<Rightarrow> 'a \<Rightarrow> entity_metadata \<Rightarrow> entity_metadata" where
  "fetched fetcher x m = (case fetcher of Some f \<Rightarrow> m\<lparr>em_weight := f x\<rparr> | None \<Rightarrow> m)"

definition new_round :: "int \<Rightarrow> entity_metadata \<Rightarrow> entity_metadata" where
  "new_round round m =
     (if is_active m then (fresh_credits round m)\<lparr>em_state := (if 0 < em_weight m then kEligible else kWaiting)\<rparr>
      else if em_state m = kWaitingGoingIdle then m\<lparr>em_state := kIdle\<rparr> else m)"

lemma map_of_map_pair:
  "map_of (map (\<lambda>(x, m). (x, f x m)) xs) y = map_option (f y) (map_of xs y)"
  by (induction xs) auto

lemma fetch_weights_spec:
  assumes "part s"
  shows "part (fetch_weights fetcher s)"
    and "map_of (metadata (fetch_weights fetcher s)) y = map_option (fetched fetcher y) (map_of (metadata s) y)"
    and "global_round_number (fetch_weights fetcher s) = global_round_number s"
    and "batched (fetch_weights fetcher s) = batched s"
    and "enforce_order (fetch_weights fetcher s) = enforce_order s"
    and "last_serviced_entity (fetch_weights fetcher s) = last_serviced_entity s"
    and "map fst (metadata (fetch_weights fetcher s)) = map fst (metadata s)"
proof -
  have md: "map_of (metadata (fetch_weights fetcher s)) y = map_option (fetched fetcher y) (map_of (metadata s) y)" for y
    by (cases fetcher; cases "map_of (metadata s) y")
      (simp_all add: fetch_weights_def fetched_def Let_def map_of_map_pair)
  then show "map_of (metadata (fetch_weights fetcher s)) y = map_option (fetched fetcher y) (map_of (metadata s) y)" .
  show keys: "map fst (metadata (fetch_weights fetcher s)) = map fst (metadata s)"
    by (cases fetcher) (simp_all add: fetch_weights_def Let_def case_prod_unfold)
  have "st_of (fetch_weights fetcher s) x = st_of s x" for x
    using md [of x] by (cases "map_of (metadata s) x"; cases fetcher) (simp_all add: st_of_def fetched_def)
  moreover have "omap_ok (metadata (fetch_weights fetcher s))"
    using assms keys by (simp add: part_def omap_ok_def)
  moreover have "idle (fetch_weights fetcher s) = idle s" "eligible (fetch_weights fetcher s) = eligible s"
    "waiting (fetch_weights fetcher s) = waiting s"
    "waiting_going_idle (fetch_weights fetcher s) = waiting_going_idle s"
    by (cases fetcher; simp add: fetch_weights_def Let_def)+
  ultimately show "part (fetch_weights fetcher s)" using assms by (simp add: part_def)
qed (cases fetcher; simp add: fetch_weights_def Let_def)+

lemma Reset_spec:
  assumes "part s"
  shows "\<exists>s'. ResetAndRestartRound fetcher s = Inr s' \<and> part s' \<and>
    (\<forall>y. map_of (metadata s') y =
       map_option (new_round (global_round_number s + 1) \<circ> fetched fetcher y) (map_of (metadata s) y)) \<and>
    global_credits_remaining s' = global_credits_remaining (fetch_weights fetcher s) \<and>
    global_round_number s' = global_round_number s + 1 \<and> batched s' = batched s \<and>
    enforce_order s' = enforce_order s \<and> last_serviced_entity s' = last_serviced_entity s"
proof -
  let ?s1 = "fetch_weights fetcher s"
  let ?s2 = "?s1\<lparr>global_round_number := global_round_number ?s1 + 1\<rparr>"
  note fw = fetch_weights_spec [OF assms, of fetcher]
  have p2: "part ?s2" using fw(1) by (simp add: part_def st_of_def)
  have "distinct (eligible ?s2)" using p2 by (simp add: part_def oset_ok_distinct)
  then obtain s3 where s3: "reset_eligible (eligible ?s2) ?s2 = Inr s3" "part s3" "rest s3 = rest ?s2"
    "\<forall>y. map_of (metadata s3) y = map_option (\<lambda>m. if y \<in> set (eligible ?s2)
       then (fresh_credits (global_round_number ?s2) m)\<lparr>em_state := (if em_weight m \<le> 0 then kWaiting else kEligible)\<rparr>
       else m) (map_of (metadata ?s2) y)"
    using reset_eligible_spec [OF p2] by blast
  have "distinct (waiting s3)" using s3(2) by (simp add: part_def oset_ok_distinct)
  then obtain s4 where s4: "reset_waiting (waiting s3) s3 = Inr s4" "part s4" "rest s4 = rest s3"
    "\<forall>y. map_of (metadata s4) y = map_option (\<lambda>m. if y \<in> set (waiting s3)
       then (fresh_credits (global_round_number s3) m)\<lparr>em_state := (if 0 < em_weight m then kEligible else kWaiting)\<rparr>
       else m) (map_of (metadata s3) y)"
    using reset_waiting_spec [OF s3(2)] by blast
  obtain s' where s': "retire_going_idle s4 = Inr s'" "part s'" "rest s' = rest s4"
    "\<forall>y. map_of (metadata s') y = map_option (\<lambda>m. if em_state m = kWaitingGoingIdle
       then m\<lparr>em_state := kIdle\<rparr> else m) (map_of (metadata s4) y)"
    using retire_going_idle_spec [OF s4(2)] by blast
  have rn: "global_round_number s3 = global_round_number s + 1" using rest_fields(1) [OF s3(3)] fw(3) by simp
  have "map_of (metadata s') y = map_option (new_round (global_round_number s + 1)) (map_of (metadata ?s1) y)" for y
  proof (cases "map_of (metadata ?s1) y")
    case None
    then show ?thesis using s3(4) s4(4) s'(4) by simp
  next
    case (Some m)
    have e: "y \<in> set (eligible ?s2) \<longleftrightarrow> em_state m = kEligible"
      using part_member(2) [OF p2, of y] Some by (simp add: st_of_def)
    have m3: "map_of (metadata s3) y = Some (if em_state m = kEligible
       then (fresh_credits (global_round_number s + 1) m)\<lparr>em_state := (if em_weight m \<le> 0 then kWaiting else kEligible)\<rparr>
       else m)"
      using s3(4) Some e fw(3) by simp
    have w: "y \<in> set (waiting s3) \<longleftrightarrow> em_state m = kWaiting \<or> em_state m = kEligible \<and> em_weight m \<le> 0"
      using part_member(3) [OF s3(2), of y] m3 by (auto simp: st_of_def)
    show ?thesis
      using s4(4) s'(4) m3 w Some rn
      by (auto simp: new_round_def is_active_def fresh_credits_def)
  qed
  then have "\<forall>y. map_of (metadata s') y =
      map_option (new_round (global_round_number s + 1) \<circ> fetched fetcher y) (map_of (metadata s) y)"
    using fw(2) by (simp add: option.map_comp)
  moreover have "ResetAndRestartRound fetcher s = Inr s'"
    using s3(1) s4(1) s'(1) by (simp add: ResetAndRestartRound_def Let_def)
  moreover have "rest s' = rest ?s2" using s3(3) s4(3) s'(3) by simp
  ultimately show ?thesis using s'(2) fw by (auto simp: rest_def)
qed

section \<open>Serving an entity\<close>

definition credits_of :: "'a wrr \<Rightarrow> 'a \<Rightarrow> int" where
  "credits_of s x = (case map_of (metadata s) x of Some m \<Rightarrow> em_remaining_credits m | None \<Rightarrow> 0)"

definition weight_of :: "'a wrr \<Rightarrow> 'a \<Rightarrow> int" where
  "weight_of s x = (case map_of (metadata s) x of Some m \<Rightarrow> em_weight m | None \<Rightarrow> 0)"

definition round_weight :: "('a \<Rightarrow> int) option \<Rightarrow> 'a wrr \<Rightarrow> 'a \<Rightarrow> int" where
  "round_weight fetcher s x = (case fetcher of Some f \<Rightarrow> f x | None \<Rightarrow> weight_of s x)"

text \<open>What the round check and the restart have in common in the two queries.\<close>

definition refresh_round :: "('a::linorder \<Rightarrow> int) option \<Rightarrow> 'a wrr \<Rightarrow> 'a wrr res" where
  "refresh_round fetcher s = res_bind (IsRoundOver s) (\<lambda>(over, s1).
     if over then ResetAndRestartRound fetcher s1 else Inr s1)"

lemma entity_ok_sub_round: "entity_ok m \<Longrightarrow> entity_ok (sub_round m)"
  by (auto simp: entity_ok_def sub_round_def)

lemma active_sub_round [simp]: "is_active (sub_round m) = is_active m"
  by (auto simp: is_active_def sub_round_def)

lemma active_new_round [simp]: "is_active (new_round r m) = is_active m"
  by (auto simp: is_active_def new_round_def fresh_credits_def)

lemma active_fetched [simp]: "is_active (fetched fetcher x m) = is_active m"
  by (auto simp: is_active_def fetched_def split: option.splits)

lemma sub_round_fields [simp]:
  "em_remaining_credits (sub_round m) = em_remaining_credits m" "em_weight (sub_round m) = em_weight m"
  by (auto simp: sub_round_def)

lemma entity_ok_fetched: "fetcher_ok fetcher \<Longrightarrow> entity_ok m \<Longrightarrow> entity_ok (fetched fetcher x m)"
  by (auto simp: entity_ok_def fetched_def fetcher_ok_def split: option.splits)

lemma entity_ok_new_round: "entity_ok m \<Longrightarrow> entity_ok (new_round r m)"
  by (auto simp: entity_ok_def new_round_def fresh_credits_def)

lemma wrr_ok_part: "wrr_ok s \<Longrightarrow> part s"
  by (simp add: wrr_ok_def)

lemma eligible_iff:
  "part s \<Longrightarrow> x \<in> set (eligible s) \<longleftrightarrow> (\<exists>m. map_of (metadata s) x = Some m \<and> em_state m = kEligible)"
  by (auto simp: part_member st_of_def)

lemma eligible_Some:
  "part s \<Longrightarrow> map_of (metadata s) x = Some m \<Longrightarrow> x \<in> set (eligible s) \<longleftrightarrow> em_state m = kEligible"
  by (simp add: eligible_iff)

lemma waiting_iff:
  "part s \<Longrightarrow> x \<in> set (waiting s) \<longleftrightarrow> (\<exists>m. map_of (metadata s) x = Some m \<and> em_state m = kWaiting)"
  by (auto simp: part_member st_of_def)

definition entities :: "'a wrr \<Rightarrow> 'a set" where
  "entities s = dom (map_of (metadata s))"

text \<open>The entities stay, and their weights change only through the fetcher.\<close>

definition same_entities :: "('a \<Rightarrow> int) option \<Rightarrow> 'a wrr \<Rightarrow> 'a wrr \<Rightarrow> bool" where
  "same_entities fetcher s s' \<longleftrightarrow> entities s' = entities s \<and> (fetcher = None \<longrightarrow> weight_of s' = weight_of s)"

lemma same_entities_refl [simp]: "same_entities fetcher s s"
  by (simp add: same_entities_def)

lemma same_entities_trans:
  "same_entities fetcher s s1 \<Longrightarrow> same_entities fetcher s1 s2 \<Longrightarrow> same_entities fetcher s s2"
  by (simp add: same_entities_def)

lemma entities_image:
  "\<forall>y. map_of (metadata s') y = map_option (f y) (map_of (metadata s) y) \<Longrightarrow> entities s' = entities s"
  by (auto simp: entities_def dom_def)

lemma StartSubRound_ok:
  assumes "wrr_ok s"
  shows "\<exists>s'. StartSubRound s = Inr s' \<and> wrr_ok s' \<and> rest s' = rest s \<and>
    credits_of s' = credits_of s \<and> weight_of s' = weight_of s \<and> entities s' = entities s \<and>
    (\<forall>y. IsActive y s' = IsActive y s) \<and>
    (\<forall>y. IsActive y s \<and> 0 < credits_of s y \<longrightarrow> y \<in> set (eligible s'))"
proof -
  note p = wrr_ok_part [OF assms]
  obtain s' where s': "StartSubRound s = Inr s'" "part s'" "rest s' = rest s"
    "\<forall>y. map_of (metadata s') y = map_option sub_round (map_of (metadata s) y)"
    using StartSubRound_spec [OF p] by blast
  have "wrr_ok s'"
    by (rule wrr_ok_image [OF assms s'(2), of "\<lambda>_. sub_round"])
      (use assms s'(4) rest_fields [OF s'(3)] in \<open>auto simp: entity_ok_sub_round wrr_ok_def\<close>)
  moreover have "credits_of s' = credits_of s" "weight_of s' = weight_of s"
    using s'(4) by (auto simp: credits_of_def weight_of_def fun_eq_iff split: option.splits)
  moreover have "IsActive y s' = IsActive y s" for y
    by (rule active_image [OF p s'(2), of "\<lambda>_. sub_round"]) (use s'(4) in auto)
  moreover have "y \<in> set (eligible s')" if a: "IsActive y s" "0 < credits_of s y" for y
  proof -
    obtain m where m: "map_of (metadata s) y = Some m" "is_active m" using a(1) by (auto simp: IsActive_iff [OF p])
    then have "em_state (sub_round m) = kEligible"
      using a(2) by (auto simp: credits_of_def is_active_def sub_round_def)
    then show ?thesis using eligible_Some [OF s'(2), of y "sub_round m"] m(1) s'(4) by simp
  qed
  ultimately show ?thesis using s'(1,3) entities_image [OF s'(4)] by blast
qed

lemma IsRoundOver_ok:
  assumes "wrr_ok s"
  shows "\<exists>over s'. IsRoundOver s = Inr (over, s') \<and> wrr_ok s' \<and> rest s' = rest s \<and>
    credits_of s' = credits_of s \<and> weight_of s' = weight_of s \<and> entities s' = entities s \<and>
    (\<forall>y. IsActive y s' = IsActive y s) \<and>
    (\<not> over \<longrightarrow> 0 < global_credits_remaining s \<and> eligible s' \<noteq> []) \<and>
    (0 < global_credits_remaining s \<and> (\<exists>y. IsActive y s \<and> 0 < credits_of s y) \<longrightarrow> \<not> over)"
proof -
  obtain s' where s': "StartSubRound s = Inr s'" "wrr_ok s'" "rest s' = rest s"
    "credits_of s' = credits_of s" "weight_of s' = weight_of s" "entities s' = entities s"
    "\<forall>y. IsActive y s' = IsActive y s" "\<forall>y. IsActive y s \<and> 0 < credits_of s y \<longrightarrow> y \<in> set (eligible s')"
    using StartSubRound_ok [OF assms] by blast
  have g: "0 \<le> global_credits_remaining s" using assms by (simp add: wrr_ok_def)
  show ?thesis
  proof (cases "global_credits_remaining s = 0 \<or> eligible s \<noteq> [] \<or> waiting s = []")
    case True
    then show ?thesis using assms g by (auto simp: IsRoundOver_def IsActive_def)
  next
    case False
    then have "IsRoundOver s = Inr (eligible s' = [], s')" using s'(1) by (simp add: IsRoundOver_def)
    moreover have "0 < global_credits_remaining s" using False g by simp
    ultimately show ?thesis using s'(2-8) by auto
  qed
qed

lemma fetched_sum:
  assumes "wrr_ok s" and "fetcher_ok fetcher"
  shows "0 \<le> global_credits_remaining (fetch_weights fetcher s)"
    and "map_of (metadata s) y = Some m \<Longrightarrow> 0 < em_weight (fetched fetcher y m) \<Longrightarrow>
      0 < global_credits_remaining (fetch_weights fetcher s)"
proof -
  show "0 \<le> global_credits_remaining (fetch_weights fetcher s)"
    using assms(2) by (auto simp: fetch_weights_def fetcher_ok_def Let_def o_def case_prod_unfold
        intro!: sum_list_nonneg split: option.splits)
next
  assume m: "map_of (metadata s) y = Some m" and w: "0 < em_weight (fetched fetcher y m)"
  have mem: "(y, m) \<in> set (metadata s)" using m by (rule map_of_SomeD)
  show "0 < global_credits_remaining (fetch_weights fetcher s)"
  proof (cases fetcher)
    case None
    then show ?thesis using mem by (auto simp: fetch_weights_def)
  next
    case (Some f)
    have "f y \<le> (\<Sum>p\<leftarrow>metadata s. f (fst p))"
      using assms(2) Some mem by (intro member_le_sum_list) (force simp: fetcher_ok_def image_iff)+
    then show ?thesis using w Some by (simp add: fetch_weights_def fetched_def Let_def o_def case_prod_unfold)
  qed
qed

lemma Reset_ok:
  assumes "wrr_ok s" and "fetcher_ok fetcher"
  shows "\<exists>s'. ResetAndRestartRound fetcher s = Inr s' \<and> wrr_ok s' \<and> same_entities fetcher s s' \<and> (\<forall>y. IsActive y s' = IsActive y s) \<and>
    (\<forall>y. IsActive y s \<longrightarrow> credits_of s' y = round_weight fetcher s y \<and> weight_of s' y = round_weight fetcher s y \<and>
      (y \<in> set (eligible s') \<longleftrightarrow> 0 < round_weight fetcher s y)) \<and>
    global_credits_remaining s' = global_credits_remaining (fetch_weights fetcher s) \<and>
    (eligible s' \<noteq> [] \<longrightarrow> 0 < global_credits_remaining s') \<and> batched s' = batched s \<and>
    enforce_order s' = enforce_order s"
proof -
  note p = wrr_ok_part [OF assms(1)]
  let ?g = "\<lambda>y. new_round (global_round_number s + 1) \<circ> fetched fetcher y"
  obtain s' where s': "ResetAndRestartRound fetcher s = Inr s'" "part s'"
    "\<forall>y. map_of (metadata s') y = map_option (?g y) (map_of (metadata s) y)"
    "global_credits_remaining s' = global_credits_remaining (fetch_weights fetcher s)"
    "batched s' = batched s" "enforce_order s' = enforce_order s" "last_serviced_entity s' = last_serviced_entity s"
    using Reset_spec [OF p] by blast
  have ok: "wrr_ok s'"
    by (rule wrr_ok_image [OF assms(1) s'(2,3)])
      (use fetched_sum(1) [OF assms] s'(4,7) assms(2) in \<open>auto intro: entity_ok_new_round entity_ok_fetched\<close>)
  have act: "IsActive y s' = IsActive y s" for y
    by (rule active_image [OF p s'(2,3)]) simp
  have "credits_of s' y = round_weight fetcher s y \<and> weight_of s' y = round_weight fetcher s y \<and>
      (y \<in> set (eligible s') \<longleftrightarrow> 0 < round_weight fetcher s y)" if a: "IsActive y s" for y
  proof -
    obtain m where m: "map_of (metadata s) y = Some m" "is_active m" using a by (auto simp: IsActive_iff [OF p])
    then have m': "map_of (metadata s') y = Some (?g y m)" using s'(3) by simp
    have w: "em_weight (fetched fetcher y m) = round_weight fetcher s y"
      using m(1) by (simp add: fetched_def round_weight_def weight_of_def split: option.splits)
    have "?g y m = (fresh_credits (global_round_number s + 1) (fetched fetcher y m))
        \<lparr>em_state := (if 0 < round_weight fetcher s y then kEligible else kWaiting)\<rparr>"
      using m(2) w by (simp add: new_round_def)
    then show ?thesis
      using m' w eligible_Some [OF s'(2) m'] by (simp add: credits_of_def weight_of_def fresh_credits_def)
  qed
  moreover have "0 < global_credits_remaining s'" if e: "eligible s' \<noteq> []"
  proof -
    obtain y where "y \<in> set (eligible s')" using last_in_set [OF e] by blast
    then obtain m where m: "map_of (metadata s) y = Some m" "em_state (?g y m) = kEligible"
      using s'(3) by (auto simp: eligible_iff [OF s'(2)])
    then have "0 < em_weight (fetched fetcher y m)"
      by (auto simp: new_round_def is_active_def split: if_splits)
    then show ?thesis using fetched_sum(2) [OF assms m(1)] s'(4) by simp
  qed
  moreover have "same_entities fetcher s s'"
    using entities_image [OF s'(3)] s'(3)
    by (auto simp: same_entities_def weight_of_def fun_eq_iff new_round_def fetched_def fresh_credits_def
        split: option.splits)
  ultimately show ?thesis using s' ok act by blast
qed

lemma refresh_round_ok:
  assumes "wrr_ok s" and "fetcher_ok fetcher"
  shows "\<exists>s'. refresh_round fetcher s = Inr s' \<and> wrr_ok s' \<and> same_entities fetcher s s' \<and> (\<forall>y. IsActive y s' = IsActive y s) \<and>
    (eligible s' \<noteq> [] \<longrightarrow> 0 < global_credits_remaining s') \<and>
    (eligible s' = [] \<longrightarrow> (\<forall>y. IsActive y s \<longrightarrow> round_weight fetcher s y \<le> 0)) \<and>
    (0 < global_credits_remaining s \<and> (\<exists>y. IsActive y s \<and> 0 < credits_of s y) \<longrightarrow>
       credits_of s' = credits_of s \<and> global_credits_remaining s' = global_credits_remaining s \<and> eligible s' \<noteq> [])"
proof -
  obtain over s1 where s1: "IsRoundOver s = Inr (over, s1)" "wrr_ok s1" "rest s1 = rest s"
    "credits_of s1 = credits_of s" "weight_of s1 = weight_of s" "entities s1 = entities s"
    "\<forall>y. IsActive y s1 = IsActive y s"
    "\<not> over \<longrightarrow> 0 < global_credits_remaining s \<and> eligible s1 \<noteq> []"
    "0 < global_credits_remaining s \<and> (\<exists>y. IsActive y s \<and> 0 < credits_of s y) \<longrightarrow> \<not> over"
    using IsRoundOver_ok [OF assms(1)] by blast
  have e: "same_entities fetcher s s1" using s1(5,6) by (simp add: same_entities_def)
  show ?thesis
  proof (cases over)
    case False
    then show ?thesis using s1 e rest_fields(2) [OF s1(3)] by (auto simp: refresh_round_def)
  next
    case True
    obtain s2 where s2: "ResetAndRestartRound fetcher s1 = Inr s2" "wrr_ok s2" "same_entities fetcher s1 s2" "\<forall>y. IsActive y s2 = IsActive y s1"
      "\<forall>y. IsActive y s1 \<longrightarrow> (y \<in> set (eligible s2) \<longleftrightarrow> 0 < round_weight fetcher s1 y)"
      "eligible s2 \<noteq> [] \<longrightarrow> 0 < global_credits_remaining s2"
      using Reset_ok [OF s1(2) assms(2)] by blast
    have w: "round_weight fetcher s1 = round_weight fetcher s"
      using s1(5) by (simp add: round_weight_def fun_eq_iff split: option.splits)
    have "round_weight fetcher s y \<le> 0" if "eligible s2 = []" "IsActive y s" for y
      using s2(5) s1(7) w that by (force simp: not_less)
    then show ?thesis using s1 s2 True same_entities_trans [OF e s2(3)] by (auto simp: refresh_round_def)
  qed
qed

lemma pick_ok:
  assumes "wrr_ok s" and "eligible s \<noteq> []"
  shows "\<exists>x s'. pick s = Inr (x, s') \<and> x \<in> set (eligible s) \<and> wrr_ok s' \<and> eligible s' = eligible s \<and>
    waiting s' = waiting s \<and> metadata s' = metadata s \<and>
    global_credits_remaining s' = global_credits_remaining s"
proof -
  have h: "hd (eligible s) \<in> set (eligible s)" using assms(2) by simp
  have "\<exists>x. map_of (metadata s) x \<noteq> None"
    using h by (auto simp: eligible_iff [OF wrr_ok_part [OF assms(1)]])
  then obtain l where l: "last_serviced_entity s = Some l" using assms(1) by (auto simp: wrr_ok_def)
  have "wrr_ok (s\<lparr>last_serviced_entity := Some x\<rparr>)" for x
    using assms(1) by (simp add: wrr_ok_def part_def st_of_def)
  then show ?thesis
    using assms(1) l h by (auto simp: pick_def Let_def dest: upper_bound_in_set split: option.splits)
qed

lemma wrr_ok_put:
  assumes "wrr_ok s" and "part s'" and "metadata s' = omap_put x m (metadata s)" and "entity_ok m"
    and "0 \<le> global_credits_remaining s'" and "last_serviced_entity s' \<noteq> None"
  shows "wrr_ok s'"
  using assms by (simp add: wrr_ok_def omap_simps)

lemma serve_ok:
  assumes "wrr_ok s" and "x \<in> set (eligible s)" and "0 < global_credits_remaining s"
  shows "\<exists>s'. serve x s = Inr s' \<and> wrr_ok s' \<and> same_entities fetcher s s' \<and> credits_of s' = (credits_of s)(x := credits_of s x - 1) \<and>
    (\<forall>y. IsActive y s' = IsActive y s) \<and> global_credits_remaining s' = global_credits_remaining s - 1"
proof -
  note p = wrr_ok_part [OF assms(1)]
  obtain m where m: "map_of (metadata s) x = Some m" "em_state m = kEligible"
    using assms(2) by (auto simp: eligible_iff [OF p])
  have ok: "entity_ok m" using assms(1) m(1) by (auto simp: wrr_ok_def)
  have ls: "last_serviced_entity s \<noteq> None" using assms(1) m(1) by (auto simp: wrr_ok_def)
  let ?m1 = "m\<lparr>em_remaining_credits := em_remaining_credits m - 1\<rparr>"
  let ?s1 = "s\<lparr>global_credits_remaining := global_credits_remaining s - 1\<rparr>"
  have p1: "part ?s1" using p by (simp add: part_def st_of_def)
  define s' where "s' = (if \<not> batched s \<or> em_remaining_credits ?m1 = 0
    then ?s1\<lparr>eligible := oset_erase x (eligible s), waiting := oset_insert x (waiting s),
             metadata := omap_put x (?m1\<lparr>em_state := kWaiting\<rparr>) (metadata s)\<rparr>
    else ?s1\<lparr>metadata := omap_put x ?m1 (metadata s)\<rparr>)"
  have run: "serve x s = Inr s'"
    using m ok assms(3) by (simp add: serve_def s'_def entity_ok_def Let_def)
  have "part (?s1\<lparr>eligible := oset_erase x (eligible s), waiting := oset_insert x (waiting s),
             metadata := omap_put x (?m1\<lparr>em_state := kWaiting\<rparr>) (metadata s)\<rparr>)"
    using part_eligible_to_wait [OF p1, of x "?m1\<lparr>em_state := kWaiting\<rparr>"] m by (simp add: st_of_def part_def)
  moreover have "part (?s1\<lparr>metadata := omap_put x ?m1 (metadata s)\<rparr>)"
    using part_update_metadata [OF p1, of x m ?m1] m by simp
  ultimately have p': "part s'" by (simp add: s'_def)
  define m' where "m' = (if \<not> batched s \<or> em_remaining_credits ?m1 = 0 then ?m1\<lparr>em_state := kWaiting\<rparr> else ?m1)"
  have md: "metadata s' = omap_put x m' (metadata s)" by (simp add: s'_def m'_def)
  have em': "entity_ok m'" using ok m(2) by (auto simp: m'_def entity_ok_def)
  have "wrr_ok s'"
    by (rule wrr_ok_put [OF assms(1) p' md em']) (use assms(3) ls in \<open>auto simp: s'_def\<close>)
  moreover have "credits_of s' = (credits_of s)(x := credits_of s x - 1)"
    using m(1) by (auto simp: credits_of_def md omap_simps m'_def)
  moreover have "IsActive y s' = IsActive y s" for y
    using m by (simp add: IsActive_iff [OF p'] IsActive_iff [OF p] md omap_simps)
      (simp add: is_active_def m'_def)
  moreover have "global_credits_remaining s' = global_credits_remaining s - 1" by (simp add: s'_def)
  moreover have "same_entities fetcher s s'"
    using m(1) by (auto simp: same_entities_def entities_def weight_of_def md omap_simps m'_def fun_eq_iff)
  ultimately show ?thesis using run by blast
qed

lemma GetNextEntity_refresh:
  "GetNextEntity fetcher s =
     (if eligible s = [] \<and> waiting s = [] then Inr (Inl UnavailableError, s)
      else res_bind (refresh_round fetcher s) (\<lambda>s2.
           if eligible s2 = [] then Inr (Inl UnavailableError, s2)
           else res_bind (pick s2) (\<lambda>(x, s3). res_bind (serve x s3) (\<lambda>s4. Inr (Inr x, s4)))))"
  by (auto simp: GetNextEntity_def refresh_round_def res_bind_def split: sum.splits)

lemma HasWork_refresh:
  assumes "wrr_ok s"
  shows "HasWork fetcher s = res_bind (refresh_round fetcher s) (\<lambda>s2. Inr (eligible s2 \<noteq> [], s2))"
  using IsRoundOver_ok [OF assms] by (auto simp: HasWork_def refresh_round_def split: if_splits)

lemma GetNextEntity_ok:
  assumes "wrr_ok s" and "fetcher_ok fetcher"
  shows "\<exists>r s'. GetNextEntity fetcher s = Inr (r, s') \<and> wrr_ok s' \<and> same_entities fetcher s s' \<and>
    (\<forall>y. IsActive y s' = IsActive y s) \<and>
    (\<forall>e. r = Inl e \<longrightarrow> e = UnavailableError \<and> (\<forall>y. IsActive y s \<longrightarrow> round_weight fetcher s y \<le> 0)) \<and>
    (\<forall>x. r = Inr x \<longrightarrow> IsActive x s) \<and>
    (0 < global_credits_remaining s \<and> (\<exists>y. IsActive y s \<and> 0 < credits_of s y) \<longrightarrow>
       (\<exists>x. r = Inr x \<and> 0 < credits_of s x \<and> credits_of s' = (credits_of s)(x := credits_of s x - 1) \<and>
          global_credits_remaining s' = global_credits_remaining s - 1))"
proof (cases "eligible s = [] \<and> waiting s = []")
  case True
  then show ?thesis using assms(1) by (auto simp: GetNextEntity_def IsActive_def)
next
  case False
  obtain s2 where s2: "refresh_round fetcher s = Inr s2" "wrr_ok s2" "same_entities fetcher s s2" "\<forall>y. IsActive y s2 = IsActive y s"
    "eligible s2 \<noteq> [] \<longrightarrow> 0 < global_credits_remaining s2"
    "eligible s2 = [] \<longrightarrow> (\<forall>y. IsActive y s \<longrightarrow> round_weight fetcher s y \<le> 0)"
    "0 < global_credits_remaining s \<and> (\<exists>y. IsActive y s \<and> 0 < credits_of s y) \<longrightarrow>
       credits_of s2 = credits_of s \<and> global_credits_remaining s2 = global_credits_remaining s \<and> eligible s2 \<noteq> []"
    using refresh_round_ok [OF assms] by blast
  show ?thesis
  proof (cases "eligible s2 = []")
    case True
    then show ?thesis using False s2 by (auto simp: GetNextEntity_refresh)
  next
    case e: False
    obtain x s3 where s3: "pick s2 = Inr (x, s3)" "x \<in> set (eligible s2)" "wrr_ok s3" "eligible s3 = eligible s2"
      "waiting s3 = waiting s2" "metadata s3 = metadata s2" "global_credits_remaining s3 = global_credits_remaining s2"
      using pick_ok [OF s2(2) e] by blast
    have c3: "credits_of s3 = credits_of s2" using s3(6) by (simp add: credits_of_def fun_eq_iff)
    obtain s4 where s4: "serve x s3 = Inr s4" "wrr_ok s4" "same_entities fetcher s3 s4" "credits_of s4 = (credits_of s3)(x := credits_of s3 x - 1)"
      "\<forall>y. IsActive y s4 = IsActive y s3" "global_credits_remaining s4 = global_credits_remaining s3 - 1"
      using serve_ok [where x = x and fetcher = fetcher, OF s3(3)] s3(2,4,7) s2(5) e by auto
    have a3: "IsActive y s3 = IsActive y s" for y using s2(4) s3(4,5) by (simp add: IsActive_def)
    have "IsActive x s" using s3(2) s2(4) by (auto simp: IsActive_def)
    moreover have "0 < credits_of s2 x"
      using s3(2) s2(2) by (auto simp: eligible_iff [OF wrr_ok_part [OF s2(2)]] credits_of_def wrr_ok_def entity_ok_def)
    moreover have "GetNextEntity fetcher s = Inr (Inr x, s4)"
      using False e s2(1) s3(1) s4(1) by (auto simp: GetNextEntity_refresh)
    moreover have "weight_of s3 = weight_of s2" "entities s3 = entities s2"
      using s3(6) by (simp_all add: weight_of_def entities_def fun_eq_iff)
    then have "same_entities fetcher s s4" using s2(3) s4(3) by (simp add: same_entities_def)
    ultimately show ?thesis using s4(2,4-6) a3 c3 s2(7) s3(7) by auto
  qed
qed

text \<open>Taking \<open>n\<close> entities one after the other, as a scheduler does.\<close>

fun serves :: "('a::linorder \<Rightarrow> int) option \<Rightarrow> nat \<Rightarrow> 'a wrr \<Rightarrow> ('a list \<times> 'a wrr) res" where
  "serves fetcher 0 s = Inr ([], s)"
| "serves fetcher (Suc n) s = res_bind (GetNextEntity fetcher s) (\<lambda>(r, s').
     case r of Inl e \<Rightarrow> Inr ([], s')
     | Inr x \<Rightarrow> res_bind (serves fetcher n s') (\<lambda>(xs, s''). Inr (x # xs, s'')))"

definition actives :: "'a wrr \<Rightarrow> 'a set" where
  "actives s = {x. IsActive x s}"

lemma finite_actives [simp]: "finite (actives s)"
  by (rule finite_subset [of _ "set (eligible s) \<union> set (waiting s)"]) (auto simp: actives_def IsActive_def)

lemma credits_nonneg: "wrr_ok s \<Longrightarrow> 0 \<le> credits_of s y"
  by (auto simp: credits_of_def wrr_ok_def entity_ok_def split: option.splits)

lemma serves_credits:
  assumes "wrr_ok s" and "fetcher_ok fetcher" and "int n = (\<Sum>y\<in>actives s. credits_of s y)"
    and "int n \<le> global_credits_remaining s"
  shows "\<exists>xs s'. serves fetcher n s = Inr (xs, s') \<and> wrr_ok s' \<and> length xs = n \<and> actives s' = actives s \<and>
    (\<forall>y. int (count_list xs y) = (if IsActive y s then credits_of s y else 0))"
  using assms
proof (induction n arbitrary: s)
  case 0
  then have "\<forall>y \<in> actives s. credits_of s y = 0" by (simp add: sum_nonneg_eq_0_iff credits_nonneg)
  then show ?case using 0 by (auto simp: actives_def)
next
  case (Suc n)
  have "\<exists>y \<in> actives s. 0 < credits_of s y"
  proof (rule ccontr)
    assume "\<not> ?thesis"
    then have "(\<Sum>y\<in>actives s. credits_of s y) \<le> 0" by (intro sum_nonpos) (auto simp: not_less)
    then show False using Suc.prems(3) by simp
  qed
  then obtain x s' where x: "GetNextEntity fetcher s = Inr (Inr x, s')" "wrr_ok s'" "\<forall>y. IsActive y s' = IsActive y s"
    "IsActive x s" "0 < credits_of s x" "credits_of s' = (credits_of s)(x := credits_of s x - 1)"
    "global_credits_remaining s' = global_credits_remaining s - 1"
    using GetNextEntity_ok [OF Suc.prems(1,2)] Suc.prems(4) by (auto simp: actives_def)
  have a: "actives s' = actives s" using x(3) by (simp add: actives_def)
  have xa: "x \<in> actives s" using x(4) by (simp add: actives_def)
  have "(\<Sum>y\<in>actives s'. credits_of s' y) = (\<Sum>y\<in>actives s. credits_of s y) - 1"
    using xa by (simp add: a x(6) sum.remove [of "actives s" x])
  then obtain xs s'' where s'': "serves fetcher n s' = Inr (xs, s'')" "wrr_ok s''" "length xs = n" "actives s'' = actives s'"
    "\<forall>y. int (count_list xs y) = (if IsActive y s' then credits_of s' y else 0)"
    using Suc.IH [OF x(2) Suc.prems(2)] Suc.prems(3,4) x(7) by auto
  have "int (count_list (x # xs) y) = (if IsActive y s then credits_of s y else 0)" for y
    using s''(5) x(3,4,6) by (cases "y = x") simp_all
  then show ?case using x(1) s'' a by auto
qed

text \<open>The round's credits cover the active entities' weights.\<close>

lemma active_weight_sum:
  assumes "wrr_ok s" and "fetcher_ok fetcher" and "fetcher = None \<longrightarrow> (\<forall>y. weight_of s y \<le> 1)"
  shows "(\<Sum>y\<in>actives s. round_weight fetcher s y) \<le> global_credits_remaining (fetch_weights fetcher s)"
proof -
  let ?K = "set (map fst (metadata s))"
  have sub: "actives s \<subseteq> ?K"
    by (auto simp: actives_def IsActive_iff [OF wrr_ok_part [OF assms(1)]] dest!: map_of_SomeD intro: rev_image_eqI)
  have d: "distinct (map fst (metadata s))"
    using wrr_ok_part [OF assms(1)] by (simp add: part_def omap_ok_def strict_sorted_iff)
  show ?thesis
  proof (cases fetcher)
    case None
    have "(\<Sum>y\<in>actives s. weight_of s y) \<le> (\<Sum>y\<in>actives s. 1)" using assms(3) None by (intro sum_mono) simp
    also have "\<dots> \<le> int (card ?K)" using card_mono [OF _ sub] by simp
    also have "card ?K = length (metadata s)" using distinct_card [OF d] by simp
    finally show ?thesis using None by (simp add: round_weight_def fetch_weights_def)
  next
    case (Some f)
    have "(\<Sum>y\<in>?K. f y) = (\<Sum>p\<leftarrow>metadata s. f (fst p))"
      using sum_list_distinct_conv_sum_set [OF d, of f] by (simp add: o_def)
    moreover have "(\<Sum>y\<in>actives s. f y) \<le> (\<Sum>y\<in>?K. f y)"
      using sub assms(2) Some by (intro sum_mono2) (auto simp: fetcher_ok_def)
    ultimately show ?thesis
      using Some by (simp add: round_weight_def fetch_weights_def Let_def o_def case_prod_unfold)
  qed
qed

section \<open>The state changes\<close>

lemma InitializeEntity_ok:
  assumes "wrr_ok s" and "fetcher_ok fetcher"
  shows "wrr_ok (snd (InitializeEntity fetcher x s))"
proof (cases "map_of (metadata s) x")
  case None
  let ?m = "\<lparr>em_state = kIdle, em_weight = (case fetcher of Some f \<Rightarrow> f x | None \<Rightarrow> 1),
              em_remaining_credits = 0, em_round_number = - 1\<rparr>"
  have "part (snd (InitializeEntity fetcher x s))"
    using wrr_ok_part [OF assms(1)] None by (auto simp: InitializeEntity_def part_def omap_ok_put st_of_def omap_simps)
  moreover have "entity_ok ?m" using assms(2) by (auto simp: entity_ok_def fetcher_ok_def split: option.splits)
  moreover have "0 \<le> global_credits_remaining s" using assms(1) by (simp add: wrr_ok_def)
  ultimately show ?thesis
    using None by (intro wrr_ok_put [OF assms(1), of _ x ?m]) (simp_all add: InitializeEntity_def)
qed (use assms in \<open>simp add: InitializeEntity_def\<close>)

lemma DeleteEntity_ok:
  assumes "wrr_ok s"
  shows "wrr_ok (snd (DeleteEntity x s))"
proof (cases "map_of (metadata s) x")
  case None
  then show ?thesis using assms by (simp add: DeleteEntity_def)
next
  case (Some m)
  note p = wrr_ok_part [OF assms]
  have "snd (DeleteEntity x s) = s\<lparr>idle := oset_erase x (idle s), eligible := oset_erase x (eligible s),
      waiting := oset_erase x (waiting s), waiting_going_idle := oset_erase x (waiting_going_idle s),
      metadata := omap_erase x (metadata s)\<rparr>"
    using part_member [OF p, of x] Some
    by (cases "em_state m") (simp_all add: DeleteEntity_def st_of_def oset_erase_fresh)
  then have "part (snd (DeleteEntity x s))" using part_erase [OF p] by simp
  moreover have "metadata (snd (DeleteEntity x s)) = omap_erase x (metadata s)"
    "global_credits_remaining (snd (DeleteEntity x s)) = global_credits_remaining s"
    "last_serviced_entity (snd (DeleteEntity x s)) = last_serviced_entity s"
    using Some by (simp_all add: DeleteEntity_def Let_def split: entity_state.splits)
  ultimately show ?thesis using assms by (auto simp: wrr_ok_def omap_simps split: if_splits)
qed

lemma MarkEntityActive_ok:
  assumes "wrr_ok s" and "MarkEntityActive x s = Inr (b, s')"
  shows "wrr_ok s' \<and> same_entities fetcher s s' \<and> actives s' = insert x (actives s) \<and> (b \<longleftrightarrow> \<not> IsActive x s)"
proof -
  note p = wrr_ok_part [OF assms(1)]
  obtain m where m: "map_of (metadata s) x = Some m" using assms(2) by (auto simp: MarkEntityActive_def split: option.splits)
  have act: "IsActive x s \<longleftrightarrow> is_active m" using m by (simp add: IsActive_iff [OF p])
  have ok: "entity_ok m" "last_serviced_entity s \<noteq> None" using assms(1) m by (auto simp: wrr_ok_def)
  show ?thesis
  proof (cases "is_active m")
    case True
    then show ?thesis using assms m act by (auto simp: MarkEntityActive_def is_active_def actives_def)
  next
    case False
    then have st: "em_state m = kIdle \<or> em_state m = kWaitingGoingIdle" by (cases "em_state m") (auto simp: is_active_def)
    have p': "part s'" using st assms(2) m part_idle_to_active [OF p, of x] part_going_idle_to_wait [OF p, of x]
      by (auto simp: MarkEntityActive_def st_of_def Let_def split: if_splits)
    obtain m' where m': "metadata s' = omap_put x m' (metadata s)" "entity_ok m'" "is_active m'"
      "global_credits_remaining s' = global_credits_remaining s" "last_serviced_entity s' = last_serviced_entity s" "b"
      "em_weight m' = em_weight m"
      using st assms(2) m ok(1)
      by (auto simp: MarkEntityActive_def Let_def entity_ok_def is_active_def split: if_splits)
    have "wrr_ok s'"
      by (rule wrr_ok_put [OF assms(1) p' m'(1,2)]) (use m' ok assms(1) in \<open>auto simp: wrr_ok_def\<close>)
    moreover have "same_entities fetcher s s'"
      using m m' by (auto simp: same_entities_def entities_def weight_of_def omap_simps fun_eq_iff)
    ultimately show ?thesis
      using m m' False by (auto simp: actives_def IsActive_iff [OF p'] IsActive_iff [OF p] omap_simps)
  qed
qed

lemma MarkEntityInactive_ok:
  assumes "wrr_ok s" and "MarkEntityInactive x s = Inr (b, s')"
  shows "wrr_ok s' \<and> same_entities fetcher s s' \<and> actives s' = actives s - {x} \<and> (b \<longleftrightarrow> IsActive x s)"
proof -
  note p = wrr_ok_part [OF assms(1)]
  obtain m where m: "map_of (metadata s) x = Some m" using assms(2) by (auto simp: MarkEntityInactive_def split: option.splits)
  have act: "IsActive x s \<longleftrightarrow> is_active m" using m by (simp add: IsActive_iff [OF p])
  have ok: "entity_ok m" "last_serviced_entity s \<noteq> None" using assms(1) m by (auto simp: wrr_ok_def)
  show ?thesis
  proof (cases "is_active m")
    case False
    then have st: "em_state m = kIdle \<or> em_state m = kWaitingGoingIdle" by (cases "em_state m") (auto simp: is_active_def)
    then show ?thesis using assms m False act by (auto simp: MarkEntityInactive_def actives_def)
  next
    case True
    have p': "part s'" using assms(2) m True part_eligible_to_idle [OF p, of x] part_wait_to_going_idle [OF p, of x]
      by (auto simp: MarkEntityInactive_def is_active_def st_of_def)
    obtain m' where m': "metadata s' = omap_put x m' (metadata s)" "entity_ok m'" "\<not> is_active m'"
      "global_credits_remaining s' = global_credits_remaining s" "last_serviced_entity s' = last_serviced_entity s" "b"
      "em_weight m' = em_weight m"
      using True assms(2) m ok(1)
      by (auto simp: MarkEntityInactive_def entity_ok_def is_active_def split: if_splits)
    have "wrr_ok s'"
      by (rule wrr_ok_put [OF assms(1) p' m'(1,2)]) (use m' ok assms(1) in \<open>auto simp: wrr_ok_def\<close>)
    moreover have "same_entities fetcher s s'"
      using m m' by (auto simp: same_entities_def entities_def weight_of_def omap_simps fun_eq_iff)
    ultimately show ?thesis
      using m m' True by (auto simp: actives_def IsActive_iff [OF p'] IsActive_iff [OF p] omap_simps)
  qed
qed

lemma Mark_returns:
  assumes "x \<in> entities s"
  shows "\<exists>b s'. MarkEntityActive x s = Inr (b, s')" and "\<exists>b s'. MarkEntityInactive x s = Inr (b, s')"
  using assms by (auto simp: entities_def MarkEntityActive_def MarkEntityInactive_def Let_def)

lemma HasWork_ok:
  assumes "wrr_ok s" and "fetcher_ok fetcher"
  shows "\<exists>b s'. HasWork fetcher s = Inr (b, s') \<and> wrr_ok s' \<and> same_entities fetcher s s' \<and>
    (\<forall>y. IsActive y s' = IsActive y s) \<and> (b \<longrightarrow> eligible s' \<noteq> [] \<and> 0 < global_credits_remaining s') \<and>
    (\<not> b \<longrightarrow> (\<forall>y. IsActive y s \<longrightarrow> round_weight fetcher s y \<le> 0))"
  using refresh_round_ok [OF assms] by (auto simp: HasWork_refresh [OF assms(1)])

text \<open>A credited entity in the eligible set is served next.\<close>

lemma next_of_eligible:
  assumes "wrr_ok s" and "fetcher_ok fetcher" and "eligible s \<noteq> []" and "0 < global_credits_remaining s"
  shows "\<exists>x s'. GetNextEntity fetcher s = Inr (Inr x, s') \<and> IsActive x s"
proof -
  have h: "hd (eligible s) \<in> set (eligible s)" using assms(3) by simp
  then have "IsActive (hd (eligible s)) s" by (simp add: IsActive_def)
  moreover have "0 < credits_of s (hd (eligible s))"
    using h assms(1) by (auto simp: eligible_iff [OF wrr_ok_part [OF assms(1)]] credits_of_def wrr_ok_def entity_ok_def)
  ultimately show ?thesis using GetNextEntity_ok [OF assms(1,2)] assms(4) by blast
qed

section \<open>Reachable policies\<close>

text \<open>Every public operation, with whatever weights the fetcher reports at the time of the call.\<close>

inductive wrr_step :: "'a::linorder wrr \<Rightarrow> 'a wrr \<Rightarrow> bool" where
  init: "fetcher_ok fetcher \<Longrightarrow> InitializeEntity fetcher x s = (st, s') \<Longrightarrow> wrr_step s s'"
| delete: "DeleteEntity x s = (st, s') \<Longrightarrow> wrr_step s s'"
| active: "MarkEntityActive x s = Inr (b, s') \<Longrightarrow> wrr_step s s'"
| inactive: "MarkEntityInactive x s = Inr (b, s') \<Longrightarrow> wrr_step s s'"
| next_entity: "fetcher_ok fetcher \<Longrightarrow> GetNextEntity fetcher s = Inr (r, s') \<Longrightarrow> wrr_step s s'"
| has_work: "fetcher_ok fetcher \<Longrightarrow> HasWork fetcher s = Inr (b, s') \<Longrightarrow> wrr_step s s'"
| reset: "fetcher_ok fetcher \<Longrightarrow> ResetAndRestartRound fetcher s = Inr s' \<Longrightarrow> wrr_step s s'"

definition wrr_reach :: "'a::linorder wrr \<Rightarrow> bool" where
  "wrr_reach s \<longleftrightarrow> (\<exists>b e. wrr_step\<^sup>*\<^sup>* (wrr_new b e) s)"

lemma wrr_ok_new: "wrr_ok (wrr_new b e)"
  by (simp add: wrr_ok_def wrr_new_def part_def st_of_def)

lemma wrr_step_ok: "wrr_step s s' \<Longrightarrow> wrr_ok s \<Longrightarrow> wrr_ok s'"
proof (induction rule: wrr_step.induct)
  case (init fetcher x s st s')
  then show ?case using InitializeEntity_ok [of s fetcher x] by simp
next
  case (delete x s st s')
  then show ?case using DeleteEntity_ok [of s x] by simp
next
  case (active x s b s')
  then show ?case using MarkEntityActive_ok by blast
next
  case (inactive x s b s')
  then show ?case using MarkEntityInactive_ok by blast
next
  case (next_entity fetcher s r s')
  then show ?case using GetNextEntity_ok [of s fetcher] by auto
next
  case (has_work fetcher s b s')
  then show ?case using HasWork_ok [of s fetcher] by auto
next
  case (reset fetcher s s')
  then show ?case using Reset_ok [of s fetcher] by auto
qed

lemma wrr_reach_ok:
  assumes "wrr_reach s"
  shows "wrr_ok s"
proof -
  obtain b e where "wrr_step\<^sup>*\<^sup>* (wrr_new b e) s" using assms by (auto simp: wrr_reach_def)
  then show ?thesis by (induction rule: rtranclp_induct) (auto intro: wrr_step_ok wrr_ok_new)
qed

lemma part_sanity:
  assumes "part s"
  shows "SanityCheckForTesting s = Inr ()"
proof -
  have "st_of s x = Some (em_state m)" if "(x, m) \<in> set (metadata s)" for x m
  proof -
    have "distinct (map fst (metadata s))" using assms by (simp add: part_def omap_ok_def strict_sorted_iff)
    then show ?thesis using that by (simp add: st_of_def)
  qed
  then show ?thesis
    using part_member [OF assms]
    by (auto simp: SanityCheckForTesting_def list_all_iff Let_def split: entity_state.splits)
qed

section \<open>The policy as its clients see it\<close>

text \<open>
  What a scheduler relies on: switching entities on and off, being handed one that is on
  whenever there is one, and an exact answer about work.
\<close>

locale work_policy =
  fixes ok :: "'s \<Rightarrow> bool"
    and known :: "'s \<Rightarrow> 'a set"
    and act :: "'s \<Rightarrow> 'a set"
    and on :: "'a \<Rightarrow> 's \<Rightarrow> (bool \<times> 's) res"
    and off :: "'a \<Rightarrow> 's \<Rightarrow> (bool \<times> 's) res"
    and next_entity :: "'s \<Rightarrow> ((status + 'a) \<times> 's) res"
    and has_work :: "'s \<Rightarrow> (bool \<times> 's) res"
  assumes on_law: "ok s \<Longrightarrow> x \<in> known s \<Longrightarrow>
      \<exists>b s'. on x s = Inr (b, s') \<and> ok s' \<and> known s' = known s \<and> act s' = insert x (act s)"
    and off_law: "ok s \<Longrightarrow> x \<in> known s \<Longrightarrow>
      \<exists>b s'. off x s = Inr (b, s') \<and> ok s' \<and> known s' = known s \<and> act s' = act s - {x}"
    and next_law: "ok s \<Longrightarrow> \<exists>r s'. next_entity s = Inr (r, s') \<and> ok s' \<and> known s' = known s \<and>
      act s' = act s \<and> (case r of Inr x \<Rightarrow> x \<in> act s | Inl e \<Rightarrow> act s = {})"
    and work_law: "ok s \<Longrightarrow> \<exists>s'. has_work s = Inr (act s \<noteq> {}, s') \<and> ok s' \<and> known s' = known s \<and> act s' = act s"
begin

text \<open>Switching an entity to what a condition says, as clients do after their state changed.\<close>

lemma on_if:
  assumes "ok s" and "x \<in> known s"
  shows "\<exists>s'. (if c then res_bind (on x s) (\<lambda>(_, s1). Inr s1) else Inr s) = Inr s' \<and> ok s' \<and>
    known s' = known s \<and> act s' = (if c then insert x (act s) else act s)"
  using assms on_law [of s x] by auto

lemma off_if:
  assumes "ok s" and "x \<in> known s"
  shows "\<exists>s'. (if c then res_bind (off x s) (\<lambda>(_, s1). Inr s1) else Inr s) = Inr s' \<and> ok s' \<and>
    known s' = known s \<and> act s' = (if c then act s - {x} else act s)"
  using assms off_law [of s x] by auto

lemma next_cases:
  assumes "ok s"
  obtains (none) e s' where "next_entity s = Inr (Inl e, s')" "ok s'" "known s' = known s" "act s' = act s" "act s = {}"
    | (one) x s' where "next_entity s = Inr (Inr x, s')" "ok s'" "known s' = known s" "act s' = act s" "x \<in> act s"
proof -
  obtain r s' where r: "next_entity s = Inr (r, s')" "ok s'" "known s' = known s" "act s' = act s"
    "case r of Inr x \<Rightarrow> x \<in> act s | Inl e \<Rightarrow> act s = {}"
    using next_law [OF assms] by blast
  then show thesis using none one by (cases r) auto
qed

text \<open>A yes from \<open>has_work\<close> is honoured by the next call.\<close>

lemma work_then_next:
  assumes "ok s" and "act s \<noteq> {}"
  shows "\<exists>s1 x s2. has_work s = Inr (True, s1) \<and> next_entity s1 = Inr (Inr x, s2) \<and> x \<in> act s"
proof -
  obtain s1 where s1: "has_work s = Inr (True, s1)" "ok s1" "act s1 = act s" using work_law [OF assms(1)] assms(2) by auto
  show ?thesis by (rule next_cases [OF s1(2)]) (use s1 assms(2) in auto)
qed

end

text \<open>The plain round-robin instance: a null fetcher and unit weights.\<close>

definition vanilla_ok :: "'a::linorder wrr \<Rightarrow> bool" where
  "vanilla_ok s \<longleftrightarrow> wrr_ok s \<and> (\<forall>x \<in> entities s. weight_of s x = 1)"

lemma vanilla_same:
  "vanilla_ok s \<Longrightarrow> wrr_ok s' \<Longrightarrow> same_entities None s s' \<Longrightarrow> vanilla_ok s'"
  by (simp add: vanilla_ok_def same_entities_def)

lemma active_entity: "wrr_ok s \<Longrightarrow> actives s \<subseteq> entities s"
  by (auto simp: actives_def entities_def IsActive_iff [OF wrr_ok_part])

lemma vanilla_weight:
  "vanilla_ok s \<Longrightarrow> \<forall>y. IsActive y s \<longrightarrow> round_weight None s y \<le> 0 \<Longrightarrow> actives s = {}"
  using active_entity [of s] by (fastforce simp: vanilla_ok_def round_weight_def actives_def)

interpretation rr: work_policy vanilla_ok entities actives MarkEntityActive MarkEntityInactive
  "GetNextEntity None" "HasWork None"
proof
  fix s :: "'a::linorder wrr" and x
  assume s: "vanilla_ok s" "x \<in> entities s"
  then have w: "wrr_ok s" by (simp add: vanilla_ok_def)
  obtain b s' where b: "MarkEntityActive x s = Inr (b, s')" using Mark_returns(1) [OF s(2)] by blast
  note a = MarkEntityActive_ok [OF w b, of None]
  show "\<exists>b s'. MarkEntityActive x s = Inr (b, s') \<and> vanilla_ok s' \<and> entities s' = entities s \<and> actives s' = insert x (actives s)"
    using a b vanilla_same [OF s(1)] by (auto simp: same_entities_def)
  obtain c s'' where c: "MarkEntityInactive x s = Inr (c, s'')" using Mark_returns(2) [OF s(2)] by blast
  note a = MarkEntityInactive_ok [OF w c, of None]
  show "\<exists>b s'. MarkEntityInactive x s = Inr (b, s') \<and> vanilla_ok s' \<and> entities s' = entities s \<and> actives s' = actives s - {x}"
    using a c vanilla_same [OF s(1)] by (auto simp: same_entities_def)
next
  fix s :: "'a::linorder wrr"
  assume s: "vanilla_ok s"
  then have w: "wrr_ok s" "fetcher_ok None" by (simp_all add: vanilla_ok_def fetcher_ok_def)
  obtain r s' where r: "GetNextEntity None s = Inr (r, s')" "wrr_ok s'" "same_entities None s s'"
    "\<forall>y. IsActive y s' = IsActive y s" "\<forall>e. r = Inl e \<longrightarrow> e = UnavailableError \<and> (\<forall>y. IsActive y s \<longrightarrow> round_weight None s y \<le> 0)"
    "\<forall>x. r = Inr x \<longrightarrow> IsActive x s"
    using GetNextEntity_ok [OF w] by (elim exE conjE)
  have "case r of Inr x \<Rightarrow> x \<in> actives s | Inl e \<Rightarrow> actives s = {}"
    using r(5,6) vanilla_weight [OF s] by (cases r) (auto simp: actives_def)
  then show "\<exists>r s'. GetNextEntity None s = Inr (r, s') \<and> vanilla_ok s' \<and> entities s' = entities s \<and> actives s' = actives s \<and>
      (case r of Inr x \<Rightarrow> x \<in> actives s | Inl e \<Rightarrow> actives s = {})"
    using r vanilla_same [OF s r(2,3)] by (auto simp: same_entities_def actives_def)
  obtain b s'' where b: "HasWork None s = Inr (b, s'')" "wrr_ok s''" "same_entities None s s''"
    "\<forall>y. IsActive y s'' = IsActive y s" "b \<longrightarrow> eligible s'' \<noteq> []"
    "\<not> b \<longrightarrow> (\<forall>y. IsActive y s \<longrightarrow> round_weight None s y \<le> 0)"
    using HasWork_ok [OF w] by blast
  have "actives s'' = actives s" using b(4) by (simp add: actives_def)
  moreover have "actives s'' \<noteq> {}" if "b" using b(5) that by (cases "eligible s''") (auto simp: actives_def IsActive_def)
  moreover have "actives s = {}" if "\<not> b" using b(6) that vanilla_weight [OF s] by blast
  ultimately show "\<exists>s'. HasWork None s = Inr (actives s \<noteq> {}, s') \<and> vanilla_ok s' \<and> entities s' = entities s \<and> actives s' = actives s"
    using b vanilla_same [OF s b(2,3)] by (cases b) (auto simp: same_entities_def)
qed

lemma vanilla_new: "vanilla_ok (wrr_new b e)" "entities (wrr_new b e) = {}" "actives (wrr_new b e) = {}"
  by (simp_all add: vanilla_ok_def wrr_ok_new entities_def actives_def IsActive_def) (simp_all add: wrr_new_def)

lemma vanilla_init:
  assumes "vanilla_ok s" and "x \<notin> entities s"
  shows "\<exists>s'. InitializeEntity None x s = (OkStatus, s') \<and> vanilla_ok s' \<and> entities s' = insert x (entities s) \<and>
    actives s' = actives s"
proof -
  have n: "map_of (metadata s) x = None" using assms(2) by (auto simp: entities_def)
  obtain s' where s': "InitializeEntity None x s = (OkStatus, s')" "eligible s' = eligible s" "waiting s' = waiting s"
    "map_of (metadata s') = (map_of (metadata s))(x \<mapsto>
       \<lparr>em_state = kIdle, em_weight = 1, em_remaining_credits = 0, em_round_number = - 1\<rparr>)"
    using n by (simp add: InitializeEntity_def omap_simps)
  have "wrr_ok s'" using InitializeEntity_ok [of s None x] assms(1) s'(1) by (simp add: vanilla_ok_def fetcher_ok_def)
  moreover have "weight_of s' y = 1" if "y \<in> insert x (entities s)" for y
    using that s'(4) assms(1) by (auto simp: weight_of_def vanilla_ok_def entities_def)
  moreover have "entities s' = insert x (entities s)" using s'(4) by (auto simp: entities_def)
  moreover have "actives s' = actives s" using s'(2,3) by (simp add: actives_def IsActive_def)
  ultimately show ?thesis using s'(1) by (simp add: vanilla_ok_def)
qed

text \<open>A policy over two entities of weights one and two, both active.\<close>

definition example_wrr :: "nat wrr" where
  "example_wrr =
     (let s0 = wrr_new False True; s1 = snd (InitializeEntity (Some int) 1 s0);
          s2 = snd (InitializeEntity (Some int) 2 s1)
      in case res_bind (MarkEntityActive 1 s2) (\<lambda>(_, s3). MarkEntityActive 2 s3) of
           Inr (_, s) \<Rightarrow> s | Inl _ \<Rightarrow> s2)"

lemmas wrr_eval = example_wrr_def wrr_new_def InitializeEntity_def MarkEntityActive_def omap_simps Let_def

lemma example_wrr_reach: "wrr_reach example_wrr"
proof -
  let ?s1 = "snd (InitializeEntity (Some int) 1 (wrr_new False True)) :: nat wrr"
  let ?s2 = "snd (InitializeEntity (Some int) 2 ?s1)"
  have f: "fetcher_ok (Some int)" by (simp add: fetcher_ok_def)
  have "wrr_step (wrr_new False True) ?s1" by (rule wrr_step.init [OF f, of 1 _ OkStatus]) (simp add: wrr_eval)
  moreover have "wrr_step ?s1 ?s2" by (rule wrr_step.init [OF f, of 2 _ OkStatus]) (simp add: wrr_eval)
  moreover obtain s3 where s3: "MarkEntityActive 1 ?s2 = Inr (True, s3)" "MarkEntityActive 2 s3 = Inr (True, example_wrr)"
    by (simp add: wrr_eval)
  ultimately show ?thesis
    using wrr_step.active [OF s3(1)] wrr_step.active [OF s3(2)] unfolding wrr_reach_def
    by (meson rtranclp.rtrancl_into_rtrancl rtranclp.rtrancl_refl)
qed

section \<open>Properties\<close>



text \<open>\<open>HasWork\<close> is exact: when it says yes, the very next \<open>GetNextEntity\<close> returns an
  active entity; when it says no, no active entity has a positive weight.\<close>

theorem HasWork_exact:
  assumes "wrr_reach s" and "fetcher_ok fetcher"
  shows "\<exists>b s1. HasWork fetcher s = Inr (b, s1) \<and>
    (if b then \<exists>x s2. GetNextEntity fetcher s1 = Inr (Inr x, s2) \<and> IsActive x s
     else \<forall>y. \<not> (IsActive y s \<and> 0 < round_weight fetcher s y))"
proof -
  have ok: "wrr_ok s" using assms(1) by (rule wrr_reach_ok)
  obtain b s1 where s1: "HasWork fetcher s = Inr (b, s1)" "wrr_ok s1" "\<forall>y. IsActive y s1 = IsActive y s"
    "b \<longrightarrow> eligible s1 \<noteq> [] \<and> 0 < global_credits_remaining s1"
    "\<not> b \<longrightarrow> (\<forall>y. IsActive y s \<longrightarrow> round_weight fetcher s y \<le> 0)"
    using HasWork_ok [OF ok assms(2)] by blast
  show ?thesis
  proof (cases b)
    case True
    then show ?thesis using s1 next_of_eligible [OF s1(2) assms(2)] by auto
  next
    case False
    then show ?thesis using s1(1,5) by (auto simp: not_less)
  qed
qed

theorem HasWork_exact_witness:
  "\<exists>b s1. HasWork (Some int) example_wrr = Inr (b, s1) \<and>
    (if b then \<exists>x s2. GetNextEntity (Some int) s1 = Inr (Inr x, s2) \<and> IsActive x example_wrr
     else \<forall>y. \<not> (IsActive y example_wrr \<and> 0 < round_weight (Some int) example_wrr y))"
  by (rule HasWork_exact [OF example_wrr_reach]) (simp add: fetcher_ok_def)

text \<open>C24. Weighted fairness, whatever the batching and ordering options: in a fresh round, as many
  calls as the active entities' weights add up to serve every active entity exactly as
  often as its weight, and nobody else.\<close>

theorem wrr_round_fair:
  assumes "wrr_reach s" and "fetcher_ok fetcher" and "ResetAndRestartRound fetcher s = Inr s'"
    and "n = nat (\<Sum>y\<in>actives s. round_weight fetcher s y)"
    and "fetcher = None \<longrightarrow> (\<forall>y. weight_of s y \<le> 1)"
  shows "\<exists>xs s''. serves fetcher n s' = Inr (xs, s'') \<and> length xs = n \<and>
    (\<forall>y. int (count_list xs y) = (if IsActive y s then round_weight fetcher s y else 0))"
proof -
  have ok: "wrr_ok s" using assms(1) by (rule wrr_reach_ok)
  have s': "wrr_ok s'" "\<forall>y. IsActive y s' = IsActive y s"
    "\<forall>y. IsActive y s \<longrightarrow> credits_of s' y = round_weight fetcher s y"
    "global_credits_remaining s' = global_credits_remaining (fetch_weights fetcher s)"
    using Reset_ok [OF ok assms(2)] assms(3) by auto
  have a: "actives s' = actives s" using s'(2) by (simp add: actives_def)
  have sum: "(\<Sum>y\<in>actives s'. credits_of s' y) = (\<Sum>y\<in>actives s. round_weight fetcher s y)"
    unfolding a by (rule sum.cong) (use s'(3) in \<open>auto simp: actives_def\<close>)
  have n: "int n = (\<Sum>y\<in>actives s'. credits_of s' y)"
    using assms(4) sum sum_nonneg [of "actives s'" "credits_of s'"] credits_nonneg [OF s'(1)] by simp
  have "int n \<le> global_credits_remaining s'"
    using n sum active_weight_sum [OF ok assms(2,5)] s'(4) by simp
  then obtain xs s'' where xs: "serves fetcher n s' = Inr (xs, s'')" "length xs = n"
    "\<forall>y. int (count_list xs y) = (if IsActive y s' then credits_of s' y else 0)"
    using serves_credits [OF s'(1) assms(2) n] by blast
  have "\<forall>y. int (count_list xs y) = (if IsActive y s then round_weight fetcher s y else 0)"
    using xs(3) s'(2,3) by simp
  then show ?thesis using xs(1,2) by blast
qed

theorem wrr_round_fair_witness:
  "\<exists>s' xs s''. ResetAndRestartRound (Some int) example_wrr = Inr s' \<and> serves (Some int) 3 s' = Inr (xs, s'') \<and>
    count_list xs 1 = 1 \<and> count_list xs 2 = 2"
proof -
  have f: "fetcher_ok (Some int)" by (simp add: fetcher_ok_def)
  obtain s' where s': "ResetAndRestartRound (Some int) example_wrr = Inr s'"
    using Reset_ok [OF wrr_reach_ok [OF example_wrr_reach] f] by blast
  have a: "actives example_wrr = {1, 2}" by (auto simp: actives_def IsActive_def wrr_eval)
  have n: "(3::nat) = nat (\<Sum>y\<in>actives example_wrr. round_weight (Some int) example_wrr y)"
    by (simp add: a round_weight_def)
  obtain xs s'' where xs: "serves (Some int) 3 s' = Inr (xs, s'')"
    "\<forall>y. int (count_list xs y) = (if IsActive y example_wrr then round_weight (Some int) example_wrr y else 0)"
    using wrr_round_fair [OF example_wrr_reach f s' n] by auto
  have "IsActive 1 example_wrr" "IsActive 2 example_wrr" using a by (auto simp: actives_def)
  then have "count_list xs 1 = 1" "count_list xs 2 = 2"
    using xs(2) [rule_format, of 1] xs(2) [rule_format, of 2] by (simp_all add: round_weight_def)
  then show ?thesis using s' xs(1) by blast
qed

end
