(* ===== verification/Inter_Host_Rx.thy ===== *)
theory Inter_Host_Rx
  imports WRR_Policy
begin

text \<open>
  The inter-host receive scheduler of
  \<^verbatim>\<open>src/isekai/host/falcon/gen1/inter_host_rx_scheduler.cc\<close>: one FIFO of callbacks per host, an
  xoff flag per host, and a plain round-robin policy over the hosts.

  The callbacks are code of other components; they may call back into the scheduler while they
  run. A callback is a value of any type, and the parameter \<open>calls\<close> gives the scheduler calls it
  makes, in order (\<^verbatim>\<open>rx_call\<close>); nothing is assumed of it. The serialization delay of a packet
  (\<^verbatim>\<open>packet_size * 8.0 / gbps\<close>, a floating-point value) is the parameter \<open>delay_of\<close>.
  \<open>now\<close> is the environment's clock at the time of the call. \<open>events\<close> records the delays of the
  \<^verbatim>\<open>ScheduleWork\<close> events handed to the environment. Statistics are left out.

  The theorems show that a host is switched on in the policy exactly when it has callbacks and is
  not xoff'ed, that callbacks of a host run once each in the order they were
  enqueued and never while it is xoff'ed, and that the scheduler never stalls.
\<close>

section \<open>State\<close>

record 'cb ihrx =
  scheduler_cycle_time_ns :: duration
  inter_packet_gap_ns :: duration
  rx_link_bandwidth_gbps :: u32
  is_running :: bool
  inter_host_rx_policy :: "u8 wrr"
  last_scheduler_run_time :: duration
  xoff_status :: "bool list"
  hosts_queue :: "(u8, 'cb list) omap"
  events :: "duration list"

datatype 'cb rx_call =
    EnqueueCall u8 'cb
  | SetXoffCall u8 bool
  | UpdateGapCall u32

text \<open>The constructor's loop over the hosts.\<close>

fun init_hosts :: "nat list \<Rightarrow> 'cb ihrx \<Rightarrow> 'cb ihrx res" where
  "init_hosts [] s = Inr s"
| "init_hosts (h # hs) s =
     (let (st, p) = InitializeEntity None (of_nat h) (inter_host_rx_policy s)
      in check (st = OkStatus)
           (init_hosts hs (s\<lparr>inter_host_rx_policy := p, xoff_status := (xoff_status s)[h := False],
              hosts_queue := omap_put (of_nat h) [] (hosts_queue s)\<rparr>)))"

definition ProtocolInterHostRxScheduler :: "u32 \<Rightarrow> duration \<Rightarrow> u8 \<Rightarrow> 'cb ihrx res" where
  "ProtocolInterHostRxScheduler gbps tick number_of_hosts =
     check (0 < number_of_hosts)
       (init_hosts [0..<unat number_of_hosts]
          \<lparr>scheduler_cycle_time_ns = tick, inter_packet_gap_ns = tick, rx_link_bandwidth_gbps = gbps,
           is_running = False, inter_host_rx_policy = wrr_new False True,
           last_scheduler_run_time = ZeroDuration,
           xoff_status = replicate (unat number_of_hosts) False, hosts_queue = [], events = []\<rparr>)"

section \<open>Operations\<close>

text \<open>Scheduling the next run from the last one, as \<^verbatim>\<open>Enqueue\<close> and \<^verbatim>\<open>SetXoff\<close> do.\<close>

definition start_scheduler :: "duration \<Rightarrow> 'cb ihrx \<Rightarrow> 'cb ihrx" where
  "start_scheduler now s =
     (let next_run_time = max (dur_add (last_scheduler_run_time s) (inter_packet_gap_ns s)) now
      in s\<lparr>is_running := True, events := events s @ [dur_diff next_run_time now]\<rparr>)"

text \<open>A call into the policy, its boolean result dropped.\<close>

definition on_policy :: "(u8 wrr \<Rightarrow> (bool \<times> u8 wrr) res) \<Rightarrow> 'cb ihrx \<Rightarrow> 'cb ihrx res" where
  "on_policy f s = res_bind (f (inter_host_rx_policy s)) (\<lambda>(_, p). Inr (s\<lparr>inter_host_rx_policy := p\<rparr>))"

definition Enqueue :: "duration \<Rightarrow> u8 \<Rightarrow> 'cb \<Rightarrow> 'cb ihrx \<Rightarrow> 'cb ihrx res" where
  "Enqueue now bifurcation_id cb s =
     (case map_of (hosts_queue s) bifurcation_id of
        None \<Rightarrow> Inl CheckFailed
      | Some q \<Rightarrow>
          let s1 = s\<lparr>hosts_queue := omap_put bifurcation_id (q @ [cb]) (hosts_queue s)\<rparr>
          in res_bind (if \<not> xoff_status s1 ! unat bifurcation_id
               then on_policy (MarkEntityActive bifurcation_id) s1 else Inr s1)
               (\<lambda>s2. Inr (if \<not> is_running s2 then start_scheduler now s2 else s2)))"

definition HasWork_rx :: "'cb ihrx \<Rightarrow> (bool \<times> 'cb ihrx) res" where
  "HasWork_rx s = res_bind (HasWork None (inter_host_rx_policy s))
     (\<lambda>(b, p). Inr (b, s\<lparr>inter_host_rx_policy := p\<rparr>))"

definition SetXoff_rx :: "duration \<Rightarrow> u8 \<Rightarrow> bool \<Rightarrow> 'cb ihrx \<Rightarrow> 'cb ihrx res" where
  "SetXoff_rx now bifurcation_id xoff s =
     (case map_of (hosts_queue s) bifurcation_id of
        None \<Rightarrow> Inl CheckFailed
      | Some q \<Rightarrow>
          let s1 = s\<lparr>xoff_status := (xoff_status s)[unat bifurcation_id := xoff]\<rparr>
          in if xoff then on_policy (MarkEntityInactive bifurcation_id) s1
             else if q \<noteq> []
             then res_bind (on_policy (MarkEntityActive bifurcation_id) s1) (\<lambda>s2.
                  res_bind (HasWork_rx s2) (\<lambda>(b, s3).
                    Inr (if b \<and> \<not> is_running s3 then start_scheduler now s3 else s3)))
             else Inr s1)"

definition UpdateInterPacketGap :: "(u32 \<Rightarrow> u32 \<Rightarrow> duration) \<Rightarrow> u32 \<Rightarrow> 'cb ihrx \<Rightarrow> 'cb ihrx" where
  "UpdateInterPacketGap delay_of packet_size s =
     s\<lparr>inter_packet_gap_ns :=
         max (scheduler_cycle_time_ns s) (delay_of packet_size (rx_link_bandwidth_gbps s))\<rparr>"

fun run_calls :: "(u32 \<Rightarrow> u32 \<Rightarrow> duration) \<Rightarrow> duration \<Rightarrow> 'cb rx_call list \<Rightarrow> 'cb ihrx \<Rightarrow> 'cb ihrx res" where
  "run_calls delay_of now [] s = Inr s"
| "run_calls delay_of now (EnqueueCall h cb # cs) s =
     res_bind (Enqueue now h cb s) (run_calls delay_of now cs)"
| "run_calls delay_of now (SetXoffCall h x # cs) s =
     res_bind (SetXoff_rx now h x s) (run_calls delay_of now cs)"
| "run_calls delay_of now (UpdateGapCall n # cs) s =
     run_calls delay_of now cs (UpdateInterPacketGap delay_of n s)"

text \<open>
  One run of the scheduler; the result names the host and the callback that ran. The callback
  stays at the front of its queue while it runs and is popped afterwards.
\<close>

definition finish_work :: "u8 \<Rightarrow> 'cb ihrx \<Rightarrow> 'cb ihrx res" where
  "finish_work h s =
     (let q = tl (the (map_of (hosts_queue s) h)); s1 = s\<lparr>hosts_queue := omap_put h q (hosts_queue s)\<rparr>
      in res_bind (if q = [] then on_policy (MarkEntityInactive h) s1 else Inr s1) (\<lambda>s2.
         res_bind (HasWork_rx s2) (\<lambda>(b, s3).
           Inr (if b then s3\<lparr>is_running := True, events := events s3 @ [inter_packet_gap_ns s3]\<rparr> else s3))))"

definition ScheduleWork ::
  "(u32 \<Rightarrow> u32 \<Rightarrow> duration) \<Rightarrow> ('cb \<Rightarrow> 'cb rx_call list) \<Rightarrow> duration \<Rightarrow> 'cb ihrx \<Rightarrow>
     ((u8 \<times> 'cb) option \<times> 'cb ihrx) res" where
  "ScheduleWork delay_of calls now s =
     res_bind (GetNextEntity None (inter_host_rx_policy s)) (\<lambda>(r, p).
       let s1 = s\<lparr>is_running := False, inter_host_rx_policy := p\<rparr>
       in case r of
            Inl _ \<Rightarrow> Inr (None, s1)
          | Inr h \<Rightarrow>
             (case map_of (hosts_queue s1) h of
                None \<Rightarrow> Inl CheckFailed
              | Some [] \<Rightarrow> Inl UndefinedBehaviour
              | Some (cb # _) \<Rightarrow>
                  res_bind (run_calls delay_of now (calls cb) (s1\<lparr>last_scheduler_run_time := now\<rparr>)) (\<lambda>s2.
                  res_bind (finish_work h s2) (\<lambda>s3. Inr (Some (h, cb), s3)))))"

section \<open>The invariant\<close>

definition queue :: "'cb ihrx \<Rightarrow> u8 \<Rightarrow> 'cb list" where
  "queue s h = (case map_of (hosts_queue s) h of Some q \<Rightarrow> q | None \<Rightarrow> [])"

definition hosts :: "'cb ihrx \<Rightarrow> u8 set" where
  "hosts s = dom (map_of (hosts_queue s))"

definition stopped :: "'cb ihrx \<Rightarrow> u8 \<Rightarrow> bool" where
  "stopped s h = xoff_status s ! unat h"

definition ready :: "'cb ihrx \<Rightarrow> u8 set" where
  "ready s = {h \<in> hosts s. queue s h \<noteq> [] \<and> \<not> stopped s h}"

definition rx_ok :: "'cb ihrx \<Rightarrow> bool" where
  "rx_ok s \<longleftrightarrow> vanilla_ok (inter_host_rx_policy s) \<and> entities (inter_host_rx_policy s) = hosts s \<and>
     (\<forall>h \<in> hosts s. unat h < length (xoff_status s)) \<and> actives (inter_host_rx_policy s) = ready s"

text \<open>The scheduler starts running only by scheduling an event.\<close>

definition started :: "'cb ihrx \<Rightarrow> 'cb ihrx \<Rightarrow> bool" where
  "started s s' \<longleftrightarrow> length (events s) \<le> length (events s') \<and>
     (is_running s' \<longrightarrow> is_running s \<or> length (events s) < length (events s'))"

lemma started_refl [simp]: "started s s"
  by (simp add: started_def)

lemma started_trans: "started s s1 \<Longrightarrow> started s1 s2 \<Longrightarrow> started s s2"
  by (auto simp: started_def)

lemma queue_put:
  "queue (s\<lparr>hosts_queue := omap_put h q (hosts_queue s)\<rparr>) = (queue s)(h := q)"
  by (auto simp: queue_def omap_simps)

lemma hosts_put:
  "h \<in> hosts s \<Longrightarrow> hosts (s\<lparr>hosts_queue := omap_put h q (hosts_queue s)\<rparr>) = hosts s"
  by (auto simp: hosts_def omap_simps)

lemma host_queue: "h \<in> hosts s \<Longrightarrow> map_of (hosts_queue s) h = Some (queue s h)"
  by (auto simp: hosts_def queue_def)

text \<open>The parts of the state that the observers read, and the updates that leave them alone.\<close>

lemma frame [simp]:
  "queue (s\<lparr>inter_host_rx_policy := p\<rparr>) = queue s" "hosts (s\<lparr>inter_host_rx_policy := p\<rparr>) = hosts s"
  "stopped (s\<lparr>inter_host_rx_policy := p\<rparr>) = stopped s"
  "queue (s\<lparr>is_running := b\<rparr>) = queue s" "hosts (s\<lparr>is_running := b\<rparr>) = hosts s"
  "stopped (s\<lparr>is_running := b\<rparr>) = stopped s"
  "queue (s\<lparr>events := e\<rparr>) = queue s" "hosts (s\<lparr>events := e\<rparr>) = hosts s" "stopped (s\<lparr>events := e\<rparr>) = stopped s"
  "queue (s\<lparr>last_scheduler_run_time := d\<rparr>) = queue s" "hosts (s\<lparr>last_scheduler_run_time := d\<rparr>) = hosts s"
  "stopped (s\<lparr>last_scheduler_run_time := d\<rparr>) = stopped s"
  "queue (s\<lparr>inter_packet_gap_ns := d\<rparr>) = queue s" "hosts (s\<lparr>inter_packet_gap_ns := d\<rparr>) = hosts s"
  "stopped (s\<lparr>inter_packet_gap_ns := d\<rparr>) = stopped s"
  "queue (s\<lparr>xoff_status := x\<rparr>) = queue s" "hosts (s\<lparr>xoff_status := x\<rparr>) = hosts s"
  "stopped (s\<lparr>hosts_queue := q\<rparr>) = stopped s"
  by (simp_all add: queue_def hosts_def stopped_def fun_eq_iff)

lemma start_scheduler_frame [simp]:
  "queue (start_scheduler now s) = queue s" "hosts (start_scheduler now s) = hosts s"
  "stopped (start_scheduler now s) = stopped s" "is_running (start_scheduler now s)"
  "xoff_status (start_scheduler now s) = xoff_status s"
  "inter_host_rx_policy (start_scheduler now s) = inter_host_rx_policy s" "started s (start_scheduler now s)"
  by (simp_all add: start_scheduler_def Let_def started_def)

lemma rx_ok_same:
  assumes "rx_ok s" and "queue s' = queue s" "hosts s' = hosts s" "xoff_status s' = xoff_status s"
    and "inter_host_rx_policy s' = inter_host_rx_policy s"
  shows "rx_ok s'"
  using assms by (simp add: rx_ok_def ready_def stopped_def)

text \<open>Policy calls, in terms of the scheduler's state.\<close>

lemma on_policy_active:
  assumes "vanilla_ok (inter_host_rx_policy s)" and "h \<in> entities (inter_host_rx_policy s)"
  shows "\<exists>p. on_policy (MarkEntityActive h) s = Inr (s\<lparr>inter_host_rx_policy := p\<rparr>) \<and> vanilla_ok p \<and>
    entities p = entities (inter_host_rx_policy s) \<and> actives p = insert h (actives (inter_host_rx_policy s))"
  using rr.on_law [OF assms] by (auto simp: on_policy_def)

lemma on_policy_inactive:
  assumes "vanilla_ok (inter_host_rx_policy s)" and "h \<in> entities (inter_host_rx_policy s)"
  shows "\<exists>p. on_policy (MarkEntityInactive h) s = Inr (s\<lparr>inter_host_rx_policy := p\<rparr>) \<and> vanilla_ok p \<and>
    entities p = entities (inter_host_rx_policy s) \<and> actives p = actives (inter_host_rx_policy s) - {h}"
  using rr.off_law [OF assms] by (auto simp: on_policy_def)

lemma HasWork_rx_spec:
  assumes "rx_ok s"
  shows "\<exists>p. HasWork_rx s = Inr (ready s \<noteq> {}, s\<lparr>inter_host_rx_policy := p\<rparr>) \<and> rx_ok (s\<lparr>inter_host_rx_policy := p\<rparr>)"
  using rr.work_law [of "inter_host_rx_policy s"] assms
  by (fastforce simp: HasWork_rx_def rx_ok_def ready_def)

section \<open>The operations\<close>

lemma Enqueue_spec:
  assumes "rx_ok s" and "h \<in> hosts s"
  shows "\<exists>s'. Enqueue now h cb s = Inr s' \<and> rx_ok s' \<and> hosts s' = hosts s \<and>
    queue s' = (queue s)(h := queue s h @ [cb]) \<and> stopped s' = stopped s \<and> is_running s' \<and> started s s'"
proof -
  define s1 where "s1 = s\<lparr>hosts_queue := omap_put h (queue s h @ [cb]) (hosts_queue s)\<rparr>"
  have f: "queue s1 = (queue s)(h := queue s h @ [cb])" "hosts s1 = hosts s" "stopped s1 = stopped s"
    "inter_host_rx_policy s1 = inter_host_rx_policy s" "xoff_status s1 = xoff_status s" "started s s1"
    using assms(2) by (simp_all add: s1_def queue_put hosts_put started_def)
  have v: "vanilla_ok (inter_host_rx_policy s)" "entities (inter_host_rx_policy s) = hosts s"
    "actives (inter_host_rx_policy s) = ready s" "\<forall>g \<in> hosts s. unat g < length (xoff_status s)"
    using assms(1) by (simp_all add: rx_ok_def)
  have "\<exists>p. (if \<not> xoff_status s1 ! unat h then on_policy (MarkEntityActive h) s1 else Inr s1) = Inr (s1\<lparr>inter_host_rx_policy := p\<rparr>) \<and>
      rx_ok (s1\<lparr>inter_host_rx_policy := p\<rparr>)"
  proof (cases "stopped s h")
    case True
    then have "ready s1 = ready s" using f by (auto simp: ready_def)
    then have "rx_ok s1" using assms(1) f by (simp add: rx_ok_def)
    then show ?thesis using True f(5) by (intro exI [of _ "inter_host_rx_policy s1"]) (simp add: stopped_def)
  next
    case False
    have "ready s1 = insert h (ready s)" using False f assms(2) by (auto simp: ready_def)
    moreover obtain p where "on_policy (MarkEntityActive h) s1 = Inr (s1\<lparr>inter_host_rx_policy := p\<rparr>)" "vanilla_ok p"
      "entities p = hosts s" "actives p = insert h (ready s)"
      using on_policy_active [of s1 h] v f(4) assms(2) by auto
    ultimately show ?thesis using False v(4) f by (auto simp: rx_ok_def ready_def stopped_def)
  qed
  then obtain p where p: "(if \<not> xoff_status s1 ! unat h then on_policy (MarkEntityActive h) s1 else Inr s1) = Inr (s1\<lparr>inter_host_rx_policy := p\<rparr>)"
    "rx_ok (s1\<lparr>inter_host_rx_policy := p\<rparr>)" by blast
  let ?s2 = "s1\<lparr>inter_host_rx_policy := p\<rparr>"
  let ?s3 = "if \<not> is_running ?s2 then start_scheduler now ?s2 else ?s2"
  have "Enqueue now h cb s = Inr ?s3"
    using p(1) host_queue [OF assms(2)] by (simp add: Enqueue_def s1_def [symmetric] Let_def)
  moreover have "rx_ok ?s3" by (rule rx_ok_same [OF p(2)]) simp_all
  moreover have "started s ?s3"
    using f(6) by (auto simp: started_def start_scheduler_def Let_def)
  ultimately show ?thesis using f by auto
qed

lemma SetXoff_rx_spec:
  assumes "rx_ok s" and "h \<in> hosts s"
  shows "\<exists>s'. SetXoff_rx now h x s = Inr s' \<and> rx_ok s' \<and> hosts s' = hosts s \<and> queue s' = queue s \<and>
    stopped s' = (stopped s)(h := x) \<and> started s s' \<and> (is_running s \<longrightarrow> is_running s') \<and>
    (ready s' \<subseteq> ready s \<or> is_running s')"
proof -
  define s1 where "s1 = s\<lparr>xoff_status := (xoff_status s)[unat h := x]\<rparr>"
  have v: "vanilla_ok (inter_host_rx_policy s)" "entities (inter_host_rx_policy s) = hosts s"
    "actives (inter_host_rx_policy s) = ready s" "\<forall>g \<in> hosts s. unat g < length (xoff_status s)"
    using assms(1) by (simp_all add: rx_ok_def)
  have f: "queue s1 = queue s" "hosts s1 = hosts s" "stopped s1 = (stopped s)(h := x)" "is_running s1 = is_running s"
    "events s1 = events s" "inter_host_rx_policy s1 = inter_host_rx_policy s" "length (xoff_status s1) = length (xoff_status s)"
    using v(4) assms(2) by (auto simp: s1_def stopped_def nth_list_update fun_eq_iff word_unat_eq_iff)
  have eq: "SetXoff_rx now h x s = (if x then on_policy (MarkEntityInactive h) s1
      else if queue s h \<noteq> []
      then res_bind (on_policy (MarkEntityActive h) s1) (\<lambda>s2. res_bind (HasWork_rx s2) (\<lambda>(b, s3).
             Inr (if b \<and> \<not> is_running s3 then start_scheduler now s3 else s3)))
      else Inr s1)"
    using host_queue [OF assms(2)] by (simp add: SetXoff_rx_def s1_def Let_def)
  consider (off) "x" | (on) "\<not> x" "queue s h \<noteq> []" | (nop) "\<not> x" "queue s h = []" by blast
  then show ?thesis
  proof cases
    case off
    obtain p where p: "on_policy (MarkEntityInactive h) s1 = Inr (s1\<lparr>inter_host_rx_policy := p\<rparr>)" "vanilla_ok p"
      "entities p = hosts s" "actives p = ready s - {h}"
      using on_policy_inactive [of s1 h] v f(6) assms(2) by auto
    have "ready s1 = ready s - {h}" using off f by (auto simp: ready_def)
    then have "rx_ok (s1\<lparr>inter_host_rx_policy := p\<rparr>)" using p v(4) f by (auto simp: rx_ok_def ready_def)
    then show ?thesis using p(1) off f eq by (auto simp: started_def ready_def)
  next
    case on
    obtain p where p: "on_policy (MarkEntityActive h) s1 = Inr (s1\<lparr>inter_host_rx_policy := p\<rparr>)" "vanilla_ok p"
      "entities p = hosts s" "actives p = insert h (ready s)"
      using on_policy_active [of s1 h] v f(6) assms(2) by auto
    have "ready s1 = insert h (ready s)" using on f assms(2) by (auto simp: ready_def)
    then have ok2: "rx_ok (s1\<lparr>inter_host_rx_policy := p\<rparr>)" using p v(4) f by (auto simp: rx_ok_def ready_def)
    have r: "ready (s1\<lparr>inter_host_rx_policy := p\<rparr>) \<noteq> {}" using on f assms(2) by (auto simp: ready_def)
    obtain p' where p': "HasWork_rx (s1\<lparr>inter_host_rx_policy := p\<rparr>) = Inr (True, s1\<lparr>inter_host_rx_policy := p'\<rparr>)"
      "rx_ok (s1\<lparr>inter_host_rx_policy := p'\<rparr>)"
      using HasWork_rx_spec [OF ok2] r by auto
    let ?s3 = "s1\<lparr>inter_host_rx_policy := p'\<rparr>"
    let ?s4 = "if \<not> is_running ?s3 then start_scheduler now ?s3 else ?s3"
    have "SetXoff_rx now h x s = Inr ?s4"
      using p(1) p'(1) on eq by simp
    moreover have "rx_ok ?s4" by (rule rx_ok_same [OF p'(2)]) simp_all
    moreover have "started s ?s4" using f by (simp add: started_def start_scheduler_def Let_def)
    ultimately show ?thesis using f on(1) by auto
  next
    case nop
    have "ready s1 = ready s" using nop f by (auto simp: ready_def)
    then have "rx_ok s1" using v f by (simp add: rx_ok_def)
    then show ?thesis using nop f eq by (auto simp: started_def ready_def)
  qed
qed

text \<open>The callbacks' own calls: which hosts they name, and what they enqueue.\<close>

fun target :: "'cb rx_call \<Rightarrow> u8 option" where
  "target (EnqueueCall h cb) = Some h"
| "target (SetXoffCall h x) = Some h"
| "target (UpdateGapCall n) = None"

fun enqueued :: "'cb rx_call list \<Rightarrow> (u8 \<times> 'cb) list" where
  "enqueued [] = []"
| "enqueued (EnqueueCall h cb # cs) = (h, cb) # enqueued cs"
| "enqueued (SetXoffCall h x # cs) = enqueued cs"
| "enqueued (UpdateGapCall n # cs) = enqueued cs"

definition of_host :: "u8 \<Rightarrow> (u8 \<times> 'cb) list \<Rightarrow> 'cb list" where
  "of_host h ps = map snd (filter (\<lambda>p. fst p = h) ps)"

lemma of_host_simps [simp]:
  "of_host h [] = []" "of_host h ((g, cb) # ps) = (if g = h then cb # of_host h ps else of_host h ps)"
  "of_host h (ps @ qs) = of_host h ps @ of_host h qs"
  by (simp_all add: of_host_def)

definition targets_known :: "u8 set \<Rightarrow> 'cb rx_call list \<Rightarrow> bool" where
  "targets_known H cs \<longleftrightarrow> (\<forall>c \<in> set cs. case target c of Some h \<Rightarrow> h \<in> H | None \<Rightarrow> True)"

lemma run_calls_spec:
  assumes "rx_ok s" and "targets_known (hosts s) cs"
  shows "\<exists>s'. run_calls delay_of now cs s = Inr s' \<and> rx_ok s' \<and> hosts s' = hosts s \<and>
    (\<forall>g. queue s' g = queue s g @ of_host g (enqueued cs)) \<and> started s s'"
  using assms
proof (induction delay_of now cs s rule: run_calls.induct)
  case (1 delay_of now s)
  then show ?case by simp
next
  case (2 delay_of now h cb cs s)
  then have h: "h \<in> hosts s" by (simp add: targets_known_def)
  obtain s1 where s1: "Enqueue now h cb s = Inr s1" "rx_ok s1" "hosts s1 = hosts s"
    "queue s1 = (queue s)(h := queue s h @ [cb])" "started s s1"
    using Enqueue_spec [OF 2(2) h] by blast
  have "targets_known (hosts s1) cs" using 2(3) s1(3) by (simp add: targets_known_def)
  then obtain s' where "run_calls delay_of now cs s1 = Inr s'" "rx_ok s'" "hosts s' = hosts s1"
    "\<forall>g. queue s' g = queue s1 g @ of_host g (enqueued cs)" "started s1 s'"
    using 2(1) [OF s1(2)] by blast
  then show ?case using s1 started_trans [of s s1 s'] by auto
next
  case (3 delay_of now h x cs s)
  then have h: "h \<in> hosts s" by (simp add: targets_known_def)
  obtain s1 where s1: "SetXoff_rx now h x s = Inr s1" "rx_ok s1" "hosts s1 = hosts s" "queue s1 = queue s" "started s s1"
    using SetXoff_rx_spec [OF 3(2) h] by blast
  have "targets_known (hosts s1) cs" using 3(3) s1(3) by (simp add: targets_known_def)
  then obtain s' where "run_calls delay_of now cs s1 = Inr s'" "rx_ok s'" "hosts s' = hosts s1"
    "\<forall>g. queue s' g = queue s1 g @ of_host g (enqueued cs)" "started s1 s'"
    using 3(1) [OF s1(2)] by blast
  then show ?case using s1 started_trans [of s s1 s'] by auto
next
  case (4 delay_of now n cs s)
  let ?s1 = "UpdateInterPacketGap delay_of n s"
  have f: "queue ?s1 = queue s" "hosts ?s1 = hosts s" "started s ?s1" by (simp_all add: UpdateInterPacketGap_def started_def)
  have "rx_ok ?s1" by (rule rx_ok_same [OF 4(2)]) (simp_all add: UpdateInterPacketGap_def)
  moreover have "targets_known (hosts ?s1) cs" using 4(3) f by (simp add: targets_known_def)
  ultimately obtain s' where "run_calls delay_of now cs ?s1 = Inr s'" "rx_ok s'" "hosts s' = hosts ?s1"
    "\<forall>g. queue s' g = queue ?s1 g @ of_host g (enqueued cs)" "started ?s1 s'"
    using 4(1) by blast
  then show ?case using f started_trans [of s ?s1 s'] by auto
qed

definition ran :: "(u8 \<times> 'cb) option \<Rightarrow> (u8 \<times> 'cb) list" where
  "ran r = (case r of None \<Rightarrow> [] | Some p \<Rightarrow> [p])"

definition enq_by :: "('cb \<Rightarrow> 'cb rx_call list) \<Rightarrow> (u8 \<times> 'cb) option \<Rightarrow> (u8 \<times> 'cb) list" where
  "enq_by calls r = (case r of None \<Rightarrow> [] | Some (h, cb) \<Rightarrow> enqueued (calls cb))"

lemma pop_spec:
  assumes "rx_ok s" and "h \<in> hosts s" and "queue s h = cb # q"
  shows "\<exists>p. (if q = [] then on_policy (MarkEntityInactive h) (s\<lparr>hosts_queue := omap_put h q (hosts_queue s)\<rparr>)
      else Inr (s\<lparr>hosts_queue := omap_put h q (hosts_queue s)\<rparr>)) =
        Inr (s\<lparr>hosts_queue := omap_put h q (hosts_queue s), inter_host_rx_policy := p\<rparr>) \<and>
    rx_ok (s\<lparr>hosts_queue := omap_put h q (hosts_queue s), inter_host_rx_policy := p\<rparr>)"
proof -
  define s1 where "s1 = s\<lparr>hosts_queue := omap_put h q (hosts_queue s)\<rparr>"
  have f: "queue s1 = (queue s)(h := q)" "hosts s1 = hosts s" "stopped s1 = stopped s"
    "inter_host_rx_policy s1 = inter_host_rx_policy s" "xoff_status s1 = xoff_status s"
    using assms(2) by (simp_all add: s1_def queue_put hosts_put)
  have v: "vanilla_ok (inter_host_rx_policy s)" "entities (inter_host_rx_policy s) = hosts s"
    "actives (inter_host_rx_policy s) = ready s" "\<forall>g \<in> hosts s. unat g < length (xoff_status s)"
    using assms(1) by (simp_all add: rx_ok_def)
  have "\<exists>p. (if q = [] then on_policy (MarkEntityInactive h) s1 else Inr s1) = Inr (s1\<lparr>inter_host_rx_policy := p\<rparr>) \<and>
      rx_ok (s1\<lparr>inter_host_rx_policy := p\<rparr>)"
  proof (cases "q = []")
    case True
    obtain p where p: "on_policy (MarkEntityInactive h) s1 = Inr (s1\<lparr>inter_host_rx_policy := p\<rparr>)" "vanilla_ok p"
      "entities p = hosts s" "actives p = ready s - {h}"
      using on_policy_inactive [of s1 h] v f(4) assms(2) by auto
    have "ready s1 = ready s - {h}" using True f by (auto simp: ready_def)
    then have "rx_ok (s1\<lparr>inter_host_rx_policy := p\<rparr>)" using p v(4) f by (auto simp: rx_ok_def ready_def)
    then show ?thesis using True p(1) by auto
  next
    case False
    have "ready s1 = ready s" using False f assms(3) by (auto simp: ready_def)
    then have "rx_ok s1" using v f by (simp add: rx_ok_def)
    then show ?thesis using False by (intro exI [of _ "inter_host_rx_policy s1"]) simp
  qed
  then show ?thesis unfolding s1_def .
qed

lemma finish_work_spec:
  assumes "rx_ok s" and "h \<in> hosts s" and "queue s h = cb # q"
  shows "\<exists>s'. finish_work h s = Inr s' \<and> rx_ok s' \<and> hosts s' = hosts s \<and> queue s' = (queue s)(h := q) \<and>
    (ready s' \<noteq> {} \<longrightarrow> is_running s') \<and> started s s'"
proof -
  define s1 where "s1 = s\<lparr>hosts_queue := omap_put h q (hosts_queue s)\<rparr>"
  have tl: "tl (the (map_of (hosts_queue s) h)) = q" using host_queue [OF assms(2)] assms(3) by simp
  obtain p where p: "(if q = [] then on_policy (MarkEntityInactive h) s1 else Inr s1) = Inr (s1\<lparr>inter_host_rx_policy := p\<rparr>)"
    "rx_ok (s1\<lparr>inter_host_rx_policy := p\<rparr>)"
    using pop_spec [OF assms] unfolding s1_def by blast
  obtain p' where p': "HasWork_rx (s1\<lparr>inter_host_rx_policy := p\<rparr>) = Inr (ready s1 \<noteq> {}, s1\<lparr>inter_host_rx_policy := p'\<rparr>)"
    "rx_ok (s1\<lparr>inter_host_rx_policy := p'\<rparr>)"
    using HasWork_rx_spec [OF p(2)] by (auto simp: ready_def)
  define s3 where "s3 = s1\<lparr>inter_host_rx_policy := p'\<rparr>"
  define s' where "s' = (if ready s1 \<noteq> {} then s3\<lparr>is_running := True, events := events s3 @ [inter_packet_gap_ns s3]\<rparr> else s3)"
  have "finish_work h s = Inr s'"
    by (simp only: finish_work_def Let_def tl s1_def [symmetric] p(1) res_bind_Inr p'(1) s3_def [symmetric] s'_def prod.case)
  moreover have "rx_ok s'" by (rule rx_ok_same [OF p'(2)]) (simp_all add: s'_def s3_def)
  moreover have "queue s' = (queue s)(h := q)" "hosts s' = hosts s" "ready s' = ready s1"
    using assms(2) by (simp_all add: s'_def s3_def s1_def queue_put hosts_put ready_def)
  moreover have "started s s'" by (auto simp: s'_def s3_def s1_def started_def)
  ultimately show ?thesis by (simp add: s'_def)
qed

lemma ScheduleWork_spec:
  assumes "rx_ok s" and "\<And>cb. targets_known (hosts s) (calls cb)"
  shows "\<exists>r s'. ScheduleWork delay_of calls now s = Inr (r, s') \<and> rx_ok s' \<and> hosts s' = hosts s \<and>
    (r = None \<longleftrightarrow> ready s = {}) \<and> (\<forall>h cb. r = Some (h, cb) \<longrightarrow> h \<in> ready s) \<and>
    (\<forall>g. queue s g @ of_host g (enq_by calls r) = of_host g (ran r) @ queue s' g) \<and>
    (ready s' \<noteq> {} \<longrightarrow> is_running s') \<and> started (s\<lparr>is_running := False\<rparr>) s'"
proof -
  have v: "vanilla_ok (inter_host_rx_policy s)" "actives (inter_host_rx_policy s) = ready s"
    using assms(1) by (simp_all add: rx_ok_def)
  show ?thesis
  proof (rule rr.next_cases [OF v(1)])
    fix e p assume p: "GetNextEntity None (inter_host_rx_policy s) = Inr (Inl e, p)" "vanilla_ok p"
      "entities p = entities (inter_host_rx_policy s)" "actives p = actives (inter_host_rx_policy s)"
      "actives (inter_host_rx_policy s) = {}"
    let ?s1 = "s\<lparr>is_running := False, inter_host_rx_policy := p\<rparr>"
    have r: "ready ?s1 = ready s" by (simp add: ready_def)
    have "rx_ok ?s1" using assms(1) p(2-4) r by (simp add: rx_ok_def)
    moreover have "ScheduleWork delay_of calls now s = Inr (None, ?s1)" using p(1) by (simp add: ScheduleWork_def)
    ultimately show ?thesis using p(5) v(2) r by (simp add: ran_def enq_by_def started_def)
  next
    fix h p assume p: "GetNextEntity None (inter_host_rx_policy s) = Inr (Inr h, p)" "vanilla_ok p"
      "entities p = entities (inter_host_rx_policy s)" "actives p = actives (inter_host_rx_policy s)"
      "h \<in> actives (inter_host_rx_policy s)"
    define s1 where "s1 = s\<lparr>is_running := False, inter_host_rx_policy := p, last_scheduler_run_time := now\<rparr>"
    have f1: "queue s1 = queue s" "hosts s1 = hosts s" "ready s1 = ready s" "started (s\<lparr>is_running := False\<rparr>) s1"
      "hosts_queue s1 = hosts_queue s"
      by (simp_all add: s1_def ready_def started_def)
    have ok1: "rx_ok s1" using assms(1) p(2-4) f1(2,3) by (simp add: rx_ok_def s1_def)
    have h: "h \<in> ready s" using p(5) v(2) by simp
    then obtain cb q where cb: "queue s h = cb # q" by (cases "queue s h") (auto simp: ready_def)
    have hh: "h \<in> hosts s" using h by (simp add: ready_def)
    obtain s2 where s2: "run_calls delay_of now (calls cb) s1 = Inr s2" "rx_ok s2" "hosts s2 = hosts s1"
      "\<forall>g. queue s2 g = queue s1 g @ of_host g (enqueued (calls cb))" "started s1 s2"
      using run_calls_spec [OF ok1] assms(2) f1(2) by metis
    obtain s3 where s3: "finish_work h s2 = Inr s3" "rx_ok s3" "hosts s3 = hosts s2"
      "queue s3 = (queue s2)(h := q @ of_host h (enqueued (calls cb)))" "ready s3 \<noteq> {} \<longrightarrow> is_running s3" "started s2 s3"
      using finish_work_spec [OF s2(2), of h cb "q @ of_host h (enqueued (calls cb))"] s2(3,4) f1 cb hh by auto
    have run: "ScheduleWork delay_of calls now s = Inr (Some (h, cb), s3)"
      using p(1) host_queue [OF hh] cb s2(1) s3(1)
      by (simp add: ScheduleWork_def Let_def s1_def [symmetric])
    have "started (s\<lparr>is_running := False\<rparr>) s3" using started_trans [OF started_trans [OF f1(4) s2(5)] s3(6)] .
    moreover have "queue s g @ of_host g (enq_by calls (Some (h, cb))) = of_host g (ran (Some (h, cb))) @ queue s3 g" for g
      using s3(4) s2(4) f1(1) cb by (simp add: enq_by_def ran_def)
    ultimately show ?thesis using run h s3(2,3,5) s2(3) f1(2) by auto
  qed
qed

section \<open>The constructor\<close>

lemma init_hosts_spec:
  assumes "rx_ok s" and "hosts s = of_nat ` {..<k}" and "k + n < 256" and "length (xoff_status s) = k + n"
    and "\<forall>h. queue s h = []"
  shows "\<exists>s'. init_hosts [k..<k + n] s = Inr s' \<and> rx_ok s' \<and> hosts s' = of_nat ` {..<k + n} \<and>
    (\<forall>h. queue s' h = []) \<and> is_running s' = is_running s \<and> events s' = events s"
  using assms
proof (induction n arbitrary: k s)
  case 0
  then show ?case by simp
next
  case (Suc n)
  have v: "vanilla_ok (inter_host_rx_policy s)" "entities (inter_host_rx_policy s) = hosts s"
    "actives (inter_host_rx_policy s) = {}" using Suc.prems(1,5) by (simp_all add: rx_ok_def ready_def)
  have u: "unat (of_nat i :: u8) = i" if "i \<le> k" for i using Suc.prems(3) that by (simp add: unat_of_nat)
  have fresh: "(of_nat k :: u8) \<notin> hosts s"
    using Suc.prems(2) u u [of k] by (auto dest!: arg_cong [where f = unat])
  obtain p where p: "InitializeEntity None (of_nat k) (inter_host_rx_policy s) = (OkStatus, p)" "vanilla_ok p"
    "entities p = insert (of_nat k) (hosts s)" "actives p = {}"
    using vanilla_init [OF v(1), of "of_nat k"] fresh v by auto
  let ?s1 = "s\<lparr>inter_host_rx_policy := p, xoff_status := (xoff_status s)[k := False],
              hosts_queue := omap_put (of_nat k) [] (hosts_queue s)\<rparr>"
  have h1: "hosts ?s1 = insert (of_nat k) (hosts s)" by (simp add: hosts_def omap_simps)
  have q1: "\<forall>h. queue ?s1 h = []" using Suc.prems(5) by (simp add: queue_def omap_simps)
  have "\<forall>h \<in> hosts ?s1. unat h < length (xoff_status ?s1)"
    using Suc.prems(1,4) h1 u [of k] by (auto simp: rx_ok_def)
  then have "rx_ok ?s1" using p h1 q1 by (simp add: rx_ok_def ready_def)
  moreover have "hosts ?s1 = of_nat ` {..<Suc k}" using h1 Suc.prems(2) by (simp add: lessThan_Suc)
  ultimately obtain s' where "init_hosts [Suc k..<Suc k + n] ?s1 = Inr s'" "rx_ok s'" "hosts s' = of_nat ` {..<Suc k + n}"
    "\<forall>h. queue s' h = []" "is_running s' = is_running ?s1" "events s' = events ?s1"
    using Suc.IH [of ?s1 "Suc k"] Suc.prems(3,4) q1 by auto
  moreover have "[k..<k + Suc n] = k # [Suc k..<Suc k + n]" by (simp add: upt_conv_Cons del: upt_Suc)
  ultimately show ?case using p(1) by (simp del: upt_Suc)
qed

lemma ProtocolInterHostRxScheduler_spec:
  assumes "0 < n"
  shows "\<exists>s :: 'cb ihrx. ProtocolInterHostRxScheduler gbps tick n = Inr s \<and> rx_ok s \<and> hosts s = {h. h < n} \<and>
    (\<forall>h. queue s h = []) \<and> \<not> is_running s \<and> events s = []"
proof -
  let ?s0 = "\<lparr>scheduler_cycle_time_ns = tick, inter_packet_gap_ns = tick, rx_link_bandwidth_gbps = gbps,
           is_running = False, inter_host_rx_policy = wrr_new False True,
           last_scheduler_run_time = ZeroDuration,
           xoff_status = replicate (unat n) False, hosts_queue = [], events = []\<rparr> :: 'cb ihrx"
  have "rx_ok ?s0" "hosts ?s0 = of_nat ` {..<0}" "\<forall>h. queue ?s0 h = []"
    by (simp_all add: rx_ok_def hosts_def vanilla_new ready_def queue_def)
  moreover have "unat n < 256" using unsigned_less [of n] by simp
  ultimately obtain s where s: "init_hosts [0..<unat n] ?s0 = Inr s" "rx_ok s" "hosts s = of_nat ` {..<unat n}"
    "\<forall>h. queue s h = []" "is_running s = is_running ?s0" "events s = events ?s0"
    using init_hosts_spec [of ?s0 0 "unat n"] by auto
  have "of_nat ` {..<unat n} = {h :: u8. h < n}"
  proof (intro equalityI subsetI)
    fix h :: u8 assume "h \<in> {h. h < n}"
    then have "unat h < unat n" by (simp add: word_less_nat_alt)
    then show "h \<in> of_nat ` {..<unat n}" by (intro image_eqI [of _ _ "unat h"]) simp_all
  next
    fix h :: u8 assume "h \<in> of_nat ` {..<unat n}"
    then obtain i where "i < unat n" "h = of_nat i" by blast
    then show "h \<in> {h. h < n}" using \<open>unat n < 256\<close> by (simp add: word_less_nat_alt unat_of_nat)
  qed
  then show ?thesis using s assms by (auto simp: ProtocolInterHostRxScheduler_def)
qed

lemma constructed:
  fixes s :: "'cb ihrx"
  assumes "ProtocolInterHostRxScheduler gbps tick n = Inr s"
  shows "rx_ok s \<and> hosts s = {h. h < n} \<and> (\<forall>h. queue s h = []) \<and> \<not> is_running s"
proof -
  have "0 < n" using assms by (auto simp: ProtocolInterHostRxScheduler_def res_simps)
  then obtain s' :: "'cb ihrx" where "ProtocolInterHostRxScheduler gbps tick n = Inr s'" "rx_ok s'" "hosts s' = {h. h < n}"
    "\<forall>h. queue s' h = []" "\<not> is_running s'"
    using ProtocolInterHostRxScheduler_spec by blast
  then show ?thesis using assms by simp
qed

section \<open>Runs\<close>

text \<open>
  A run of the scheduler from its construction for \<open>n\<close> hosts: the state, every callback enqueued so far, every
  callback run so far, each with its host and in order, and the number of \<^verbatim>\<open>ScheduleWork\<close> events
  the environment still has to deliver.
\<close>

definition new_events :: "'cb ihrx \<Rightarrow> 'cb ihrx \<Rightarrow> nat" where
  "new_events s s' = length (events s') - length (events s)"

inductive rx_run ::
  "(u32 \<Rightarrow> u32 \<Rightarrow> duration) \<Rightarrow> ('cb \<Rightarrow> 'cb rx_call list) \<Rightarrow> u8 \<Rightarrow>
     'cb ihrx \<Rightarrow> (u8 \<times> 'cb) list \<Rightarrow> (u8 \<times> 'cb) list \<Rightarrow> nat \<Rightarrow> bool"
  for delay_of calls n where
  start: "ProtocolInterHostRxScheduler gbps tick n = Inr s \<Longrightarrow> rx_run delay_of calls n s [] [] 0"
| enqueue: "rx_run delay_of calls n s E R k \<Longrightarrow> Enqueue now h cb s = Inr s' \<Longrightarrow>
    rx_run delay_of calls n s' (E @ [(h, cb)]) R (k + new_events s s')"
| xoff: "rx_run delay_of calls n s E R k \<Longrightarrow> SetXoff_rx now h x s = Inr s' \<Longrightarrow>
    rx_run delay_of calls n s' E R (k + new_events s s')"
| gap: "rx_run delay_of calls n s E R k \<Longrightarrow>
    rx_run delay_of calls n (UpdateInterPacketGap delay_of m s) E R k"
| fire: "rx_run delay_of calls n s E R (Suc k) \<Longrightarrow> ScheduleWork delay_of calls now s = Inr (r, s') \<Longrightarrow>
    rx_run delay_of calls n s' (E @ enq_by calls r) (R @ ran r) (k + new_events s s')"

lemma started_events:
  assumes "started s s'" and "is_running s'" and "is_running s \<longrightarrow> 0 < k"
  shows "0 < k + new_events s s'"
  using assms by (auto simp: started_def new_events_def)

lemma rx_run_invariant:
  assumes "rx_run delay_of calls n s E R k" and "\<And>cb. targets_known {h. h < n} (calls cb)"
  shows "rx_ok s \<and> hosts s = {h. h < n} \<and> (ready s \<noteq> {} \<longrightarrow> is_running s) \<and> (is_running s \<longrightarrow> 0 < k) \<and>
    (\<forall>h. of_host h E = of_host h R @ queue s h)"
  using assms(1)
proof (induction rule: rx_run.induct)
  case (start gbps tick s)
  then show ?case using constructed [OF start] by (simp add: ready_def)
next
  case (enqueue s E R k now h cb s')
  then have h: "h \<in> hosts s" by (auto simp: Enqueue_def hosts_def split: option.splits)
  have s': "rx_ok s'" "hosts s' = hosts s" "queue s' = (queue s)(h := queue s h @ [cb])" "is_running s'" "started s s'"
    using Enqueue_spec [OF _ h, of now cb] enqueue by auto
  then show ?case using enqueue started_events [OF s'(5,4)] by auto
next
  case (xoff s E R k now h x s')
  then have h: "h \<in> hosts s" by (auto simp: SetXoff_rx_def hosts_def split: option.splits)
  have s': "rx_ok s'" "hosts s' = hosts s" "queue s' = queue s" "is_running s \<longrightarrow> is_running s'" "started s s'"
    "ready s' \<subseteq> ready s \<or> is_running s'"
    using SetXoff_rx_spec [OF _ h, of now x] xoff by auto
  then show ?case using xoff started_events [OF s'(5)] by auto
next
  case (gap s E R k m)
  have "rx_ok (UpdateInterPacketGap delay_of m s)"
    by (rule rx_ok_same [of s]) (use gap in \<open>simp_all add: UpdateInterPacketGap_def\<close>)
  then show ?case using gap by (simp add: UpdateInterPacketGap_def ready_def)
next
  case (fire s E R k now r s')
  have s': "rx_ok s'" "hosts s' = hosts s" "ready s' \<noteq> {} \<longrightarrow> is_running s'" "started (s\<lparr>is_running := False\<rparr>) s'"
    "\<forall>g. queue s g @ of_host g (enq_by calls r) = of_host g (ran r) @ queue s' g"
    using ScheduleWork_spec [of s calls delay_of now] fire assms(2) by auto
  have "new_events (s\<lparr>is_running := False\<rparr>) s' = new_events s s'" by (simp add: new_events_def)
  then have "is_running s' \<longrightarrow> 0 < k + new_events s s'" using started_events [OF s'(4), of k] by simp
  then show ?case using fire s' by simp
qed

section \<open>Properties\<close>

text \<open>A run used as an example: two hosts, one callback enqueued for the second one, which is then xon'ed.\<close>

definition quiet :: "nat \<Rightarrow> nat rx_call list" where
  "quiet cb = [UpdateGapCall (of_nat cb)]"

definition no_delay :: "u32 \<Rightarrow> u32 \<Rightarrow> duration" where
  "no_delay n gbps = ZeroDuration"

lemma quiet_targets: "targets_known {h. h < n} (quiet cb)"
  by (simp add: quiet_def targets_known_def)

lemma example_rx_run:
  "\<exists>s k. rx_run no_delay quiet 2 s [(1, 7)] [] k \<and> queue s 1 = [7] \<and> 1 \<in> ready s"
proof -
  obtain s0 :: "nat ihrx" where s0: "ProtocolInterHostRxScheduler 200 (Finite 3) 2 = Inr s0"
    "rx_ok s0" "hosts s0 = {h. h < 2}" "\<forall>h. queue s0 h = []"
    using ProtocolInterHostRxScheduler_spec [of 2 200 "Finite 3"] by auto
  obtain s1 where s1: "Enqueue (Finite 0) 1 7 s0 = Inr s1" "rx_ok s1" "hosts s1 = hosts s0"
    "queue s1 = (queue s0)(1 := queue s0 1 @ [7])"
    using Enqueue_spec [OF s0(2), where h = 1 and now = "Finite 0" and cb = 7] s0(3) by auto
  obtain s2 where s2: "SetXoff_rx (Finite 1) 1 False s1 = Inr s2" "hosts s2 = hosts s1" "queue s2 = queue s1"
    "stopped s2 = (stopped s1)(1 := False)"
    using SetXoff_rx_spec [OF s1(2), where h = 1 and now = "Finite 1" and x = False] s1(3) s0(3) by auto
  have "rx_run no_delay quiet 2 s2 ([] @ [(1, 7)]) [] (0 + new_events s0 s1 + new_events s1 s2)"
    by (intro rx_run.xoff [OF rx_run.enqueue [OF rx_run.start [OF s0(1)] s1(1)] s2(1)])
  moreover have "queue s2 1 = [7]" using s2(3) s1(4) s0(4) by simp
  moreover have "1 \<in> ready s2" using s2 s1 s0(3) by (simp add: ready_def)
  ultimately show ?thesis by auto
qed

text \<open>C30. Every callback runs exactly once and, per host, in the order of arrival: at any moment the
  callbacks enqueued for a host are those that have run, followed by those still in its queue.
  Callbacks that themselves enqueue or xoff while they run are included.\<close>

theorem rx_fifo_exactly_once:
  assumes "rx_run delay_of calls n s E R k" and "\<And>cb. targets_known {h. h < n} (calls cb)"
  shows "of_host h E = of_host h R @ queue s h"
  using rx_run_invariant [OF assms] by simp

theorem rx_fifo_exactly_once_witness:
  "\<exists>s k. rx_run no_delay quiet 2 s [(1, 7)] [] k \<and> of_host 1 [(1, 7)] = of_host 1 [] @ queue s 1"
proof -
  obtain s k where s: "rx_run no_delay quiet 2 s [(1, 7)] [] k" using example_rx_run by blast
  then show ?thesis using rx_fifo_exactly_once [OF s quiet_targets, of 1] by blast
qed

text \<open>C32. The scheduler never stalls and respects xoff: while some host that is not xoff'ed has a callback,
  an event is pending, and the run it triggers executes the first callback of a host that is not xoff'ed.\<close>

theorem rx_never_stalls:
  assumes "rx_run delay_of calls n s E R k" and "\<And>cb. targets_known {h. h < n} (calls cb)"
    and "g < n" and "queue s g \<noteq> []" and "\<not> stopped s g"
  shows "0 < k \<and> (\<exists>h cb q s'. ScheduleWork delay_of calls now s = Inr (Some (h, cb), s') \<and>
    queue s h = cb # q \<and> \<not> stopped s h)"
proof -
  have ok: "rx_ok s" "hosts s = {h. h < n}" "ready s \<noteq> {} \<longrightarrow> is_running s" "is_running s \<longrightarrow> 0 < k"
    using rx_run_invariant [OF assms(1,2)] by auto
  have r: "ready s \<noteq> {}" using assms(3-5) ok(2) by (auto simp: ready_def)
  obtain r s' where s': "ScheduleWork delay_of calls now s = Inr (r, s')" "r = None \<longleftrightarrow> ready s = {}"
    "\<forall>h cb. r = Some (h, cb) \<longrightarrow> h \<in> ready s"
    "\<forall>g. queue s g @ of_host g (enq_by calls r) = of_host g (ran r) @ queue s' g"
    using ScheduleWork_spec [OF ok(1), of calls delay_of now] assms(2) ok(2) by auto
  obtain h cb where hc: "r = Some (h, cb)" using s'(2) r by auto
  then have h: "queue s h \<noteq> []" "\<not> stopped s h" using s'(3) by (auto simp: ready_def)
  have "queue s h @ of_host h (enq_by calls r) = cb # queue s' h" using s'(4) hc by (simp add: ran_def)
  then obtain q where "queue s h = cb # q" using h(1) by (cases "queue s h") auto
  then show ?thesis using ok(3,4) r s'(1) hc h(2) by blast
qed

theorem rx_never_stalls_witness:
  "\<exists>s k h cb q s'. rx_run no_delay quiet 2 s [(1, 7)] [] k \<and> 0 < k \<and>
    ScheduleWork no_delay quiet (Finite 5) s = Inr (Some (h, cb), s') \<and> queue s h = cb # q"
proof -
  obtain s k where s: "rx_run no_delay quiet 2 s [(1, 7)] [] k" "queue s 1 = [7]" "1 \<in> ready s"
    using example_rx_run by blast
  have "0 < k \<and> (\<exists>h cb q s'. ScheduleWork no_delay quiet (Finite 5) s = Inr (Some (h, cb), s') \<and>
      queue s h = cb # q \<and> \<not> stopped s h)"
    by (rule rx_never_stalls [OF s(1) quiet_targets, of 1]) (use s in \<open>auto simp: ready_def\<close>)
  then show ?thesis using s(1) by blast
qed

end
