(* ===== verification/Token_Bucket.thy ===== *)
theory Token_Bucket
  imports Falcon_Prelude
begin

text \<open>
  The token bucket of \<^verbatim>\<open>src/isekai/common/token_bucket.{h,cc}\<close>. The two floating-point
  computations rest on \<^verbatim>\<open>absl::FDivDuration\<close> and are parameters: \<open>floor_fdiv d i\<close> stands for
  \<^verbatim>\<open>std::floor(absl::FDivDuration(d, i))\<close>, \<open>tokens_of r i\<close> for the conversion to
  \<^verbatim>\<open>uint64_t\<close> of \<^verbatim>\<open>r * absl::FDivDuration(i, absl::Seconds(1))\<close>. Durations are finite and
  counted in ticks; token counts are 64-bit words, so the refill may wrap around, as in the
  code. Converting an interval count that is no \<^verbatim>\<open>int\<close> is undefined behaviour.

  The theorems show that the bucket polices: whatever the requests and the times, the tokens
  granted never exceed the initial fill plus the rate times the elapsed refill intervals,
  also when the refill wraps around; and that the bucket refills at the announced time.
\<close>

section \<open>The bucket\<close>

record token_bucket =
  tokens_per_refill_interval :: u64
  bucket_refill_interval :: int
  bucket_size :: u64
  available_tokens :: u64
  last_refill_timestamp :: int

definition TokenBucket_new ::
  "(u64 \<Rightarrow> int \<Rightarrow> u64) \<Rightarrow> u64 \<Rightarrow> int \<Rightarrow> u64 \<Rightarrow> token_bucket res" where
  "TokenBucket_new tokens_of tokens_per_sec refill_interval max_burst_size =
     check (0 < tokens_of tokens_per_sec refill_interval)
       (Inr \<lparr>tokens_per_refill_interval = tokens_of tokens_per_sec refill_interval,
             bucket_refill_interval = refill_interval, bucket_size = max_burst_size,
             available_tokens = max_burst_size, last_refill_timestamp = 0\<rparr>)"

definition refill :: "int \<Rightarrow> token_bucket \<Rightarrow> token_bucket" where
  "refill n tb = tb\<lparr>available_tokens :=
       min (available_tokens tb + word_of_int n * tokens_per_refill_interval tb) (bucket_size tb),
     last_refill_timestamp := last_refill_timestamp tb + n * bucket_refill_interval tb\<rparr>"

definition AreTokensAvailable ::
  "(int \<Rightarrow> int \<Rightarrow> int) \<Rightarrow> u64 \<Rightarrow> int \<Rightarrow> token_bucket \<Rightarrow> (bool \<times> token_bucket) res" where
  "AreTokensAvailable floor_fdiv requested_tokens current_time tb =
     (let n = floor_fdiv (current_time - last_refill_timestamp tb) (bucket_refill_interval tb);
          tb' = (if 0 < n then refill n tb else tb)
      in if - (2 ^ 31) \<le> n \<and> n < 2 ^ 31 then Inr (requested_tokens \<le> available_tokens tb', tb')
         else Inl UndefinedBehaviour)"

definition RequestTokens :: "u64 \<Rightarrow> token_bucket \<Rightarrow> token_bucket res" where
  "RequestTokens required_tokens tb =
     check (required_tokens \<le> available_tokens tb)
       (Inr (tb\<lparr>available_tokens := available_tokens tb - required_tokens\<rparr>))"

definition NextRefillTime :: "token_bucket \<Rightarrow> int" where
  "NextRefillTime tb = last_refill_timestamp tb + bucket_refill_interval tb"

text \<open>
  A client that follows the documented protocol: ask first, take only if available. The
  result lists the tokens granted.
\<close>

fun police ::
  "(int \<Rightarrow> int \<Rightarrow> int) \<Rightarrow> (int \<times> u64) list \<Rightarrow> token_bucket \<Rightarrow> (u64 list \<times> token_bucket) res" where
  "police fd [] tb = Inr ([], tb)"
| "police fd ((now, tokens) # reqs) tb =
     res_bind (AreTokensAvailable fd tokens now tb) (\<lambda>(ok, tb1).
       if ok then res_bind (RequestTokens tokens tb1) (\<lambda>tb2.
              res_bind (police fd reqs tb2) (\<lambda>(granted, tb3). Inr (tokens # granted, tb3)))
       else police fd reqs tb1)"

section \<open>Lemmas\<close>

definition tb_config :: "token_bucket \<Rightarrow> u64 \<times> int \<times> u64" where
  "tb_config tb = (tokens_per_refill_interval tb, bucket_refill_interval tb, bucket_size tb)"

definition tb_ok :: "token_bucket \<Rightarrow> bool" where
  "tb_ok tb \<longleftrightarrow> available_tokens tb \<le> bucket_size tb \<and> 0 < bucket_refill_interval tb"

lemma unat_plus_le: "unat (a + b :: 'a::len word) \<le> unat a + unat b"
  by (metis unat_word_ariths(1) mod_less_eq_dividend)

lemma unat_refill_le:
  fixes a t :: u64
  assumes "0 < n" and "n < 2 ^ 31"
  shows "unat (a + word_of_int n * t) \<le> unat a + nat n * unat t"
proof -
  have "unat (word_of_int n * t) \<le> unat (word_of_int n :: u64) * unat t"
    by (metis unat_word_ariths(2) mod_less_eq_dividend)
  moreover have "unat (word_of_int n :: u64) = nat n"
    using assms by (intro unat_word_of_int) simp_all
  ultimately show ?thesis using unat_plus_le [of a "word_of_int n * t"] by simp
qed

lemma tb_config_refill [simp]: "tb_config (refill n tb) = tb_config tb"
  by (simp add: tb_config_def refill_def)

text \<open>
  Potential of a bucket: its tokens, less the tokens the rate has produced up to the last
  refill, scaled by the interval. No operation increases potential plus granted tokens.
\<close>

definition potential :: "token_bucket \<Rightarrow> int" where
  "potential tb = int (unat (available_tokens tb)) * bucket_refill_interval tb -
     int (unat (tokens_per_refill_interval tb)) * last_refill_timestamp tb"

lemma potential_refill:
  assumes "0 < n" and "n < 2 ^ 31" and "0 < bucket_refill_interval tb"
  shows "potential (refill n tb) \<le> potential tb"
proof -
  let ?a = "available_tokens tb" and ?t = "tokens_per_refill_interval tb" and ?i = "bucket_refill_interval tb"
  have "unat (available_tokens (refill n tb)) \<le> unat (?a + word_of_int n * ?t)"
    by (simp add: refill_def min_def word_le_nat_alt)
  also have "\<dots> \<le> unat ?a + nat n * unat ?t" by (rule unat_refill_le [OF assms(1,2)])
  finally have "int (unat (available_tokens (refill n tb))) \<le> int (unat ?a + nat n * unat ?t)"
    by (simp only: of_nat_le_iff)
  then have "int (unat (available_tokens (refill n tb))) \<le> int (unat ?a) + n * int (unat ?t)"
    using assms(1) by simp
  then have "int (unat (available_tokens (refill n tb))) * ?i \<le>
      (int (unat ?a) + n * int (unat ?t)) * ?i"
    using assms(3) by (intro mult_right_mono) simp_all
  then show ?thesis by (simp add: potential_def refill_def algebra_simps)
qed

lemma AreTokensAvailable_props:
  assumes "AreTokensAvailable fd tokens now tb = Inr (ok, tb')" and "tb_ok tb"
    and "\<And>d i. 0 < i \<Longrightarrow> fd d i * i \<le> d"
  shows "tb_ok tb'" and "tb_config tb' = tb_config tb" and "potential tb' \<le> potential tb"
    and "last_refill_timestamp tb' \<le> max now (last_refill_timestamp tb)"
    and "ok \<Longrightarrow> tokens \<le> available_tokens tb'"
proof -
  let ?n = "fd (now - last_refill_timestamp tb) (bucket_refill_interval tb)"
  have i: "0 < bucket_refill_interval tb" using assms(2) by (simp add: tb_ok_def)
  have r: "?n < 2 ^ 31" "tb' = (if 0 < ?n then refill ?n tb else tb)"
    "ok \<longleftrightarrow> tokens \<le> available_tokens tb'"
    using assms(1) by (auto simp: AreTokensAvailable_def Let_def split: if_splits)
  show "tb_ok tb'" using assms(2) r(2) by (auto simp: tb_ok_def refill_def)
  show "tb_config tb' = tb_config tb" using r(2) by simp
  show "potential tb' \<le> potential tb" using r(1,2) potential_refill [OF _ _ i] by simp
  show "last_refill_timestamp tb' \<le> max now (last_refill_timestamp tb)"
    using assms(3) [OF i, of "now - last_refill_timestamp tb"] r(2) by (simp add: refill_def max_def)
  show "ok \<Longrightarrow> tokens \<le> available_tokens tb'" using r(3) by simp
qed

lemma RequestTokens_props:
  assumes "RequestTokens tokens tb = Inr tb'" and "tb_ok tb"
  shows "tb_ok tb'" and "tb_config tb' = tb_config tb"
    and "last_refill_timestamp tb' = last_refill_timestamp tb"
    and "potential tb' + int (unat tokens) * bucket_refill_interval tb = potential tb"
proof -
  have r: "tokens \<le> available_tokens tb" "tb' = tb\<lparr>available_tokens := available_tokens tb - tokens\<rparr>"
    using assms(1) by (auto simp: RequestTokens_def res_simps)
  have u: "unat (available_tokens tb - tokens) = unat (available_tokens tb) - unat tokens"
    "unat tokens \<le> unat (available_tokens tb)"
    using r(1) by (simp_all add: unat_diff_le word_le_nat_alt)
  have "available_tokens tb - tokens \<le> available_tokens tb" using u by (simp add: word_le_nat_alt)
  then show "tb_ok tb'" using assms(2) r(2) by (auto simp: tb_ok_def)
  show "tb_config tb' = tb_config tb" "last_refill_timestamp tb' = last_refill_timestamp tb"
    using r(2) by (simp_all add: tb_config_def)
  show "potential tb' + int (unat tokens) * bucket_refill_interval tb = potential tb"
    using r(2) u by (simp add: potential_def of_nat_diff algebra_simps)
qed

definition total :: "u64 list \<Rightarrow> int" where
  "total ts = (\<Sum>t\<leftarrow>ts. int (unat t))"

lemma total_simps [simp]: "total [] = 0" "total (t # ts) = int (unat t) + total ts"
  by (simp_all add: total_def)

lemma police_potential:
  assumes "police fd reqs tb = Inr (granted, tb')" and "tb_ok tb"
    and fd: "\<And>d i. 0 < i \<Longrightarrow> fd d i * i \<le> d"
    and "\<And>now. now \<in> fst ` set reqs \<Longrightarrow> now \<le> t_end" and "last_refill_timestamp tb \<le> t_end"
  shows "tb_ok tb' \<and> tb_config tb' = tb_config tb \<and>
    potential tb' + total granted * bucket_refill_interval tb \<le> potential tb \<and>
    last_refill_timestamp tb' \<le> t_end"
  using assms(1,2,4,5)
proof (induction reqs arbitrary: tb granted)
  case Nil
  then show ?case by simp
next
  case (Cons req reqs)
  obtain now tokens where req: "req = (now, tokens)" by fastforce
  obtain ok tb1 where a: "AreTokensAvailable fd tokens now tb = Inr (ok, tb1)"
    using Cons.prems(1) req by (auto simp: res_simps)
  note p = AreTokensAvailable_props [OF a Cons.prems(2) fd]
  have i1: "bucket_refill_interval tb1 = bucket_refill_interval tb"
    using p(2) by (simp add: tb_config_def)
  have "now \<le> t_end" using Cons.prems(3) req by simp
  with p(4) Cons.prems(4) have end1: "last_refill_timestamp tb1 \<le> t_end" by linarith
  have ends: "\<And>now. now \<in> fst ` set reqs \<Longrightarrow> now \<le> t_end" using Cons.prems(3) by simp
  show ?case
  proof (cases ok)
    case False
    then have "police fd reqs tb1 = Inr (granted, tb')" using Cons.prems(1) req a by simp
    from Cons.IH [OF this p(1) ends end1] p i1 show ?thesis by auto
  next
    case True
    with Cons.prems(1) req a obtain tb2 gs where
      t: "RequestTokens tokens tb1 = Inr tb2" "police fd reqs tb2 = Inr (gs, tb')" "granted = tokens # gs"
      by (auto simp: res_simps)
    note q = RequestTokens_props [OF t(1) p(1)]
    have i2: "bucket_refill_interval tb2 = bucket_refill_interval tb"
      using q(2) i1 by (simp add: tb_config_def)
    have "last_refill_timestamp tb2 \<le> t_end" using q(3) end1 by simp
    from Cons.IH [OF t(2) q(1) ends this] p q i1 i2 t(3) show ?thesis by (auto simp: algebra_simps)
  qed
qed

text \<open>
  Asking and then taking never trips the \<^verbatim>\<open>CHECK_GE\<close> of \<^verbatim>\<open>RequestTokens\<close>: the client only
  stops on an interval count out of range.
\<close>

lemma police_faults:
  "police fd reqs tb = Inl e \<Longrightarrow> e = UndefinedBehaviour"
proof (induction reqs arbitrary: tb)
  case (Cons req reqs)
  then show ?case
    by (cases req)
      (auto simp: AreTokensAvailable_def RequestTokens_def Let_def res_bind_def
        split: if_splits sum.splits)
qed simp

section \<open>Properties\<close>

text \<open>
  C38. Rate conformance: a client that asks before it takes never trips the bucket's check, and
  whatever it asks for and however its clock runs, the tokens granted in a run are at most the
  tokens the bucket held plus the rate over the time from the bucket's last refill to the
  latest request (stated with the refill interval multiplied out); the bucket never
  overflows its size. The hypothesis says that the quotient is rounded down.
\<close>

theorem token_bucket_polices:
  assumes "police fd reqs tb = r" and "tb_ok tb"
    and "\<And>d i. 0 < i \<Longrightarrow> fd d i * i \<le> d"
    and "\<And>now. now \<in> fst ` set reqs \<Longrightarrow> now \<le> t_end" and "last_refill_timestamp tb \<le> t_end"
  shows "r = Inl UndefinedBehaviour \<or> (\<exists>granted tb'. r = Inr (granted, tb') \<and>
     available_tokens tb' \<le> bucket_size tb \<and>
     total granted * bucket_refill_interval tb \<le>
       int (unat (available_tokens tb)) * bucket_refill_interval tb +
       int (unat (tokens_per_refill_interval tb)) * (t_end - last_refill_timestamp tb))"
proof (cases r)
  case (Inl e)
  with assms(1) police_faults [of fd reqs tb e] show ?thesis by simp
next
  case (Inr y)
  then obtain granted tb' where r: "r = Inr (granted, tb')" by (cases y) auto
  with assms(1) have "police fd reqs tb = Inr (granted, tb')" by simp
  from police_potential [OF this assms(2-5)] have
    p: "tb_ok tb'" "tb_config tb' = tb_config tb"
    "potential tb' + total granted * bucket_refill_interval tb \<le> potential tb"
    "last_refill_timestamp tb' \<le> t_end"
    by auto
  from p(4) have "int (unat (tokens_per_refill_interval tb)) * last_refill_timestamp tb' \<le>
      int (unat (tokens_per_refill_interval tb)) * t_end"
    by (intro mult_left_mono) simp_all
  moreover have "0 \<le> int (unat (available_tokens tb')) * bucket_refill_interval tb'"
    using p(1) by (simp add: tb_ok_def)
  ultimately have "total granted * bucket_refill_interval tb \<le>
       int (unat (available_tokens tb)) * bucket_refill_interval tb +
       int (unat (tokens_per_refill_interval tb)) * (t_end - last_refill_timestamp tb)"
    using p(2,3) by (simp add: potential_def tb_config_def algebra_simps)
  with r p(1,2) show ?thesis by (auto simp: tb_ok_def tb_config_def)
qed

theorem token_bucket_polices_witness:
  "\<exists>granted tb'. police (\<lambda>d i. d div i) [(0, 40), (0, 40), (15, 30)]
      \<lparr>tokens_per_refill_interval = 20, bucket_refill_interval = 10, bucket_size = 50,
       available_tokens = 50, last_refill_timestamp = 0\<rparr> = Inr (granted, tb') \<and>
    total granted * 10 \<le> 50 * 10 + 20 * 15 \<and> total granted = 70"
proof -
  let ?tb = "\<lparr>tokens_per_refill_interval = 20, bucket_refill_interval = 10, bucket_size = 50,
       available_tokens = 50, last_refill_timestamp = 0\<rparr> :: token_bucket"
  let ?reqs = "[(0, 40), (0, 40), (15, 30)] :: (int \<times> u64) list"
  have run: "\<exists>tb'. police (\<lambda>d i. d div i) ?reqs ?tb = Inr ([40, 30], tb')"
    by (simp add: AreTokensAvailable_def RequestTokens_def Let_def refill_def check_def)
  have d: "d div i * i \<le> d" if "0 < i" for d i :: int
    using that by (metis minus_mod_eq_div_mult le_add_diff_inverse2 pos_mod_sign diff_le_eq le_add_same_cancel1)
  have "tb_ok ?tb" by (simp add: tb_ok_def)
  from token_bucket_polices [OF refl this d, where reqs = ?reqs and t_end = 15] run
  show ?thesis by auto
qed

text \<open>
  The refill is timely and exact: asked at the announced next refill time or later, the
  bucket moves its refill timestamp forward by whole intervals and, where the sum fits into 64
  bits, holds exactly the old tokens plus the rate times those intervals, capped at its size.
  The hypothesis says that the quotient is at least one when the divisor fits.
\<close>

theorem token_bucket_refills:
  assumes "AreTokensAvailable fd tokens now tb = Inr (ok, tb')"
    and "\<And>d i. 0 < i \<Longrightarrow> i \<le> d \<Longrightarrow> 1 \<le> fd d i"
    and "NextRefillTime tb \<le> now" and "0 < bucket_refill_interval tb"
    and "n = fd (now - last_refill_timestamp tb) (bucket_refill_interval tb)"
    and "unat (available_tokens tb) + nat n * unat (tokens_per_refill_interval tb) < 2 ^ 64"
  shows "1 \<le> n \<and> last_refill_timestamp tb' = last_refill_timestamp tb + n * bucket_refill_interval tb \<and>
    unat (available_tokens tb') =
      min (unat (available_tokens tb) + nat n * unat (tokens_per_refill_interval tb)) (unat (bucket_size tb)) \<and>
    (ok \<longleftrightarrow> tokens \<le> available_tokens tb')"
proof -
  let ?a = "available_tokens tb" and ?t = "tokens_per_refill_interval tb"
  have n: "1 \<le> n" using assms(2-5) by (simp add: NextRefillTime_def)
  then have r: "n < 2 ^ 31" "tb' = refill n tb" "ok \<longleftrightarrow> tokens \<le> available_tokens tb'"
    using assms(1,5) by (auto simp: AreTokensAvailable_def Let_def split: if_splits)
  have w: "(word_of_int n :: u64) = of_nat (nat n)" using n by simp
  have "word_of_int n * ?t = (of_nat (nat n * unat ?t) :: u64)" by (simp only: w) simp
  then have "unat (?a + word_of_int n * ?t) = unat ?a + nat n * unat ?t"
    using assms(6) unat_plus_of_nat [of ?a "nat n * unat ?t"] by simp
  then have "unat (available_tokens tb') = min (unat ?a + nat n * unat ?t) (unat (bucket_size tb))"
    using r(2) by (simp add: refill_def min_def word_le_nat_alt)
  with n r show ?thesis by (simp add: refill_def)
qed

theorem token_bucket_refills_witness:
  "\<exists>ok tb'. AreTokensAvailable (\<lambda>d i. d div i) 30 25
      \<lparr>tokens_per_refill_interval = 20, bucket_refill_interval = 10, bucket_size = 50,
       available_tokens = 7, last_refill_timestamp = 0\<rparr> = Inr (ok, tb') \<and>
    unat (available_tokens tb') = min (7 + 2 * 20) 50 \<and> last_refill_timestamp tb' = 20 \<and> ok"
proof -
  let ?tb = "\<lparr>tokens_per_refill_interval = 20, bucket_refill_interval = 10, bucket_size = 50,
       available_tokens = 7, last_refill_timestamp = 0\<rparr> :: token_bucket"
  obtain ok tb' where r: "AreTokensAvailable (\<lambda>d i. d div i) 30 25 ?tb = Inr (ok, tb')"
    by (simp add: AreTokensAvailable_def Let_def)
  have d: "1 \<le> d div i" if "0 < i" "i \<le> d" for d i :: int
    using that by (simp add: pos_imp_zdiv_pos_iff int_one_le_iff_zero_less)
  from token_bucket_refills [OF r d, of 2] have
    "last_refill_timestamp tb' = 20" "unat (available_tokens tb') = min (7 + 2 * 20) 50"
    "ok \<longleftrightarrow> 30 \<le> available_tokens tb'"
    by (simp_all add: NextRefillTime_def)
  moreover from this(2,3) have ok by (simp add: word_le_nat_alt)
  ultimately show ?thesis using r by auto
qed

end
