(* ===== verification/Admission_Control.thy ===== *)
theory Admission_Control
  imports Token_Bucket Reorder_Engine
begin

text \<open>
  The admission control manager of
  \<^verbatim>\<open>src/isekai/host/falcon/gen1/admission_control_manager.{h,cc}\<close>: a solicitation window, a
  receive and a transmit rate limiter, combined by the configured policy.

  \<^item> \<open>conns\<close> is the connection table; \<open>now\<close> the environment's clock.
  \<^item> The floating-point conversions of the rate and of the token buckets are the parameters
    \<open>per_sec\<close>, \<open>tokens_of\<close> and \<open>floor_fdiv\<close> (the latter two as in the token bucket).
  \<^item> A window or bucket the policy did not create is a null pointer: using it is undefined.
  \<^item> The latency samples of a refund are outputs; counters and statistics are left out.

  The theorems show that checking before reserving never trips the limiters, and that the window
  accounts exactly for the outstanding solicited bytes and never exceeds its limit nor wraps.
\<close>

section \<open>State\<close>

datatype admission_control_policy =
    RX_WINDOW_BASED
  | RX_RATE_BASED
  | TX_RATE_BASED
  | RX_TX_RATE_BASED
  | RX_TX_RATE_RX_WINDOW_BASED

record rate_limiter_metadata =
  solicitation_rate_gbps :: u64
  burst_size_bytes :: u64
  refill_interval_ns :: u64

record ac_config =
  ac_policy :: admission_control_policy
  cfg_admission_window_bytes :: int   \<comment> \<open>\<^verbatim>\<open>int32\<close>\<close>
  rx_rate_limiter_metadata :: rate_limiter_metadata
  tx_rate_limiter_metadata :: rate_limiter_metadata

record window_state =
  admission_window_bytes :: u64
  solicited_data_bytes :: u64

record admission =
  ac_window :: "window_state option"
  rx_bucket :: "token_bucket option"
  tx_bucket :: "token_bucket option"

section \<open>Construction\<close>

definition InitRxWindowAdmissionControl :: "ac_config \<Rightarrow> admission \<Rightarrow> admission" where
  "InitRxWindowAdmissionControl cfg a =
     a\<lparr>ac_window := Some \<lparr>admission_window_bytes = word_of_int (cfg_admission_window_bytes cfg),
                         solicited_data_bytes = 0\<rparr>\<rparr>"

definition limiter_bucket ::
  "(u64 \<Rightarrow> u64) \<Rightarrow> (u64 \<Rightarrow> int \<Rightarrow> u64) \<Rightarrow> rate_limiter_metadata \<Rightarrow> token_bucket res" where
  "limiter_bucket per_sec tokens_of l =
     TokenBucket_new tokens_of (per_sec (solicitation_rate_gbps l)) (sint (refill_interval_ns l))
       (burst_size_bytes l)"

definition InitRxRateLimiter ::
  "(u64 \<Rightarrow> u64) \<Rightarrow> (u64 \<Rightarrow> int \<Rightarrow> u64) \<Rightarrow> ac_config \<Rightarrow> admission \<Rightarrow> admission res" where
  "InitRxRateLimiter per_sec tokens_of cfg a =
     res_bind (limiter_bucket per_sec tokens_of (rx_rate_limiter_metadata cfg)) (\<lambda>b. Inr (a\<lparr>rx_bucket := Some b\<rparr>))"

definition InitTxRateLimiter ::
  "(u64 \<Rightarrow> u64) \<Rightarrow> (u64 \<Rightarrow> int \<Rightarrow> u64) \<Rightarrow> ac_config \<Rightarrow> admission \<Rightarrow> admission res" where
  "InitTxRateLimiter per_sec tokens_of cfg a =
     res_bind (limiter_bucket per_sec tokens_of (tx_rate_limiter_metadata cfg)) (\<lambda>b. Inr (a\<lparr>tx_bucket := Some b\<rparr>))"

definition AdmissionControlManager_new ::
  "(u64 \<Rightarrow> u64) \<Rightarrow> (u64 \<Rightarrow> int \<Rightarrow> u64) \<Rightarrow> ac_config \<Rightarrow> admission res" where
  "AdmissionControlManager_new per_sec tokens_of cfg =
     (let a = \<lparr>ac_window = None, rx_bucket = None, tx_bucket = None\<rparr>;
          rx = InitRxRateLimiter per_sec tokens_of cfg; tx = InitTxRateLimiter per_sec tokens_of cfg
      in case ac_policy cfg of
           RX_WINDOW_BASED \<Rightarrow> Inr (InitRxWindowAdmissionControl cfg a)
         | RX_RATE_BASED \<Rightarrow> rx a
         | TX_RATE_BASED \<Rightarrow> tx a
         | RX_TX_RATE_BASED \<Rightarrow> res_bind (rx a) tx
         | RX_TX_RATE_RX_WINDOW_BASED \<Rightarrow>
             res_bind (res_bind (rx a) tx) (\<lambda>a'. Inr (InitRxWindowAdmissionControl cfg a')))"

section \<open>Checking\<close>

definition solicits :: "packet_type \<Rightarrow> bool" where
  "solicits type \<longleftrightarrow> type = kPullRequest \<or> type = kPushGrant"

definition MeetsRxWindowBasedAdmissionCriteria :: "u64 \<Rightarrow> packet_type \<Rightarrow> admission \<Rightarrow> bool res" where
  "MeetsRxWindowBasedAdmissionCriteria request_length type a =
     (if solicits type
      then (case ac_window a of
              None \<Rightarrow> Inl UndefinedBehaviour
            | Some w \<Rightarrow> Inr (request_length \<le> admission_window_bytes w - solicited_data_bytes w))
      else Inr True)"

definition MeetsRxRateBasedAdmissionCriteria ::
  "(int \<Rightarrow> int \<Rightarrow> int) \<Rightarrow> int \<Rightarrow> u64 \<Rightarrow> packet_type \<Rightarrow> admission \<Rightarrow> (bool \<times> admission) res" where
  "MeetsRxRateBasedAdmissionCriteria fd now request_length type a =
     (if solicits type
      then (case rx_bucket a of
              None \<Rightarrow> Inl UndefinedBehaviour
            | Some b \<Rightarrow> res_bind (AreTokensAvailable fd request_length now b) (\<lambda>(ok, b').
                Inr (ok, a\<lparr>rx_bucket := Some b'\<rparr>)))
      else Inr (True, a))"

definition MeetsTxRateBasedAdmissionCriteria ::
  "(int \<Rightarrow> int \<Rightarrow> int) \<Rightarrow> int \<Rightarrow> u64 \<Rightarrow> packet_type \<Rightarrow> admission \<Rightarrow> (bool \<times> admission) res" where
  "MeetsTxRateBasedAdmissionCriteria fd now request_length type a =
     (if type = kPushRequest
      then (case tx_bucket a of
              None \<Rightarrow> Inl UndefinedBehaviour
            | Some b \<Rightarrow> res_bind (AreTokensAvailable fd request_length now b) (\<lambda>(ok, b').
                Inr (ok, a\<lparr>tx_bucket := Some b'\<rparr>)))
      else Inr (True, a))"

text \<open>Both limiters are consulted, so both are brought up to date, whatever the first one says.\<close>

definition MeetsAdmissionControlCriteria_length ::
  "ac_config \<Rightarrow> (int \<Rightarrow> int \<Rightarrow> int) \<Rightarrow> int \<Rightarrow> u64 \<Rightarrow> packet_type \<Rightarrow> admission \<Rightarrow> (bool \<times> admission) res" where
  "MeetsAdmissionControlCriteria_length cfg fd now request_length type a =
     (case ac_policy cfg of
        RX_WINDOW_BASED \<Rightarrow> res_bind (MeetsRxWindowBasedAdmissionCriteria request_length type a) (\<lambda>ok. Inr (ok, a))
      | RX_RATE_BASED \<Rightarrow> MeetsRxRateBasedAdmissionCriteria fd now request_length type a
      | TX_RATE_BASED \<Rightarrow> MeetsTxRateBasedAdmissionCriteria fd now request_length type a
      | RX_TX_RATE_BASED \<Rightarrow>
          res_bind (MeetsRxRateBasedAdmissionCriteria fd now request_length type a) (\<lambda>(rx, a1).
          res_bind (MeetsTxRateBasedAdmissionCriteria fd now request_length type a1) (\<lambda>(tx, a2).
            Inr (tx \<and> rx, a2)))
      | RX_TX_RATE_RX_WINDOW_BASED \<Rightarrow>
          res_bind (MeetsRxRateBasedAdmissionCriteria fd now request_length type a) (\<lambda>(rx, a1).
          res_bind (MeetsTxRateBasedAdmissionCriteria fd now request_length type a1) (\<lambda>(tx, a2).
          res_bind (MeetsRxWindowBasedAdmissionCriteria request_length type a2) (\<lambda>w.
            Inr (tx \<and> rx \<and> w, a2)))))"

definition MeetsAdmissionControlCriteria ::
  "ac_config \<Rightarrow> (int \<Rightarrow> int \<Rightarrow> int) \<Rightarrow> int \<Rightarrow> (u32 \<rightharpoonup> connection_state) \<Rightarrow> u32 \<Rightarrow> u32 \<Rightarrow> packet_type \<Rightarrow>
   admission \<Rightarrow> (bool \<times> admission) res" where
  "MeetsAdmissionControlCriteria cfg fd now conns scid rsn type a =
     (case PerformDirectLookup conns scid of
        Inl _ \<Rightarrow> Inl CheckFailed
      | Inr cs \<Rightarrow> res_bind (GetTransactionLocation type False) (\<lambda>loc.
          case GetTransaction cs (rsn, loc) of
            Inl _ \<Rightarrow> Inl CheckFailed
          | Inr t \<Rightarrow> MeetsAdmissionControlCriteria_length cfg fd now (ucast (tm_request_length t)) type a))"

section \<open>Reserving and refunding\<close>

definition ReserveRxWindowBasedAdmissionResources ::
  "int \<Rightarrow> u64 \<Rightarrow> packet_type \<Rightarrow> transaction_metadata \<Rightarrow> admission \<Rightarrow> (transaction_metadata \<times> admission) res" where
  "ReserveRxWindowBasedAdmissionResources now request_length type t a =
     (if solicits type
      then (case ac_window a of
              None \<Rightarrow> Inl UndefinedBehaviour
            | Some w \<Rightarrow> Inr (t\<lparr>tm_solicitation_window_reservation_timestamp := Finite now\<rparr>,
                a\<lparr>ac_window := Some (w\<lparr>solicited_data_bytes := solicited_data_bytes w + request_length\<rparr>)\<rparr>))
      else Inr (t, a))"

definition ReserveRxRateBasedAdmissionResources :: "u64 \<Rightarrow> packet_type \<Rightarrow> admission \<Rightarrow> admission res" where
  "ReserveRxRateBasedAdmissionResources request_length type a =
     (if solicits type
      then (case rx_bucket a of
              None \<Rightarrow> Inl UndefinedBehaviour
            | Some b \<Rightarrow> res_bind (RequestTokens request_length b) (\<lambda>b'. Inr (a\<lparr>rx_bucket := Some b'\<rparr>)))
      else Inr a)"

definition ReserveTxRateBasedAdmissionResources :: "u64 \<Rightarrow> packet_type \<Rightarrow> admission \<Rightarrow> admission res" where
  "ReserveTxRateBasedAdmissionResources request_length type a =
     (if type = kPushRequest
      then (case tx_bucket a of
              None \<Rightarrow> Inl UndefinedBehaviour
            | Some b \<Rightarrow> res_bind (RequestTokens request_length b) (\<lambda>b'. Inr (a\<lparr>tx_bucket := Some b'\<rparr>)))
      else Inr a)"

text \<open>The \<^verbatim>\<open>switch\<close> on the policy.\<close>

definition reserve_switch ::
  "ac_config \<Rightarrow> int \<Rightarrow> packet_type \<Rightarrow> transaction_metadata \<Rightarrow> admission \<Rightarrow> (transaction_metadata \<times> admission) res" where
  "reserve_switch cfg now type t a =
     (let request_length = ucast (tm_request_length t) :: u64
      in case ac_policy cfg of
           RX_WINDOW_BASED \<Rightarrow> ReserveRxWindowBasedAdmissionResources now request_length type t a
         | RX_RATE_BASED \<Rightarrow>
             res_bind (ReserveRxRateBasedAdmissionResources request_length type a) (\<lambda>a1. Inr (t, a1))
         | TX_RATE_BASED \<Rightarrow>
             res_bind (ReserveTxRateBasedAdmissionResources request_length type a) (\<lambda>a1. Inr (t, a1))
         | RX_TX_RATE_BASED \<Rightarrow>
             res_bind (ReserveRxRateBasedAdmissionResources request_length type a) (\<lambda>a1.
             res_bind (ReserveTxRateBasedAdmissionResources request_length type a1) (\<lambda>a2. Inr (t, a2)))
         | RX_TX_RATE_RX_WINDOW_BASED \<Rightarrow>
             res_bind (ReserveRxRateBasedAdmissionResources request_length type a) (\<lambda>a1.
             res_bind (ReserveTxRateBasedAdmissionResources request_length type a1) (\<lambda>a2.
               ReserveRxWindowBasedAdmissionResources now request_length type t a2)))"

definition ReserveAdmissionControlResource ::
  "ac_config \<Rightarrow> int \<Rightarrow> u32 \<Rightarrow> u32 \<Rightarrow> packet_type \<Rightarrow> (u32 \<rightharpoonup> connection_state) \<Rightarrow> admission \<Rightarrow>
   (status \<times> (u32 \<rightharpoonup> connection_state) \<times> admission) res" where
  "ReserveAdmissionControlResource cfg now scid rsn type conns a =
     (case PerformDirectLookup conns scid of
        Inl e \<Rightarrow> Inr (e, conns, a)
      | Inr cs \<Rightarrow> res_bind (GetTransactionLocation type False) (\<lambda>loc.
          case GetTransaction cs (rsn, loc) of
            Inl e \<Rightarrow> Inr (e, conns, a)
          | Inr t \<Rightarrow> res_bind (reserve_switch cfg now type t a) (\<lambda>(t', a').
              Inr (OkStatus, conns(scid \<mapsto> put_transaction (rsn, loc) t' cs), a'))))"

fun window_latency :: "transaction_type \<Rightarrow> latency_type res" where
  "window_latency kPull = Inr Pull_kTxNetworkRequestToTxUlpData"
| "window_latency kPushSolicited = Inr PushSolicited_kTxNetworkGrantToTxUlpData"
| "window_latency kPushUnsolicited = Inl LogFatal"

definition RefundAdmissionControlResource ::
  "ac_config \<Rightarrow> int \<Rightarrow> (u32 \<rightharpoonup> connection_state) \<Rightarrow> u32 \<Rightarrow> transaction_key \<Rightarrow> admission \<Rightarrow>
   (status \<times> sample list \<times> admission) res" where
  "RefundAdmissionControlResource cfg now conns scid key a =
     (if ac_policy cfg = RX_WINDOW_BASED \<or> ac_policy cfg = RX_TX_RATE_RX_WINDOW_BASED
      then (case PerformDirectLookup conns scid of
              Inl e \<Rightarrow> Inr (e, [], a)
            | Inr cs \<Rightarrow>
               (case GetTransaction cs key of
                  Inl e \<Rightarrow> Inr (e, [], a)
                | Inr t \<Rightarrow>
                   (case ac_window a of
                      None \<Rightarrow> Inl UndefinedBehaviour
                    | Some w \<Rightarrow>
                        res_bind (window_latency (tm_type t)) (\<lambda>l.
                          Inr (OkStatus,
                            [(l, dur_diff (Finite now) (tm_solicitation_window_reservation_timestamp t))],
                            a\<lparr>ac_window := Some (w\<lparr>solicited_data_bytes :=
                                solicited_data_bytes w - ucast (tm_request_length t)\<rparr>)\<rparr>)))))
      else Inr (OkStatus, [], a))"

section \<open>Lemmas\<close>

definition uses_window :: "admission_control_policy \<Rightarrow> bool" where
  "uses_window p \<longleftrightarrow> p = RX_WINDOW_BASED \<or> p = RX_TX_RATE_RX_WINDOW_BASED"

definition uses_rx :: "admission_control_policy \<Rightarrow> bool" where
  "uses_rx p \<longleftrightarrow> p = RX_RATE_BASED \<or> p = RX_TX_RATE_BASED \<or> p = RX_TX_RATE_RX_WINDOW_BASED"

definition uses_tx :: "admission_control_policy \<Rightarrow> bool" where
  "uses_tx p \<longleftrightarrow> p = TX_RATE_BASED \<or> p = RX_TX_RATE_BASED \<or> p = RX_TX_RATE_RX_WINDOW_BASED"

definition bucket_has :: "u64 \<Rightarrow> token_bucket option \<Rightarrow> bool" where
  "bucket_has n b \<longleftrightarrow> (\<exists>tb. b = Some tb \<and> n \<le> available_tokens tb)"

definition window_has :: "u64 \<Rightarrow> admission \<Rightarrow> bool" where
  "window_has n a \<longleftrightarrow> (\<exists>w. ac_window a = Some w \<and> n \<le> admission_window_bytes w - solicited_data_bytes w)"

lemma AreTokensAvailable_ok: "AreTokensAvailable fd n now tb = Inr (ok, tb') \<Longrightarrow> ok \<longleftrightarrow> n \<le> available_tokens tb'"
  by (auto simp: AreTokensAvailable_def Let_def split: if_splits)

lemma rx_met:
  assumes "MeetsRxRateBasedAdmissionCriteria fd now n type a = Inr (ok, a')"
  shows "ac_window a' = ac_window a \<and> tx_bucket a' = tx_bucket a \<and> (ok \<and> solicits type \<longrightarrow> bucket_has n (rx_bucket a'))"
  using assms AreTokensAvailable_ok
  by (fastforce simp: MeetsRxRateBasedAdmissionCriteria_def bucket_has_def res_simps split: if_splits option.splits)

lemma tx_met:
  assumes "MeetsTxRateBasedAdmissionCriteria fd now n type a = Inr (ok, a')"
  shows "ac_window a' = ac_window a \<and> rx_bucket a' = rx_bucket a \<and> (ok \<and> type = kPushRequest \<longrightarrow> bucket_has n (tx_bucket a'))"
  using assms AreTokensAvailable_ok
  by (fastforce simp: MeetsTxRateBasedAdmissionCriteria_def bucket_has_def res_simps split: if_splits option.splits)

lemma window_met:
  assumes "MeetsRxWindowBasedAdmissionCriteria n type a = Inr ok"
  shows "ok \<and> solicits type \<longrightarrow> window_has n a"
  using assms by (auto simp: MeetsRxWindowBasedAdmissionCriteria_def window_has_def split: if_splits option.splits)

lemma criteria_met:
  assumes "MeetsAdmissionControlCriteria_length cfg fd now n type a = Inr (ok, a')"
  shows "ac_window a' = ac_window a \<and>
    (ok \<longrightarrow> (uses_window (ac_policy cfg) \<and> solicits type \<longrightarrow> window_has n a') \<and>
       (uses_rx (ac_policy cfg) \<and> solicits type \<longrightarrow> bucket_has n (rx_bucket a')) \<and>
       (uses_tx (ac_policy cfg) \<and> type = kPushRequest \<longrightarrow> bucket_has n (tx_bucket a')))"
proof (cases "ac_policy cfg")
  case RX_WINDOW_BASED
  then show ?thesis using assms window_met
    by (auto simp: MeetsAdmissionControlCriteria_length_def uses_window_def uses_rx_def uses_tx_def res_simps)
next
  case RX_RATE_BASED
  then show ?thesis using assms rx_met
    by (auto simp: MeetsAdmissionControlCriteria_length_def uses_window_def uses_rx_def uses_tx_def)
next
  case TX_RATE_BASED
  then show ?thesis using assms tx_met
    by (auto simp: MeetsAdmissionControlCriteria_length_def uses_window_def uses_rx_def uses_tx_def)
next
  case RX_TX_RATE_BASED
  then obtain rx a1 tx where r: "MeetsRxRateBasedAdmissionCriteria fd now n type a = Inr (rx, a1)"
    "MeetsTxRateBasedAdmissionCriteria fd now n type a1 = Inr (tx, a')" "ok \<longleftrightarrow> tx \<and> rx"
    using assms by (auto simp: MeetsAdmissionControlCriteria_length_def res_simps)
  then show ?thesis using rx_met [OF r(1)] tx_met [OF r(2)] RX_TX_RATE_BASED by (auto simp: uses_window_def)
next
  case RX_TX_RATE_RX_WINDOW_BASED
  then obtain rx a1 tx w where r: "MeetsRxRateBasedAdmissionCriteria fd now n type a = Inr (rx, a1)"
    "MeetsTxRateBasedAdmissionCriteria fd now n type a1 = Inr (tx, a')"
    "MeetsRxWindowBasedAdmissionCriteria n type a' = Inr w" "ok \<longleftrightarrow> tx \<and> rx \<and> w"
    using assms by (auto simp: MeetsAdmissionControlCriteria_length_def res_simps)
  then show ?thesis using rx_met [OF r(1)] tx_met [OF r(2)] window_met [OF r(3)] by auto
qed

definition take_tokens :: "u64 \<Rightarrow> token_bucket \<Rightarrow> token_bucket" where
  "take_tokens n b = b\<lparr>available_tokens := available_tokens b - n\<rparr>"

definition solicit :: "u64 \<Rightarrow> window_state \<Rightarrow> window_state" where
  "solicit n w = w\<lparr>solicited_data_bytes := solicited_data_bytes w + n\<rparr>"

text \<open>What reserving \<open>n\<close> bytes for a packet of a type changes, resource by resource.\<close>

definition charged :: "admission_control_policy \<Rightarrow> u64 \<Rightarrow> packet_type \<Rightarrow> admission \<Rightarrow> admission" where
  "charged p n type a =
     \<lparr>ac_window = (if uses_window p \<and> solicits type then map_option (solicit n) (ac_window a) else ac_window a),
      rx_bucket = (if uses_rx p \<and> solicits type then map_option (take_tokens n) (rx_bucket a) else rx_bucket a),
      tx_bucket = (if uses_tx p \<and> type = kPushRequest then map_option (take_tokens n) (tx_bucket a) else tx_bucket a)\<rparr>"

lemma reserve_rx:
  "solicits type \<longrightarrow> bucket_has n (rx_bucket a) \<Longrightarrow> ReserveRxRateBasedAdmissionResources n type a =
     Inr (a\<lparr>rx_bucket := (if solicits type then map_option (take_tokens n) (rx_bucket a) else rx_bucket a)\<rparr>)"
  by (auto simp: ReserveRxRateBasedAdmissionResources_def RequestTokens_def bucket_has_def take_tokens_def)

lemma reserve_tx:
  "type = kPushRequest \<longrightarrow> bucket_has n (tx_bucket a) \<Longrightarrow> ReserveTxRateBasedAdmissionResources n type a =
     Inr (a\<lparr>tx_bucket := (if type = kPushRequest then map_option (take_tokens n) (tx_bucket a) else tx_bucket a)\<rparr>)"
  by (auto simp: ReserveTxRateBasedAdmissionResources_def RequestTokens_def bucket_has_def take_tokens_def)

lemma reserve_window:
  "solicits type \<longrightarrow> ac_window a \<noteq> None \<Longrightarrow> \<exists>t'. ReserveRxWindowBasedAdmissionResources now n type t a =
     Inr (t', a\<lparr>ac_window := (if solicits type then map_option (solicit n) (ac_window a) else ac_window a)\<rparr>) \<and>
     tm_request_length t' = tm_request_length t"
  by (auto simp: ReserveRxWindowBasedAdmissionResources_def solicit_def)

lemmas uses_defs = uses_window_def uses_rx_def uses_tx_def

lemma reserve_switch_charges:
  assumes "n = ucast (tm_request_length t)"
    and "uses_window (ac_policy cfg) \<and> solicits type \<longrightarrow> window_has n a"
    and "uses_rx (ac_policy cfg) \<and> solicits type \<longrightarrow> bucket_has n (rx_bucket a)"
    and "uses_tx (ac_policy cfg) \<and> type = kPushRequest \<longrightarrow> bucket_has n (tx_bucket a)"
  shows "\<exists>t'. reserve_switch cfg now type t a = Inr (t', charged (ac_policy cfg) n type a) \<and>
    tm_request_length t' = tm_request_length t"
proof (cases "ac_policy cfg")
  case RX_WINDOW_BASED
  then show ?thesis using assms reserve_window [of type a now n t]
    by (auto simp: reserve_switch_def charged_def uses_defs window_has_def)
next
  case RX_RATE_BASED
  then show ?thesis using assms by (simp add: reserve_switch_def reserve_rx charged_def uses_defs)
next
  case TX_RATE_BASED
  then show ?thesis using assms by (simp add: reserve_switch_def reserve_tx charged_def uses_defs)
next
  case RX_TX_RATE_BASED
  then show ?thesis using assms by (simp add: reserve_switch_def reserve_rx reserve_tx charged_def uses_defs Let_def)
next
  case RX_TX_RATE_RX_WINDOW_BASED
  let ?a2 = "a\<lparr>rx_bucket := (if solicits type then map_option (take_tokens n) (rx_bucket a) else rx_bucket a),
      tx_bucket := (if type = kPushRequest then map_option (take_tokens n) (tx_bucket a) else tx_bucket a)\<rparr>"
  have "reserve_switch cfg now type t a = ReserveRxWindowBasedAdmissionResources now n type t ?a2"
    using assms RX_TX_RATE_RX_WINDOW_BASED by (simp add: reserve_switch_def reserve_rx reserve_tx uses_defs Let_def)
  moreover have "solicits type \<longrightarrow> ac_window ?a2 \<noteq> None"
    using assms(2) RX_TX_RATE_RX_WINDOW_BASED by (auto simp: uses_window_def window_has_def)
  ultimately show ?thesis
    using reserve_window [of type ?a2 now n t] RX_TX_RATE_RX_WINDOW_BASED by (auto simp: charged_def uses_defs)
qed

definition txn_bytes :: "(u32 \<rightharpoonup> connection_state) \<Rightarrow> u32 \<Rightarrow> transaction_key \<Rightarrow> u64" where
  "txn_bytes conns scid key =
     (case conns scid of None \<Rightarrow> 0
      | Some cs \<Rightarrow> (case cs_transactions cs key of None \<Rightarrow> 0 | Some t \<Rightarrow> ucast (tm_request_length t)))"

lemma checked_reservation:
  assumes "MeetsAdmissionControlCriteria cfg fd now conns scid rsn type a = Inr (True, a1)"
    and "GetTransactionLocation type False = Inr loc"
  shows "ac_window a1 = ac_window a \<and>
    (uses_window (ac_policy cfg) \<and> solicits type \<longrightarrow> window_has (txn_bytes conns scid (rsn, loc)) a1) \<and>
    (\<exists>conns'. ReserveAdmissionControlResource cfg now' scid rsn type conns a1 =
      Inr (OkStatus, conns', charged (ac_policy cfg) (txn_bytes conns scid (rsn, loc)) type a1) \<and>
      txn_bytes conns' = txn_bytes conns)"
proof -
  obtain cs t where cs: "conns scid = Some cs" "cs_transactions cs (rsn, loc) = Some t"
    "MeetsAdmissionControlCriteria_length cfg fd now (ucast (tm_request_length t)) type a = Inr (True, a1)"
    using assms by (auto simp: MeetsAdmissionControlCriteria_def PerformDirectLookup_def GetTransaction_def split: option.splits)
  let ?n = "ucast (tm_request_length t) :: u64"
  have n: "txn_bytes conns scid (rsn, loc) = ?n" using cs by (simp add: txn_bytes_def)
  note c = criteria_met [OF cs(3)]
  obtain t' where t': "reserve_switch cfg now' type t a1 = Inr (t', charged (ac_policy cfg) ?n type a1)"
    "tm_request_length t' = tm_request_length t"
    using reserve_switch_charges [of ?n t cfg type a1 now'] c by auto
  have "ReserveAdmissionControlResource cfg now' scid rsn type conns a1 =
      Inr (OkStatus, conns(scid \<mapsto> put_transaction (rsn, loc) t' cs), charged (ac_policy cfg) ?n type a1)"
    using cs t'(1) assms(2) by (simp add: ReserveAdmissionControlResource_def PerformDirectLookup_def GetTransaction_def)
  moreover have "txn_bytes (conns(scid \<mapsto> put_transaction (rsn, loc) t' cs)) = txn_bytes conns"
    using cs t'(2) by (auto simp: txn_bytes_def put_transaction_def fun_eq_iff)
  ultimately show ?thesis using c n by auto
qed

section \<open>Runs\<close>

text \<open>
  What the rest of the program does with the manager: it reserves only after a positive check,
  refunds each reservation at most once, and changes connections in other ways without
  changing the request length of a transaction that holds a reservation. \<open>out\<close> lists the
  transactions that hold window bytes.
\<close>

inductive ac_run ::
  "(u64 \<Rightarrow> u64) \<Rightarrow> (u64 \<Rightarrow> int \<Rightarrow> u64) \<Rightarrow> (int \<Rightarrow> int \<Rightarrow> int) \<Rightarrow> ac_config \<Rightarrow>
     (u32 \<rightharpoonup> connection_state) \<Rightarrow> admission \<Rightarrow> (u32 \<times> transaction_key) list \<Rightarrow> bool"
  for per_sec tokens_of fd cfg where
  start: "AdmissionControlManager_new per_sec tokens_of cfg = Inr a \<Longrightarrow> ac_run per_sec tokens_of fd cfg conns a []"
| refused: "ac_run per_sec tokens_of fd cfg conns a out \<Longrightarrow>
    MeetsAdmissionControlCriteria cfg fd now conns scid rsn type a = Inr (False, a') \<Longrightarrow>
    ac_run per_sec tokens_of fd cfg conns a' out"
| admitted: "ac_run per_sec tokens_of fd cfg conns a out \<Longrightarrow>
    MeetsAdmissionControlCriteria cfg fd now conns scid rsn type a = Inr (True, a1) \<Longrightarrow>
    GetTransactionLocation type False = Inr loc \<Longrightarrow>
    ReserveAdmissionControlResource cfg now' scid rsn type conns a1 = Inr (st, conns', a') \<Longrightarrow>
    ac_run per_sec tokens_of fd cfg conns' a' (if solicits type then (scid, (rsn, loc)) # out else out)"
| refunded: "ac_run per_sec tokens_of fd cfg conns a out \<Longrightarrow> (scid, key) \<in> set out \<Longrightarrow>
    RefundAdmissionControlResource cfg now conns scid key a = Inr (OkStatus, ls, a') \<Longrightarrow>
    ac_run per_sec tokens_of fd cfg conns a' (remove1 (scid, key) out)"
| elsewhere: "ac_run per_sec tokens_of fd cfg conns a out \<Longrightarrow>
    (\<And>scid key. (scid, key) \<in> set out \<Longrightarrow> txn_bytes conns' scid key = txn_bytes conns scid key) \<Longrightarrow>
    ac_run per_sec tokens_of fd cfg conns' a out"

definition out_bytes :: "(u32 \<rightharpoonup> connection_state) \<Rightarrow> (u32 \<times> transaction_key) list \<Rightarrow> nat" where
  "out_bytes conns out = (\<Sum>(scid, key)\<leftarrow>out. unat (txn_bytes conns scid key))"

definition window_exact :: "(u32 \<rightharpoonup> connection_state) \<Rightarrow> (u32 \<times> transaction_key) list \<Rightarrow> window_state \<Rightarrow> bool" where
  "window_exact conns out w \<longleftrightarrow> unat (solicited_data_bytes w) = out_bytes conns out \<and>
     solicited_data_bytes w \<le> admission_window_bytes w"

lemma out_bytes_simps [simp]:
  "out_bytes conns [] = 0"
  "out_bytes conns ((scid, key) # out) = unat (txn_bytes conns scid key) + out_bytes conns out"
  by (simp_all add: out_bytes_def)

lemma out_bytes_remove1:
  "(scid, key) \<in> set out \<Longrightarrow> out_bytes conns out = unat (txn_bytes conns scid key) + out_bytes conns (remove1 (scid, key) out)"
  by (induction out) auto

lemma out_bytes_cong:
  "(\<And>scid key. (scid, key) \<in> set out \<Longrightarrow> txn_bytes conns' scid key = txn_bytes conns scid key) \<Longrightarrow>
     out_bytes conns' out = out_bytes conns out"
  by (induction out) auto

lemma window_exact_solicit:
  assumes "window_exact conns out w" and "txn_bytes conns scid key \<le> admission_window_bytes w - solicited_data_bytes w"
  shows "window_exact conns ((scid, key) # out) (solicit (txn_bytes conns scid key) w)"
proof -
  let ?n = "txn_bytes conns scid key" and ?s = "solicited_data_bytes w" and ?w = "admission_window_bytes w"
  have "unat (?w - ?s) = unat ?w - unat ?s" using assms(1) by (simp add: window_exact_def unat_diff_le)
  then have le: "unat ?s + unat ?n \<le> unat ?w"
    using assms by (auto simp: window_exact_def word_le_nat_alt)
  moreover have "unat ?w < 2 ^ 64" using unsigned_less [of ?w] by simp
  ultimately have "unat (?s + ?n) = unat ?s + unat ?n" by (simp add: unat_word_ariths(1))
  then show ?thesis using assms(1) le by (simp add: window_exact_def solicit_def word_le_nat_alt)
qed

lemma window_exact_refund:
  assumes "window_exact conns out w" and "(scid, key) \<in> set out"
  shows "window_exact conns (remove1 (scid, key) out)
    (w\<lparr>solicited_data_bytes := solicited_data_bytes w - txn_bytes conns scid key\<rparr>)"
proof -
  let ?n = "txn_bytes conns scid key" and ?s = "solicited_data_bytes w"
  have s: "unat ?s = unat ?n + out_bytes conns (remove1 (scid, key) out)"
    using assms out_bytes_remove1 by (simp add: window_exact_def)
  then have "unat (?s - ?n) = unat ?s - unat ?n" by (simp add: unat_diff_le word_le_nat_alt)
  then show ?thesis using assms(1) s by (simp add: window_exact_def word_le_nat_alt)
qed

lemma criteria_window:
  assumes "MeetsAdmissionControlCriteria cfg fd now conns scid rsn type a = Inr (ok, a')"
  shows "ac_window a' = ac_window a"
proof -
  obtain n where "MeetsAdmissionControlCriteria_length cfg fd now n type a = Inr (ok, a')"
    using assms by (auto simp: MeetsAdmissionControlCriteria_def GetTransaction_def PerformDirectLookup_def res_simps
        split: option.splits)
  then show ?thesis using criteria_met by blast
qed

lemma ac_run_window:
  assumes "ac_run per_sec tokens_of fd cfg conns a out" and "uses_window (ac_policy cfg)"
  shows "\<exists>w. ac_window a = Some w \<and> window_exact conns out w \<and>
    admission_window_bytes w = word_of_int (cfg_admission_window_bytes cfg)"
  using assms(1)
proof (induction rule: ac_run.induct)
  case (start a conns)
  then show ?case using assms(2)
    by (auto simp: AdmissionControlManager_new_def uses_window_def InitRxWindowAdmissionControl_def
        window_exact_def res_simps Let_def)
next
  case (refused conns a out now scid rsn type a')
  then show ?case using criteria_window by simp
next
  case (admitted conns a out now scid rsn type a1 loc now' st conns' a')
  note c = checked_reservation [OF admitted(2,3), of now']
  have b: "txn_bytes conns' = txn_bytes conns"
    and a': "a' = charged (ac_policy cfg) (txn_bytes conns scid (rsn, loc)) type a1" and w1: "ac_window a1 = ac_window a"
    using c admitted(4) by auto
  obtain w where w: "ac_window a = Some w" "window_exact conns out w"
    "admission_window_bytes w = word_of_int (cfg_admission_window_bytes cfg)" using admitted.IH by blast
  have ex: "window_exact conns' o' v = window_exact conns o' v" for o' v
    using b out_bytes_cong [of o' conns' conns] by (simp add: window_exact_def)
  show ?case
  proof (cases "solicits type")
    case True
    then have "txn_bytes conns scid (rsn, loc) \<le> admission_window_bytes w - solicited_data_bytes w"
      using c w(1) w1 assms(2) by (auto simp: window_has_def)
    then show ?thesis
      using window_exact_solicit [OF w(2)] True w w1 a' assms(2) ex by (simp add: charged_def) (simp add: solicit_def)
  next
    case False
    then show ?thesis using w w1 a' ex by (simp add: charged_def)
  qed
next
  case (refunded conns a out scid key now ls a')
  obtain w where w: "ac_window a = Some w" "window_exact conns out w"
    "admission_window_bytes w = word_of_int (cfg_admission_window_bytes cfg)" using refunded.IH by blast
  have "ac_window a' = Some (w\<lparr>solicited_data_bytes := solicited_data_bytes w - txn_bytes conns scid key\<rparr>)"
    using refunded(3) w(1) assms(2)
    by (auto simp: RefundAdmissionControlResource_def uses_window_def PerformDirectLookup_def GetTransaction_def
        txn_bytes_def res_simps split: option.splits)
  then show ?case using window_exact_refund [OF w(2) refunded(2)] w(3) by simp
next
  case (elsewhere conns a out conns')
  then show ?case using out_bytes_cong [of out conns' conns] by (auto simp: window_exact_def)
qed

section \<open>Properties\<close>

text \<open>A connection with one pull transaction of a hundred bytes, and a window of four kilobytes.\<close>

definition example_ac_config :: ac_config where
  "example_ac_config =
     (let l = \<lparr>solicitation_rate_gbps = 8, burst_size_bytes = 4096, refill_interval_ns = 100\<rparr>
      in \<lparr>ac_policy = RX_TX_RATE_RX_WINDOW_BASED, cfg_admission_window_bytes = 4096,
          rx_rate_limiter_metadata = l, tx_rate_limiter_metadata = l\<rparr>)"

definition example_ac_conns :: "u32 \<rightharpoonup> connection_state" where
  "example_ac_conns = [1 \<mapsto> put_transaction (5, kInitiator)
     ((TransactionMetadata_new 5 kPull kInitiator)\<lparr>tm_request_length := 100\<rparr>) (ConnectionState_new 1 1 kOrdered)]"

definition example_admission :: admission where
  "example_admission =
     (let b = \<lparr>tokens_per_refill_interval = 100, bucket_refill_interval = 100, bucket_size = 4096,
               available_tokens = 4096, last_refill_timestamp = 0\<rparr>
      in \<lparr>ac_window = Some \<lparr>admission_window_bytes = 4096, solicited_data_bytes = 0\<rparr>, rx_bucket = Some b, tx_bucket = Some b\<rparr>)"

lemmas ac_eval = example_ac_config_def example_ac_conns_def example_admission_def Let_def TransactionMetadata_new_def
  ConnectionState_new_def put_transaction_def PerformDirectLookup_def GetTransaction_def solicits_def

lemma example_new:
  "AdmissionControlManager_new (\<lambda>r. r * 125000000) (\<lambda>r i. 100) example_ac_config = Inr example_admission"
  by (simp add: AdmissionControlManager_new_def InitRxRateLimiter_def InitTxRateLimiter_def limiter_bucket_def
      TokenBucket_new_def InitRxWindowAdmissionControl_def ac_eval)

lemma example_meets:
  "MeetsAdmissionControlCriteria example_ac_config (div) 50 example_ac_conns 1 5 kPullRequest example_admission =
     Inr (True, example_admission)"
  by (simp add: MeetsAdmissionControlCriteria_def MeetsAdmissionControlCriteria_length_def
      MeetsRxRateBasedAdmissionCriteria_def MeetsTxRateBasedAdmissionCriteria_def
      MeetsRxWindowBasedAdmissionCriteria_def AreTokensAvailable_def ac_eval)

text \<open>Under every policy, a reservation made after a positive check succeeds without tripping a
  limiter, and charges exactly the transaction's bytes to exactly the resources of the policy
  that apply to the packet type.\<close>

theorem checked_reservation_charges:
  assumes "MeetsAdmissionControlCriteria cfg fd now conns scid rsn type a = Inr (True, a1)"
    and "GetTransactionLocation type False = Inr loc"
  shows "\<exists>conns'. ReserveAdmissionControlResource cfg now' scid rsn type conns a1 =
    Inr (OkStatus, conns', charged (ac_policy cfg) (txn_bytes conns scid (rsn, loc)) type a1)"
  using checked_reservation [OF assms, of now'] by blast

theorem checked_reservation_charges_witness:
  "\<exists>conns'. ReserveAdmissionControlResource example_ac_config 50 1 5 kPullRequest example_ac_conns example_admission =
    Inr (OkStatus, conns', charged RX_TX_RATE_RX_WINDOW_BASED 100 kPullRequest example_admission)"
proof -
  have "txn_bytes example_ac_conns 1 (5, kInitiator) = 100" by (simp add: txn_bytes_def ac_eval)
  then show ?thesis
    using checked_reservation_charges [OF example_meets, of kInitiator 50] by (simp add: example_ac_config_def Let_def)
qed

text \<open>C34. With window-based admission, the solicited byte count is at all times exactly the sum of the
  request lengths of the transactions holding a reservation, never above the configured window
  and never wrapped around; it is back at zero when every reservation is refunded.\<close>

theorem solicitation_window_exact:
  assumes "ac_run per_sec tokens_of fd cfg conns a out" and "uses_window (ac_policy cfg)"
  shows "\<exists>w. ac_window a = Some w \<and> unat (solicited_data_bytes w) = out_bytes conns out \<and>
    solicited_data_bytes w \<le> word_of_int (cfg_admission_window_bytes cfg) \<and>
    (out = [] \<longrightarrow> solicited_data_bytes w = 0)"
proof -
  obtain w where w: "ac_window a = Some w" "window_exact conns out w"
    "admission_window_bytes w = word_of_int (cfg_admission_window_bytes cfg)"
    using ac_run_window [OF assms] by blast
  then show ?thesis by (auto simp: window_exact_def unat_eq_0 [symmetric])
qed

theorem solicitation_window_exact_witness:
  "\<exists>conns a w. ac_run (\<lambda>r. r * 125000000) (\<lambda>r i. 100) (div) example_ac_config conns a [(1, (5, kInitiator))] \<and>
    ac_window a = Some w \<and> unat (solicited_data_bytes w) = 100"
proof -
  let ?run = "ac_run (\<lambda>r. r * 125000000) (\<lambda>r i. 100) (div) example_ac_config"
  let ?a = "charged RX_TX_RATE_RX_WINDOW_BASED 100 kPullRequest example_admission"
  have n: "txn_bytes example_ac_conns 1 (5, kInitiator) = 100" by (simp add: txn_bytes_def ac_eval)
  obtain conns' where r: "ReserveAdmissionControlResource example_ac_config 50 1 5 kPullRequest example_ac_conns example_admission =
      Inr (OkStatus, conns', ?a)" "txn_bytes conns' = txn_bytes example_ac_conns"
    using checked_reservation [OF example_meets, of kInitiator 50] n by (auto simp: example_ac_config_def Let_def)
  have loc: "GetTransactionLocation kPullRequest False = Inr kInitiator" by simp
  have run: "?run conns' ?a [(1, (5, kInitiator))]"
    using ac_run.admitted [OF ac_run.start [OF example_new] example_meets loc r(1)] by (simp add: solicits_def)
  have "uses_window (ac_policy example_ac_config)" by (simp add: uses_window_def example_ac_config_def Let_def)
  then show ?thesis using solicitation_window_exact [OF run] run n r(2) by auto
qed

end
