(* ===== verification/Arbiter.thy ===== *)
theory Arbiter
  imports Falcon_Prelude
begin

text \<open>
  The round-robin arbiter of
  \<^verbatim>\<open>src/isekai/host/falcon/gen1/round_robin_arbiter.{h,cc}\<close>, which shares the link between the
  connection, the retransmission and the ack/nack scheduler.

  The schedulers are behind the abstract class \<^verbatim>\<open>Scheduler\<close>; here they are two functions of the
  scheduler's type over the state \<open>'s\<close> of the rest of the program, \<open>has_work\<close> and \<open>schedule_work\<close>,
  both free to change that state. Nothing is assumed of them. While an arbitration runs,
  \<^verbatim>\<open>scheduled_\<close> stays set, so a scheduler that asks for an arbitration from inside changes nothing.
  \<open>events\<close> are the delays handed to \<^verbatim>\<open>ScheduleEvent\<close>. The loop of \<^verbatim>\<open>DoArbitration\<close> ends only if
  the candidate index is in range, so it is a partial function; that it ends is proved.
\<close>

section \<open>State\<close>

datatype scheduler_type = kConnection | kRetransmission | kAckNack

record arbiter =
  scheduler_ordering :: "scheduler_type list"
  candidate_scheduler_index :: nat
  arb_tick_time :: duration
  arb_scheduled :: bool
  arb_last_run_time :: duration
  arb_events :: "duration list"

fun GetSchedulerWeight :: "u32 \<Rightarrow> u32 \<Rightarrow> u32 \<Rightarrow> scheduler_type \<Rightarrow> u32" where
  "GetSchedulerWeight wc wr wa kConnection = wc"
| "GetSchedulerWeight wc wr wa kRetransmission = wr"
| "GetSchedulerWeight wc wr wa kAckNack = wa"

definition ProtocolRoundRobinArbiter :: "u32 \<Rightarrow> u32 \<Rightarrow> u32 \<Rightarrow> duration \<Rightarrow> arbiter res" where
  "ProtocolRoundRobinArbiter wc wr wa tick =
     (let sched_order = concat (map (\<lambda>t. replicate (unat (GetSchedulerWeight wc wr wa t)) t)
            [kConnection, kRetransmission, kAckNack])
      in check (sched_order \<noteq> [])
           (Inr \<lparr>scheduler_ordering = sched_order, candidate_scheduler_index = 0, arb_tick_time = tick,
                 arb_scheduled = False, arb_last_run_time = NegInfinite, arb_events = []\<rparr>))"

section \<open>Operations\<close>

type_synonym 's poll = "scheduler_type \<Rightarrow> 's \<Rightarrow> bool \<times> 's"

definition HasWork_arb :: "'s poll \<Rightarrow> 's \<Rightarrow> bool \<times> 's" where
  "HasWork_arb has_work s =
     (let (c, s1) = has_work kConnection s
      in if c then (True, s1)
         else let (r, s2) = has_work kRetransmission s1
              in if r then (True, s2) else has_work kAckNack s2)"

text \<open>\<^verbatim>\<open>scheduler->HasWork() && scheduler->ScheduleWork()\<close>.\<close>

definition try_scheduler :: "'s poll \<Rightarrow> 's poll \<Rightarrow> 's poll" where
  "try_scheduler has_work schedule_work t s =
     (let (b, s1) = has_work t s in if b then schedule_work t s1 else (False, s1))"

definition ScheduleSchedulerArbiter :: "'s poll \<Rightarrow> duration \<Rightarrow> arbiter \<Rightarrow> 's \<Rightarrow> arbiter \<times> 's" where
  "ScheduleSchedulerArbiter has_work now a s =
     (if arb_scheduled a then (a, s)
      else let (b, s1) = HasWork_arb has_work s
           in if \<not> b then (a, s1)
              else let next0 = dur_add (arb_last_run_time a) (arb_tick_time a);
                       next_run_time = (if next0 \<le> now then now else next0)
                   in (a\<lparr>arb_scheduled := True, arb_events := arb_events a @ [dur_diff next_run_time now]\<rparr>, s1))"

text \<open>The loop: \<open>Some j\<close> is the new candidate index, \<open>None\<close> that nobody did any work.\<close>

partial_function (option) arbitrate ::
  "'s poll \<Rightarrow> 's poll \<Rightarrow> scheduler_type list \<Rightarrow> nat \<Rightarrow> nat \<Rightarrow> 's \<Rightarrow> (nat option \<times> 's) option" where
  "arbitrate has_work schedule_work sched_order candidate i s =
     (let (worked, s1) = try_scheduler has_work schedule_work (sched_order ! i) s; j = (i + 1) mod length sched_order
      in if worked then Some (Some j, s1)
         else if j = candidate then Some (None, s1)
         else arbitrate has_work schedule_work sched_order candidate j s1)"

definition DoArbitration :: "'s poll \<Rightarrow> 's poll \<Rightarrow> duration \<Rightarrow> arbiter \<Rightarrow> 's \<Rightarrow> (arbiter \<times> 's) option" where
  "DoArbitration has_work schedule_work now a s =
     (let (b, s1) = HasWork_arb has_work s
      in if \<not> b then Some (a\<lparr>arb_scheduled := False\<rparr>, s1)
         else case arbitrate has_work schedule_work (scheduler_ordering a) (candidate_scheduler_index a)
                     (candidate_scheduler_index a) s1 of
                None \<Rightarrow> None
              | Some (c, s2) \<Rightarrow>
                  let a1 = a\<lparr>arb_last_run_time := now,
                        candidate_scheduler_index := (case c of Some j \<Rightarrow> j | None \<Rightarrow> candidate_scheduler_index a)\<rparr>;
                      (b2, s3) = HasWork_arb has_work s2
                  in Some (if b2 then a1\<lparr>arb_events := arb_events a1 @ [arb_tick_time a1]\<rparr>
                           else a1\<lparr>arb_scheduled := False\<rparr>, s3))"

section \<open>The loop against its specification\<close>

text \<open>
  What the loop means: try the schedulers one after the other until one does work. The result is
  how many were passed over before the one that worked, if any.
\<close>

fun first_to_work :: "'s poll \<Rightarrow> scheduler_type list \<Rightarrow> 's \<Rightarrow> nat option \<times> 's" where
  "first_to_work attempt [] s = (None, s)"
| "first_to_work attempt (t # ts) s =
     (let (b, s1) = attempt t s
      in if b then (Some 0, s1) else let (k, s2) = first_to_work attempt ts s1 in (map_option Suc k, s2))"

definition arb_ok :: "arbiter \<Rightarrow> bool" where
  "arb_ok a \<longleftrightarrow> candidate_scheduler_index a < length (scheduler_ordering a)"

lemma mod_cycle_step:
  fixes n c d :: nat
  assumes "c < n" and "Suc d < n"
  shows "((c + d) mod n + 1) mod n = (c + Suc d) mod n" and "(c + Suc d) mod n \<noteq> c"
proof -
  show "((c + d) mod n + 1) mod n = (c + Suc d) mod n" by (simp add: mod_Suc_eq)
  show "(c + Suc d) mod n \<noteq> c"
  proof (cases "c + Suc d < n")
    case False
    then have "(c + Suc d) mod n = c + Suc d - n" using assms by (simp add: mod_if)
    then show ?thesis using assms False by linarith
  qed simp
qed

text \<open>From the \<open>d\<close>-th scheduler after the candidate, the loop tries the remaining ones in order and stops.\<close>

lemma arbitrate_from:
  assumes "c < length xs" and "d < length xs"
  shows "arbitrate has_work schedule_work xs c ((c + d) mod length xs) s =
    Some (let (k, s') = first_to_work (try_scheduler has_work schedule_work) (drop d (rotate c xs)) s
          in (map_option (\<lambda>k. (c + d + k + 1) mod length xs) k, s'))"
  using assms
proof (induction "length xs - d" arbitrary: d s)
  case 0
  then show ?case by simp
next
  case (Suc m)
  let ?n = "length xs" and ?attempt = "try_scheduler has_work schedule_work"
  have hd: "drop d (rotate c xs) = xs ! ((c + d) mod ?n) # drop (Suc d) (rotate c xs)"
    using Suc.prems by (simp add: Cons_nth_drop_Suc [symmetric] nth_rotate)
  obtain b s1 where t: "?attempt (xs ! ((c + d) mod ?n)) s = (b, s1)" by fastforce
  show ?case
  proof (cases b)
    case True
    then show ?thesis using t by (subst arbitrate.simps) (simp add: hd mod_Suc_eq)
  next
    case b: False
    show ?thesis
    proof (cases "Suc d < ?n")
      case True
      note st = mod_cycle_step [OF Suc.prems(1) True]
      have IH: "arbitrate has_work schedule_work xs c ((c + Suc d) mod ?n) s1 =
        Some (let (k, s') = first_to_work ?attempt (drop (Suc d) (rotate c xs)) s1
              in (map_option (\<lambda>k. (c + Suc d + k + 1) mod ?n) k, s'))"
        using Suc.hyps(1) [of "Suc d" s1] Suc.hyps(2) Suc.prems(1) True by simp
      have "arbitrate has_work schedule_work xs c ((c + d) mod ?n) s =
          arbitrate has_work schedule_work xs c ((c + Suc d) mod ?n) s1"
        using t b st by (subst arbitrate.simps) simp
      then show ?thesis using IH t b
        by (simp add: hd option.map_comp o_def split: prod.splits)
    next
      case False
      then have d: "d = ?n - 1" using Suc.prems by simp
      have "((c + d) mod ?n + 1) mod ?n = Suc (c + d) mod ?n" by (simp add: mod_Suc_eq)
      moreover have "Suc (c + d) = c + ?n" using d Suc.prems(1) by linarith
      ultimately have "((c + d) mod ?n + 1) mod ?n = c" using Suc.prems(1) by simp
      moreover have "drop (Suc d) (rotate c xs) = []" using d by simp
      ultimately show ?thesis using t b by (subst arbitrate.simps) (simp add: hd)
    qed
  qed
qed

lemma arbitrate_spec:
  assumes "c < length xs"
  shows "arbitrate has_work schedule_work xs c c s =
    Some (let (k, s') = first_to_work (try_scheduler has_work schedule_work) (rotate c xs) s
          in (map_option (\<lambda>k. (c + k + 1) mod length xs) k, s'))"
proof -
  have "0 < length xs" using assms by linarith
  from arbitrate_from [OF assms this] show ?thesis using assms by simp
qed

lemma first_to_work_bound: "first_to_work attempt ts s = (Some k, s') \<Longrightarrow> k < length ts"
  by (induction ts arbitrary: s k s') (auto split: prod.splits if_splits)

text \<open>An arbitration, with the loop replaced by its specification.\<close>

lemma DoArbitration_spec:
  assumes "arb_ok a"
  shows "DoArbitration has_work schedule_work now a s =
    Some (let (b, s1) = HasWork_arb has_work s
      in if \<not> b then (a\<lparr>arb_scheduled := False\<rparr>, s1)
         else let (k, s2) = first_to_work (try_scheduler has_work schedule_work)
                (rotate (candidate_scheduler_index a) (scheduler_ordering a)) s1;
              a1 = a\<lparr>arb_last_run_time := now, candidate_scheduler_index :=
                (case k of None \<Rightarrow> candidate_scheduler_index a
                 | Some k \<Rightarrow> (candidate_scheduler_index a + k + 1) mod length (scheduler_ordering a))\<rparr>;
              (b2, s3) = HasWork_arb has_work s2
            in (if b2 then a1\<lparr>arb_events := arb_events a1 @ [arb_tick_time a1]\<rparr> else a1\<lparr>arb_scheduled := False\<rparr>, s3))"
  using assms by (auto simp: DoArbitration_def arb_ok_def arbitrate_spec Let_def split: prod.splits option.splits)

lemma DoArbitration_ok:
  assumes "arb_ok a"
  shows "\<exists>a' s'. DoArbitration has_work schedule_work now a s = Some (a', s') \<and> arb_ok a' \<and>
    scheduler_ordering a' = scheduler_ordering a \<and> arb_tick_time a' = arb_tick_time a \<and>
    (\<not> arb_scheduled a' \<and> arb_events a' = arb_events a \<or>
     arb_scheduled a' = arb_scheduled a \<and> arb_last_run_time a' = now \<and>
       arb_events a' = arb_events a @ [arb_tick_time a])"
proof -
  have "0 < length (scheduler_ordering a)" using assms unfolding arb_ok_def by linarith
  then show ?thesis using assms
    unfolding DoArbitration_spec [OF assms] by (auto simp: arb_ok_def Let_def split: prod.splits option.splits)
qed

section \<open>Shares\<close>

fun arbitrations :: "'s poll \<Rightarrow> 's poll \<Rightarrow> duration list \<Rightarrow> arbiter \<Rightarrow> 's \<Rightarrow> (arbiter \<times> 's) option" where
  "arbitrations has_work schedule_work [] a s = Some (a, s)"
| "arbitrations has_work schedule_work (now # nows) a s =
     Option.bind (DoArbitration has_work schedule_work now a s) (\<lambda>(a', s'). arbitrations has_work schedule_work nows a' s')"

text \<open>When every scheduler always has work, an arbitration serves the candidate and moves on.\<close>

lemma busy_arbitration:
  assumes "arb_ok a" and "\<And>t s. has_work t s = (True, s)" and "\<And>t s. schedule_work t s = (True, f t s)"
  shows "\<exists>a'. DoArbitration has_work schedule_work now a s =
      Some (a', f (scheduler_ordering a ! candidate_scheduler_index a) s) \<and> arb_ok a' \<and>
    scheduler_ordering a' = scheduler_ordering a \<and>
    candidate_scheduler_index a' = (candidate_scheduler_index a + 1) mod length (scheduler_ordering a)"
proof -
  let ?xs = "scheduler_ordering a" and ?c = "candidate_scheduler_index a"
  have n: "0 < length ?xs" using assms(1) unfolding arb_ok_def by linarith
  then obtain ts where "rotate ?c ?xs = ?xs ! ?c # ts"
    using assms(1) nth_rotate [of 0 ?xs ?c] by (cases "rotate ?c ?xs") (auto simp: arb_ok_def)
  then have "first_to_work (try_scheduler has_work schedule_work) (rotate ?c ?xs) s = (Some 0, f (?xs ! ?c) s)"
    using assms(2,3) by (simp add: try_scheduler_def)
  moreover have "HasWork_arb has_work s = (True, s)" for s using assms(2) by (simp add: HasWork_arb_def)
  ultimately show ?thesis using n by (simp add: DoArbitration_spec [OF assms(1)] arb_ok_def)
qed

lemma busy_arbitrations:
  assumes "arb_ok a" and "\<And>t s. has_work t s = (True, s)" and "\<And>t s. schedule_work t s = (True, f t s)"
  shows "\<exists>a'. arbitrations has_work schedule_work nows a s =
      Some (a', fold f (map (\<lambda>i. scheduler_ordering a ! ((candidate_scheduler_index a + i) mod length (scheduler_ordering a)))
        [0..<length nows]) s)"
  using assms(1)
proof (induction nows arbitrary: a s)
  case Nil
  then show ?case by simp
next
  case (Cons now nows)
  let ?xs = "scheduler_ordering a" and ?c = "candidate_scheduler_index a"
  obtain a1 where a1: "DoArbitration has_work schedule_work now a s = Some (a1, f (?xs ! ?c) s)" "arb_ok a1"
    "scheduler_ordering a1 = ?xs" "candidate_scheduler_index a1 = (?c + 1) mod length ?xs"
    using busy_arbitration [where has_work = has_work and schedule_work = schedule_work and f = f and now = now and s = s,
      OF Cons.prems assms(2,3)] by auto
  have c: "?c mod length ?xs = ?c" using Cons.prems by (simp add: arb_ok_def)
  have "((?c + 1) mod length ?xs + i) mod length ?xs = (?c + Suc i) mod length ?xs" for i
    by (simp add: mod_simps)
  then have "map (\<lambda>i. ?xs ! ((?c + i) mod length ?xs)) [0..<length (now # nows)] =
      ?xs ! ?c # map (\<lambda>i. scheduler_ordering a1 ! ((candidate_scheduler_index a1 + i) mod length (scheduler_ordering a1))) [0..<length nows]"
    by (simp add: a1(3,4) upt_conv_Cons map_Suc_upt [symmetric] o_def c del: upt_Suc)
  then show ?case using a1(1) Cons.IH [OF a1(2)] by simp
qed

lemma count_concat_replicate:
  "count_list (replicate n t') t = (if t' = t then n else 0)"
  by (induction n) auto

lemma ordering_weights:
  assumes "ProtocolRoundRobinArbiter wc wr wa tick = Inr a"
  shows "arb_ok a" and "candidate_scheduler_index a = 0"
    and "count_list (scheduler_ordering a) t = unat (GetSchedulerWeight wc wr wa t)"
  using assms by (auto simp: ProtocolRoundRobinArbiter_def arb_ok_def Let_def res_simps count_concat_replicate)
    (cases t; simp)+

section \<open>Events\<close>

text \<open>
  A run of the arbiter in its environment: the arbiter, the rest of the program, and the times at which
  the environment will call \<^verbatim>\<open>DoArbitration\<close>. The rest of the program changes in any way between
  calls; a pending event fires at its time.
\<close>

definition added :: "duration \<Rightarrow> arbiter \<Rightarrow> arbiter \<Rightarrow> duration list" where
  "added now a a' = map (dur_add now) (drop (length (arb_events a)) (arb_events a'))"

inductive arb_run ::
  "'s poll \<Rightarrow> 's poll \<Rightarrow> arbiter \<Rightarrow> 's \<Rightarrow> duration list \<Rightarrow> bool" for has_work schedule_work where
  start: "ProtocolRoundRobinArbiter wc wr wa (Finite tick) = Inr a \<Longrightarrow> arb_run has_work schedule_work a s []"
| request: "arb_run has_work schedule_work a s evs \<Longrightarrow>
    ScheduleSchedulerArbiter has_work (Finite now) a s = (a', s') \<Longrightarrow>
    arb_run has_work schedule_work a' s' (evs @ added (Finite now) a a')"
| fire: "arb_run has_work schedule_work a s (Finite now # evs) \<Longrightarrow>
    DoArbitration has_work schedule_work (Finite now) a s = Some (a', s') \<Longrightarrow>
    arb_run has_work schedule_work a' s' (evs @ added (Finite now) a a')"
| elsewhere: "arb_run has_work schedule_work a s evs \<Longrightarrow> arb_run has_work schedule_work a s' evs"

definition paced :: "arbiter \<Rightarrow> duration list \<Rightarrow> bool" where
  "paced a evs \<longleftrightarrow> (if arb_scheduled a
     then \<exists>t. evs = [Finite t] \<and> dur_add (arb_last_run_time a) (arb_tick_time a) \<le> Finite t else evs = [])"

lemma ScheduleSchedulerArbiter_paced:
  assumes "paced a evs" and "arb_tick_time a = Finite tick" and "arb_last_run_time a \<noteq> Infinite"
    and "ScheduleSchedulerArbiter has_work (Finite now) a s = (a', s')"
  shows "paced a' (evs @ added (Finite now) a a')"
proof (cases "a' = a")
  case True
  then show ?thesis using assms(1) by (simp add: added_def)
next
  case False
  then have a': "a' = a\<lparr>arb_scheduled := True, arb_events := arb_events a @
      [dur_diff (if dur_add (arb_last_run_time a) (arb_tick_time a) \<le> Finite now then Finite now
                 else dur_add (arb_last_run_time a) (arb_tick_time a)) (Finite now)]\<rparr>" "\<not> arb_scheduled a"
    using assms(4) by (auto simp: ScheduleSchedulerArbiter_def Let_def split: prod.splits if_splits)
  then have "evs = []" using assms(1) by (simp add: paced_def)
  then show ?thesis using a' assms(2,3) by (cases "arb_last_run_time a") (auto simp: paced_def added_def)
qed

lemma arb_run_invariant:
  assumes "arb_run has_work schedule_work a s evs"
  shows "arb_ok a \<and> paced a evs \<and> (\<exists>tick. arb_tick_time a = Finite tick) \<and> arb_last_run_time a \<noteq> Infinite"
  using assms
proof (induction rule: arb_run.induct)
  case (start wc wr wa tick a s)
  then show ?case by (auto simp: ProtocolRoundRobinArbiter_def arb_ok_def paced_def Let_def res_simps)
next
  case (request a s evs now a' s')
  obtain tick where "arb_tick_time a = Finite tick" using request(3) by blast
  then have "paced a' (evs @ added (Finite now) a a')"
    using ScheduleSchedulerArbiter_paced [OF _ _ _ request(2)] request(3) by simp
  moreover have "arb_ok a' \<and> arb_tick_time a' = arb_tick_time a \<and> arb_last_run_time a' = arb_last_run_time a"
    using request(2,3) by (auto simp: ScheduleSchedulerArbiter_def arb_ok_def Let_def split: prod.splits if_splits)
  ultimately show ?case using request(3) by simp
next
  case (fire a s now evs a' s')
  then have sched: "arb_scheduled a" "evs = []" by (auto simp: paced_def split: if_splits)
  obtain tick where tick: "arb_tick_time a = Finite tick" using fire.IH by blast
  have "\<exists>a' s'. DoArbitration has_work schedule_work (Finite now) a s = Some (a', s') \<and> arb_ok a' \<and>
    scheduler_ordering a' = scheduler_ordering a \<and> arb_tick_time a' = arb_tick_time a \<and>
    (\<not> arb_scheduled a' \<and> arb_events a' = arb_events a \<or>
     arb_scheduled a' = arb_scheduled a \<and> arb_last_run_time a' = Finite now \<and>
       arb_events a' = arb_events a @ [arb_tick_time a])"
    using fire.IH by (intro DoArbitration_ok) simp
  then have ok: "arb_ok a'" "arb_tick_time a' = Finite tick"
    "\<not> arb_scheduled a' \<and> arb_events a' = arb_events a \<or>
     arb_scheduled a' \<and> arb_last_run_time a' = Finite now \<and> arb_events a' = arb_events a @ [Finite tick]"
    using fire(2) sched tick by auto
  moreover have "arb_last_run_time a' \<noteq> Infinite"
    using fire(2) fire.IH by (auto simp: DoArbitration_spec Let_def split: prod.splits if_splits)
  ultimately show ?case using sched(2) by (auto simp: paced_def added_def)
qed simp

section \<open>Properties\<close>

text \<open>C37. For any schedulers, an arbitration ends, and does exactly this: if nobody has work it stops the
  arbiter; otherwise it tries the schedulers in cyclic order from the candidate until the first that
  works, each at most once, and makes its successor the new candidate.\<close>

theorem arbitration_is_first_to_work:
  assumes "arb_run has_work schedule_work a s evs"
  shows "DoArbitration has_work schedule_work now a s =
    Some (let (b, s1) = HasWork_arb has_work s
      in if \<not> b then (a\<lparr>arb_scheduled := False\<rparr>, s1)
         else let (k, s2) = first_to_work (try_scheduler has_work schedule_work)
                (rotate (candidate_scheduler_index a) (scheduler_ordering a)) s1;
              a1 = a\<lparr>arb_last_run_time := now, candidate_scheduler_index :=
                (case k of None \<Rightarrow> candidate_scheduler_index a
                 | Some k \<Rightarrow> (candidate_scheduler_index a + k + 1) mod length (scheduler_ordering a))\<rparr>;
              (b2, s3) = HasWork_arb has_work s2
            in (if b2 then a1\<lparr>arb_events := arb_events a1 @ [arb_tick_time a1]\<rparr> else a1\<lparr>arb_scheduled := False\<rparr>, s3))"
  using arb_run_invariant [OF assms] by (intro DoArbitration_spec) simp

lemma example_arbiter:
  "\<exists>a. ProtocolRoundRobinArbiter 2 1 1 (Finite 5) = Inr a \<and> length (scheduler_ordering a) = 4"
  by (auto simp: ProtocolRoundRobinArbiter_def Let_def)

definition all_busy :: "scheduler_type \<Rightarrow> scheduler_type list \<Rightarrow> bool \<times> scheduler_type list" where
  "all_busy t log = (True, log)"

definition log_work :: "scheduler_type \<Rightarrow> scheduler_type list \<Rightarrow> bool \<times> scheduler_type list" where
  "log_work t log = (True, log @ [t])"

theorem arbitration_is_first_to_work_witness:
  "\<exists>a. arb_run all_busy log_work a [] [] \<and>
    (\<exists>a' s'. DoArbitration all_busy log_work (Finite 9) a [] = Some (a', s'))"
proof -
  obtain a where "ProtocolRoundRobinArbiter 2 1 1 (Finite 5) = Inr a" using example_arbiter by blast
  then have r: "arb_run all_busy log_work a [] []" by (rule arb_run.start)
  obtain p where "DoArbitration all_busy log_work (Finite 9) a [] = Some p"
    using arbitration_is_first_to_work [OF r, of "Finite 9"] by blast
  then show ?thesis using r by (cases p) blast
qed

text \<open>Weighted sharing: while every scheduler always has work, a cycle of as many arbitrations as the
  weights add up to serves every scheduler exactly as often as its weight.\<close>

theorem arbitration_shares:
  assumes "ProtocolRoundRobinArbiter wc wr wa tick = Inr a"
    and "\<And>t s. has_work t s = (True, s)" and "\<And>t s. schedule_work t s = (True, f t s)"
    and "length nows = length (scheduler_ordering a)"
  shows "\<exists>a' ts. arbitrations has_work schedule_work nows a s = Some (a', fold f ts s) \<and>
    (\<forall>t. count_list ts t = unat (GetSchedulerWeight wc wr wa t))"
proof -
  note w = ordering_weights [OF assms(1)]
  have "map (\<lambda>i. scheduler_ordering a ! ((candidate_scheduler_index a + i) mod length (scheduler_ordering a)))
      [0..<length nows] = scheduler_ordering a"
    using w(2) assms(4) by (intro nth_equalityI) simp_all
  then have "\<exists>a'. arbitrations has_work schedule_work nows a s = Some (a', fold f (scheduler_ordering a) s)"
    using busy_arbitrations [where has_work = has_work and schedule_work = schedule_work and f = f and nows = nows and s = s,
      OF w(1) assms(2,3)] by simp
  then show ?thesis using w(3) by blast
qed

theorem arbitration_shares_witness:
  "\<exists>a a' ts. arbitrations all_busy log_work (replicate 4 (Finite 0)) a [] = Some (a', fold (\<lambda>t l. l @ [t]) ts []) \<and>
    count_list ts kConnection = 2"
proof -
  obtain a where a: "ProtocolRoundRobinArbiter 2 1 1 (Finite 5) = Inr a" "length (scheduler_ordering a) = 4"
    using example_arbiter by blast
  have "\<exists>a' ts. arbitrations all_busy log_work (replicate 4 (Finite 0)) a [] = Some (a', fold (\<lambda>t l. l @ [t]) ts []) \<and>
      (\<forall>t. count_list ts t = unat (GetSchedulerWeight 2 1 1 t))"
    by (rule arbitration_shares [OF a(1)]) (simp_all add: all_busy_def log_work_def a(2))
  then obtain a' ts where "arbitrations all_busy log_work (replicate 4 (Finite 0)) a [] = Some (a', fold (\<lambda>t l. l @ [t]) ts [])"
    "count_list ts kConnection = unat (GetSchedulerWeight 2 1 1 kConnection)" by blast
  then show ?thesis by auto
qed

text \<open>There is never more than one arbitration event pending: one exactly while the arbiter is marked
  as scheduled, none otherwise; and it is due no earlier than one tick after the last arbitration.\<close>

theorem arbitration_single_paced_event:
  assumes "arb_run has_work schedule_work a s evs"
  shows "if arb_scheduled a
    then \<exists>t. evs = [Finite t] \<and> dur_add (arb_last_run_time a) (arb_tick_time a) \<le> Finite t
    else evs = []"
  using arb_run_invariant [OF assms] by (simp add: paced_def)

theorem arbitration_single_paced_event_witness:
  "\<exists>a evs. arb_run all_busy log_work a [] evs \<and> arb_scheduled a \<and> length evs = 1"
proof -
  obtain a where a: "ProtocolRoundRobinArbiter 2 1 1 (Finite 5) = Inr a" using example_arbiter by blast
  have r: "arb_run all_busy log_work a [] []" by (rule arb_run.start [OF a])
  have na: "\<not> arb_scheduled a" using a by (auto simp: ProtocolRoundRobinArbiter_def Let_def res_simps)
  obtain a' where a': "ScheduleSchedulerArbiter all_busy (Finite 3) a [] = (a', [])" "arb_scheduled a'"
    using na by (auto simp: ScheduleSchedulerArbiter_def HasWork_arb_def all_busy_def Let_def)
  have r': "arb_run all_busy log_work a' [] ([] @ added (Finite 3) a a')" by (rule arb_run.request [OF r a'(1)])
  obtain t where "[] @ added (Finite 3) a a' = [Finite t]"
    using arbitration_single_paced_event [OF r'] a'(2) by auto
  then show ?thesis using r' a'(2) by (intro exI [of _ a'] exI [of _ "[Finite t]"]) simp
qed

end
