(* ===== verification/Sequence_Numbers.thy ===== *)
theory Sequence_Numbers
  imports Falcon_Types
begin

text \<open>
  Packet sequence numbers and the work items keyed by them, from
  \<^verbatim>\<open>src/isekai/host/falcon/gen1/connection_scheduler_types.h\<close> and \<^verbatim>\<open>.cc\<close>: the distance-based
  comparators, \<^verbatim>\<open>RetransmissionWorkId\<close> with its order, the sets and queues of work items.

  Sequence numbers wrap around at $2^{32}$. The lemmas relate them to unbounded counters: \<open>s + of_nat x\<close> is
  the number of the \<open>x\<close>-th packet after \<open>s\<close>, and the comparators decide the order of two counters that are less
  than $2^{31}$ apart.
\<close>

section \<open>Comparators\<close>

definition SeqLT :: "u32 \<Rightarrow> u32 \<Rightarrow> bool" where
  "SeqLT a b \<longleftrightarrow> sint (a - b) < 0"

definition SeqLEQ :: "u32 \<Rightarrow> u32 \<Rightarrow> bool" where
  "SeqLEQ a b \<longleftrightarrow> sint (a - b) \<le> 0"

definition SeqGT :: "u32 \<Rightarrow> u32 \<Rightarrow> bool" where
  "SeqGT a b \<longleftrightarrow> sint (a - b) > 0"

definition SeqGEQ :: "u32 \<Rightarrow> u32 \<Rightarrow> bool" where
  "SeqGEQ a b \<longleftrightarrow> sint (a - b) \<ge> 0"

lemma sint_word_of_int:
  assumes "- (2 ^ 31) \<le> z" and "z < 2 ^ 31"
  shows "sint (word_of_int z :: u32) = z"
  using assms by (simp add: sint_uint unsigned_of_int signed_take_bit_take_bit signed_take_bit_int_eq_self)

lemma sint_diff_nat:
  assumes "x < y + 2 ^ 31" and "y < x + 2 ^ 31"
  shows "sint ((s + of_nat x) - (s + of_nat y) :: u32) = int x - int y"
proof -
  have "(s + of_nat x) - (s + of_nat y) = (word_of_int (int x - int y) :: u32)" by simp
  moreover have "int x < int (y + 2 ^ 31)" and "int y < int (x + 2 ^ 31)"
    using assms by (simp_all only: of_nat_less_iff)
  then have "- (2 ^ 31) \<le> int x - int y" and "int x - int y < 2 ^ 31" by simp_all
  ultimately show ?thesis using sint_word_of_int [of "int x - int y"] by simp
qed

lemma seq_nat:
  assumes "x < y + 2 ^ 31" and "y < x + 2 ^ 31"
  shows SeqLT_nat: "SeqLT (s + of_nat x) (s + of_nat y) \<longleftrightarrow> x < y"
    and SeqLEQ_nat: "SeqLEQ (s + of_nat x) (s + of_nat y) \<longleftrightarrow> x \<le> y"
    and SeqGT_nat: "SeqGT (s + of_nat x) (s + of_nat y) \<longleftrightarrow> y < x"
    and SeqGEQ_nat: "SeqGEQ (s + of_nat x) (s + of_nat y) \<longleftrightarrow> y \<le> x"
  by (simp_all only: SeqLT_def SeqLEQ_def SeqGT_def SeqGEQ_def sint_diff_nat [OF assms]) linarith+

lemma SeqLT_unat: "SeqLT a b \<longleftrightarrow> 2 ^ 31 \<le> unat (a - b)"
proof -
  let ?u = "uint (a - b)"
  have "?u < 2 ^ 32" using unsigned_less [of "a - b"] by simp
  then have "?u div 2 ^ 31 < 2" by (simp add: int_div_less_self)
  moreover have "0 \<le> ?u div 2 ^ 31" by (simp add: pos_imp_zdiv_nonneg_iff)
  ultimately have "?u div 2 ^ 31 = 0 \<or> ?u div 2 ^ 31 = 1" by linarith
  then have "odd (?u div 2 ^ 31) \<longleftrightarrow> 0 < ?u div 2 ^ 31" by auto
  also have "\<dots> \<longleftrightarrow> 2 ^ 31 \<le> ?u" by (simp add: pos_imp_zdiv_pos_iff)
  finally have "SeqLT a b \<longleftrightarrow> 2 ^ 31 \<le> ?u"
    by (simp only: SeqLT_def sint_uint signed_take_bit_negative_iff bit_iff_odd) simp
  also have "\<dots> \<longleftrightarrow> int (2 ^ 31) \<le> int (unat (a - b))" by simp
  finally show ?thesis by (simp only: of_nat_le_iff)
qed

lemma SeqGEQ_iff: "SeqGEQ a b \<longleftrightarrow> \<not> SeqLT a b"
  by (auto simp: SeqGEQ_def SeqLT_def)

lemma SeqGT_iff: "SeqGT a b \<longleftrightarrow> \<not> SeqLT a b \<and> a \<noteq> b"
proof -
  have "sint (a - b) = 0 \<longleftrightarrow> a = b" by (simp only: signed_eq_0_iff right_minus_eq)
  then show ?thesis unfolding SeqGT_def SeqLT_def by linarith
qed

lemma Seq_equivalent: "\<not> SeqLT a b \<and> \<not> SeqLT b a \<longleftrightarrow> a = b"
proof
  assume "\<not> SeqLT a b \<and> \<not> SeqLT b a"
  then have "unat (a - b) < 2 ^ 31" and "unat (b - a) < 2 ^ 31" by (simp_all add: SeqLT_unat)
  moreover have "(unat (a - b) + unat (b - a)) mod 2 ^ 32 = 0"
    using unat_word_ariths(1) [of "a - b" "b - a"] by simp
  ultimately have "unat (a - b) = 0" by (simp add: mod_less)
  then show "a = b" by (simp only: unsigned_eq_0_iff right_minus_eq)
qed (simp add: SeqLT_def)

section \<open>Work items\<close>

record retransmission_work_id =
  wid_rsn :: u32
  wid_psn :: u32
  wid_type :: packet_type

definition wid_less :: "retransmission_work_id \<Rightarrow> retransmission_work_id \<Rightarrow> bool" where
  "wid_less v w \<longleftrightarrow> SeqLT (wid_psn v) (wid_psn w)"

text \<open>
  \<^verbatim>\<open>btree_set<RetransmissionWorkId>\<close>: insertion and removal go by the order alone, so items that
  compare equivalent (the same sequence number) are one item.
\<close>

fun wid_insert ::
  "retransmission_work_id \<Rightarrow> retransmission_work_id list \<Rightarrow> retransmission_work_id list" where
  "wid_insert w [] = [w]"
| "wid_insert w (v # ws) =
     (if wid_less w v then w # v # ws else if wid_less v w then v # wid_insert w ws else v # ws)"

definition wid_contains :: "retransmission_work_id \<Rightarrow> retransmission_work_id list \<Rightarrow> bool" where
  "wid_contains w ws \<longleftrightarrow> list_ex (\<lambda>v. \<not> wid_less v w \<and> \<not> wid_less w v) ws"

definition wid_erase ::
  "retransmission_work_id \<Rightarrow> retransmission_work_id list \<Rightarrow> retransmission_work_id list" where
  "wid_erase w ws = filter (\<lambda>v. wid_less v w \<or> wid_less w v) ws"

end
