(* ===== verification/Reliability_State.thy ===== *)
theory Reliability_State
  imports Transactions Sequence_Numbers
begin

text \<open>
  The state the sliding window layer keeps for a connection: the four reliability windows of
  \<^verbatim>\<open>falcon_types.h\<close>, the parts of \<^verbatim>\<open>ConnectionState\<close>, \<^verbatim>\<open>ConnectionMetadata\<close> and
  \<^verbatim>\<open>CongestionControlMetadata\<close> that \<^verbatim>\<open>packet_reliability_manager.cc\<close> and \<^verbatim>\<open>ack_coalescing_engine.cc\<close>
  use, the connection's entry of the ack coalescing engine and its two queues in the retransmission
  scheduler (each of these three is keyed by the connection id alone).

  Calls into components outside this layer are appended to \<open>cn_calls\<close> in the order they are made; where the
  layer uses an answer of such a component, the answer is a field of \<open>prm_env\<close>. A \<^verbatim>\<open>GatingVariable\<close> holds its
  value; the recomputation of scheduler eligibility that a change triggers reads this state and does not change it.
  A tick of \<open>duration\<close> is a quarter of a nanosecond, the resolution of \<^verbatim>\<open>absl::Duration\<close>.
\<close>

section \<open>Windows\<close>

record rx_window =
  rxw_base :: u32          \<comment> \<open>\<^verbatim>\<open>base_packet_sequence_number\<close>\<close>
  rxw_has_oow_drop :: bool
  rxw_receive_window :: falcon_bitmap
  rxw_ack_window :: falcon_bitmap

record outstanding_packet_context =
  opc_rsn :: u32
  opc_packet_type :: packet_type

record tx_window =
  txw_base :: u32          \<comment> \<open>\<^verbatim>\<open>base_packet_sequence_number\<close>\<close>
  txw_next :: u32          \<comment> \<open>\<^verbatim>\<open>next_packet_sequence_number\<close>\<close>
  txw_outstanding_requests_counter :: u32
  txw_outstanding_retransmission_requests_counter :: u32
  txw_oow_notification_received :: bool
  txw_window :: falcon_bitmap
  txw_outstanding_packets :: "retransmission_work_id list"
  txw_outstanding_packet_contexts :: "u32 \<rightharpoonup> outstanding_packet_context"

definition GetOutstandingPacketRSN :: "tx_window \<Rightarrow> u32 \<Rightarrow> status + outstanding_packet_context" where
  "GetOutstandingPacketRSN w psn =
     (case txw_outstanding_packet_contexts w psn of Some x \<Rightarrow> Inr x | None \<Rightarrow> Inl NotFoundError)"

section \<open>Connections\<close>

record ack_coalescing_entry =
  ace_forward_hops :: u8
  ace_timestamp_1 :: duration
  ace_timestamp_2 :: duration
  ace_flow_label :: u32
  ace_coalescing_counter_threshold :: u32
  ace_coalescing_timeout_threshold :: duration
  ace_coalescing_counter :: u32
  ace_timer_trigger_time :: duration

datatype call =
    ScheduleRto duration                  \<comment> \<open>\<^verbatim>\<open>ScheduleEvent(d, HandleRetransmitTimeout)\<close>\<close>
  | ScheduleAckTimer duration             \<comment> \<open>\<^verbatim>\<open>ScheduleEvent(d, HandleAckCoalescingTimeout)\<close>\<close>
  | TransferTxPacket packet
  | EnqueueAckNack packet                 \<comment> \<open>\<^verbatim>\<open>EnqueuePacket\<close> of the ack/nack scheduler\<close>
  | InsertAck u32                         \<comment> \<open>\<^verbatim>\<open>InsertPacket(kAck, scid, rsn, 0)\<close> of the reorder engine\<close>
  | ReleaseResourcesOf transaction_key packet_type
  | RetryRnrNacked u32                    \<comment> \<open>\<^verbatim>\<open>RetryRnrNackedPacket\<close> of the reorder engine\<close>
  | ReserveIncoming packet                \<comment> \<open>\<^verbatim>\<open>VerifyResourceAvailabilityOrReserveResources\<close>\<close>
  | RueTimeoutRetransmitted packet u32
  | RueEarlyRetransmitted packet u32
  | RueExplicitAck packet bool bool       \<comment> \<open>packet, is an E-ACK, drop detected\<close>
  | RueNack packet
  | LatencySamples "sample list"

record connection =
  cn_state :: connection_state
  cn_dcid :: u32
  cn_source_bifurcation_id :: u8
  cn_destination_bifurcation_id :: u8
  cn_max_retransmit_attempts :: u32
  cn_early_retransmit_limit :: u32
  cn_current_solicitation_sequence_number :: u32
  cn_tx_request :: tx_window
  cn_tx_data :: tx_window
  cn_rto_expiration_base_time :: duration
  cn_rx_request :: rx_window
  cn_rx_data :: rx_window
  cn_implicitly_acked_counter :: u32
  cn_ulp_rto :: duration
  cn_flow_label :: u32
  cn_fabric_congestion_window :: u32
  cn_inter_packet_gap :: duration
  cn_nic_congestion_window :: u32
  cn_retransmit_timeout :: duration
  cn_cc_metadata :: u32
  cn_num_acked :: u32
  cn_retx_request :: "retransmission_work_id list"
  cn_retx_data :: "retransmission_work_id list"
  cn_ack_coalescing_entry :: "ack_coalescing_entry option"
  cn_calls :: "call list"

abbreviation calls :: "call list \<Rightarrow> connection \<Rightarrow> connection" where
  "calls cs c \<equiv> c\<lparr>cn_calls := cn_calls c @ cs\<rparr>"

text \<open>Configuration of the layer, the current time, and the answers of the components it calls.\<close>

record prm_env =
  ev_now :: duration
  ev_resource_status :: "packet \<Rightarrow> status"
  ev_insert_status :: "u32 \<Rightarrow> status"
  ev_release_status :: "transaction_key \<Rightarrow> packet_type \<Rightarrow> status"
  ev_retry_status :: "u32 \<Rightarrow> status"
  ev_rx_buffer_level :: u8                      \<comment> \<open>\<^verbatim>\<open>GetNetworkRegionOccupancy()\<close>, cut to its 5 bits\<close>
  cf_enable_ooo_count :: bool
  cf_ooo_count_threshold :: u32
  cf_enable_ooo_distance :: bool
  cf_ooo_distance_threshold :: u32
  cf_enable_eack_own :: bool
  cf_enable_recency_check_bypass :: bool
  cf_enable_scanning_exit_criteria_bypass :: bool
  cf_enable_smaller_psn_recency_check_bypass :: bool
  cf_enable_pause_initial_transmission_on_oow_drops :: bool
  cf_request_window_slack :: u32
  cf_data_window_slack :: u32
  cf_early_retx_threshold :: u32
  cf_ignore_incoming_ar_bit :: bool
  cf_eack_trigger_by_hole_in_rx_bitmap :: bool

section \<open>Choosing a window\<close>

text \<open>
  A window is chosen by packet type, or by the flag of a NACK. The code returns a pointer; here the choice
  is a flag for reading and an update for writing.
\<close>

definition GetAppropriateTxWindow :: "connection \<Rightarrow> bool \<Rightarrow> tx_window" where
  "GetAppropriateTxWindow c request_window = (if request_window then cn_tx_request c else cn_tx_data c)"

definition GetAppropriateTxWindow_type :: "connection \<Rightarrow> packet_type \<Rightarrow> tx_window" where
  "GetAppropriateTxWindow_type c type =
     (if type = kPullRequest \<or> type = kPushRequest then cn_tx_request c else cn_tx_data c)"

definition GetAppropriateRxWindow :: "connection \<Rightarrow> packet_type \<Rightarrow> rx_window" where
  "GetAppropriateRxWindow c type =
     (if type = kPullRequest \<or> type = kPushRequest then cn_rx_request c else cn_rx_data c)"

definition on_tx :: "bool \<Rightarrow> (tx_window \<Rightarrow> tx_window) \<Rightarrow> connection \<Rightarrow> connection" where
  "on_tx request f c =
     (if request then c\<lparr>cn_tx_request := f (cn_tx_request c)\<rparr> else c\<lparr>cn_tx_data := f (cn_tx_data c)\<rparr>)"

definition on_rx :: "bool \<Rightarrow> (rx_window \<Rightarrow> rx_window) \<Rightarrow> connection \<Rightarrow> connection" where
  "on_rx request f c =
     (if request then c\<lparr>cn_rx_request := f (cn_rx_request c)\<rparr> else c\<lparr>cn_rx_data := f (cn_rx_data c)\<rparr>)"

lemma GetAppropriateTxWindow_type_flag:
  "GetAppropriateTxWindow_type c type = GetAppropriateTxWindow c (BelongsToRequestWindow type)"
  by (simp add: GetAppropriateTxWindow_type_def GetAppropriateTxWindow_def BelongsToRequestWindow_def)

lemma tx_on_tx [simp]:
  "GetAppropriateTxWindow (on_tx r f c) r' =
     (if r = r' then f (GetAppropriateTxWindow c r) else GetAppropriateTxWindow c r')"
  by (auto simp: GetAppropriateTxWindow_def on_tx_def)

section \<open>Packets of transactions\<close>

text \<open>
  The lookup of a transaction and its packet behind \<^verbatim>\<open>CHECK_OK_THEN_ASSIGN\<close>, and
  \<^verbatim>\<open>ProtocolPacketReliabilityManager::GetPacketMetadata\<close>, whose second check is a \<^verbatim>\<open>CHECK_OK\<close>.
\<close>

definition lookup_packet :: "connection \<Rightarrow> u32 \<Rightarrow> packet_type \<Rightarrow> (transaction_metadata \<times> packet_metadata) res" where
  "lookup_packet c rsn type =
     res_bind (GetTransactionLocation type False) (\<lambda>location.
       case GetTransaction (cn_state c) (rsn, location) of
         Inl _ \<Rightarrow> Inl CheckFailed
       | Inr t \<Rightarrow> (case GetPacketMetadata t type of Inl _ \<Rightarrow> Inl CheckFailed | Inr p \<Rightarrow> Inr (t, p)))"

definition prm_GetPacketMetadata :: "connection \<Rightarrow> u32 \<Rightarrow> packet_type \<Rightarrow> packet_metadata res" where
  "prm_GetPacketMetadata c rsn type =
     res_bind (GetTransactionLocation type False) (\<lambda>location.
       case GetTransaction (cn_state c) (rsn, location) of
         Inl _ \<Rightarrow> Inl CheckFailed
       | Inr t \<Rightarrow> (case GetPacketMetadata t type of Inl _ \<Rightarrow> Inl LogFatal | Inr p \<Rightarrow> Inr p))"

text \<open>Writing through the pointer to a packet of a transaction.\<close>

definition update_packet ::
  "transaction_key \<Rightarrow> packet_type \<Rightarrow> (packet_metadata \<Rightarrow> packet_metadata) \<Rightarrow> connection \<Rightarrow> connection" where
  "update_packet key type f c =
     (case cs_transactions (cn_state c) key of
        None \<Rightarrow> c
      | Some t \<Rightarrow> c\<lparr>cn_state := put_transaction key
          (t\<lparr>tm_packets := (tm_packets t)(type := map_option f (tm_packets t type))\<rparr>) (cn_state c)\<rparr>)"

end
