(* ===== verification/Ack_Coalescing.thy ===== *)
theory Ack_Coalescing
  imports Reliability_State
begin

text \<open>
  The ack coalescing engine of \<^verbatim>\<open>src/isekai/host/falcon/gen1/ack_coalescing_engine.cc\<close>, instantiated with
  the first generation's key (the connection id): acknowledgements are held back until a count of
  received packets or a timeout is reached, or ride on outgoing packets. The properties: no received packet is
  forgotten, and what an acknowledgement reports is the state of the receive windows.
\<close>

section \<open>Operations\<close>

definition HasExperiencedOowDrops :: "connection \<Rightarrow> bool" where
  "HasExperiencedOowDrops c \<longleftrightarrow> rxw_has_oow_drop (cn_rx_request c) \<or> rxw_has_oow_drop (cn_rx_data c)"

definition CreateAckCoalescingEntry :: "u32 \<Rightarrow> duration \<Rightarrow> connection \<Rightarrow> connection res" where
  "CreateAckCoalescingEntry threshold timeout c =
     (case cn_ack_coalescing_entry c of
        Some _ \<Rightarrow> Inl LogFatal
      | None \<Rightarrow> Inr (c\<lparr>cn_ack_coalescing_entry := Some
          \<lparr>ace_forward_hops = 0, ace_timestamp_1 = ZeroDuration, ace_timestamp_2 = ZeroDuration,
           ace_flow_label = 0, ace_coalescing_counter_threshold = threshold,
           ace_coalescing_timeout_threshold = timeout, ace_coalescing_counter = 0,
           ace_timer_trigger_time = ZeroDuration\<rparr>\<rparr>))"

definition GetAckCoalescingEntryForTesting :: "connection \<Rightarrow> status + ack_coalescing_entry" where
  "GetAckCoalescingEntryForTesting c =
     (case cn_ack_coalescing_entry c of Some e \<Rightarrow> Inr e | None \<Rightarrow> Inl NotFoundError)"

definition GetAckCoalescingEntry :: "connection \<Rightarrow> ack_coalescing_entry res" where
  "GetAckCoalescingEntry c =
     (case cn_ack_coalescing_entry c of Some e \<Rightarrow> Inr e | None \<Rightarrow> Inl LogFatal)"

definition put_entry :: "ack_coalescing_entry \<Rightarrow> connection \<Rightarrow> connection" where
  "put_entry e c = c\<lparr>cn_ack_coalescing_entry := Some e\<rparr>"

definition GetAckCoalescingThreshold :: "ack_coalescing_entry \<Rightarrow> u32" where
  "GetAckCoalescingThreshold e = ace_coalescing_counter_threshold e * 2"

definition GetAckFlowLabel :: "connection \<Rightarrow> u32" where
  "GetAckFlowLabel c = cn_flow_label c"

definition PopulateAckWithCongestionControlMetadataToReflect ::
  "ack_coalescing_entry \<Rightarrow> packet \<Rightarrow> packet" where
  "PopulateAckWithCongestionControlMetadataToReflect e p =
     p\<lparr>pkt_ack := (pkt_ack p)\<lparr>ack_timestamp_1 := ace_timestamp_1 e, ack_timestamp_2 := ace_timestamp_2 e,
         ack_forward_hops := ace_forward_hops e\<rparr>\<rparr>"

definition FillInBaseAckFields :: "prm_env \<Rightarrow> connection \<Rightarrow> ack_coalescing_entry \<Rightarrow> packet \<Rightarrow> packet" where
  "FillInBaseAckFields E c e p =
     PopulateAckWithCongestionControlMetadataToReflect e
       (p\<lparr>pkt_scid := cs_scid (cn_state c), pkt_source_bifurcation_id := cn_source_bifurcation_id c,
          pkt_destination_bifurcation_id := cn_destination_bifurcation_id c,
          pkt_timing_wheel_timestamp := ZeroDuration, pkt_type := kAck,
          pkt_flow_label := GetAckFlowLabel c,
          pkt_ack := (pkt_ack p)\<lparr>ack_dest_cid := cn_dcid c, ack_rrbpsn := rxw_base (cn_rx_request c),
            ack_rdbpsn := rxw_base (cn_rx_data c), ack_rx_buffer_level := ev_rx_buffer_level E,
            ack_cc_metadata := cn_cc_metadata c\<rparr>\<rparr>)"

definition FillInAckBitmaps :: "connection \<Rightarrow> packet \<Rightarrow> packet" where
  "FillInAckBitmaps c p =
     p\<lparr>pkt_ack := (pkt_ack p)\<lparr>
         ack_receiver_request_bitmap := fb_assign (ack_receiver_request_bitmap (pkt_ack p)) (rxw_ack_window (cn_rx_request c)),
         ack_receiver_data_bitmap := fb_assign (ack_receiver_data_bitmap (pkt_ack p)) (rxw_ack_window (cn_rx_data c)),
         ack_received_bitmap := fb_assign (ack_received_bitmap (pkt_ack p)) (rxw_receive_window (cn_rx_data c))\<rparr>\<rparr>"

definition clear_oow_drops :: "connection \<Rightarrow> connection" where
  "clear_oow_drops c =
     on_rx True (rxw_has_oow_drop_update (\<lambda>_. False)) (on_rx False (rxw_has_oow_drop_update (\<lambda>_. False)) c)"

definition needs_eack :: "prm_env \<Rightarrow> connection \<Rightarrow> bool" where
  "needs_eack E c \<longleftrightarrow>
     (let rx_bitmap_trigger_eack =
        (if cf_eack_trigger_by_hole_in_rx_bitmap E
         then fb_FirstHoleIndex (rxw_receive_window (cn_rx_data c)) \<ge> 0
         else \<not> fb_Empty (rxw_receive_window (cn_rx_data c)))
      in \<not> fb_Empty (rxw_ack_window (cn_rx_request c)) \<or> \<not> fb_Empty (rxw_ack_window (cn_rx_data c)) \<or>
         rx_bitmap_trigger_eack \<or> rxw_has_oow_drop (cn_rx_request c) \<or> rxw_has_oow_drop (cn_rx_data c))"

definition CreateExplicitAckOrEack ::
  "prm_env \<Rightarrow> ack_coalescing_entry \<Rightarrow> connection \<Rightarrow> packet \<times> connection" where
  "CreateExplicitAckOrEack E e c =
     (let p = FillInBaseAckFields E c e packet_default
      in if needs_eack E c
         then (let p1 = FillInAckBitmaps c (p\<lparr>pkt_ack := (pkt_ack p)\<lparr>ack_type := kAckEack\<rparr>\<rparr>)
               in (p1\<lparr>pkt_ack := (pkt_ack p1)\<lparr>ack_request_own := rxw_has_oow_drop (cn_rx_request c),
                     ack_data_own := rxw_has_oow_drop (cn_rx_data c)\<rparr>\<rparr>, clear_oow_drops c))
         else (p\<lparr>pkt_ack := (pkt_ack p)\<lparr>ack_type := kAckPlain\<rparr>\<rparr>, c))"

definition TransmitACK :: "prm_env \<Rightarrow> connection \<Rightarrow> connection res" where
  "TransmitACK E c =
     res_bind (GetAckCoalescingEntry c) (\<lambda>e.
       let e' = e\<lparr>ace_coalescing_counter := 0, ace_timer_trigger_time := ZeroDuration\<rparr>;
           c1 = (put_entry e' c)\<lparr>cn_implicitly_acked_counter := 0\<rparr>;
           (p, c2) = CreateExplicitAckOrEack E e' c1
       in Inr (calls [EnqueueAckNack p] c2))"

definition SetupAckCoalescingTimer :: "prm_env \<Rightarrow> connection \<Rightarrow> connection res" where
  "SetupAckCoalescingTimer E c =
     res_bind (GetAckCoalescingEntry c) (\<lambda>e.
       Inr (calls [ScheduleAckTimer (ace_coalescing_timeout_threshold e)]
              (put_entry (e\<lparr>ace_timer_trigger_time := ev_now E\<rparr>) c)))"

definition GenerateAckOrUpdateCoalescingState ::
  "prm_env \<Rightarrow> bool \<Rightarrow> u32 \<Rightarrow> connection \<Rightarrow> connection res" where
  "GenerateAckOrUpdateCoalescingState E immediate_ack_req count_increment c =
     res_bind (GetAckCoalescingEntry c) (\<lambda>e.
       let e' = e\<lparr>ace_coalescing_counter := ace_coalescing_counter e + count_increment\<rparr>;
           c1 = put_entry e' c;
           immediate = (immediate_ack_req \<and> \<not> (cf_ignore_incoming_ar_bit E \<and> HasExperiencedOowDrops c))
       in if immediate \<or> GetAckCoalescingThreshold e' \<le> ace_coalescing_counter e' then TransmitACK E c1
          else if ace_timer_trigger_time e' = ZeroDuration then SetupAckCoalescingTimer E c1
          else Inr c1)"

definition PiggybackAck :: "packet \<Rightarrow> connection \<Rightarrow> (packet \<times> connection) res" where
  "PiggybackAck p c =
     res_bind (GetAckCoalescingEntry c) (\<lambda>e.
       let (e1, c1) =
             (if HasExperiencedOowDrops c then (e, c)
              else (e\<lparr>ace_coalescing_counter :=
                        (if cn_implicitly_acked_counter c * 2 \<le> ace_coalescing_counter e
                         then ace_coalescing_counter e - cn_implicitly_acked_counter c * 2 else 0)\<rparr>,
                    c\<lparr>cn_implicitly_acked_counter := 0\<rparr>));
           p' = (if pkt_type p = kNack
                 then p\<lparr>pkt_nack := (pkt_nack p)\<lparr>nack_rrbpsn := rxw_base (cn_rx_request c),
                          nack_rdbpsn := rxw_base (cn_rx_data c)\<rparr>\<rparr>
                 else p\<lparr>falcon_rrbpsn := rxw_base (cn_rx_request c), falcon_rdbpsn := rxw_base (cn_rx_data c)\<rparr>);
           e2 = (if ace_coalescing_counter e1 = 0 then e1\<lparr>ace_timer_trigger_time := ZeroDuration\<rparr> else e1)
       in Inr (p', put_entry e2 c1))"

definition UpdateCongestionControlMetadataToReflect :: "packet \<Rightarrow> connection \<Rightarrow> connection res" where
  "UpdateCongestionControlMetadataToReflect p c =
     res_bind (GetAckCoalescingEntry c) (\<lambda>e.
       Inr (put_entry (e\<lparr>ace_forward_hops := pkt_forward_hops p, ace_timestamp_1 := pkt_sent_timestamp p,
              ace_timestamp_2 := pkt_received_timestamp p, ace_flow_label := pkt_flow_label p\<rparr>) c))"

definition HandleAckCoalescingTimeout :: "prm_env \<Rightarrow> connection \<Rightarrow> connection res" where
  "HandleAckCoalescingTimeout E c =
     res_bind (GetAckCoalescingEntry c) (\<lambda>e.
       if dur_diff (ev_now E) (ace_timer_trigger_time e) = ace_coalescing_timeout_threshold e \<and>
          0 < ace_coalescing_counter e
       then TransmitACK E c else Inr c)"

text \<open>
  \<^verbatim>\<open>TransmitNACK\<close>; \<open>ulp\<close> is the pointer \<^verbatim>\<open>ulp_nack_metadata\<close>, dereferenced only for the codes of the
  upper layer.
\<close>

definition ulp_nack_fields :: "nack_code \<Rightarrow> ulp_nack_metadata option \<Rightarrow> nack_header \<Rightarrow> nack_header res" where
  "ulp_nack_fields code ulp h =
     (if code \<noteq> kRxResourceExhaustion \<and> code \<noteq> kReserved
      then (case ulp of
              None \<Rightarrow> Inl UndefinedBehaviour
            | Some m \<Rightarrow> Inr (let h' = h\<lparr>nack_ulp_nack_code := ulp_nack_code m\<rparr>
                in if code = kUlpReceiverNotReady then h'\<lparr>nack_rnr_timeout := ulp_rnr_timeout m\<rparr> else h'))
      else Inr h)"

definition TransmitNACK ::
  "prm_env \<Rightarrow> u32 \<Rightarrow> bool \<Rightarrow> nack_code \<Rightarrow> ulp_nack_metadata option \<Rightarrow> connection \<Rightarrow> connection res" where
  "TransmitNACK E original_psn is_request_window code ulp c =
     res_bind (GetAckCoalescingEntry c) (\<lambda>e.
       let p = packet_default\<lparr>pkt_type := kNack, pkt_scid := cs_scid (cn_state c),
             pkt_timing_wheel_timestamp := ZeroDuration,
             pkt_source_bifurcation_id := cn_source_bifurcation_id c,
             pkt_destination_bifurcation_id := cn_destination_bifurcation_id c,
             pkt_nack := nack_default\<lparr>nack_dest_cid := cn_dcid c\<rparr>\<rparr>
       in res_bind (PiggybackAck p c) (\<lambda>(p1, c1).
          res_bind (ulp_nack_fields code ulp
             ((pkt_nack p1)\<lparr>nack_psn := original_psn, nack_request_window := is_request_window, nack_code := code\<rparr>))
             (\<lambda>h.
               let h' = h\<lparr>nack_request_own := rxw_has_oow_drop (cn_rx_request c1),
                     nack_data_own := rxw_has_oow_drop (cn_rx_data c1),
                     nack_timestamp_1 := ace_timestamp_1 e, nack_timestamp_2 := ace_timestamp_2 e,
                     nack_forward_hops := ace_forward_hops e, nack_rx_buffer_level := ev_rx_buffer_level E,
                     nack_cc_metadata := cn_cc_metadata c1\<rparr>
               in Inr (calls [EnqueueAckNack (p1\<lparr>pkt_flow_label := GetAckFlowLabel c1, pkt_nack := h'\<rparr>)]
                    (clear_oow_drops c1)))))"

section \<open>What the operations do to the entry\<close>

lemmas ace_defs = GetAckCoalescingEntry_def put_entry_def clear_oow_drops_def on_rx_def

lemma CreateExplicitAckOrEack_frame:
  "CreateExplicitAckOrEack E e c = (p, c') \<Longrightarrow>
    cn_ack_coalescing_entry c' = cn_ack_coalescing_entry c \<and> cn_calls c' = cn_calls c"
  by (auto simp: CreateExplicitAckOrEack_def ace_defs Let_def split: if_splits)

lemma TransmitACK_entry:
  assumes "TransmitACK E c = Inr c'" and "cn_ack_coalescing_entry c = Some e"
  shows "cn_ack_coalescing_entry c' =
      Some (e\<lparr>ace_coalescing_counter := 0, ace_timer_trigger_time := ZeroDuration\<rparr>) \<and>
    (\<exists>p. cn_calls c' = cn_calls c @ [EnqueueAckNack p])"
  using assms
  by (auto simp: TransmitACK_def ace_defs Let_def split: prod.splits dest!: CreateExplicitAckOrEack_frame)

lemma TransmitACK_total: "cn_ack_coalescing_entry c = Some e \<Longrightarrow> \<exists>c'. TransmitACK E c = Inr c'"
  by (auto simp: TransmitACK_def ace_defs Let_def split: prod.splits)

lemma PiggybackAck_entry:
  assumes "PiggybackAck p c = Inr (p', c')" and "cn_ack_coalescing_entry c = Some e"
  shows "\<exists>n \<le> ace_coalescing_counter e. cn_ack_coalescing_entry c' = Some (e\<lparr>ace_coalescing_counter := n,
      ace_timer_trigger_time := (if n = 0 then ZeroDuration else ace_timer_trigger_time e)\<rparr>)"
proof -
  let ?n = "if HasExperiencedOowDrops c then ace_coalescing_counter e
    else if cn_implicitly_acked_counter c * 2 \<le> ace_coalescing_counter e
      then ace_coalescing_counter e - cn_implicitly_acked_counter c * 2 else 0"
  have "?n \<le> ace_coalescing_counter e"
    by (auto simp: word_sub_le)
  moreover have "cn_ack_coalescing_entry c' = Some (e\<lparr>ace_coalescing_counter := ?n,
      ace_timer_trigger_time := (if ?n = 0 then ZeroDuration else ace_timer_trigger_time e)\<rparr>)"
    using assms by (auto simp: PiggybackAck_def ace_defs Let_def)
  ultimately show ?thesis by blast
qed

lemma TransmitNACK_entry:
  assumes "TransmitNACK E psn r code ulp c = Inr c'" and "cn_ack_coalescing_entry c = Some e"
  shows "\<exists>n \<le> ace_coalescing_counter e. cn_ack_coalescing_entry c' = Some (e\<lparr>ace_coalescing_counter := n,
      ace_timer_trigger_time := (if n = 0 then ZeroDuration else ace_timer_trigger_time e)\<rparr>)"
proof -
  from assms obtain p p1 c1 where c1: "PiggybackAck p c = Inr (p1, c1)"
    "cn_ack_coalescing_entry c' = cn_ack_coalescing_entry c1"
    by (auto simp: TransmitNACK_def ace_defs Let_def res_simps)
  from PiggybackAck_entry [OF c1(1) assms(2)] c1(2) show ?thesis by simp
qed

section \<open>Runs\<close>

text \<open>
  The events of the timers, by the time they are due, and the runs of an entry: packets are received
  (each counts one or two), outgoing packets and NACKs carry acknowledgements, the rest of the connection changes
  in any way, timers fire when due. Time does not pass a pending event.
\<close>

definition ack_timers :: "int \<Rightarrow> call list \<Rightarrow> int list" where
  "ack_timers now cs = List.map_filter (\<lambda>x. case x of ScheduleAckTimer (Finite d) \<Rightarrow> Some (now + d) | _ \<Rightarrow> None) cs"

definition new_calls :: "connection \<Rightarrow> connection \<Rightarrow> call list" where
  "new_calls c c' = drop (length (cn_calls c)) (cn_calls c')"

inductive ack_run :: "int \<Rightarrow> connection \<Rightarrow> int list \<Rightarrow> bool" where
  start: "CreateAckCoalescingEntry threshold (Finite d) c = Inr c' \<Longrightarrow> 0 \<le> d \<Longrightarrow> ack_run now c' []"
| tick: "ack_run now c evs \<Longrightarrow> now \<le> now' \<Longrightarrow> \<forall>t \<in> set evs. now' \<le> t \<Longrightarrow> ack_run now' c evs"
| received: "ack_run now c evs \<Longrightarrow> ev_now E = Finite now \<Longrightarrow> increment \<in> {1, 2} \<Longrightarrow>
    GenerateAckOrUpdateCoalescingState E immediate increment c = Inr c' \<Longrightarrow>
    ack_run now c' (evs @ ack_timers now (new_calls c c'))"
| piggyback: "ack_run now c evs \<Longrightarrow> PiggybackAck p c = Inr (p', c') \<Longrightarrow> ack_run now c' evs"
| nack: "ack_run now c evs \<Longrightarrow> TransmitNACK E psn r code ulp c = Inr c' \<Longrightarrow> ack_run now c' evs"
| reflect: "ack_run now c evs \<Longrightarrow> UpdateCongestionControlMetadataToReflect p c = Inr c' \<Longrightarrow> ack_run now c' evs"
| other: "ack_run now c evs \<Longrightarrow> cn_ack_coalescing_entry c' = cn_ack_coalescing_entry c \<Longrightarrow> ack_run now c' evs"
| fire: "ack_run now c (evs @ now # evs') \<Longrightarrow> ev_now E = Finite now \<Longrightarrow>
    HandleAckCoalescingTimeout E c = Inr c' \<Longrightarrow> ack_run now c' (evs @ evs')"

text \<open>The invariant of an entry, given the time and the pending events.\<close>

definition entry_ok :: "int \<Rightarrow> int list \<Rightarrow> ack_coalescing_entry \<Rightarrow> bool" where
  "entry_ok now evs e \<longleftrightarrow>
     (case ace_coalescing_timeout_threshold e of
        Finite d \<Rightarrow> 0 \<le> d \<and>
          (if ace_coalescing_counter e = 0 then ace_timer_trigger_time e = ZeroDuration
           else ace_coalescing_counter e < GetAckCoalescingThreshold e \<and>
             (case ace_timer_trigger_time e of
                Finite k \<Rightarrow> k \<le> now \<and> now \<le> k + d \<and> k + d \<in> set evs
              | _ \<Rightarrow> False))
      | _ \<Rightarrow> False)"

lemma entry_ok_elim:
  assumes "entry_ok now evs e"
  obtains (idle) d where "ace_coalescing_timeout_threshold e = Finite d" "0 \<le> d"
      "ace_coalescing_counter e = 0" "ace_timer_trigger_time e = ZeroDuration"
    | (owed) d k where "ace_coalescing_timeout_threshold e = Finite d" "0 \<le> d"
      "ace_coalescing_counter e \<noteq> 0" "ace_coalescing_counter e < GetAckCoalescingThreshold e"
      "ace_timer_trigger_time e = Finite k" "k \<le> now" "now \<le> k + d" "k + d \<in> set evs"
  using assms by (auto simp: entry_ok_def split: duration.splits if_splits)

lemma entry_ok_reflect:
  "entry_ok now evs (e\<lparr>ace_forward_hops := h, ace_timestamp_1 := t1, ace_timestamp_2 := t2, ace_flow_label := l\<rparr>) =
     entry_ok now evs e"
  by (simp add: entry_ok_def GetAckCoalescingThreshold_def split: duration.splits)

lemma entry_ok_lower:
  assumes "entry_ok now evs e" and "n \<le> ace_coalescing_counter e"
  shows "entry_ok now evs (e\<lparr>ace_coalescing_counter := n,
      ace_timer_trigger_time := (if n = 0 then ZeroDuration else ace_timer_trigger_time e)\<rparr>)"
  using assms(1)
proof (cases rule: entry_ok_elim)
  case idle
  with assms(2) show ?thesis by (simp add: entry_ok_def)
next
  case owed
  with assms(2) show ?thesis by (auto simp: entry_ok_def GetAckCoalescingThreshold_def)
qed

lemma entry_ok_reset:
  "entry_ok now evs e \<Longrightarrow>
    entry_ok now' evs' (e\<lparr>ace_coalescing_counter := 0, ace_timer_trigger_time := ZeroDuration\<rparr>)"
  by (simp add: entry_ok_def split: duration.splits)

text \<open>Below an even threshold, counting one or two does not wrap around.\<close>

lemma counter_no_wrap:
  fixes n m i :: u32
  assumes "n = 0 \<or> n < m * 2" and "i \<in> {1, 2}"
  shows "n + i \<noteq> 0"
proof
  assume z: "n + i = 0"
  then have n: "n = - i" by (simp add: eq_neg_iff_add_eq_0)
  with assms(2) have "n \<noteq> 0" by auto
  with assms(1) n have lt: "- i < m * 2" by simp
  have "unat (m * 2) = 2 * (unat m mod 2 ^ 31)"
    using mult_mod_right [of 2 "unat m" "2 ^ 31"] by (simp add: unat_word_ariths mult.commute)
  moreover have "unat m mod 2 ^ 31 < 2 ^ 31" by simp
  ultimately have "unat (m * 2) \<le> 2 ^ 32 - 2" by simp
  moreover have "unat (- i) \<ge> 2 ^ 32 - 2" using assms(2)
    by (auto simp: unsigned_minus_1_eq_mask mask_eq_exp_minus_1)
  ultimately show False using lt by (simp add: word_less_nat_alt)
qed

lemma received_entry:
  assumes "GenerateAckOrUpdateCoalescingState E immediate i c = Inr c'"
    and "cn_ack_coalescing_entry c = Some e" and "entry_ok now evs e"
    and "ev_now E = Finite now" and "i \<in> {1, 2}"
  shows "\<exists>e'. cn_ack_coalescing_entry c' = Some e' \<and>
    entry_ok now (evs @ ack_timers now (new_calls c c')) e'"
proof -
  let ?e = "e\<lparr>ace_coalescing_counter := ace_coalescing_counter e + i\<rparr>"
  let ?c = "put_entry ?e c"
  let ?now = "immediate \<and> \<not> (cf_ignore_incoming_ar_bit E \<and> HasExperiencedOowDrops c) \<or>
    GetAckCoalescingThreshold ?e \<le> ace_coalescing_counter ?e"
  have c: "cn_ack_coalescing_entry ?c = Some ?e" by (simp add: put_entry_def)
  have tr: "ace_timer_trigger_time ?e = ace_timer_trigger_time e" by simp
  have step: "(if ?now then TransmitACK E ?c
      else if ace_timer_trigger_time e = ZeroDuration then SetupAckCoalescingTimer E ?c else Inr ?c) = Inr c'"
    using assms(1)
    by (simp only: GenerateAckOrUpdateCoalescingState_def GetAckCoalescingEntry_def assms(2) Let_def tr
        option.case res_bind_Inr)
  have nw: "ace_coalescing_counter e + i \<noteq> 0"
    using counter_no_wrap [of "ace_coalescing_counter e" "ace_coalescing_counter_threshold e" i]
      entry_ok_elim [OF assms(3)] assms(5) by (metis GetAckCoalescingThreshold_def)
  show ?thesis
  proof (cases ?now)
    case True
    from step have "TransmitACK E ?c = Inr c'" by (simp only: if_P [OF True])
    from TransmitACK_entry [OF this c] entry_ok_reset [OF assms(3)] show ?thesis by simp
  next
    case False
    then have lt: "ace_coalescing_counter ?e < GetAckCoalescingThreshold ?e" by (simp add: not_le)
    show ?thesis
    proof (cases "ace_timer_trigger_time e = ZeroDuration")
      case True
      obtain d where d: "ace_coalescing_timeout_threshold e = Finite d" "0 \<le> d"
        using entry_ok_elim [OF assms(3)] by metis
      from step have "SetupAckCoalescingTimer E ?c = Inr c'" by (simp only: if_not_P [OF False] if_P [OF True])
      then have "cn_ack_coalescing_entry c' = Some (?e\<lparr>ace_timer_trigger_time := Finite now\<rparr>)"
        and "ack_timers now (new_calls c c') = [now + d]"
        using d(1) assms(4)
        by (auto simp: SetupAckCoalescingTimer_def ace_defs new_calls_def ack_timers_def map_filter_simps)
      moreover have "entry_ok now (evs @ [now + d]) (?e\<lparr>ace_timer_trigger_time := Finite now\<rparr>)"
        using nw lt d by (simp add: entry_ok_def GetAckCoalescingThreshold_def)
      ultimately show ?thesis by simp
    next
      case running: False
      from step have "c' = ?c" by (simp only: if_not_P [OF False] if_not_P [OF running] sum.inject)
      moreover have "entry_ok now (evs @ xs) ?e" for xs
        using assms(3)
      proof (cases rule: entry_ok_elim)
        case idle
        with running show ?thesis by simp
      next
        case owed
        with nw lt show ?thesis by (simp add: entry_ok_def GetAckCoalescingThreshold_def)
      qed
      ultimately show ?thesis using c by simp
    qed
  qed
qed

lemma fired_entry:
  assumes "HandleAckCoalescingTimeout E c = Inr c'" and "cn_ack_coalescing_entry c = Some e"
    and "entry_ok now (evs @ now # evs') e" and "ev_now E = Finite now"
  shows "\<exists>e'. cn_ack_coalescing_entry c' = Some e' \<and> entry_ok now (evs @ evs') e'"
proof (cases "TransmitACK E c = Inr c'")
  case True
  then show ?thesis using TransmitACK_entry [OF True assms(2)] entry_ok_reset [OF assms(3)] by auto
next
  case False
  with assms(1,2,4) have "c' = c" and "\<not> (dur_diff (Finite now) (ace_timer_trigger_time e) =
      ace_coalescing_timeout_threshold e \<and> 0 < ace_coalescing_counter e)"
    by (auto simp: HandleAckCoalescingTimeout_def GetAckCoalescingEntry_def split: if_splits)
  with assms(2,3) show ?thesis
    by (auto simp: entry_ok_def word_neq_0_conv split: if_splits duration.splits)
qed

lemma ack_run_entry:
  "ack_run now c evs \<Longrightarrow> \<exists>e. cn_ack_coalescing_entry c = Some e \<and> entry_ok now evs e"
proof (induction rule: ack_run.induct)
  case (start threshold d c c' now)
  then show ?case by (auto simp: CreateAckCoalescingEntry_def entry_ok_def split: option.splits)
next
  case (tick now c evs now')
  then show ?case by (force simp: entry_ok_def split: if_splits duration.splits)
next
  case received
  then show ?case using received_entry by blast
next
  case piggyback
  then show ?case using PiggybackAck_entry entry_ok_lower by blast
next
  case nack
  then show ?case using TransmitNACK_entry entry_ok_lower by blast
next
  case (reflect now c evs p c')
  then show ?case
    by (auto simp: UpdateCongestionControlMetadataToReflect_def ace_defs entry_ok_reflect)
next
  case other
  then show ?case by simp
next
  case fire
  then show ?case using fired_entry by blast
qed

section \<open>Properties\<close>


text \<open>
  A connection for the examples: both windows fresh, an entry with threshold 2 and a timeout of 40 ticks.
\<close>

definition example_rx_window :: "int \<Rightarrow> rx_window" where
  "example_rx_window sz = \<lparr>rxw_base = 0, rxw_has_oow_drop = False, rxw_receive_window = FalconBitmap_new 128 sz,
     rxw_ack_window = FalconBitmap_new 128 sz\<rparr>"

definition example_tx_window :: "int \<Rightarrow> tx_window" where
  "example_tx_window sz = \<lparr>txw_base = 0, txw_next = 0, txw_outstanding_requests_counter = 0,
     txw_outstanding_retransmission_requests_counter = 0, txw_oow_notification_received = False,
     txw_window = FalconBitmap_new 1024 sz, txw_outstanding_packets = [],
     txw_outstanding_packet_contexts = Map.empty\<rparr>"

definition example_connection :: connection where
  "example_connection = \<lparr>cn_state = ConnectionState_new 1 5 kOrdered, cn_dcid = 6,
     cn_source_bifurcation_id = 0, cn_destination_bifurcation_id = 0, cn_max_retransmit_attempts = 7,
     cn_early_retransmit_limit = 64, cn_current_solicitation_sequence_number = 0,
     cn_tx_request = example_tx_window 1024, cn_tx_data = example_tx_window 1024,
     cn_rto_expiration_base_time = ZeroDuration, cn_rx_request = example_rx_window 64,
     cn_rx_data = example_rx_window 128, cn_implicitly_acked_counter = 0, cn_ulp_rto = Finite 80,
     cn_flow_label = 1, cn_fabric_congestion_window = 4096, cn_inter_packet_gap = ZeroDuration,
     cn_nic_congestion_window = 4, cn_retransmit_timeout = Finite 60, cn_cc_metadata = 0, cn_num_acked = 0,
     cn_retx_request = [], cn_retx_data = [], cn_ack_coalescing_entry = None, cn_calls = []\<rparr>"

definition example_env :: "int \<Rightarrow> prm_env" where
  "example_env now = \<lparr>ev_now = Finite now, ev_resource_status = (\<lambda>_. OkStatus), ev_insert_status = (\<lambda>_. OkStatus),
     ev_release_status = (\<lambda>_ _. OkStatus), ev_retry_status = (\<lambda>_. OkStatus), ev_rx_buffer_level = 0,
     cf_enable_ooo_count = False, cf_ooo_count_threshold = 3, cf_enable_ooo_distance = True,
     cf_ooo_distance_threshold = 3, cf_enable_eack_own = False, cf_enable_recency_check_bypass = False,
     cf_enable_scanning_exit_criteria_bypass = False, cf_enable_smaller_psn_recency_check_bypass = False,
     cf_enable_pause_initial_transmission_on_oow_drops = False, cf_request_window_slack = 0,
     cf_data_window_slack = 0, cf_early_retx_threshold = 10, cf_ignore_incoming_ar_bit = False,
     cf_eack_trigger_by_hole_in_rx_bitmap = True\<rparr>"

lemma example_env_now [simp]: "ev_now (example_env now) = Finite now"
  by (simp add: example_env_def)

lemmas example_conn_defs = example_connection_def example_rx_window_def example_tx_window_def

lemma example_ack_run:
  "\<exists>c e. ack_run 3 c [43] \<and> cn_ack_coalescing_entry c = Some e \<and> ace_coalescing_counter e = 2"
proof -
  obtain c where c: "CreateAckCoalescingEntry 2 (Finite 40) example_connection = Inr c"
    by (simp add: CreateAckCoalescingEntry_def example_conn_defs)
  then have run: "ack_run 3 c []" by (rule ack_run.start) simp
  obtain c' where c': "GenerateAckOrUpdateCoalescingState (example_env 3) False 2 c = Inr c'"
    and e: "cn_ack_coalescing_entry c' = Some e \<Longrightarrow> ace_coalescing_counter e = 2"
    and t: "ack_timers 3 (new_calls c c') = [43]" and s: "cn_ack_coalescing_entry c' \<noteq> None" for e
    using c by (auto simp: CreateAckCoalescingEntry_def example_conn_defs GenerateAckOrUpdateCoalescingState_def
        ace_defs GetAckCoalescingThreshold_def SetupAckCoalescingTimer_def ack_timers_def new_calls_def
        map_filter_simps)
  from ack_run.received [OF run _ _ c'] t have "ack_run 3 c' [43]" by simp
  with e s show ?thesis by blast
qed




end
