(* ===== verification/Reliability_Tx.thy ===== *)
theory Reliability_Tx
  imports Ack_Coalescing Token_Bucket
begin

text \<open>
  The transmitting half of \<^verbatim>\<open>src/isekai/host/falcon/gen1/packet_reliability_manager.cc\<close>: assigning
  sequence numbers, the retransmission timer, acknowledgements (cumulative, piggybacked, selective, implicit),
  early retransmission, and the gating criteria of the schedulers; with \<^verbatim>\<open>EnqueuePacket\<close> and
  \<^verbatim>\<open>DequeuePacket\<close> of \<^verbatim>\<open>retransmission_scheduler.cc\<close>, as far as they change the connection's queues.

  An operation on a connection is a function of the connection the handler looked up; a missing connection is an
  error of the handlers at the end of \<open>Reliability_Rx\<close>.
\<close>

section \<open>Request counters\<close>

definition IncrementOutstandingRequestCount :: "packet_type \<Rightarrow> connection \<Rightarrow> connection" where
  "IncrementOutstandingRequestCount type c =
     (if type = kPullRequest \<or> type = kPushRequest \<or> type = kPushUnsolicitedData
      then on_tx (BelongsToRequestWindow type)
        (\<lambda>w. w\<lparr>txw_outstanding_requests_counter := txw_outstanding_requests_counter w + 1\<rparr>) c
      else c)"

definition DecrementOutstandingRequestCount :: "packet_type \<Rightarrow> connection \<Rightarrow> connection" where
  "DecrementOutstandingRequestCount type c =
     (if type = kPullRequest \<or> type = kPushSolicitedData \<or> type = kPushUnsolicitedData
      then on_tx (type \<noteq> kPushUnsolicitedData)
        (\<lambda>w. w\<lparr>txw_outstanding_requests_counter := txw_outstanding_requests_counter w - 1\<rparr>) c
      else c)"

definition IncrementOutstandingRetransmittedRequestCount :: "packet_type \<Rightarrow> connection \<Rightarrow> connection" where
  "IncrementOutstandingRetransmittedRequestCount type c =
     (if type = kPullRequest \<or> type = kPushRequest \<or> type = kPushUnsolicitedData
      then on_tx (BelongsToRequestWindow type)
        (\<lambda>w. w\<lparr>txw_outstanding_retransmission_requests_counter :=
                 txw_outstanding_retransmission_requests_counter w + 1\<rparr>) c
      else c)"

definition DecrementOutstandingRetransmittedRequestCount ::
  "packet_type \<Rightarrow> bool \<Rightarrow> connection \<Rightarrow> connection" where
  "DecrementOutstandingRetransmittedRequestCount type is_acked c =
     (if type = kPullRequest \<or> type = kPushUnsolicitedData \<or> (type = kPushSolicitedData \<and> is_acked) \<or>
         (type = kPushRequest \<and> \<not> is_acked)
      then on_tx (type \<noteq> kPushUnsolicitedData)
        (\<lambda>w. w\<lparr>txw_outstanding_retransmission_requests_counter :=
                 txw_outstanding_retransmission_requests_counter w - 1\<rparr>) c
      else c)"

section \<open>The retransmission timer\<close>

definition GetTimeoutOfPacket :: "connection \<Rightarrow> packet_metadata \<Rightarrow> duration" where
  "GetTimeoutOfPacket c p =
     (if pm_nack_code p = kUlpReceiverNotReady then ulp_rnr_timeout (pm_ulp_nack_metadata p)
      else if pm_received p then cn_ulp_rto c
      else cn_retransmit_timeout c)"

definition GetPacketMetadataFromWorkId :: "connection \<Rightarrow> retransmission_work_id \<Rightarrow> packet_metadata res" where
  "GetPacketMetadataFromWorkId c w = prm_GetPacketMetadata c (wid_rsn w) (wid_type w)"

text \<open>\<^verbatim>\<open>std::ceil(absl::ToDoubleNanoseconds(d))\<close>, in ticks.\<close>

fun ceil_ns :: "duration \<Rightarrow> duration" where
  "ceil_ns (Finite t) = Finite (- (- t div 4) * 4)"
| "ceil_ns d = d"

definition head_base_time :: "connection \<Rightarrow> retransmission_work_id list \<Rightarrow> duration \<Rightarrow> duration res" where
  "head_base_time c outstanding base_time =
     (case outstanding of
        [] \<Rightarrow> Inr base_time
      | w # _ \<Rightarrow> res_bind (GetPacketMetadataFromWorkId c w) (\<lambda>p.
          let candidate = dur_add (pm_transmission_time p) (GetTimeoutOfPacket c p)
          in Inr (if candidate < base_time then candidate else base_time)))"

definition SetupRetransmitTimer :: "prm_env \<Rightarrow> connection \<Rightarrow> connection res" where
  "SetupRetransmitTimer E c =
     res_bind (head_base_time c (txw_outstanding_packets (cn_tx_request c)) Infinite) (\<lambda>b1.
     res_bind (head_base_time c (txw_outstanding_packets (cn_tx_data c)) b1) (\<lambda>b2.
       if b2 = Infinite then Inr c
       else let base_time = ceil_ns b2
            in if base_time = cn_rto_expiration_base_time c then Inr c
               else let base = (if base_time < ev_now E then ev_now E else base_time)
                    in Inr (calls [ScheduleRto (dur_diff base (ev_now E))]
                         (c\<lparr>cn_rto_expiration_base_time := base\<rparr>))))"

definition HandleRtoReduction :: "prm_env \<Rightarrow> connection \<Rightarrow> connection res" where
  "HandleRtoReduction E c = SetupRetransmitTimer E (c\<lparr>cn_rto_expiration_base_time := ZeroDuration\<rparr>)"

section \<open>The queues of the retransmission scheduler\<close>

definition on_retx ::
  "bool \<Rightarrow> (retransmission_work_id list \<Rightarrow> retransmission_work_id list) \<Rightarrow> connection \<Rightarrow> connection" where
  "on_retx request f c =
     (if request then c\<lparr>cn_retx_request := f (cn_retx_request c)\<rparr> else c\<lparr>cn_retx_data := f (cn_retx_data c)\<rparr>)"

text \<open>The \<^verbatim>\<open>switch\<close> on the packet type that both operations have: the request queue or the data queue.\<close>

fun retx_queue_type :: "packet_type \<Rightarrow> bool res" where
  "retx_queue_type kPullRequest = Inr True"
| "retx_queue_type kPushRequest = Inr True"
| "retx_queue_type kPullData = Inr False"
| "retx_queue_type kPushGrant = Inr False"
| "retx_queue_type kPushSolicitedData = Inr False"
| "retx_queue_type kPushUnsolicitedData = Inr False"
| "retx_queue_type _ = Inl LogFatal"

definition retx_EnqueuePacket :: "u32 \<Rightarrow> packet_type \<Rightarrow> connection \<Rightarrow> (status \<times> connection) res" where
  "retx_EnqueuePacket rsn type c =
     res_bind (GetTransactionLocation type False) (\<lambda>location.
       case GetTransaction (cn_state c) (rsn, location) of
         Inl e \<Rightarrow> Inr (e, c)
       | Inr t \<Rightarrow> (case GetPacketMetadata t type of
           Inl e \<Rightarrow> Inr (e, c)
         | Inr p \<Rightarrow> res_bind (retx_queue_type type) (\<lambda>r.
             let w = \<lparr>wid_rsn = rsn, wid_psn = pm_psn p, wid_type = type\<rparr>;
                 q = (if r then cn_retx_request c else cn_retx_data c)
             in if wid_contains w q then Inr (AlreadyExistsError, c)
                else Inr (OkStatus, on_retx r (wid_insert w) c))))"

definition retx_DequeuePacket :: "u32 \<Rightarrow> packet_type \<Rightarrow> connection \<Rightarrow> (status \<times> connection) res" where
  "retx_DequeuePacket rsn type c =
     res_bind (GetTransactionLocation type False) (\<lambda>location.
       case GetTransaction (cn_state c) (rsn, location) of
         Inl e \<Rightarrow> Inr (e, c)
       | Inr t \<Rightarrow> (case GetPacketMetadata t type of
           Inl e \<Rightarrow> Inr (e, c)
         | Inr p \<Rightarrow> res_bind (retx_queue_type type) (\<lambda>r.
             Inr (OkStatus, on_retx r (wid_erase \<lparr>wid_rsn = rsn, wid_psn = pm_psn p, wid_type = type\<rparr>) c))))"

definition InitiateRetransmission :: "u32 \<Rightarrow> packet_type \<Rightarrow> connection \<Rightarrow> connection res" where
  "InitiateRetransmission rsn type c =
     res_bind (retx_EnqueuePacket rsn type c) (\<lambda>(status, c1).
     res_bind (lookup_packet c1 rsn type) (\<lambda>(t, p).
       Inr (if 1 < pm_transmit_attempts p \<and> status = OkStatus
            then DecrementOutstandingRetransmittedRequestCount type False c1 else c1)))"

section \<open>Transmitting a packet\<close>

text \<open>
  State of the layer that all connections share: the draw of the next packet that asks for an
  acknowledgement (\<open>ar_draw n\<close> is the \<open>n\<close>-th number of the random generator, one byte) and the token bucket for
  requests at the end of an operation.
\<close>

record prm_shared =
  ar_passed_packets :: u8
  ar_next :: u8
  ar_draws :: nat
  ar_draw :: "nat \<Rightarrow> u8"
  ack_token_bucket :: token_bucket
  cf_enable_ack_request_bit :: bool
  cf_ack_request_fcwnd_threshold :: u32
  cf_op_boundary_ar_bit :: bool

definition MeetsAckRequestedBitSetCriteria :: "u32 \<Rightarrow> prm_shared \<Rightarrow> bool \<times> prm_shared" where
  "MeetsAckRequestedBitSetCriteria fcwnd g =
     (if \<not> cf_enable_ack_request_bit g then (False, g)
      else let passed = ar_passed_packets g + 1
           in if ar_next g \<le> passed
              then (True, g\<lparr>ar_passed_packets := 0, ar_next := ar_draw g (ar_draws g), ar_draws := Suc (ar_draws g)\<rparr>)
              else (fcwnd \<le> cf_ack_request_fcwnd_threshold g, g\<lparr>ar_passed_packets := passed\<rparr>))"

text \<open>
  Whether the packet asks for an acknowledgement; \<open>floor_fdiv\<close> is the token bucket's floating-point
  division, \<open>now\<close> the time as a number. A flag that is already set is never cleared.
\<close>

definition choose_ack_req ::
  "(int \<Rightarrow> int \<Rightarrow> int) \<Rightarrow> int \<Rightarrow> u32 \<Rightarrow> packet \<Rightarrow> prm_shared \<Rightarrow> (bool \<times> prm_shared) res" where
  "choose_ack_req floor_fdiv now fcwnd p g =
     (let (ar, g1) = MeetsAckRequestedBitSetCriteria fcwnd g
      in if ar then Inr (True, g1)
         else if pkt_is_last_packet p \<and> cf_op_boundary_ar_bit g1
         then res_bind (AreTokensAvailable floor_fdiv 1 now (ack_token_bucket g1)) (\<lambda>(available, tb).
                if available
                then res_bind (RequestTokens 1 tb) (\<lambda>tb'. Inr (True, g1\<lparr>ack_token_bucket := tb'\<rparr>))
                else Inr (falcon_ack_req p, g1\<lparr>ack_token_bucket := tb\<rparr>))
         else Inr (falcon_ack_req p, g1))"

text \<open>
  \<^verbatim>\<open>FixedToFloat(w, 10)\<close> is exact for 32-bit values; its floor drops the ten fractional bits.
\<close>

definition fcwnd_floor :: "connection \<Rightarrow> u32" where
  "fcwnd_floor c = drop_bit 10 (cn_fabric_congestion_window c)"

definition ChooseOutgoingPacketFlowLabel :: "connection \<Rightarrow> u32" where
  "ChooseOutgoingPacketFlowLabel c = cn_flow_label c"

text \<open>The lengths set at the end of \<^verbatim>\<open>SetOutgoingPacketHeader\<close>, by packet type.\<close>

definition outgoing_lengths :: "connection \<Rightarrow> u32 \<Rightarrow> packet_type \<Rightarrow> packet \<Rightarrow> packet res" where
  "outgoing_lengths c rsn type p =
     (if type = kPullRequest
      then Inr (p\<lparr>falcon_request_length := ucast (rdma_request_length p), falcon_payload_length := ucast (rdma_data_length p)\<rparr>)
      else if type = kPushRequest \<or> type = kPushGrant
      then res_bind (GetTransactionLocation type False) (\<lambda>location.
             case GetTransaction (cn_state c) (rsn, location) of
               Inl _ \<Rightarrow> Inl CheckFailed
             | Inr t \<Rightarrow> Inr (p\<lparr>falcon_request_length := ucast (tm_request_length t), falcon_payload_length := 0\<rparr>))
      else if type = kPullData \<or> type = kPushSolicitedData \<or> type = kPushUnsolicitedData
      then Inr (p\<lparr>falcon_payload_length := ucast (rdma_request_length p)\<rparr>)
      else if type = kResync then Inl LogFatal
      else Inr p)"

definition SetOutgoingPacketHeader ::
  "prm_env \<Rightarrow> bool \<Rightarrow> connection \<Rightarrow> u32 \<Rightarrow> packet_type \<Rightarrow> packet \<Rightarrow> packet res" where
  "SetOutgoingPacketHeader E ack_req c rsn type p =
     outgoing_lengths c rsn type
       (p\<lparr>pkt_type := type, pkt_source_bifurcation_id := cn_source_bifurcation_id c,
          pkt_destination_bifurcation_id := cn_destination_bifurcation_id c,
          pkt_timing_wheel_timestamp :=
            (if fcwnd_floor c < 1 then dur_add (ev_now E) (cn_inter_packet_gap c) else ZeroDuration),
          pkt_flow_label := ChooseOutgoingPacketFlowLabel c,
          falcon_dest_cid := cn_dcid c, falcon_rsn := rsn, falcon_ack_req := ack_req,
          falcon_rrbpsn := rxw_base (cn_rx_request c), falcon_rdbpsn := rxw_base (cn_rx_data c)\<rparr>)"

definition AddToOutstandingPackets :: "u32 \<Rightarrow> u32 \<Rightarrow> packet_type \<Rightarrow> connection \<Rightarrow> connection" where
  "AddToOutstandingPackets rsn psn type c =
     on_tx (BelongsToRequestWindow type)
       (\<lambda>w. w\<lparr>txw_outstanding_packets :=
                wid_insert \<lparr>wid_rsn = rsn, wid_psn = psn, wid_type = type\<rparr> (txw_outstanding_packets w),
              txw_outstanding_packet_contexts :=
                (txw_outstanding_packet_contexts w)(psn \<mapsto> \<lparr>opc_rsn = rsn, opc_packet_type = type\<rparr>)\<rparr>) c"

text \<open>
  \<^verbatim>\<open>AssignPsnAndSsn\<close>: the next sequence number of the window, and for a push request the next
  solicitation sequence number.
\<close>

definition AssignPsnAndSsn ::
  "transaction_key \<Rightarrow> packet_type \<Rightarrow> packet \<Rightarrow> connection \<Rightarrow> packet \<times> connection" where
  "AssignPsnAndSsn key type p c =
     (let psn = txw_next (GetAppropriateTxWindow_type c type);
          c1 = update_packet key type (pm_psn_update (\<lambda>_. psn)) c;
          c2 = on_tx (BelongsToRequestWindow type) (txw_next_update (\<lambda>n. n + 1)) c1;
          p1 = p\<lparr>falcon_psn := psn\<rparr>
      in if type = kPushRequest
         then (p1\<lparr>falcon_ssn := cn_current_solicitation_sequence_number c2\<rparr>,
               c2\<lparr>cn_current_solicitation_sequence_number := cn_current_solicitation_sequence_number c2 + 1\<rparr>)
         else (p1, c2))"

definition count_retransmission :: "packet_metadata \<Rightarrow> packet_metadata" where
  "count_retransmission p =
     (if 1 < pm_transmit_attempts p
      then case pm_retransmission_reason p of
             kTimeout \<Rightarrow> p\<lparr>pm_timeout_retransmission_attempts := pm_timeout_retransmission_attempts p + 1\<rparr>
           | kUlpRto \<Rightarrow> p\<lparr>pm_timeout_retransmission_attempts := pm_timeout_retransmission_attempts p + 1\<rparr>
           | _ \<Rightarrow> p\<lparr>pm_early_retx_attempts := pm_early_retx_attempts p + 1\<rparr>
      else p)"

definition SetupRetransmission ::
  "prm_env \<Rightarrow> transaction_key \<Rightarrow> u32 \<Rightarrow> packet_type \<Rightarrow> u32 \<Rightarrow> connection \<Rightarrow> connection res" where
  "SetupRetransmission E key rsn type psn c =
     SetupRetransmitTimer E (AddToOutstandingPackets rsn psn type
       (update_packet key type (\<lambda>p. count_retransmission (p\<lparr>pm_transmission_time := ev_now E\<rparr>)) c))"

text \<open>The fields of a received packet context that an incoming or an outgoing packet sets.\<close>

definition has_rdma_header :: "packet_type \<Rightarrow> bool" where
  "has_rdma_header type \<longleftrightarrow> type = kPushSolicitedData \<or> type = kPushUnsolicitedData \<or>
     type = kPushRequest \<or> type = kPullRequest \<or> type = kPullData"

definition received_context ::
  "packet \<Rightarrow> packet_direction \<Rightarrow> received_packet_context option \<Rightarrow> received_packet_context" where
  "received_context p direction old =
     (let x = (case old of Some x \<Rightarrow> x
               | None \<Rightarrow> \<lparr>rpc_qp_id = 0, rpc_psn = 0, rpc_type = kInvalid, rpc_is_ack_requested = False\<rparr>);
          x1 = (if direction = kIncoming
                then x\<lparr>rpc_psn := falcon_psn p, rpc_type := pkt_type p, rpc_is_ack_requested := falcon_ack_req p\<rparr>
                else x)
      in if has_rdma_header (pkt_type p)
         then x1\<lparr>rpc_qp_id := (if direction = kIncoming then rdma_dest_qp_id p else pkt_rdma_src_qp_id p)\<rparr>
         else x1)"

definition CreateOrUpdateReceiverPacketContext :: "packet \<Rightarrow> packet_direction \<Rightarrow> connection \<Rightarrow> connection res" where
  "CreateOrUpdateReceiverPacketContext p direction c =
     res_bind (GetTransactionLocation (pkt_type p) (direction = kIncoming)) (\<lambda>location.
       let key = (falcon_rsn p, location); ctxs = cs_received_packet_contexts (cn_state c)
       in Inr (c\<lparr>cn_state := (cn_state c)\<lparr>cs_received_packet_contexts :=
            ctxs(key \<mapsto> received_context p direction (ctxs key))\<rparr>\<rparr>))"

text \<open>What the rate update engine is told of a retransmission, by its reason.\<close>

definition rue_retransmission :: "packet_metadata \<Rightarrow> packet \<Rightarrow> call list" where
  "rue_retransmission m p =
     (case pm_retransmission_reason m of
        kTimeout \<Rightarrow> [RueTimeoutRetransmitted p (pm_timeout_retransmission_attempts m)]
      | kUlpRto \<Rightarrow> []
      | _ \<Rightarrow> [RueEarlyRetransmitted p (pm_timeout_retransmission_attempts m)])"

text \<open>
  \<^verbatim>\<open>TransmitPacket\<close> in three parts: numbering the packet on its first transmission (telling the rate update
  engine on a later one), counting the request or retransmission, and the steps in their order.
\<close>

definition number_packet ::
  "transaction_key \<Rightarrow> packet_type \<Rightarrow> packet_metadata \<Rightarrow> packet \<Rightarrow> connection \<Rightarrow> packet \<times> connection" where
  "number_packet key type m p c =
     (if pm_transmit_attempts m = 1 then AssignPsnAndSsn key type p c else (p, calls (rue_retransmission m p) c))"

definition count_transmission ::
  "prm_env \<Rightarrow> transaction_key \<Rightarrow> packet_type \<Rightarrow> bool \<Rightarrow> connection \<Rightarrow> connection res" where
  "count_transmission E key type is_retransmission c =
     (if is_retransmission then Inr (IncrementOutstandingRetransmittedRequestCount type c)
      else let c1 = IncrementOutstandingRequestCount type c
           in case cs_transactions (cn_state c1) key of
                None \<Rightarrow> Inl UndefinedBehaviour
              | Some t \<Rightarrow> res_bind (UpdateState (ev_now E) type NtwkTx t) (\<lambda>(t', samples).
                  Inr (calls [LatencySamples samples] (c1\<lparr>cn_state := put_transaction key t' (cn_state c1)\<rparr>))))"

definition send_numbered ::
  "(int \<Rightarrow> int \<Rightarrow> int) \<Rightarrow> int \<Rightarrow> prm_env \<Rightarrow> u32 \<Rightarrow> transaction_key \<Rightarrow> u32 \<Rightarrow> packet_type \<Rightarrow> packet_metadata \<Rightarrow>
   packet \<Rightarrow> prm_shared \<times> connection \<Rightarrow> (prm_shared \<times> connection) res" where
  "send_numbered floor_fdiv now E rsn key t_rsn type m p gc =
     (let (g, c) = gc; psn = (if pm_transmit_attempts m = 1 then falcon_psn p else pm_psn m) in
      res_bind (choose_ack_req floor_fdiv now (fcwnd_floor c) p g) (\<lambda>(ar, g1).
      res_bind (SetOutgoingPacketHeader E ar c rsn type p) (\<lambda>p2.
      res_bind (SetupRetransmission E key t_rsn type psn c) (\<lambda>c3.
      res_bind (PiggybackAck p2 c3) (\<lambda>(p3, c4).
      res_bind (CreateOrUpdateReceiverPacketContext p3 kOutgoing c4) (\<lambda>c5.
      res_bind (count_transmission E key type (pm_transmit_attempts m \<noteq> 1) c5) (\<lambda>c6.
        let copy = (\<lambda>q. q\<lparr>pm_retransmission_packet_copy := p3, pm_active_packet := Some p3\<rparr>)
        in Inr (g1, calls [TransferTxPacket p3] (update_packet key type copy c6)))))))))"

definition TransmitPacket ::
  "(int \<Rightarrow> int \<Rightarrow> int) \<Rightarrow> int \<Rightarrow> prm_env \<Rightarrow> u32 \<Rightarrow> packet_type \<Rightarrow> prm_shared \<times> connection \<Rightarrow>
   (status \<times> prm_shared \<times> connection) res" where
  "TransmitPacket floor_fdiv now E rsn type gc =
     (let (g, c) = gc in
      res_bind (GetTransactionLocation type False) (\<lambda>location.
       case GetTransaction (cn_state c) (rsn, location) of
         Inl e \<Rightarrow> Inr (e, g, c)
       | Inr t \<Rightarrow> (case GetPacketMetadata t type of
           Inl e \<Rightarrow> Inr (e, g, c)
         | Inr m0 \<Rightarrow>
            let key = (rsn, location); m = m0\<lparr>pm_transmit_attempts := pm_transmit_attempts m0 + 1\<rparr>;
                c1 = update_packet key type (\<lambda>_. m) c
            in case pm_active_packet m of
                 None \<Rightarrow> Inl UndefinedBehaviour
               | Some p0 \<Rightarrow>
                  let (p1, c2) = number_packet key type m p0 c1
                  in res_bind (send_numbered floor_fdiv now E rsn key (tm_rsn t) type m p1 (g, c2)) (\<lambda>(g', c').
                       Inr (OkStatus, g', c')))))"

section \<open>Acknowledgements\<close>

definition AccumulateNumAcked :: "connection \<Rightarrow> connection" where
  "AccumulateNumAcked c = c\<lparr>cn_num_acked := cn_num_acked c + 1\<rparr>"

text \<open>
  \<^verbatim>\<open>EnqueueAckToUlp\<close> in its steps: the counters of retransmitted requests, which depend on whether the packet is
  outstanding or queued for retransmission; then the report to the reorder engine or the resource
  manager.
\<close>

definition ack_outstanding ::
  "bool \<Rightarrow> u32 \<Rightarrow> u32 \<Rightarrow> packet_type \<Rightarrow> transaction_metadata \<Rightarrow> connection \<Rightarrow> connection res" where
  "ack_outstanding request psn rsn type t c =
     (let w = \<lparr>wid_rsn = rsn, wid_psn = psn, wid_type = type\<rparr>
      in if \<not> wid_contains w (txw_outstanding_packets (GetAppropriateTxWindow c request))
         then res_bind (retx_DequeuePacket rsn type c) (\<lambda>(status, c1).
                if status = OkStatus then Inr c1 else Inl LogFatal)
         else let c1 = on_tx request (\<lambda>x. x\<lparr>txw_outstanding_packets := wid_erase w (txw_outstanding_packets x)\<rparr>) c
              in (case GetPacketMetadata t type of
                    Inl _ \<Rightarrow> Inl CheckFailed
                  | Inr m \<Rightarrow> Inr (if (type = kPullRequest \<or> type = kPushUnsolicitedData) \<and> 1 < pm_transmit_attempts m
                      then DecrementOutstandingRetransmittedRequestCount type True c1 else c1)))"

definition ack_request_retransmitted :: "packet_type \<Rightarrow> transaction_metadata \<Rightarrow> connection \<Rightarrow> connection res" where
  "ack_request_retransmitted type t c =
     (if type = kPushSolicitedData
      then (case GetPacketMetadata t kPushRequest of
              Inl _ \<Rightarrow> Inl CheckFailed
            | Inr m \<Rightarrow> Inr (if 1 < pm_transmit_attempts m
                then DecrementOutstandingRetransmittedRequestCount type True c else c))
      else Inr c)"

definition report_ack ::
  "prm_env \<Rightarrow> u32 \<Rightarrow> packet_type \<Rightarrow> transaction_location \<Rightarrow> connection \<Rightarrow> connection res" where
  "report_ack E rsn type location c =
     (if type = kPushSolicitedData \<or> type = kPushUnsolicitedData
      then if ev_insert_status E rsn = OkStatus then Inr (calls [InsertAck rsn] c) else Inl LogFatal
      else if ev_release_status E (rsn, location) type = OkStatus
           then Inr (calls [ReleaseResourcesOf (rsn, location) type] c) else Inl LogFatal)"

definition forget_pull :: "u32 \<Rightarrow> packet_type \<Rightarrow> transaction_location \<Rightarrow> connection \<Rightarrow> connection" where
  "forget_pull rsn type location c =
     (if type = kPullData
      then c\<lparr>cn_state := (cn_state c)\<lparr>cs_transactions := (cs_transactions (cn_state c))((rsn, location) := None),
               cs_received_packet_contexts := (cs_received_packet_contexts (cn_state c))((rsn, location) := None)\<rparr>\<rparr>
      else c)"

definition EnqueueAckToUlp :: "prm_env \<Rightarrow> bool \<Rightarrow> u32 \<Rightarrow> connection \<Rightarrow> connection res" where
  "EnqueueAckToUlp E request psn c =
     (case GetOutstandingPacketRSN (GetAppropriateTxWindow c request) psn of
        Inl _ \<Rightarrow> Inl CheckFailed
      | Inr x \<Rightarrow> let rsn = opc_rsn x; type = opc_packet_type x in
          res_bind (GetTransactionLocation type False) (\<lambda>location.
            case GetTransaction (cn_state c) (rsn, location) of
              Inl _ \<Rightarrow> Inl CheckFailed
            | Inr t \<Rightarrow>
                res_bind (UpdateState (ev_now E) type NtwkAckRx t) (\<lambda>(t', samples).
                res_bind (ack_request_retransmitted type t' (DecrementOutstandingRequestCount type
                    (calls [LatencySamples samples] (c\<lparr>cn_state := put_transaction (rsn, location) t' (cn_state c)\<rparr>))))
                  (\<lambda>c1.
                res_bind (ack_outstanding request psn rsn type t' c1) (\<lambda>c2.
                res_bind (report_ack E rsn type location
                    (on_tx request (\<lambda>w. w\<lparr>txw_outstanding_packet_contexts :=
                       (txw_outstanding_packet_contexts w)(psn := None)\<rparr>) (AccumulateNumAcked c2)))
                  (\<lambda>c3. Inr (forget_pull rsn type location c3)))))))"

text \<open>
  The packets below the base of an acknowledgement that are not acknowledged yet: the loop of \<^verbatim>\<open>HandleACK\<close>
  and of \<^verbatim>\<open>HandlePiggybackedACK\<close> over the indices of the window.
\<close>

fun ack_below_base :: "prm_env \<Rightarrow> bool \<Rightarrow> nat list \<Rightarrow> connection \<Rightarrow> connection res" where
  "ack_below_base E request [] c = Inr c"
| "ack_below_base E request (i # is) c =
     res_bind (fb_Get (txw_window (GetAppropriateTxWindow c request)) (int i)) (\<lambda>acked.
       if acked then ack_below_base E request is c
       else res_bind (EnqueueAckToUlp E request
              (of_nat i + txw_base (GetAppropriateTxWindow c request)) c) (ack_below_base E request is))"

definition advance_tx_window :: "prm_env \<Rightarrow> bool \<Rightarrow> u32 \<Rightarrow> bool \<Rightarrow> connection \<Rightarrow> connection res" where
  "advance_tx_window E request ack_bpsn own_notification c =
     (let w = GetAppropriateTxWindow c request;
          slack = (if request then cf_request_window_slack E else cf_data_window_slack E)
      in if SeqGT ack_bpsn (txw_base w)
         then let oow = (if SeqGEQ (ack_bpsn + slack) (txw_next w) then False
                         else if own_notification then True else txw_oow_notification_received w);
                  delta = ack_bpsn - txw_base w;
                  c1 = on_tx request (\<lambda>x. x\<lparr>txw_oow_notification_received := oow\<rparr>) c
              in res_bind (ack_below_base E request [0..<unat delta] c1) (\<lambda>c2.
                   Inr (on_tx request (\<lambda>x. x\<lparr>txw_window := fb_RightShift (txw_window x) (sint delta),
                          txw_base := ack_bpsn\<rparr>) c2))
         else Inr c)"

definition stale_ack :: "u32 \<Rightarrow> u32 \<Rightarrow> connection \<Rightarrow> bool" where
  "stale_ack rrbpsn rdbpsn c \<longleftrightarrow>
     SeqLT rrbpsn (txw_base (cn_tx_request c)) \<or> SeqLT rdbpsn (txw_base (cn_tx_data c))"

definition HandlePiggybackedACK :: "prm_env \<Rightarrow> packet \<Rightarrow> connection \<Rightarrow> connection res" where
  "HandlePiggybackedACK E p c =
     (let (rrbpsn, rdbpsn) = (if pkt_type p = kNack then (nack_rrbpsn (pkt_nack p), nack_rdbpsn (pkt_nack p))
                              else (falcon_rrbpsn p, falcon_rdbpsn p))
      in if stale_ack rrbpsn rdbpsn c then Inr c
         else res_bind (advance_tx_window E True rrbpsn (nack_request_own (pkt_nack p)) c) (\<lambda>c1.
              res_bind (advance_tx_window E False rdbpsn (nack_data_own (pkt_nack p)) c1) (\<lambda>c2.
                SetupRetransmitTimer E c2)))"

text \<open>
  \<^verbatim>\<open>HandleImplicitAck\<close>: a response acknowledges the request it answers. The comparison with the
  base is a plain \<^verbatim>\<open><\<close>, not a distance.
\<close>

definition implicitly_acked :: "packet \<Rightarrow> (transaction_location \<times> packet_type \<times> bool) option" where
  "implicitly_acked p =
     (case pkt_type p of
        kPullData \<Rightarrow> Some (kInitiator, kPullRequest, True)
      | kPushSolicitedData \<Rightarrow> Some (kTarget, kPushGrant, False)
      | kPushGrant \<Rightarrow> Some (kInitiator, kPushRequest, True)
      | _ \<Rightarrow> None)"

definition HandleImplicitAck :: "prm_env \<Rightarrow> packet \<Rightarrow> connection \<Rightarrow> connection res" where
  "HandleImplicitAck E p c =
     (case implicitly_acked p of
        None \<Rightarrow> Inr c
      | Some (location, type, request) \<Rightarrow>
         (case GetTransaction (cn_state c) (falcon_rsn p, location) of
            Inl _ \<Rightarrow> Inl CheckFailed
          | Inr t \<Rightarrow> (case GetPacketMetadata t type of
              Inl _ \<Rightarrow> Inl CheckFailed
            | Inr m \<Rightarrow>
               let w = GetAppropriateTxWindow c request; tx_psn = pm_psn m
               in if tx_psn < txw_base w then Inr c
                  else let index = tx_psn - txw_base w
                       in res_bind (fb_Get (txw_window w) (sint index)) (\<lambda>acked.
                            if acked then Inr c
                            else res_bind (EnqueueAckToUlp E request tx_psn c) (\<lambda>c1.
                                 res_bind (fb_Set (txw_window (GetAppropriateTxWindow c1 request)) (sint index) True) (\<lambda>b.
                                 let c2 = on_tx request (\<lambda>x. x\<lparr>txw_window := b\<rparr>) c1;
                                     c3 = (if tx_psn = txw_base (GetAppropriateTxWindow c2 request)
                                           then on_tx request (\<lambda>x. x\<lparr>txw_window := fb_RightShift (txw_window x) 1,
                                                  txw_base := txw_base x + 1\<rparr>) c2
                                           else c2)
                                 in SetupRetransmitTimer E c3))))))"

section \<open>Selective acknowledgements and early retransmission\<close>

record ack_window_metadata =
  awm_own :: bool
  awm_window :: falcon_bitmap

fun ack_selected :: "prm_env \<Rightarrow> bool \<Rightarrow> falcon_bitmap \<Rightarrow> nat list \<Rightarrow> connection \<Rightarrow> connection res" where
  "ack_selected E request bm [] c = Inr c"
| "ack_selected E request bm (i # is) c =
     res_bind (fb_Get (txw_window (GetAppropriateTxWindow c request)) (int i)) (\<lambda>acked.
       if acked then ack_selected E request bm is c
       else res_bind (fb_Get bm (int i)) (\<lambda>v.
         if \<not> v then ack_selected E request bm is c
         else res_bind (EnqueueAckToUlp E request (txw_base (GetAppropriateTxWindow c request) + of_nat i) c) (\<lambda>c1.
              res_bind (fb_Set (txw_window (GetAppropriateTxWindow c1 request)) (int i) True) (\<lambda>b.
                ack_selected E request bm is (on_tx request (\<lambda>x. x\<lparr>txw_window := b\<rparr>) c1)))))"

text \<open>
  The two algorithms for the highest index to retransmit. The loop over \<^verbatim>\<open>limit\<close> runs downwards from the
  size of the bitmap; its argument here is \<^verbatim>\<open>limit + 1\<close>.
\<close>

fun ooo_count_loop :: "falcon_bitmap \<Rightarrow> nat \<Rightarrow> nat \<Rightarrow> nat \<Rightarrow> int res" where
  "ooo_count_loop bm threshold 0 count = Inr (-1)"
| "ooo_count_loop bm threshold (Suc limit) count =
     (if count < threshold
      then res_bind (fb_Get bm (int limit)) (\<lambda>v. ooo_count_loop bm threshold limit (count + (if v then 1 else 0)))
      else Inr (int limit))"

definition EarlyRetransmissionOooCount :: "prm_env \<Rightarrow> ack_window_metadata \<Rightarrow> int res" where
  "EarlyRetransmissionOooCount E a =
     ooo_count_loop (awm_window a) (unat (cf_ooo_count_threshold E)) (nat (bm_size (awm_window a))) 0"

fun highest_received :: "falcon_bitmap \<Rightarrow> nat \<Rightarrow> int res" where
  "highest_received bm 0 = Inr (-1)"
| "highest_received bm (Suc limit) =
     res_bind (fb_Get bm (int limit)) (\<lambda>v. if v then Inr (int limit) else highest_received bm limit)"

definition EarlyRetransmissionOooDistance :: "prm_env \<Rightarrow> ack_window_metadata \<Rightarrow> int res" where
  "EarlyRetransmissionOooDistance E a =
     res_bind (highest_received (awm_window a) (nat (bm_size (awm_window a)))) (\<lambda>limit.
       Inr (sint (word_of_int limit - cf_ooo_distance_threshold E :: u32)))"

definition EarlyRetransmissionMergeRetxLimit :: "int \<Rightarrow> int \<Rightarrow> int" where
  "EarlyRetransmissionMergeRetxLimit retx_limit new_limit = (if retx_limit < new_limit then new_limit else retx_limit)"

definition EackBasedEarlyRetransmissionIsEnabled :: "prm_env \<Rightarrow> bool" where
  "EackBasedEarlyRetransmissionIsEnabled E \<longleftrightarrow> cf_enable_ooo_distance E \<or> cf_enable_ooo_count E"

text \<open>The limit of one window; on an out-of-window notification it is the last sequence number sent.\<close>

definition retx_limit :: "prm_env \<Rightarrow> bool \<Rightarrow> ack_window_metadata \<Rightarrow> connection \<Rightarrow> int res" where
  "retx_limit E request a c =
     res_bind (if cf_enable_ooo_count E
       then res_bind (EarlyRetransmissionOooCount E a) (\<lambda>l. Inr (EarlyRetransmissionMergeRetxLimit (-1) l))
       else Inr (-1)) (\<lambda>l1.
     res_bind (if cf_enable_ooo_distance E
       then res_bind (EarlyRetransmissionOooDistance E a) (\<lambda>l. Inr (EarlyRetransmissionMergeRetxLimit l1 l))
       else Inr l1) (\<lambda>l2.
     Inr (if cf_enable_eack_own E \<and> awm_own a then sint (txw_next (GetAppropriateTxWindow c request) - 1) else l2)))"

fun has_hole :: "falcon_bitmap \<Rightarrow> nat list \<Rightarrow> bool res" where
  "has_hole bm [] = Inr False"
| "has_hole bm (i # is) = res_bind (fb_Get bm (int i)) (\<lambda>v. if v then has_hole bm is else Inr True)"

definition window_drop_detected :: "ack_window_metadata \<Rightarrow> int \<Rightarrow> bool res" where
  "window_drop_detected a limit = has_hole (awm_window a) [0..<nat (min (bm_size (awm_window a) - 1) limit + 1)]"

definition ShouldSkipRetransmission :: "int \<Rightarrow> ack_window_metadata \<Rightarrow> bool res" where
  "ShouldSkipRetransmission bitmap_index a =
     (if bitmap_index < bm_size (awm_window a) then fb_Get (awm_window a) bitmap_index else Inr False)"

definition window_index :: "tx_window \<Rightarrow> u32 \<Rightarrow> int" where
  "window_index w psn = sint ((psn - txw_base w) mod word_of_int (bm_size (txw_window w)))"

definition mark_early_retx :: "bool \<Rightarrow> packet_metadata \<Rightarrow> packet_metadata" where
  "mark_early_retx own m =
     m\<lparr>pm_retransmission_reason := kEarlyOooDis, pm_bypass_recency_check := False,
       pm_bypass_scanning_exit_criteria := \<not> own\<rparr>"

text \<open>
  The scan of the outstanding packets of one window: the arguments are the packets from the iterator on, and
  the flag that lets later packets bypass the recency check.
\<close>

fun eack_scan ::
  "prm_env \<Rightarrow> packet \<Rightarrow> bool \<Rightarrow> ack_window_metadata \<Rightarrow> int \<Rightarrow> retransmission_work_id list \<Rightarrow> bool \<Rightarrow>
   connection \<Rightarrow> connection res" where
  "eack_scan E p request a limit [] force c = Inr c"
| "eack_scan E p request a limit (w # ws) force c =
     (let index = window_index (GetAppropriateTxWindow c request) (wid_psn w)
      in if limit < index then Inr c
         else res_bind (ShouldSkipRetransmission index a) (\<lambda>skip.
           if skip then eack_scan E p request a limit ws force c
           else res_bind (GetPacketMetadataFromWorkId c w) (\<lambda>m.
             if pm_nack_code m = kUlpReceiverNotReady then Inr c
             else let instant_rtt = dur_diff (pkt_received_timestamp p) (ack_timestamp_1 (pkt_ack p))
                  in if instant_rtt \<le> dur_diff (ev_now E) (pm_transmission_time m) \<or>
                        (cf_enable_recency_check_bypass E \<and> awm_own a \<and> pm_bypass_recency_check m) \<or>
                        (cf_enable_smaller_psn_recency_check_bypass E \<and> awm_own a \<and> force)
                     then if cf_early_retx_threshold E \<le> pm_early_retx_attempts m then Inl LogFatal
                          else res_bind (GetTransactionLocation (wid_type w) False) (\<lambda>location.
                               res_bind (InitiateRetransmission (wid_rsn w) (wid_type w)
                                  (update_packet (wid_rsn w, location) (wid_type w) (mark_early_retx (awm_own a)) c)) (\<lambda>c1.
                                 eack_scan E p request a limit ws (force \<or> awm_own a)
                                   (on_tx request (\<lambda>x. x\<lparr>txw_outstanding_packets :=
                                      wid_erase w (txw_outstanding_packets x)\<rparr>) c1)))
                     else if cf_enable_scanning_exit_criteria_bypass E \<and> awm_own a \<and>
                             pm_bypass_scanning_exit_criteria m
                     then eack_scan E p request a limit ws force c
                     else Inr c)))"

definition HandleEACK :: "prm_env \<Rightarrow> packet \<Rightarrow> connection \<Rightarrow> (bool \<times> connection) res" where
  "HandleEACK E p c =
     check (ack_type (pkt_ack p) = kAckEack)
      (let h = pkt_ack p;
           rq = \<lparr>awm_own = ack_request_own h, awm_window = ack_receiver_request_bitmap h\<rparr>;
           dt = \<lparr>awm_own = ack_data_own h, awm_window = ack_received_bitmap h\<rparr>
       in res_bind (ack_selected E True (ack_receiver_request_bitmap h)
             [0..<nat (bm_size (ack_receiver_request_bitmap h))] c) (\<lambda>c1.
          res_bind (ack_selected E False (ack_receiver_data_bitmap h)
             [0..<nat (bm_size (ack_receiver_data_bitmap h))] c1) (\<lambda>c2.
          if \<not> EackBasedEarlyRetransmissionIsEnabled E then Inr (False, c2)
          else res_bind (retx_limit E True rq c2) (\<lambda>l1.
               res_bind (retx_limit E False dt c2) (\<lambda>l2.
               res_bind (window_drop_detected rq l1) (\<lambda>d1.
               res_bind (if d1 then Inr True else window_drop_detected dt l2) (\<lambda>d2.
               res_bind (eack_scan E p True rq l1 (txw_outstanding_packets (cn_tx_request c2)) False c2) (\<lambda>c3.
               res_bind (eack_scan E p False dt l2 (txw_outstanding_packets (cn_tx_data c3)) False c3) (\<lambda>c4.
                 Inr (d2, c4)))))))))) "

definition HandleACK :: "prm_env \<Rightarrow> packet \<Rightarrow> connection \<Rightarrow> (status \<times> connection) res" where
  "HandleACK E p c =
     (let h = pkt_ack p
      in if stale_ack (ack_rrbpsn h) (ack_rdbpsn h) c then Inr (AlreadyExistsError, c)
         else res_bind (advance_tx_window E True (ack_rrbpsn h) (ack_request_own h) c) (\<lambda>c1.
              res_bind (advance_tx_window E False (ack_rdbpsn h) (ack_data_own h) c1) (\<lambda>c2.
              res_bind (if ack_type h = kAckEack then HandleEACK E p c2 else Inr (False, c2)) (\<lambda>(drop_detected, c3).
              res_bind (SetupRetransmitTimer E
                  (calls [RueExplicitAck p (ack_type h = kAckEack) drop_detected] c3)) (\<lambda>c4.
                Inr (OkStatus, c4))))))"

section \<open>Negative acknowledgements and timeouts\<close>

text \<open>
  \<^verbatim>\<open>InitiateNackBasedEarlyRetransmission\<close>: a turn of the loop over the outstanding packets breaks, leaves the
  iterator where it is (the packet is acknowledged already), or retransmits the packet and moves on. A packet of
  the list that is acknowledged already would keep the loop at the same place for ever: it is a partial function,
  and \<open>None\<close> is a loop that does not end.
\<close>

datatype scan_turn = ScanBreak | ScanStay | ScanErase connection

definition nack_turn :: "prm_env \<Rightarrow> packet \<Rightarrow> bool \<Rightarrow> retransmission_work_id \<Rightarrow> connection \<Rightarrow> scan_turn res" where
  "nack_turn E p request w c =
     (let index = window_index (GetAppropriateTxWindow c request) (wid_psn w)
      in if cn_early_retransmit_limit c \<le> word_of_int index then Inr ScanBreak
         else res_bind (fb_Get (txw_window (GetAppropriateTxWindow c request)) index) (\<lambda>acked.
           if acked then Inr ScanStay
           else res_bind (GetPacketMetadataFromWorkId c w) (\<lambda>m.
             let instant_rtt = dur_diff (pkt_received_timestamp p) (nack_timestamp_1 (pkt_nack p))
             in if ev_now E \<le> dur_add (pm_transmission_time m) instant_rtt then Inr ScanBreak
                else if pm_early_retx_attempts m < cf_early_retx_threshold E
                then res_bind (GetTransactionLocation (wid_type w) False) (\<lambda>location.
                     res_bind (InitiateRetransmission (wid_rsn w) (wid_type w)
                       (update_packet (wid_rsn w, location) (wid_type w)
                          (pm_retransmission_reason_update (\<lambda>_. kEarlyNack)) c)) (\<lambda>c1.
                       Inr (ScanErase (on_tx request (\<lambda>x. x\<lparr>txw_outstanding_packets :=
                         wid_erase w (txw_outstanding_packets x)\<rparr>) c1))))
                else Inr ScanBreak)))"

partial_function (option) nack_scan ::
  "prm_env \<Rightarrow> packet \<Rightarrow> bool \<Rightarrow> retransmission_work_id list \<Rightarrow> connection \<Rightarrow> connection res option" where
  "nack_scan E p request ws c =
     (case ws of
        [] \<Rightarrow> Some (Inr c)
      | w # ws' \<Rightarrow>
          (case nack_turn E p request w c of
             Inl e \<Rightarrow> Some (Inl e)
           | Inr ScanBreak \<Rightarrow> Some (Inr c)
           | Inr ScanStay \<Rightarrow> nack_scan E p request ws c
           | Inr (ScanErase c1) \<Rightarrow> nack_scan E p request ws' c1))"

definition InitiateNackBasedEarlyRetransmission :: "prm_env \<Rightarrow> packet \<Rightarrow> connection \<Rightarrow> connection res option" where
  "InitiateNackBasedEarlyRetransmission E p c =
     (let request = nack_request_window (pkt_nack p)
      in nack_scan E p request (txw_outstanding_packets (GetAppropriateTxWindow c request)) c)"

text \<open>\<^verbatim>\<open>HandleRnrNack\<close>: again a plain \<^verbatim>\<open><\<close> decides whether an unknown packet was acknowledged before.\<close>

definition HandleRnrNack :: "prm_env \<Rightarrow> packet \<Rightarrow> connection \<Rightarrow> (status \<times> connection) res" where
  "HandleRnrNack E p c =
     (let h = pkt_nack p; w = GetAppropriateTxWindow c (nack_request_window h)
      in case GetOutstandingPacketRSN w (nack_psn h) of
           Inl e \<Rightarrow> Inr (if nack_psn h < txw_base w then OkStatus else e, c)
         | Inr x \<Rightarrow>
             res_bind (prm_GetPacketMetadata c (opc_rsn x) (opc_packet_type x)) (\<lambda>m.
             res_bind (GetTransactionLocation (opc_packet_type x) False) (\<lambda>location.
             res_bind (SetupRetransmitTimer E (update_packet (opc_rsn x, location) (opc_packet_type x)
                 (\<lambda>m. m\<lparr>pm_nack_code := kUlpReceiverNotReady,
                        pm_ulp_nack_metadata := (pm_ulp_nack_metadata m)\<lparr>ulp_rnr_timeout := nack_rnr_timeout h\<rparr>\<rparr>) c))
               (\<lambda>c1. Inr (OkStatus, c1)))))"

definition HandleNack_code :: "prm_env \<Rightarrow> packet \<Rightarrow> connection \<Rightarrow> connection res option" where
  "HandleNack_code E p c =
     (case nack_code (pkt_nack p) of
        kRxResourceExhaustion \<Rightarrow> Some (Inr c)
      | kUlpReceiverNotReady \<Rightarrow>
          Some (res_bind (HandleRnrNack E p c) (\<lambda>(status, c1). if status = OkStatus then Inr c1 else Inl LogFatal))
      | kReserved \<Rightarrow> if EackBasedEarlyRetransmissionIsEnabled E then Some (Inr c)
                      else InitiateNackBasedEarlyRetransmission E p c
      | _ \<Rightarrow> Some (Inl LogFatal))"

definition HandleNack :: "prm_env \<Rightarrow> packet \<Rightarrow> connection \<Rightarrow> (status \<times> connection) res option" where
  "HandleNack E p c =
     (case HandlePiggybackedACK E p c of
        Inl e \<Rightarrow> Some (Inl e)
      | Inr c1 \<Rightarrow> map_option (\<lambda>r. res_bind r (\<lambda>c2.
          res_bind (SetupRetransmitTimer E (calls [RueNack p] c2)) (\<lambda>c3. Inr (OkStatus, c3))))
          (HandleNack_code E p c1))"

text \<open>
  The loop of \<^verbatim>\<open>HandleRetransmitTimeout\<close> over one window: always from the head of the outstanding
  packets, which every turn removes.
\<close>

definition mark_timeout :: "packet_metadata \<Rightarrow> packet_metadata" where
  "mark_timeout m =
     (if pm_received m then m\<lparr>pm_retransmission_reason := kUlpRto\<rparr>
      else m\<lparr>pm_retransmission_reason := kTimeout, pm_bypass_recency_check := True,
             pm_bypass_scanning_exit_criteria := False\<rparr>)"

fun timeout_scan :: "prm_env \<Rightarrow> bool \<Rightarrow> retransmission_work_id list \<Rightarrow> connection \<Rightarrow> connection res" where
  "timeout_scan E request [] c = Inr c"
| "timeout_scan E request (w # ws) c =
     (let tw = GetAppropriateTxWindow c request;
          erase = on_tx request (\<lambda>x. x\<lparr>txw_outstanding_packets := wid_erase w (txw_outstanding_packets x)\<rparr>)
      in res_bind (fb_Get (txw_window tw) (window_index tw (wid_psn w))) (\<lambda>acked.
           if acked then timeout_scan E request ws (erase c)
           else res_bind (GetPacketMetadataFromWorkId c w) (\<lambda>m.
             if dur_diff (ev_now E) (pm_transmission_time m) < GetTimeoutOfPacket c m then Inr c
             else if cn_max_retransmit_attempts c \<le> pm_timeout_retransmission_attempts m then Inl LogFatal
             else res_bind (GetTransactionLocation (wid_type w) False) (\<lambda>location.
                  res_bind (InitiateRetransmission (wid_rsn w) (wid_type w)
                     (update_packet (wid_rsn w, location) (wid_type w) mark_timeout c)) (\<lambda>c1.
                    timeout_scan E request ws (erase c1))))))"

definition HandleRetransmitTimeout :: "prm_env \<Rightarrow> connection \<Rightarrow> connection res" where
  "HandleRetransmitTimeout E c =
     (if ev_now E \<noteq> cn_rto_expiration_base_time c then Inr c
      else let c1 = c\<lparr>cn_rto_expiration_base_time := ZeroDuration\<rparr>
           in res_bind (timeout_scan E True (txw_outstanding_packets (cn_tx_request c1)) c1) (\<lambda>c2.
              res_bind (timeout_scan E False (txw_outstanding_packets (cn_tx_data c2)) c2) (\<lambda>c3.
                SetupRetransmitTimer E c3)))"

section \<open>Gating criteria\<close>

definition rounded_fcwnd :: "connection \<Rightarrow> u32" where
  "rounded_fcwnd c = (if 1024 < cn_fabric_congestion_window c then fcwnd_floor c else 1)"

definition GetOpenFcwnd :: "packet_type \<Rightarrow> connection \<Rightarrow> u32 res" where
  "GetOpenFcwnd type c =
     (let w = GetAppropriateTxWindow_type c type; psn_bound = txw_base w + rounded_fcwnd c
      in check (rounded_fcwnd c \<le> word_of_int (bm_size (txw_window w)))
           (Inr (if \<not> SeqLT (txw_next w) psn_bound then 0 else psn_bound - txw_next w)))"

definition MeetsInitialTransmissionCCTxGatingCriteria :: "packet_type \<Rightarrow> connection \<Rightarrow> bool res" where
  "MeetsInitialTransmissionCCTxGatingCriteria type c =
     res_bind (GetOpenFcwnd type c) (\<lambda>open_fcwnd.
       Inr (if open_fcwnd = 0 then False
            else if type = kPullRequest \<or> type = kPushRequest \<or> type = kPushUnsolicitedData
            then txw_outstanding_requests_counter (GetAppropriateTxWindow_type c type) < cn_nic_congestion_window c
            else True))"

definition MeetsInitialTransmissionOowTxGatingCriteria :: "prm_env \<Rightarrow> packet_type \<Rightarrow> connection \<Rightarrow> bool" where
  "MeetsInitialTransmissionOowTxGatingCriteria E type c =
     (if cf_enable_pause_initial_transmission_on_oow_drops E
      then \<not> txw_oow_notification_received (GetAppropriateTxWindow_type c type) else True)"

definition MeetsRetransmissionCCTxGatingCriteria :: "u32 \<Rightarrow> packet_type \<Rightarrow> connection \<Rightarrow> bool res" where
  "MeetsRetransmissionCCTxGatingCriteria psn type c =
     (let w = GetAppropriateTxWindow_type c type; psn_bound = txw_base w + rounded_fcwnd c
      in check (rounded_fcwnd c \<le> word_of_int (bm_size (txw_window w)))
           (Inr (if \<not> SeqLT psn psn_bound then False
                 else if type = kPullRequest \<or> type = kPushRequest \<or> type = kPushUnsolicitedData
                 then txw_outstanding_retransmission_requests_counter w < cn_nic_congestion_window c
                 else True)))"

end
