(* ===== verification/Reliability_Rx.thy ===== *)
theory Reliability_Rx
  imports Reliability_Tx
begin

text \<open>
  The receiving half of \<^verbatim>\<open>src/isekai/host/falcon/gen1/packet_reliability_manager.cc\<close>: the sliding
  window decision for an incoming packet, the acknowledgement window and its base, acknowledgements and negative
  acknowledgements of the upper layer, and the entry points over all connections.
\<close>

section \<open>Operations\<close>

text \<open>The number of packets from the base on that are acknowledged: the loop of \<^verbatim>\<open>UpdateReceiveAckBitmap\<close>.\<close>

fun ack_prefix :: "falcon_bitmap \<Rightarrow> nat list \<Rightarrow> nat \<Rightarrow> nat res" where
  "ack_prefix bm [] delta = Inr delta"
| "ack_prefix bm (i # is) delta =
     res_bind (fb_Get bm (int i)) (\<lambda>v. if v then ack_prefix bm is (Suc i) else Inr delta)"

definition rx_index :: "rx_window \<Rightarrow> u32 \<Rightarrow> int" where
  "rx_index w psn = sint ((psn - rxw_base w) mod word_of_int (bm_size (rxw_receive_window w)))"

definition update_ack_window :: "u32 \<Rightarrow> rx_window \<Rightarrow> (nat \<times> rx_window) res" where
  "update_ack_window psn w =
     res_bind (fb_Set (rxw_ack_window w) (rx_index w psn) True) (\<lambda>b.
       if psn = rxw_base w
       then res_bind (ack_prefix b [0..<nat (bm_size b)] 0) (\<lambda>delta.
              Inr (delta, w\<lparr>rxw_ack_window := fb_RightShift b (int delta),
                     rxw_receive_window := fb_RightShift (rxw_receive_window w) (int delta),
                     rxw_base := rxw_base w + of_nat delta\<rparr>))
       else Inr (0, w\<lparr>rxw_ack_window := b\<rparr>))"

definition UpdateReceiveAckBitmap :: "bool \<Rightarrow> u32 \<Rightarrow> connection \<Rightarrow> connection res" where
  "UpdateReceiveAckBitmap request psn c =
     res_bind (update_ack_window psn (if request then cn_rx_request c else cn_rx_data c)) (\<lambda>(delta, w).
       Inr ((on_rx request (\<lambda>_. w) c)
         \<lparr>cn_implicitly_acked_counter := cn_implicitly_acked_counter c + of_nat delta\<rparr>))"

text \<open>\<^verbatim>\<open>HandleDuplicateNackedPacket\<close>: the \<^verbatim>\<open>switch\<close> on the NACK code of the packet, and the lookups before it.\<close>

definition repeat_nack :: "prm_env \<Rightarrow> packet \<Rightarrow> packet_metadata \<Rightarrow> connection \<Rightarrow> connection res" where
  "repeat_nack E p m c =
     (let nack = TransmitNACK E (falcon_psn p) (BelongsToRequestWindow (pkt_type p)) (pm_nack_code m)
            (Some (pm_ulp_nack_metadata m))
      in case pm_nack_code m of
           kUlpReceiverNotReady \<Rightarrow>
             (let c1 = calls [RetryRnrNacked (falcon_rsn p)] c
              in if ev_retry_status E (falcon_rsn p) = FailedPreconditionError then nack c1 else Inr c1)
         | kUlpCompletionInError \<Rightarrow> nack c
         | kUlpNonRecoverableError \<Rightarrow> nack c
         | kInvalidCidError \<Rightarrow> nack c
         | _ \<Rightarrow> Inr c)"

definition HandleDuplicateNackedPacket :: "prm_env \<Rightarrow> packet \<Rightarrow> connection \<Rightarrow> (status \<times> connection) res" where
  "HandleDuplicateNackedPacket E p c =
     (if pkt_type p = kPushSolicitedData \<or> pkt_type p = kPushUnsolicitedData
      then res_bind (GetTransactionLocation (pkt_type p) True) (\<lambda>location.
        case GetTransaction (cn_state c) (falcon_rsn p, location) of
          Inl e \<Rightarrow> Inr (if e = NotFoundError then OkStatus else e, c)
        | Inr t \<Rightarrow> (case GetPacketMetadata t (pkt_type p) of
            Inl e \<Rightarrow> Inr (e, c)
          | Inr m \<Rightarrow> res_bind (repeat_nack E p m c) (\<lambda>c1. Inr (OkStatus, c1))))
      else Inr (OkStatus, c))"

text \<open>
  \<^verbatim>\<open>HandleIncomingPacket\<close>, its three cases by sequence number: below the window, beyond it, within it.
\<close>

definition check_ok :: "(status \<times> connection) res \<Rightarrow> connection res" where
  "check_ok m = res_bind m (\<lambda>(status, c). if status = OkStatus then Inr c else Inl LogFatal)"

definition incoming_beyond :: "prm_env \<Rightarrow> packet \<Rightarrow> connection \<Rightarrow> connection res" where
  "incoming_beyond E p c =
     (let request = BelongsToRequestWindow (pkt_type p)
      in if \<not> EackBasedEarlyRetransmissionIsEnabled E then TransmitNACK E (falcon_psn p) request kReserved None c
         else if cf_enable_eack_own E
         then GenerateAckOrUpdateCoalescingState E (falcon_ack_req p) 2
                (on_rx request (\<lambda>w. w\<lparr>rxw_has_oow_drop := True\<rparr>) c)
         else Inr c)"

definition is_push_data :: "packet_type \<Rightarrow> bool" where
  "is_push_data type \<longleftrightarrow> type = kPushSolicitedData \<or> type = kPushUnsolicitedData"

text \<open>A new packet that has resources: mark it received, acknowledge it unless the upper layer has to.\<close>

definition accept_packet :: "prm_env \<Rightarrow> packet \<Rightarrow> connection \<Rightarrow> connection res" where
  "accept_packet E p c =
     (let request = BelongsToRequestWindow (pkt_type p); index = rx_index (GetAppropriateRxWindow c (pkt_type p)) (falcon_psn p)
      in res_bind (HandleImplicitAck E p c) (\<lambda>c1.
         res_bind (fb_Set (rxw_receive_window (GetAppropriateRxWindow c1 (pkt_type p))) index True) (\<lambda>b.
         let c2 = on_rx request (\<lambda>w. w\<lparr>rxw_receive_window := b\<rparr>) c1
         in res_bind (if \<not> is_push_data (pkt_type p)
              then res_bind (UpdateReceiveAckBitmap request (falcon_psn p) c2)
                     (GenerateAckOrUpdateCoalescingState E (falcon_ack_req p) 2)
              else GenerateAckOrUpdateCoalescingState E False 1 c2) (\<lambda>c3.
            res_bind (if pkt_type p \<noteq> kResync then CreateOrUpdateReceiverPacketContext p kIncoming c3 else Inr c3) (\<lambda>c4.
              HandlePiggybackedACK E p c4)))))"

definition HandleIncomingPacket :: "prm_env \<Rightarrow> packet \<Rightarrow> connection \<Rightarrow> (status \<times> connection) res" where
  "HandleIncomingPacket E p c =
     res_bind (UpdateCongestionControlMetadataToReflect p c) (\<lambda>c1.
       let w = GetAppropriateRxWindow c1 (pkt_type p); psn = falcon_psn p
       in if SeqLT psn (rxw_base w)
          then res_bind (GenerateAckOrUpdateCoalescingState E (falcon_ack_req p) 2 c1) (\<lambda>c2. Inr (AlreadyExistsError, c2))
          else if SeqGEQ psn (rxw_base w + word_of_int (bm_size (rxw_receive_window w)))
          then res_bind (incoming_beyond E p c1) (\<lambda>c2. Inr (OutOfRangeError, c2))
          else res_bind (fb_Get (rxw_receive_window w) (rx_index w psn)) (\<lambda>received.
            if received
            then res_bind (GenerateAckOrUpdateCoalescingState E (falcon_ack_req p) 2 c1) (\<lambda>c2.
                 res_bind (check_ok (HandleDuplicateNackedPacket E p c2)) (\<lambda>c3. Inr (AlreadyExistsError, c3)))
            else let c2 = calls [ReserveIncoming p] c1
                 in if ev_resource_status E p = OkStatus
                    then res_bind (accept_packet E p c2) (\<lambda>c3. Inr (OkStatus, c3))
                    else res_bind (HandlePiggybackedACK E p c2) (\<lambda>c3. Inr (ev_resource_status E p, c3))))"

definition GetReceivedPacketContext :: "connection \<Rightarrow> transaction_key \<Rightarrow> status + received_packet_context" where
  "GetReceivedPacketContext c key =
     (case cs_received_packet_contexts (cn_state c) key of Some x \<Rightarrow> Inr x | None \<Rightarrow> Inl NotFoundError)"

definition HandleNackFromUlp ::
  "prm_env \<Rightarrow> transaction_key \<Rightarrow> ulp_nack_metadata \<Rightarrow> connection \<Rightarrow> (status \<times> connection) res" where
  "HandleNackFromUlp E key ulp c =
     (case GetReceivedPacketContext c key of
        Inl e \<Rightarrow> Inr (e, c)
      | Inr x \<Rightarrow>
         (case GetTransaction (cn_state c) key of
            Inl _ \<Rightarrow> Inl CheckFailed
          | Inr t \<Rightarrow> (case GetPacketMetadata t (rpc_type x) of
              Inl _ \<Rightarrow> Inl CheckFailed
            | Inr _ \<Rightarrow>
               let code = AckSyndromeToNackCode (ulp_nack_code ulp);
                   c1 = update_packet key (rpc_type x) (\<lambda>m. m\<lparr>pm_nack_code := code, pm_ulp_nack_metadata := ulp\<rparr>) c
               in if ulp_nack_code ulp = kRnrNak \<and> rpc_type x = kPullRequest then Inr (OkStatus, c1)
                  else res_bind (TransmitNACK E (rpc_psn x) (BelongsToRequestWindow (rpc_type x)) code (Some ulp) c1)
                    (\<lambda>c2. Inr (OkStatus, c2)))))"

definition prm_HandleAckFromUlp :: "prm_env \<Rightarrow> u32 \<Rightarrow> connection \<Rightarrow> (status \<times> connection) res" where
  "prm_HandleAckFromUlp E rsn c =
     (case GetReceivedPacketContext c (rsn, kTarget) of
        Inl e \<Rightarrow> Inr (e, c)
      | Inr x \<Rightarrow>
          if rpc_type x = kPullRequest then Inr (OkStatus, c)
          else let c1 = c\<lparr>cn_state := (cn_state c)
                   \<lparr>cs_received_packet_contexts := (cs_received_packet_contexts (cn_state c))((rsn, kTarget) := None),
                    cs_transactions := (cs_transactions (cn_state c))((rsn, kTarget) := None)\<rparr>\<rparr>
               in res_bind (UpdateReceiveAckBitmap (BelongsToRequestWindow (rpc_type x)) (rpc_psn x) c1) (\<lambda>c2.
                  res_bind (GenerateAckOrUpdateCoalescingState E (rpc_is_ack_requested x) 1 c2) (\<lambda>c3.
                    Inr (OkStatus, c3))))"

section \<open>Entry points over all connections\<close>

text \<open>
  \<^verbatim>\<open>PerformDirectLookup\<close> finds the connection; a handler is applied to it and the result stored.
\<close>

type_synonym connections = "u32 \<rightharpoonup> connection"

definition with_connection ::
  "u32 \<Rightarrow> (connection \<Rightarrow> (status \<times> connection) res option) \<Rightarrow> connections \<Rightarrow> (status \<times> connections) res option" where
  "with_connection scid f m =
     (case m scid of
        None \<Rightarrow> Some (Inr (NotFoundError, m))
      | Some c \<Rightarrow> map_option (\<lambda>r. res_bind r (\<lambda>(status, c'). Inr (status, m(scid \<mapsto> c')))) (f c))"

definition ReceivePacket :: "prm_env \<Rightarrow> packet \<Rightarrow> connections \<Rightarrow> (status \<times> connections) res option" where
  "ReceivePacket E p m =
     (case pkt_type p of
        kAck \<Rightarrow> with_connection (ack_dest_cid (pkt_ack p)) (\<lambda>c. Some (HandleACK E p c)) m
      | kNack \<Rightarrow> with_connection (nack_dest_cid (pkt_nack p)) (HandleNack E p) m
      | kResync \<Rightarrow> Some (Inl LogFatal)
      | kBack \<Rightarrow> Some (Inl LogFatal)
      | kEack \<Rightarrow> Some (Inl LogFatal)
      | kInvalid \<Rightarrow> Some (Inl LogFatal)
      | _ \<Rightarrow> with_connection (falcon_dest_cid p) (\<lambda>c. Some (HandleIncomingPacket E p c)) m)"

end
