(* ===== verification/Reliability_Windows.thy ===== *)
theory Reliability_Windows
  imports Reliability_Rx
begin

text \<open>
  The transmit windows of \<^verbatim>\<open>packet_reliability_manager.cc\<close> as a refinement: a window whose 32-bit sequence numbers,
  bitmap and map of outstanding packets change under acknowledgements is a base \<open>B\<close>, a number \<open>N\<close> of packets sent
  and a set \<open>D\<close> of packets acknowledged, counted from the first packet on without wrap-around (\<open>tx_abs\<close>). First the
  frame of every operation, what it leaves alone; then what a single acknowledgement does, the loops over
  windows, and the whole handler of an ACK.
\<close>

section \<open>Frames\<close>

lemma case_sum_eq_Inr:
  "(case m of Inl e \<Rightarrow> f e | Inr x \<Rightarrow> g x) = Inr y \<longleftrightarrow>
     (\<exists>e. m = Inl e \<and> f e = Inr y) \<or> (\<exists>x. m = Inr x \<and> g x = Inr y)"
  by (cases m) auto

lemma if_eq_Inr: "(if b then x else y) = Inr z \<longleftrightarrow> (b \<and> x = Inr z) \<or> (\<not> b \<and> y = Inr z)"
  by simp

lemmas res_elims = res_bind_eq_Inr check_eq_Inr case_sum_eq_Inr if_eq_Inr Let_def sum.inject prod.inject sum.distinct

definition rx_view :: "connection \<Rightarrow> bool \<Rightarrow> u32 \<times> falcon_bitmap \<times> falcon_bitmap" where
  "rx_view c request =
     (let w = (if request then cn_rx_request c else cn_rx_data c)
      in (rxw_base w, rxw_receive_window w, rxw_ack_window w))"

definition tx_side where
  "tx_side c = (cn_tx_request c, cn_tx_data c, cn_state c, cn_retx_request c, cn_retx_data c,
     cn_rto_expiration_base_time c, cn_num_acked c)"

definition acks_only :: "connection \<Rightarrow> connection \<Rightarrow> bool" where
  "acks_only c c' \<longleftrightarrow> tx_side c' = tx_side c \<and> rx_view c' = rx_view c"

lemma acks_only_refl [simp]: "acks_only c c"
  by (simp add: acks_only_def)

lemma acks_only_trans: "acks_only c c1 \<Longrightarrow> acks_only c1 c2 \<Longrightarrow> acks_only c c2"
  by (simp add: acks_only_def)

lemma tx_side_updates [simp]:
  "tx_side (put_entry e c) = tx_side c" "tx_side (c\<lparr>cn_calls := cs\<rparr>) = tx_side c"
  "tx_side (on_rx r f c) = tx_side c" "tx_side (c\<lparr>cn_implicitly_acked_counter := n\<rparr>) = tx_side c"
  by (simp_all add: tx_side_def put_entry_def on_rx_def)

lemma rx_view_updates [simp]:
  "rx_view (put_entry e c) = rx_view c" "rx_view (c\<lparr>cn_calls := cs\<rparr>) = rx_view c"
  "rx_view (on_rx r (rxw_has_oow_drop_update f) c) = rx_view c"
  "rx_view (c\<lparr>cn_implicitly_acked_counter := n\<rparr>) = rx_view c"
  by (simp_all add: fun_eq_iff rx_view_def put_entry_def on_rx_def Let_def)

lemma acks_only_clear [simp]: "acks_only c (clear_oow_drops c)"
  by (simp add: acks_only_def clear_oow_drops_def)

lemma TransmitACK_frame:
  assumes "TransmitACK E c = Inr c'"
  shows "acks_only c c'"
proof -
  from assms obtain e p c2 where c2: "CreateExplicitAckOrEack E e ((put_entry e c)\<lparr>cn_implicitly_acked_counter := 0\<rparr>) = (p, c2)"
    and c': "c' = calls [EnqueueAckNack p] c2"
    by (auto simp: TransmitACK_def Let_def res_bind_eq_Inr case_prod_unfold) (metis prod.collapse)
  then have "acks_only ((put_entry e c)\<lparr>cn_implicitly_acked_counter := 0\<rparr>) c2"
    by (auto simp: CreateExplicitAckOrEack_def Let_def split: if_splits)
  then show ?thesis by (simp add: acks_only_def c')
qed

lemma SetupAckCoalescingTimer_frame: "SetupAckCoalescingTimer E c = Inr c' \<Longrightarrow> acks_only c c'"
  by (auto simp: SetupAckCoalescingTimer_def res_bind_eq_Inr acks_only_def)

lemma Generate_frame:
  assumes "GenerateAckOrUpdateCoalescingState E i n c = Inr c'"
  shows "acks_only c c'"
proof -
  from assms obtain e where "acks_only (put_entry e c) c'"
    unfolding GenerateAckOrUpdateCoalescingState_def Let_def res_bind_eq_Inr
    by (metis TransmitACK_frame SetupAckCoalescingTimer_frame acks_only_refl sum.inject(2))
  then show ?thesis by (simp add: acks_only_def)
qed

lemma PiggybackAck_frame: "PiggybackAck p c = Inr (p', c') \<Longrightarrow> acks_only c c'"
  by (auto simp: PiggybackAck_def Let_def res_bind_eq_Inr acks_only_def split: if_splits)

lemma Update_frame: "UpdateCongestionControlMetadataToReflect p c = Inr c' \<Longrightarrow> acks_only c c'"
  by (auto simp: UpdateCongestionControlMetadataToReflect_def res_bind_eq_Inr acks_only_def)

lemma TransmitNACK_frame:
  assumes "TransmitNACK E psn r code ulp c = Inr c'"
  shows "acks_only c c'"
proof -
  from assms obtain p p1 c1 q where "PiggybackAck p c = Inr (p1, c1)" "c' = calls [q] (clear_oow_drops c1)"
    by (auto simp: TransmitNACK_def Let_def res_simps)
  then show ?thesis
    using PiggybackAck_frame [of p c p1 c1] acks_only_clear [of c1] by (simp add: acks_only_def)
qed

text \<open>The transmitting half leaves the receive windows alone.\<close>

definition rx_same :: "connection \<Rightarrow> connection \<Rightarrow> bool" where
  "rx_same c c' \<longleftrightarrow> cn_rx_request c' = cn_rx_request c \<and> cn_rx_data c' = cn_rx_data c"

lemma rx_same_refl [simp]: "rx_same c c"
  by (simp add: rx_same_def)

lemma rx_same_trans [trans]: "rx_same c c1 \<Longrightarrow> rx_same c1 c2 \<Longrightarrow> rx_same c c2"
  by (simp add: rx_same_def)

lemma rx_same_updates [simp]:
  "rx_same c (on_tx r f c)" "rx_same c (calls cs c)" "rx_same c (update_packet key type g c)"
  "rx_same c (on_retx r h c)" "rx_same c (c\<lparr>cn_state := s\<rparr>)" "rx_same c (c\<lparr>cn_rto_expiration_base_time := t\<rparr>)"
  "rx_same c (AccumulateNumAcked c)" "rx_same c (DecrementOutstandingRequestCount type c)"
  "rx_same c (DecrementOutstandingRetransmittedRequestCount type b c)"
  "rx_same c (forget_pull rsn type location c)"
  by (simp_all add: rx_same_def on_tx_def update_packet_def on_retx_def AccumulateNumAcked_def forget_pull_def
      DecrementOutstandingRequestCount_def DecrementOutstandingRetransmittedRequestCount_def split: option.splits)

lemma on_tx_fields [simp]:
  "cn_rx_request (on_tx r f c) = cn_rx_request c"
  "cn_rx_data (on_tx r f c) = cn_rx_data c"
  "cn_calls (on_tx r f c) = cn_calls c"
  "cn_num_acked (on_tx r f c) = cn_num_acked c"
  "cn_rto_expiration_base_time (on_tx r f c) = cn_rto_expiration_base_time c"
  "cn_ack_coalescing_entry (on_tx r f c) = cn_ack_coalescing_entry c"
  "cn_state (on_tx r f c) = cn_state c"
  "cn_retx_request (on_tx r f c) = cn_retx_request c"
  "cn_retx_data (on_tx r f c) = cn_retx_data c"
  by (simp_all add: on_tx_def)

lemma forget_pull_fields [simp]:
  "cn_rx_request (forget_pull rsn type location c) = cn_rx_request c"
  "cn_rx_data (forget_pull rsn type location c) = cn_rx_data c"
  "cn_calls (forget_pull rsn type location c) = cn_calls c"
  "cn_num_acked (forget_pull rsn type location c) = cn_num_acked c"
  "cn_rto_expiration_base_time (forget_pull rsn type location c) = cn_rto_expiration_base_time c"
  "cn_ack_coalescing_entry (forget_pull rsn type location c) = cn_ack_coalescing_entry c"
  by (simp_all add: forget_pull_def)

lemma AccumulateNumAcked_fields [simp]:
  "cn_rx_request (AccumulateNumAcked c) = cn_rx_request c"
  "cn_rx_data (AccumulateNumAcked c) = cn_rx_data c"
  "cn_calls (AccumulateNumAcked c) = cn_calls c"
  "cn_rto_expiration_base_time (AccumulateNumAcked c) = cn_rto_expiration_base_time c"
  "cn_ack_coalescing_entry (AccumulateNumAcked c) = cn_ack_coalescing_entry c"
  by (simp_all add: AccumulateNumAcked_def)

lemma update_packet_fields [simp]:
  "cn_rx_request (update_packet key type g c) = cn_rx_request c"
  "cn_rx_data (update_packet key type g c) = cn_rx_data c"
  "cn_calls (update_packet key type g c) = cn_calls c"
  "cn_num_acked (update_packet key type g c) = cn_num_acked c"
  "cn_rto_expiration_base_time (update_packet key type g c) = cn_rto_expiration_base_time c"
  "cn_ack_coalescing_entry (update_packet key type g c) = cn_ack_coalescing_entry c"
  by (simp_all add: update_packet_def split: option.splits)

lemma on_retx_fields [simp]:
  "cn_rx_request (on_retx r h c) = cn_rx_request c"
  "cn_rx_data (on_retx r h c) = cn_rx_data c"
  "cn_calls (on_retx r h c) = cn_calls c"
  "cn_num_acked (on_retx r h c) = cn_num_acked c"
  "cn_rto_expiration_base_time (on_retx r h c) = cn_rto_expiration_base_time c"
  "cn_ack_coalescing_entry (on_retx r h c) = cn_ack_coalescing_entry c"
  "cn_state (on_retx r h c) = cn_state c"
  by (simp_all add: on_retx_def)

lemma num_acked_Accumulate [simp]: "cn_num_acked (AccumulateNumAcked c) = cn_num_acked c + 1"
  by (simp add: AccumulateNumAcked_def)

lemma SetupRetransmitTimer_rx: "SetupRetransmitTimer E c = Inr c' \<Longrightarrow> rx_same c c'"
  by (auto simp: SetupRetransmitTimer_def Let_def res_simps rx_same_def split: if_splits)

section \<open>What an acknowledgement does\<close>

text \<open>The part of a transmit window that decides what is acknowledged.\<close>

definition tx_core :: "tx_window \<Rightarrow> u32 \<times> u32 \<times> falcon_bitmap \<times> (u32 \<rightharpoonup> outstanding_packet_context)" where
  "tx_core w = (txw_base w, txw_next w, txw_window w, txw_outstanding_packet_contexts w)"

abbreviation tw :: "connection \<Rightarrow> bool \<Rightarrow> tx_window" where
  "tw \<equiv> GetAppropriateTxWindow"

abbreviation core :: "connection \<Rightarrow> bool \<Rightarrow> u32 \<times> u32 \<times> falcon_bitmap \<times> (u32 \<rightharpoonup> outstanding_packet_context)" where
  "core c r \<equiv> tx_core (GetAppropriateTxWindow c r)"

text \<open>Nothing that matters for acknowledgements changes: windows, receive side, calls, counters of acknowledgements.\<close>

definition quiet_step :: "connection \<Rightarrow> connection \<Rightarrow> bool" where
  "quiet_step c c' \<longleftrightarrow> (\<forall>r. core c' r = core c r) \<and> rx_same c c' \<and> cn_calls c' = cn_calls c \<and>
     cn_num_acked c' = cn_num_acked c \<and> cn_rto_expiration_base_time c' = cn_rto_expiration_base_time c \<and>
     cn_ack_coalescing_entry c' = cn_ack_coalescing_entry c"

lemma quiet_refl [simp]: "quiet_step c c"
  by (simp add: quiet_step_def)

lemma quiet_trans: "quiet_step c c1 \<Longrightarrow> quiet_step c1 c2 \<Longrightarrow> quiet_step c c2"
  by (auto simp: quiet_step_def intro: rx_same_trans)

lemma quiet_on_tx:
  "(\<And>w. tx_core (f w) = tx_core w) \<Longrightarrow> quiet_step c (on_tx r f c)"
  by (simp add: quiet_step_def)

lemma tw_updates [simp]:
  "tw (c\<lparr>cn_state := s\<rparr>) = tw c" "tw (c\<lparr>cn_calls := cs\<rparr>) = tw c" "tw (on_retx r h c) = tw c"
  "tw (update_packet key type g c) = tw c" "tw (AccumulateNumAcked c) = tw c"
  "tw (forget_pull rsn type location c) = tw c" "tw (c\<lparr>cn_rto_expiration_base_time := t\<rparr>) = tw c"
  by (simp_all add: fun_eq_iff GetAppropriateTxWindow_def on_retx_def update_packet_def AccumulateNumAcked_def
      forget_pull_def split: option.splits)

lemma quiet_updates [simp]:
  "quiet_step c (c\<lparr>cn_state := s\<rparr>)" "quiet_step c (on_retx r h c)" "quiet_step c (update_packet key type g c)"
  "quiet_step c (forget_pull rsn type location c)"
  "quiet_step c (DecrementOutstandingRequestCount type c)"
  "quiet_step c (DecrementOutstandingRetransmittedRequestCount type b c)"
  "quiet_step c (on_tx r (\<lambda>x. x\<lparr>txw_outstanding_packets := ws x\<rparr>) c)"
  by (simp_all add: DecrementOutstandingRequestCount_def DecrementOutstandingRetransmittedRequestCount_def
      quiet_on_tx tx_core_def) (simp_all add: quiet_step_def)

lemma ack_request_retransmitted_quiet: "ack_request_retransmitted type t c = Inr c' \<Longrightarrow> quiet_step c c'"
  by (auto simp: ack_request_retransmitted_def split: if_splits sum.split_asm)

lemma retx_DequeuePacket_quiet: "retx_DequeuePacket rsn type c = Inr (st, c') \<Longrightarrow> quiet_step c c'"
  by (auto simp: retx_DequeuePacket_def res_simps case_sum_eq_Inr)

lemma ack_outstanding_quiet: "ack_outstanding r psn rsn type t c = Inr c' \<Longrightarrow> quiet_step c c'"
  by (auto simp: ack_outstanding_def Let_def res_simps dest!: retx_DequeuePacket_quiet
      intro: quiet_trans [OF quiet_updates(7) quiet_updates(6)] split: if_splits sum.split_asm)

text \<open>
  The report of an acknowledged packet: to the reorder engine for push data, to the resource manager for the
  others.
\<close>

definition ack_report :: "outstanding_packet_context \<Rightarrow> call" where
  "ack_report x =
     (if is_push_data (opc_packet_type x) then InsertAck (opc_rsn x)
      else ReleaseResourcesOf (opc_rsn x,
        if opc_packet_type x \<in> {kPullData, kPushGrant} then kTarget else kInitiator) (opc_packet_type x))"

definition reports :: "call list \<Rightarrow> call list" where
  "reports cs = filter (\<lambda>x. case x of InsertAck _ \<Rightarrow> True | ReleaseResourcesOf _ _ \<Rightarrow> True | _ \<Rightarrow> False) cs"

lemma reports_append [simp]: "reports (xs @ ys) = reports xs @ reports ys"
  by (simp add: reports_def)

lemma reports_ack_report [simp]:
  "reports (ack_report x # cs) = ack_report x # reports cs" "reports (LatencySamples ss # cs) = reports cs"
  "reports [] = []"
  by (simp_all add: reports_def ack_report_def)

lemma report_ack_eq:
  assumes "report_ack E (opc_rsn x) (opc_packet_type x) location c = Inr c'"
    and "GetTransactionLocation (opc_packet_type x) False = Inr location"
  shows "c' = calls [ack_report x] c"
  using assms
  by (cases "opc_packet_type x") (auto simp: report_ack_def ack_report_def is_push_data_def split: if_splits)

lemma EnqueueAckToUlp_steps:
  assumes "EnqueueAckToUlp E r psn c = Inr c'"
  obtains x location t samples c0 c1 c2 c3 where "txw_outstanding_packet_contexts (tw c r) psn = Some x"
    "GetTransactionLocation (opc_packet_type x) False = Inr location"
    "c0 = calls [LatencySamples samples] (c\<lparr>cn_state := put_transaction (opc_rsn x, location) t (cn_state c)\<rparr>)"
    "ack_request_retransmitted (opc_packet_type x) t (DecrementOutstandingRequestCount (opc_packet_type x) c0) = Inr c1"
    "ack_outstanding r psn (opc_rsn x) (opc_packet_type x) t c1 = Inr c2"
    "report_ack E (opc_rsn x) (opc_packet_type x) location (on_tx r (\<lambda>w. w\<lparr>txw_outstanding_packet_contexts :=
        (txw_outstanding_packet_contexts w)(psn := None)\<rparr>) (AccumulateNumAcked c2)) = Inr c3"
    "c' = forget_pull (opc_rsn x) (opc_packet_type x) location c3"
  using assms by (auto simp: EnqueueAckToUlp_def GetOutstandingPacketRSN_def Let_def res_simps case_sum_eq_Inr
      split: option.splits)

lemma EnqueueAckToUlp_effect:
  assumes "EnqueueAckToUlp E r psn c = Inr c'"
  shows "\<exists>x. txw_outstanding_packet_contexts (tw c r) psn = Some x \<and> rx_same c c' \<and>
    core c' r = tx_core ((tw c r)\<lparr>txw_outstanding_packet_contexts :=
      (txw_outstanding_packet_contexts (tw c r))(psn := None)\<rparr>) \<and>
    core c' (\<not> r) = core c (\<not> r) \<and> cn_num_acked c' = cn_num_acked c + 1 \<and>
    reports (cn_calls c') = reports (cn_calls c) @ [ack_report x] \<and>
    cn_rto_expiration_base_time c' = cn_rto_expiration_base_time c \<and>
    cn_ack_coalescing_entry c' = cn_ack_coalescing_entry c"
proof -
  obtain x location t samples c0 c1 c2 c3 where x: "txw_outstanding_packet_contexts (tw c r) psn = Some x"
    and loc: "GetTransactionLocation (opc_packet_type x) False = Inr location"
    and c0: "c0 = calls [LatencySamples samples] (c\<lparr>cn_state := put_transaction (opc_rsn x, location) t (cn_state c)\<rparr>)"
    and c1: "ack_request_retransmitted (opc_packet_type x) t (DecrementOutstandingRequestCount (opc_packet_type x) c0) = Inr c1"
    and c2: "ack_outstanding r psn (opc_rsn x) (opc_packet_type x) t c1 = Inr c2"
    and c3: "report_ack E (opc_rsn x) (opc_packet_type x) location (on_tx r (\<lambda>w. w\<lparr>txw_outstanding_packet_contexts :=
        (txw_outstanding_packet_contexts w)(psn := None)\<rparr>) (AccumulateNumAcked c2)) = Inr c3"
    and c': "c' = forget_pull (opc_rsn x) (opc_packet_type x) location c3"
    by (rule EnqueueAckToUlp_steps [OF assms])
  have q: "quiet_step c0 c2"
    using ack_request_retransmitted_quiet [OF c1] ack_outstanding_quiet [OF c2]
    by (meson quiet_trans quiet_updates(5))
  have "core c2 r' = core c r'" for r' using q by (simp add: quiet_step_def c0)
  moreover have "rx_same c c2" using q by (auto simp: quiet_step_def c0 rx_same_def)
  moreover have "cn_calls c2 = cn_calls c @ [LatencySamples samples]" "cn_num_acked c2 = cn_num_acked c"
    "cn_rto_expiration_base_time c2 = cn_rto_expiration_base_time c"
    "cn_ack_coalescing_entry c2 = cn_ack_coalescing_entry c"
    using q by (simp_all add: quiet_step_def c0)
  moreover note c' [unfolded report_ack_eq [OF c3 loc]]
  ultimately show ?thesis using x
    by (simp add: tx_core_def rx_same_def)
qed

section \<open>Bitmaps as sets of indices\<close>

definition fbits :: "falcon_bitmap \<Rightarrow> nat set" where
  "fbits b = {i. i < length (bm_bits b) \<and> bm_bits b ! i}"

lemma fb_Get_fbits: "fb_Get b (int i) = Inr v \<Longrightarrow> int i < bm_size b \<and> (v \<longleftrightarrow> i \<in> fbits b)"
  by (auto simp: fb_Get_def fbits_def res_simps split: if_splits)

lemma fb_Get_total: "fb_ok b \<Longrightarrow> int i < bm_size b \<Longrightarrow> fb_Get b (int i) = Inr (i \<in> fbits b)"
  by (auto simp: fb_Get_def fbits_def fb_ok_def check_def)

lemma fb_Set_fbits:
  assumes "fb_Set b (int i) True = Inr b'"
  shows "fbits b' = insert i (fbits b)" and "bm_size b' = bm_size b" and "int i < bm_size b"
    and "fb_ok b \<Longrightarrow> fb_ok b'"
  using assms fb_Set_ok(1) [of b "int i" True b']
  by (auto simp: fb_Set_def fb_store_def fbits_def res_simps nth_list_update split: if_splits)

lemma fb_RightShift_fbits:
  assumes "int k < 2 ^ 64"
  shows "fbits (fb_RightShift b (int k)) = {i. i + k \<in> fbits b}"
proof -
  have "nat (int k mod 2 ^ 64) = k" using assms by simp
  then have "i < length (bm_bits b) \<Longrightarrow> bm_bits (fb_RightShift b (int k)) ! i \<longleftrightarrow>
      i + k < length (bm_bits b) \<and> bm_bits b ! (i + k)" for i
    by (simp add: fb_RightShift_def Let_def nth_shifted)
  then show ?thesis by (auto simp: fbits_def)
qed

lemma bm_size_RightShift [simp]: "bm_size (fb_RightShift b k) = bm_size b"
  by (simp add: fb_RightShift_def Let_def)

lemma fbits_bound:
  assumes "fb_ok b" and "i \<in> fbits b"
  shows "int i < bm_size b"
proof (rule ccontr)
  assume "\<not> int i < bm_size b"
  then have le: "nat (bm_size b) \<le> i" by simp
  with assms(2) have "drop (nat (bm_size b)) (bm_bits b) ! (i - nat (bm_size b))"
    and "i - nat (bm_size b) < length (drop (nat (bm_size b)) (bm_bits b))" by (simp_all add: fbits_def diff_less_mono)
  with assms(1) show False by (simp add: fb_ok_def list_all_length)
qed

section \<open>Acknowledging several packets\<close>

definition acked_many :: "bool \<Rightarrow> u32 list \<Rightarrow> connection \<Rightarrow> connection \<Rightarrow> bool" where
  "acked_many r psns c c' \<longleftrightarrow>
     distinct psns \<and> set psns \<subseteq> dom (txw_outstanding_packet_contexts (tw c r)) \<and>
     txw_outstanding_packet_contexts (tw c' r) = txw_outstanding_packet_contexts (tw c r) |` (- set psns) \<and>
     core c' (\<not> r) = core c (\<not> r) \<and> rx_same c c' \<and>
     cn_num_acked c' = cn_num_acked c + of_nat (length psns) \<and>
     reports (cn_calls c') = reports (cn_calls c) @
       map (\<lambda>psn. ack_report (the (txw_outstanding_packet_contexts (tw c r) psn))) psns \<and>
     cn_rto_expiration_base_time c' = cn_rto_expiration_base_time c \<and>
     cn_ack_coalescing_entry c' = cn_ack_coalescing_entry c"

definition same_position :: "bool \<Rightarrow> connection \<Rightarrow> connection \<Rightarrow> bool" where
  "same_position r c c' \<longleftrightarrow> txw_base (tw c' r) = txw_base (tw c r) \<and> txw_next (tw c' r) = txw_next (tw c r)"

lemma acked_many_Nil [simp]: "acked_many r [] c c"
  by (simp add: acked_many_def restrict_map_def)

lemma acked_many_trans:
  assumes "acked_many r ps c c1" and "acked_many r qs c1 c2"
  shows "acked_many r (ps @ qs) c c2"
proof -
  have d: "set qs \<subseteq> dom (txw_outstanding_packet_contexts (tw c r)) - set ps"
    using assms by (auto simp: acked_many_def)
  then have "map (\<lambda>psn. ack_report (the (txw_outstanding_packet_contexts (tw c1 r) psn))) qs =
      map (\<lambda>psn. ack_report (the (txw_outstanding_packet_contexts (tw c r) psn))) qs"
    using assms(1) by (auto simp: acked_many_def restrict_map_def)
  moreover have "txw_outstanding_packet_contexts (tw c2 r) =
      txw_outstanding_packet_contexts (tw c r) |` (- set (ps @ qs))"
    using assms by (auto simp: acked_many_def restrict_restrict)
  ultimately show ?thesis using assms d
    by (auto simp: acked_many_def rx_same_def add.assoc)
qed

lemma EnqueueAckToUlp_many:
  assumes "EnqueueAckToUlp E r psn c = Inr c'"
  shows "acked_many r [psn] c c'" and "txw_window (tw c' r) = txw_window (tw c r)" and "same_position r c c'"
  using EnqueueAckToUlp_effect [OF assms]
  by (auto simp: acked_many_def same_position_def tx_core_def restrict_map_def fun_eq_iff)

lemma ack_below_base_many:
  assumes "ack_below_base E r is c = Inr c'"
  shows "acked_many r (map (\<lambda>i. of_nat i + txw_base (tw c r)) (filter (\<lambda>i. i \<notin> fbits (txw_window (tw c r))) is)) c c' \<and>
    txw_window (tw c' r) = txw_window (tw c r) \<and> same_position r c c'"
  using assms
proof (induction "is" arbitrary: c)
  case (Cons i "is")
  from Cons.prems obtain acked where acked: "fb_Get (txw_window (tw c r)) (int i) = Inr acked"
    by (auto simp: res_bind_eq_Inr)
  show ?case
  proof (cases acked)
    case True
    with acked Cons show ?thesis by (auto dest: fb_Get_fbits)
  next
    case False
    with acked Cons.prems obtain c1 where c1: "EnqueueAckToUlp E r (of_nat i + txw_base (tw c r)) c = Inr c1"
      "ack_below_base E r is c1 = Inr c'" by (auto simp: res_bind_eq_Inr)
    have same: "txw_base (tw c1 r) = txw_base (tw c r)" "txw_window (tw c1 r) = txw_window (tw c r)"
      using EnqueueAckToUlp_many [OF c1(1)] by (simp_all add: same_position_def)
    from acked_many_trans [OF EnqueueAckToUlp_many(1) [OF c1(1)]] EnqueueAckToUlp_many(3) [OF c1(1)]
      Cons.IH [OF c1(2)] same False acked
    show ?thesis by (auto simp: same_position_def dest: fb_Get_fbits)
  qed
qed (simp add: same_position_def)

lemma ack_selected_many:
  assumes "ack_selected E r bm is c = Inr c'" and "distinct is"
  shows "\<exists>js. js = filter (\<lambda>i. i \<notin> fbits (txw_window (tw c r)) \<and> i \<in> fbits bm) is \<and>
    acked_many r (map (\<lambda>i. txw_base (tw c r) + of_nat i) js) c c' \<and> same_position r c c' \<and>
    fbits (txw_window (tw c' r)) = fbits (txw_window (tw c r)) \<union> set js \<and>
    bm_size (txw_window (tw c' r)) = bm_size (txw_window (tw c r)) \<and>
    (fb_ok (txw_window (tw c r)) \<longrightarrow> fb_ok (txw_window (tw c' r)))"
  using assms
proof (induction "is" arbitrary: c)
  case (Cons i "is")
  from Cons.prems(1) obtain acked where acked: "fb_Get (txw_window (tw c r)) (int i) = Inr acked"
    by (auto simp: res_bind_eq_Inr)
  show ?case
  proof (cases "acked \<or> fb_Get bm (int i) = Inr False")
    case True
    with acked Cons.prems have "ack_selected E r bm is c = Inr c'" by (auto split: if_splits)
    with Cons.IH [OF this] Cons.prems(2) True acked show ?thesis by (auto dest: fb_Get_fbits)
  next
    case False
    with acked Cons.prems(1) obtain c1 b where bm: "fb_Get bm (int i) = Inr True"
      and c1: "EnqueueAckToUlp E r (txw_base (tw c r) + of_nat i) c = Inr c1"
      and b: "fb_Set (txw_window (tw c1 r)) (int i) True = Inr b"
      and rest: "ack_selected E r bm is (on_tx r (\<lambda>x. x\<lparr>txw_window := b\<rparr>) c1) = Inr c'"
      by (auto simp: res_bind_eq_Inr split: if_splits)
    let ?c = "on_tx r (\<lambda>x. x\<lparr>txw_window := b\<rparr>) c1"
    have w1: "txw_window (tw c1 r) = txw_window (tw c r)" by (rule EnqueueAckToUlp_many(2) [OF c1])
    have m1: "acked_many r [txw_base (tw c r) + of_nat i] c ?c"
      using EnqueueAckToUlp_many(1) [OF c1] by (simp add: acked_many_def rx_same_def)
    have pos: "same_position r c ?c" using EnqueueAckToUlp_many(3) [OF c1] by (simp add: same_position_def)
    then have base: "txw_base (tw ?c r) = txw_base (tw c r)" by (simp add: same_position_def)
    have i: "i \<notin> fbits (txw_window (tw c r))" "i \<in> fbits bm" "i \<notin> set is" "distinct is"
      using False acked bm Cons.prems(2) by (auto dest: fb_Get_fbits)
    have fb: "fbits (txw_window (tw ?c r)) = insert i (fbits (txw_window (tw c r)))"
      "bm_size (txw_window (tw ?c r)) = bm_size (txw_window (tw c r))"
      "fb_ok (txw_window (tw c r)) \<Longrightarrow> fb_ok (txw_window (tw ?c r))"
      using fb_Set_fbits [OF b] w1 by simp_all
    have "filter (\<lambda>j. j \<notin> fbits (txw_window (tw ?c r)) \<and> j \<in> fbits bm) is =
        filter (\<lambda>j. j \<notin> fbits (txw_window (tw c r)) \<and> j \<in> fbits bm) is"
      using i(3) fb(1) by (auto intro!: filter_cong)
    with Cons.IH [OF rest i(4)] pos base fb i acked_many_trans [OF m1] show ?thesis
      by (auto simp: same_position_def)
  qed
qed (simp add: same_position_def)

section \<open>The transmit window as a set of counters\<close>

text \<open>
  \<open>tx_abs s B N D w\<close>: counted from the sequence number \<open>s\<close>, the window \<open>w\<close> has its base at packet \<open>B\<close>, \<open>N\<close> packets have
  been sent, and \<open>D\<close> is the set of acknowledged ones. The packets with a context are those sent and not acknowledged.
\<close>

abbreviation seq :: "u32 \<Rightarrow> nat \<Rightarrow> u32" where
  "seq s n \<equiv> s + of_nat n"

definition tx_abs :: "u32 \<Rightarrow> nat \<Rightarrow> nat \<Rightarrow> nat set \<Rightarrow> tx_window \<Rightarrow> bool" where
  "tx_abs s B N D w \<longleftrightarrow>
     txw_base w = seq s B \<and> txw_next w = seq s N \<and> B \<le> N \<and> N \<le> B + nat (bm_size (txw_window w)) \<and>
     0 < bm_size (txw_window w) \<and> bm_size (txw_window w) \<le> 2 ^ 16 \<and> fb_ok (txw_window w) \<and>
     fbits (txw_window w) = {i. B + i \<in> D} \<and> {..<B} \<subseteq> D \<and> D \<subseteq> {..<N} \<and>
     dom (txw_outstanding_packet_contexts w) = seq s ` ({..<N} - D)"

lemma seq_inject:
  assumes "seq s m = seq s n" and "m < n + 2 ^ 32" and "n < m + 2 ^ 32"
  shows "m = n"
proof -
  have eq: "unat (of_nat m :: u32) = unat (of_nat n :: u32)" using assms(1) by simp
  then have "m mod 2 ^ 32 = n mod 2 ^ 32" by (simp add: unat_of_nat)
  then show ?thesis using assms(2,3)
    by (metis add.commute le_add_diff_inverse linorder_le_cases mod_add_self2 mod_eq_dvd_iff_nat
        nat_dvd_not_less less_diff_conv2 zero_less_iff_neq_zero diff_is_0_eq)
qed

lemma tx_abs_small: "tx_abs s B N D w \<Longrightarrow> N \<le> B + 2 ^ 16"
  by (auto simp: tx_abs_def nat_le_iff)

lemma tx_abs_unacked:
  assumes "tx_abs s B N D w" and "seq s n \<in> dom (txw_outstanding_packet_contexts w)"
    and "B \<le> n" and "n \<le> B + 2 ^ 16"
  shows "n \<in> {B..<N} - D"
proof -
  from assms(1,2) obtain m where m: "seq s m = seq s n" "m < N" "m \<notin> D" by (auto simp: tx_abs_def)
  then have "B \<le> m" using assms(1) by (auto simp: tx_abs_def not_le intro: ccontr)
  with m tx_abs_small [OF assms(1)] assms(3,4) have "m = n" by (intro seq_inject [OF m(1)]) simp_all
  with m assms(3) show ?thesis by simp
qed

text \<open>Acknowledging the packets \<open>ns\<close> and recording it in the bitmap.\<close>

lemma tx_abs_acked:
  assumes "tx_abs s B N D (tw c r)" and "acked_many r (map (seq s) ns) c c'"
    and "B \<le> B'" and "B' \<le> N" and "{..<B'} \<subseteq> D \<union> set ns" and "set ns \<subseteq> {B..<B + 2 ^ 16}"
    and "fbits (txw_window w) = {i. B' + i \<in> D \<union> set ns}"
    and "bm_size (txw_window w) = bm_size (txw_window (tw c r))" and "fb_ok (txw_window w)"
    and "txw_base w = seq s B'" and "txw_next w = txw_next (tw c r)"
    and "txw_outstanding_packet_contexts w = txw_outstanding_packet_contexts (tw c' r)"
  shows "tx_abs s B' N (D \<union> set ns) w" and "set ns \<subseteq> {B..<N} - D"
proof -
  have ctx: "txw_outstanding_packet_contexts (tw c' r) = txw_outstanding_packet_contexts (tw c r) |` (- seq s ` set ns)"
    and "seq s ` set ns \<subseteq> dom (txw_outstanding_packet_contexts (tw c r))"
    using assms(2) by (auto simp: acked_many_def)
  then show ns: "set ns \<subseteq> {B..<N} - D"
    using tx_abs_unacked [OF assms(1)] assms(6) by fastforce
  have "seq s m \<noteq> seq s n" if m: "m < N" "m \<notin> D \<union> set ns" and n: "n \<in> set ns" for m n
  proof
    assume eq: "seq s m = seq s n"
    from m have "B \<le> m" using assms(1) by (auto simp: tx_abs_def not_le intro: ccontr)
    with m n ns tx_abs_small [OF assms(1)] have "m = n" by (intro seq_inject [OF eq]) fastforce+
    with m n show False by simp
  qed
  then have "dom (txw_outstanding_packet_contexts (tw c' r)) = seq s ` ({..<N} - (D \<union> set ns))"
    using assms(1) unfolding ctx by (auto simp: tx_abs_def)
  moreover have "D \<union> set ns \<subseteq> {..<N}" using assms(1) ns by (auto simp: tx_abs_def)
  ultimately show "tx_abs s B' N (D \<union> set ns) w"
    using assms by (simp add: tx_abs_def)
qed

lemma map_seq_shift:
  "map (\<lambda>i. of_nat i + seq s B) (filter (\<lambda>i. P (B + i)) [0..<k]) = map (seq s) (filter P [B..<B + k])"
  by (induction k) (simp_all add: ac_simps)

lemma advance_tx_window_refines:
  assumes "tx_abs s B N D (tw c r)" and "advance_tx_window E r (seq s A) own c = Inr c'"
    and "A < B + 2 ^ 31" and "B < A + 2 ^ 31"
  shows "A \<le> N \<and> tx_abs s (max A B) N (D \<union> {..<A}) (tw c' r) \<and>
    acked_many r (map (seq s) (filter (\<lambda>n. n \<notin> D) [B..<A])) c c'"
proof (cases "B < A")
  case False
  with assms have "c' = c" by (simp add: advance_tx_window_def Let_def tx_abs_def SeqGT_nat)
  moreover have "D \<union> {..<A} = D" and "B \<le> N" using assms(1) False by (auto simp: tx_abs_def)
  ultimately show ?thesis using assms(1) False by (simp add: max_def)
next
  case True
  define k where "k = A - B"
  have A: "A = B + k" using True by (simp add: k_def)
  have small: "k < 2 ^ 31" using assms(3) by (simp add: A)
  have base: "txw_base (tw c r) = seq s B" and bits: "fbits (txw_window (tw c r)) = {i. B + i \<in> D}"
    using assms(1) by (simp_all add: tx_abs_def)
  have delta: "seq s A - txw_base (tw c r) = of_nat k" by (simp add: base A)
  have un: "unat (of_nat k :: u32) = k" and si: "sint (of_nat k :: u32) = int k"
    using small sint_word_of_int [of "int k"] by (simp_all add: unat_of_nat)
  have gt: "SeqGT (seq s A) (txw_base (tw c r))" using assms(3,4) True by (simp add: base SeqGT_nat)
  from assms(2) obtain oow c2 where
    c2: "ack_below_base E r [0..<k] (on_tx r (\<lambda>x. x\<lparr>txw_oow_notification_received := oow\<rparr>) c) = Inr c2"
    and c': "c' = on_tx r (\<lambda>x. x\<lparr>txw_window := fb_RightShift (txw_window x) (int k), txw_base := seq s A\<rparr>) c2"
    unfolding advance_tx_window_def Let_def delta un si by (auto simp: gt res_bind_eq_Inr)
  let ?ns = "filter (\<lambda>n. n \<notin> D) [B..<A]"
  have "map (\<lambda>i. of_nat i + seq s B) (filter (\<lambda>i. B + i \<notin> D) [0..<k]) = map (seq s) ?ns"
    using map_seq_shift [of s B "\<lambda>n. n \<notin> D" k] by (simp add: A)
  then have many: "acked_many r (map (seq s) ?ns) c c2" and win: "txw_window (tw c2 r) = txw_window (tw c r)"
    and pos: "same_position r c c2"
    using ack_below_base_many [OF c2] bits base
    by (auto simp: acked_many_def same_position_def rx_same_def)
  have le: "A \<le> N"
  proof (rule ccontr)
    assume "\<not> A \<le> N"
    moreover have "B \<le> N" "N \<notin> D" using assms(1) by (auto simp: tx_abs_def)
    ultimately have "N \<in> set ?ns" by simp
    then have "seq s N \<in> set (map (seq s) ?ns)" by simp
    with many have "seq s N \<in> dom (txw_outstanding_packet_contexts (tw c r))"
      unfolding acked_many_def by blast
    from tx_abs_unacked [OF assms(1) this] tx_abs_small [OF assms(1)] \<open>B \<le> N\<close> show False by simp
  qed
  then have k: "k \<le> 2 ^ 16" using tx_abs_small [OF assms(1)] by (simp add: A)
  have m': "acked_many r (map (seq s) ?ns) c c'" using many by (simp add: acked_many_def c' rx_same_def)
  have "x \<in> D" if "x < B" for x using assms(1) that by (auto simp: tx_abs_def)
  then have sets: "D \<union> set ?ns = D \<union> {..<A}" by (auto simp: not_less [symmetric])
  have "tx_abs s A N (D \<union> set ?ns) (tw c' r)"
  proof (rule tx_abs_acked(1) [OF assms(1) m'])
    show "fbits (txw_window (tw c' r)) = {i. A + i \<in> D \<union> set ?ns}"
      using small by (auto simp: c' win fb_RightShift_fbits bits A ac_simps)
    show "set ?ns \<subseteq> {B..<B + 2 ^ 16}" using k by (auto simp: A)
    show "fb_ok (txw_window (tw c' r))" using assms(1) small by (simp add: c' win fb_RightShift_ok tx_abs_def)
  qed (use True le sets pos in \<open>auto simp: c' win same_position_def\<close>)
  with sets m' True le show ?thesis by (simp add: max_def)
qed

text \<open>A selective acknowledgement for a window whose base has been advanced already.\<close>

lemma ack_selected_refines:
  assumes "tx_abs s B N D (tw c r)" and "ack_selected E r bm [0..<k] c = Inr c'" and "k \<le> 2 ^ 16"
  shows "\<exists>ns. set ns = {n \<in> {B..<B + k}. n - B \<in> fbits bm} - D \<and> set ns \<subseteq> {B..<N} \<and> sorted_wrt (<) ns \<and>
    tx_abs s B N (D \<union> set ns) (tw c' r) \<and> acked_many r (map (seq s) ns) c c'"
proof -
  have base: "txw_base (tw c r) = seq s B" and bits: "fbits (txw_window (tw c r)) = {i. B + i \<in> D}"
    and ok: "fb_ok (txw_window (tw c r))" and low: "{..<B} \<subseteq> D"
    using assms(1) by (simp_all add: tx_abs_def)
  let ?ns = "filter (\<lambda>n. n \<notin> D \<and> n - B \<in> fbits bm) [B..<B + k]"
  let ?js = "filter (\<lambda>i. i \<notin> fbits (txw_window (tw c r)) \<and> i \<in> fbits bm) [0..<k]"
  have "map (\<lambda>i. txw_base (tw c r) + of_nat i) ?js = map (seq s) ?ns"
    using map_seq_shift [of s B "\<lambda>n. n \<notin> D \<and> n - B \<in> fbits bm" k] by (simp add: bits base add.commute)
  moreover from ack_selected_many [OF assms(2)] have
    js: "acked_many r (map (\<lambda>i. txw_base (tw c r) + of_nat i) ?js) c c'" "same_position r c c'"
      "fbits (txw_window (tw c' r)) = fbits (txw_window (tw c r)) \<union> set ?js"
      "bm_size (txw_window (tw c' r)) = bm_size (txw_window (tw c r))" "fb_ok (txw_window (tw c' r))"
    using ok by auto
  ultimately have many: "acked_many r (map (seq s) ?ns) c c'" by simp
  have "tx_abs s B N (D \<union> set ?ns) (tw c' r) \<and> set ?ns \<subseteq> {B..<N} - D"
  proof (intro conjI tx_abs_acked [OF assms(1) many])
    show "fbits (txw_window (tw c' r)) = {i. B + i \<in> D \<union> set ?ns}"
      and "fbits (txw_window (tw c' r)) = {i. B + i \<in> D \<union> set ?ns}"
      using fbits_bound [OF ok] by (auto simp: js(3) bits)
  qed (use js assms(1,3) base low in \<open>auto simp: same_position_def tx_abs_def\<close>)
  with many show ?thesis by (intro exI [of _ ?ns]) (auto simp: sorted_wrt_filter)
qed

section \<open>Steps that acknowledge nothing\<close>

definition silent :: "connection \<Rightarrow> connection \<Rightarrow> bool" where
  "silent c c' \<longleftrightarrow> (\<forall>r. core c' r = core c r) \<and> rx_same c c' \<and> cn_num_acked c' = cn_num_acked c \<and>
     reports (cn_calls c') = reports (cn_calls c) \<and> cn_ack_coalescing_entry c' = cn_ack_coalescing_entry c"

lemma silent_refl [simp]: "silent c c"
  by (simp add: silent_def)

lemma silent_trans: "silent c c1 \<Longrightarrow> silent c1 c2 \<Longrightarrow> silent c c2"
  by (auto simp: silent_def intro: rx_same_trans)

lemma quiet_silent: "quiet_step c c' \<Longrightarrow> silent c c'"
  by (simp add: silent_def quiet_step_def)

lemma silent_calls: "reports cs = [] \<Longrightarrow> silent c (calls cs c)"
  by (simp add: silent_def)

lemma SetupRetransmitTimer_silent:
  assumes "SetupRetransmitTimer E c = Inr c'"
  shows "silent c c'"
proof -
  from assms consider "c' = c"
    | t d where "c' = calls [ScheduleRto d] (c\<lparr>cn_rto_expiration_base_time := t\<rparr>)"
    by (auto simp: SetupRetransmitTimer_def Let_def res_simps split: if_splits)
  then show ?thesis by cases (simp_all add: silent_def rx_same_def reports_def)
qed

lemma retx_EnqueuePacket_quiet: "retx_EnqueuePacket rsn type c = Inr (st, c') \<Longrightarrow> quiet_step c c'"
  unfolding retx_EnqueuePacket_def res_elims by (metis quiet_refl quiet_updates(2))

lemma InitiateRetransmission_quiet:
  assumes "InitiateRetransmission rsn type c = Inr c'"
  shows "quiet_step c c'"
proof -
  from assms obtain st c1 where c1: "retx_EnqueuePacket rsn type c = Inr (st, c1)"
    and c': "c' = c1 \<or> c' = DecrementOutstandingRetransmittedRequestCount type False c1"
    by (auto simp: InitiateRetransmission_def res_bind_eq_Inr)
  with quiet_trans [OF retx_EnqueuePacket_quiet [OF c1]] show ?thesis by auto
qed

text \<open>One packet taken from the outstanding packets and handed to the retransmission scheduler.\<close>

lemma retransmit_quiet:
  assumes "InitiateRetransmission rsn type (update_packet key type g c) = Inr c1"
  shows "quiet_step c (on_tx r (\<lambda>x. x\<lparr>txw_outstanding_packets := ws x\<rparr>) c1)"
  using quiet_trans [OF quiet_updates(3) InitiateRetransmission_quiet [OF assms]]
  by (blast intro: quiet_trans quiet_updates(7))

lemma eack_scan_quiet: "eack_scan E p r a limit ws force c = Inr c' \<Longrightarrow> quiet_step c c'"
proof (induction ws arbitrary: force c)
  case (Cons w ws)
  let ?next = "\<lambda>f c. eack_scan E p r a limit ws f c = Inr c'"
  let ?retx = "\<lambda>location c1. InitiateRetransmission (wid_rsn w) (wid_type w)
    (update_packet (wid_rsn w, location) (wid_type w) (mark_early_retx (awm_own a)) c) = Inr c1"
  from Cons.prems have "c' = c \<or> (\<exists>f. ?next f c) \<or> (\<exists>location c1 f. ?retx location c1 \<and>
      ?next f (on_tx r (\<lambda>x. x\<lparr>txw_outstanding_packets := wid_erase w (txw_outstanding_packets x)\<rparr>) c1))"
    by (simp only: eack_scan.simps res_elims simp_thms) blast
  then show ?case
  proof (elim disjE exE conjE)
    fix location c1 f
    assume "?retx location c1"
      and "?next f (on_tx r (\<lambda>x. x\<lparr>txw_outstanding_packets := wid_erase w (txw_outstanding_packets x)\<rparr>) c1)"
    then show ?thesis by (rule quiet_trans [OF retransmit_quiet Cons.IH])
  qed (simp, erule Cons.IH)
qed simp

lemma HandleEACK_steps:
  assumes "HandleEACK E p c = Inr (d, c')"
  shows "\<exists>c1 c2. ack_selected E True (ack_receiver_request_bitmap (pkt_ack p))
      [0..<nat (bm_size (ack_receiver_request_bitmap (pkt_ack p)))] c = Inr c1 \<and>
    ack_selected E False (ack_receiver_data_bitmap (pkt_ack p))
      [0..<nat (bm_size (ack_receiver_data_bitmap (pkt_ack p)))] c1 = Inr c2 \<and> silent c2 c'"
proof -
  from assms obtain c1 c2 where c: "ack_selected E True (ack_receiver_request_bitmap (pkt_ack p))
      [0..<nat (bm_size (ack_receiver_request_bitmap (pkt_ack p)))] c = Inr c1"
    "ack_selected E False (ack_receiver_data_bitmap (pkt_ack p))
      [0..<nat (bm_size (ack_receiver_data_bitmap (pkt_ack p)))] c1 = Inr c2"
    and "quiet_step c2 c'"
    by (auto simp: HandleEACK_def Let_def res_simps split: if_splits)
      (blast dest: eack_scan_quiet intro: quiet_trans)+
  then show ?thesis by (blast intro: quiet_silent)
qed

lemma tx_abs_core: "core c' r = core c r \<Longrightarrow> tx_abs s B N D (tw c' r) = tx_abs s B N D (tw c r)"
  by (simp add: tx_core_def tx_abs_def)

section \<open>What a received acknowledgement acknowledges\<close>

text \<open>The packets an acknowledgement selects beyond its base.\<close>

definition selected :: "packet \<Rightarrow> bool \<Rightarrow> nat \<Rightarrow> nat set" where
  "selected p r A =
     (if ack_type (pkt_ack p) = kAckEack
      then {n \<in> {A..}. n - A \<in> fbits (if r then ack_receiver_request_bitmap (pkt_ack p)
                                       else ack_receiver_data_bitmap (pkt_ack p))}
      else {})"

definition ack_bitmaps_ok :: "packet \<Rightarrow> bool" where
  "ack_bitmaps_ok p \<longleftrightarrow>
     (\<forall>b \<in> {ack_receiver_request_bitmap (pkt_ack p), ack_receiver_data_bitmap (pkt_ack p)}.
        fb_ok b \<and> bm_size b \<le> 2 ^ 16)"

text \<open>The reports for the packets \<open>ns\<close> of a window, from their contexts.\<close>

definition ack_reports :: "connection \<Rightarrow> bool \<Rightarrow> u32 \<Rightarrow> nat list \<Rightarrow> call list" where
  "ack_reports c r s ns = map (\<lambda>n. ack_report (the (txw_outstanding_packet_contexts (tw c r) (seq s n)))) ns"

lemma acked_many_other:
  assumes "acked_many r psns c c'"
  shows "core c' (\<not> r) = core c (\<not> r)" and "rx_same c c'" and "cn_num_acked c' = cn_num_acked c + of_nat (length psns)"
    and "psns = map (seq s) ns \<Longrightarrow> reports (cn_calls c') = reports (cn_calls c) @ ack_reports c r s ns"
  using assms by (simp_all add: acked_many_def ack_reports_def)

lemma ack_reports_later:
  assumes "acked_many r psns c c'" and "seq s ` set ns \<subseteq> dom (txw_outstanding_packet_contexts (tw c' r))"
  shows "ack_reports c' r s ns = ack_reports c r s ns"
  using assms by (auto simp: ack_reports_def acked_many_def restrict_map_def)

lemma ack_reports_core: "core c' r = core c r \<Longrightarrow> ack_reports c' r s ns = ack_reports c r s ns"
  by (simp add: ack_reports_def tx_core_def)

text \<open>Both windows advanced to the bases of an acknowledgement.\<close>

lemma advance_both:
  assumes abs: "\<And>r. tx_abs (s r) (B r) (N r) (D r) (tw c r)"
    and near: "\<And>r. A r < B r + 2 ^ 31 \<and> B r \<le> A r"
    and c1: "advance_tx_window E True (seq (s True) (A True)) o1 c = Inr c1"
    and c2: "advance_tx_window E False (seq (s False) (A False)) o2 c1 = Inr c2"
  defines "ns \<equiv> \<lambda>r. filter (\<lambda>n. n \<notin> D r) [B r..<A r]"
  shows "(\<forall>r. A r \<le> N r \<and> tx_abs (s r) (A r) (N r) (D r \<union> {..<A r}) (tw c2 r) \<and>
      txw_outstanding_packet_contexts (tw c2 r) \<subseteq>\<^sub>m txw_outstanding_packet_contexts (tw c r)) \<and> rx_same c c2 \<and>
    cn_num_acked c2 = cn_num_acked c + of_nat (length (ns True) + length (ns False)) \<and>
    reports (cn_calls c2) = reports (cn_calls c) @ ack_reports c True (s True) (ns True) @
      ack_reports c False (s False) (ns False)"
proof -
  have near': "A r < B r + 2 ^ 31" "B r < A r + 2 ^ 31" "max (A r) (B r) = A r" for r
    using near [of r] by auto
  note r1 = advance_tx_window_refines [OF abs c1 near'(1,2)]
  have m1: "acked_many True (map (seq (s True)) (ns True)) c c1" using r1 by (simp add: ns_def)
  have core1: "core c1 False = core c False" using acked_many_other(1) [OF m1] by simp
  have abs1: "tx_abs (s False) (B False) (N False) (D False) (tw c1 False)"
    using abs [of False] by (simp only: tx_abs_core [OF core1])
  note r2 = advance_tx_window_refines [OF abs1 c2 near'(1,2)]
  have m2: "acked_many False (map (seq (s False)) (ns False)) c1 c2" using r2 by (simp add: ns_def)
  have core2: "core c2 True = core c1 True" using acked_many_other(1) [OF m2] by simp
  have "tx_abs (s r) (A r) (N r) (D r \<union> {..<A r}) (tw c2 r) \<and> A r \<le> N r" for r
    using r1 r2 near'(3) tx_abs_core [OF core2] by (cases r) simp_all
  moreover have "txw_outstanding_packet_contexts (tw c2 r) \<subseteq>\<^sub>m txw_outstanding_packet_contexts (tw c r)" for r
    using m1 m2 core1 core2
    by (cases r) (auto simp: acked_many_def map_le_def restrict_map_def tx_core_def split: if_splits)
  moreover have "rx_same c c2" using acked_many_other(2) [OF m1] acked_many_other(2) [OF m2] by (rule rx_same_trans)
  moreover have "reports (cn_calls c2) = reports (cn_calls c) @ ack_reports c True (s True) (ns True) @
      ack_reports c1 False (s False) (ns False)"
    using acked_many_other(4) [OF m1 refl] acked_many_other(4) [OF m2 refl] by simp
  ultimately show ?thesis
    using acked_many_other(3) [OF m1] acked_many_other(3) [OF m2] ack_reports_core [OF core1]
    by (auto simp: add.assoc)
qed

text \<open>Both windows after a selective acknowledgement with the bases they have reached.\<close>

lemma select_one:
  assumes abs: "tx_abs s A N D (tw c r)" and ok: "fb_ok bm" "bm_size bm \<le> 2 ^ 16"
    and c': "ack_selected E r bm [0..<nat (bm_size bm)] c = Inr c'"
  defines "S \<equiv> {n \<in> {A..}. n - A \<in> fbits bm}"
  shows "\<exists>ns. sorted_wrt (<) ns \<and> set ns = S - D \<and> S \<subseteq> {..<N} \<and> tx_abs s A N (D \<union> S) (tw c' r) \<and>
    acked_many r (map (seq s) ns) c c'"
proof -
  have "nat (bm_size bm) \<le> 2 ^ 16" using ok(2) by simp
  from ack_selected_refines [OF abs c' this] obtain ns where
    ns: "set ns = {n \<in> {A..<A + nat (bm_size bm)}. n - A \<in> fbits bm} - D" "set ns \<subseteq> {A..<N}" "sorted_wrt (<) ns"
      "tx_abs s A N (D \<union> set ns) (tw c' r)" "acked_many r (map (seq s) ns) c c'" by blast
  have "n < A + nat (bm_size bm)" if "n \<in> S" for n
    using fbits_bound [OF ok(1)] that by (fastforce simp: S_def)
  then have S: "set ns = S - D" using ns(1) by (auto simp: S_def)
  moreover have "D \<subseteq> {..<N}" using abs by (simp add: tx_abs_def)
  with S ns(2) have "S \<subseteq> {..<N}" by auto
  moreover have "D \<union> set ns = D \<union> S" using S by auto
  ultimately show ?thesis using ns(3-5) by auto
qed

lemma select_both:
  assumes abs: "\<And>r. tx_abs (s r) (A r) (N r) (D r) (tw c r)" and ok: "ack_bitmaps_ok p"
    and type: "ack_type (pkt_ack p) = kAckEack" and ack: "HandleEACK E p c = Inr (d, c')"
  shows "\<exists>ns. (\<forall>r. sorted_wrt (<) (ns r) \<and> set (ns r) = selected p r (A r) - D r \<and> selected p r (A r) \<subseteq> {..<N r} \<and>
      tx_abs (s r) (A r) (N r) (D r \<union> selected p r (A r)) (tw c' r)) \<and> rx_same c c' \<and>
    cn_num_acked c' = cn_num_acked c + of_nat (length (ns True) + length (ns False)) \<and>
    reports (cn_calls c') = reports (cn_calls c) @ ack_reports c True (s True) (ns True) @
      ack_reports c False (s False) (ns False)"
proof -
  let ?rb = "ack_receiver_request_bitmap (pkt_ack p)" and ?db = "ack_receiver_data_bitmap (pkt_ack p)"
  obtain c1 c2 where c1: "ack_selected E True ?rb [0..<nat (bm_size ?rb)] c = Inr c1"
    and c2: "ack_selected E False ?db [0..<nat (bm_size ?db)] c1 = Inr c2" and q: "silent c2 c'"
    using HandleEACK_steps [OF ack] by (elim exE conjE)
  have sel: "selected p r a = {n \<in> {a..}. n - a \<in> fbits (if r then ?rb else ?db)}" for r a
    by (simp add: selected_def type)
  have okb: "fb_ok ?rb" "bm_size ?rb \<le> 2 ^ 16" "fb_ok ?db" "bm_size ?db \<le> 2 ^ 16"
    using ok by (simp_all add: ack_bitmaps_ok_def)
  obtain n1 where n1: "sorted_wrt (<) n1" "set n1 = selected p True (A True) - D True"
    "selected p True (A True) \<subseteq> {..<N True}"
    "tx_abs (s True) (A True) (N True) (D True \<union> selected p True (A True)) (tw c1 True)"
    and m1: "acked_many True (map (seq (s True)) n1) c c1"
    using select_one [OF abs okb(1,2) c1] unfolding sel by (simp only: if_True) (elim exE conjE)
  have core1: "core c1 False = core c False" using acked_many_other(1) [OF m1] by simp
  have abs1: "tx_abs (s False) (A False) (N False) (D False) (tw c1 False)"
    using abs [of False] by (simp only: tx_abs_core [OF core1])
  obtain n2 where n2: "sorted_wrt (<) n2" "set n2 = selected p False (A False) - D False"
    "selected p False (A False) \<subseteq> {..<N False}"
    "tx_abs (s False) (A False) (N False) (D False \<union> selected p False (A False)) (tw c2 False)"
    and m2: "acked_many False (map (seq (s False)) n2) c1 c2"
    using select_one [OF abs1 okb(3,4) c2] unfolding sel by (simp only: if_False) (elim exE conjE)
  have core2: "core c2 True = core c1 True" using acked_many_other(1) [OF m2] by simp
  let ?ns = "\<lambda>r. if r then n1 else n2"
  have "core c' r = core c2 r" for r using q by (simp add: silent_def)
  note abs' = tx_abs_core [OF this]
  have "\<forall>r. sorted_wrt (<) (?ns r) \<and> set (?ns r) = selected p r (A r) - D r \<and> selected p r (A r) \<subseteq> {..<N r} \<and>
      tx_abs (s r) (A r) (N r) (D r \<union> selected p r (A r)) (tw c' r)"
    using n1 n2 tx_abs_core [OF core2] by (simp add: all_bool_eq abs')
  moreover have "rx_same c c'"
    using acked_many_other(2) [OF m1] acked_many_other(2) [OF m2] q by (auto simp: silent_def rx_same_def)
  moreover have "reports (cn_calls c') = reports (cn_calls c) @ ack_reports c True (s True) (?ns True) @
      ack_reports c False (s False) (?ns False)"
    using acked_many_other(4) [OF m1 refl] acked_many_other(4) [OF m2 refl] ack_reports_core [OF core1] q
    by (simp add: silent_def)
  moreover have "cn_num_acked c' = cn_num_acked c + of_nat (length (?ns True) + length (?ns False))"
    using acked_many_other(3) [OF m1] acked_many_other(3) [OF m2] q by (simp add: silent_def add.assoc)
  ultimately show ?thesis by (intro exI [of _ ?ns] conjI)
qed

text \<open>The report for packet \<open>n\<close> of window \<open>r\<close>, from the context kept for it.\<close>

definition packet_report :: "connection \<Rightarrow> (bool \<Rightarrow> u32) \<Rightarrow> bool \<times> nat \<Rightarrow> call" where
  "packet_report c s rn =
     ack_report (the (txw_outstanding_packet_contexts (tw c (fst rn)) (seq (s (fst rn)) (snd rn))))"

lemma ack_reports_packet: "ack_reports c r (s r) ns = map (packet_report c s) (map (Pair r) ns)"
  by (simp add: ack_reports_def packet_report_def)

lemma stale_ack_abs:
  assumes "\<And>r. tx_abs (s r) (B r) (N r) (D r) (tw c r)" and "\<And>r. A r < B r + 2 ^ 31 \<and> B r < A r + 2 ^ 31"
  shows "stale_ack (seq (s True) (A True)) (seq (s False) (A False)) c \<longleftrightarrow> (\<exists>r. A r < B r)"
proof -
  have "txw_base (cn_tx_request c) = seq (s True) (B True)" "txw_base (cn_tx_data c) = seq (s False) (B False)"
    using assms(1) [of True] assms(1) [of False] by (simp_all add: tx_abs_def GetAppropriateTxWindow_def)
  then show ?thesis using assms(2) [of True] assms(2) [of False]
    by (simp add: stale_ack_def SeqLT_nat ex_bool_eq)
qed

lemma HandleACK_steps:
  assumes "HandleACK E p c = Inr (st, c')"
    and "\<not> stale_ack (ack_rrbpsn (pkt_ack p)) (ack_rdbpsn (pkt_ack p)) c"
  shows "st = OkStatus \<and> (\<exists>c1 c2 c3 d. advance_tx_window E True (ack_rrbpsn (pkt_ack p)) (ack_request_own (pkt_ack p)) c = Inr c1 \<and>
    advance_tx_window E False (ack_rdbpsn (pkt_ack p)) (ack_data_own (pkt_ack p)) c1 = Inr c2 \<and>
    (if ack_type (pkt_ack p) = kAckEack then HandleEACK E p c2 else Inr (False, c2)) = Inr (d, c3) \<and> silent c3 c')"
proof -
  from assms obtain c1 c2 c3 d where
    c: "advance_tx_window E True (ack_rrbpsn (pkt_ack p)) (ack_request_own (pkt_ack p)) c = Inr c1"
      "advance_tx_window E False (ack_rdbpsn (pkt_ack p)) (ack_data_own (pkt_ack p)) c1 = Inr c2"
      "(if ack_type (pkt_ack p) = kAckEack then HandleEACK E p c2 else Inr (False, c2)) = Inr (d, c3)"
    and e: "SetupRetransmitTimer E (calls [RueExplicitAck p (ack_type (pkt_ack p) = kAckEack) d] c3) = Inr c'"
      "st = OkStatus"
    by (auto simp: HandleACK_def Let_def res_bind_eq_Inr)
  have "silent c3 c'"
    using silent_trans [OF silent_calls SetupRetransmitTimer_silent [OF e(1)]] by (simp add: reports_def)
  with c e(2) show ?thesis by blast
qed

text \<open>The two windows of a connection as one list of packets, and the selections of an E-ACK if the packet is one.\<close>

abbreviation both :: "(bool \<Rightarrow> nat list) \<Rightarrow> (bool \<times> nat) list" where
  "both ns \<equiv> map (Pair True) (ns True) @ map (Pair False) (ns False)"

lemma both_lists:
  assumes "\<And>r. distinct (ns r)" and "\<And>r. distinct (ms r)" and "\<And>r. set (ns r) \<inter> set (ms r) = {}"
  shows "distinct (both ns @ both ms)" and "set (both ns @ both ms) = {(r, n). n \<in> set (ns r) \<union> set (ms r)}"
proof -
  show "distinct (both ns @ both ms)" using assms by (auto simp: distinct_map inj_on_def)
  have "x \<in> set (both ns @ both ms) \<longleftrightarrow> snd x \<in> set (ns (fst x)) \<union> set (ms (fst x))" for x
    by (cases x; cases "fst x") auto
  then show "set (both ns @ both ms) = {(r, n). n \<in> set (ns r) \<union> set (ms r)}"
    unfolding set_eq_iff mem_Collect_eq split_beta by blast
qed

lemma select_if_eack:
  assumes abs: "\<And>r. tx_abs (s r) (A r) (N r) (D r) (tw c r)" and "ack_bitmaps_ok p" and le: "\<And>r. A r \<le> N r"
    and e: "(if ack_type (pkt_ack p) = kAckEack then HandleEACK E p c else Inr (False, c)) = Inr (d, c')"
  obtains ms where "\<And>r. sorted_wrt (<) (ms r)" "\<And>r. set (ms r) = selected p r (A r) - D r"
    "\<And>r. selected p r (A r) \<subseteq> {..<N r}" "\<And>r. tx_abs (s r) (A r) (N r) (D r \<union> selected p r (A r)) (tw c' r)"
    "cn_num_acked c' = cn_num_acked c + of_nat (length (both ms))"
    "reports (cn_calls c') = reports (cn_calls c) @ map (packet_report c s) (both ms)"
proof (cases "ack_type (pkt_ack p) = kAckEack")
  case True
  with e have "HandleEACK E p c = Inr (d, c')" by simp
  from select_both [OF abs assms(2) True this] that show ?thesis by (auto simp: ack_reports_packet)
next
  case False
  with e abs that [of "\<lambda>_. []"] show ?thesis by (simp add: selected_def)
qed

lemma HandleACK_refines:
  assumes abs: "\<And>r. tx_abs (s r) (B r) (N r) (D r) (tw c r)"
    and bases: "ack_rrbpsn (pkt_ack p) = seq (s True) (A True)" "ack_rdbpsn (pkt_ack p) = seq (s False) (A False)"
    and near: "\<And>r. A r < B r + 2 ^ 31 \<and> B r \<le> A r" and ok: "ack_bitmaps_ok p"
    and ack: "HandleACK E p c = Inr (st, c')"
  shows "st = OkStatus" and "{..<A r} \<union> selected p r (A r) \<subseteq> {..<N r}"
    and "tx_abs (s r) (A r) (N r) (D r \<union> {..<A r} \<union> selected p r (A r)) (tw c' r)"
    and "\<exists>ns. distinct ns \<and> set ns = {(r, n). n \<in> {..<A r} \<union> selected p r (A r) - D r} \<and>
       reports (cn_calls c') = reports (cn_calls c) @ map (packet_report c s) ns \<and>
       cn_num_acked c' = cn_num_acked c + of_nat (length ns)"
proof -
  have "\<not> (\<exists>r. A r < B r)" using near by (auto simp: not_less)
  moreover have "stale_ack (seq (s True) (A True)) (seq (s False) (A False)) c \<longleftrightarrow> (\<exists>r. A r < B r)"
  proof (rule stale_ack_abs [OF abs])
    show "A r < B r + 2 ^ 31 \<and> B r < A r + 2 ^ 31" for r using near [of r] by simp
  qed
  ultimately obtain c1 c2 c3 d where st: "st = OkStatus"
    and c1: "advance_tx_window E True (seq (s True) (A True)) (ack_request_own (pkt_ack p)) c = Inr c1"
    and c2: "advance_tx_window E False (seq (s False) (A False)) (ack_data_own (pkt_ack p)) c1 = Inr c2"
    and c3: "(if ack_type (pkt_ack p) = kAckEack then HandleEACK E p c2 else Inr (False, c2)) = Inr (d, c3)"
    and q: "silent c3 c'"
    using HandleACK_steps [OF ack] bases by auto
  let ?ns = "\<lambda>r. filter (\<lambda>n. n \<notin> D r) [B r..<A r]"
  note adv = advance_both [OF abs near c1 c2]
  have mid: "tx_abs (s r) (A r) (N r) (D r \<union> {..<A r}) (tw c2 r)" "A r \<le> N r"
    "txw_outstanding_packet_contexts (tw c2 r) \<subseteq>\<^sub>m txw_outstanding_packet_contexts (tw c r)" for r
    using adv by simp_all
  obtain ms
    where ms: "\<And>r. sorted_wrt (<) (ms r)" "\<And>r. set (ms r) = selected p r (A r) - (D r \<union> {..<A r})"
      "\<And>r. selected p r (A r) \<subseteq> {..<N r}"
      "\<And>r. tx_abs (s r) (A r) (N r) (D r \<union> {..<A r} \<union> selected p r (A r)) (tw c3 r)"
    and n3: "cn_num_acked c3 = cn_num_acked c2 + of_nat (length (both ms))"
    and r3: "reports (cn_calls c3) = reports (cn_calls c2) @ map (packet_report c2 s) (both ms)"
    by (rule select_if_eack [OF mid(1) ok mid(2) c3]) blast
  have same: "txw_outstanding_packet_contexts (tw c2 r) (seq (s r) n) = txw_outstanding_packet_contexts (tw c r) (seq (s r) n)"
    if "n \<in> set (ms r)" for r n
    using mid(1,3) [of r] ms(2,3) [of r] that by (auto simp: tx_abs_def map_le_def image_subset_iff)
  have "reports (cn_calls c') = reports (cn_calls c) @ map (packet_report c s) (both ?ns @ both ms)"
    using adv r3 q by (auto simp: silent_def ack_reports_packet packet_report_def same)
  moreover have "cn_num_acked c' = cn_num_acked c + of_nat (length (both ?ns @ both ms))"
    using adv n3 q by (simp add: silent_def ac_simps)
  moreover have low: "n \<in> D r" if "n < B r" for r n using abs [of r] that by (auto simp: tx_abs_def)
  have each: "set (?ns r) \<union> set (ms r) = {..<A r} \<union> selected p r (A r) - D r" for r
  proof (rule set_eqI)
    fix n show "n \<in> set (?ns r) \<union> set (ms r) \<longleftrightarrow> n \<in> {..<A r} \<union> selected p r (A r) - D r"
      using low [of n r] unfolding Un_iff set_filter ms(2) by (cases "n < B r") auto
  qed
  have "distinct (ms r)" "set (?ns r) \<inter> set (ms r) = {}" for r
    using ms(1,2) [of r] by (auto simp: strict_sorted_iff)
  from both_lists [of ?ns ms, OF _ this] have "distinct (both ?ns @ both ms)"
    "set (both ?ns @ both ms) = {(r, n). n \<in> {..<A r} \<union> selected p r (A r) - D r}" unfolding each by simp_all
  ultimately show "\<exists>ns. distinct ns \<and> set ns = {(r, n). n \<in> {..<A r} \<union> selected p r (A r) - D r} \<and>
       reports (cn_calls c') = reports (cn_calls c) @ map (packet_report c s) ns \<and>
       cn_num_acked c' = cn_num_acked c + of_nat (length ns)" by blast
  show "st = OkStatus" by (rule st)
  show "{..<A r} \<union> selected p r (A r) \<subseteq> {..<N r}" using ms(3) mid(2) [of r] by auto
  show "tx_abs (s r) (A r) (N r) (D r \<union> {..<A r} \<union> selected p r (A r)) (tw c' r)"
    using tx_abs_core [of c' r c3] q ms(4) by (auto simp: silent_def)
qed

section \<open>Properties\<close>

text \<open>
  C5. Every packet is acknowledged exactly once. Let both transmit windows be described by their base \<open>B\<close>, the number \<open>N\<close> of
  packets sent and the set \<open>D\<close> of packets acknowledged so far, and let an ACK with bases \<open>A\<close> arrive, neither
  more than $2^{31}$ packets away. If a base lies below that of the window the ACK is stale and changes nothing.
  Otherwise, if the handler returns, no packet that was never sent is acknowledged, both windows move to the
  bases of the ACK, and the acknowledged packets are exactly those before, those below the bases and those an
  E-ACK selects. Each of the newly acknowledged packets is reported exactly once, none of the others is, and the
  count for congestion control grows by their number.
\<close>

theorem acks_exactly_once:
  assumes "\<forall>r. tx_abs (s r) (B r) (N r) (D r) (GetAppropriateTxWindow c r)"
    and "ack_rrbpsn (pkt_ack p) = seq (s True) (A True)" and "ack_rdbpsn (pkt_ack p) = seq (s False) (A False)"
    and "\<forall>r. A r < B r + 2 ^ 31 \<and> B r < A r + 2 ^ 31" and "ack_bitmaps_ok p"
    and "HandleACK E p c = Inr (st, c')"
  shows "if \<exists>r. A r < B r then st = AlreadyExistsError \<and> c' = c
    else st = OkStatus \<and>
      (\<forall>r. {..<A r} \<union> selected p r (A r) \<subseteq> {..<N r} \<and>
         tx_abs (s r) (A r) (N r) (D r \<union> {..<A r} \<union> selected p r (A r)) (GetAppropriateTxWindow c' r)) \<and>
      (\<exists>ns. distinct ns \<and> set ns = {(r, n). n \<in> {..<A r} \<union> selected p r (A r) - D r} \<and>
         reports (cn_calls c') = reports (cn_calls c) @ map (packet_report c s) ns \<and>
         cn_num_acked c' = cn_num_acked c + of_nat (length ns))"
proof (cases "\<exists>r. A r < B r")
  case True
  with assms stale_ack_abs [of s B N D c A] show ?thesis by (simp add: HandleACK_def Let_def)
next
  case False
  have abs: "tx_abs (s r) (B r) (N r) (D r) (tw c r)" and near: "A r < B r + 2 ^ 31 \<and> B r \<le> A r" for r
    using assms(1,4) False by (simp_all add: not_less)
  note ref = HandleACK_refines [OF abs assms(2,3) near assms(5,6)]
  show ?thesis unfolding if_not_P [OF False] using ref(1-3) by (intro conjI allI ref(4)) simp_all
qed

text \<open>A pull request outstanding in a request window of four packets, and the ACK for it.\<close>

definition example_pull_sent :: connection where
  "example_pull_sent = example_connection
     \<lparr>cn_state := (ConnectionState_new 1 5 kOrdered)\<lparr>cs_transactions := [(9, kInitiator) \<mapsto>
        (TransactionMetadata_new 9 kPull kInitiator)\<lparr>tm_state := kPullReqNtwkTx, tm_packets := [kPullRequest \<mapsto>
          (PacketMetadata_new kPullRequest kOutgoing None True)\<lparr>pm_transmit_attempts := 1\<rparr>]\<rparr>]\<rparr>,
      cn_tx_request := \<lparr>txw_base = 0, txw_next = 1, txw_outstanding_requests_counter = 1,
        txw_outstanding_retransmission_requests_counter = 0, txw_oow_notification_received = False,
        txw_window = FalconBitmap_new 4 4, txw_outstanding_packets = [\<lparr>wid_rsn = 9, wid_psn = 0, wid_type = kPullRequest\<rparr>],
        txw_outstanding_packet_contexts = [0 \<mapsto> \<lparr>opc_rsn = 9, opc_packet_type = kPullRequest\<rparr>]\<rparr>\<rparr>"

definition example_ack :: packet where
  "example_ack = packet_default\<lparr>pkt_type := kAck, pkt_ack := ack_default\<lparr>ack_rrbpsn := 1\<rparr>\<rparr>"

lemma fbits_new [simp]: "fbits (FalconBitmap_new N k) = {}"
  by (simp add: fbits_def FalconBitmap_new_def)

lemma example_pull_sent_abs: "tx_abs 0 0 (if r then 1 else 0) {} (tw example_pull_sent r)"
  by (auto simp: example_pull_sent_def tx_abs_def GetAppropriateTxWindow_def FalconBitmap_new_ok
      example_connection_def example_tx_window_def) (simp_all add: FalconBitmap_new_def)

lemma example_pull_acked:
  "\<exists>c'. HandleACK (example_env 3) example_ack example_pull_sent = Inr (OkStatus, c') \<and> cn_num_acked c' = 1"
proof -
  have "case HandleACK (example_env 3) example_ack example_pull_sent of
      Inr (st, c) \<Rightarrow> st = OkStatus \<and> cn_num_acked c = 1 | _ \<Rightarrow> False" by code_simp
  then show ?thesis by (auto split: sum.splits prod.splits)
qed

theorem acks_exactly_once_witness:
  "\<exists>c'. HandleACK (example_env 3) example_ack example_pull_sent = Inr (OkStatus, c') \<and>
     tx_abs 0 1 1 {0} (GetAppropriateTxWindow c' True) \<and> (\<exists>k. reports (cn_calls c') = [k])"
proof -
  obtain c' where ack: "HandleACK (example_env 3) example_ack example_pull_sent = Inr (OkStatus, c')"
    using example_pull_acked by blast
  have ok: "ack_bitmaps_ok example_ack"
    by (simp add: ack_bitmaps_ok_def example_ack_def ack_default_def FalconBitmap_new_ok) (simp add: FalconBitmap_new_def)
  have empty: "reports (cn_calls example_pull_sent) = []" "selected example_ack r n = {}" for r n
    by (simp_all add: example_pull_sent_def example_connection_def selected_def example_ack_def ack_default_def)
  let ?n = "\<lambda>r. if r then 1 else 0 :: nat"
  have abs: "\<forall>r. tx_abs 0 0 (?n r) {} (tw example_pull_sent r)" using example_pull_sent_abs by blast
  have near: "\<forall>r. ?n r < 0 + 2 ^ 31 \<and> 0 < ?n r + 2 ^ 31" by (simp split: if_split)
  from acks_exactly_once [where s = "\<lambda>_. 0" and B = "\<lambda>_. 0" and A = ?n, OF abs _ _ near ok ack]
  have *: "(\<forall>r. tx_abs 0 (?n r) (?n r) {..<?n r} (tw c' r)) \<and> (\<exists>ns. distinct ns \<and> set ns = {(r, n). n < ?n r} \<and>
      reports (cn_calls c') = map (packet_report example_pull_sent (\<lambda>_. 0)) ns)"
    unfolding empty by (simp add: example_ack_def ack_default_def) blast
  note t = conjunct1 [OF *]
  from * obtain ns where ns: "distinct ns" "set ns = {(r, n). n < (if r then 1 else 0)}"
    "reports (cn_calls c') = map (packet_report example_pull_sent (\<lambda>_. 0)) ns" by blast
  have "set ns = {(True, 0)}" using ns(2) by (auto split: if_splits)
  with ns(1) have "length ns = 1" using distinct_card by fastforce
  with ns(3) spec [OF t, of True] ack show ?thesis by (auto simp: length_Suc_conv lessThan_Suc)
qed

end
