(* ===== verification/Reliability_Receive.thy ===== *)
theory Reliability_Receive
  imports Reliability_Windows
begin

text \<open>
  The receive windows of \<^verbatim>\<open>packet_reliability_manager.cc\<close> as a refinement: a window is the set \<open>R\<close> of packets received
  and the set \<open>A\<close> of packets acknowledged, counted from the first packet on; its base is the first packet
  that is not acknowledged. Push data waits between the two for the upper layer (\<open>awaiting\<close>). Every handler of
  the layer is shown to change these only as it should, and runs of all handlers in any order accept
  each packet at most once.
\<close>

section \<open>Frames\<close>

text \<open>The sequence numbers of push data that waits for the upper layer, by request sequence number.\<close>

definition awaiting :: "connection \<Rightarrow> u32 \<rightharpoonup> u32" where
  "awaiting c rsn =
     (case cs_received_packet_contexts (cn_state c) (rsn, kTarget) of
        Some x \<Rightarrow> if is_push_data (rpc_type x) then Some (rpc_psn x) else None
      | None \<Rightarrow> None)"

definition rx_frame :: "connection \<Rightarrow> connection \<Rightarrow> bool" where
  "rx_frame c c' \<longleftrightarrow> rx_view c' = rx_view c \<and> awaiting c' \<subseteq>\<^sub>m awaiting c"

lemma rx_frame_refl [simp]: "rx_frame c c"
  by (simp add: rx_frame_def)

lemma rx_frame_trans [trans]: "rx_frame c c1 \<Longrightarrow> rx_frame c1 c2 \<Longrightarrow> rx_frame c c2"
  by (auto simp: rx_frame_def intro: map_le_trans)

lemma awaiting_cong: "cn_state c' = cn_state c \<Longrightarrow> awaiting c' = awaiting c"
  by (simp add: fun_eq_iff awaiting_def)

lemma rx_view_same: "rx_same c c' \<Longrightarrow> rx_view c' = rx_view c"
  by (simp add: fun_eq_iff rx_view_def rx_same_def)

lemma contexts_put_transaction [simp]:
  "cs_received_packet_contexts (put_transaction key t s) = cs_received_packet_contexts s"
  by (simp add: put_transaction_def)

lemma awaiting_put_transaction [simp]: "awaiting (c\<lparr>cn_state := put_transaction key t (cn_state c)\<rparr>) = awaiting c"
  by (simp add: fun_eq_iff awaiting_def)

lemma awaiting_update_packet [simp]: "awaiting (update_packet key type g c) = awaiting c"
  by (simp add: update_packet_def split: option.splits)

lemma awaiting_forget: "awaiting (forget_pull rsn type location c) \<subseteq>\<^sub>m awaiting c"
  by (auto simp: map_le_def awaiting_def forget_pull_def)

lemma cn_state_updates [simp]:
  "cn_state (on_tx r f c) = cn_state c" "cn_state (AccumulateNumAcked c) = cn_state c"
  "cn_state (IncrementOutstandingRequestCount type c) = cn_state c"
  "cn_state (IncrementOutstandingRetransmittedRequestCount type c) = cn_state c"
  "cn_state (DecrementOutstandingRequestCount type c) = cn_state c"
  "cn_state (DecrementOutstandingRetransmittedRequestCount type b c) = cn_state c"
  "cn_state (AddToOutstandingPackets rsn psn type c) = cn_state c"
  by (simp_all add: on_tx_def AccumulateNumAcked_def IncrementOutstandingRequestCount_def
      IncrementOutstandingRetransmittedRequestCount_def DecrementOutstandingRequestCount_def
      DecrementOutstandingRetransmittedRequestCount_def AddToOutstandingPackets_def)

lemma rx_frame_same: "rx_same c c' \<Longrightarrow> cn_state c' = cn_state c \<Longrightarrow> rx_frame c c'"
  unfolding rx_frame_def by (metis rx_view_same awaiting_cong map_le_refl)

lemma rx_frame_updates [simp]:
  "rx_frame c (on_tx r f c)" "rx_frame c (calls cs c)" "rx_frame c (on_retx r h c)"
  "rx_frame c (c\<lparr>cn_rto_expiration_base_time := t\<rparr>)" "rx_frame c (AccumulateNumAcked c)"
  "rx_frame c (DecrementOutstandingRequestCount type c)"
  "rx_frame c (DecrementOutstandingRetransmittedRequestCount type b c)"
  "rx_frame c (update_packet key type g c)" "rx_frame c (forget_pull rsn type location c)"
  "rx_frame c (c\<lparr>cn_state := put_transaction key tr (cn_state c)\<rparr>)"
proof -
  show "rx_frame c (on_tx r f c)" "rx_frame c (calls cs c)" "rx_frame c (on_retx r h c)"
    "rx_frame c (c\<lparr>cn_rto_expiration_base_time := t\<rparr>)" "rx_frame c (AccumulateNumAcked c)"
    "rx_frame c (DecrementOutstandingRequestCount type c)"
    "rx_frame c (DecrementOutstandingRetransmittedRequestCount type b c)"
    by (rule rx_frame_same; simp)+
  show "rx_frame c (update_packet key type g c)" "rx_frame c (forget_pull rsn type location c)"
    "rx_frame c (c\<lparr>cn_state := put_transaction key tr (cn_state c)\<rparr>)"
    unfolding rx_frame_def by (intro conjI rx_view_same; simp add: awaiting_forget)+
qed

lemma acks_only_rx_frame: "acks_only c c' \<Longrightarrow> rx_frame c c'"
  unfolding rx_frame_def acks_only_def tx_side_def prod.inject by (metis awaiting_cong map_le_refl)

text \<open>The transmitting handlers change neither the receive windows nor what waits for the upper layer.\<close>

lemma SetupRetransmitTimer_rx_frame:
  assumes "SetupRetransmitTimer E c = Inr c'"
  shows "rx_frame c c'"
proof -
  from assms consider "c' = c"
    | t d where "c' = calls [ScheduleRto d] (c\<lparr>cn_rto_expiration_base_time := t\<rparr>)"
    by (auto simp: SetupRetransmitTimer_def Let_def res_simps split: if_splits)
  then show ?thesis
    by cases (simp, simp only: rx_frame_trans [OF rx_frame_updates(4) rx_frame_updates(2)])
qed

lemma retx_DequeuePacket_rx_frame: "retx_DequeuePacket rsn type c = Inr (st, c') \<Longrightarrow> rx_frame c c'"
  by (auto simp: retx_DequeuePacket_def res_simps case_sum_eq_Inr)

lemma retx_EnqueuePacket_rx_frame: "retx_EnqueuePacket rsn type c = Inr (st, c') \<Longrightarrow> rx_frame c c'"
  unfolding retx_EnqueuePacket_def res_elims by (metis rx_frame_refl rx_frame_updates(3))

lemma InitiateRetransmission_rx_frame:
  assumes "InitiateRetransmission rsn type c = Inr c'"
  shows "rx_frame c c'"
proof -
  from assms obtain st c1 where c1: "retx_EnqueuePacket rsn type c = Inr (st, c1)"
    and c': "c' = c1 \<or> c' = DecrementOutstandingRetransmittedRequestCount type False c1"
    by (auto simp: InitiateRetransmission_def res_bind_eq_Inr)
  with rx_frame_trans [OF retx_EnqueuePacket_rx_frame [OF c1]] show ?thesis by auto
qed

lemma retransmit_rx_frame:
  assumes "InitiateRetransmission rsn type (update_packet key type g c) = Inr c1"
  shows "rx_frame c (on_tx r f c1)"
  using rx_frame_trans [OF rx_frame_updates(8) InitiateRetransmission_rx_frame [OF assms]]
  by (blast intro: rx_frame_trans rx_frame_updates(1))

lemma ack_outstanding_rx_frame: "ack_outstanding r psn rsn type t c = Inr c' \<Longrightarrow> rx_frame c c'"
  by (auto simp: ack_outstanding_def Let_def res_simps dest!: retx_DequeuePacket_rx_frame
      intro: rx_frame_trans [OF rx_frame_updates(1) rx_frame_updates(7)] split: if_splits sum.split_asm)

lemma EnqueueAckToUlp_rx_frame:
  assumes "EnqueueAckToUlp E r psn c = Inr c'"
  shows "rx_frame c c'"
  using assms
proof (rule EnqueueAckToUlp_steps)
  fix x :: outstanding_packet_context and location t samples and c0 c1 c2 c3 :: connection
  assume loc: "GetTransactionLocation (opc_packet_type x) False = Inr location"
    and c0: "c0 = calls [LatencySamples samples] (c\<lparr>cn_state := put_transaction (opc_rsn x, location) t (cn_state c)\<rparr>)"
    and c1: "ack_request_retransmitted (opc_packet_type x) t (DecrementOutstandingRequestCount (opc_packet_type x) c0) = Inr c1"
    and c2: "ack_outstanding r psn (opc_rsn x) (opc_packet_type x) t c1 = Inr c2"
    and c3: "report_ack E (opc_rsn x) (opc_packet_type x) location (on_tx r (\<lambda>w. w\<lparr>txw_outstanding_packet_contexts :=
        (txw_outstanding_packet_contexts w)(psn := None)\<rparr>) (AccumulateNumAcked c2)) = Inr c3"
    and c': "c' = forget_pull (opc_rsn x) (opc_packet_type x) location c3"
  have "rx_frame c c0" unfolding c0 by (rule rx_frame_trans [OF rx_frame_updates(10) rx_frame_updates(2)])
  also have "rx_frame c0 c1" using c1
    by (auto simp: ack_request_retransmitted_def split: if_splits sum.split_asm
        intro: rx_frame_trans [OF rx_frame_updates(6) rx_frame_updates(7)])
  also note ack_outstanding_rx_frame [OF c2]
  also have "rx_frame c2 c3" unfolding report_ack_eq [OF c3 loc]
    by (rule rx_frame_trans [OF rx_frame_updates(5) rx_frame_trans [OF rx_frame_updates(1) rx_frame_updates(2)]])
  also have "rx_frame c3 c'" unfolding c' by (rule rx_frame_updates)
  finally show ?thesis .
qed

lemma ack_below_base_rx_frame: "ack_below_base E r is c = Inr c' \<Longrightarrow> rx_frame c c'"
proof (induction "is" arbitrary: c)
  case (Cons i "is")
  from Cons.prems consider "ack_below_base E r is c = Inr c'"
    | psn c1 where "EnqueueAckToUlp E r psn c = Inr c1" "ack_below_base E r is c1 = Inr c'"
    by (auto simp: res_simps split: if_splits)
  then show ?case by cases (auto intro: Cons.IH rx_frame_trans [OF EnqueueAckToUlp_rx_frame])
qed simp

lemma advance_tx_window_rx_frame:
  assumes "advance_tx_window E r b own c = Inr c'"
  shows "rx_frame c c'"
proof -
  from assms consider "c' = c" | f g "is" c2 where "ack_below_base E r is (on_tx r f c) = Inr c2" "c' = on_tx r g c2"
    unfolding advance_tx_window_def Let_def res_elims by blast
  then show ?thesis by cases (auto intro: rx_frame_trans [OF rx_frame_updates(1)
      rx_frame_trans [OF ack_below_base_rx_frame rx_frame_updates(1)]])
qed

lemma HandlePiggybackedACK_rx_frame:
  assumes "HandlePiggybackedACK E p c = Inr c'"
  shows "rx_frame c c'"
proof -
  from assms consider "c' = c" | b1 o1 c1 b2 o2 c2 where "advance_tx_window E True b1 o1 c = Inr c1"
      "advance_tx_window E False b2 o2 c1 = Inr c2" "SetupRetransmitTimer E c2 = Inr c'"
    unfolding HandlePiggybackedACK_def split_beta res_elims by blast
  then show ?thesis
    by cases (auto intro: rx_frame_trans [OF advance_tx_window_rx_frame
          rx_frame_trans [OF advance_tx_window_rx_frame SetupRetransmitTimer_rx_frame]])
qed

lemma HandleImplicitAck_rx_frame:
  assumes "HandleImplicitAck E p c = Inr c'"
  shows "rx_frame c c'"
proof -
  from assms consider "c' = c" | r psn c1 f g where "EnqueueAckToUlp E r psn c = Inr c1"
      "SetupRetransmitTimer E (on_tx r g (on_tx r f c1)) = Inr c'"
    | r psn c1 f where "EnqueueAckToUlp E r psn c = Inr c1" "SetupRetransmitTimer E (on_tx r f c1) = Inr c'"
    unfolding HandleImplicitAck_def by (cases "implicitly_acked p")
      (simp_all only: option.case split_beta Let_def if_distrib [of "SetupRetransmitTimer E"] res_elims, blast+)
  then show ?thesis
  proof cases
    case 2
    note EnqueueAckToUlp_rx_frame [OF 2(1)]
    also have "rx_frame c1 (on_tx r g (on_tx r f c1))" by (rule rx_frame_trans [OF rx_frame_updates(1) rx_frame_updates(1)])
    also note SetupRetransmitTimer_rx_frame [OF 2(2)]
    finally show ?thesis .
  next
    case 3
    from rx_frame_trans [OF EnqueueAckToUlp_rx_frame [OF 3(1)]] show ?thesis
      by (blast intro: rx_frame_trans [OF rx_frame_updates(1) SetupRetransmitTimer_rx_frame [OF 3(2)]])
  qed simp
qed

lemma ack_selected_rx_frame: "ack_selected E r bm is c = Inr c' \<Longrightarrow> rx_frame c c'"
proof (induction "is" arbitrary: c)
  case (Cons i "is")
  from Cons.prems consider "ack_selected E r bm is c = Inr c'"
    | psn c1 f where "EnqueueAckToUlp E r psn c = Inr c1" "ack_selected E r bm is (on_tx r f c1) = Inr c'"
    by (simp only: ack_selected.simps res_elims) blast
  then show ?case
    by cases (auto intro: Cons.IH rx_frame_trans [OF EnqueueAckToUlp_rx_frame rx_frame_trans [OF rx_frame_updates(1)]])
qed simp

lemma eack_scan_rx_frame: "eack_scan E p r a limit ws force c = Inr c' \<Longrightarrow> rx_frame c c'"
proof (induction ws arbitrary: force c)
  case (Cons w ws)
  from Cons.prems consider "c' = c" | f where "eack_scan E p r a limit ws f c = Inr c'"
    | key g f h c1 where "InitiateRetransmission (wid_rsn w) (wid_type w) (update_packet key (wid_type w) g c) = Inr c1"
        "eack_scan E p r a limit ws f (on_tx r h c1) = Inr c'"
    by (simp only: eack_scan.simps res_elims simp_thms) blast
  then show ?case by cases (auto intro: Cons.IH rx_frame_trans [OF retransmit_rx_frame])
qed simp

lemma HandleEACK_rx_frame:
  assumes "HandleEACK E p c = Inr (d, c')"
  shows "rx_frame c c'"
proof -
  from assms obtain b1 is1 c1 b2 is2 c2 where c: "ack_selected E True b1 is1 c = Inr c1" "ack_selected E False b2 is2 c1 = Inr c2"
    and "c' = c2 \<or> (\<exists>a1 l1 w1 c3 a2 l2 w2. eack_scan E p True a1 l1 w1 False c2 = Inr c3 \<and>
      eack_scan E p False a2 l2 w2 False c3 = Inr c')"
    unfolding HandleEACK_def res_elims by blast
  then have "rx_frame c2 c'" by (auto intro: rx_frame_trans [OF eack_scan_rx_frame eack_scan_rx_frame])
  with rx_frame_trans [OF ack_selected_rx_frame [OF c(1)] ack_selected_rx_frame [OF c(2)]] show ?thesis
    by (rule rx_frame_trans)
qed

lemma HandleACK_rx_frame:
  assumes "HandleACK E p c = Inr (st, c')"
  shows "rx_frame c c'"
proof (cases "stale_ack (ack_rrbpsn (pkt_ack p)) (ack_rdbpsn (pkt_ack p)) c")
  case True
  with assms show ?thesis by (simp add: HandleACK_def Let_def)
next
  case False
  with assms obtain c1 c2 c3 d where
    c1: "advance_tx_window E True (ack_rrbpsn (pkt_ack p)) (ack_request_own (pkt_ack p)) c = Inr c1"
    and c2: "advance_tx_window E False (ack_rdbpsn (pkt_ack p)) (ack_data_own (pkt_ack p)) c1 = Inr c2"
    and c3: "(if ack_type (pkt_ack p) = kAckEack then HandleEACK E p c2 else Inr (False, c2)) = Inr (d, c3)"
    and c': "SetupRetransmitTimer E (calls [RueExplicitAck p (ack_type (pkt_ack p) = kAckEack) d] c3) = Inr c'"
    by (auto simp: HandleACK_def Let_def res_bind_eq_Inr)
  note advance_tx_window_rx_frame [OF c1]
  also note advance_tx_window_rx_frame [OF c2]
  also have "rx_frame c2 c3" using c3 by (auto intro: HandleEACK_rx_frame split: if_splits)
  also note rx_frame_trans [OF rx_frame_updates(2) SetupRetransmitTimer_rx_frame [OF c']]
  finally show ?thesis .
qed

text \<open>Negative acknowledgements, timeouts and transmissions.\<close>

lemma nack_turn_rx_frame:
  assumes "nack_turn E p r w c = Inr (ScanErase c1)"
  shows "rx_frame c c1"
proof -
  from assms obtain key g h c0 where
    "InitiateRetransmission (wid_rsn w) (wid_type w) (update_packet key (wid_type w) g c) = Inr c0" "c1 = on_tx r h c0"
    unfolding nack_turn_def by (simp only: res_elims scan_turn.inject scan_turn.distinct simp_thms) blast
  then show ?thesis by (auto intro: retransmit_rx_frame)
qed

lemma nack_scan_rx_frame:
  assumes "nack_scan E p r ws c = Some (Inr c')"
  shows "rx_frame c c'"
proof -
  have "\<forall>c'. y = Inr c' \<longrightarrow> rx_frame c c'" if "nack_scan E p r ws c = Some y" for y
    by (rule nack_scan.raw_induct [where P = "\<lambda>E p r ws c y. \<forall>c'. y = Inr c' \<longrightarrow> rx_frame c c'", OF _ that])
      (auto split: list.split_asm sum.split_asm scan_turn.split_asm intro: rx_frame_trans [OF nack_turn_rx_frame])
  with assms show ?thesis by simp
qed

lemma HandleRnrNack_rx_frame: "HandleRnrNack E p c = Inr (st, c') \<Longrightarrow> rx_frame c c'"
  unfolding HandleRnrNack_def res_elims
  by (auto intro: rx_frame_trans [OF rx_frame_updates(8) SetupRetransmitTimer_rx_frame])

lemma HandleNack_rx_frame:
  assumes "HandleNack E p c = Some (Inr (st, c'))"
  shows "rx_frame c c'"
proof -
  from assms obtain c1 c2 cs where c1: "HandlePiggybackedACK E p c = Inr c1"
    and c2: "HandleNack_code E p c1 = Some (Inr c2)" and c': "SetupRetransmitTimer E (calls cs c2) = Inr c'"
    by (auto simp: HandleNack_def res_simps split: sum.split_asm)
  from c2 have "rx_frame c1 c2"
    by (auto simp: HandleNack_code_def res_simps InitiateNackBasedEarlyRetransmission_def Let_def
        split: nack_code.splits if_splits dest: HandleRnrNack_rx_frame nack_scan_rx_frame)
  with HandlePiggybackedACK_rx_frame [OF c1] rx_frame_trans [OF rx_frame_updates(2) SetupRetransmitTimer_rx_frame [OF c']]
  show ?thesis by (blast intro: rx_frame_trans)
qed

lemma timeout_scan_rx_frame: "timeout_scan E r ws c = Inr c' \<Longrightarrow> rx_frame c c'"
proof (induction ws arbitrary: c)
  case (Cons w ws)
  from Cons.prems consider "c' = c" | f where "timeout_scan E r ws (on_tx r f c) = Inr c'"
    | key g h c1 where "InitiateRetransmission (wid_rsn w) (wid_type w) (update_packet key (wid_type w) g c) = Inr c1"
        "timeout_scan E r ws (on_tx r h c1) = Inr c'"
    by (simp only: timeout_scan.simps res_elims simp_thms) blast
  then show ?case
    by cases (auto intro: Cons.IH rx_frame_trans [OF retransmit_rx_frame] rx_frame_trans [OF rx_frame_updates(1)])
qed simp

lemma HandleRetransmitTimeout_rx_frame:
  assumes "HandleRetransmitTimeout E c = Inr c'"
  shows "rx_frame c c'"
proof -
  from assms consider "c' = c" | ws c2 ws' c3 where "timeout_scan E True ws (c\<lparr>cn_rto_expiration_base_time := ZeroDuration\<rparr>) = Inr c2"
      "timeout_scan E False ws' c2 = Inr c3" "SetupRetransmitTimer E c3 = Inr c'"
    unfolding HandleRetransmitTimeout_def res_elims by blast
  then show ?thesis
    by cases (auto intro: rx_frame_trans [OF rx_frame_updates(4) rx_frame_trans [OF timeout_scan_rx_frame
          rx_frame_trans [OF timeout_scan_rx_frame SetupRetransmitTimer_rx_frame]]])
qed

lemma HandleRtoReduction_rx_frame: "HandleRtoReduction E c = Inr c' \<Longrightarrow> rx_frame c c'"
  unfolding HandleRtoReduction_def by (blast intro: rx_frame_trans [OF rx_frame_updates(4)] SetupRetransmitTimer_rx_frame)

lemma awaiting_context:
  "awaiting (c\<lparr>cn_state := (cn_state c)\<lparr>cs_received_packet_contexts :=
       (cs_received_packet_contexts (cn_state c))((rsn, location) \<mapsto> x)\<rparr>\<rparr>) =
     (if location = kTarget
      then (awaiting c)(rsn := if is_push_data (rpc_type x) then Some (rpc_psn x) else None) else awaiting c)"
  by (auto simp: fun_eq_iff awaiting_def)

lemma context_steps:
  assumes "CreateOrUpdateReceiverPacketContext p d c = Inr c'"
  obtains location x where "GetTransactionLocation (pkt_type p) (d = kIncoming) = Inr location"
    "c' = c\<lparr>cn_state := (cn_state c)\<lparr>cs_received_packet_contexts :=
       (cs_received_packet_contexts (cn_state c))((falcon_rsn p, location) \<mapsto> x)\<rparr>\<rparr>"
    "d = kIncoming \<Longrightarrow> rpc_type x = pkt_type p \<and> rpc_psn x = falcon_psn p"
    "d \<noteq> kIncoming \<Longrightarrow> (case cs_received_packet_contexts (cn_state c) (falcon_rsn p, location) of
       Some y \<Rightarrow> rpc_type x = rpc_type y \<and> rpc_psn x = rpc_psn y | None \<Rightarrow> rpc_type x = kInvalid)"
proof -
  from assms obtain location where "GetTransactionLocation (pkt_type p) (d = kIncoming) = Inr location"
    "c' = c\<lparr>cn_state := (cn_state c)\<lparr>cs_received_packet_contexts := (cs_received_packet_contexts (cn_state c))
       ((falcon_rsn p, location) \<mapsto> received_context p d (cs_received_packet_contexts (cn_state c) (falcon_rsn p, location)))\<rparr>\<rparr>"
    by (auto simp: CreateOrUpdateReceiverPacketContext_def Let_def res_bind_eq_Inr)
  then show ?thesis
    by (rule that) (auto simp: received_context_def Let_def split: option.splits)
qed

lemma context_outgoing_rx_frame:
  assumes "CreateOrUpdateReceiverPacketContext p kOutgoing c = Inr c'"
  shows "rx_frame c c'"
  using assms
proof (rule context_steps)
  fix location x
  assume c': "c' = c\<lparr>cn_state := (cn_state c)\<lparr>cs_received_packet_contexts :=
       (cs_received_packet_contexts (cn_state c))((falcon_rsn p, location) \<mapsto> x)\<rparr>\<rparr>"
    and "kOutgoing \<noteq> kIncoming \<Longrightarrow> (case cs_received_packet_contexts (cn_state c) (falcon_rsn p, location) of
       Some y \<Rightarrow> rpc_type x = rpc_type y \<and> rpc_psn x = rpc_psn y | None \<Rightarrow> rpc_type x = kInvalid)"
  then have "awaiting c' = awaiting c"
    unfolding c' awaiting_context by (auto simp: fun_eq_iff awaiting_def is_push_data_def split: option.splits)
  moreover have "rx_same c c'" unfolding c' by simp
  ultimately show ?thesis by (simp add: rx_frame_def rx_view_same)
qed

lemma context_incoming:
  assumes "CreateOrUpdateReceiverPacketContext p kIncoming c = Inr c'"
  shows "rx_view c' = rx_view c" and "is_push_data (pkt_type p) \<Longrightarrow> awaiting c' = (awaiting c)(falcon_rsn p \<mapsto> falcon_psn p)"
    and "\<not> is_push_data (pkt_type p) \<Longrightarrow> awaiting c' \<subseteq>\<^sub>m awaiting c"
proof -
  obtain location x where loc: "GetTransactionLocation (pkt_type p) True = Inr location"
    and c': "c' = c\<lparr>cn_state := (cn_state c)\<lparr>cs_received_packet_contexts :=
       (cs_received_packet_contexts (cn_state c))((falcon_rsn p, location) \<mapsto> x)\<rparr>\<rparr>"
    and x: "rpc_type x = pkt_type p \<and> rpc_psn x = falcon_psn p"
    by (rule context_steps [OF assms]) simp
  have "rx_same c c'" unfolding c' by simp
  then show "rx_view c' = rx_view c" by (rule rx_view_same)
  show "awaiting c' = (awaiting c)(falcon_rsn p \<mapsto> falcon_psn p)" if "is_push_data (pkt_type p)"
    using loc x that unfolding c' awaiting_context by (auto simp: is_push_data_def)
  show "awaiting c' \<subseteq>\<^sub>m awaiting c" if "\<not> is_push_data (pkt_type p)"
    using x that unfolding c' awaiting_context by (auto simp: map_le_def)
qed

lemma AssignPsnAndSsn_rx_frame:
  assumes "AssignPsnAndSsn key type p c = (p', c')"
  shows "rx_frame c c'"
proof -
  from assms obtain f g where "rx_same (on_tx r f (update_packet key type g c)) c'"
    "cn_state c' = cn_state (on_tx r f (update_packet key type g c))"
    if "r = BelongsToRequestWindow type" for r
    by (auto simp: AssignPsnAndSsn_def Let_def rx_same_def split: if_splits)
  from rx_frame_same [OF this [OF refl]] show ?thesis
    by (blast intro: rx_frame_trans rx_frame_updates)
qed

lemma SetupRetransmission_rx_frame:
  assumes "SetupRetransmission E key rsn type psn c = Inr c'"
  shows "rx_frame c c'"
proof -
  have "rx_frame c (AddToOutstandingPackets rsn psn type (update_packet key type g c))" for g
    unfolding AddToOutstandingPackets_def by (rule rx_frame_trans [OF rx_frame_updates(8) rx_frame_updates(1)])
  from rx_frame_trans [OF this SetupRetransmitTimer_rx_frame [OF assms [unfolded SetupRetransmission_def]]]
  show ?thesis .
qed

lemma number_packet_rx_frame: "rx_frame c (snd (number_packet key type m p c))"
  unfolding number_packet_def using AssignPsnAndSsn_rx_frame [OF prod.collapse [symmetric]] by simp

lemma count_transmission_rx_frame:
  assumes "count_transmission E key type b c = Inr c'"
  shows "rx_frame c c'"
proof -
  have inc: "rx_frame c (IncrementOutstandingRequestCount type c)"
    "rx_frame c (IncrementOutstandingRetransmittedRequestCount type c)"
    by (simp_all add: IncrementOutstandingRequestCount_def IncrementOutstandingRetransmittedRequestCount_def)
  from assms consider "c' = IncrementOutstandingRetransmittedRequestCount type c"
    | t samples where "c' = calls [LatencySamples samples] ((IncrementOutstandingRequestCount type c)\<lparr>cn_state :=
        put_transaction key t (cn_state (IncrementOutstandingRequestCount type c))\<rparr>)"
    unfolding count_transmission_def Let_def
    by (auto simp: res_bind_eq_Inr simp del: cn_state_updates split: if_splits option.split_asm)
  then show ?thesis
  proof cases
    case 2
    show ?thesis unfolding 2
      by (rule rx_frame_trans [OF inc(1) rx_frame_trans [OF rx_frame_updates(10) rx_frame_updates(2)]])
  qed (simp add: inc)
qed

lemma send_numbered_rx_frame:
  assumes "send_numbered floor_fdiv now E rsn key t_rsn type m p (g, c) = Inr (g', c')"
  shows "rx_frame c c'"
proof -
  from assms obtain psn c3 p2 p3 c4 c5 c6 h where c3: "SetupRetransmission E key t_rsn type psn c = Inr c3"
    and c4: "PiggybackAck p2 c3 = Inr (p3, c4)" and c5: "CreateOrUpdateReceiverPacketContext p3 kOutgoing c4 = Inr c5"
    and c6: "count_transmission E key type (pm_transmit_attempts m \<noteq> 1) c5 = Inr c6"
    and c': "c' = calls [TransferTxPacket p3] (update_packet key type h c6)"
    by (auto simp: send_numbered_def Let_def res_bind_eq_Inr)
  note SetupRetransmission_rx_frame [OF c3]
  also note acks_only_rx_frame [OF PiggybackAck_frame [OF c4]]
  also note context_outgoing_rx_frame [OF c5]
  also note count_transmission_rx_frame [OF c6]
  also have "rx_frame c6 c'" unfolding c' by (rule rx_frame_trans [OF rx_frame_updates(8) rx_frame_updates(2)])
  finally show ?thesis .
qed

lemma TransmitPacket_rx_frame:
  assumes "TransmitPacket floor_fdiv now E rsn type (g, c) = Inr (st, g', c')"
  shows "rx_frame c c'"
proof -
  from assms consider "c' = c"
    | key m p t_rsn where "let (p1, c2) = number_packet key type m p (update_packet key type (\<lambda>_. m) c)
        in send_numbered floor_fdiv now E rsn key t_rsn type m p1 (g, c2) = Inr (g', c')"
    by (auto simp: TransmitPacket_def Let_def res_bind_eq_Inr case_sum_eq_Inr split_beta split: option.split_asm)
  then show ?thesis
  proof cases
    case 2
    then have "send_numbered floor_fdiv now E rsn key t_rsn type m
        (fst (number_packet key type m p (update_packet key type (\<lambda>_. m) c)))
        (g, snd (number_packet key type m p (update_packet key type (\<lambda>_. m) c))) = Inr (g', c')"
      by (simp add: split_beta)
    from rx_frame_trans [OF rx_frame_updates(8) rx_frame_trans [OF number_packet_rx_frame send_numbered_rx_frame [OF this]]]
    show ?thesis .
  qed simp
qed

lemma HandleNackFromUlp_rx_frame: "HandleNackFromUlp E key ulp c = Inr (st, c') \<Longrightarrow> rx_frame c c'"
  unfolding HandleNackFromUlp_def res_elims
  by (auto intro: rx_frame_trans [OF rx_frame_updates(8) acks_only_rx_frame [OF TransmitNACK_frame]])

lemma HandleAckCoalescingTimeout_rx_frame: "HandleAckCoalescingTimeout E c = Inr c' \<Longrightarrow> rx_frame c c'"
  by (auto simp: HandleAckCoalescingTimeout_def res_bind_eq_Inr split: if_splits
      intro: acks_only_rx_frame [OF TransmitACK_frame])

section \<open>The receive window\<close>

definition first_missing :: "nat set \<Rightarrow> nat" where
  "first_missing A = (LEAST n. n \<notin> A)"

lemma first_missing_eq: "{..<b} \<subseteq> A \<Longrightarrow> b \<notin> A \<Longrightarrow> first_missing A = b"
  unfolding first_missing_def by (rule Least_equality) (auto simp: not_less [symmetric])

lemma first_missing_notin: "finite A \<Longrightarrow> first_missing A \<notin> A"
  unfolding first_missing_def by (rule LeastI_ex) (rule ex_new_if_finite, simp_all)

lemma below_first_missing: "n < first_missing A \<Longrightarrow> n \<in> A"
  unfolding first_missing_def by (blast dest: not_less_Least)

definition rx_abs :: "u32 \<Rightarrow> nat set \<Rightarrow> nat set \<Rightarrow> rx_window \<Rightarrow> bool" where
  "rx_abs s R A w \<longleftrightarrow>
     rxw_base w = seq s (first_missing A) \<and>
     0 < bm_size (rxw_receive_window w) \<and> bm_size (rxw_receive_window w) \<le> 2 ^ 16 \<and>
     bm_size (rxw_ack_window w) = bm_size (rxw_receive_window w) \<and>
     fb_ok (rxw_receive_window w) \<and> fb_ok (rxw_ack_window w) \<and>
     fbits (rxw_receive_window w) = {i. first_missing A + i \<in> R} \<and>
     fbits (rxw_ack_window w) = {i. first_missing A + i \<in> A} \<and>
     A \<subseteq> R \<and> R \<subseteq> {..<first_missing A + nat (bm_size (rxw_receive_window w))}"

definition rw :: "connection \<Rightarrow> bool \<Rightarrow> rx_window" where
  "rw c r = (if r then cn_rx_request c else cn_rx_data c)"

lemma rx_abs_view: "rx_view c' = rx_view c \<Longrightarrow> rx_abs s R A (rw c' r) = rx_abs s R A (rw c r)"
  by (drule fun_cong [of _ _ r]) (simp add: rx_view_def rw_def rx_abs_def Let_def)

lemma rx_abs_finite: "rx_abs s R A w \<Longrightarrow> finite R \<and> finite A"
  unfolding rx_abs_def by (meson finite_lessThan finite_subset)

lemma rx_abs_base: "rx_abs s R A w \<Longrightarrow> first_missing A \<notin> A"
  using rx_abs_finite first_missing_notin by blast

text \<open>The index of a packet of the window.\<close>

lemma index_nat:
  assumes "n < k" and "k \<le> 2 ^ 16"
  shows "sint ((of_nat n :: u32) mod word_of_int (int k)) = int n"
proof -
  have "unat (of_nat n :: u32) = n" "unat (of_nat k :: u32) = k" using assms by (simp_all add: unat_of_nat)
  then have "unat ((of_nat n :: u32) mod of_nat k) = unat (of_nat n :: u32)"
    using assms(1) by (simp add: unat_mod_distrib)
  then have "(of_nat n :: u32) mod of_nat k = of_nat n" by (simp only: word_unat_eq_iff [symmetric])
  moreover have "sint (word_of_int (int n) :: u32) = int n" by (rule sint_word_of_int) (use assms in simp_all)
  ultimately show ?thesis by simp
qed

lemma rx_index_abs:
  assumes "rx_abs s R A w" and "first_missing A \<le> n" and "n < first_missing A + nat (bm_size (rxw_receive_window w))"
  shows "rx_index w (seq s n) = int (n - first_missing A)"
proof -
  have "seq s n - rxw_base w = of_nat (n - first_missing A)" using assms by (simp add: rx_abs_def)
  moreover have "bm_size (rxw_receive_window w) = int (nat (bm_size (rxw_receive_window w)))"
    "nat (bm_size (rxw_receive_window w)) \<le> 2 ^ 16" using assms(1) by (auto simp: rx_abs_def)
  ultimately show ?thesis unfolding rx_index_def using assms(2,3)
    by (metis index_nat less_diff_conv2 add.commute)
qed

text \<open>Acknowledging a received packet: the base moves to the first packet that is not acknowledged.\<close>

lemma ack_prefix_spec:
  assumes "fb_ok b" and "int k \<le> bm_size b" and "j \<le> k"
  shows "\<exists>d. ack_prefix b [j..<k] j = Inr d \<and> j \<le> d \<and> d \<le> k \<and> {j..<d} \<subseteq> fbits b \<and> (d = k \<or> d \<notin> fbits b)"
  using assms(3)
proof (induction "k - j" arbitrary: j)
  case (Suc x)
  then have j: "j < k" "x = k - Suc j" by simp_all
  then have get: "fb_Get b (int j) = Inr (j \<in> fbits b)" using assms by (intro fb_Get_total) auto
  from Suc.hyps(1) [OF j(2)] j obtain d where d: "ack_prefix b [Suc j..<k] (Suc j) = Inr d" "Suc j \<le> d" "d \<le> k"
    "{Suc j..<d} \<subseteq> fbits b" "d = k \<or> d \<notin> fbits b" by auto
  show ?case
  proof (cases "j \<in> fbits b")
    case True
    have "{j..<d} \<subseteq> insert j {Suc j..<d}" by auto
    with True d(4) have "{j..<d} \<subseteq> fbits b" by blast
    with d get j(1) True show ?thesis by (intro exI [of _ d]) (auto simp: upt_conv_Cons)
  next
    case False
    with get j(1) show ?thesis by (simp add: upt_conv_Cons)
  qed
qed simp

lemma ack_prefix_total:
  assumes "fb_ok b"
  shows "\<exists>d. ack_prefix b [0..<nat (bm_size b)] 0 = Inr d \<and> d \<le> nat (bm_size b) \<and> {..<d} \<subseteq> fbits b \<and> d \<notin> fbits b"
proof -
  have "0 \<le> bm_size b" using assms by (simp add: fb_ok_def)
  then obtain d where d: "ack_prefix b [0..<nat (bm_size b)] 0 = Inr d" "d \<le> nat (bm_size b)" "{0..<d} \<subseteq> fbits b"
    "d = nat (bm_size b) \<or> d \<notin> fbits b"
    using ack_prefix_spec [OF assms, of "nat (bm_size b)" 0] by auto
  moreover have "nat (bm_size b) \<notin> fbits b" using fbits_bound [OF assms, of "nat (bm_size b)"] \<open>0 \<le> bm_size b\<close> by auto
  ultimately show ?thesis by (auto simp: atLeast0LessThan)
qed

lemma fb_Set_total:
  assumes "fb_ok b" and "int i < bm_size b"
  obtains b' where "fb_Set b (int i) True = Inr b'" "fbits b' = insert i (fbits b)" "bm_size b' = bm_size b" "fb_ok b'"
proof -
  have "i < length (bm_bits b)" using assms by (auto simp: fb_ok_def)
  with assms(2) obtain b' where b': "fb_Set b (int i) True = Inr b'"
    by (simp add: fb_Set_def fb_store_def check_def)
  from that [OF b' fb_Set_fbits(1,2) [OF b'] fb_Set_fbits(4) [OF b' assms(1)]] show ?thesis .
qed

lemma shift_bits:
  assumes "fbits b = {i. B + i \<in> X}" and "d \<le> 2 ^ 16"
  shows "fbits (fb_RightShift b (int d)) = {i. B + d + i \<in> X}"
  using assms by (subst fb_RightShift_fbits) (auto simp: ac_simps)

lemma update_ack_window_abs:
  assumes abs: "rx_abs s R A w" and n: "n \<in> R" "n \<notin> A"
  shows "\<exists>w'. update_ack_window (seq s n) w = Inr (first_missing (insert n A) - first_missing A, w') \<and>
    rx_abs s R (insert n A) w'"
proof -
  let ?B = "first_missing A" and ?W = "nat (bm_size (rxw_receive_window w))"
  have le: "?B \<le> n" using n(2) below_first_missing not_less by blast
  have lt: "n < ?B + ?W" and W: "int ?W = bm_size (rxw_receive_window w)" "?W \<le> 2 ^ 16"
    and ack: "fb_ok (rxw_ack_window w)" "fbits (rxw_ack_window w) = {i. ?B + i \<in> A}" "bm_size (rxw_ack_window w) = int ?W"
    and rcv: "fb_ok (rxw_receive_window w)" "fbits (rxw_receive_window w) = {i. ?B + i \<in> R}"
    and base: "rxw_base w = seq s ?B" and sub: "A \<subseteq> R" "R \<subseteq> {..<?B + ?W}" and pos: "0 < bm_size (rxw_receive_window w)"
    using abs n(1) by (auto simp: rx_abs_def)
  obtain b where b: "fb_Set (rxw_ack_window w) (int (n - ?B)) True = Inr b"
    "fbits b = insert (n - ?B) (fbits (rxw_ack_window w))" "bm_size b = bm_size (rxw_ack_window w)" "fb_ok b"
  proof (rule fb_Set_total [OF ack(1)])
    show "int (n - ?B) < bm_size (rxw_ack_window w)" unfolding ack(3) of_nat_less_iff using le lt by simp
  qed
  have bits: "fbits b = {i. ?B + i \<in> insert n A}" using le by (auto simp: b(2) ack(2))
  note idx = rx_index_abs [OF abs le lt]
  show ?thesis
  proof (cases "n = ?B")
    case True
    obtain d where d: "ack_prefix b [0..<nat (bm_size b)] 0 = Inr d" "d \<le> ?W" "{..<d} \<subseteq> fbits b" "d \<notin> fbits b"
      using ack_prefix_total [OF b(4)] unfolding b(3) ack(3) nat_int by blast
    have "x \<in> insert n A" if "x < ?B + d" for x
      using that d(3) bits below_first_missing [of x A] by (cases "x < ?B") (auto dest!: subsetD [of _ _ "x - ?B"])
    then have fm: "first_missing (insert n A) = ?B + d"
      using d(4) bits by (intro first_missing_eq) auto
    let ?w = "w\<lparr>rxw_ack_window := fb_RightShift b (int d),
      rxw_receive_window := fb_RightShift (rxw_receive_window w) (int d), rxw_base := rxw_base w + of_nat d\<rparr>"
    have "update_ack_window (seq s n) w = Inr (d, ?w)"
      using True base idx b(1) d(1) by (simp add: update_ack_window_def)
    moreover have "rx_abs s R (insert n A) ?w"
      unfolding rx_abs_def fm using d(2) W pos b ack rcv base sub n(1)
      by (auto simp: shift_bits [OF bits] shift_bits [OF rcv(2)] fb_RightShift_ok)
    ultimately show ?thesis using fm by auto
  next
    case False
    have "n < ?B + 2 ^ 32" "?B < n + 2 ^ 32" using le lt W(2) by simp_all
    with False have "seq s n \<noteq> rxw_base w" using seq_inject [of s n ?B] base by auto
    moreover have fm: "first_missing (insert n A) = ?B"
      using False rx_abs_base [OF abs] below_first_missing by (intro first_missing_eq) auto
    moreover have "rx_abs s R (insert n A) (w\<lparr>rxw_ack_window := b\<rparr>)"
      unfolding rx_abs_def fm using abs b bits n(1) by (auto simp: rx_abs_def)
    ultimately show ?thesis using idx b(1) by (simp add: update_ack_window_def)
  qed
qed

section \<open>Incoming packets\<close>

lemma GetAppropriateRxWindow_rw: "GetAppropriateRxWindow c type = rw c (BelongsToRequestWindow type)"
  by (simp add: GetAppropriateRxWindow_def BelongsToRequestWindow_def rw_def)

lemma rw_on_rx [simp]: "rw (on_rx q f c) r = (if r = q then f (rw c r) else rw c r)"
  by (cases q; cases r) (simp_all add: on_rx_def rw_def)

lemma awaiting_on_rx [simp]: "awaiting (on_rx q f c) = awaiting c"
  by (rule awaiting_cong) (simp add: on_rx_def)

text \<open>The abstract state of both windows and the upper layer's share.\<close>

definition rx_state :: "(bool \<Rightarrow> u32) \<Rightarrow> (bool \<Rightarrow> nat set) \<Rightarrow> (bool \<Rightarrow> nat set) \<Rightarrow> connection \<Rightarrow> bool" where
  "rx_state s R A c \<longleftrightarrow> (\<forall>r. rx_abs (s r) (R r) (A r) (rw c r))"

lemma rx_state_frame: "rx_frame c c' \<Longrightarrow> rx_state s R A c \<Longrightarrow> rx_state s R A c'"
  unfolding rx_state_def rx_frame_def using rx_abs_view by blast

lemma rx_state_acks: "acks_only c c' \<Longrightarrow> rx_state s R A c \<Longrightarrow> rx_state s R A c'"
  by (rule rx_state_frame [OF acks_only_rx_frame])

lemma acks_only_awaiting: "acks_only c c' \<Longrightarrow> awaiting c' = awaiting c"
  by (rule awaiting_cong) (simp add: acks_only_def tx_side_def)

lemma receive_abs:
  assumes abs: "rx_abs s R A w" and n: "n \<notin> R" "n < first_missing A + nat (bm_size (rxw_receive_window w))"
    and set: "fb_Set (rxw_receive_window w) (rx_index w (seq s n)) True = Inr b"
  shows "rx_abs s (insert n R) A (w\<lparr>rxw_receive_window := b\<rparr>)"
proof -
  have le: "first_missing A \<le> n"
    using n(1) abs below_first_missing [of n A] by (auto simp: rx_abs_def not_less [symmetric])
  note set' = set [unfolded rx_index_abs [OF abs le n(2)]]
  have "fb_ok (rxw_receive_window w)" using abs by (simp add: rx_abs_def)
  from fb_Set_fbits(1,2) [OF set'] fb_Set_fbits(4) [OF set' this] show ?thesis
    using abs le n(2) by (auto simp: rx_abs_def)
qed

lemma UpdateReceiveAckBitmap_state:
  assumes "rx_state s R A c" and "n \<in> R q" "n \<notin> A q" and "UpdateReceiveAckBitmap q (seq (s q) n) c = Inr c'"
  shows "rx_state s R (A(q := insert n (A q))) c'" and "awaiting c' = awaiting c"
proof -
  have "rx_abs (s q) (R q) (A q) (rw c q)" using assms(1) by (simp add: rx_state_def)
  from update_ack_window_abs [OF this assms(2,3)] obtain w d where
    w: "update_ack_window (seq (s q) n) (rw c q) = Inr (d, w)" "rx_abs (s q) (R q) (insert n (A q)) w" by blast
  then have c': "c' = (on_rx q (\<lambda>_. w) c)\<lparr>cn_implicitly_acked_counter := cn_implicitly_acked_counter c + of_nat d\<rparr>"
    using assms(4) by (simp add: UpdateReceiveAckBitmap_def rw_def [symmetric])
  have "rw c' r = rw (on_rx q (\<lambda>_. w) c) r" for r by (simp only: rw_def) (simp add: c')
  with w(2) assms(1) show "rx_state s R (A(q := insert n (A q))) c'"
    unfolding rx_state_def by simp
  have "awaiting c' = awaiting (on_rx q (\<lambda>_. w) c)" by (rule awaiting_cong) (simp add: c')
  then show "awaiting c' = awaiting c" by simp
qed

lemma accept_packet_state:
  fixes p q defines "q \<equiv> BelongsToRequestWindow (pkt_type p)"
  assumes st: "rx_state s R A c" and psn: "falcon_psn p = seq (s q) n"
    and n: "n \<notin> R q" "n < first_missing (A q) + nat (bm_size (rxw_receive_window (rw c q)))"
    and acc: "accept_packet E p c = Inr c'"
  shows "rx_state s (R(q := insert n (R q))) (if is_push_data (pkt_type p) then A else A(q := insert n (A q))) c'"
    and "awaiting c' \<subseteq>\<^sub>m (if is_push_data (pkt_type p) then (awaiting c)(falcon_rsn p \<mapsto> falcon_psn p) else awaiting c)"
proof -
  from acc obtain c1 b c2 c3 c4 where c1: "HandleImplicitAck E p c = Inr c1"
    and b: "fb_Set (rxw_receive_window (rw c1 q)) (rx_index (rw c q) (falcon_psn p)) True = Inr b"
    and c2: "c2 = on_rx q (\<lambda>w. w\<lparr>rxw_receive_window := b\<rparr>) c1"
    and c3: "(if \<not> is_push_data (pkt_type p)
       then res_bind (UpdateReceiveAckBitmap q (falcon_psn p) c2) (GenerateAckOrUpdateCoalescingState E (falcon_ack_req p) 2)
       else GenerateAckOrUpdateCoalescingState E False 1 c2) = Inr c3"
    and c4: "(if pkt_type p \<noteq> kResync then CreateOrUpdateReceiverPacketContext p kIncoming c3 else Inr c3) = Inr c4"
    and c': "HandlePiggybackedACK E p c4 = Inr c'"
    unfolding accept_packet_def GetAppropriateRxWindow_rw Let_def q_def [symmetric] by (auto simp: res_bind_eq_Inr)
  have view: "rx_view c1 = rx_view c" and aw1: "awaiting c1 \<subseteq>\<^sub>m awaiting c"
    using HandleImplicitAck_rx_frame [OF c1] by (simp_all add: rx_frame_def)
  have same: "rxw_receive_window (rw c1 q) = rxw_receive_window (rw c q)" "rx_index (rw c q) = rx_index (rw c1 q)"
    using fun_cong [OF view, of q] by (simp_all add: rx_view_def rw_def [symmetric] Let_def rx_index_def fun_eq_iff)
  have st1: "rx_state s R A c1" using rx_state_frame [OF HandleImplicitAck_rx_frame [OF c1] st] .
  then have "rx_abs (s q) (insert n (R q)) (A q) ((rw c1 q)\<lparr>rxw_receive_window := b\<rparr>)"
    using b n unfolding rx_state_def same psn by (intro receive_abs) (auto simp: same)
  with st1 have st2: "rx_state s (R(q := insert n (R q))) A c2" and aw2: "awaiting c2 = awaiting c1"
    by (simp_all add: rx_state_def c2)
  have nA: "n \<notin> A q" using n(1) st by (auto simp: rx_state_def rx_abs_def)
  let ?A = "if is_push_data (pkt_type p) then A else A(q := insert n (A q))"
  have st3: "rx_state s (R(q := insert n (R q))) ?A c3 \<and> awaiting c3 = awaiting c2"
  proof (cases "is_push_data (pkt_type p)")
    case True
    with c3 have "acks_only c2 c3" by (auto intro: Generate_frame)
    with True rx_state_acks [OF this st2] acks_only_awaiting [OF this] show ?thesis by simp
  next
    case False
    with c3 obtain c2' where u: "UpdateReceiveAckBitmap q (seq (s q) n) c2 = Inr c2'" and g: "acks_only c2' c3"
      by (auto simp: res_bind_eq_Inr psn intro: Generate_frame)
    from UpdateReceiveAckBitmap_state [OF st2 _ nA u] rx_state_acks [OF g] acks_only_awaiting [OF g] False show ?thesis
      by simp
  qed
  have "rx_view c4 = rx_view c3" and aw4: "awaiting c4 \<subseteq>\<^sub>m (if is_push_data (pkt_type p)
      then (awaiting c3)(falcon_rsn p \<mapsto> falcon_psn p) else awaiting c3)"
    using c4 context_incoming [of p c3 c4] by (auto split: if_splits simp: is_push_data_def)
  then have "rx_state s (R(q := insert n (R q))) ?A c4"
    using conjunct1 [OF st3] rx_abs_view [of c4 c3] unfolding rx_state_def by blast
  then show "rx_state s (R(q := insert n (R q))) ?A c'" by (rule rx_state_frame [OF HandlePiggybackedACK_rx_frame [OF c']])
  have "awaiting c' \<subseteq>\<^sub>m awaiting c4" using HandlePiggybackedACK_rx_frame [OF c'] by (simp add: rx_frame_def)
  from map_le_trans [OF this aw4] show "awaiting c' \<subseteq>\<^sub>m (if is_push_data (pkt_type p)
      then (awaiting c)(falcon_rsn p \<mapsto> falcon_psn p) else awaiting c)"
    using conjunct2 [OF st3] aw2 map_le_trans [OF _ aw1] map_le_trans [OF _ map_le_upd [OF aw1]]
    by (simp split: if_splits)
qed

lemma repeat_nack_rx_frame:
  assumes "repeat_nack E p m c = Inr c'"
  shows "rx_frame c c'"
proof -
  note nack = acks_only_rx_frame [OF TransmitNACK_frame]
  note retried = rx_frame_updates(2) [of c "[RetryRnrNacked (falcon_rsn p)]"]
  show ?thesis
  proof (cases "pm_nack_code m = kUlpReceiverNotReady")
    case True
    with assms show ?thesis
      by (cases "ev_retry_status E (falcon_rsn p) = FailedPreconditionError")
        (auto simp add: repeat_nack_def Let_def simp del: append.simps intro: retried rx_frame_trans [OF retried nack])
  next
    case False
    with assms show ?thesis unfolding repeat_nack_def Let_def
      by (cases "pm_nack_code m") (simp_all, (erule nack)+)
  qed
qed

lemma HandleDuplicateNackedPacket_rx_frame: "HandleDuplicateNackedPacket E p c = Inr (st, c') \<Longrightarrow> rx_frame c c'"
  unfolding HandleDuplicateNackedPacket_def res_elims by (auto intro: repeat_nack_rx_frame)

lemma incoming_beyond_rx_frame:
  assumes "incoming_beyond E p c = Inr c'"
  shows "rx_frame c c'"
proof -
  have oow: "acks_only c (on_rx r (\<lambda>w. w\<lparr>rxw_has_oow_drop := True\<rparr>) c)" for r by (simp add: acks_only_def)
  from assms show ?thesis
    by (auto simp: incoming_beyond_def Let_def split: if_splits
        intro: acks_only_rx_frame TransmitNACK_frame acks_only_trans [OF oow Generate_frame])
qed

lemma HandleIncomingPacket_state:
  fixes p q defines "q \<equiv> BelongsToRequestWindow (pkt_type p)"
  assumes st: "rx_state s R A c" and psn: "falcon_psn p = seq (s q) n"
    and near: "n < first_missing (A q) + 2 ^ 31" "first_missing (A q) < n + 2 ^ 31"
    and inc: "HandleIncomingPacket E p c = Inr (status, c')"
  defines "fits \<equiv> n < first_missing (A q) + nat (bm_size (rxw_receive_window (rw c q)))"
  shows "status = (if n \<in> R q then AlreadyExistsError else if \<not> fits then OutOfRangeError else ev_resource_status E p)"
    and "if n \<notin> R q \<and> fits \<and> ev_resource_status E p = OkStatus
      then rx_state s (R(q := insert n (R q))) (if is_push_data (pkt_type p) then A else A(q := insert n (A q))) c' \<and>
        awaiting c' \<subseteq>\<^sub>m (if is_push_data (pkt_type p) then (awaiting c)(falcon_rsn p \<mapsto> falcon_psn p) else awaiting c)
      else rx_frame c c'"
proof -
  let ?B = "first_missing (A q)"
  from inc obtain c1 where c1: "UpdateCongestionControlMetadataToReflect p c = Inr c1"
    unfolding HandleIncomingPacket_def res_bind_eq_Inr by blast
  note fr1 = acks_only_rx_frame [OF Update_frame [OF c1]]
  have view: "rx_view c1 = rx_view c" using fr1 by (simp add: rx_frame_def)
  have st1: "rx_state s R A c1" by (rule rx_state_frame [OF fr1 st])
  have abs: "rx_abs (s q) (R q) (A q) (rw c1 q)" using st1 by (simp add: rx_state_def)
  obtain W where sz: "bm_size (rxw_receive_window (rw c1 q)) = int W"
    using abs by (metis rx_abs_def less_imp_le nonneg_int_cases)
  have fits: "fits \<longleftrightarrow> n < ?B + W"
    using fun_cong [OF view, of q] sz by (simp add: fits_def rx_view_def rw_def [symmetric] Let_def)
  have W: "W \<le> 2 ^ 16" and base: "rxw_base (rw c1 q) = seq (s q) ?B" and R: "R q \<subseteq> {..<?B + W}" "A q \<subseteq> R q"
    using abs sz by (simp_all add: rx_abs_def)
  have low: "SeqLT (falcon_psn p) (rxw_base (rw c1 q)) \<longleftrightarrow> n < ?B" unfolding psn base by (rule SeqLT_nat [OF near])
  have high: "SeqGEQ (falcon_psn p) (rxw_base (rw c1 q) + word_of_int (bm_size (rxw_receive_window (rw c1 q)))) \<longleftrightarrow> \<not> fits"
    if "\<not> n < ?B"
  proof -
    have "rxw_base (rw c1 q) + word_of_int (bm_size (rxw_receive_window (rw c1 q))) = seq (s q) (?B + W)"
      unfolding base sz by simp
    then show ?thesis using that near W SeqGEQ_nat [of n "?B + W" "s q"] by (simp add: psn fits not_less)
  qed
  have body: "(if n < ?B
      then res_bind (GenerateAckOrUpdateCoalescingState E (falcon_ack_req p) 2 c1) (\<lambda>c2. Inr (AlreadyExistsError, c2))
      else if \<not> fits then res_bind (incoming_beyond E p c1) (\<lambda>c2. Inr (OutOfRangeError, c2))
      else if n \<in> R q then res_bind (GenerateAckOrUpdateCoalescingState E (falcon_ack_req p) 2 c1) (\<lambda>c2.
        res_bind (check_ok (HandleDuplicateNackedPacket E p c2)) (\<lambda>c3. Inr (AlreadyExistsError, c3)))
      else if ev_resource_status E p = OkStatus
      then res_bind (accept_packet E p (calls [ReserveIncoming p] c1)) (\<lambda>c3. Inr (OkStatus, c3))
      else res_bind (HandlePiggybackedACK E p (calls [ReserveIncoming p] c1)) (\<lambda>c3. Inr (ev_resource_status E p, c3)))
      = Inr (status, c')"
  proof -
    have "fb_Get (rxw_receive_window (rw c1 q)) (rx_index (rw c1 q) (falcon_psn p)) = Inr (n \<in> R q)" if "\<not> n < ?B" fits
    proof -
      have "rx_index (rw c1 q) (falcon_psn p) = int (n - ?B)"
        unfolding psn by (rule rx_index_abs [OF abs]) (use that sz in \<open>simp_all add: fits\<close>)
      moreover have "int (n - ?B) < bm_size (rxw_receive_window (rw c1 q))"
        unfolding sz of_nat_less_iff using that by (simp add: fits less_diff_conv2 add.commute)
      ultimately have "fb_Get (rxw_receive_window (rw c1 q)) (rx_index (rw c1 q) (falcon_psn p)) =
          Inr (n - ?B \<in> fbits (rxw_receive_window (rw c1 q)))"
        using abs by (metis fb_Get_total rx_abs_def)
      then show ?thesis using abs that(1) by (simp add: rx_abs_def)
    qed
    then show ?thesis using inc c1 high low
      by (simp add: HandleIncomingPacket_def GetAppropriateRxWindow_rw q_def [symmetric] Let_def split: if_split_asm)
  qed
  have R_cases: "n < ?B \<Longrightarrow> n \<in> R q \<and> fits" "\<not> fits \<Longrightarrow> n \<notin> R q"
    using R below_first_missing [of n "A q"] by (auto simp: fits)
  show "status = (if n \<in> R q then AlreadyExistsError else if \<not> fits then OutOfRangeError else ev_resource_status E p)"
    using body R_cases by (auto simp: res_bind_eq_Inr split: if_split_asm)
  show "if n \<notin> R q \<and> fits \<and> ev_resource_status E p = OkStatus
      then rx_state s (R(q := insert n (R q))) (if is_push_data (pkt_type p) then A else A(q := insert n (A q))) c' \<and>
        awaiting c' \<subseteq>\<^sub>m (if is_push_data (pkt_type p) then (awaiting c)(falcon_rsn p \<mapsto> falcon_psn p) else awaiting c)
      else rx_frame c c'"
  proof (cases "n \<notin> R q \<and> fits \<and> ev_resource_status E p = OkStatus")
    case True
    let ?c = "calls [ReserveIncoming p] c1"
    have fr2: "rx_frame c ?c" by (rule rx_frame_trans [OF fr1 rx_frame_updates(2)])
    have aw: "awaiting ?c \<subseteq>\<^sub>m awaiting c" using fr2 by (simp add: rx_frame_def)
    have "\<not> n < ?B" using True R_cases(1) by blast
    with body True have "accept_packet E p ?c = Inr c'" by (auto simp: res_bind_eq_Inr)
    moreover have "rw ?c q = rw c1 q" by (simp add: rw_def)
    ultimately show ?thesis
      using True accept_packet_state [OF rx_state_frame [OF fr2 st], of p n E c'] psn fits sz
        map_le_trans [OF _ aw] map_le_trans [OF _ map_le_upd [OF aw]]
      unfolding q_def [symmetric] by (cases "is_push_data (pkt_type p)") simp_all
  next
    case False
    have "rx_frame c1 c'"
      using body False R_cases
      by (auto simp: res_bind_eq_Inr check_ok_def split: if_split_asm
          intro: acks_only_rx_frame Generate_frame incoming_beyond_rx_frame
            rx_frame_trans [OF acks_only_rx_frame [OF Generate_frame] HandleDuplicateNackedPacket_rx_frame]
            rx_frame_trans [OF rx_frame_updates(2) HandlePiggybackedACK_rx_frame])
    then show ?thesis unfolding if_not_P [OF False] by (rule rx_frame_trans [OF fr1])
  qed
qed

section \<open>Acknowledgements of the upper layer\<close>

lemma awaiting_context_iff:
  "awaiting c rsn = Some psn \<longleftrightarrow> (\<exists>x. GetReceivedPacketContext c (rsn, kTarget) = Inr x \<and> is_push_data (rpc_type x) \<and> rpc_psn x = psn)"
  by (auto simp: awaiting_def GetReceivedPacketContext_def split: option.splits)

lemma prm_HandleAckFromUlp_state:
  assumes st: "rx_state s R A c" and aw: "awaiting c rsn = Some (seq (s False) n)" and n: "n \<in> R False" "n \<notin> A False"
    and ack: "prm_HandleAckFromUlp E rsn c = Inr (status, c')"
  shows "rx_state s R (A(False := insert n (A False))) c'" and "awaiting c' \<subseteq>\<^sub>m (awaiting c)(rsn := None)"
proof -
  obtain x where x: "GetReceivedPacketContext c (rsn, kTarget) = Inr x" "is_push_data (rpc_type x)" "rpc_psn x = seq (s False) n"
    using aw by (auto simp: awaiting_context_iff)
  let ?c = "c\<lparr>cn_state := (cn_state c)
     \<lparr>cs_received_packet_contexts := (cs_received_packet_contexts (cn_state c))((rsn, kTarget) := None),
      cs_transactions := (cs_transactions (cn_state c))((rsn, kTarget) := None)\<rparr>\<rparr>"
  have q: "\<not> BelongsToRequestWindow (rpc_type x)" "rpc_type x \<noteq> kPullRequest"
    using x(2) by (auto simp: is_push_data_def BelongsToRequestWindow_def)
  with ack x obtain c2 where c2: "UpdateReceiveAckBitmap False (seq (s False) n) ?c = Inr c2"
    and g: "acks_only c2 c'"
    by (auto simp: prm_HandleAckFromUlp_def Let_def res_bind_eq_Inr intro: Generate_frame)
  have "rw ?c r = rw c r" for r by (simp add: rw_def)
  with st have "rx_state s R A ?c" by (simp add: rx_state_def)
  note u = UpdateReceiveAckBitmap_state [OF this n c2]
  show "rx_state s R (A(False := insert n (A False))) c'" by (rule rx_state_acks [OF g u(1)])
  have "awaiting ?c \<subseteq>\<^sub>m (awaiting c)(rsn := None)" by (auto simp: map_le_def awaiting_def)
  then show "awaiting c' \<subseteq>\<^sub>m (awaiting c)(rsn := None)" using u(2) acks_only_awaiting [OF g] by simp
qed

section \<open>Runs of all handlers\<close>

text \<open>
  The handlers of the layer in any order, with the list \<open>acc\<close> of packets accepted so far (window and number, in
  the order of acceptance). Other components may change anything of the connection but its receive
  windows and received packet contexts between two handlers. Two assumptions on the outside: the number of an
  incoming packet is less than about $2^{31}$ away from the first packet not accepted yet, so that
  the 32-bit comparison is meaningful; and the upper layer acknowledges only what was delivered to it, a
  pull request or push data.
\<close>

abbreviation accepted :: "(bool \<times> nat) list \<Rightarrow> bool \<Rightarrow> nat set" where
  "accepted acc r \<equiv> {n. (r, n) \<in> set acc}"

inductive prm_run :: "(bool \<Rightarrow> u32) \<Rightarrow> connection \<Rightarrow> (bool \<times> nat) list \<Rightarrow> bool" for s where
  start: "rx_state s (\<lambda>_. {}) (\<lambda>_. {}) c \<Longrightarrow> awaiting c = Map.empty \<Longrightarrow> prm_run s c []"
| incoming: "prm_run s c acc \<Longrightarrow> q = BelongsToRequestWindow (pkt_type p) \<Longrightarrow> falcon_psn p = seq (s q) n \<Longrightarrow>
    n + 2 ^ 16 < first_missing (accepted acc q) + 2 ^ 31 \<Longrightarrow> first_missing (accepted acc q) < n + 2 ^ 31 \<Longrightarrow>
    HandleIncomingPacket E p c = Inr (status, c') \<Longrightarrow>
    prm_run s c' (acc @ (if status = OkStatus then [(q, n)] else []))"
| ulp_ack: "prm_run s c acc \<Longrightarrow> GetReceivedPacketContext c (rsn, kTarget) = Inr x \<Longrightarrow>
    is_push_data (rpc_type x) \<or> rpc_type x = kPullRequest \<Longrightarrow>
    prm_HandleAckFromUlp E rsn c = Inr (status, c') \<Longrightarrow> prm_run s c' acc"
| ulp_nack: "prm_run s c acc \<Longrightarrow> HandleNackFromUlp E key ulp c = Inr (status, c') \<Longrightarrow> prm_run s c' acc"
| ack: "prm_run s c acc \<Longrightarrow> HandleACK E p c = Inr (status, c') \<Longrightarrow> prm_run s c' acc"
| nack: "prm_run s c acc \<Longrightarrow> HandleNack E p c = Some (Inr (status, c')) \<Longrightarrow> prm_run s c' acc"
| rto: "prm_run s c acc \<Longrightarrow> HandleRetransmitTimeout E c = Inr c' \<Longrightarrow> prm_run s c' acc"
| rto_reduction: "prm_run s c acc \<Longrightarrow> HandleRtoReduction E c = Inr c' \<Longrightarrow> prm_run s c' acc"
| ack_timer: "prm_run s c acc \<Longrightarrow> HandleAckCoalescingTimeout E c = Inr c' \<Longrightarrow> prm_run s c' acc"
| transmit: "prm_run s c acc \<Longrightarrow> TransmitPacket floor_fdiv now E rsn type (g, c) = Inr (status, g', c') \<Longrightarrow> prm_run s c' acc"
| other: "prm_run s c acc \<Longrightarrow> rx_same c c' \<Longrightarrow>
    cs_received_packet_contexts (cn_state c') = cs_received_packet_contexts (cn_state c) \<Longrightarrow> prm_run s c' acc"

text \<open>What waits for the upper layer has been received and is not acknowledged, and no packet waits twice.\<close>

definition waiting_ok :: "u32 \<Rightarrow> nat set \<Rightarrow> (u32 \<rightharpoonup> u32) \<Rightarrow> bool" where
  "waiting_ok s X aw \<longleftrightarrow> ran aw \<subseteq> seq s ` X \<and> inj_on aw (dom aw)"

lemma waiting_ok_le: "waiting_ok s X aw \<Longrightarrow> aw' \<subseteq>\<^sub>m aw \<Longrightarrow> waiting_ok s X aw'"
  unfolding waiting_ok_def map_le_def inj_on_def ran_def by (smt (verit) domI domIff mem_Collect_eq subset_iff)

definition run_inv :: "(bool \<Rightarrow> u32) \<Rightarrow> connection \<Rightarrow> (bool \<times> nat) list \<Rightarrow> (bool \<Rightarrow> nat set) \<Rightarrow> bool" where
  "run_inv s c acc A \<longleftrightarrow> rx_state s (accepted acc) A c \<and> distinct acc \<and>
     waiting_ok (s False) (accepted acc False - A False) (awaiting c)"

lemma run_inv_frame: "rx_frame c c' \<Longrightarrow> run_inv s c acc A \<Longrightarrow> run_inv s c' acc A"
  unfolding run_inv_def using rx_state_frame waiting_ok_le by (auto simp: rx_frame_def)

lemma first_missing_mono: "A \<subseteq> R \<Longrightarrow> finite R \<Longrightarrow> first_missing A \<le> first_missing R"
  using below_first_missing [of "first_missing R" A] first_missing_notin [of R] by (meson not_less subsetD)

lemma rx_abs_first_missing:
  assumes "rx_abs s R A w"
  shows "first_missing A \<le> first_missing R" and "first_missing R \<le> first_missing A + 2 ^ 16"
proof -
  show "first_missing A \<le> first_missing R"
    using assms rx_abs_finite [OF assms] by (intro first_missing_mono) (auto simp: rx_abs_def)
  let ?m = "first_missing A + nat (bm_size (rxw_receive_window w))"
  have "?m \<notin> R" using assms by (auto simp: rx_abs_def)
  then have "first_missing R \<le> ?m" using below_first_missing [of ?m R] by (meson not_less)
  moreover have "nat (bm_size (rxw_receive_window w)) \<le> 2 ^ 16" using assms by (auto simp: rx_abs_def)
  ultimately show "first_missing R \<le> first_missing A + 2 ^ 16" by linarith
qed

lemma waiting_ok_insert:
  assumes "waiting_ok s X aw" and "\<And>m. m \<in> X \<Longrightarrow> seq s m \<noteq> seq s n"
  shows "waiting_ok s (insert n X) (aw(rsn \<mapsto> seq s n))"
proof -
  have "aw r \<noteq> Some (seq s n)" for r using assms by (fastforce simp: waiting_ok_def ran_def)
  with assms(1) show ?thesis by (auto simp: waiting_ok_def ran_def inj_on_def dom_def split: if_splits)
qed

lemma waiting_ok_remove:
  assumes "waiting_ok s X aw" and "aw rsn = Some (seq s n)"
  shows "waiting_ok s (X - {n}) (aw(rsn := None))"
proof -
  have "aw r \<noteq> Some (seq s n)" if "r \<noteq> rsn" for r
    using assms that by (auto simp: waiting_ok_def inj_on_def dom_def)
  moreover have "aw r = Some y \<Longrightarrow> \<exists>m \<in> X. y = seq s m" for r y using assms(1) by (auto simp: waiting_ok_def ran_def)
  ultimately show ?thesis using assms(1)
    by (auto simp: waiting_ok_def ran_def inj_on_def dom_def split: if_splits) blast
qed

lemma run_inv_incoming:
  fixes p q defines "q \<equiv> BelongsToRequestWindow (pkt_type p)"
  assumes inv: "run_inv s c acc A" and psn: "falcon_psn p = seq (s q) n"
    and near: "n + 2 ^ 16 < first_missing (accepted acc q) + 2 ^ 31" "first_missing (accepted acc q) < n + 2 ^ 31"
    and inc: "HandleIncomingPacket E p c = Inr (status, c')"
  shows "\<exists>A'. run_inv s c' (acc @ (if status = OkStatus then [(q, n)] else [])) A'"
proof -
  let ?R = "accepted acc" and ?B = "first_missing (A q)" and ?push = "is_push_data (pkt_type p)"
  let ?W = "nat (bm_size (rxw_receive_window (rw c q)))"
  have st: "rx_state s ?R A c" and d: "distinct acc" and w: "waiting_ok (s False) (?R False - A False) (awaiting c)"
    using inv by (simp_all add: run_inv_def)
  have abs: "rx_abs (s q) (?R q) (A q) (rw c q)" using st by (simp add: rx_state_def)
  note near' = near rx_abs_first_missing [OF abs]
  have near'': "n < ?B + 2 ^ 31" "?B < n + 2 ^ 31" using near' by simp_all
  note step = HandleIncomingPacket_state [OF st, of p n E status c', folded q_def, OF psn near'' inc]
  show ?thesis
  proof (cases "n \<notin> ?R q \<and> n < ?B + ?W \<and> ev_resource_status E p = OkStatus")
    case False
    with step have "rx_frame c c'" "status \<noteq> OkStatus" by (auto split: if_split_asm)
    with run_inv_frame [OF _ inv] show ?thesis by auto
  next
    case True
    let ?A = "if ?push then A else A(q := insert n (A q))" and ?R' = "?R(q := insert n (?R q))"
    from True step have ok: "status = OkStatus" and st': "rx_state s ?R' ?A c'"
      and aw: "awaiting c' \<subseteq>\<^sub>m (if ?push then (awaiting c)(falcon_rsn p \<mapsto> falcon_psn p) else awaiting c)" by auto
    have R': "accepted (acc @ [(q, n)]) = ?R'" by (auto simp: fun_eq_iff)
    have w': "waiting_ok (s False) (?R' False - ?A False) (awaiting c')"
    proof (cases ?push)
      case push: True
      then have q: "q = False" by (auto simp: q_def is_push_data_def BelongsToRequestWindow_def)
      have sub: "A False \<subseteq> ?R False" "?R False \<subseteq> {..<?B + ?W}" "?W \<le> 2 ^ 16" using abs q by (auto simp: rx_abs_def)
      have "seq (s False) m \<noteq> seq (s False) n" if "m \<in> ?R False - A False" for m
      proof
        assume "seq (s False) m = seq (s False) n"
        moreover have "?B \<le> m" "?B \<le> n" "m < ?B + ?W" "n < ?B + ?W"
          using that True sub q below_first_missing [of m "A q"] below_first_missing [of n "A q"] by (auto simp: not_less [symmetric])
        ultimately have "m = n" using sub(3) by (intro seq_inject) simp_all
        with that True q show False by simp
      qed
      from waiting_ok_insert [OF w this] have "waiting_ok (s False) (insert n (?R False - A False))
          ((awaiting c)(falcon_rsn p \<mapsto> falcon_psn p))" using psn q by simp
      moreover have "insert n (?R False - A False) = ?R' False - ?A False" using push True q sub(1) by auto
      ultimately show ?thesis using waiting_ok_le aw push by simp
    next
      case False
      have "?R' False - ?A False = ?R False - A False" using False True by auto
      with w waiting_ok_le aw False show ?thesis by simp
    qed
    have "run_inv s c' (acc @ [(q, n)]) ?A"
      unfolding run_inv_def fun_cong [OF R', of False] R' using st' d True w' by simp
    with ok show ?thesis by auto
  qed
qed

lemma run_inv_ulp_ack:
  assumes inv: "run_inv s c acc A" and x: "GetReceivedPacketContext c (rsn, kTarget) = Inr x"
      "is_push_data (rpc_type x) \<or> rpc_type x = kPullRequest"
    and ack: "prm_HandleAckFromUlp E rsn c = Inr (status, c')"
  shows "\<exists>A'. run_inv s c' acc A'"
proof (cases "is_push_data (rpc_type x)")
  case True
  have w: "waiting_ok (s False) (accepted acc False - A False) (awaiting c)" and st: "rx_state s (accepted acc) A c"
    and d: "distinct acc" using inv by (simp_all add: run_inv_def)
  have "awaiting c rsn = Some (rpc_psn x)" using x(1) True awaiting_context_iff by blast
  with w obtain n where n: "n \<in> accepted acc False" "n \<notin> A False" "awaiting c rsn = Some (seq (s False) n)"
    by (auto simp: waiting_ok_def ran_def)
  note step = prm_HandleAckFromUlp_state [OF st n(3,1,2) ack]
  let ?A = "A(False := insert n (A False))"
  have "accepted acc False - A False - {n} = accepted acc False - ?A False" by auto
  with waiting_ok_le [OF waiting_ok_remove [OF w n(3)] step(2)] step(1) d show ?thesis
    by (intro exI [of _ ?A]) (simp add: run_inv_def)
next
  case False
  with x ack have "c' = c" by (simp add: prm_HandleAckFromUlp_def)
  with inv show ?thesis by blast
qed

lemma prm_run_inv: "prm_run s c acc \<Longrightarrow> \<exists>A. run_inv s c acc A"
proof (induction rule: prm_run.induct)
  case (start c)
  then have "run_inv s c [] (\<lambda>_. {})" by (simp add: run_inv_def waiting_ok_def)
  then show ?case by blast
next
  case (incoming c acc q p n E status c')
  then obtain A where "run_inv s c acc A" by blast
  from run_inv_incoming [OF this incoming.hyps(3-6) [unfolded incoming.hyps(2)]] show ?case
    unfolding incoming.hyps(2) .
next
  case (ulp_ack c acc rsn x E status c')
  then show ?case using run_inv_ulp_ack by blast
next
  case (other c acc c')
  then have "rx_frame c c'" by (simp add: rx_frame_def rx_view_same [OF other(2)] awaiting_def [abs_def])
  with other show ?case using run_inv_frame by blast
qed (blast intro: run_inv_frame HandleNackFromUlp_rx_frame HandleACK_rx_frame HandleNack_rx_frame
    HandleRetransmitTimeout_rx_frame HandleRtoReduction_rx_frame HandleAckCoalescingTimeout_rx_frame
    TransmitPacket_rx_frame)+

section \<open>Properties\<close>

text \<open>
  C3. The receiver accepts each packet at most once, and its cumulative acknowledgement covers accepted packets
  only: in every run of all handlers of the sliding window layer, in any order and whatever packets arrive (lost,
  duplicated, reordered), no packet number of a window is accepted twice, and every number below the base of a
  window (which is what acknowledgements carry) has been accepted.
\<close>

theorem packets_accepted_once:
  assumes "prm_run s c acc"
  shows "distinct acc \<and> (\<forall>r. \<exists>B. rxw_base (rw c r) = seq (s r) B \<and> {r} \<times> {..<B} \<subseteq> set acc)"
proof -
  from prm_run_inv [OF assms] obtain A where "run_inv s c acc A" by blast
  then have d: "distinct acc" and abs: "rx_abs (s r) (accepted acc r) (A r) (rw c r)" for r
    by (simp_all add: run_inv_def rx_state_def)
  have "rxw_base (rw c r) = seq (s r) (first_missing (A r)) \<and> {r} \<times> {..<first_missing (A r)} \<subseteq> set acc" for r
    using abs [of r] below_first_missing [of _ "A r"] by (auto simp: rx_abs_def)
  with d show ?thesis by blast
qed

text \<open>
  C28. The decision on an incoming packet, at any point of a run: it is a duplicate exactly if its number was accepted
  before, out of range exactly if it is new and beyond the window that starts at the base, and otherwise the
  resource manager decides; so a new packet within the window is accepted as soon as there are resources.
\<close>

theorem incoming_packet_decision:
  assumes "prm_run s c acc" and "falcon_psn p = seq (s (BelongsToRequestWindow (pkt_type p))) n"
    and "n + 2 ^ 16 < first_missing (accepted acc (BelongsToRequestWindow (pkt_type p))) + 2 ^ 31"
    and "first_missing (accepted acc (BelongsToRequestWindow (pkt_type p))) < n + 2 ^ 31"
    and "HandleIncomingPacket E p c = Inr (status, c')"
  shows "\<exists>B. rxw_base (GetAppropriateRxWindow c (pkt_type p)) = seq (s (BelongsToRequestWindow (pkt_type p))) B \<and>
    status = (if (BelongsToRequestWindow (pkt_type p), n) \<in> set acc then AlreadyExistsError
      else if B + nat (bm_size (rxw_receive_window (GetAppropriateRxWindow c (pkt_type p)))) \<le> n then OutOfRangeError
      else ev_resource_status E p)"
proof -
  let ?q = "BelongsToRequestWindow (pkt_type p)"
  from prm_run_inv [OF assms(1)] obtain A where "run_inv s c acc A" by blast
  then have st: "rx_state s (accepted acc) A c" and abs: "rx_abs (s ?q) (accepted acc ?q) (A ?q) (rw c ?q)"
    by (simp_all add: run_inv_def rx_state_def)
  have near: "n < first_missing (A ?q) + 2 ^ 31" "first_missing (A ?q) < n + 2 ^ 31"
    using assms(3,4) rx_abs_first_missing [OF abs] by linarith+
  have "rxw_base (rw c ?q) = seq (s ?q) (first_missing (A ?q))" using abs by (simp add: rx_abs_def)
  with HandleIncomingPacket_state(1) [OF st assms(2) near assms(5)] show ?thesis
    unfolding GetAppropriateRxWindow_rw by (intro exI [of _ "first_missing (A ?q)"]) (auto simp: not_less)
qed

text \<open>A pull request arrives at a fresh connection and is accepted; it arrives again and is a duplicate.\<close>

definition example_receiver :: connection where
  "example_receiver = put_entry \<lparr>ace_forward_hops = 0, ace_timestamp_1 = ZeroDuration, ace_timestamp_2 = ZeroDuration,
     ace_flow_label = 0, ace_coalescing_counter_threshold = 10, ace_coalescing_timeout_threshold = Finite 40,
     ace_coalescing_counter = 0, ace_timer_trigger_time = ZeroDuration\<rparr> example_connection"

definition example_pull_request :: packet where
  "example_pull_request = packet_default\<lparr>pkt_type := kPullRequest, falcon_rsn := 9\<rparr>"

lemma case_resE:
  assumes "case m of Inl e \<Rightarrow> False | Inr (a, b) \<Rightarrow> P a b"
  obtains a b where "m = Inr (a, b)" "P a b"
  using assms by (auto split: sum.split_asm)

lemma example_accepts:
  "\<exists>c c'. HandleIncomingPacket (example_env 3) example_pull_request example_receiver = Inr (OkStatus, c) \<and>
     HandleIncomingPacket (example_env 4) example_pull_request c = Inr (AlreadyExistsError, c')"
proof -
  have "case HandleIncomingPacket (example_env 3) example_pull_request example_receiver of Inl _ \<Rightarrow> False
    | Inr (st, c) \<Rightarrow> st = OkStatus \<and> (case HandleIncomingPacket (example_env 4) example_pull_request c of Inl _ \<Rightarrow> False
      | Inr (st', c') \<Rightarrow> st' = AlreadyExistsError)" by code_simp
  then show ?thesis by (blast elim: case_resE)
qed

lemma first_missing_empty [simp]: "first_missing {} = 0"
  by (rule first_missing_eq) simp_all

lemma example_receiver_start: "prm_run (\<lambda>_. 0) example_receiver []"
proof (rule prm_run.start)
  show "rx_state (\<lambda>_. 0) (\<lambda>_. {}) (\<lambda>_. {}) example_receiver"
    by (auto simp: rx_state_def rx_abs_def rw_def example_receiver_def put_entry_def example_connection_def
        example_rx_window_def FalconBitmap_new_ok) (simp_all add: FalconBitmap_new_def)
  show "awaiting example_receiver = Map.empty"
    by (simp add: fun_eq_iff awaiting_def example_receiver_def put_entry_def example_connection_def ConnectionState_new_def)
qed

lemma example_receiver_run:
  "\<exists>c. prm_run (\<lambda>_. 0) c [(True, 0)] \<and>
     (\<exists>c'. HandleIncomingPacket (example_env 4) example_pull_request c = Inr (AlreadyExistsError, c'))"
proof -
  obtain c c' where c: "HandleIncomingPacket (example_env 3) example_pull_request example_receiver = Inr (OkStatus, c)"
    "HandleIncomingPacket (example_env 4) example_pull_request c = Inr (AlreadyExistsError, c')"
    using example_accepts by blast
  have "prm_run (\<lambda>_. 0) c ([] @ (if OkStatus = OkStatus then [(True, 0)] else []))"
    by (rule prm_run.incoming [OF example_receiver_start _ _ _ _ c(1)])
      (simp_all add: example_pull_request_def packet_default_def BelongsToRequestWindow_def)
  with c(2) show ?thesis by auto
qed

theorem packets_accepted_once_witness:
  "\<exists>c B. prm_run (\<lambda>_. 0) c [(True, 0)] \<and> rxw_base (rw c True) = seq 0 B \<and> {True} \<times> {..<B} \<subseteq> {(True, 0)}"
proof -
  obtain c where c: "prm_run (\<lambda>_. 0) c [(True, 0)]" using example_receiver_run by blast
  from packets_accepted_once [OF c] show ?thesis using c by auto
qed

theorem incoming_packet_decision_witness:
  "\<exists>c c' B status. prm_run (\<lambda>_. 0) c [(True, 0)] \<and>
     HandleIncomingPacket (example_env 4) example_pull_request c = Inr (status, c') \<and>
     rxw_base (cn_rx_request c) = seq 0 B \<and> status = AlreadyExistsError"
proof -
  obtain c c' where c: "prm_run (\<lambda>_. 0) c [(True, 0)]"
    "HandleIncomingPacket (example_env 4) example_pull_request c = Inr (AlreadyExistsError, c')"
    using example_receiver_run by blast
  have p: "pkt_type example_pull_request = kPullRequest" "falcon_psn example_pull_request = 0"
    by (simp_all add: example_pull_request_def packet_default_def)
  have "first_missing {0} = 1" by (rule first_missing_eq) auto
  with incoming_packet_decision [OF c(1), of example_pull_request 0, OF _ _ _ c(2)] c show ?thesis
    by (auto simp: p BelongsToRequestWindow_def GetAppropriateRxWindow_def)
qed

end
