(* ===== verification/Reliability_Delivery.thy ===== *)
theory Reliability_Delivery
  imports Reliability_Receive
begin

text \<open>
  The two ends together: what the acknowledgement windows of a receiver say, through an ACK packet of the coalescing
  engine, to the transmit windows of the sender.
\<close>

section \<open>Acknowledgements from the receiver to the sender\<close>

lemma TransmitACK_packet:
  assumes "TransmitACK E c = Inr c'"
  shows "\<exists>p. cn_calls c' = cn_calls c @ [EnqueueAckNack p] \<and>
    ack_rrbpsn (pkt_ack p) = rxw_base (cn_rx_request c) \<and> ack_rdbpsn (pkt_ack p) = rxw_base (cn_rx_data c) \<and>
    (if needs_eack E c
     then ack_type (pkt_ack p) = kAckEack \<and>
       ack_receiver_request_bitmap (pkt_ack p) = fb_assign (FalconBitmap_new 128 64) (rxw_ack_window (cn_rx_request c)) \<and>
       ack_receiver_data_bitmap (pkt_ack p) = fb_assign (FalconBitmap_new 128 128) (rxw_ack_window (cn_rx_data c))
     else ack_type (pkt_ack p) = kAckPlain \<and> ack_receiver_request_bitmap (pkt_ack p) = FalconBitmap_new 128 64 \<and>
       ack_receiver_data_bitmap (pkt_ack p) = FalconBitmap_new 128 128)"
proof -
  from assms obtain e p c2 where
    p: "CreateExplicitAckOrEack E e ((put_entry e c)\<lparr>cn_implicitly_acked_counter := 0\<rparr>) = (p, c2)"
    and c': "c' = calls [EnqueueAckNack p] c2"
    by (auto simp: TransmitACK_def Let_def res_bind_eq_Inr case_prod_unfold) (metis prod.collapse)
  have n: "needs_eack E ((put_entry e c)\<lparr>cn_implicitly_acked_counter := 0\<rparr>) = needs_eack E c"
    by (simp add: needs_eack_def put_entry_def)
  note fields = CreateExplicitAckOrEack_def Let_def FillInBaseAckFields_def
    PopulateAckWithCongestionControlMetadataToReflect_def FillInAckBitmaps_def packet_default_def ack_default_def
    put_entry_def clear_oow_drops_def on_rx_def
  show ?thesis
  proof (cases "needs_eack E c")
    case True
    with p n show ?thesis unfolding c' by (intro exI [of _ p]) (auto simp: fields)
  next
    case False
    with p n show ?thesis unfolding c' by (intro exI [of _ p]) (auto simp: fields)
  qed
qed

text \<open>Receive windows as the ACK header can carry them: 64 requests, 128 data packets, in bitmaps of 128 bits.\<close>

definition header_sized :: "connection \<Rightarrow> bool" where
  "header_sized c \<longleftrightarrow> bm_size (rxw_ack_window (rw c True)) = 64 \<and> bm_size (rxw_ack_window (rw c False)) = 128 \<and>
     (\<forall>r. length (bm_bits (rxw_ack_window (rw c r))) = 128)"

lemma empty_fbits: "fb_Empty b \<longleftrightarrow> fbits b = {}"
  by (auto simp: fb_Empty_def fbits_def list_all_length)

lemma ack_bitmap_reports:
  assumes ack: "TransmitACK E d = Inr d'" and p: "cn_calls d' = cn_calls d @ [EnqueueAckNack p]"
    and abs: "rx_state s R A d" and sized: "header_sized d"
  shows "ack_rrbpsn (pkt_ack p) = seq (s True) (first_missing (A True))"
    and "ack_rdbpsn (pkt_ack p) = seq (s False) (first_missing (A False))"
    and "ack_bitmaps_ok p" and "{..<first_missing (A r)} \<union> selected p r (first_missing (A r)) = A r"
proof -
  note tr = TransmitACK_packet [OF ack, unfolded p]
  have a: "rx_abs (s r) (R r) (A r) (rw d r)" for r using abs by (simp add: rx_state_def)
  then have base: "rxw_base (rw d r) = seq (s r) (first_missing (A r))"
    and bits: "fbits (rxw_ack_window (rw d r)) = {i. first_missing (A r) + i \<in> A r}"
    and okw: "fb_ok (rxw_ack_window (rw d r))" for r by (simp_all add: rx_abs_def)
  show "ack_rrbpsn (pkt_ack p) = seq (s True) (first_missing (A True))"
    and "ack_rdbpsn (pkt_ack p) = seq (s False) (first_missing (A False))"
    using tr base [of True] base [of False] by (auto simp: rw_def)
  have new: "fb_ok (FalconBitmap_new 128 64)" "fb_ok (FalconBitmap_new 128 128)" by (simp_all add: FalconBitmap_new_ok)
  have sz: "bm_size (FalconBitmap_new 128 64) = 64" "bm_size (FalconBitmap_new 128 128) = 128"
    "length (bm_bits (FalconBitmap_new 128 n)) = 128" for n by (simp_all add: FalconBitmap_new_def)
  have assigned: "fb_assign (FalconBitmap_new 128 64) (rxw_ack_window (cn_rx_request d)) = rxw_ack_window (cn_rx_request d)"
    "fb_assign (FalconBitmap_new 128 128) (rxw_ack_window (cn_rx_data d)) = rxw_ack_window (cn_rx_data d)"
    using sized by (simp_all add: fb_assign_def FalconBitmap_new_def header_sized_def rw_def)
  show "ack_bitmaps_ok p"
    using tr okw [of True] okw [of False] new sz sized unfolding ack_bitmaps_ok_def assigned
    by (auto simp: header_sized_def rw_def split: if_split_asm)
  show "{..<first_missing (A r)} \<union> selected p r (first_missing (A r)) = A r"
  proof (cases "needs_eack E d")
    case True
    then have "selected p r b = {n \<in> {b..}. n - b \<in> fbits (rxw_ack_window (rw d r))}" for b
      using tr by (auto simp: selected_def assigned rw_def)
    then show ?thesis using below_first_missing [of _ "A r"] by (auto simp: bits not_le [symmetric])
  next
    case False
    then have "selected p r b = {}" for b using tr by (auto simp: selected_def)
    moreover have "fbits (rxw_ack_window (rw d r)) = {}"
      using False by (cases r) (auto simp: needs_eack_def empty_fbits rw_def Let_def)
    then have "n \<notin> A r" if "first_missing (A r) \<le> n" for n
      using that bits [of r] le_Suc_ex [OF that] by auto
    ultimately show ?thesis using below_first_missing [of _ "A r"] by (auto simp: not_le [symmetric])
  qed
qed

section \<open>Properties\<close>

text \<open>
  C4. The acknowledgement round trip: let a receiver have acknowledged the packets \<open>A\<close> of each window, and let the ACK
  packet it builds (plain or E-ACK, whichever the coalescing engine chooses) reach a sender that knows of the
  acknowledged packets \<open>D\<close>, neither side more than $2^{31}$ packets ahead. Unless the ACK is stale, which changes
  nothing, the sender afterwards knows of exactly \<open>D \<union> A\<close> and its window starts at the first packet that the receiver
  has not acknowledged: nothing the receiver acknowledged is lost, nothing else is taken for acknowledged.
\<close>

theorem ack_round_trip:
  assumes "rx_state s R A d" and "header_sized d"
    and "TransmitACK E d = Inr d'" and "cn_calls d' = cn_calls d @ [EnqueueAckNack p]"
    and "\<forall>r. tx_abs (s r) (B r) (N r) (D r) (GetAppropriateTxWindow c r)"
    and "\<forall>r. first_missing (A r) < B r + 2 ^ 31 \<and> B r < first_missing (A r) + 2 ^ 31"
    and "HandleACK E' p c = Inr (st, c')"
  shows "if \<exists>r. first_missing (A r) < B r then st = AlreadyExistsError \<and> c' = c
    else st = OkStatus \<and> (\<forall>r. A r \<subseteq> {..<N r} \<and>
      tx_abs (s r) (first_missing (A r)) (N r) (D r \<union> A r) (GetAppropriateTxWindow c' r))"
proof -
  note p = ack_bitmap_reports [OF assms(3,4,1,2)]
  have abs: "tx_abs (s r) (B r) (N r) (D r) (tw c r)" for r using assms(5) by simp
  show ?thesis
  proof (cases "\<exists>r. first_missing (A r) < B r")
    case True
    with assms(6,7) p(1,2) stale_ack_abs [of s B N D c "\<lambda>r. first_missing (A r)", OF abs] show ?thesis
      by (simp add: HandleACK_def Let_def)
  next
    case False
    then have near: "first_missing (A r) < B r + 2 ^ 31 \<and> B r \<le> first_missing (A r)" for r
      using assms(6) by (simp add: not_less)
    note ref = HandleACK_refines [OF abs p(1,2) near p(3) assms(7)]
    show ?thesis unfolding if_not_P [OF False] using ref(1-3) by (simp add: p(4) Un_assoc)
  qed
qed

text \<open>The receiver of a pull request acknowledges it to its sender.\<close>

definition example_target :: connection where
  "example_target = example_receiver\<lparr>cn_rx_request := (example_rx_window 64)\<lparr>rxw_base := 1\<rparr>\<rparr>"

lemma first_missing_0 [simp]: "first_missing {0} = 1"
  by (rule first_missing_eq) auto

lemma example_target_state:
  "rx_state (\<lambda>_. 0) (\<lambda>r. if r then {0} else {}) (\<lambda>r. if r then {0} else {}) example_target" "header_sized example_target"
proof -
  have w: "rw example_target True = (example_rx_window 64)\<lparr>rxw_base := 1\<rparr>" "rw example_target False = example_rx_window 128"
    by (simp_all add: rw_def example_target_def example_receiver_def put_entry_def example_connection_def)
  have n: "bm_size (FalconBitmap_new 128 k) = k" "length (bm_bits (FalconBitmap_new 128 k)) = 128" for k
    by (simp_all add: FalconBitmap_new_def)
  show "rx_state (\<lambda>_. 0) (\<lambda>r. if r then {0} else {}) (\<lambda>r. if r then {0} else {}) example_target"
    unfolding rx_state_def all_bool_eq w by (simp add: rx_abs_def example_rx_window_def n FalconBitmap_new_ok)
  show "header_sized example_target"
    unfolding header_sized_def all_bool_eq w by (simp add: example_rx_window_def n)
qed

lemma example_round_trip:
  "\<exists>d' p c'. TransmitACK (example_env 3) example_target = Inr d' \<and> cn_calls d' = cn_calls example_target @ [EnqueueAckNack p] \<and>
     HandleACK (example_env 9) p example_pull_sent = Inr (OkStatus, c')"
proof -
  obtain d' p where d: "TransmitACK (example_env 3) example_target = Inr d'" "cn_calls d' = cn_calls example_target @ [EnqueueAckNack p]"
    using TransmitACK_total [of example_target] TransmitACK_packet
    by (fastforce simp: example_target_def example_receiver_def put_entry_def)
  have "case TransmitACK (example_env 3) example_target of Inl _ \<Rightarrow> False
    | Inr d \<Rightarrow> (case last (cn_calls d) of EnqueueAckNack p \<Rightarrow>
        (case HandleACK (example_env 9) p example_pull_sent of Inl _ \<Rightarrow> False | Inr (st, c) \<Rightarrow> st = OkStatus) | _ \<Rightarrow> False)"
    by code_simp
  with d show ?thesis by (auto elim!: case_resE)
qed

theorem ack_round_trip_witness:
  "\<exists>d' p c'. TransmitACK (example_env 3) example_target = Inr d' \<and>
     HandleACK (example_env 9) p example_pull_sent = Inr (OkStatus, c') \<and>
     tx_abs 0 1 1 {0} (GetAppropriateTxWindow c' True)"
proof -
  obtain d' p c' where d: "TransmitACK (example_env 3) example_target = Inr d'"
    "cn_calls d' = cn_calls example_target @ [EnqueueAckNack p]" "HandleACK (example_env 9) p example_pull_sent = Inr (OkStatus, c')"
    using example_round_trip by blast
  let ?A = "\<lambda>r. if r then {0 :: nat} else {}" and ?N = "\<lambda>r. if r then 1 else 0 :: nat"
  have abs: "\<forall>r. tx_abs 0 0 (?N r) {} (tw example_pull_sent r)" using example_pull_sent_abs by blast
  have near: "\<forall>r. first_missing (?A r) < 0 + 2 ^ 31 \<and> 0 < first_missing (?A r) + 2 ^ 31" by simp
  from ack_round_trip [OF example_target_state d(1,2), where B = "\<lambda>_. 0", OF abs near d(3)]
  have "\<forall>r. tx_abs 0 (first_missing (?A r)) (?N r) ({} \<union> ?A r) (tw c' r)" by simp
  from spec [OF this, of True] d(1,3) show ?thesis by auto
qed

end
