(* ===== verification/Scheduler_Host.thy ===== *)
theory Scheduler_Host
  imports Admission_Control Reliability_Tx WRR_Policy
begin

text \<open>
  The state that the three transmit schedulers of a host share, and the recomputation of transmission eligibility:
  \<^verbatim>\<open>connection_scheduler_types\<close>, \<^verbatim>\<open>gating_variable.h\<close>, and \<^verbatim>\<open>RecomputeEligibility\<close> of
  \<^verbatim>\<open>connection_scheduler.cc\<close> and \<^verbatim>\<open>retransmission_scheduler.cc\<close>.

  A host holds its connections (the connection contexts with their windows, and the operation rate limit of each), the
  shared state of the sliding window layer, the admission control manager and the schedulers. The gating function that
  \<^verbatim>\<open>connection_state_manager.cc\<close> installs on every gating variable of a connection is \<open>gate\<close>. Calls
  that leave the host part (arbiter, event queue, statistics) are listed in \<open>fh_calls\<close> in their order.
  Queueing delay statistics and counters of the statistics manager are left out.
\<close>

section \<open>Queues of the connection scheduler\<close>

datatype packet_type_queue = kPullAndOrderedPushRequest | kUnorderedPushRequest | kPushDataQ | kPushGrantQ | kPullDataQ

fun ptq_rank :: "packet_type_queue \<Rightarrow> nat" where
  "ptq_rank kPullAndOrderedPushRequest = 0"
| "ptq_rank kUnorderedPushRequest = 1"
| "ptq_rank kPushDataQ = 2"
| "ptq_rank kPushGrantQ = 3"
| "ptq_rank kPullDataQ = 4"

lemma ptq_rank_inject: "ptq_rank a = ptq_rank b \<Longrightarrow> a = b"
  by (cases a; cases b) simp_all

text \<open>The policy keeps the queue types in the order of their values.\<close>

instantiation packet_type_queue :: linorder
begin

definition less_eq_packet_type_queue :: "packet_type_queue \<Rightarrow> packet_type_queue \<Rightarrow> bool" where
  "less_eq_packet_type_queue a b \<longleftrightarrow> ptq_rank a \<le> ptq_rank b"

definition less_packet_type_queue :: "packet_type_queue \<Rightarrow> packet_type_queue \<Rightarrow> bool" where
  "less_packet_type_queue a b \<longleftrightarrow> ptq_rank a < ptq_rank b"

instance
  by standard (auto simp: less_eq_packet_type_queue_def less_packet_type_queue_def dest: ptq_rank_inject)

end

definition kQueueTypes :: "packet_type_queue list" where
  "kQueueTypes = [kPullAndOrderedPushRequest, kUnorderedPushRequest, kPushDataQ, kPushGrantQ, kPullDataQ]"

lemma kQueueTypes_all: "q \<in> set kQueueTypes"
  by (cases q) (simp_all add: kQueueTypes_def)

lemma kQueueTypes_distinct: "distinct kQueueTypes"
  by (simp add: kQueueTypes_def)

record work_id =
  wk_rsn :: u32
  wk_type :: packet_type

type_synonym sched_queues = "packet_type_queue \<Rightarrow> work_id list"

definition queues_Enqueue :: "packet_type_queue \<Rightarrow> work_id \<Rightarrow> sched_queues \<Rightarrow> sched_queues" where
  "queues_Enqueue q w qs = qs(q := qs q @ [w])"

definition queues_Peek :: "packet_type_queue \<Rightarrow> sched_queues \<Rightarrow> work_id res" where
  "queues_Peek q qs = check (qs q \<noteq> []) (Inr (hd (qs q)))"

definition queues_Pop :: "packet_type_queue \<Rightarrow> sched_queues \<Rightarrow> sched_queues res" where
  "queues_Pop q qs = check (qs q \<noteq> []) (Inr (qs(q := tl (qs q))))"

definition queues_GetSize :: "packet_type_queue \<Rightarrow> sched_queues \<Rightarrow> u32" where
  "queues_GetSize q qs = of_nat (length (qs q))"

section \<open>The host\<close>

record connection_scheduler =
  csc_pkt_count :: "packet_type_queue \<Rightarrow> u64"
  csc_packet_type_policy :: "packet_type_queue wrr"
  csc_connection_policy :: "packet_type_queue \<Rightarrow> u32 wrr"
  csc_phantom_policy :: "u32 wrr"
  csc_ordered_push_policy :: "u32 wrr"
  csc_queues :: "u32 \<rightharpoonup> sched_queues"
  csc_last_push_unsolicited_data_rsn :: u32
  csc_sent_out_push_unsolicited_data :: bool

datatype window_type_queue = kRequestWindow | kDataWindow

record retransmission_scheduler =
  rsc_policy :: "u32 wrr"
  rsc_next_window_type :: "u32 \<rightharpoonup> window_type_queue"

record host_connection =
  hc_conn :: connection
  hc_is_op_rate_limited :: int
  hc_last_packet_send_time :: duration

datatype host_call =
    ScheduleArbiter                  \<comment> \<open>\<^verbatim>\<open>ScheduleSchedulerArbiter()\<close>\<close>
  | ScheduleOpRateEvent u32          \<comment> \<open>\<^verbatim>\<open>ScheduleEvent(kPerConnectionInterOpGap, ...)\<close>\<close>
  | UpdateMaxRsnDistance u32 u32

record falcon_host =
  fh_connections :: "u32 \<rightharpoonup> host_connection"
  fh_prm :: prm_shared
  fh_admission :: admission
  fh_sched :: connection_scheduler
  fh_retx :: retransmission_scheduler
  fh_calls :: "host_call list"

text \<open>The configuration, the time, and the answer of \<^verbatim>\<open>falcon_->CanSendPacket()\<close> (flow control of the packet builder).\<close>

record host_env =
  he_prm :: prm_env
  he_admission :: ac_config
  he_floor_fdiv :: "int \<Rightarrow> int \<Rightarrow> int"
  he_now :: int
  he_can_send :: bool

definition host_lookup :: "falcon_host \<Rightarrow> u32 \<Rightarrow> host_connection res" where
  "host_lookup h scid = (case fh_connections h scid of Some x \<Rightarrow> Inr x | None \<Rightarrow> Inl CheckFailed)"

definition put_connection :: "u32 \<Rightarrow> connection \<Rightarrow> falcon_host \<Rightarrow> falcon_host" where
  "put_connection scid c h =
     h\<lparr>fh_connections := (fh_connections h)(scid := map_option (hc_conn_update (\<lambda>_. c)) (fh_connections h scid))\<rparr>"

definition states_of :: "falcon_host \<Rightarrow> u32 \<rightharpoonup> connection_state" where
  "states_of h = (\<lambda>scid. map_option (\<lambda>x. cn_state (hc_conn x)) (fh_connections h scid))"

definition put_states :: "(u32 \<rightharpoonup> connection_state) \<Rightarrow> falcon_host \<Rightarrow> falcon_host" where
  "put_states f h = h\<lparr>fh_connections := (\<lambda>scid. case (f scid, fh_connections h scid) of
     (Some s, Some x) \<Rightarrow> Some (x\<lparr>hc_conn := (hc_conn x)\<lparr>cn_state := s\<rparr>\<rparr>) | _ \<Rightarrow> fh_connections h scid)\<rparr>"

abbreviation host_calls :: "host_call list \<Rightarrow> falcon_host \<Rightarrow> falcon_host" where
  "host_calls cs h \<equiv> h\<lparr>fh_calls := fh_calls h @ cs\<rparr>"

definition set_sched :: "connection_scheduler \<Rightarrow> falcon_host \<Rightarrow> falcon_host" where
  "set_sched s h = h\<lparr>fh_sched := s\<rparr>"

text \<open>\<^verbatim>\<open>connection_queues_[scid]\<close> creates empty queues for an unknown connection.\<close>

definition queues_of :: "connection_scheduler \<Rightarrow> u32 \<Rightarrow> sched_queues" where
  "queues_of s scid = (case csc_queues s scid of Some qs \<Rightarrow> qs | None \<Rightarrow> (\<lambda>_. []))"

section \<open>Eligibility of first transmissions\<close>

definition mark :: "bool \<Rightarrow> 'a::linorder \<Rightarrow> 'a wrr \<Rightarrow> 'a wrr res" where
  "mark active x p = res_bind (if active then MarkEntityActive x p else MarkEntityInactive x p) (\<lambda>(_, p'). Inr p')"

definition mark_queue :: "bool \<Rightarrow> u32 \<Rightarrow> packet_type_queue \<Rightarrow> connection_scheduler \<Rightarrow> connection_scheduler res" where
  "mark_queue active scid q s =
     res_bind (mark active scid (csc_connection_policy s q)) (\<lambda>p.
       Inr (s\<lparr>csc_connection_policy := (csc_connection_policy s)(q := p)\<rparr>))"

definition mark_phantom :: "bool \<Rightarrow> u32 \<Rightarrow> connection_scheduler \<Rightarrow> connection_scheduler res" where
  "mark_phantom active scid s =
     res_bind (mark active scid (csc_phantom_policy s)) (\<lambda>p. Inr (s\<lparr>csc_phantom_policy := p\<rparr>))"

definition mark_ordered_push :: "bool \<Rightarrow> u32 \<Rightarrow> connection_scheduler \<Rightarrow> connection_scheduler res" where
  "mark_ordered_push active scid s =
     res_bind (mark active scid (csc_ordered_push_policy s)) (\<lambda>p. Inr (s\<lparr>csc_ordered_push_policy := p\<rparr>))"

text \<open>A packet at the head of the push data queue must have become eligible (by a grant or a phantom request).\<close>

definition head_eligible :: "connection \<Rightarrow> packet_type_queue \<Rightarrow> work_id \<Rightarrow> bool res" where
  "head_eligible c q w =
     (if q = kPushDataQ
      then res_bind (lookup_packet c (wk_rsn w) (wk_type w)) (\<lambda>(t, m). Inr (pm_is_transmission_eligible m))
      else Inr True)"

text \<open>The body of the loop over the queue types of a connection.\<close>

definition recompute_criteria ::
  "host_env \<Rightarrow> u32 \<Rightarrow> connection \<Rightarrow> packet_type_queue \<Rightarrow> work_id \<Rightarrow> connection_scheduler \<Rightarrow> connection_scheduler res" where
  "recompute_criteria E scid c q w s =
     res_bind (head_eligible c q w) (\<lambda>is_packet_eligible.
     res_bind (MeetsInitialTransmissionCCTxGatingCriteria (wk_type w) c) (\<lambda>meets_cc.
     let meets_oow = MeetsInitialTransmissionOowTxGatingCriteria (he_prm E) (wk_type w) c in
     res_bind (mark_queue (is_packet_eligible \<and> meets_cc \<and> meets_oow) scid q s) (\<lambda>s1.
       if q = kPullAndOrderedPushRequest
       then mark_ordered_push (wk_type w = kPushRequest \<and> meets_cc \<and> meets_oow) scid s1
       else Inr s1)))"

definition recompute_queue ::
  "host_env \<Rightarrow> u32 \<Rightarrow> host_connection \<Rightarrow> packet_type_queue \<Rightarrow> connection_scheduler \<Rightarrow> connection_scheduler res" where
  "recompute_queue E scid x q s =
     (case queues_of s scid q of
        [] \<Rightarrow> res_bind (mark_queue False scid q s) (\<lambda>s1.
                if q = kPullAndOrderedPushRequest
                then res_bind (mark_phantom False scid s1) (mark_ordered_push False scid)
                else Inr s1)
      | w # _ \<Rightarrow>
          if q = kPullAndOrderedPushRequest \<and> wk_type w = kInvalid
          then res_bind (mark_queue True scid q s) (mark_phantom True scid)
          else res_bind (if q = kPullAndOrderedPushRequest then mark_phantom False scid s else Inr s) (\<lambda>s1.
               if hc_is_op_rate_limited x \<noteq> 0 then mark_queue False scid q s1
               else recompute_criteria E scid (hc_conn x) q w s1))"

fun recompute_queues ::
  "host_env \<Rightarrow> u32 \<Rightarrow> host_connection \<Rightarrow> packet_type_queue list \<Rightarrow> connection_scheduler \<Rightarrow> connection_scheduler res" where
  "recompute_queues E scid x [] s = Inr s"
| "recompute_queues E scid x (q # qs) s = res_bind (recompute_queue E scid x q s) (recompute_queues E scid x qs)"

definition kMaxRequestLength :: u64 where
  "kMaxRequestLength = 4200"

text \<open>
  \<^verbatim>\<open>ComputePacketTypeWeight\<close>: the ceiling of the packet count over 64. The division in double
  precision is exact for counts below \<open>2 ^ 53\<close>.
\<close>

definition ComputePacketTypeWeight :: "connection_scheduler \<Rightarrow> packet_type_queue \<Rightarrow> int" where
  "ComputePacketTypeWeight s q = (uint (csc_pkt_count s q) + 63) div 64"

text \<open>The work that the two auxiliary policies report; asking may start a new round of a policy.\<close>

definition ordered_push_HasWork :: "connection_scheduler \<Rightarrow> (bool \<times> connection_scheduler) res" where
  "ordered_push_HasWork s =
     res_bind (HasWork None (csc_ordered_push_policy s)) (\<lambda>(b, p). Inr (b, s\<lparr>csc_ordered_push_policy := p\<rparr>))"

definition phantom_HasWork :: "connection_scheduler \<Rightarrow> (bool \<times> connection_scheduler) res" where
  "phantom_HasWork s =
     res_bind (HasWork None (csc_phantom_policy s)) (\<lambda>(b, p). Inr (b, s\<lparr>csc_phantom_policy := p\<rparr>))"

definition queue_HasWork :: "packet_type_queue \<Rightarrow> connection_scheduler \<Rightarrow> (bool \<times> connection_scheduler) res" where
  "queue_HasWork q s =
     res_bind (HasWork None (csc_connection_policy s q)) (\<lambda>(b, p).
       Inr (b, s\<lparr>csc_connection_policy := (csc_connection_policy s)(q := p)\<rparr>))"

definition packet_type_HasWork :: "connection_scheduler \<Rightarrow> (bool \<times> connection_scheduler) res" where
  "packet_type_HasWork s =
     res_bind (HasWork (Some (ComputePacketTypeWeight s)) (csc_packet_type_policy s)) (\<lambda>(b, p).
       Inr (b, s\<lparr>csc_packet_type_policy := p\<rparr>))"

text \<open>The admission control criteria of a queue type; the three disjuncts for requests are evaluated in order.\<close>

definition admission_allows ::
  "host_env \<Rightarrow> packet_type \<Rightarrow> connection_scheduler \<times> admission \<Rightarrow> (bool \<times> connection_scheduler \<times> admission) res" where
  "admission_allows E type sa =
     res_bind (MeetsAdmissionControlCriteria_length (he_admission E) (he_floor_fdiv E) (he_now E) kMaxRequestLength
                 type (snd sa)) (\<lambda>(b, a'). Inr (b, fst sa, a'))"

definition type_allowed ::
  "host_env \<Rightarrow> packet_type_queue \<Rightarrow> connection_scheduler \<times> admission \<Rightarrow> (bool \<times> connection_scheduler \<times> admission) res" where
  "type_allowed E q sa =
     (case q of
        kPushGrantQ \<Rightarrow> admission_allows E kPushGrant sa
      | kPullAndOrderedPushRequest \<Rightarrow>
          res_bind (ordered_push_HasWork (fst sa)) (\<lambda>(b1, s1).
          if b1 then Inr (True, s1, snd sa)
          else res_bind (phantom_HasWork s1) (\<lambda>(b2, s2).
               if b2 then Inr (True, s2, snd sa) else admission_allows E kPullRequest (s2, snd sa)))
      | _ \<Rightarrow> Inr (True, sa))"

definition recompute_type ::
  "host_env \<Rightarrow> packet_type_queue \<Rightarrow> connection_scheduler \<times> admission \<Rightarrow> (connection_scheduler \<times> admission) res" where
  "recompute_type E q sa =
     res_bind (type_allowed E q sa) (\<lambda>(allowed, s1, a1).
     res_bind (if allowed then queue_HasWork q s1 else Inr (False, s1)) (\<lambda>(active, s2).
     res_bind (mark active q (csc_packet_type_policy s2)) (\<lambda>p.
       Inr (s2\<lparr>csc_packet_type_policy := p\<rparr>, a1))))"

fun recompute_types ::
  "host_env \<Rightarrow> packet_type_queue list \<Rightarrow> connection_scheduler \<times> admission \<Rightarrow> (connection_scheduler \<times> admission) res" where
  "recompute_types E [] sa = Inr sa"
| "recompute_types E (q # qs) sa = res_bind (recompute_type E q sa) (recompute_types E qs)"

definition csc_HasWork :: "host_env \<Rightarrow> connection_scheduler \<Rightarrow> (bool \<times> connection_scheduler) res" where
  "csc_HasWork E s =
     res_bind (phantom_HasWork s) (\<lambda>(b, s1).
       if b then Inr (True, s1)
       else if he_can_send E then packet_type_HasWork s1 else Inr (False, s1))"

definition csc_RecomputeEligibility :: "host_env \<Rightarrow> u32 \<Rightarrow> falcon_host \<Rightarrow> falcon_host res" where
  "csc_RecomputeEligibility E scid h =
     res_bind (if csc_queues (fh_sched h) scid \<noteq> None
               then res_bind (host_lookup h scid) (\<lambda>x. recompute_queues E scid x kQueueTypes (fh_sched h))
               else Inr (fh_sched h)) (\<lambda>s1.
     res_bind (recompute_types E kQueueTypes (s1, fh_admission h)) (\<lambda>(s2, a2).
     res_bind (csc_HasWork E s2) (\<lambda>(b, s3).
       let h' = h\<lparr>fh_sched := s3, fh_admission := a2\<rparr>
       in Inr (if b then host_calls [ScheduleArbiter] h' else h'))))"

section \<open>Eligibility of retransmissions\<close>

definition retx_queue :: "window_type_queue \<Rightarrow> connection \<Rightarrow> retransmission_work_id list" where
  "retx_queue q c = (case q of kRequestWindow \<Rightarrow> cn_retx_request c | kDataWindow \<Rightarrow> cn_retx_data c)"

definition retx_window_ready :: "window_type_queue \<Rightarrow> connection \<Rightarrow> bool res" where
  "retx_window_ready q c =
     (case retx_queue q c of
        [] \<Rightarrow> Inr False
      | w # _ \<Rightarrow> MeetsRetransmissionCCTxGatingCriteria (wid_psn w) (wid_type w) c)"

definition adjust_window :: "bool \<Rightarrow> bool \<Rightarrow> window_type_queue \<Rightarrow> window_type_queue" where
  "adjust_window has_request_work has_data_work q =
     (let q1 = (if q = kRequestWindow \<and> \<not> has_request_work then kDataWindow else q)
      in if q1 = kDataWindow \<and> \<not> has_data_work then kRequestWindow else q1)"

text \<open>\<^verbatim>\<open>next_window_type_[scid]\<close>, whose default is the first value of the enumeration.\<close>

definition next_window_type :: "retransmission_scheduler \<Rightarrow> u32 \<Rightarrow> window_type_queue" where
  "next_window_type r scid = (case rsc_next_window_type r scid of Some q \<Rightarrow> q | None \<Rightarrow> kRequestWindow)"

definition rsc_recompute :: "u32 \<Rightarrow> host_connection \<Rightarrow> retransmission_scheduler \<Rightarrow> (bool \<times> retransmission_scheduler) res" where
  "rsc_recompute scid x r =
     (if hc_is_op_rate_limited x \<noteq> 0
      then res_bind (mark False scid (rsc_policy r)) (\<lambda>p. Inr (False, r\<lparr>rsc_policy := p\<rparr>))
      else res_bind (retx_window_ready kRequestWindow (hc_conn x)) (\<lambda>has_request_work.
           res_bind (retx_window_ready kDataWindow (hc_conn x)) (\<lambda>has_data_work.
           res_bind (mark (has_request_work \<or> has_data_work) scid (rsc_policy r)) (\<lambda>p.
           let r1 = (if has_request_work \<or> has_data_work
                     then r\<lparr>rsc_next_window_type := (rsc_next_window_type r)
                            (scid \<mapsto> adjust_window has_request_work has_data_work (next_window_type r scid))\<rparr>
                     else r)
           in res_bind (HasWork None p) (\<lambda>(b, p'). Inr (b, r1\<lparr>rsc_policy := p'\<rparr>))))))"

definition rsc_RecomputeEligibility :: "u32 \<Rightarrow> falcon_host \<Rightarrow> falcon_host res" where
  "rsc_RecomputeEligibility scid h =
     (if rsc_next_window_type (fh_retx h) scid = None then Inr h
      else res_bind (host_lookup h scid) (\<lambda>x.
           res_bind (rsc_recompute scid x (fh_retx h)) (\<lambda>(b, r).
             let h' = h\<lparr>fh_retx := r\<rparr> in Inr (if b then host_calls [ScheduleArbiter] h' else h'))))"

section \<open>Gating variables\<close>

text \<open>
  An assignment to a gating variable calls its function when the value changes, the arithmetic operators always.
  The value is read and written by \<open>get\<close> and \<open>put\<close>; an unset function is \<open>None\<close>.
\<close>

definition gv_call :: "('s \<Rightarrow> 's res) option \<Rightarrow> 's \<Rightarrow> 's res" where
  "gv_call f s = (case f of Some g \<Rightarrow> g s | None \<Rightarrow> Inr s)"

definition gv_assign :: "('s \<Rightarrow> 's res) option \<Rightarrow> ('s \<Rightarrow> 'v) \<Rightarrow> ('v \<Rightarrow> 's \<Rightarrow> 's) \<Rightarrow> 'v \<Rightarrow> 's \<Rightarrow> 's res" where
  "gv_assign f get put v s = (if get s \<noteq> v then gv_call f (put v s) else Inr s)"

definition gv_update :: "('s \<Rightarrow> 's res) option \<Rightarrow> ('s \<Rightarrow> 'v) \<Rightarrow> ('v \<Rightarrow> 's \<Rightarrow> 's) \<Rightarrow> ('v \<Rightarrow> 'v) \<Rightarrow> 's \<Rightarrow> 's res" where
  "gv_update f get put op s = gv_call f (put (op (get s)) s)"

text \<open>The gating function of a connection.\<close>

definition gate :: "host_env \<Rightarrow> u32 \<Rightarrow> falcon_host \<Rightarrow> falcon_host res" where
  "gate E scid h = res_bind (csc_RecomputeEligibility E scid h) (rsc_RecomputeEligibility scid)"

definition op_rate_limited :: "u32 \<Rightarrow> falcon_host \<Rightarrow> int" where
  "op_rate_limited scid h = (case fh_connections h scid of Some x \<Rightarrow> hc_is_op_rate_limited x | None \<Rightarrow> 0)"

definition put_op_rate_limited :: "u32 \<Rightarrow> int \<Rightarrow> falcon_host \<Rightarrow> falcon_host" where
  "put_op_rate_limited scid v h =
     h\<lparr>fh_connections := (fh_connections h)
        (scid := map_option (hc_is_op_rate_limited_update (\<lambda>_. v)) (fh_connections h scid))\<rparr>"

definition set_op_rate_limited :: "host_env \<Rightarrow> u32 \<Rightarrow> int \<Rightarrow> falcon_host \<Rightarrow> falcon_host res" where
  "set_op_rate_limited E scid v h =
     gv_assign (Some (gate E scid)) (op_rate_limited scid) (put_op_rate_limited scid) v h"

end
