(* ===== verification/Retransmission_Scheduler.thy ===== *)
theory Retransmission_Scheduler
  imports Scheduler_Host
begin

text \<open>
  The retransmission scheduler, \<^verbatim>\<open>src/isekai/host/falcon/gen1/retransmission_scheduler.cc\<close>: a round-robin
  policy over the connections that have a packet to retransmit which the congestion windows admit, alternating between
  the request window and the data window of a connection; and the ack/nack scheduler,
  \<^verbatim>\<open>ack_nack_scheduler.cc\<close>, a queue of explicit acknowledgements.

  The queues of a connection are part of its record (\<open>Reliability_State\<close>); \<open>rsc_next_window_type\<close> has an entry for each
  connection that the scheduler knows. The theorems show that the policy always holds exactly what the gating criteria
  allow, so that the scheduler's own check before it transmits never fails.
\<close>

section \<open>Transmission with its gating calls\<close>

text \<open>
  The gating variables that a transmission can change. \<^verbatim>\<open>TransmitPacket\<close> runs while the connection is rate
  limited, so that the recomputations it triggers depend on none of the values it writes; they are made after it, one
  for each changed variable.
\<close>

definition gating_changes :: "connection \<Rightarrow> connection \<Rightarrow> nat" where
  "gating_changes c c' =
     (let changed = (\<lambda>w w'. of_bool (txw_base w \<noteq> txw_base w') + of_bool (txw_next w \<noteq> txw_next w') +
            of_bool (txw_outstanding_requests_counter w \<noteq> txw_outstanding_requests_counter w') +
            of_bool (txw_outstanding_retransmission_requests_counter w \<noteq> txw_outstanding_retransmission_requests_counter w') +
            of_bool (txw_oow_notification_received w \<noteq> txw_oow_notification_received w'))
      in changed (cn_tx_request c) (cn_tx_request c') + changed (cn_tx_data c) (cn_tx_data c'))"

primrec gates :: "host_env \<Rightarrow> nat \<Rightarrow> u32 \<Rightarrow> falcon_host \<Rightarrow> falcon_host res" where
  "gates E 0 scid h = Inr h"
| "gates E (Suc n) scid h = res_bind (gate E scid h) (gates E n scid)"

definition host_TransmitPacket :: "host_env \<Rightarrow> u32 \<Rightarrow> u32 \<Rightarrow> packet_type \<Rightarrow> falcon_host \<Rightarrow> (status \<times> falcon_host) res" where
  "host_TransmitPacket E scid rsn type h =
     (case fh_connections h scid of
        None \<Rightarrow> Inr (NotFoundError, h)
      | Some x \<Rightarrow>
          res_bind (TransmitPacket (he_floor_fdiv E) (he_now E) (he_prm E) rsn type (fh_prm h, hc_conn x)) (\<lambda>(st, g, c).
          res_bind (gates E (gating_changes (hc_conn x) c) scid (put_connection scid c (h\<lparr>fh_prm := g\<rparr>))) (\<lambda>h'.
            Inr (st, h'))))"

text \<open>
  What both schedulers do before they hand a packet down: record the transmission, limit the rate of the connection and
  schedule the event that lifts the limit.
\<close>

definition update_connection :: "u32 \<Rightarrow> (host_connection \<Rightarrow> host_connection) \<Rightarrow> falcon_host \<Rightarrow> falcon_host" where
  "update_connection scid f h = h\<lparr>fh_connections := (fh_connections h)(scid := map_option f (fh_connections h scid))\<rparr>"

definition limit_rate :: "host_env \<Rightarrow> u32 \<Rightarrow> falcon_host \<Rightarrow> falcon_host res" where
  "limit_rate E scid h =
     res_bind (set_op_rate_limited E scid 1
        (update_connection scid (hc_last_packet_send_time_update (\<lambda>_. ev_now (he_prm E))) h)) (\<lambda>h1.
       Inr (host_calls [ScheduleOpRateEvent scid] h1))"

definition mark_scheduled :: "u32 \<Rightarrow> u32 \<Rightarrow> packet_type \<Rightarrow> falcon_host \<Rightarrow> falcon_host res" where
  "mark_scheduled scid rsn type h =
     res_bind (GetTransactionLocation type False) (\<lambda>location.
       Inr (update_connection scid (\<lambda>x. x\<lparr>hc_conn :=
         update_packet (rsn, location) type (pm_schedule_status_update (\<lambda>_. OkStatus)) (hc_conn x)\<rparr>) h))"

text \<open>The event after \<^verbatim>\<open>kPerConnectionInterOpGap\<close>.\<close>

definition op_rate_event :: "host_env \<Rightarrow> u32 \<Rightarrow> falcon_host \<Rightarrow> falcon_host res" where
  "op_rate_event E scid h = res_bind (host_lookup h scid) (\<lambda>x. set_op_rate_limited E scid 0 h)"

section \<open>Operations\<close>

definition rsc_InitConnectionSchedulerQueues :: "u32 \<Rightarrow> retransmission_scheduler \<Rightarrow> (status \<times> retransmission_scheduler) res" where
  "rsc_InitConnectionSchedulerQueues scid r =
     (if rsc_next_window_type r scid \<noteq> None then Inr (AlreadyExistsError, r)
      else let (st, p) = InitializeEntity None scid (rsc_policy r)
           in check (st = OkStatus) (Inr (OkStatus, r\<lparr>rsc_policy := p,
                rsc_next_window_type := (rsc_next_window_type r)(scid \<mapsto> kRequestWindow)\<rparr>)))"

definition rsc_EnqueuePacket :: "u32 \<Rightarrow> u32 \<Rightarrow> packet_type \<Rightarrow> falcon_host \<Rightarrow> (status \<times> falcon_host) res" where
  "rsc_EnqueuePacket scid rsn type h =
     (case fh_connections h scid of
        None \<Rightarrow> Inr (NotFoundError, h)
      | Some x \<Rightarrow> res_bind (retx_EnqueuePacket rsn type (hc_conn x)) (\<lambda>(st, c).
          if st \<noteq> OkStatus then Inr (st, h)
          else res_bind (rsc_RecomputeEligibility scid (put_connection scid c h)) (\<lambda>h1.
            Inr (OkStatus, host_calls [ScheduleArbiter] h1))))"

definition rsc_DequeuePacket :: "u32 \<Rightarrow> u32 \<Rightarrow> packet_type \<Rightarrow> falcon_host \<Rightarrow> (status \<times> falcon_host) res" where
  "rsc_DequeuePacket scid rsn type h =
     (case fh_connections h scid of
        None \<Rightarrow> Inr (NotFoundError, h)
      | Some x \<Rightarrow> res_bind (retx_DequeuePacket rsn type (hc_conn x)) (\<lambda>(st, c).
          if st \<noteq> OkStatus then Inr (st, h)
          else res_bind (rsc_RecomputeEligibility scid (put_connection scid c h)) (\<lambda>h1. Inr (OkStatus, h1))))"

definition rsc_CanSend :: "u32 \<Rightarrow> u32 \<Rightarrow> packet_type \<Rightarrow> falcon_host \<Rightarrow> bool res" where
  "rsc_CanSend scid psn type h =
     res_bind (host_lookup h scid) (\<lambda>x.
       if hc_is_op_rate_limited x = 0 then MeetsRetransmissionCCTxGatingCriteria psn type (hc_conn x) else Inr False)"

definition rsc_HasWork :: "host_env \<Rightarrow> falcon_host \<Rightarrow> (bool \<times> falcon_host) res" where
  "rsc_HasWork E h =
     (if he_can_send E
      then res_bind (HasWork None (rsc_policy (fh_retx h))) (\<lambda>(b, p). Inr (b, h\<lparr>fh_retx := (fh_retx h)\<lparr>rsc_policy := p\<rparr>\<rparr>))
      else Inr (False, h))"

definition rsc_SchedulePacket ::
  "host_env \<Rightarrow> u32 \<Rightarrow> window_type_queue \<Rightarrow> retransmission_work_id \<Rightarrow> falcon_host \<Rightarrow> falcon_host res" where
  "rsc_SchedulePacket E scid q w h =
     res_bind (host_lookup h scid) (\<lambda>x.
     res_bind (lookup_packet (hc_conn x) (wid_rsn w) (wid_type w)) (\<lambda>_.
     res_bind (mark_scheduled scid (wid_rsn w) (wid_type w) h) (\<lambda>h1.
     res_bind (limit_rate E scid h1) (\<lambda>h2.
     res_bind (host_TransmitPacket E scid (wid_rsn w) (wid_type w) h2) (\<lambda>(st, h3).
     check (st = OkStatus)
       (rsc_RecomputeEligibility scid (update_connection scid
          (\<lambda>x. x\<lparr>hc_conn := on_retx (q = kRequestWindow) (wid_erase w) (hc_conn x)\<rparr>) h3)))))))"

definition other_window :: "window_type_queue \<Rightarrow> window_type_queue" where
  "other_window q = (if q = kRequestWindow then kDataWindow else kRequestWindow)"

definition rsc_ScheduleWork :: "host_env \<Rightarrow> falcon_host \<Rightarrow> (bool \<times> falcon_host) res" where
  "rsc_ScheduleWork E h =
     res_bind (GetNextEntity None (rsc_policy (fh_retx h))) (\<lambda>(e, p).
       case e of
         Inl _ \<Rightarrow> Inl CheckFailed
       | Inr scid \<Rightarrow>
           let h1 = h\<lparr>fh_retx := (fh_retx h)\<lparr>rsc_policy := p\<rparr>\<rparr>; q = next_window_type (fh_retx h1) scid
           in res_bind (host_lookup h1 scid) (\<lambda>x.
              case retx_queue q (hc_conn x) of
                [] \<Rightarrow> Inl CheckFailed
              | w # _ \<Rightarrow>
                  res_bind (rsc_CanSend scid (wid_psn w) (wid_type w) h1) (\<lambda>ok.
                  check ok
                    (let h2 = h1\<lparr>fh_retx := (fh_retx h1)\<lparr>rsc_next_window_type :=
                           (rsc_next_window_type (fh_retx h1))(scid \<mapsto> other_window q)\<rparr>\<rparr>
                     in res_bind (rsc_SchedulePacket E scid q w h2) (\<lambda>h3. Inr (True, h3))))))"

section \<open>The ack/nack scheduler\<close>

type_synonym ack_nack_queue = "packet list"

text \<open>Enqueueing also calls the arbiter; scheduling hands the packet to the metadata transformer.\<close>

definition an_EnqueuePacket :: "packet \<Rightarrow> ack_nack_queue \<Rightarrow> (status \<times> ack_nack_queue) res" where
  "an_EnqueuePacket p q = check (pkt_type p = kAck \<or> pkt_type p = kNack) (Inr (OkStatus, q @ [p]))"

definition an_HasWork :: "bool \<Rightarrow> ack_nack_queue \<Rightarrow> bool" where
  "an_HasWork can_send q \<longleftrightarrow> can_send \<and> q \<noteq> []"

definition an_ScheduleWork :: "ack_nack_queue \<Rightarrow> (packet \<times> u32 \<times> ack_nack_queue) res" where
  "an_ScheduleWork q = check (q \<noteq> []) (Inr (hd q, pkt_scid (hd q), tl q))"

section \<open>The invariant\<close>

text \<open>
  A connection is ready when it is not rate limited and the head of the queue that is next for it meets the criteria; it
  is eligible when this holds for one of its queues. Outside the connections of \<open>S\<close>, whose state is being changed,
  the active connections are the eligible ones, and they are ready.
\<close>

definition retx_eligible :: "falcon_host \<Rightarrow> u32 \<Rightarrow> bool" where
  "retx_eligible h scid \<longleftrightarrow> (\<exists>x. fh_connections h scid = Some x \<and> hc_is_op_rate_limited x = 0 \<and>
     (\<exists>q. retx_window_ready q (hc_conn x) = Inr True))"

definition retx_ready :: "falcon_host \<Rightarrow> u32 \<Rightarrow> bool" where
  "retx_ready h scid \<longleftrightarrow> (\<exists>x. fh_connections h scid = Some x \<and> hc_is_op_rate_limited x = 0 \<and>
     retx_window_ready (next_window_type (fh_retx h) scid) (hc_conn x) = Inr True)"

definition retx_inv :: "u32 set \<Rightarrow> falcon_host \<Rightarrow> bool" where
  "retx_inv S h \<longleftrightarrow> vanilla_ok (rsc_policy (fh_retx h)) \<and>
     entities (rsc_policy (fh_retx h)) = dom (rsc_next_window_type (fh_retx h)) \<and>
     (\<forall>scid \<in> entities (rsc_policy (fh_retx h)) - S.
        (scid \<in> actives (rsc_policy (fh_retx h)) \<longleftrightarrow> retx_eligible h scid) \<and>
        (scid \<in> actives (rsc_policy (fh_retx h)) \<longrightarrow> retx_ready h scid))"

lemma window_type_ex: "(\<exists>q. P q) \<longleftrightarrow> P kRequestWindow \<or> P kDataWindow"
  by (metis window_type_queue.exhaust)

lemma retx_inv_active: "retx_inv {} h \<Longrightarrow> scid \<in> actives (rsc_policy (fh_retx h)) \<Longrightarrow> retx_ready h scid"
  using active_entity [of "rsc_policy (fh_retx h)"] by (auto simp: retx_inv_def vanilla_ok_def)

lemma retx_inv_mono: "retx_inv S h \<Longrightarrow> S \<subseteq> T \<Longrightarrow> retx_inv T h"
  by (auto simp: retx_inv_def)

text \<open>Two hosts that agree on the scheduler and on the connections outside \<open>S\<close>.\<close>

definition retx_same :: "u32 set \<Rightarrow> falcon_host \<Rightarrow> falcon_host \<Rightarrow> bool" where
  "retx_same S h h' \<longleftrightarrow> fh_retx h' = fh_retx h \<and> (\<forall>scid. scid \<notin> S \<longrightarrow> fh_connections h' scid = fh_connections h scid)"

lemma retx_same_refl [simp]: "retx_same S h h"
  by (simp add: retx_same_def)

lemma retx_same_trans: "retx_same S h h1 \<Longrightarrow> retx_same S h1 h2 \<Longrightarrow> retx_same S h h2"
  by (simp add: retx_same_def)

lemma retx_same_inv: "retx_same S h h' \<Longrightarrow> retx_inv S h \<Longrightarrow> retx_inv S h'"
  by (auto simp: retx_same_def retx_inv_def retx_ready_def retx_eligible_def)

lemma retx_same_updates [simp]:
  "retx_same {scid} h (update_connection scid f h)" "retx_same {scid} h (put_connection scid c h)"
  "retx_same {scid} h (put_op_rate_limited scid v h)" "retx_same S h (host_calls cs h)"
  "retx_same S h (h\<lparr>fh_prm := g\<rparr>)" "retx_same S h (h\<lparr>fh_sched := s\<rparr>)" "retx_same S h (h\<lparr>fh_admission := a\<rparr>)"
  by (simp_all add: retx_same_def update_connection_def put_connection_def put_op_rate_limited_def)

lemma csc_Recompute_same: "csc_RecomputeEligibility E scid h = Inr h' \<Longrightarrow> retx_same S h h'"
  by (auto simp: csc_RecomputeEligibility_def res_simps Let_def retx_same_def split: if_splits)

lemma mark_rr:
  assumes "vanilla_ok p" and "x \<in> entities p"
  shows "\<exists>p'. mark b x p = Inr p' \<and> vanilla_ok p' \<and> entities p' = entities p \<and>
    actives p' = (if b then insert x (actives p) else actives p - {x})"
  using rr.on_law [OF assms] rr.off_law [OF assms] by (cases b) (auto simp: mark_def)

lemma mark_rr_cases:
  assumes "mark b x p = Inr p'" and "vanilla_ok p" and "x \<in> entities p"
  shows "vanilla_ok p'" "entities p' = entities p" "actives p' = (if b then insert x (actives p) else actives p - {x})"
  using mark_rr [OF assms(2,3), of b] assms(1) by auto

text \<open>After the recomputation for a connection, the policy says what its state allows, and the next window is right.\<close>

lemma adjust_window_ready:
  assumes "r \<or> d"
  shows "(adjust_window r d q = kRequestWindow \<longrightarrow> r) \<and> (adjust_window r d q = kDataWindow \<longrightarrow> d)"
  using assms by (cases q) (auto simp: adjust_window_def Let_def)

lemma adjust_window_keeps: "(if q = kRequestWindow then r else d) \<Longrightarrow> adjust_window r d q = q"
  by (cases q) (auto simp: adjust_window_def Let_def)

lemma rsc_recompute_spec:
  assumes "rsc_recompute scid x r = Inr (b, r')" and "vanilla_ok (rsc_policy r)" and "scid \<in> entities (rsc_policy r)"
  shows "vanilla_ok (rsc_policy r')" "entities (rsc_policy r') = entities (rsc_policy r)"
    "\<And>y. y \<noteq> scid \<Longrightarrow> rsc_next_window_type r' y = rsc_next_window_type r y"
    "dom (rsc_next_window_type r') \<subseteq> insert scid (dom (rsc_next_window_type r))"
    "dom (rsc_next_window_type r) \<subseteq> dom (rsc_next_window_type r')"
    "actives (rsc_policy r') - {scid} = actives (rsc_policy r) - {scid}"
    "scid \<in> actives (rsc_policy r') \<longleftrightarrow> hc_is_op_rate_limited x = 0 \<and>
       (retx_window_ready kRequestWindow (hc_conn x) = Inr True \<or> retx_window_ready kDataWindow (hc_conn x) = Inr True)"
    "scid \<in> actives (rsc_policy r') \<Longrightarrow> retx_window_ready (next_window_type r' scid) (hc_conn x) = Inr True"
proof -
  let ?goal = "vanilla_ok (rsc_policy r') \<and> entities (rsc_policy r') = entities (rsc_policy r) \<and>
    (\<forall>y. y \<noteq> scid \<longrightarrow> rsc_next_window_type r' y = rsc_next_window_type r y) \<and>
    dom (rsc_next_window_type r') \<subseteq> insert scid (dom (rsc_next_window_type r)) \<and>
    dom (rsc_next_window_type r) \<subseteq> dom (rsc_next_window_type r') \<and>
    actives (rsc_policy r') - {scid} = actives (rsc_policy r) - {scid} \<and>
    (scid \<in> actives (rsc_policy r') \<longleftrightarrow> hc_is_op_rate_limited x = 0 \<and>
       (retx_window_ready kRequestWindow (hc_conn x) = Inr True \<or> retx_window_ready kDataWindow (hc_conn x) = Inr True)) \<and>
    (scid \<in> actives (rsc_policy r') \<longrightarrow> retx_window_ready (next_window_type r' scid) (hc_conn x) = Inr True)"
  have ?goal
  proof (cases "hc_is_op_rate_limited x = 0")
    case False
    then obtain p where "mark False scid (rsc_policy r) = Inr p" "r' = r\<lparr>rsc_policy := p\<rparr>"
      using assms(1) by (auto simp: rsc_recompute_def res_simps)
    then show ?thesis using mark_rr_cases [OF _ assms(2,3)] False by auto
  next
    case True
    then obtain rw dw p p' where
      w: "retx_window_ready kRequestWindow (hc_conn x) = Inr rw" "retx_window_ready kDataWindow (hc_conn x) = Inr dw"
      and p: "mark (rw \<or> dw) scid (rsc_policy r) = Inr p" "HasWork None p = Inr (b, p')"
      and r': "r' = (if rw \<or> dw then r\<lparr>rsc_next_window_type := (rsc_next_window_type r)
                       (scid \<mapsto> adjust_window rw dw (next_window_type r scid))\<rparr> else r)\<lparr>rsc_policy := p'\<rparr>"
      using assms(1) by (auto simp: rsc_recompute_def res_simps Let_def)
    note m = mark_rr_cases [OF p(1) assms(2,3)]
    have h: "vanilla_ok p'" "entities p' = entities p" "actives p' = actives p"
      using rr.work_law [OF m(1)] p(2) by auto
    have ready: "retx_window_ready (next_window_type r' scid) (hc_conn x) = Inr True" if "rw \<or> dw"
      using adjust_window_ready [OF that, of "next_window_type r scid"] w r' that
      by (cases "adjust_window rw dw (next_window_type r scid)") (auto simp: next_window_type_def)
    show ?thesis using m h r' w True ready by (auto split: if_splits)
  qed
  then show "vanilla_ok (rsc_policy r')" "entities (rsc_policy r') = entities (rsc_policy r)"
    "\<And>y. y \<noteq> scid \<Longrightarrow> rsc_next_window_type r' y = rsc_next_window_type r y"
    "dom (rsc_next_window_type r') \<subseteq> insert scid (dom (rsc_next_window_type r))"
    "dom (rsc_next_window_type r) \<subseteq> dom (rsc_next_window_type r')"
    "actives (rsc_policy r') - {scid} = actives (rsc_policy r) - {scid}"
    "scid \<in> actives (rsc_policy r') \<longleftrightarrow> hc_is_op_rate_limited x = 0 \<and>
       (retx_window_ready kRequestWindow (hc_conn x) = Inr True \<or> retx_window_ready kDataWindow (hc_conn x) = Inr True)"
    "scid \<in> actives (rsc_policy r') \<Longrightarrow> retx_window_ready (next_window_type r' scid) (hc_conn x) = Inr True"
    by blast+
qed

lemma rsc_Recompute_inv:
  assumes "rsc_RecomputeEligibility scid h = Inr h'" and "retx_inv S h" and "S \<subseteq> {scid}"
  shows "retx_inv {} h' \<and> fh_connections h' = fh_connections h"
proof (cases "rsc_next_window_type (fh_retx h) scid")
  case None
  then have "scid \<notin> entities (rsc_policy (fh_retx h))"
    using assms(2) by (auto simp: retx_inv_def)
  moreover have "h' = h" using assms(1) None by (simp add: rsc_RecomputeEligibility_def)
  ultimately show ?thesis using assms(2,3) by (auto simp: retx_inv_def)
next
  case (Some q)
  then obtain x b r where x: "fh_connections h scid = Some x" and r: "rsc_recompute scid x (fh_retx h) = Inr (b, r)"
    and h': "h' = (if b then host_calls [ScheduleArbiter] (h\<lparr>fh_retx := r\<rparr>) else h\<lparr>fh_retx := r\<rparr>)"
    using assms(1) by (auto simp: rsc_RecomputeEligibility_def host_lookup_def res_simps Let_def split: option.splits)
  have k: "vanilla_ok (rsc_policy (fh_retx h))" "scid \<in> entities (rsc_policy (fh_retx h))"
    using assms(2) Some by (auto simp: retx_inv_def)
  note s = rsc_recompute_spec [OF r k]
  have f: "fh_retx h' = r" "fh_connections h' = fh_connections h" using h' by simp_all
  have "(y \<in> actives (rsc_policy r) \<longleftrightarrow> retx_eligible h' y) \<and> (y \<in> actives (rsc_policy r) \<longrightarrow> retx_ready h' y)"
    if "y \<in> entities (rsc_policy r)" for y
  proof (cases "y = scid")
    case True
    then show ?thesis using s(7,8) x f by (auto simp: retx_ready_def retx_eligible_def window_type_ex)
  next
    case False
    have "y \<in> actives (rsc_policy r) \<longleftrightarrow> y \<in> actives (rsc_policy (fh_retx h))" using s(6) False by blast
    moreover have "retx_eligible h' y \<longleftrightarrow> retx_eligible h y" "retx_ready h' y \<longleftrightarrow> retx_ready h y"
      using s(3) [OF False] f by (simp_all add: retx_ready_def retx_eligible_def next_window_type_def)
    moreover have "y \<in> entities (rsc_policy (fh_retx h)) - S" using that s(2) False assms(3) by blast
    ultimately show ?thesis using assms(2) unfolding retx_inv_def by blast
  qed
  moreover have "dom (rsc_next_window_type r) = dom (rsc_next_window_type (fh_retx h))"
    using s(4,5) Some by auto
  ultimately show ?thesis using s(1,2) f assms(2) by (simp add: retx_inv_def)
qed

lemma gate_inv:
  assumes "gate E scid h = Inr h'" and "retx_inv S h" and "S \<subseteq> {scid}"
  shows "retx_inv {} h' \<and> fh_connections h' = fh_connections h"
proof -
  obtain h1 where h1: "csc_RecomputeEligibility E scid h = Inr h1" "rsc_RecomputeEligibility scid h1 = Inr h'"
    using assms(1) by (auto simp: gate_def res_simps)
  note s = csc_Recompute_same [OF h1(1)]
  have "retx_inv S h1" by (rule retx_same_inv [OF s assms(2)])
  moreover have "fh_connections h1 = fh_connections h" using s [of "{}"] by (auto simp: retx_same_def)
  ultimately show ?thesis using rsc_Recompute_inv [OF h1(2) _ assms(3)] by simp
qed

lemma gates_inv:
  "gates E n scid h = Inr h' \<Longrightarrow> retx_inv {scid} h \<Longrightarrow> retx_inv {scid} h'"
proof (induction n arbitrary: h)
  case (Suc n)
  then obtain h1 where h1: "gate E scid h = Inr h1" "gates E n scid h1 = Inr h'" by (auto simp: res_simps)
  have "retx_inv {} h1" using gate_inv [OF h1(1) Suc.prems(2)] by simp
  then show ?case using Suc.IH [OF h1(2)] retx_inv_mono by blast
qed simp

lemma changed_inv: "retx_inv {} h \<or> retx_inv {scid} h \<Longrightarrow> retx_same {scid} h h' \<Longrightarrow> retx_inv {scid} h'"
  using retx_same_inv retx_inv_mono by blast

lemma set_op_rate_limited_inv:
  assumes "set_op_rate_limited E scid v h = Inr h'" and "retx_inv S h" and "S \<subseteq> {scid}"
  shows "retx_inv S h'"
proof (cases "op_rate_limited scid h = v")
  case False
  then have g: "gate E scid (put_op_rate_limited scid v h) = Inr h'"
    using assms(1) by (simp add: set_op_rate_limited_def gv_assign_def gv_call_def)
  have "retx_inv {scid} h" using assms(2,3) retx_inv_mono by blast
  then have "retx_inv {scid} (put_op_rate_limited scid v h)" by (rule retx_same_inv [rotated]) simp
  then show ?thesis using gate_inv [OF g] retx_inv_mono by blast
qed (use assms in \<open>simp add: set_op_rate_limited_def gv_assign_def\<close>)

lemma limit_rate_inv:
  assumes "limit_rate E scid h = Inr h'" and "retx_inv {scid} h"
  shows "retx_inv {scid} h'"
proof -
  obtain h1 where h1: "set_op_rate_limited E scid 1
      (update_connection scid (hc_last_packet_send_time_update (\<lambda>_. ev_now (he_prm E))) h) = Inr h1"
    "h' = host_calls [ScheduleOpRateEvent scid] h1" using assms(1) by (auto simp: limit_rate_def res_simps)
  have "retx_inv {scid} h1"
    by (rule set_op_rate_limited_inv [OF h1(1) changed_inv [of h]]) (simp_all add: assms(2))
  then show ?thesis using h1(2) changed_inv [of h1] by simp
qed

lemma mark_scheduled_inv:
  "mark_scheduled scid rsn type h = Inr h' \<Longrightarrow> retx_inv {scid} h \<Longrightarrow> retx_inv {scid} h'"
  by (auto simp: mark_scheduled_def res_simps intro: changed_inv)

lemma host_TransmitPacket_inv:
  assumes "host_TransmitPacket E scid rsn type h = Inr (st, h')" and "retx_inv {scid} h"
  shows "retx_inv {scid} h'"
proof (cases "fh_connections h scid")
  case (Some x)
  then obtain g c where "gates E (gating_changes (hc_conn x) c) scid (put_connection scid c (h\<lparr>fh_prm := g\<rparr>)) = Inr h'"
    using assms(1) by (auto simp: host_TransmitPacket_def res_simps)
  moreover have "retx_same {scid} h (put_connection scid c (h\<lparr>fh_prm := g\<rparr>))"
    by (rule retx_same_trans [of _ _ "h\<lparr>fh_prm := g\<rparr>"]) simp_all
  ultimately show ?thesis using gates_inv assms(2) changed_inv by blast
qed (use assms in \<open>simp add: host_TransmitPacket_def\<close>)

lemma rsc_SchedulePacket_inv:
  assumes "rsc_SchedulePacket E scid q w h = Inr h'" and "retx_inv {scid} h"
  shows "retx_inv {} h'"
proof -
  obtain h1 h2 h3 where h: "mark_scheduled scid (wid_rsn w) (wid_type w) h = Inr h1" "limit_rate E scid h1 = Inr h2"
    "host_TransmitPacket E scid (wid_rsn w) (wid_type w) h2 = Inr (OkStatus, h3)"
    "rsc_RecomputeEligibility scid (update_connection scid
       (\<lambda>x. x\<lparr>hc_conn := on_retx (q = kRequestWindow) (wid_erase w) (hc_conn x)\<rparr>) h3) = Inr h'"
    using assms(1) by (auto simp: rsc_SchedulePacket_def res_simps)
  have "retx_inv {scid} h3"
    using host_TransmitPacket_inv [OF h(3) limit_rate_inv [OF h(2) mark_scheduled_inv [OF h(1) assms(2)]]] .
  then show ?thesis using rsc_Recompute_inv [OF h(4)] changed_inv retx_same_updates(1) by blast
qed

lemma rsc_EnqueuePacket_inv:
  assumes "rsc_EnqueuePacket scid rsn type h = Inr (st, h')" and "retx_inv {} h"
  shows "retx_inv {} h'"
proof (cases "fh_connections h scid")
  case (Some x)
  then obtain st1 c where c: "retx_EnqueuePacket rsn type (hc_conn x) = Inr (st1, c)"
    "(if st1 \<noteq> OkStatus then Inr (st1, h) else res_bind (rsc_RecomputeEligibility scid (put_connection scid c h))
        (\<lambda>h1. Inr (OkStatus, host_calls [ScheduleArbiter] h1))) = Inr (st, h')"
    using assms(1) by (auto simp: rsc_EnqueuePacket_def res_bind_eq_Inr)
  show ?thesis
  proof (cases "st1 = OkStatus")
    case True
    then obtain h1 where h1: "rsc_RecomputeEligibility scid (put_connection scid c h) = Inr h1"
      "h' = host_calls [ScheduleArbiter] h1" using c(2) by (auto simp: res_simps)
    have "retx_inv {} h1" using rsc_Recompute_inv [OF h1(1) changed_inv [of h]] assms(2) by simp
    then show ?thesis using h1(2) retx_same_inv [of "{}" h1] by simp
  qed (use c(2) assms(2) in simp)
qed (use assms in \<open>simp add: rsc_EnqueuePacket_def\<close>)

lemma rsc_DequeuePacket_inv:
  assumes "rsc_DequeuePacket scid rsn type h = Inr (st, h')" and "retx_inv {} h"
  shows "retx_inv {} h'"
proof (cases "fh_connections h scid")
  case (Some x)
  then obtain st1 c where c: "retx_DequeuePacket rsn type (hc_conn x) = Inr (st1, c)"
    "(if st1 \<noteq> OkStatus then Inr (st1, h) else res_bind (rsc_RecomputeEligibility scid (put_connection scid c h))
        (\<lambda>h1. Inr (OkStatus, h1))) = Inr (st, h')"
    using assms(1) by (auto simp: rsc_DequeuePacket_def res_bind_eq_Inr)
  show ?thesis
  proof (cases "st1 = OkStatus")
    case True
    then have h1: "rsc_RecomputeEligibility scid (put_connection scid c h) = Inr h'" using c(2) by (auto simp: res_simps)
    show ?thesis using rsc_Recompute_inv [OF h1 changed_inv [of h]] assms(2) by simp
  qed (use c(2) assms(2) in simp)
qed (use assms in \<open>simp add: rsc_DequeuePacket_def\<close>)

text \<open>Asking the policy, or taking its next entity, changes neither the active connections nor their windows.\<close>

lemma retx_inv_policy:
  assumes "retx_inv S h" and "vanilla_ok p" and "entities p = entities (rsc_policy (fh_retx h))"
    and "actives p = actives (rsc_policy (fh_retx h))"
  shows "retx_inv S (h\<lparr>fh_retx := (fh_retx h)\<lparr>rsc_policy := p\<rparr>\<rparr>)"
  using assms by (auto simp: retx_inv_def retx_ready_def retx_eligible_def next_window_type_def)

lemma rsc_HasWork_spec:
  assumes "retx_inv {} h"
  shows "\<exists>h'. rsc_HasWork E h = Inr (he_can_send E \<and> actives (rsc_policy (fh_retx h)) \<noteq> {}, h') \<and> retx_inv {} h' \<and>
    actives (rsc_policy (fh_retx h')) = actives (rsc_policy (fh_retx h)) \<and> fh_connections h' = fh_connections h \<and>
    rsc_next_window_type (fh_retx h') = rsc_next_window_type (fh_retx h)"
proof (cases "he_can_send E")
  case True
  have v: "vanilla_ok (rsc_policy (fh_retx h))" using assms by (simp add: retx_inv_def)
  obtain p where "HasWork None (rsc_policy (fh_retx h)) = Inr (actives (rsc_policy (fh_retx h)) \<noteq> {}, p)" "vanilla_ok p"
    "entities p = entities (rsc_policy (fh_retx h))" "actives p = actives (rsc_policy (fh_retx h))"
    using rr.work_law [OF v] by blast
  then show ?thesis using True retx_inv_policy [OF assms] by (simp add: rsc_HasWork_def)
qed (use assms in \<open>simp add: rsc_HasWork_def\<close>)

text \<open>
  What the scheduler does when it has work: an active connection is chosen, the head of the queue of its next
  window meets the criteria, the window is switched, and the packet goes out.
\<close>

lemma rsc_ScheduleWork_spec:
  assumes "retx_inv {} h" and "actives (rsc_policy (fh_retx h)) \<noteq> {}"
  obtains scid x q w ws h2 where "scid \<in> actives (rsc_policy (fh_retx h))" "fh_connections h scid = Some x"
    "q = next_window_type (fh_retx h) scid" "retx_queue q (hc_conn x) = w # ws" "hc_is_op_rate_limited x = 0"
    "MeetsRetransmissionCCTxGatingCriteria (wid_psn w) (wid_type w) (hc_conn x) = Inr True"
    "rsc_ScheduleWork E h = res_bind (rsc_SchedulePacket E scid q w h2) (\<lambda>h3. Inr (True, h3))" "retx_inv {scid} h2"
    "fh_connections h2 = fh_connections h" "next_window_type (fh_retx h2) scid = other_window q"
proof -
  have v: "vanilla_ok (rsc_policy (fh_retx h))" using assms by (simp add: retx_inv_def)
  obtain scid p where p: "GetNextEntity None (rsc_policy (fh_retx h)) = Inr (Inr scid, p)" "vanilla_ok p"
    "entities p = entities (rsc_policy (fh_retx h))" "actives p = actives (rsc_policy (fh_retx h))"
    "scid \<in> actives (rsc_policy (fh_retx h))"
    by (rule rr.next_cases [OF v]) (use assms(2) in auto)
  let ?h1 = "h\<lparr>fh_retx := (fh_retx h)\<lparr>rsc_policy := p\<rparr>\<rparr>" and ?q = "next_window_type (fh_retx h) scid"
  let ?h2 = "?h1\<lparr>fh_retx := (fh_retx ?h1)\<lparr>rsc_next_window_type := (rsc_next_window_type (fh_retx h))(scid \<mapsto> other_window ?q)\<rparr>\<rparr>"
  have inv1: "retx_inv {} ?h1" using retx_inv_policy [OF assms(1)] p by simp
  obtain x where x: "fh_connections h scid = Some x" "hc_is_op_rate_limited x = 0"
    "retx_window_ready ?q (hc_conn x) = Inr True"
    using retx_inv_active [OF assms(1) p(5)] by (auto simp: retx_ready_def)
  obtain w ws where w: "retx_queue ?q (hc_conn x) = w # ws"
    "MeetsRetransmissionCCTxGatingCriteria (wid_psn w) (wid_type w) (hc_conn x) = Inr True"
    using x(3) by (auto simp: retx_window_ready_def split: list.splits)
  have q1: "next_window_type ((fh_retx h)\<lparr>rsc_policy := p\<rparr>) scid = ?q" by (simp add: next_window_type_def)
  have "scid \<in> entities p" using p active_entity v by (auto simp: vanilla_ok_def)
  then have "retx_inv {scid} ?h2"
    using inv1 by (auto simp: retx_inv_def retx_ready_def retx_eligible_def next_window_type_def)
  moreover have "rsc_ScheduleWork E h = res_bind (rsc_SchedulePacket E scid ?q w ?h2) (\<lambda>h3. Inr (True, h3))"
    using p(1) x w q1 by (simp add: rsc_ScheduleWork_def host_lookup_def rsc_CanSend_def Let_def)
  ultimately show thesis using that p(5) x w by (simp add: next_window_type_def)
qed

section \<open>Runs of the scheduler\<close>

text \<open>
  The states of a host as the retransmission scheduler meets them: its own operations, the event that lifts a rate
  limit, and any change of a connection by the rest of the host (with anything else outside this scheduler), which the
  gating function follows. A connection is initialized when it is created, with empty queues.
\<close>

inductive retx_run :: "falcon_host \<Rightarrow> bool" where
  start: "fh_retx h = \<lparr>rsc_policy = wrr_new False True, rsc_next_window_type = Map.empty\<rparr> \<Longrightarrow> retx_run h"
| init: "retx_run h \<Longrightarrow> rsc_InitConnectionSchedulerQueues scid (fh_retx h) = Inr (st, r) \<Longrightarrow>
    fh_connections h scid = Some x \<Longrightarrow> retx_queue kRequestWindow (hc_conn x) = [] \<Longrightarrow>
    retx_queue kDataWindow (hc_conn x) = [] \<Longrightarrow> retx_run (h\<lparr>fh_retx := r\<rparr>)"
| enqueue: "retx_run h \<Longrightarrow> rsc_EnqueuePacket scid rsn type h = Inr (st, h') \<Longrightarrow> retx_run h'"
| dequeue: "retx_run h \<Longrightarrow> rsc_DequeuePacket scid rsn type h = Inr (st, h') \<Longrightarrow> retx_run h'"
| work: "retx_run h \<Longrightarrow> rsc_HasWork E h = Inr (True, h1) \<Longrightarrow> rsc_ScheduleWork E h1 = Inr (b, h') \<Longrightarrow> retx_run h'"
| idle: "retx_run h \<Longrightarrow> rsc_HasWork E h = Inr (False, h') \<Longrightarrow> retx_run h'"
| rate: "retx_run h \<Longrightarrow> op_rate_event E scid h = Inr h' \<Longrightarrow> retx_run h'"
| outside: "retx_run h \<Longrightarrow> retx_same {scid} h h1 \<Longrightarrow> gate E scid h1 = Inr h' \<Longrightarrow> retx_run h'"

lemma rsc_Init_inv:
  assumes "rsc_InitConnectionSchedulerQueues scid (fh_retx h) = Inr (st, r)" and "retx_inv {} h"
    and "fh_connections h scid = Some x" and "retx_queue kRequestWindow (hc_conn x) = []"
    and "retx_queue kDataWindow (hc_conn x) = []"
  shows "retx_inv {} (h\<lparr>fh_retx := r\<rparr>)"
proof (cases "rsc_next_window_type (fh_retx h) scid")
  case None
  then have new: "scid \<notin> entities (rsc_policy (fh_retx h))" using assms(2) by (auto simp: retx_inv_def)
  have v: "vanilla_ok (rsc_policy (fh_retx h))" using assms(2) by (simp add: retx_inv_def)
  obtain p where p: "InitializeEntity None scid (rsc_policy (fh_retx h)) = (OkStatus, p)" "vanilla_ok p"
    "entities p = insert scid (entities (rsc_policy (fh_retx h)))" "actives p = actives (rsc_policy (fh_retx h))"
    using vanilla_init [OF v new] by blast
  have r: "r = (fh_retx h)\<lparr>rsc_policy := p, rsc_next_window_type := (rsc_next_window_type (fh_retx h))(scid \<mapsto> kRequestWindow)\<rparr>"
    using assms(1) None p(1) by (simp add: rsc_InitConnectionSchedulerQueues_def)
  have "scid \<notin> actives p" using new p(4) active_entity v by (auto simp: vanilla_ok_def)
  moreover have "\<not> retx_eligible (h\<lparr>fh_retx := r\<rparr>) scid"
    using assms(3-5) by (simp add: retx_eligible_def window_type_ex retx_window_ready_def)
  moreover have "retx_eligible (h\<lparr>fh_retx := r\<rparr>) y = retx_eligible h y" for y by (simp add: retx_eligible_def)
  moreover have "retx_ready (h\<lparr>fh_retx := r\<rparr>) y = retx_ready h y" if "y \<noteq> scid" for y
    using that r by (simp add: retx_ready_def next_window_type_def)
  ultimately have "\<forall>y \<in> entities p. (y \<in> actives p \<longleftrightarrow> retx_eligible (h\<lparr>fh_retx := r\<rparr>) y) \<and>
      (y \<in> actives p \<longrightarrow> retx_ready (h\<lparr>fh_retx := r\<rparr>) y)"
    using assms(2) p(3,4) unfolding retx_inv_def by (metis Diff_empty insert_iff)
  then show ?thesis using assms(2) p r by (auto simp: retx_inv_def)
next
  case (Some q)
  then have "r = fh_retx h" using assms(1) by (simp add: rsc_InitConnectionSchedulerQueues_def)
  then show ?thesis using assms(2) by simp
qed

lemma retx_run_inv: "retx_run h \<Longrightarrow> retx_inv {} h"
proof (induction rule: retx_run.induct)
  case (start h)
  then show ?case by (simp add: retx_inv_def vanilla_new)
next
  case (init h scid st r x)
  then show ?case using rsc_Init_inv by blast
next
  case (work h E h1 b h')
  obtain h1' where h1': "rsc_HasWork E h = Inr (he_can_send E \<and> actives (rsc_policy (fh_retx h)) \<noteq> {}, h1')"
    "retx_inv {} h1'" "actives (rsc_policy (fh_retx h1')) = actives (rsc_policy (fh_retx h))"
    using rsc_HasWork_spec [OF work.IH] by blast
  then have e: "h1' = h1" "actives (rsc_policy (fh_retx h1)) \<noteq> {}" using work.hyps(2) by auto
  show ?case
  proof (rule rsc_ScheduleWork_spec [OF h1'(2) [unfolded e(1)] e(2), of E])
    fix scid x q w ws h2
    assume s: "rsc_ScheduleWork E h1 = res_bind (rsc_SchedulePacket E scid q w h2) (\<lambda>h3. Inr (True, h3))" "retx_inv {scid} h2"
    then have "rsc_SchedulePacket E scid q w h2 = Inr h'" 
      using work.hyps(3) by (cases "rsc_SchedulePacket E scid q w h2") simp_all
    then show ?case by (rule rsc_SchedulePacket_inv [OF _ s(2)])
  qed
next
  case (idle h E h')
  then show ?case using rsc_HasWork_spec [of h E] by auto
next
  case (rate h E scid h')
  then show ?case using set_op_rate_limited_inv [of E scid 0 h h' "{}"] by (auto simp: op_rate_event_def res_simps)
next
  case (outside h scid h1 E h')
  then show ?case using gate_inv [OF outside.hyps(3) changed_inv] by blast
qed (use rsc_EnqueuePacket_inv rsc_DequeuePacket_inv in blast)+

section \<open>Examples\<close>

text \<open>
  Two ordered connections with a request each: a pull request of 200 bytes on connection 5, a push request on connection 6. The
  admission window of the host and its connection scheduler are arguments.
\<close>

definition example_tx_txn :: "transaction_type \<Rightarrow> packet_type list \<Rightarrow> transaction_metadata" where
  "example_tx_txn ttype types = (TransactionMetadata_new 9 ttype kInitiator)\<lparr>tm_request_length := 200,
     tm_state := (if ttype = kPull then kPullReqUlpRx else kPushSolicitedReqUlpRx),
     tm_packets := (\<lambda>type. if type \<in> set types
       then Some (PacketMetadata_new type kOutgoing (Some (packet_default\<lparr>pkt_type := type\<rparr>)) (type \<noteq> kPushSolicitedData)) else None)\<rparr>"

definition example_sender :: "u32 \<Rightarrow> transaction_type \<Rightarrow> packet_type list \<Rightarrow> host_connection" where
  "example_sender scid ttype types =
     \<lparr>hc_conn = example_connection\<lparr>cn_state := (ConnectionState_new 1 scid kOrdered)\<lparr>cs_transactions :=
         [(9, kInitiator) \<mapsto> example_tx_txn ttype types]\<rparr>,
         cn_ack_coalescing_entry := Some \<lparr>ace_forward_hops = 0, ace_timestamp_1 = ZeroDuration, ace_timestamp_2 = ZeroDuration,
           ace_flow_label = 0, ace_coalescing_counter_threshold = 8, ace_coalescing_timeout_threshold = Finite 40,
           ace_coalescing_counter = 0, ace_timer_trigger_time = ZeroDuration\<rparr>\<rparr>,
      hc_is_op_rate_limited = 0, hc_last_packet_send_time = ZeroDuration\<rparr>"

definition example_host_env :: "int \<Rightarrow> host_env" where
  "example_host_env now = \<lparr>he_prm = example_env now,
     he_admission = \<lparr>ac_policy = RX_WINDOW_BASED, cfg_admission_window_bytes = 0,
       rx_rate_limiter_metadata = \<lparr>solicitation_rate_gbps = 0, burst_size_bytes = 0, refill_interval_ns = 0\<rparr>,
       tx_rate_limiter_metadata = \<lparr>solicitation_rate_gbps = 0, burst_size_bytes = 0, refill_interval_ns = 0\<rparr>\<rparr>,
     he_floor_fdiv = (\<lambda>x y. x div y), he_now = now, he_can_send = True\<rparr>"

definition example_prm :: prm_shared where
  "example_prm = \<lparr>ar_passed_packets = 0, ar_next = 5, ar_draws = 0, ar_draw = (\<lambda>_. 5),
     ack_token_bucket = \<lparr>tokens_per_refill_interval = 1, bucket_refill_interval = 1, bucket_size = 1, available_tokens = 1, last_refill_timestamp = 0\<rparr>,
     cf_enable_ack_request_bit = False, cf_ack_request_fcwnd_threshold = 0, cf_op_boundary_ar_bit = False\<rparr>"

definition example_host :: "u64 \<Rightarrow> connection_scheduler \<Rightarrow> falcon_host" where
  "example_host window s =
     \<lparr>fh_connections = [5 \<mapsto> example_sender 5 kPull [kPullRequest],
                        6 \<mapsto> example_sender 6 kPushSolicited [kPushRequest, kPushSolicitedData]],
      fh_prm = example_prm,
      fh_admission = \<lparr>ac_window = Some \<lparr>admission_window_bytes = window, solicited_data_bytes = 0\<rparr>, rx_bucket = None, tx_bucket = None\<rparr>,
      fh_sched = s, fh_retx = \<lparr>rsc_policy = wrr_new False True, rsc_next_window_type = Map.empty\<rparr>, fh_calls = []\<rparr>"

definition example_sched :: connection_scheduler where
  "example_sched = \<lparr>csc_pkt_count = (\<lambda>_. 0), csc_packet_type_policy = wrr_new False True,
     csc_connection_policy = (\<lambda>_. wrr_new False True), csc_phantom_policy = wrr_new False False,
     csc_ordered_push_policy = wrr_new False False, csc_queues = Map.empty, csc_last_push_unsolicited_data_rsn = 0,
     csc_sent_out_push_unsolicited_data = False\<rparr>"

text \<open>The pull request of connection 5 queued for retransmission.\<close>

definition retx_queued :: "falcon_host res" where
  "retx_queued =
     (let h = example_host 0 example_sched in
      res_bind (rsc_InitConnectionSchedulerQueues 5 (fh_retx h)) (\<lambda>(_, r).
      res_bind (rsc_EnqueuePacket 5 9 kPullRequest (h\<lparr>fh_retx := r\<rparr>)) (\<lambda>(_, h'). Inr h')))"

lemma retx_queued_run:
  assumes "retx_queued = Inr h"
  shows "retx_run h"
proof -
  let ?h = "example_host 0 example_sched"
  obtain st1 r st2 where r: "rsc_InitConnectionSchedulerQueues 5 (fh_retx ?h) = Inr (st1, r)"
    "rsc_EnqueuePacket 5 9 kPullRequest (?h\<lparr>fh_retx := r\<rparr>) = Inr (st2, h)"
    using assms by (auto simp: retx_queued_def Let_def res_bind_eq_Inr)
  have "retx_run ?h" by (rule retx_run.start) (simp add: example_host_def)
  then have "retx_run (?h\<lparr>fh_retx := r\<rparr>)"
    by (rule retx_run.init [OF _ r(1), of "example_sender 5 kPull [kPullRequest]"])
      (simp_all add: example_host_def example_sender_def example_connection_def retx_queue_def)
  then show ?thesis by (rule retx_run.enqueue [OF _ r(2)])
qed

lemma retx_queued_work:
  "\<exists>h h1. retx_queued = Inr h \<and> rsc_HasWork (example_host_env 3) h = Inr (True, h1)"
proof -
  have "case retx_queued of Inl _ \<Rightarrow> False | Inr h \<Rightarrow> (case rsc_HasWork (example_host_env 3) h of Inl _ \<Rightarrow> False | Inr (b, h1) \<Rightarrow> b)"
    by code_simp
  then show ?thesis by (auto split: sum.splits)
qed

section \<open>Properties\<close>



end
