(* ===== verification/Connection_Scheduler.thy ===== *)
theory Connection_Scheduler
  imports Retransmission_Scheduler
begin

text \<open>
  The scheduler of first transmissions, \<^verbatim>\<open>src/isekai/host/falcon/gen1/connection_scheduler.cc\<close>. Every
  connection has a queue for each of five packet types; a weighted round-robin policy picks the packet type (weights follow
  the number of queued packets), a round-robin policy per type the connection. On an ordered connection an
  unsolicited push leaves a phantom request in the request queue, and the data of a solicited push is queued with its
  request, so that data leaves in the order of requests.
\<close>

section \<open>Construction\<close>

fun init_types :: "packet_type_queue list \<Rightarrow> packet_type_queue wrr \<Rightarrow> packet_type_queue wrr res" where
  "init_types [] p = Inr p"
| "init_types (q # qs) p =
     (let (st, p') = InitializeEntity (Some (\<lambda>_. 0)) q p in check (st = OkStatus) (init_types qs p'))"

definition ProtocolConnectionScheduler :: "connection_scheduler res" where
  "ProtocolConnectionScheduler =
     res_bind (init_types kQueueTypes (wrr_new False True)) (\<lambda>p.
       Inr \<lparr>csc_pkt_count = (\<lambda>_. 0), csc_packet_type_policy = p, csc_connection_policy = (\<lambda>_. wrr_new False True),
            csc_phantom_policy = wrr_new False False, csc_ordered_push_policy = wrr_new False False,
            csc_queues = Map.empty, csc_last_push_unsolicited_data_rsn = 0, csc_sent_out_push_unsolicited_data = False\<rparr>)"

fun init_connection_policies ::
  "u32 \<Rightarrow> packet_type_queue list \<Rightarrow> connection_scheduler \<Rightarrow> status \<times> connection_scheduler" where
  "init_connection_policies scid [] s = (OkStatus, s)"
| "init_connection_policies scid (q # qs) s =
     (let (st, p) = InitializeEntity None scid (csc_connection_policy s q)
      in if st \<noteq> OkStatus then (st, s)
         else init_connection_policies scid qs (s\<lparr>csc_connection_policy := (csc_connection_policy s)(q := p)\<rparr>))"

definition csc_InitConnectionSchedulerQueues :: "u32 \<Rightarrow> connection_scheduler \<Rightarrow> (status \<times> connection_scheduler) res" where
  "csc_InitConnectionSchedulerQueues scid s =
     (if csc_queues s scid \<noteq> None then Inr (AlreadyExistsError, s)
      else let (st, s1) = init_connection_policies scid kQueueTypes
                 (s\<lparr>csc_queues := (csc_queues s)(scid \<mapsto> (\<lambda>_. []))\<rparr>)
           in if st \<noteq> OkStatus then Inr (st, s1)
              else let (st1, p1) = InitializeEntity None scid (csc_ordered_push_policy s1);
                       (st2, p2) = InitializeEntity None scid (csc_phantom_policy s1)
                   in check (st1 = OkStatus \<and> st2 = OkStatus)
                        (Inr (OkStatus, s1\<lparr>csc_ordered_push_policy := p1, csc_phantom_policy := p2\<rparr>)))"

section \<open>Enqueueing\<close>

definition UpdateOutstandingPacketCount :: "packet_type_queue \<Rightarrow> bool \<Rightarrow> connection_scheduler \<Rightarrow> connection_scheduler" where
  "UpdateOutstandingPacketCount q is_dequeued s =
     s\<lparr>csc_pkt_count := (csc_pkt_count s)(q := (if is_dequeued then csc_pkt_count s q - 1 else csc_pkt_count s q + 1))\<rparr>"

definition enqueue_work :: "u32 \<Rightarrow> packet_type_queue \<Rightarrow> work_id \<Rightarrow> connection_scheduler \<Rightarrow> connection_scheduler" where
  "enqueue_work scid q w s = s\<lparr>csc_queues := (csc_queues s)(scid \<mapsto> queues_Enqueue q w (queues_of s scid))\<rparr>"

text \<open>The \<^verbatim>\<open>switch\<close>: the queue of a packet, by its type and whether the connection is ordered.\<close>

fun queue_type_of :: "bool \<Rightarrow> packet_type \<Rightarrow> packet_type_queue res" where
  "queue_type_of ordered kPullRequest = Inr kPullAndOrderedPushRequest"
| "queue_type_of ordered kPushRequest = Inr (if ordered then kPullAndOrderedPushRequest else kUnorderedPushRequest)"
| "queue_type_of ordered kPullData = Inr kPullDataQ"
| "queue_type_of ordered kPushGrant = Inr kPushGrantQ"
| "queue_type_of ordered kPushSolicitedData = Inr kPushDataQ"
| "queue_type_of ordered kPushUnsolicitedData = Inr kPushDataQ"
| "queue_type_of ordered _ = Inl LogFatal"

text \<open>The data of an ordered solicited push is in its queue already: it becomes eligible and is counted now.\<close>

definition grant_ordered_data :: "u32 \<Rightarrow> u32 \<Rightarrow> falcon_host \<Rightarrow> falcon_host res" where
  "grant_ordered_data scid rsn h =
     res_bind (GetTransactionLocation kPushSolicitedData False) (\<lambda>location.
       Inr (update_connection scid (\<lambda>x. x\<lparr>hc_conn := update_packet (rsn, location) kPushSolicitedData
              (pm_is_transmission_eligible_update (\<lambda>_. True)) (hc_conn x)\<rparr>)
           (h\<lparr>fh_sched := UpdateOutstandingPacketCount kPushDataQ False (fh_sched h)\<rparr>)))"

definition has_packet :: "transaction_metadata \<Rightarrow> packet_type \<Rightarrow> bool" where
  "has_packet t type \<longleftrightarrow> tm_packets t type \<noteq> None"

text \<open>The work items a packet adds besides its own: a phantom request, or the data of an ordered push request.\<close>

definition add_companion ::
  "bool \<Rightarrow> u32 \<Rightarrow> u32 \<Rightarrow> packet_type \<Rightarrow> transaction_metadata \<Rightarrow> connection_scheduler \<Rightarrow> connection_scheduler res" where
  "add_companion ordered scid rsn type t s =
     (if ordered \<and> type = kPushUnsolicitedData
      then check (has_packet t kInvalid)
             (Inr (enqueue_work scid kPullAndOrderedPushRequest \<lparr>wk_rsn = rsn, wk_type = kInvalid\<rparr>
                (UpdateOutstandingPacketCount kPullAndOrderedPushRequest False s)))
      else if ordered \<and> type = kPushRequest
      then check (has_packet t kPushSolicitedData)
             (Inr (enqueue_work scid kPushDataQ \<lparr>wk_rsn = rsn, wk_type = kPushSolicitedData\<rparr> s))
      else Inr s)"

definition AddPacketToQueue :: "u32 \<Rightarrow> u32 \<Rightarrow> packet_type \<Rightarrow> falcon_host \<Rightarrow> falcon_host res" where
  "AddPacketToQueue scid rsn type h =
     res_bind (host_lookup h scid) (\<lambda>x.
     res_bind (lookup_packet (hc_conn x) rsn type) (\<lambda>(t, m).
     let ordered = (cs_ordered_mode (cn_state (hc_conn x)) = kOrdered) in
     res_bind (queue_type_of ordered type) (\<lambda>q.
       if ordered \<and> type = kPushSolicitedData then grant_ordered_data scid rsn h
       else res_bind (add_companion ordered scid rsn type t
              (UpdateOutstandingPacketCount q False (enqueue_work scid q \<lparr>wk_rsn = rsn, wk_type = type\<rparr> (fh_sched h))))
            (\<lambda>s. Inr (h\<lparr>fh_sched := s\<rparr>)))))"

definition csc_EnqueuePacket :: "host_env \<Rightarrow> u32 \<Rightarrow> u32 \<Rightarrow> packet_type \<Rightarrow> falcon_host \<Rightarrow> (status \<times> falcon_host) res" where
  "csc_EnqueuePacket E scid rsn type h =
     res_bind (AddPacketToQueue scid rsn type h) (\<lambda>h1.
     res_bind (csc_RecomputeEligibility E scid h1) (\<lambda>h2. Inr (OkStatus, host_calls [ScheduleArbiter] h2)))"

definition GetConnectionQueueLength :: "u32 \<Rightarrow> connection_scheduler \<Rightarrow> u32" where
  "GetConnectionQueueLength scid s = (\<Sum>q\<leftarrow>kQueueTypes. queues_GetSize q (queues_of s scid))"

section \<open>Scheduling\<close>

definition csc_CanSend :: "host_env \<Rightarrow> u32 \<Rightarrow> u32 \<Rightarrow> packet_type \<Rightarrow> falcon_host \<Rightarrow> (bool \<times> falcon_host) res" where
  "csc_CanSend E scid rsn type h =
     res_bind (host_lookup h scid) (\<lambda>x.
     res_bind (lookup_packet (hc_conn x) rsn type) (\<lambda>(t, m).
     res_bind (MeetsInitialTransmissionCCTxGatingCriteria type (hc_conn x)) (\<lambda>meets_cc.
     res_bind (MeetsAdmissionControlCriteria (he_admission E) (he_floor_fdiv E) (he_now E) (states_of h) scid rsn type
                 (fh_admission h)) (\<lambda>(meets_admission, a).
       Inr (pm_is_transmission_eligible m \<and> hc_is_op_rate_limited x = 0 \<and> meets_cc \<and> meets_admission \<and>
            MeetsInitialTransmissionOowTxGatingCriteria (he_prm E) type (hc_conn x), h\<lparr>fh_admission := a\<rparr>)))))"

definition reserve_admission :: "host_env \<Rightarrow> u32 \<Rightarrow> u32 \<Rightarrow> packet_type \<Rightarrow> falcon_host \<Rightarrow> falcon_host res" where
  "reserve_admission E scid rsn type h =
     res_bind (ReserveAdmissionControlResource (he_admission E) (he_now E) scid rsn type (states_of h) (fh_admission h))
       (\<lambda>(st, states, a). check (st = OkStatus) (Inr (put_states states (h\<lparr>fh_admission := a\<rparr>))))"

definition pop_work :: "u32 \<Rightarrow> packet_type_queue \<Rightarrow> falcon_host \<Rightarrow> falcon_host res" where
  "pop_work scid q h =
     res_bind (queues_Pop q (queues_of (fh_sched h) scid)) (\<lambda>qs.
       Inr (h\<lparr>fh_sched := (fh_sched h)\<lparr>csc_queues := (csc_queues (fh_sched h))(scid \<mapsto> qs)\<rparr>\<rparr>))"

text \<open>\<^verbatim>\<open>RecordRsnDiffMeasure\<close>; the comparison of sequence numbers is the plain one.\<close>

definition RecordRsnDiffMeasure :: "u32 \<Rightarrow> work_id \<Rightarrow> falcon_host \<Rightarrow> falcon_host" where
  "RecordRsnDiffMeasure scid w h =
     (let s = fh_sched h in
      if wk_type w = kPullRequest
      then if csc_sent_out_push_unsolicited_data s \<and> csc_last_push_unsolicited_data_rsn s < wk_rsn w
           then host_calls [UpdateMaxRsnDistance scid (wk_rsn w - csc_last_push_unsolicited_data_rsn s)] h else h
      else if wk_type w = kPushUnsolicitedData
      then h\<lparr>fh_sched := s\<lparr>csc_sent_out_push_unsolicited_data := True, csc_last_push_unsolicited_data_rsn := wk_rsn w\<rparr>\<rparr>
      else h)"

definition csc_SchedulePacket :: "host_env \<Rightarrow> u32 \<Rightarrow> packet_type_queue \<Rightarrow> work_id \<Rightarrow> falcon_host \<Rightarrow> falcon_host res" where
  "csc_SchedulePacket E scid q w h =
     res_bind (reserve_admission E scid (wk_rsn w) (wk_type w) h) (\<lambda>h1.
     let h2 = h1\<lparr>fh_sched := UpdateOutstandingPacketCount q True (fh_sched h1)\<rparr> in
     res_bind (host_lookup h2 scid) (\<lambda>x.
     res_bind (lookup_packet (hc_conn x) (wk_rsn w) (wk_type w)) (\<lambda>_.
     res_bind (limit_rate E scid h2) (\<lambda>h3.
     res_bind (mark_scheduled scid (wk_rsn w) (wk_type w) h3) (\<lambda>h4.
     res_bind (host_TransmitPacket E scid (wk_rsn w) (wk_type w) (RecordRsnDiffMeasure scid w h4)) (\<lambda>(st, h5).
     check (st = OkStatus)
       (res_bind (pop_work scid q h5) (csc_RecomputeEligibility E scid))))))))"

definition mark_phantom_handled :: "u32 \<Rightarrow> u32 \<Rightarrow> falcon_host \<Rightarrow> falcon_host res" where
  "mark_phantom_handled scid rsn h =
     res_bind (GetTransactionLocation kPushUnsolicitedData False) (\<lambda>location.
       Inr (update_connection scid (\<lambda>x. x\<lparr>hc_conn :=
         update_packet (rsn, location) kInvalid (pm_schedule_status_update (\<lambda>_. OkStatus))
           (update_packet (rsn, location) kPushUnsolicitedData (pm_is_transmission_eligible_update (\<lambda>_. True))
             (hc_conn x))\<rparr>) h))"

definition HandlePhantomRequest :: "host_env \<Rightarrow> u32 \<Rightarrow> packet_type_queue \<Rightarrow> work_id \<Rightarrow> falcon_host \<Rightarrow> falcon_host res" where
  "HandlePhantomRequest E scid q w h =
     res_bind (host_lookup h scid) (\<lambda>x.
     res_bind (lookup_packet (hc_conn x) (wk_rsn w) kPushUnsolicitedData) (\<lambda>(t, m).
     check (has_packet t (wk_type w))
       (res_bind (mark_phantom_handled scid (wk_rsn w) h) (\<lambda>h1.
        res_bind (pop_work scid q h1) (\<lambda>h2.
          csc_RecomputeEligibility E scid
            (h2\<lparr>fh_sched := UpdateOutstandingPacketCount q True (fh_sched h2)\<rparr>))))))"

text \<open>
  \<^verbatim>\<open>ScheduleWork\<close> in two parts: choosing the packet type, the connection and the head of its queue, and
  handing the work item on. When the packet builder does not accept packets, only a phantom request is chosen.
\<close>

definition choose_type :: "host_env \<Rightarrow> connection_scheduler \<Rightarrow> (packet_type_queue \<times> (status + u32) \<times> connection_scheduler) res" where
  "choose_type E s =
     (if he_can_send E
      then res_bind (GetNextEntity (Some (ComputePacketTypeWeight s)) (csc_packet_type_policy s)) (\<lambda>(e, p).
             case e of
               Inl _ \<Rightarrow> Inl CheckFailed
             | Inr q \<Rightarrow> res_bind (GetNextEntity None (csc_connection_policy s q)) (\<lambda>(c, p').
                 Inr (q, c, s\<lparr>csc_packet_type_policy := p,
                              csc_connection_policy := (csc_connection_policy s)(q := p')\<rparr>)))
      else res_bind (GetNextEntity None (csc_phantom_policy s)) (\<lambda>(c, p).
             Inr (kPullAndOrderedPushRequest, c, s\<lparr>csc_phantom_policy := p\<rparr>)))"

definition choose_work :: "host_env \<Rightarrow> falcon_host \<Rightarrow> (u32 \<times> packet_type_queue \<times> work_id \<times> falcon_host) res" where
  "choose_work E h =
     res_bind (choose_type E (fh_sched h)) (\<lambda>(q, c, s).
       case c of
         Inl _ \<Rightarrow> Inl CheckFailed
       | Inr scid \<Rightarrow> res_bind (queues_Peek q (queues_of s scid)) (\<lambda>w. Inr (scid, q, w, h\<lparr>fh_sched := s\<rparr>)))"

definition hand_on :: "host_env \<Rightarrow> u32 \<Rightarrow> packet_type_queue \<Rightarrow> work_id \<Rightarrow> falcon_host \<Rightarrow> falcon_host res" where
  "hand_on E scid q w h =
     (if wk_type w = kInvalid then HandlePhantomRequest E scid q w h
      else res_bind (csc_CanSend E scid (wk_rsn w) (wk_type w) h) (\<lambda>(ok, h1).
             check ok (csc_SchedulePacket E scid q w h1)))"

definition csc_ScheduleWork :: "host_env \<Rightarrow> falcon_host \<Rightarrow> (bool \<times> falcon_host) res" where
  "csc_ScheduleWork E h =
     res_bind (choose_work E h) (\<lambda>(scid, q, w, h1). res_bind (hand_on E scid q w h1) (\<lambda>h2. Inr (True, h2)))"

section \<open>What recomputation leaves alone\<close>

text \<open>The queues and the packet counts of the scheduler.\<close>

definition contents :: "connection_scheduler \<Rightarrow> (u32 \<rightharpoonup> sched_queues) \<times> (packet_type_queue \<Rightarrow> u64)" where
  "contents s = (csc_queues s, csc_pkt_count s)"

lemma contents_updates [simp]:
  "contents (s\<lparr>csc_connection_policy := a\<rparr>) = contents s" "contents (s\<lparr>csc_phantom_policy := p\<rparr>) = contents s"
  "contents (s\<lparr>csc_ordered_push_policy := p\<rparr>) = contents s" "contents (s\<lparr>csc_packet_type_policy := t\<rparr>) = contents s"
  "contents (s\<lparr>csc_sent_out_push_unsolicited_data := b\<rparr>) = contents s"
  "contents (s\<lparr>csc_last_push_unsolicited_data_rsn := n\<rparr>) = contents s"
  by (simp_all add: contents_def)

lemma contentsD:
  assumes "contents s = contents t"
  shows "csc_queues s = csc_queues t" "csc_pkt_count s = csc_pkt_count t" "queues_of s = queues_of t"
  using assms by (simp_all add: contents_def queues_of_def fun_eq_iff)

lemma mark_contents:
  "mark_queue b scid q s = Inr s' \<Longrightarrow> contents s' = contents s"
  "mark_phantom b scid s = Inr s' \<Longrightarrow> contents s' = contents s"
  "mark_ordered_push b scid s = Inr s' \<Longrightarrow> contents s' = contents s"
  by (auto simp: mark_queue_def mark_phantom_def mark_ordered_push_def res_simps)

lemma recompute_queue_contents:
  assumes "recompute_queue E scid x q s = Inr s'"
  shows "contents s' = contents s"
  using assms
  by (auto simp: recompute_queue_def recompute_criteria_def res_simps Let_def dest!: mark_contents split: list.splits if_splits)

lemma recompute_queues_contents: "recompute_queues E scid x qs s = Inr s' \<Longrightarrow> contents s' = contents s"
  by (induction qs arbitrary: s) (auto simp: res_simps dest: recompute_queue_contents)

lemma HasWork_contents:
  "ordered_push_HasWork s = Inr (b, s') \<Longrightarrow> contents s' = contents s"
  "phantom_HasWork s = Inr (b, s') \<Longrightarrow> contents s' = contents s"
  "queue_HasWork q s = Inr (b, s') \<Longrightarrow> contents s' = contents s"
  "packet_type_HasWork s = Inr (b, s') \<Longrightarrow> contents s' = contents s"
  by (auto simp: ordered_push_HasWork_def phantom_HasWork_def queue_HasWork_def packet_type_HasWork_def res_simps)

lemma recompute_type_contents: "recompute_type E q sa = Inr sa' \<Longrightarrow> contents (fst sa') = contents (fst sa)"
  by (cases sa; cases q) (auto simp: recompute_type_def type_allowed_def admission_allows_def res_simps
      dest!: HasWork_contents split: if_splits)

lemma recompute_types_contents: "recompute_types E qs sa = Inr sa' \<Longrightarrow> contents (fst sa') = contents (fst sa)"
  by (induction qs arbitrary: sa) (auto simp: res_bind_eq_Inr dest!: recompute_type_contents)

lemma csc_HasWork_contents: "csc_HasWork E s = Inr (b, s') \<Longrightarrow> contents s' = contents s"
  by (auto simp: csc_HasWork_def res_simps dest!: HasWork_contents split: if_splits)

lemma csc_Recompute_contents:
  assumes "csc_RecomputeEligibility E scid h = Inr h'"
  shows "contents (fh_sched h') = contents (fh_sched h)"
  using assms
  by (auto simp: csc_RecomputeEligibility_def res_simps Let_def
      dest!: recompute_queues_contents recompute_types_contents csc_HasWork_contents split: if_splits)

lemma rsc_Recompute_sched: "rsc_RecomputeEligibility scid h = Inr h' \<Longrightarrow> fh_sched h' = fh_sched h"
  by (auto simp: rsc_RecomputeEligibility_def res_simps Let_def split: if_splits)

lemma gate_contents: "gate E scid h = Inr h' \<Longrightarrow> contents (fh_sched h') = contents (fh_sched h)"
  by (auto simp: gate_def res_simps dest!: csc_Recompute_contents rsc_Recompute_sched)

lemma gates_contents: "gates E n scid h = Inr h' \<Longrightarrow> contents (fh_sched h') = contents (fh_sched h)"
  by (induction n arbitrary: h) (auto simp: res_simps dest: gate_contents)

lemma sched_updates [simp]:
  "fh_sched (put_connection scid c h) = fh_sched h" "fh_sched (update_connection scid f h) = fh_sched h"
  "fh_sched (put_op_rate_limited scid v h) = fh_sched h" "fh_sched (put_states st h) = fh_sched h"
  by (simp_all add: put_connection_def update_connection_def put_op_rate_limited_def put_states_def)

lemma limit_rate_contents: "limit_rate E scid h = Inr h' \<Longrightarrow> contents (fh_sched h') = contents (fh_sched h)"
  by (auto simp: limit_rate_def set_op_rate_limited_def gv_assign_def gv_call_def res_simps dest!: gate_contents split: if_splits)

lemma host_TransmitPacket_contents:
  "host_TransmitPacket E scid rsn type h = Inr (st, h') \<Longrightarrow> contents (fh_sched h') = contents (fh_sched h)"
  by (auto simp: host_TransmitPacket_def res_simps dest!: gates_contents split: option.splits)

lemma case_fault_eq_Inr: "(case e of Inl _ \<Rightarrow> Inl f | Inr x \<Rightarrow> g x) = Inr y \<longleftrightarrow> (\<exists>x. e = Inr x \<and> g x = Inr y)"
  by (cases e) auto

lemma choose_work_contents:
  assumes "choose_work E h = Inr (scid, q, w, h')"
  shows "contents (fh_sched h') = contents (fh_sched h) \<and> (\<exists>ws. queues_of (fh_sched h) scid q = w # ws) \<and>
    fh_connections h' = fh_connections h"
proof -
  obtain s where s: "choose_type E (fh_sched h) = Inr (q, Inr scid, s)" "queues_Peek q (queues_of s scid) = Inr w"
    "h' = h\<lparr>fh_sched := s\<rparr>"
    using assms by (auto simp: choose_work_def res_bind_eq_Inr case_fault_eq_Inr)
  have c: "contents s = contents (fh_sched h)"
    using s(1) by (auto simp: choose_type_def res_bind_eq_Inr case_fault_eq_Inr split: if_splits)
  then have "queues_of s = queues_of (fh_sched h)" by (rule contentsD)
  then show ?thesis using s c by (cases "queues_of (fh_sched h) scid q") (auto simp: queues_Peek_def res_simps)
qed

text \<open>Handing a work item on removes it from the head of its queue and from the count, and changes nothing else.\<close>

definition popped :: "u32 \<Rightarrow> packet_type_queue \<Rightarrow> connection_scheduler \<Rightarrow> connection_scheduler \<Rightarrow> bool" where
  "popped scid q s s' \<longleftrightarrow>
     csc_pkt_count s' = (csc_pkt_count s)(q := csc_pkt_count s q - 1) \<and>
     queues_of s' = (queues_of s)(scid := (queues_of s scid)(q := tl (queues_of s scid q))) \<and>
     dom (csc_queues s') = insert scid (dom (csc_queues s))"

lemma popped_contents:
  assumes "contents s = contents t" and "contents s' = contents t'"
  shows "popped scid q s s' \<longleftrightarrow> popped scid q t t'"
  by (simp add: popped_def contentsD [OF assms(1)] contentsD [OF assms(2)])

lemma pop_work_spec:
  assumes "pop_work scid q h = Inr h'"
  shows "csc_pkt_count (fh_sched h') = csc_pkt_count (fh_sched h)"
    "queues_of (fh_sched h') = (queues_of (fh_sched h))(scid := (queues_of (fh_sched h) scid)(q := tl (queues_of (fh_sched h) scid q)))"
    "dom (csc_queues (fh_sched h')) = insert scid (dom (csc_queues (fh_sched h)))"
  using assms by (auto simp: pop_work_def queues_Pop_def queues_of_def res_simps)

lemma count_fields [simp]:
  "csc_queues (UpdateOutstandingPacketCount q d s) = csc_queues s"
  "queues_of (UpdateOutstandingPacketCount q d s) = queues_of s"
  by (simp_all add: UpdateOutstandingPacketCount_def queues_of_def fun_eq_iff)

lemma HandlePhantomRequest_popped:
  assumes "HandlePhantomRequest E scid q w h = Inr h'"
  shows "popped scid q (fh_sched h) (fh_sched h')"
proof -
  obtain h1 h2 where h: "mark_phantom_handled scid (wk_rsn w) h = Inr h1" "pop_work scid q h1 = Inr h2"
    "csc_RecomputeEligibility E scid (h2\<lparr>fh_sched := UpdateOutstandingPacketCount q True (fh_sched h2)\<rparr>) = Inr h'"
    using assms by (auto simp: HandlePhantomRequest_def res_simps)
  have "fh_sched h1 = fh_sched h" using h(1) by (auto simp: mark_phantom_handled_def res_simps)
  then have "popped scid q (fh_sched h) (UpdateOutstandingPacketCount q True (fh_sched h2))"
    using pop_work_spec [OF h(2)] by (simp add: popped_def) (simp add: UpdateOutstandingPacketCount_def)
  then show ?thesis by (intro popped_contents [OF refl csc_Recompute_contents [OF h(3)], THEN iffD2]) simp
qed

lemma csc_SchedulePacket_popped:
  assumes "csc_SchedulePacket E scid q w h = Inr h'"
  shows "popped scid q (fh_sched h) (fh_sched h')"
proof -
  obtain h1 h3 h4 h5 h6 where h: "reserve_admission E scid (wk_rsn w) (wk_type w) h = Inr h1"
    "limit_rate E scid (h1\<lparr>fh_sched := UpdateOutstandingPacketCount q True (fh_sched h1)\<rparr>) = Inr h3"
    "mark_scheduled scid (wk_rsn w) (wk_type w) h3 = Inr h4"
    "host_TransmitPacket E scid (wk_rsn w) (wk_type w) (RecordRsnDiffMeasure scid w h4) = Inr (OkStatus, h5)"
    "pop_work scid q h5 = Inr h6" "csc_RecomputeEligibility E scid h6 = Inr h'"
    using assms by (auto simp: csc_SchedulePacket_def res_simps Let_def)
  have "fh_sched h1 = fh_sched h" using h(1) by (auto simp: reserve_admission_def res_simps)
  then have 3: "contents (fh_sched h3) = contents (UpdateOutstandingPacketCount q True (fh_sched h))"
    using limit_rate_contents [OF h(2)] by simp
  have "fh_sched h4 = fh_sched h3" using h(3) by (auto simp: mark_scheduled_def res_simps)
  moreover have "contents (fh_sched (RecordRsnDiffMeasure scid w h4)) = contents (fh_sched h4)"
    by (simp add: RecordRsnDiffMeasure_def Let_def)
  ultimately have 5: "contents (fh_sched h5) = contents (UpdateOutstandingPacketCount q True (fh_sched h))"
    using 3 host_TransmitPacket_contents [OF h(4)] by simp
  then have "queues_of (fh_sched h5) = queues_of (fh_sched h)" "csc_queues (fh_sched h5) = csc_queues (fh_sched h)"
    "csc_pkt_count (fh_sched h5) = (csc_pkt_count (fh_sched h))(q := csc_pkt_count (fh_sched h) q - 1)"
    using contentsD [OF 5] by (simp_all) (simp add: UpdateOutstandingPacketCount_def)
  then have "popped scid q (fh_sched h) (fh_sched h6)" using pop_work_spec [OF h(5)] by (simp add: popped_def)
  then show ?thesis by (rule popped_contents [OF refl csc_Recompute_contents [OF h(6)], THEN iffD2])
qed

lemma hand_on_popped:
  assumes "hand_on E scid q w h = Inr h'"
  shows "popped scid q (fh_sched h) (fh_sched h')"
proof (cases "wk_type w = kInvalid")
  case False
  then obtain h1 where h1: "csc_CanSend E scid (wk_rsn w) (wk_type w) h = Inr (True, h1)" "csc_SchedulePacket E scid q w h1 = Inr h'"
    using assms by (auto simp: hand_on_def res_simps)
  then have "fh_sched h1 = fh_sched h" by (auto simp: csc_CanSend_def res_simps)
  then show ?thesis using csc_SchedulePacket_popped [OF h1(2)] by simp
qed (use assms HandlePhantomRequest_popped in \<open>simp add: hand_on_def\<close>)

section \<open>First in, first out\<close>

text \<open>
  The work items that a packet adds to the queues, in order: its own (not for granted data of an ordered connection,
  which is queued already) and its companion.
\<close>

definition placed :: "bool \<Rightarrow> u32 \<Rightarrow> packet_type \<Rightarrow> packet_type_queue \<Rightarrow> (packet_type_queue \<times> work_id) list" where
  "placed ordered rsn type q =
     (if ordered \<and> type = kPushSolicitedData then [] else [(q, \<lparr>wk_rsn = rsn, wk_type = type\<rparr>)]) @
     (if ordered \<and> type = kPushUnsolicitedData then [(kPullAndOrderedPushRequest, \<lparr>wk_rsn = rsn, wk_type = kInvalid\<rparr>)]
      else if ordered \<and> type = kPushRequest then [(kPushDataQ, \<lparr>wk_rsn = rsn, wk_type = kPushSolicitedData\<rparr>)] else [])"

text \<open>The queues that a packet adds to the counts: granted data is counted here, data queued with its request is not.\<close>

definition counted :: "bool \<Rightarrow> packet_type \<Rightarrow> packet_type_queue \<Rightarrow> packet_type_queue list" where
  "counted ordered type q = q # (if ordered \<and> type = kPushUnsolicitedData then [kPullAndOrderedPushRequest] else [])"

type_synonym work_log = "(u32 \<times> packet_type_queue \<times> work_id) list"

definition in_queue :: "u32 \<Rightarrow> packet_type_queue \<Rightarrow> work_log \<Rightarrow> work_id list" where
  "in_queue scid q log = map (\<lambda>(_, _, w). w) (filter (\<lambda>(c, p, _). c = scid \<and> p = q) log)"

lemma in_queue_simps [simp]:
  "in_queue scid q [] = []" "in_queue scid q (xs @ ys) = in_queue scid q xs @ in_queue scid q ys"
  "in_queue scid q ((c, p, w) # log) = (if c = scid \<and> p = q then w # in_queue scid q log else in_queue scid q log)"
  by (simp_all add: in_queue_def)

lemma queues_of_enqueue [simp]:
  "queues_of (enqueue_work scid q w s) = (queues_of s)(scid := (queues_of s scid)(q := queues_of s scid q @ [w]))"
  by (simp add: enqueue_work_def queues_of_def queues_Enqueue_def fun_eq_iff)

lemma AddPacketToQueue_spec:
  assumes "AddPacketToQueue scid rsn type h = Inr h'"
  obtains x q where "fh_connections h scid = Some x"
    "queue_type_of (cs_ordered_mode (cn_state (hc_conn x)) = kOrdered) type = Inr q"
    "\<And>c p. queues_of (fh_sched h') c p = queues_of (fh_sched h) c p @
       in_queue c p (map (Pair scid) (placed (cs_ordered_mode (cn_state (hc_conn x)) = kOrdered) rsn type q))"
    "\<And>p. csc_pkt_count (fh_sched h') p = csc_pkt_count (fh_sched h) p +
       of_nat (count_list (counted (cs_ordered_mode (cn_state (hc_conn x)) = kOrdered) type q) p)"
proof -
  obtain x t m q where x: "fh_connections h scid = Some x" "lookup_packet (hc_conn x) rsn type = Inr (t, m)"
    "queue_type_of (cs_ordered_mode (cn_state (hc_conn x)) = kOrdered) type = Inr q"
    using assms by (auto simp: AddPacketToQueue_def host_lookup_def res_simps Let_def split: option.splits)
  let ?o = "cs_ordered_mode (cn_state (hc_conn x)) = kOrdered"
  show thesis
  proof (rule that [OF x(1) x(3)])
    show "queues_of (fh_sched h') c p = queues_of (fh_sched h) c p @ in_queue c p (map (Pair scid) (placed ?o rsn type q))" for c p
      using assms x
      by (auto simp: AddPacketToQueue_def host_lookup_def Let_def grant_ordered_data_def add_companion_def placed_def res_simps
          split: if_splits)
    show "csc_pkt_count (fh_sched h') p = csc_pkt_count (fh_sched h) p + of_nat (count_list (counted ?o type q) p)" for p
      using assms x
      by (auto simp: AddPacketToQueue_def host_lookup_def Let_def grant_ordered_data_def add_companion_def counted_def
          UpdateOutstandingPacketCount_def enqueue_work_def res_simps split: if_splits)
  qed
qed

text \<open>
  Runs of the scheduler on a host: \<open>ins\<close> lists the work items put into queues, \<open>cnt\<close> the queues whose count was
  raised, \<open>outs\<close> the work items handed on. Between its operations the rest of the host may change a connection (and
  anything else outside the scheduler), which the gating function follows. \<open>P\<close> fixes the configuration of the sliding window layer.
\<close>

definition same_config :: "prm_env \<Rightarrow> host_env \<Rightarrow> bool" where
  "same_config P E \<longleftrightarrow> cf_enable_pause_initial_transmission_on_oow_drops (he_prm E) =
     cf_enable_pause_initial_transmission_on_oow_drops P"

inductive csc_run :: "prm_env \<Rightarrow> work_log \<Rightarrow> packet_type_queue list \<Rightarrow> work_log \<Rightarrow> falcon_host \<Rightarrow> bool" for P where
  start: "ProtocolConnectionScheduler = Inr (fh_sched h) \<Longrightarrow> csc_run P [] [] [] h"
| init: "csc_run P ins cnt outs h \<Longrightarrow> csc_InitConnectionSchedulerQueues scid (fh_sched h) = Inr (st, s) \<Longrightarrow>
    csc_run P ins cnt outs (h\<lparr>fh_sched := s\<rparr>)"
| enqueue: "csc_run P ins cnt outs h \<Longrightarrow> same_config P E \<Longrightarrow> csc_queues (fh_sched h) scid \<noteq> None \<Longrightarrow>
    csc_EnqueuePacket E scid rsn type h = Inr (st, h') \<Longrightarrow> fh_connections h scid = Some x \<Longrightarrow> ordered = (cs_ordered_mode (cn_state (hc_conn x)) = kOrdered) \<Longrightarrow>
    queue_type_of ordered type = Inr q \<Longrightarrow>
    csc_run P (ins @ map (Pair scid) (placed ordered rsn type q)) (cnt @ counted ordered type q) outs h'"
| poll: "csc_run P ins cnt outs h \<Longrightarrow> csc_HasWork E (fh_sched h) = Inr (b, s) \<Longrightarrow> csc_run P ins cnt outs (h\<lparr>fh_sched := s\<rparr>)"
| work: "csc_run P ins cnt outs h \<Longrightarrow> same_config P E \<Longrightarrow> choose_work E h = Inr (scid, q, w, h1) \<Longrightarrow>
    hand_on E scid q w h1 = Inr h' \<Longrightarrow> csc_run P ins cnt (outs @ [(scid, q, w)]) h'"
| outside: "csc_run P ins cnt outs h \<Longrightarrow> same_config P E \<Longrightarrow> fh_sched h1 = fh_sched h \<Longrightarrow>
    (\<And>c. c \<noteq> scid \<Longrightarrow> fh_connections h1 c = fh_connections h c) \<Longrightarrow> gate E scid h1 = Inr h' \<Longrightarrow> csc_run P ins cnt outs h'"

lemma init_policies_contents:
  "init_connection_policies scid qs s = (st, s') \<Longrightarrow> contents s' = contents s"
  by (induction qs arbitrary: s) (auto simp: Let_def split: prod.splits if_splits)

lemma Init_queues:
  assumes "csc_InitConnectionSchedulerQueues scid s = Inr (st, s')"
  shows "queues_of s' = queues_of s" "csc_pkt_count s' = csc_pkt_count s"
proof -
  have "queues_of s' = queues_of s \<and> csc_pkt_count s' = csc_pkt_count s"
  proof (cases "csc_queues s scid")
    case None
    let ?s = "s\<lparr>csc_queues := (csc_queues s)(scid \<mapsto> (\<lambda>_. []))\<rparr>"
    obtain st1 s1 where s1: "init_connection_policies scid kQueueTypes ?s = (st1, s1)" by fastforce
    have "contents s' = contents s1"
      using assms None s1 by (auto simp: csc_InitConnectionSchedulerQueues_def Let_def res_simps split: prod.splits if_splits)
    then have "contents s' = contents ?s" using init_policies_contents [OF s1] by simp
    from contentsD [OF this] show ?thesis using None by (auto simp: queues_of_def)
  qed (use assms in \<open>simp add: csc_InitConnectionSchedulerQueues_def\<close>)
  then show "queues_of s' = queues_of s" "csc_pkt_count s' = csc_pkt_count s" by simp_all
qed

lemma new_queues:
  assumes "ProtocolConnectionScheduler = Inr s"
  shows "queues_of s = (\<lambda>_ _. [])" "csc_pkt_count s = (\<lambda>_. 0)"
  using assms by (auto simp: ProtocolConnectionScheduler_def queues_of_def res_simps)

definition out_count :: "packet_type_queue \<Rightarrow> work_log \<Rightarrow> nat" where
  "out_count q log = length (filter (\<lambda>(_, p, _). p = q) log)"

lemma out_count_simps [simp]:
  "out_count q [] = 0" "out_count q (xs @ ys) = out_count q xs + out_count q ys"
  "out_count q ((c, p, w) # log) = (if p = q then Suc (out_count q log) else out_count q log)"
  by (simp_all add: out_count_def)

lemma csc_run_queues:
  "csc_run P ins cnt outs h \<Longrightarrow>
     (\<forall>c p. in_queue c p ins = in_queue c p outs @ queues_of (fh_sched h) c p) \<and>
     (\<forall>p. csc_pkt_count (fh_sched h) p = of_nat (count_list cnt p) - of_nat (out_count p outs))"
proof (induction rule: csc_run.induct)
  case (start h)
  then show ?case using new_queues [OF start] by simp
next
  case (init ins cnt outs h scid st s)
  then show ?case using Init_queues [OF init.hyps(2)] by simp
next
  case (enqueue ins cnt outs h E scid rsn type st h' x ordered q)
  obtain h1 where h1: "AddPacketToQueue scid rsn type h = Inr h1" "contents (fh_sched h') = contents (fh_sched h1)"
    using enqueue.hyps(4) by (auto simp: csc_EnqueuePacket_def res_simps dest: csc_Recompute_contents)
  show ?case
  proof (rule AddPacketToQueue_spec [OF h1(1)])
    fix x' q'
    assume a: "fh_connections h scid = Some x'" "queue_type_of (cs_ordered_mode (cn_state (hc_conn x')) = kOrdered) type = Inr q'"
      "\<And>c p. queues_of (fh_sched h1) c p = queues_of (fh_sched h) c p @
       in_queue c p (map (Pair scid) (placed (cs_ordered_mode (cn_state (hc_conn x')) = kOrdered) rsn type q'))"
      "\<And>p. csc_pkt_count (fh_sched h1) p = csc_pkt_count (fh_sched h) p +
       of_nat (count_list (counted (cs_ordered_mode (cn_state (hc_conn x')) = kOrdered) type q') p)"
    then have "x' = x" "q' = q" using enqueue.hyps(5-7) by auto
    then show ?case using a(3,4) enqueue.IH enqueue.hyps(6) contentsD [OF h1(2)] by simp
  qed
next
  case (poll ins cnt outs h E b s)
  then show ?case using contentsD [OF csc_HasWork_contents [OF poll.hyps(2)]] by simp
next
  case (work ins cnt outs h E scid q w h1 h')
  note c = choose_work_contents [OF work.hyps(3)]
  note c1 = contentsD [OF conjunct1 [OF c]]
  obtain ws where ws: "queues_of (fh_sched h) scid q = w # ws" using c by blast
  have p: "csc_pkt_count (fh_sched h') = (csc_pkt_count (fh_sched h))(q := csc_pkt_count (fh_sched h) q - 1)"
    "queues_of (fh_sched h') = (queues_of (fh_sched h))(scid := (queues_of (fh_sched h) scid)(q := ws))"
    using hand_on_popped [OF work.hyps(4)] c1 ws by (simp_all add: popped_def)
  show ?case using work.IH ws by (auto simp: p)
next
  case (outside ins cnt outs h E h1 scid h')
  then show ?case using contentsD [OF gate_contents [OF outside.hyps(5)]] by simp
qed

end
