(* ===== verification/Scheduler_Eligibility.thy ===== *)
theory Scheduler_Eligibility
  imports Connection_Scheduler
begin

text \<open>
  The connection scheduler along runs of a host: its policies hold exactly what the gating criteria of the connections
  allow, every queue is served first in first out, and when the scheduler has work it finds a packet that meets every
  criterion but one. Admission control is checked for a packet type and not for the packet that is chosen, so
  that the scheduler's own check can fail; a run that ends there is an example at the end.
\<close>

section \<open>Eligibility\<close>

text \<open>A queue of a connection is ready when the packet at its head meets every criterion of the connection.\<close>

definition head_ready :: "prm_env \<Rightarrow> host_connection \<Rightarrow> packet_type_queue \<Rightarrow> work_id \<Rightarrow> bool" where
  "head_ready P x q w \<longleftrightarrow>
     (q = kPullAndOrderedPushRequest \<and> wk_type w = kInvalid) \<or>
     (hc_is_op_rate_limited x = 0 \<and> head_eligible (hc_conn x) q w = Inr True \<and>
      MeetsInitialTransmissionCCTxGatingCriteria (wk_type w) (hc_conn x) = Inr True \<and>
      MeetsInitialTransmissionOowTxGatingCriteria P (wk_type w) (hc_conn x))"

definition queue_ready :: "prm_env \<Rightarrow> falcon_host \<Rightarrow> u32 \<Rightarrow> packet_type_queue \<Rightarrow> bool" where
  "queue_ready P h scid q \<longleftrightarrow>
     (\<exists>x w ws. fh_connections h scid = Some x \<and> queues_of (fh_sched h) scid q = w # ws \<and> head_ready P x q w)"

definition phantom_waits :: "connection_scheduler \<Rightarrow> u32 \<Rightarrow> bool" where
  "phantom_waits s scid \<longleftrightarrow> (\<exists>w ws. queues_of s scid kPullAndOrderedPushRequest = w # ws \<and> wk_type w = kInvalid)"

text \<open>The policies are well formed and know the same connections; the packet type policy knows every type.\<close>

definition policies_ok :: "connection_scheduler \<Rightarrow> bool" where
  "policies_ok s \<longleftrightarrow>
     (\<forall>q. vanilla_ok (csc_connection_policy s q) \<and> entities (csc_connection_policy s q) = dom (csc_queues s)) \<and>
     vanilla_ok (csc_phantom_policy s) \<and> entities (csc_phantom_policy s) = dom (csc_queues s) \<and>
     vanilla_ok (csc_ordered_push_policy s) \<and> entities (csc_ordered_push_policy s) = dom (csc_queues s) \<and>
     wrr_ok (csc_packet_type_policy s) \<and> entities (csc_packet_type_policy s) = UNIV"

lemma policies_okD:
  assumes "policies_ok s"
  shows "vanilla_ok (csc_connection_policy s q)" "entities (csc_connection_policy s q) = dom (csc_queues s)"
    "vanilla_ok (csc_phantom_policy s)" "entities (csc_phantom_policy s) = dom (csc_queues s)"
    "vanilla_ok (csc_ordered_push_policy s)" "entities (csc_ordered_push_policy s) = dom (csc_queues s)"
    "wrr_ok (csc_packet_type_policy s)" "entities (csc_packet_type_policy s) = UNIV"
  using assms by (auto simp: policies_ok_def)

abbreviation active_in :: "connection_scheduler \<Rightarrow> packet_type_queue \<Rightarrow> u32 set" where
  "active_in s q \<equiv> actives (csc_connection_policy s q)"

lemma mark_queue_spec:
  assumes "mark_queue b scid q s = Inr s'" and "policies_ok s" and "scid \<in> dom (csc_queues s)"
  shows "policies_ok s' \<and> contents s' = contents s \<and> csc_phantom_policy s' = csc_phantom_policy s \<and>
    csc_packet_type_policy s' = csc_packet_type_policy s \<and>
    active_in s' = (active_in s)(q := (if b then insert scid (active_in s q) else active_in s q - {scid}))"
proof -
  obtain p where p: "mark b scid (csc_connection_policy s q) = Inr p"
    "s' = s\<lparr>csc_connection_policy := (csc_connection_policy s)(q := p)\<rparr>"
    using assms(1) by (auto simp: mark_queue_def res_simps)
  have k: "scid \<in> entities (csc_connection_policy s q)" using assms(2,3) by (simp add: policies_ok_def)
  show ?thesis using mark_rr_cases [OF p(1) policies_okD(1) [OF assms(2)] k] p(2) assms(2)
    by (auto simp: policies_ok_def fun_eq_iff)
qed

lemma mark_phantom_spec:
  assumes "mark_phantom b scid s = Inr s'" and "policies_ok s" and "scid \<in> dom (csc_queues s)"
  shows "policies_ok s' \<and> contents s' = contents s \<and> csc_packet_type_policy s' = csc_packet_type_policy s \<and>
    csc_connection_policy s' = csc_connection_policy s \<and>
    actives (csc_phantom_policy s') = (if b then insert scid (actives (csc_phantom_policy s)) else actives (csc_phantom_policy s) - {scid})"
proof -
  obtain p where p: "mark b scid (csc_phantom_policy s) = Inr p" "s' = s\<lparr>csc_phantom_policy := p\<rparr>"
    using assms(1) by (auto simp: mark_phantom_def res_simps)
  have k: "scid \<in> entities (csc_phantom_policy s)" using assms(2,3) by (simp add: policies_ok_def)
  show ?thesis using mark_rr_cases [OF p(1) policies_okD(3) [OF assms(2)] k] p(2) assms(2)
    by (auto simp: policies_ok_def)
qed

lemma mark_ordered_push_spec:
  assumes "mark_ordered_push b scid s = Inr s'" and "policies_ok s" and "scid \<in> dom (csc_queues s)"
  shows "policies_ok s' \<and> contents s' = contents s \<and> csc_packet_type_policy s' = csc_packet_type_policy s \<and>
    csc_connection_policy s' = csc_connection_policy s \<and> csc_phantom_policy s' = csc_phantom_policy s"
proof -
  obtain p where p: "mark b scid (csc_ordered_push_policy s) = Inr p" "s' = s\<lparr>csc_ordered_push_policy := p\<rparr>"
    using assms(1) by (auto simp: mark_ordered_push_def res_simps)
  have k: "scid \<in> entities (csc_ordered_push_policy s)" using assms(2,3) by (simp add: policies_ok_def)
  show ?thesis using mark_rr_cases [OF p(1) policies_okD(5) [OF assms(2)] k] p(2) assms(2)
    by (auto simp: policies_ok_def)
qed

text \<open>
  What a turn of the loop does, as a relation: the policy of the queue type is brought up to date for the connection, for the
  request queue that of the phantom requests too; all else is kept.
\<close>

definition turn :: "prm_env \<Rightarrow> u32 \<Rightarrow> host_connection \<Rightarrow> packet_type_queue \<Rightarrow> connection_scheduler \<Rightarrow> connection_scheduler \<Rightarrow> bool" where
  "turn P scid x q s s' \<longleftrightarrow> policies_ok s' \<and> contents s' = contents s \<and>
     csc_packet_type_policy s' = csc_packet_type_policy s \<and>
     active_in s' = (active_in s)(q :=
       (if \<exists>w ws. queues_of s scid q = w # ws \<and> head_ready P x q w then insert scid (active_in s q) else active_in s q - {scid})) \<and>
     actives (csc_phantom_policy s') =
       (if q \<noteq> kPullAndOrderedPushRequest then actives (csc_phantom_policy s)
        else if phantom_waits s scid then insert scid (actives (csc_phantom_policy s))
        else actives (csc_phantom_policy s) - {scid})"

lemma same_config_oow:
  "same_config P E \<Longrightarrow> MeetsInitialTransmissionOowTxGatingCriteria (he_prm E) type c =
     MeetsInitialTransmissionOowTxGatingCriteria P type c"
  by (simp add: same_config_def MeetsInitialTransmissionOowTxGatingCriteria_def)

lemma recompute_criteria_spec:
  assumes "recompute_criteria E scid (hc_conn x) q w s = Inr s'" and "policies_ok s" and "scid \<in> dom (csc_queues s)"
    and "same_config P E" and "hc_is_op_rate_limited x = 0" and "\<not> (q = kPullAndOrderedPushRequest \<and> wk_type w = kInvalid)"
  shows "policies_ok s' \<and> contents s' = contents s \<and> csc_phantom_policy s' = csc_phantom_policy s \<and>
    csc_packet_type_policy s' = csc_packet_type_policy s \<and>
    active_in s' = (active_in s)(q := (if head_ready P x q w then insert scid (active_in s q) else active_in s q - {scid}))"
proof -
  obtain e cc s1 where e: "head_eligible (hc_conn x) q w = Inr e"
    "MeetsInitialTransmissionCCTxGatingCriteria (wk_type w) (hc_conn x) = Inr cc"
    "mark_queue (e \<and> cc \<and> MeetsInitialTransmissionOowTxGatingCriteria (he_prm E) (wk_type w) (hc_conn x)) scid q s = Inr s1"
    "(if q = kPullAndOrderedPushRequest
       then mark_ordered_push (wk_type w = kPushRequest \<and> cc \<and> MeetsInitialTransmissionOowTxGatingCriteria (he_prm E) (wk_type w) (hc_conn x)) scid s1
       else Inr s1) = Inr s'"
    using assms(1) by (auto simp: recompute_criteria_def res_bind_eq_Inr Let_def)
  have r: "head_ready P x q w \<longleftrightarrow> e \<and> cc \<and> MeetsInitialTransmissionOowTxGatingCriteria (he_prm E) (wk_type w) (hc_conn x)"
    using e(1,2) assms(5,6) by (auto simp: head_ready_def same_config_oow [OF assms(4)])
  note m = mark_queue_spec [OF e(3) assms(2,3)]
  have d: "scid \<in> dom (csc_queues s1)" using m contentsD(1) assms(3) by metis
  show ?thesis
  proof (cases "q = kPullAndOrderedPushRequest")
    case True
    then show ?thesis using e(4) mark_ordered_push_spec [OF _ conjunct1 [OF m] d] m r by auto
  qed (use e(4) m r in auto)
qed

lemma recompute_queue_spec:
  assumes "recompute_queue E scid x q s = Inr s'" and "policies_ok s" and "scid \<in> dom (csc_queues s)" and "same_config P E"
  shows "turn P scid x q s s'"
proof (cases "queues_of s scid q")
  case Nil
  then obtain s1 where s1: "mark_queue False scid q s = Inr s1" "(if q = kPullAndOrderedPushRequest
      then res_bind (mark_phantom False scid s1) (mark_ordered_push False scid) else Inr s1) = Inr s'"
    using assms(1) by (auto simp: recompute_queue_def res_bind_eq_Inr)
  note m = mark_queue_spec [OF s1(1) assms(2,3)]
  have d: "scid \<in> dom (csc_queues s1)" using m contentsD(1) assms(3) by metis
  show ?thesis
  proof (cases "q = kPullAndOrderedPushRequest")
    case True
    then obtain s2 where s2: "mark_phantom False scid s1 = Inr s2" "mark_ordered_push False scid s2 = Inr s'"
      using s1(2) by (auto simp: res_simps)
    note m2 = mark_phantom_spec [OF s2(1) conjunct1 [OF m] d]
    have d2: "scid \<in> dom (csc_queues s2)" using m2 contentsD(1) d by metis
    show ?thesis using mark_ordered_push_spec [OF s2(2) conjunct1 [OF m2] d2] m m2 Nil True by (auto simp: turn_def phantom_waits_def)
  qed (use s1(2) m Nil in \<open>auto simp: turn_def\<close>)
next
  case (Cons w ws)
  show ?thesis
  proof (cases "q = kPullAndOrderedPushRequest \<and> wk_type w = kInvalid")
    case True
    then obtain s1 where s1: "mark_queue True scid q s = Inr s1" "mark_phantom True scid s1 = Inr s'"
      using assms(1) Cons by (auto simp: recompute_queue_def res_simps)
    note m = mark_queue_spec [OF s1(1) assms(2,3)]
    have d: "scid \<in> dom (csc_queues s1)" using m contentsD(1) assms(3) by metis
    show ?thesis using mark_phantom_spec [OF s1(2) conjunct1 [OF m] d] m Cons True
      by (auto simp: turn_def phantom_waits_def head_ready_def)
  next
    case False
    obtain s1 where s1: "(if q = kPullAndOrderedPushRequest then mark_phantom False scid s else Inr s) = Inr s1"
      "(if hc_is_op_rate_limited x \<noteq> 0 then mark_queue False scid q s1 else recompute_criteria E scid (hc_conn x) q w s1) = Inr s'"
      using assms(1) Cons False by (auto simp: recompute_queue_def res_bind_eq_Inr split: if_splits)
    have m: "policies_ok s1 \<and> contents s1 = contents s \<and> csc_packet_type_policy s1 = csc_packet_type_policy s \<and>
        csc_connection_policy s1 = csc_connection_policy s \<and> actives (csc_phantom_policy s1) =
        (if q \<noteq> kPullAndOrderedPushRequest then actives (csc_phantom_policy s) else actives (csc_phantom_policy s) - {scid})"
      using s1(1) mark_phantom_spec [OF _ assms(2,3), of False s1] assms(2) by (auto split: if_splits)
    have d: "scid \<in> dom (csc_queues s1)" using m contentsD(1) assms(3) by metis
    have ph: "q = kPullAndOrderedPushRequest \<Longrightarrow> \<not> phantom_waits s scid" using Cons False by (auto simp: phantom_waits_def)
    show ?thesis
    proof (cases "hc_is_op_rate_limited x = 0")
      case True
      then show ?thesis using recompute_criteria_spec [OF _ conjunct1 [OF m] d assms(4), of x q w s'] s1(2) False m Cons ph
        by (auto simp: turn_def)
    next
      case nz: False
      then have "\<not> head_ready P x q w" using False by (auto simp: head_ready_def)
      then show ?thesis using mark_queue_spec [OF _ conjunct1 [OF m] d, of False q s'] s1(2) nz m Cons ph by (auto simp: turn_def)
    qed
  qed
qed

text \<open>All turns of the loop: each queue type in the list is up to date for the connection, the others are kept.\<close>

lemma recompute_queues_spec:
  assumes "recompute_queues E scid x qs s = Inr s'" and "policies_ok s" and "scid \<in> dom (csc_queues s)" and "same_config P E"
    and "distinct qs"
  shows "policies_ok s' \<and> contents s' = contents s \<and> csc_packet_type_policy s' = csc_packet_type_policy s \<and>
    (\<forall>q. active_in s' q = (if q \<in> set qs then
       (if \<exists>w ws. queues_of s scid q = w # ws \<and> head_ready P x q w then insert scid (active_in s q) else active_in s q - {scid})
       else active_in s q)) \<and>
    actives (csc_phantom_policy s') =
       (if kPullAndOrderedPushRequest \<notin> set qs then actives (csc_phantom_policy s)
        else if phantom_waits s scid then insert scid (actives (csc_phantom_policy s))
        else actives (csc_phantom_policy s) - {scid})"
  using assms
proof (induction qs arbitrary: s)
  case (Cons q qs)
  obtain s1 where s1: "recompute_queue E scid x q s = Inr s1" "recompute_queues E scid x qs s1 = Inr s'"
    using Cons.prems(1) by (auto simp: res_simps)
  note t = recompute_queue_spec [OF s1(1) Cons.prems(2-4)]
  have c: "policies_ok s1" "contents s1 = contents s" using t by (simp_all add: turn_def)
  have d: "scid \<in> dom (csc_queues s1)" "queues_of s1 = queues_of s" "phantom_waits s1 = phantom_waits s"
    using contentsD [OF c(2)] Cons.prems(3) by (simp_all add: phantom_waits_def [abs_def])
  have "distinct qs" using Cons.prems(5) by simp
  note ih = Cons.IH [OF s1(2) c(1) d(1) Cons.prems(4) this, unfolded d]
  have a: "active_in s1 p = (if p = q then
       (if \<exists>w ws. queues_of s scid q = w # ws \<and> head_ready P x q w then insert scid (active_in s q) else active_in s q - {scid})
       else active_in s p)" for p
    using t by (simp add: turn_def fun_eq_iff)
  have b: "actives (csc_phantom_policy s1) = (if q \<noteq> kPullAndOrderedPushRequest then actives (csc_phantom_policy s)
        else if phantom_waits s scid then insert scid (actives (csc_phantom_policy s))
        else actives (csc_phantom_policy s) - {scid})" and ct: "csc_packet_type_policy s1 = csc_packet_type_policy s"
    using t by (simp_all add: turn_def)
  have "q \<notin> set qs" using Cons.prems(5) by simp
  then show ?case using ih unfolding a b ct c(2) by (auto split: if_splits)
qed simp

text \<open>Asking a policy for work keeps who is active.\<close>

definition same_active :: "connection_scheduler \<Rightarrow> connection_scheduler \<Rightarrow> bool" where
  "same_active s s' \<longleftrightarrow> (policies_ok s \<longrightarrow> policies_ok s') \<and> contents s' = contents s \<and> active_in s' = active_in s \<and>
     actives (csc_phantom_policy s') = actives (csc_phantom_policy s)"

lemma same_activeD:
  assumes "same_active s s'"
  shows "policies_ok s \<Longrightarrow> policies_ok s'" "contents s' = contents s" "active_in s' q = active_in s q"
    "actives (csc_phantom_policy s') = actives (csc_phantom_policy s)"
  using assms by (simp_all add: same_active_def fun_eq_iff)

lemma same_active_refl [simp]: "same_active s s"
  by (simp add: same_active_def)

lemma same_active_trans: "same_active s s1 \<Longrightarrow> same_active s1 s2 \<Longrightarrow> same_active s s2"
  by (simp add: same_active_def)

lemma HasWork_active:
  assumes "policies_ok s"
  shows "ordered_push_HasWork s = Inr (b, s') \<Longrightarrow> same_active s s' \<and> csc_packet_type_policy s' = csc_packet_type_policy s"
    "phantom_HasWork s = Inr (b, s') \<Longrightarrow> same_active s s' \<and> csc_packet_type_policy s' = csc_packet_type_policy s \<and>
       (b \<longleftrightarrow> actives (csc_phantom_policy s) \<noteq> {})"
    "queue_HasWork q s = Inr (b, s') \<Longrightarrow> same_active s s' \<and> csc_packet_type_policy s' = csc_packet_type_policy s \<and>
       (b \<longleftrightarrow> active_in s q \<noteq> {})"
proof -
  show "same_active s s' \<and> csc_packet_type_policy s' = csc_packet_type_policy s" if "ordered_push_HasWork s = Inr (b, s')"
    using that rr.work_law [OF policies_okD(5) [OF assms]] assms
    by (auto simp: ordered_push_HasWork_def res_simps same_active_def policies_ok_def)
  show "same_active s s' \<and> csc_packet_type_policy s' = csc_packet_type_policy s \<and> (b \<longleftrightarrow> actives (csc_phantom_policy s) \<noteq> {})"
    if "phantom_HasWork s = Inr (b, s')"
    using that rr.work_law [OF policies_okD(3) [OF assms]] assms
    by (auto simp: phantom_HasWork_def res_simps same_active_def policies_ok_def)
  assume "queue_HasWork q s = Inr (b, s')"
  then obtain p where p: "HasWork None (csc_connection_policy s q) = Inr (b, p)"
    "s' = s\<lparr>csc_connection_policy := (csc_connection_policy s)(q := p)\<rparr>"
    by (auto simp: queue_HasWork_def res_simps)
  have "vanilla_ok p" "entities p = entities (csc_connection_policy s q)" "actives p = active_in s q" "b \<longleftrightarrow> active_in s q \<noteq> {}"
    using rr.work_law [OF policies_okD(1) [OF assms], of q] p(1) by auto
  moreover from this have "policies_ok s'" using assms p(2) by (simp add: policies_ok_def)
  ultimately show "same_active s s' \<and> csc_packet_type_policy s' = csc_packet_type_policy s \<and> (b \<longleftrightarrow> active_in s q \<noteq> {})"
    using p(2) by (simp add: same_active_def fun_eq_iff)
qed

lemma weight_fetcher_ok: "fetcher_ok (Some (ComputePacketTypeWeight s))"
  by (simp add: fetcher_ok_def ComputePacketTypeWeight_def pos_imp_zdiv_nonneg_iff)

lemma packet_type_HasWork_active:
  assumes "policies_ok s" and "packet_type_HasWork s = Inr (b, s')"
  shows "same_active s s' \<and> actives (csc_packet_type_policy s') = actives (csc_packet_type_policy s) \<and>
    (b \<longrightarrow> eligible (csc_packet_type_policy s') \<noteq> [] \<and> 0 < global_credits_remaining (csc_packet_type_policy s'))"
proof -
  obtain p where p: "HasWork (Some (ComputePacketTypeWeight s)) (csc_packet_type_policy s) = Inr (b, p)"
    "s' = s\<lparr>csc_packet_type_policy := p\<rparr>" using assms(2) by (auto simp: packet_type_HasWork_def res_simps)
  then have h: "wrr_ok p \<and> same_entities (Some (ComputePacketTypeWeight s)) (csc_packet_type_policy s) p \<and>
    (\<forall>y. IsActive y p = IsActive y (csc_packet_type_policy s)) \<and> (b \<longrightarrow> eligible p \<noteq> [] \<and> 0 < global_credits_remaining p)"
    using HasWork_ok [OF policies_okD(7) [OF assms(1)] weight_fetcher_ok, of s] by auto
  then have "policies_ok s'" using assms(1) p(2) by (auto simp: policies_ok_def same_entities_def)
  then show ?thesis using h p(2) by (simp add: same_active_def actives_def)
qed

lemma mark_type:
  assumes "mark b q (csc_packet_type_policy s) = Inr p" and "policies_ok s"
  shows "policies_ok (s\<lparr>csc_packet_type_policy := p\<rparr>)"
    "actives p = (if b then insert q (actives (csc_packet_type_policy s)) else actives (csc_packet_type_policy s) - {q})"
proof -
  note w = policies_okD(7) [OF assms(2)]
  obtain c where c: "(if b then MarkEntityActive q (csc_packet_type_policy s) else MarkEntityInactive q (csc_packet_type_policy s)) = Inr (c, p)"
    using assms(1) by (auto simp: mark_def res_simps)
  have "wrr_ok p \<and> same_entities None (csc_packet_type_policy s) p \<and>
    actives p = (if b then insert q (actives (csc_packet_type_policy s)) else actives (csc_packet_type_policy s) - {q})"
    using c MarkEntityActive_ok [OF w, of q c p None] MarkEntityInactive_ok [OF w, of q c p None] by (auto split: if_splits)
  then show "policies_ok (s\<lparr>csc_packet_type_policy := p\<rparr>)"
    "actives p = (if b then insert q (actives (csc_packet_type_policy s)) else actives (csc_packet_type_policy s) - {q})"
    using assms(2) by (auto simp: policies_ok_def same_entities_def)
qed

lemma type_allowed_active:
  assumes "type_allowed E q (s, a) = Inr (b, s', a')" and "policies_ok s"
  shows "same_active s s' \<and> csc_packet_type_policy s' = csc_packet_type_policy s \<and>
    (q = kPullAndOrderedPushRequest \<and> actives (csc_phantom_policy s) \<noteq> {} \<longrightarrow> b)"
proof (cases "q = kPullAndOrderedPushRequest")
  case True
  then obtain b1 s1 where s1: "ordered_push_HasWork s = Inr (b1, s1)" "(if b1 then Inr (True, s1, a)
      else res_bind (phantom_HasWork s1) (\<lambda>(b2, s2). if b2 then Inr (True, s2, a) else admission_allows E kPullRequest (s2, a)))
      = Inr (b, s', a')"
    using assms(1) by (auto simp: type_allowed_def res_bind_eq_Inr cong: if_cong)
  note h1 = HasWork_active(1) [OF assms(2) s1(1)]
  then have p1: "policies_ok s1" using assms(2) by (simp add: same_active_def)
  show ?thesis
  proof (cases b1)
    case b1: False
    then obtain b2 s2 where s2: "phantom_HasWork s1 = Inr (b2, s2)"
      "(if b2 then Inr (True, s2, a) else admission_allows E kPullRequest (s2, a)) = Inr (b, s', a')"
      using s1(2) by (auto simp: res_bind_eq_Inr)
    have "s' = s2" "b2 \<Longrightarrow> b" using s2(2) by (auto simp: admission_allows_def res_simps split: if_splits)
    then show ?thesis using HasWork_active(2) [OF p1 s2(1)] h1 same_active_trans by (auto simp: same_active_def)
  qed (use s1(2) h1 in auto)
next
  case False
  then have "s' = s" using assms(1) by (auto simp: type_allowed_def admission_allows_def res_simps split: packet_type_queue.splits)
  then show ?thesis using False by simp
qed

lemma recompute_type_spec:
  assumes "recompute_type E q (s, a) = Inr (s', a')" and "policies_ok s"
  shows "policies_ok s' \<and> same_active s s' \<and>
    actives (csc_packet_type_policy s') - {q} = actives (csc_packet_type_policy s) - {q} \<and>
    (q \<in> actives (csc_packet_type_policy s') \<longrightarrow> active_in s q \<noteq> {}) \<and>
    (q = kPullAndOrderedPushRequest \<and> actives (csc_phantom_policy s) \<noteq> {} \<and> active_in s q \<noteq> {} \<longrightarrow>
       q \<in> actives (csc_packet_type_policy s'))"
proof -
  obtain b s1 c s2 p where h: "type_allowed E q (s, a) = Inr (b, s1, a')"
    "(if b then queue_HasWork q s1 else Inr (False, s1)) = Inr (c, s2)" "mark c q (csc_packet_type_policy s2) = Inr p"
    "s' = s2\<lparr>csc_packet_type_policy := p\<rparr>"
    using assms(1) by (auto simp: recompute_type_def res_bind_eq_Inr)
  note t = type_allowed_active [OF h(1) assms(2)]
  then have p1: "policies_ok s1" using assms(2) by (simp add: same_active_def)
  have q: "same_active s1 s2 \<and> csc_packet_type_policy s2 = csc_packet_type_policy s1 \<and> (c \<longleftrightarrow> b \<and> active_in s1 q \<noteq> {})"
    using h(2) HasWork_active(3) [OF p1, of q c s2] by (cases b) auto
  then have p2: "policies_ok s2" using p1 by (simp add: same_active_def)
  note m = mark_type [OF h(3) p2]
  have s2: "same_active s s2" using t q same_active_trans by blast
  have s': "policies_ok s'" "csc_packet_type_policy s' = p" using m(1) h(4) by simp_all
  have "same_active s s'" using s2 s'(1) h(4) by (simp add: same_active_def)
  moreover have "actives p = (if c then insert q (actives (csc_packet_type_policy s)) else actives (csc_packet_type_policy s) - {q})"
    using m(2) t q by simp
  moreover have "active_in s1 q = active_in s q" using t by (simp add: same_active_def fun_eq_iff)
  ultimately show ?thesis using s' t q by auto
qed

lemma recompute_types_spec:
  assumes "recompute_types E qs (s, a) = Inr (s', a')" and "policies_ok s" and "distinct qs"
  shows "policies_ok s' \<and> same_active s s' \<and>
    (\<forall>q. q \<notin> set qs \<longrightarrow> (q \<in> actives (csc_packet_type_policy s') \<longleftrightarrow> q \<in> actives (csc_packet_type_policy s))) \<and>
    (\<forall>q \<in> set qs. (q \<in> actives (csc_packet_type_policy s') \<longrightarrow> active_in s q \<noteq> {}) \<and>
      (q = kPullAndOrderedPushRequest \<and> actives (csc_phantom_policy s) \<noteq> {} \<and> active_in s q \<noteq> {} \<longrightarrow>
       q \<in> actives (csc_packet_type_policy s')))"
  using assms
proof (induction qs arbitrary: s a)
  case (Cons q qs)
  obtain s1 a1 where s1: "recompute_type E q (s, a) = Inr (s1, a1)" "recompute_types E qs (s1, a1) = Inr (s', a')"
    using Cons.prems(1) by (auto simp: res_bind_eq_Inr)
  note t = recompute_type_spec [OF s1(1) Cons.prems(2)]
  have new: "distinct qs" "q \<notin> set qs" using Cons.prems(3) by simp_all
  note r = Cons.IH [OF s1(2) conjunct1 [OF t] new(1)]
  have e: "active_in s1 p = active_in s p" "actives (csc_phantom_policy s1) = actives (csc_phantom_policy s)" for p
    using same_activeD [of s s1] t by blast+
  have sa: "same_active s s'" using t r by (elim conjE) (rule same_active_trans)
  have q': "q \<in> actives (csc_packet_type_policy s') \<longleftrightarrow> q \<in> actives (csc_packet_type_policy s1)" using r new(2) by blast
  have p': "p \<noteq> q \<Longrightarrow> p \<in> actives (csc_packet_type_policy s1) \<longleftrightarrow> p \<in> actives (csc_packet_type_policy s)" for p
    using t by blast
  show ?case
  proof (intro conjI allI impI ballI)
    show "policies_ok s'" "same_active s s'" using r sa by blast+
    show "p \<in> actives (csc_packet_type_policy s') \<longleftrightarrow> p \<in> actives (csc_packet_type_policy s)" if "p \<notin> set (q # qs)" for p
      using that r p' by simp
    fix p assume p: "p \<in> set (q # qs)"
    have "(p \<in> actives (csc_packet_type_policy s') \<longrightarrow> active_in s p \<noteq> {}) \<and>
      (p = kPullAndOrderedPushRequest \<and> actives (csc_phantom_policy s) \<noteq> {} \<and> active_in s p \<noteq> {} \<longrightarrow>
       p \<in> actives (csc_packet_type_policy s'))"
    proof (cases "p = q")
      case True
      then show ?thesis using t q' by blast
    next
      case False
      then have "p \<in> set qs" using p by simp
      then show ?thesis using r unfolding e by blast
    qed
    then show "p \<in> actives (csc_packet_type_policy s') \<Longrightarrow> active_in s p \<noteq> {}"
      "p = kPullAndOrderedPushRequest \<and> actives (csc_phantom_policy s) \<noteq> {} \<and> active_in s p \<noteq> {} \<Longrightarrow>
       p \<in> actives (csc_packet_type_policy s')" by blast+
  qed
qed simp


section \<open>The invariant of the scheduler\<close>

text \<open>
  Outside the connections of \<open>S\<close>, a connection is active for a queue type exactly when its queue is ready, and known to
  have a phantom request exactly when one waits at the head of its request queue.
\<close>

definition csc_inv :: "prm_env \<Rightarrow> u32 set \<Rightarrow> falcon_host \<Rightarrow> bool" where
  "csc_inv P S h \<longleftrightarrow> policies_ok (fh_sched h) \<and>
     (\<forall>scid \<in> dom (csc_queues (fh_sched h)) - S.
        (\<forall>q. scid \<in> active_in (fh_sched h) q \<longleftrightarrow> queue_ready P h scid q) \<and>
        (scid \<in> actives (csc_phantom_policy (fh_sched h)) \<longleftrightarrow> fh_connections h scid \<noteq> None \<and> phantom_waits (fh_sched h) scid))"

text \<open>An active packet type has an active connection; the request type is active when a phantom request waits.\<close>

definition types_ok :: "connection_scheduler \<Rightarrow> bool" where
  "types_ok s \<longleftrightarrow> (\<forall>q \<in> actives (csc_packet_type_policy s). active_in s q \<noteq> {}) \<and>
     (actives (csc_phantom_policy s) \<noteq> {} \<longrightarrow> kPullAndOrderedPushRequest \<in> actives (csc_packet_type_policy s))"

lemma csc_inv_mono: "csc_inv P S h \<Longrightarrow> S \<subseteq> T \<Longrightarrow> csc_inv P T h"
  by (auto simp: csc_inv_def)

lemma csc_inv_same:
  assumes "csc_inv P S h" and "same_active (fh_sched h) (fh_sched h')"
    and "\<And>c. c \<notin> S \<Longrightarrow> fh_connections h' c = fh_connections h c"
  shows "csc_inv P S h'"
proof -
  note a = same_activeD [OF assms(2)]
  note c = contentsD [OF a(2)]
  have "policies_ok (fh_sched h')" using assms(1) a(1) by (simp add: csc_inv_def)
  moreover have "phantom_waits (fh_sched h') = phantom_waits (fh_sched h)" by (simp add: phantom_waits_def [abs_def] c)
  moreover have "scid \<notin> S \<Longrightarrow> queue_ready P h' scid q \<longleftrightarrow> queue_ready P h scid q" for scid q
    by (simp add: queue_ready_def c assms(3))
  ultimately show ?thesis using assms(1,3) by (simp add: csc_inv_def a(3,4) c)
qed

text \<open>Recomputation for a connection restores the invariant for it and brings the packet types up to date.\<close>

lemma recomputed_queues_inv:
  assumes "(if csc_queues (fh_sched h) scid \<noteq> None
       then res_bind (host_lookup h scid) (\<lambda>x. recompute_queues E scid x kQueueTypes (fh_sched h)) else Inr (fh_sched h)) = Inr s"
    and "csc_inv P S h" and "S \<subseteq> {scid}" and "same_config P E"
  shows "csc_inv P {} (h\<lparr>fh_sched := s\<rparr>)"
proof (cases "csc_queues (fh_sched h) scid")
  case None
  then have "s = fh_sched h" using assms(1) by simp
  moreover have "dom (csc_queues (fh_sched h)) - S = dom (csc_queues (fh_sched h))" using assms(3) None by auto
  ultimately show ?thesis using assms(2) by (simp add: csc_inv_def)
next
  case (Some qs)
  then obtain x where x: "fh_connections h scid = Some x" "recompute_queues E scid x kQueueTypes (fh_sched h) = Inr s"
    using assms(1) by (auto simp: host_lookup_def res_simps split: option.splits)
  have ok: "policies_ok (fh_sched h)" "scid \<in> dom (csc_queues (fh_sched h))" using assms(2) Some by (auto simp: csc_inv_def)
  note r = recompute_queues_spec [OF x(2) ok assms(4) kQueueTypes_distinct]
  have c: "contents s = contents (fh_sched h)" using r by blast
  have a: "active_in s q = (if \<exists>w ws. queues_of (fh_sched h) scid q = w # ws \<and> head_ready P x q w
      then insert scid (active_in (fh_sched h) q) else active_in (fh_sched h) q - {scid})" for q
    using r kQueueTypes_all [of q] by simp
  have ph: "actives (csc_phantom_policy s) = (if phantom_waits (fh_sched h) scid then insert scid (actives (csc_phantom_policy (fh_sched h)))
        else actives (csc_phantom_policy (fh_sched h)) - {scid})"
    using r kQueueTypes_all [of kPullAndOrderedPushRequest] by simp
  have w: "phantom_waits s = phantom_waits (fh_sched h)" by (simp add: phantom_waits_def [abs_def] contentsD [OF c])
  have qr: "queue_ready P (h\<lparr>fh_sched := s\<rparr>) y q \<longleftrightarrow> queue_ready P h y q" for y q
    by (simp add: queue_ready_def contentsD [OF c])
  have "(\<forall>q. y \<in> active_in s q \<longleftrightarrow> queue_ready P h y q) \<and> 
      (y \<in> actives (csc_phantom_policy s) \<longleftrightarrow> fh_connections h y \<noteq> None \<and> phantom_waits (fh_sched h) y)"
    if "y \<in> dom (csc_queues (fh_sched h))" for y
  proof (cases "y = scid")
    case True
    then show ?thesis using x(1) by (auto simp: a ph queue_ready_def)
  next
    case False
    then have "y \<in> dom (csc_queues (fh_sched h)) - S" using that assms(3) by blast
    then show ?thesis using assms(2) False by (auto simp: csc_inv_def a ph)
  qed
  then show ?thesis using r by (simp add: csc_inv_def w qr contentsD [OF c])
qed

lemma csc_HasWork_active:
  assumes "csc_HasWork E s = Inr (b, s')" and "policies_ok s"
  shows "same_active s s' \<and> actives (csc_packet_type_policy s') = actives (csc_packet_type_policy s) \<and>
    (b \<longrightarrow> actives (csc_phantom_policy s) \<noteq> {} \<or> he_can_send E \<and> eligible (csc_packet_type_policy s') \<noteq> [] \<and>
       0 < global_credits_remaining (csc_packet_type_policy s')) \<and> (actives (csc_phantom_policy s) \<noteq> {} \<longrightarrow> b)"
proof -
  obtain b1 s1 where s1: "phantom_HasWork s = Inr (b1, s1)"
    "(if b1 then Inr (True, s1) else if he_can_send E then packet_type_HasWork s1 else Inr (False, s1)) = Inr (b, s')"
    using assms(1) by (auto simp: csc_HasWork_def res_bind_eq_Inr)
  note h = HasWork_active(2) [OF assms(2) s1(1)]
  then have ok: "policies_ok s1" using assms(2) same_activeD(1) by blast
  show ?thesis
  proof (cases b1)
    case False
    then show ?thesis
    proof (cases "he_can_send E")
      case True
      then have "packet_type_HasWork s1 = Inr (b, s')" using s1(2) False by simp
      from packet_type_HasWork_active [OF ok this] h False True show ?thesis
        using same_active_trans [of s s1 s'] by auto
    qed (use s1(2) h in auto)
  qed (use s1(2) h in auto)
qed

lemma csc_Recompute_inv:
  assumes "csc_RecomputeEligibility E scid h = Inr h'" and "csc_inv P S h" and "S \<subseteq> {scid}" and "same_config P E"
  shows "csc_inv P {} h' \<and> types_ok (fh_sched h') \<and> fh_connections h' = fh_connections h"
proof -
  obtain s1 s2 a2 b s3 where r: "(if csc_queues (fh_sched h) scid \<noteq> None
       then res_bind (host_lookup h scid) (\<lambda>x. recompute_queues E scid x kQueueTypes (fh_sched h)) else Inr (fh_sched h)) = Inr s1"
    "recompute_types E kQueueTypes (s1, fh_admission h) = Inr (s2, a2)" "csc_HasWork E s2 = Inr (b, s3)"
    "h' = (if b then host_calls [ScheduleArbiter] (h\<lparr>fh_sched := s3, fh_admission := a2\<rparr>) else h\<lparr>fh_sched := s3, fh_admission := a2\<rparr>)"
    using assms(1) by (auto simp: csc_RecomputeEligibility_def res_bind_eq_Inr Let_def)
  have i1: "csc_inv P {} (h\<lparr>fh_sched := s1\<rparr>)" using recomputed_queues_inv [OF r(1) assms(2-4)] .
  then have ok1: "policies_ok s1" by (simp add: csc_inv_def)
  note t = recompute_types_spec [OF r(2) ok1 kQueueTypes_distinct]
  note w = csc_HasWork_active [OF r(3) conjunct1 [OF t]]
  have sa: "same_active s1 s3" using t w by (elim conjE) (rule same_active_trans)
  have h': "fh_sched h' = s3" "fh_connections h' = fh_connections h" using r(4) by simp_all
  have i': "csc_inv P {} h'" using csc_inv_same [OF i1, of h'] sa h' by simp
  have p: "actives (csc_packet_type_policy s3) = actives (csc_packet_type_policy s2)" using w by blast
  have "active_in s1 kPullAndOrderedPushRequest \<noteq> {}" if ne: "actives (csc_phantom_policy s1) \<noteq> {}"
  proof -
    obtain y where y: "y \<in> actives (csc_phantom_policy s1)" using ne by blast
    then have k: "y \<in> dom (csc_queues s1)"
      using active_entity [of "csc_phantom_policy s1"] policies_okD(3,4) [OF ok1] by (auto simp: vanilla_ok_def)
    then have "fh_connections h y \<noteq> None" "phantom_waits s1 y" using i1 y by (simp_all add: csc_inv_def)
    then have "queue_ready P (h\<lparr>fh_sched := s1\<rparr>) y kPullAndOrderedPushRequest"
      by (auto simp: queue_ready_def phantom_waits_def head_ready_def)
    then have "y \<in> active_in s1 kPullAndOrderedPushRequest" using i1 k by (simp add: csc_inv_def)
    then show ?thesis by blast
  qed
  then have "types_ok s3" using t kQueueTypes_all p same_activeD(3,4) [OF sa] unfolding types_ok_def by metis
  then show ?thesis using i' h' by simp
qed

lemma csc_gate_inv:
  assumes "gate E scid h = Inr h'" and "csc_inv P S h" and "S \<subseteq> {scid}" and "same_config P E"
  shows "csc_inv P {} h' \<and> types_ok (fh_sched h') \<and> fh_connections h' = fh_connections h"
proof -
  obtain h1 where h1: "csc_RecomputeEligibility E scid h = Inr h1" "rsc_RecomputeEligibility scid h1 = Inr h'"
    using assms(1) by (auto simp: gate_def res_simps)
  have c: "fh_sched h' = fh_sched h1" "fh_connections h' = fh_connections h1"
    using h1(2) by (auto simp: rsc_RecomputeEligibility_def res_simps Let_def split: if_splits)
  note i = csc_Recompute_inv [OF h1(1) assms(2-4)]
  then have "csc_inv P {} h'" using csc_inv_same [of P "{}" h1 h'] c by simp
  then show ?thesis using i c by simp
qed

lemma csc_gates_inv:
  "gates E n scid h = Inr h' \<Longrightarrow> csc_inv P {scid} h \<Longrightarrow> same_config P E \<Longrightarrow> csc_inv P {scid} h'"
proof (induction n arbitrary: h)
  case (Suc n)
  then obtain h1 where h1: "gate E scid h = Inr h1" "gates E n scid h1 = Inr h'" by (auto simp: res_simps)
  have "csc_inv P {} h1" using csc_gate_inv [OF h1(1) Suc.prems(2) _ Suc.prems(3)] by simp
  then show ?case using Suc.IH [OF h1(2)] Suc.prems(3) csc_inv_mono by blast
qed simp

text \<open>Changes of a connection that leave the scheduler alone.\<close>

lemma csc_inv_changed:
  assumes "csc_inv P {scid} h" and "fh_sched h' = fh_sched h" and "\<And>c. c \<noteq> scid \<Longrightarrow> fh_connections h' c = fh_connections h c"
  shows "csc_inv P {scid} h'"
  using csc_inv_same [OF assms(1), of h'] assms(2,3) by simp

lemma csc_limit_rate_inv:
  assumes "limit_rate E scid h = Inr h'" and "csc_inv P {scid} h" and "same_config P E"
  shows "csc_inv P {scid} h'"
proof -
  let ?h = "update_connection scid (hc_last_packet_send_time_update (\<lambda>_. ev_now (he_prm E))) h"
  obtain h1 where h1: "set_op_rate_limited E scid 1 ?h = Inr h1" "h' = host_calls [ScheduleOpRateEvent scid] h1"
    using assms(1) by (auto simp: limit_rate_def res_simps)
  have i: "csc_inv P {scid} ?h" by (rule csc_inv_changed [OF assms(2)]) (simp_all add: update_connection_def)
  have "csc_inv P {scid} h1"
  proof (cases "op_rate_limited scid ?h = 1")
    case False
    then have g: "gate E scid (put_op_rate_limited scid 1 ?h) = Inr h1"
      using h1(1) by (simp add: set_op_rate_limited_def gv_assign_def gv_call_def)
    have "csc_inv P {scid} (put_op_rate_limited scid 1 ?h)"
      by (rule csc_inv_changed [OF i]) (simp_all add: put_op_rate_limited_def)
    then show ?thesis using csc_gate_inv [OF g _ _ assms(3)] csc_inv_mono by blast
  qed (use h1(1) i in \<open>simp add: set_op_rate_limited_def gv_assign_def\<close>)
  then show ?thesis using h1(2) csc_inv_changed [of P scid h1 h'] by simp
qed

lemma csc_TransmitPacket_inv:
  assumes "host_TransmitPacket E scid rsn type h = Inr (st, h')" and "csc_inv P {scid} h" and "same_config P E"
  shows "csc_inv P {scid} h'"
proof (cases "fh_connections h scid")
  case (Some x)
  then obtain g c where g: "gates E (gating_changes (hc_conn x) c) scid (put_connection scid c (h\<lparr>fh_prm := g\<rparr>)) = Inr h'"
    using assms(1) by (auto simp: host_TransmitPacket_def res_simps)
  have "csc_inv P {scid} (put_connection scid c (h\<lparr>fh_prm := g\<rparr>))"
    by (rule csc_inv_changed [OF assms(2)]) (simp_all add: put_connection_def)
  then show ?thesis using csc_gates_inv [OF g _ assms(3)] by blast
qed (use assms in \<open>simp add: host_TransmitPacket_def\<close>)

text \<open>Changes of the queues of a connection the policies know.\<close>

definition requeued :: "u32 \<Rightarrow> connection_scheduler \<Rightarrow> connection_scheduler \<Rightarrow> bool" where
  "requeued scid s s' \<longleftrightarrow> csc_connection_policy s' = csc_connection_policy s \<and>
     csc_phantom_policy s' = csc_phantom_policy s \<and> csc_ordered_push_policy s' = csc_ordered_push_policy s \<and>
     csc_packet_type_policy s' = csc_packet_type_policy s \<and> csc_queues s' scid \<noteq> None \<and>
     (\<forall>c. c \<noteq> scid \<longrightarrow> csc_queues s' c = csc_queues s c)"

lemma requeued_refl: "scid \<in> dom (csc_queues s) \<Longrightarrow> requeued scid s s"
  by (auto simp: requeued_def)

lemma requeued_count: "requeued scid s t \<Longrightarrow> requeued scid s (UpdateOutstandingPacketCount q d t)"
  by (simp add: requeued_def) (simp add: UpdateOutstandingPacketCount_def)

lemma requeued_enqueue: "requeued scid s t \<Longrightarrow> requeued scid s (enqueue_work scid q w t)"
  by (simp add: requeued_def enqueue_work_def)

lemma csc_inv_requeued:
  assumes "csc_inv P {scid} h" and "scid \<in> dom (csc_queues (fh_sched h))" and "requeued scid (fh_sched h) (fh_sched h')"
    and "\<And>c. c \<noteq> scid \<Longrightarrow> fh_connections h' c = fh_connections h c"
  shows "csc_inv P {scid} h'"
proof -
  have o: "y \<noteq> scid \<Longrightarrow> csc_queues (fh_sched h') y = csc_queues (fh_sched h) y" for y using assms(3) by (simp add: requeued_def)
  have d: "dom (csc_queues (fh_sched h')) = dom (csc_queues (fh_sched h))"
    using assms(2,3) o by (auto simp: requeued_def dom_def set_eq_iff) (metis option.distinct(1) option.exhaust)+
  have q: "y \<noteq> scid \<Longrightarrow> queues_of (fh_sched h') y = queues_of (fh_sched h) y" for y by (simp add: queues_of_def o)
  have p: "csc_connection_policy (fh_sched h') = csc_connection_policy (fh_sched h)"
    "csc_phantom_policy (fh_sched h') = csc_phantom_policy (fh_sched h)"
    "csc_ordered_push_policy (fh_sched h') = csc_ordered_push_policy (fh_sched h)"
    "csc_packet_type_policy (fh_sched h') = csc_packet_type_policy (fh_sched h)" using assms(3) by (simp_all add: requeued_def)
  have "policies_ok (fh_sched h')" using assms(1) by (simp add: csc_inv_def policies_ok_def d p)
  moreover have "y \<noteq> scid \<Longrightarrow> phantom_waits (fh_sched h') y = phantom_waits (fh_sched h) y" for y
    by (simp add: phantom_waits_def q)
  moreover have "y \<noteq> scid \<Longrightarrow> queue_ready P h' y r = queue_ready P h y r" for y r by (simp add: queue_ready_def q assms(4))
  ultimately show ?thesis using assms(1,4) by (simp add: csc_inv_def d p)
qed

lemma pop_work_inv:
  assumes "pop_work scid q h = Inr h'" and "csc_inv P {scid} h" and "scid \<in> dom (csc_queues (fh_sched h))"
  shows "csc_inv P {scid} h' \<and> scid \<in> dom (csc_queues (fh_sched h'))"
proof -
  have "requeued scid (fh_sched h) (fh_sched h')" "fh_connections h' = fh_connections h"
    using assms(1) by (auto simp: pop_work_def res_simps requeued_def)
  then show ?thesis using csc_inv_requeued [OF assms(2,3), of h'] by (auto simp: requeued_def)
qed

lemma csc_inv_count:
  assumes "csc_inv P {scid} h" and "scid \<in> dom (csc_queues (fh_sched h))"
  shows "csc_inv P {scid} (h\<lparr>fh_sched := UpdateOutstandingPacketCount q d (fh_sched h)\<rparr>)"
  by (rule csc_inv_requeued [OF assms]) (simp_all add: requeued_count requeued_refl assms(2))

lemma HandlePhantomRequest_inv:
  assumes "HandlePhantomRequest E scid q w h = Inr h'" and "csc_inv P {scid} h" and "scid \<in> dom (csc_queues (fh_sched h))"
    and "same_config P E"
  shows "csc_inv P {} h' \<and> types_ok (fh_sched h')"
proof -
  obtain h1 h2 where h: "mark_phantom_handled scid (wk_rsn w) h = Inr h1" "pop_work scid q h1 = Inr h2"
    "csc_RecomputeEligibility E scid (h2\<lparr>fh_sched := UpdateOutstandingPacketCount q True (fh_sched h2)\<rparr>) = Inr h'"
    using assms(1) by (auto simp: HandlePhantomRequest_def res_simps)
  have s1: "fh_sched h1 = fh_sched h" using h(1) by (auto simp: mark_phantom_handled_def res_simps)
  have "csc_inv P {scid} h1"
    by (rule csc_inv_changed [OF assms(2) s1]) (use h(1) in \<open>auto simp: mark_phantom_handled_def update_connection_def res_simps\<close>)
  then have "csc_inv P {scid} h2 \<and> scid \<in> dom (csc_queues (fh_sched h2))" using pop_work_inv [OF h(2)] s1 assms(3) by simp
  then have "csc_inv P {scid} (h2\<lparr>fh_sched := UpdateOutstandingPacketCount q True (fh_sched h2)\<rparr>)" using csc_inv_count by blast
  then show ?thesis using csc_Recompute_inv [OF h(3) _ _ assms(4)] by blast
qed

lemma reserve_admission_frame:
  assumes "reserve_admission E scid rsn type h = Inr h'"
  shows "fh_sched h' = fh_sched h" "c \<noteq> scid \<Longrightarrow> fh_connections h' c = fh_connections h c"
proof -
  obtain st states a where r: "ReserveAdmissionControlResource (he_admission E) (he_now E) scid rsn type (states_of h) (fh_admission h) = Inr (st, states, a)"
    "h' = put_states states (h\<lparr>fh_admission := a\<rparr>)" using assms by (auto simp: reserve_admission_def res_simps)
  show "fh_sched h' = fh_sched h" using r(2) by simp
  assume "c \<noteq> scid"
  have "states c = states_of h c"
  proof (cases "PerformDirectLookup (states_of h) scid")
    case (Inr cs)
    then obtain loc where l: "(case GetTransaction cs (rsn, loc) of Inl e \<Rightarrow> Inr (e, states_of h, fh_admission h)
          | Inr t \<Rightarrow> res_bind (reserve_switch (he_admission E) (he_now E) type t (fh_admission h)) (\<lambda>(t', a').
              Inr (OkStatus, (states_of h)(scid \<mapsto> put_transaction (rsn, loc) t' cs), a'))) = Inr (st, states, a)"
      using r(1) by (auto simp: ReserveAdmissionControlResource_def res_bind_eq_Inr)
    show ?thesis using l \<open>c \<noteq> scid\<close> by (cases "GetTransaction cs (rsn, loc)") (auto simp: res_bind_eq_Inr)
  qed (use r(1) in \<open>simp add: ReserveAdmissionControlResource_def\<close>)
  then show "fh_connections h' c = fh_connections h c"
    using r(2) by (cases "fh_connections h c") (auto simp: put_states_def states_of_def)
qed

lemma csc_SchedulePacket_inv:
  assumes "csc_SchedulePacket E scid q w h = Inr h'" and "csc_inv P {scid} h" and "scid \<in> dom (csc_queues (fh_sched h))"
    and "same_config P E"
  shows "csc_inv P {} h' \<and> types_ok (fh_sched h')"
proof -
  obtain h1 h3 h4 h5 h6 where h: "reserve_admission E scid (wk_rsn w) (wk_type w) h = Inr h1"
    "limit_rate E scid (h1\<lparr>fh_sched := UpdateOutstandingPacketCount q True (fh_sched h1)\<rparr>) = Inr h3"
    "mark_scheduled scid (wk_rsn w) (wk_type w) h3 = Inr h4"
    "host_TransmitPacket E scid (wk_rsn w) (wk_type w) (RecordRsnDiffMeasure scid w h4) = Inr (OkStatus, h5)"
    "pop_work scid q h5 = Inr h6" "csc_RecomputeEligibility E scid h6 = Inr h'"
    using assms(1) by (auto simp: csc_SchedulePacket_def res_simps Let_def)
  note r = reserve_admission_frame [OF h(1)]
  have "csc_inv P {scid} h1" by (rule csc_inv_changed [OF assms(2) r])
  then have i2: "csc_inv P {scid} (h1\<lparr>fh_sched := UpdateOutstandingPacketCount q True (fh_sched h1)\<rparr>)"
    by (rule csc_inv_count) (simp add: assms(3) r(1))
  note i3 = csc_limit_rate_inv [OF h(2) i2 assms(4)]
  have "csc_inv P {scid} h4"
    by (rule csc_inv_changed [OF i3]) (use h(3) in \<open>auto simp: mark_scheduled_def update_connection_def res_simps\<close>)
  then have "csc_inv P {scid} (RecordRsnDiffMeasure scid w h4)"
    by (rule csc_inv_same) (simp_all add: RecordRsnDiffMeasure_def Let_def same_active_def policies_ok_def fun_eq_iff)
  note i5 = csc_TransmitPacket_inv [OF h(4) this assms(4)]
  have "csc_queues (fh_sched h3) = csc_queues (fh_sched h)"
    using contentsD(1) [OF limit_rate_contents [OF h(2)]] r(1) by simp
  moreover have "csc_queues (fh_sched (RecordRsnDiffMeasure scid w h4)) = csc_queues (fh_sched h3)"
    using h(3) by (auto simp: RecordRsnDiffMeasure_def Let_def mark_scheduled_def res_simps)
  ultimately have "scid \<in> dom (csc_queues (fh_sched h5))"
    using contentsD(1) [OF host_TransmitPacket_contents [OF h(4)]] assms(3) by simp
  then have "csc_inv P {scid} h6" using pop_work_inv [OF h(5) i5] by blast
  then show ?thesis using csc_Recompute_inv [OF h(6) _ _ assms(4)] by blast
qed

lemma hand_on_inv:
  assumes "hand_on E scid q w h = Inr h'" and "csc_inv P {} h" and "scid \<in> dom (csc_queues (fh_sched h))" and "same_config P E"
  shows "csc_inv P {} h' \<and> types_ok (fh_sched h')"
proof (cases "wk_type w = kInvalid")
  case True
  then show ?thesis using assms HandlePhantomRequest_inv [of E scid q w h h' P] csc_inv_mono by (auto simp: hand_on_def)
next
  case False
  then obtain h1 where h1: "csc_CanSend E scid (wk_rsn w) (wk_type w) h = Inr (True, h1)" "csc_SchedulePacket E scid q w h1 = Inr h'"
    using assms(1) by (auto simp: hand_on_def res_simps)
  then obtain a where a: "h1 = h\<lparr>fh_admission := a\<rparr>" by (auto simp: csc_CanSend_def res_simps)
  have "csc_inv P {scid} h" using assms(2) csc_inv_mono by blast
  then have "csc_inv P {scid} h1" by (rule csc_inv_changed) (simp_all add: a)
  then show ?thesis using csc_SchedulePacket_inv [OF h1(2) _ _ assms(4)] assms(3) a by simp
qed

lemma AddPacketToQueue_frame:
  assumes "AddPacketToQueue scid rsn type h = Inr h'" and "scid \<in> dom (csc_queues (fh_sched h))"
  shows "requeued scid (fh_sched h) (fh_sched h')" "c \<noteq> scid \<Longrightarrow> fh_connections h' c = fh_connections h c"
proof -
  show "requeued scid (fh_sched h) (fh_sched h')"
    using assms(1)
    by (auto simp: AddPacketToQueue_def Let_def grant_ordered_data_def add_companion_def res_simps split: if_splits
        intro!: requeued_count requeued_enqueue requeued_refl [OF assms(2)])
  show "c \<noteq> scid \<Longrightarrow> fh_connections h' c = fh_connections h c"
    using assms(1) by (auto simp: AddPacketToQueue_def Let_def grant_ordered_data_def update_connection_def res_simps split: if_splits)
qed

lemma AddPacketToQueue_inv:
  assumes "AddPacketToQueue scid rsn type h = Inr h'" and "csc_inv P {scid} h" and "scid \<in> dom (csc_queues (fh_sched h))"
  shows "csc_inv P {scid} h'"
  by (rule csc_inv_requeued [OF assms(2,3)]) (use AddPacketToQueue_frame [OF assms(1,3)] in blast)+

text \<open>Enqueueing a packet of one connection leaves the others alone.\<close>

lemma csc_EnqueuePacket_frame:
  assumes "csc_EnqueuePacket E scid rsn type h = Inr (st, h')" and "scid \<in> dom (csc_queues (fh_sched h))" and "c \<noteq> scid"
  shows "fh_connections h' c = fh_connections h c" "csc_queues (fh_sched h') c = csc_queues (fh_sched h) c"
proof -
  obtain h1 h2 where h: "AddPacketToQueue scid rsn type h = Inr h1" "csc_RecomputeEligibility E scid h1 = Inr h2"
    "h' = host_calls [ScheduleArbiter] h2" using assms(1) by (auto simp: csc_EnqueuePacket_def res_simps)
  note f = AddPacketToQueue_frame [OF h(1) assms(2)]
  have "fh_connections h2 = fh_connections h1" using csc_Recompute_same [OF h(2), of "{}"] by (auto simp: retx_same_def)
  then show "fh_connections h' c = fh_connections h c" using f(2) [OF assms(3)] h(3) by simp
  show "csc_queues (fh_sched h') c = csc_queues (fh_sched h) c"
    using contentsD(1) [OF csc_Recompute_contents [OF h(2)]] f(1) assms(3) h(3) by (simp add: requeued_def)
qed

text \<open>Initialization: a connection enters every policy, idle and with empty queues.\<close>

lemma InitializeEntity_actives:
  assumes "InitializeEntity f x p = (OkStatus, p')"
  shows "actives p' = actives p" "entities p' = insert x (entities p)"
  using assms by (auto simp: InitializeEntity_def actives_def IsActive_def entities_def omap_simps split: option.splits if_splits)

lemma init_types_spec:
  "init_types qs p = Inr p' \<Longrightarrow> wrr_ok p \<Longrightarrow> wrr_ok p' \<and> entities p' = entities p \<union> set qs \<and> actives p' = actives p"
proof (induction qs arbitrary: p)
  case (Cons q qs)
  obtain p1 where p1: "InitializeEntity (Some (\<lambda>_. 0)) q p = (OkStatus, p1)" "init_types qs p1 = Inr p'"
    using Cons.prems(1) by (auto simp: Let_def res_simps split: prod.splits)
  have "wrr_ok p1" using InitializeEntity_ok [OF Cons.prems(2), of "Some (\<lambda>_. 0)" q] p1(1) by (simp add: fetcher_ok_def)
  then show ?case using Cons.IH [OF p1(2)] InitializeEntity_actives [OF p1(1)] by auto
qed simp

lemma start_inv:
  assumes "ProtocolConnectionScheduler = Inr (fh_sched h)"
  shows "csc_inv P {} h \<and> types_ok (fh_sched h)"
proof -
  obtain p where p: "init_types kQueueTypes (wrr_new False True) = Inr p"
    and s: "fh_sched h = \<lparr>csc_pkt_count = (\<lambda>_. 0), csc_packet_type_policy = p, csc_connection_policy = (\<lambda>_. wrr_new False True),
            csc_phantom_policy = wrr_new False False, csc_ordered_push_policy = wrr_new False False,
            csc_queues = Map.empty, csc_last_push_unsolicited_data_rsn = 0, csc_sent_out_push_unsolicited_data = False\<rparr>"
    using assms by (auto simp: ProtocolConnectionScheduler_def res_simps)
  have "wrr_ok p" "entities p = UNIV" "actives p = {}"
    using init_types_spec [OF p wrr_ok_new] kQueueTypes_all by (auto simp: vanilla_new)
  then show ?thesis by (simp add: csc_inv_def types_ok_def policies_ok_def s vanilla_new)
qed

lemma init_connection_policies_spec:
  assumes "init_connection_policies scid qs s = (st, s')" and "distinct qs"
    and "\<And>q. q \<in> set qs \<Longrightarrow> vanilla_ok (csc_connection_policy s q) \<and> scid \<notin> entities (csc_connection_policy s q)"
  shows "st = OkStatus \<and> s' = s\<lparr>csc_connection_policy := csc_connection_policy s'\<rparr> \<and>
    (\<forall>q. if q \<in> set qs then vanilla_ok (csc_connection_policy s' q) \<and>
           entities (csc_connection_policy s' q) = insert scid (entities (csc_connection_policy s q)) \<and> active_in s' q = active_in s q
         else csc_connection_policy s' q = csc_connection_policy s q)"
  using assms
proof (induction qs arbitrary: s)
  case (Cons q qs)
  have q: "vanilla_ok (csc_connection_policy s q)" "scid \<notin> entities (csc_connection_policy s q)" "q \<notin> set qs" "distinct qs"
    using Cons.prems(2,3) by auto
  obtain p where p: "InitializeEntity None scid (csc_connection_policy s q) = (OkStatus, p)" "vanilla_ok p"
    "entities p = insert scid (entities (csc_connection_policy s q))" "actives p = active_in s q"
    using vanilla_init [OF q(1,2)] by blast
  let ?u = "s\<lparr>csc_connection_policy := (csc_connection_policy s)(q := p)\<rparr>"
  have r: "init_connection_policies scid qs ?u = (st, s')" using Cons.prems(1) p(1) by simp
  have "vanilla_ok (csc_connection_policy ?u r) \<and> scid \<notin> entities (csc_connection_policy ?u r)" if "r \<in> set qs" for r
    using that q(3) Cons.prems(3) by auto
  from Cons.IH [OF r q(4) this] have ih: "st = OkStatus" "s' = ?u\<lparr>csc_connection_policy := csc_connection_policy s'\<rparr>"
    "\<And>r. if r \<in> set qs then vanilla_ok (csc_connection_policy s' r) \<and>
           entities (csc_connection_policy s' r) = insert scid (entities (csc_connection_policy ?u r)) \<and> active_in s' r = active_in ?u r
         else csc_connection_policy s' r = csc_connection_policy ?u r" by blast+
  have "s' = s\<lparr>csc_connection_policy := csc_connection_policy s'\<rparr>" using ih(2) by simp
  moreover have "if r \<in> set (q # qs) then vanilla_ok (csc_connection_policy s' r) \<and>
           entities (csc_connection_policy s' r) = insert scid (entities (csc_connection_policy s r)) \<and> active_in s' r = active_in s r
         else csc_connection_policy s' r = csc_connection_policy s r" for r
    using ih(3) [of r] p q(3) by (cases "r = q"; cases "r \<in> set qs") simp_all
  ultimately show ?case using ih(1) by blast
qed simp

lemma Init_inv:
  assumes "csc_InitConnectionSchedulerQueues scid (fh_sched h) = Inr (st, s)" and "csc_inv P {} h" and "types_ok (fh_sched h)"
  shows "csc_inv P {} (h\<lparr>fh_sched := s\<rparr>) \<and> types_ok s"
proof (cases "csc_queues (fh_sched h) scid")
  case (Some qs)
  then have "s = fh_sched h" using assms(1) by (simp add: csc_InitConnectionSchedulerQueues_def)
  then show ?thesis using assms(2,3) by simp
next
  case None
  let ?s = "fh_sched h" and ?t = "(fh_sched h)\<lparr>csc_queues := (csc_queues (fh_sched h))(scid \<mapsto> (\<lambda>_. []))\<rparr>"
  have ok: "policies_ok ?s" using assms(2) by (simp add: csc_inv_def)
  have n: "scid \<notin> dom (csc_queues ?s)" using None by auto
  obtain st1 s1 where s1: "init_connection_policies scid kQueueTypes ?t = (st1, s1)" by fastforce
  have pre: "vanilla_ok (csc_connection_policy ?t q) \<and> scid \<notin> entities (csc_connection_policy ?t q)" for q
    using policies_okD(1,2) [OF ok, of q] n by simp
  note i = init_connection_policies_spec [OF s1 kQueueTypes_distinct pre]
  have c: "vanilla_ok (csc_connection_policy s1 q)" "entities (csc_connection_policy s1 q) = insert scid (dom (csc_queues ?s))"
    "active_in s1 q = active_in ?s q" for q
    using i kQueueTypes_all [of q] policies_okD(2) [OF ok, of q] by auto
  have f: "csc_ordered_push_policy s1 = csc_ordered_push_policy ?s" "csc_phantom_policy s1 = csc_phantom_policy ?s"
    "csc_packet_type_policy s1 = csc_packet_type_policy ?s" "csc_queues s1 = (csc_queues ?s)(scid \<mapsto> (\<lambda>_. []))"
    using arg_cong [OF conjunct1 [OF conjunct2 [OF i]], of csc_ordered_push_policy]
      arg_cong [OF conjunct1 [OF conjunct2 [OF i]], of csc_phantom_policy]
      arg_cong [OF conjunct1 [OF conjunct2 [OF i]], of csc_packet_type_policy]
      arg_cong [OF conjunct1 [OF conjunct2 [OF i]], of csc_queues] by simp_all
  obtain p1 where p1: "InitializeEntity None scid (csc_ordered_push_policy ?s) = (OkStatus, p1)" "vanilla_ok p1"
    "entities p1 = insert scid (dom (csc_queues ?s))"
    using vanilla_init [OF policies_okD(5) [OF ok], of scid] policies_okD(6) [OF ok] n by auto
  obtain p2 where p2: "InitializeEntity None scid (csc_phantom_policy ?s) = (OkStatus, p2)" "vanilla_ok p2"
    "entities p2 = insert scid (dom (csc_queues ?s))" "actives p2 = actives (csc_phantom_policy ?s)"
    using vanilla_init [OF policies_okD(3) [OF ok], of scid] policies_okD(4) [OF ok] n by auto
  have s: "s = s1\<lparr>csc_ordered_push_policy := p1, csc_phantom_policy := p2\<rparr>"
    using assms(1) None s1 i p1(1) p2(1) f by (simp add: csc_InitConnectionSchedulerQueues_def Let_def)
  have q: "queues_of s y = queues_of ?s y" for y using f(4) s None by (simp add: queues_of_def)
  have w: "phantom_waits s y = phantom_waits ?s y" for y by (simp add: phantom_waits_def q)
  have r: "queue_ready P (h\<lparr>fh_sched := s\<rparr>) y p = queue_ready P h y p" for y p by (simp add: queue_ready_def q)
  have out: "scid \<notin> active_in ?s p" "scid \<notin> actives (csc_phantom_policy ?s)" for p
    using n active_entity [of "csc_connection_policy ?s p"] active_entity [of "csc_phantom_policy ?s"]
      policies_okD(1,2) [OF ok, of p] policies_okD(3,4) [OF ok] by (auto simp: vanilla_ok_def)
  have "\<not> queue_ready P h scid p" "\<not> phantom_waits ?s scid" for p using None by (simp_all add: queue_ready_def phantom_waits_def queues_of_def)
  moreover have "policies_ok s" using c p1 p2 f policies_okD(7,8) [OF ok] by (simp add: policies_ok_def s)
  moreover have "types_ok s" using assms(3) c(3) f(3) p2(4) by (simp add: types_ok_def s)
  ultimately show ?thesis using assms(2) out by (simp add: csc_inv_def w r) (simp add: s c(3) f(4) p2(4))
qed

lemma choose_work_spec:
  assumes "choose_work E h = Inr (scid, q, w, h1)" and "csc_inv P {} h"
  shows "same_active (fh_sched h) (fh_sched h1) \<and> actives (csc_packet_type_policy (fh_sched h1)) = actives (csc_packet_type_policy (fh_sched h)) \<and>
    fh_connections h1 = fh_connections h \<and> (if he_can_send E then scid \<in> active_in (fh_sched h) q
      else q = kPullAndOrderedPushRequest \<and> scid \<in> actives (csc_phantom_policy (fh_sched h)))"
proof -
  let ?s = "fh_sched h"
  have ok: "policies_ok ?s" using assms(2) by (simp add: csc_inv_def)
  obtain s where s: "choose_type E ?s = Inr (q, Inr scid, s)" "h1 = h\<lparr>fh_sched := s\<rparr>"
    using assms(1) by (auto simp: choose_work_def res_bind_eq_Inr case_fault_eq_Inr)
  show ?thesis
  proof (cases "he_can_send E")
    case True
    then obtain p p' where p: "GetNextEntity (Some (ComputePacketTypeWeight ?s)) (csc_packet_type_policy ?s) = Inr (Inr q, p)"
      "GetNextEntity None (csc_connection_policy ?s q) = Inr (Inr scid, p')"
      "s = ?s\<lparr>csc_packet_type_policy := p, csc_connection_policy := (csc_connection_policy ?s)(q := p')\<rparr>"
      using s(1) by (auto simp: choose_type_def res_bind_eq_Inr case_fault_eq_Inr)
    have t: "wrr_ok p" "entities p = UNIV" "actives p = actives (csc_packet_type_policy ?s)"
      using GetNextEntity_ok [OF policies_okD(7) [OF ok] weight_fetcher_ok, of ?s] p(1) policies_okD(8) [OF ok]
      by (auto simp: same_entities_def actives_def)
    have c: "vanilla_ok p'" "entities p' = entities (csc_connection_policy ?s q)" "actives p' = active_in ?s q" "scid \<in> active_in ?s q"
      using rr.next_law [OF policies_okD(1) [OF ok], of q] p(2) by auto
    have "policies_ok s" using ok t(1,2) c(1,2) by (simp add: policies_ok_def p(3))
    moreover have "active_in s r = active_in ?s r" for r using c(3) p(3) by simp
    ultimately show ?thesis using s(2) t c(4) p(3) True by (simp add: same_active_def fun_eq_iff)
  next
    case False
    then obtain p where p: "GetNextEntity None (csc_phantom_policy ?s) = Inr (Inr scid, p)" "s = ?s\<lparr>csc_phantom_policy := p\<rparr>"
      "q = kPullAndOrderedPushRequest" using s(1) by (auto simp: choose_type_def res_simps)
    have c: "vanilla_ok p" "entities p = entities (csc_phantom_policy ?s)" "actives p = actives (csc_phantom_policy ?s)"
      "scid \<in> actives (csc_phantom_policy ?s)" using rr.next_law [OF policies_okD(3) [OF ok]] p(1) by auto
    have "policies_ok s" using ok c(1,2) by (simp add: policies_ok_def p(2))
    then show ?thesis using s(2) c p False by (simp add: same_active_def)
  qed
qed

lemma csc_run_inv: "csc_run P ins cnt outs h \<Longrightarrow> csc_inv P {} h \<and> types_ok (fh_sched h)"
proof (induction rule: csc_run.induct)
  case (start h)
  then show ?case by (rule start_inv)
next
  case (init ins cnt outs h scid st s)
  then show ?case using Init_inv by auto
next
  case (enqueue ins cnt outs h E scid rsn type st h' x ordered q)
  obtain h1 h2 where h: "AddPacketToQueue scid rsn type h = Inr h1" "csc_RecomputeEligibility E scid h1 = Inr h2"
    "h' = host_calls [ScheduleArbiter] h2"
    using enqueue.hyps(4) by (auto simp: csc_EnqueuePacket_def res_simps)
  have "csc_inv P {scid} h" using enqueue.IH csc_inv_mono by blast
  then have "csc_inv P {scid} h1" using AddPacketToQueue_inv [OF h(1)] enqueue.hyps(3) by auto
  then have i: "csc_inv P {} h2 \<and> types_ok (fh_sched h2)" using csc_Recompute_inv [OF h(2) _ _ enqueue.hyps(2)] by blast
  then show ?case using h(3) csc_inv_same [of P "{}" h2 h'] by simp
next
  case (poll ins cnt outs h E b s)
  have ok: "policies_ok (fh_sched h)" using poll.IH by (simp add: csc_inv_def)
  note w = csc_HasWork_active [OF poll.hyps(2) ok]
  have "csc_inv P {} (h\<lparr>fh_sched := s\<rparr>)" using csc_inv_same [of P "{}" h "h\<lparr>fh_sched := s\<rparr>"] poll.IH w by simp
  then show ?case using poll.IH w same_activeD(3,4) [of "fh_sched h" s] by (simp add: types_ok_def)
next
  case (work ins cnt outs h E scid q w h1 h')
  note c = choose_work_spec [OF work.hyps(3) conjunct1 [OF work.IH]]
  have i: "csc_inv P {} h1" using csc_inv_same [OF conjunct1 [OF work.IH], of h1] c by simp
  have "queues_of (fh_sched h) scid q \<noteq> []" using choose_work_contents [OF work.hyps(3)] by auto
  then have "scid \<in> dom (csc_queues (fh_sched h))" by (auto simp: queues_of_def split: option.splits)
  then have "scid \<in> dom (csc_queues (fh_sched h1))" using c same_activeD(2) contentsD(1) by metis
  then show ?case using hand_on_inv [OF work.hyps(4) i _ work.hyps(2)] by blast
next
  case (outside ins cnt outs h E h1 scid h')
  have "csc_inv P {scid} h" using outside.IH csc_inv_mono by blast
  then have "csc_inv P {scid} h1" by (rule csc_inv_changed) (use outside.hyps(3,4) in auto)
  then show ?case using csc_gate_inv [OF outside.hyps(5) _ _ outside.hyps(2)] by blast
qed

section \<open>Weights\<close>

text \<open>Except for push data, every queued work item is counted, so that a type with a waiting packet has a weight.\<close>

lemma out_count_sum:
  assumes "finite C" and "fst ` set log \<subseteq> C"
  shows "out_count q log = (\<Sum>c\<in>C. length (in_queue c q log))"
  using assms(2)
proof (induction log)
  case (Cons e log)
  obtain c p w where e: "e = (c, p, w)" by (cases e)
  have "(\<Sum>x\<in>C. length (in_queue x q (e # log))) = (\<Sum>x\<in>C. (if x = c then of_bool (p = q) else 0) + length (in_queue x q log))"
    by (rule sum.cong) (auto simp: e)
  also have "\<dots> = of_bool (p = q) + (\<Sum>x\<in>C. length (in_queue x q log))"
    using Cons.prems assms(1) by (simp add: sum.distrib e)
  finally show ?case using Cons by (simp add: e)
qed (simp add: out_count_def)

lemma waiting_counted:
  assumes "\<And>c. in_queue c q ins = in_queue c q outs @ Q c" and "Q scid \<noteq> []"
  shows "out_count q outs < out_count q ins"
proof -
  let ?C = "insert scid (fst ` set ins \<union> fst ` set outs)"
  have "out_count q outs = (\<Sum>c\<in>?C. length (in_queue c q outs))" by (rule out_count_sum) auto
  also have "\<dots> < (\<Sum>c\<in>?C. length (in_queue c q ins))"
    by (rule sum_strict_mono_ex1) (use assms in auto)
  also have "\<dots> = out_count q ins" by (rule out_count_sum [symmetric]) auto
  finally show ?thesis .
qed

lemma csc_run_counted:
  "csc_run P ins cnt outs h \<Longrightarrow> q \<noteq> kPushDataQ \<Longrightarrow> count_list cnt q = out_count q ins"
proof (induction rule: csc_run.induct)
  case (enqueue ins cnt outs h E scid rsn type st h' x ordered p)
  have "count_list (counted ordered type p) q = out_count q (map (Pair scid) (placed ordered rsn type p))"
    using enqueue.prems enqueue.hyps(7) by (cases type) (auto simp: counted_def placed_def)
  then show ?case using enqueue.IH [OF enqueue.prems] by simp
qed simp_all

lemma csc_run_weight:
  assumes "csc_run P ins cnt outs h" and "q \<noteq> kPushDataQ" and "queues_of (fh_sched h) scid q \<noteq> []" and "length ins < 2 ^ 64"
  shows "0 < ComputePacketTypeWeight (fh_sched h) q"
proof -
  note r = csc_run_queues [OF assms(1)]
  have "out_count q outs < out_count q ins"
    by (rule waiting_counted [of _ _ _ "\<lambda>c. queues_of (fh_sched h) c q"]) (use r assms(3) in auto)
  moreover have "out_count q ins \<le> length ins" by (simp add: out_count_def)
  ultimately obtain k where k: "out_count q ins = out_count q outs + k" "0 < k" "k < 2 ^ 64"
    using assms(4) by (metis add_diff_inverse_nat diff_le_self le_less_trans less_imp_not_less zero_less_diff)
  have "csc_pkt_count (fh_sched h) q = of_nat k"
    using r csc_run_counted [OF assms(1,2)] k(1) by simp
  then have "uint (csc_pkt_count (fh_sched h) q) = int k" using k(3) by (simp add: uint_nat unat_of_nat)
  then show ?thesis using k(2) by (simp add: ComputePacketTypeWeight_def)
qed

section \<open>Choosing work\<close>

lemma phantom_GetNext:
  assumes "policies_ok s" and "actives (csc_phantom_policy s) \<noteq> {}"
  shows "\<exists>scid p. GetNextEntity None (csc_phantom_policy s) = Inr (Inr scid, p) \<and> scid \<in> actives (csc_phantom_policy s)"
  by (rule rr.next_cases [OF policies_okD(3) [OF assms(1)]]) (use assms(2) in auto)

lemma type_GetNext:
  assumes "policies_ok s" and "types_ok s"
    and "(\<exists>q \<in> actives (csc_packet_type_policy s). 0 < ComputePacketTypeWeight s q) \<or>
      eligible (csc_packet_type_policy s) \<noteq> [] \<and> 0 < global_credits_remaining (csc_packet_type_policy s)"
  obtains q p scid p' where
    "GetNextEntity (Some (ComputePacketTypeWeight s)) (csc_packet_type_policy s) = Inr (Inr q, p)"
    "GetNextEntity None (csc_connection_policy s q) = Inr (Inr scid, p')" "scid \<in> active_in s q"
proof -
  note w = policies_okD(7) [OF assms(1)]
  obtain r p where r: "GetNextEntity (Some (ComputePacketTypeWeight s)) (csc_packet_type_policy s) = Inr (r, p)"
    "\<forall>e. r = Inl e \<longrightarrow> (\<forall>y. IsActive y (csc_packet_type_policy s) \<longrightarrow>
       round_weight (Some (ComputePacketTypeWeight s)) (csc_packet_type_policy s) y \<le> 0)"
    "\<forall>x. r = Inr x \<longrightarrow> IsActive x (csc_packet_type_policy s)"
    using GetNextEntity_ok [OF w weight_fetcher_ok, of s] by (elim exE conjE) blast
  have "\<exists>q. r = Inr q"
  proof (cases "eligible (csc_packet_type_policy s) \<noteq> [] \<and> 0 < global_credits_remaining (csc_packet_type_policy s)")
    case True
    then show ?thesis using next_of_eligible [OF w weight_fetcher_ok, of s] r(1) by auto
  next
    case False
    then show ?thesis using assms(3) r(2) by (cases r) (auto simp: round_weight_def actives_def)
  qed
  then obtain q where q: "r = Inr q" "q \<in> actives (csc_packet_type_policy s)" using r(3) by (auto simp: actives_def)
  then have ne: "active_in s q \<noteq> {}" using assms(2) by (simp add: types_ok_def)
  obtain scid p' where "GetNextEntity None (csc_connection_policy s q) = Inr (Inr scid, p')" "scid \<in> active_in s q"
    by (rule rr.next_cases [OF policies_okD(1) [OF assms(1)], of q]) (use ne in auto)
  then show thesis using that r(1) q(1) by blast
qed

text \<open>When the scheduler has work, it finds a work item at the head of a queue that is ready.\<close>

lemma choose_work_ready:
  assumes "csc_run P ins cnt outs h" and "csc_HasWork E (fh_sched h) = Inr (True, s)" and "length ins < 2 ^ 64"
  shows "\<exists>scid q w ws x h1. choose_work E (h\<lparr>fh_sched := s\<rparr>) = Inr (scid, q, w, h1) \<and>
    queues_of (fh_sched h) scid q = w # ws \<and> fh_connections h scid = Some x \<and> head_ready P x q w \<and>
    fh_connections h1 = fh_connections h \<and> fh_admission h1 = fh_admission h \<and> (wk_type w = kInvalid \<or> he_can_send E)"
proof -
  let ?h = "h\<lparr>fh_sched := s\<rparr>"
  have run: "csc_run P ins cnt outs ?h" by (rule csc_run.poll [OF assms(1,2)])
  note i = csc_run_inv [OF run]
  have ok: "policies_ok s" and t: "types_ok s" and inv: "csc_inv P {} ?h" using i by (simp_all add: csc_inv_def)
  have ok0: "policies_ok (fh_sched h)" using csc_run_inv [OF assms(1)] by (simp add: csc_inv_def)
  note w = csc_HasWork_active [OF assms(2) ok0]
  have q: "queues_of s = queues_of (fh_sched h)" using w same_activeD(2) contentsD(3) by blast
  have ph: "actives (csc_phantom_policy s) = actives (csc_phantom_policy (fh_sched h))" using w same_activeD(4) by blast
  have phantom: "phantom_waits s scid \<and> (\<exists>x. fh_connections h scid = Some x)" if a: "scid \<in> actives (csc_phantom_policy s)" for scid
  proof -
    have "scid \<in> dom (csc_queues s)"
      using a active_entity [of "csc_phantom_policy s"] policies_okD(3,4) [OF ok] by (auto simp: vanilla_ok_def)
    then show ?thesis using inv a by (simp add: csc_inv_def)
  qed
  show ?thesis
  proof (cases "he_can_send E")
    case True
    have pre: "(\<exists>q \<in> actives (csc_packet_type_policy s). 0 < ComputePacketTypeWeight s q) \<or>
      eligible (csc_packet_type_policy s) \<noteq> [] \<and> 0 < global_credits_remaining (csc_packet_type_policy s)"
    proof (cases "actives (csc_phantom_policy s) = {}")
      case False
      then obtain y where y: "y \<in> actives (csc_phantom_policy s)" by blast
      then have "queues_of (fh_sched ?h) y kPullAndOrderedPushRequest \<noteq> []" using phantom [OF y] by (auto simp: phantom_waits_def)
      then have "0 < ComputePacketTypeWeight s kPullAndOrderedPushRequest"
        using csc_run_weight [OF run _ _ assms(3), of kPullAndOrderedPushRequest y] by simp
      moreover have "kPullAndOrderedPushRequest \<in> actives (csc_packet_type_policy s)" using t False by (simp add: types_ok_def)
      ultimately show ?thesis by blast
    qed (use w ph in auto)
    obtain q p scid p' where n: "GetNextEntity (Some (ComputePacketTypeWeight s)) (csc_packet_type_policy s) = Inr (Inr q, p)"
      "GetNextEntity None (csc_connection_policy s q) = Inr (Inr scid, p')" "scid \<in> active_in s q"
      by (rule type_GetNext [OF ok t pre])
    have "scid \<in> dom (csc_queues s)"
      using n(3) active_entity [of "csc_connection_policy s q"] policies_okD(1,2) [OF ok, of q] by (auto simp: vanilla_ok_def)
    then have "queue_ready P ?h scid q" using inv n(3) by (simp add: csc_inv_def)
    then obtain x w' ws where x: "fh_connections h scid = Some x" "queues_of s scid q = w' # ws" "head_ready P x q w'"
      by (auto simp: queue_ready_def)
    let ?s = "s\<lparr>csc_packet_type_policy := p, csc_connection_policy := (csc_connection_policy s)(q := p')\<rparr>"
    have "queues_of ?s scid q = w' # ws" using x(2) by (simp add: queues_of_def)
    then have "choose_work E ?h = Inr (scid, q, w', h\<lparr>fh_sched := ?s\<rparr>)"
      using n(1,2) True by (simp add: choose_work_def choose_type_def queues_Peek_def)
    then show ?thesis using x True q by auto
  next
    case False
    then have "actives (csc_phantom_policy s) \<noteq> {}" using w ph by auto
    from phantom_GetNext [OF ok this] obtain scid p where n: "GetNextEntity None (csc_phantom_policy s) = Inr (Inr scid, p)"
      "scid \<in> actives (csc_phantom_policy s)" by blast
    obtain x w' ws where x: "fh_connections h scid = Some x" "queues_of s scid kPullAndOrderedPushRequest = w' # ws" "wk_type w' = kInvalid"
      using phantom [OF n(2)] by (auto simp: phantom_waits_def)
    have "queues_of (s\<lparr>csc_phantom_policy := p\<rparr>) scid kPullAndOrderedPushRequest = w' # ws" using x(2) by (simp add: queues_of_def)
    then have "choose_work E ?h = Inr (scid, kPullAndOrderedPushRequest, w', h\<lparr>fh_sched := s\<lparr>csc_phantom_policy := p\<rparr>\<rparr>)"
      using n(1) False by (simp add: choose_work_def choose_type_def queues_Peek_def)
    then show ?thesis using x q by (auto simp: head_ready_def)
  qed
qed

section \<open>Properties\<close>

text \<open>The two requests of the example host, queued one after the other.\<close>

definition two_requests :: "u64 \<Rightarrow> falcon_host res" where
  "two_requests window =
     res_bind ProtocolConnectionScheduler (\<lambda>s0.
     res_bind (csc_InitConnectionSchedulerQueues 5 s0) (\<lambda>(_, s1).
     res_bind (csc_InitConnectionSchedulerQueues 6 s1) (\<lambda>(_, s2).
     res_bind (csc_EnqueuePacket (example_host_env 3) 5 9 kPullRequest (example_host window s2)) (\<lambda>(_, h1).
     res_bind (csc_EnqueuePacket (example_host_env 3) 6 9 kPushRequest h1) (\<lambda>(_, h2). Inr h2)))))"

definition two_requests_log :: work_log where
  "two_requests_log = [(5, kPullAndOrderedPushRequest, \<lparr>wk_rsn = 9, wk_type = kPullRequest\<rparr>),
     (6, kPullAndOrderedPushRequest, \<lparr>wk_rsn = 9, wk_type = kPushRequest\<rparr>),
     (6, kPushDataQ, \<lparr>wk_rsn = 9, wk_type = kPushSolicitedData\<rparr>)]"

lemma Init_known:
  assumes "csc_InitConnectionSchedulerQueues scid s = Inr (st, s')"
  shows "csc_queues s' c \<noteq> None \<longleftrightarrow> c = scid \<or> csc_queues s c \<noteq> None"
proof (cases "csc_queues s scid")
  case None
  obtain st1 s1 where s1: "init_connection_policies scid kQueueTypes (s\<lparr>csc_queues := (csc_queues s)(scid \<mapsto> (\<lambda>_. []))\<rparr>) = (st1, s1)"
    by fastforce
  have "contents s' = contents s1"
    using assms None s1 by (auto simp: csc_InitConnectionSchedulerQueues_def Let_def res_simps split: prod.splits if_splits)
  from contentsD(1) [OF this] contentsD(1) [OF init_policies_contents [OF s1]] show ?thesis by simp
qed (use assms in \<open>auto simp: csc_InitConnectionSchedulerQueues_def\<close>)

lemma two_requests_run:
  assumes "two_requests window = Inr h" and "same_config P (example_host_env 3)"
  shows "csc_run P two_requests_log [kPullAndOrderedPushRequest, kPullAndOrderedPushRequest] [] h"
proof -
  let ?E = "example_host_env 3"
  obtain s0 st1 s1 st2 s2 st3 h1 st4 where r: "ProtocolConnectionScheduler = Inr s0"
    "csc_InitConnectionSchedulerQueues 5 s0 = Inr (st1, s1)" "csc_InitConnectionSchedulerQueues 6 s1 = Inr (st2, s2)"
    "csc_EnqueuePacket ?E 5 9 kPullRequest (example_host window s2) = Inr (st3, h1)"
    "csc_EnqueuePacket ?E 6 9 kPushRequest h1 = Inr (st4, h)"
    using assms(1) by (auto simp: two_requests_def res_bind_eq_Inr)
  have f: "fh_sched (example_host window s) = s" "(example_host window s)\<lparr>fh_sched := s'\<rparr> = example_host window s'" for s s'
    by (simp_all add: example_host_def)
  have "csc_run P [] [] [] (example_host window s0)" by (rule csc_run.start) (simp add: f r(1))
  from csc_run.init [OF this, unfolded f, OF r(2)] have "csc_run P [] [] [] (example_host window s1)" .
  from csc_run.init [OF this, unfolded f, OF r(3)] have run2: "csc_run P [] [] [] (example_host window s2)" .
  have k: "csc_queues s2 5 \<noteq> None" "csc_queues s2 6 \<noteq> None" using Init_known [OF r(3)] Init_known [OF r(2)] by simp_all
  have c5: "fh_connections (example_host window s2) 5 = Some (example_sender 5 kPull [kPullRequest])"
    and c6: "fh_connections (example_host window s2) 6 = Some (example_sender 6 kPushSolicited [kPushRequest, kPushSolicitedData])"
    by (simp_all add: example_host_def)
  have o: "cs_ordered_mode (cn_state (hc_conn (example_sender scid tt types))) = kOrdered" for scid tt types
    by (simp add: example_sender_def ConnectionState_new_def)
  have run3: "csc_run P [(5, kPullAndOrderedPushRequest, \<lparr>wk_rsn = 9, wk_type = kPullRequest\<rparr>)] [kPullAndOrderedPushRequest] [] h1"
    using csc_run.enqueue [OF run2 assms(2) _ r(4) c5, of True kPullAndOrderedPushRequest] k o
    by (simp add: f placed_def counted_def)
  have d: "5 \<in> dom (csc_queues (fh_sched (example_host window s2)))" "(6 :: u32) \<noteq> 5" using k f by auto
  have c6': "fh_connections h1 6 = Some (example_sender 6 kPushSolicited [kPushRequest, kPushSolicitedData])"
    and k6: "csc_queues (fh_sched h1) 6 \<noteq> None"
    using csc_EnqueuePacket_frame [OF r(4) d] c6 k(2) by (simp_all add: f)
  show ?thesis
    using csc_run.enqueue [OF run3 assms(2) k6 r(5) c6', of True kPullAndOrderedPushRequest] o
    by (simp add: placed_def counted_def two_requests_log_def)
qed

text \<open>
  C8. Every queue of a connection is first in, first out, and nothing is lost or doubled: at any point of a run, the
  work items ever put into a queue are those handed on, in the same order, followed by those that wait. The
  packet count of a queue type, which sets its weight, is the number of packets announced for it less the number
  handed on.
\<close>

theorem packets_leave_in_order:
  assumes "csc_run P ins cnt outs h"
  shows "in_queue scid q ins = in_queue scid q outs @ queues_of (fh_sched h) scid q \<and>
    csc_pkt_count (fh_sched h) q = of_nat (count_list cnt q) - of_nat (out_count q outs)"
  using csc_run_queues [OF assms] by blast

lemma two_requests_work:
  "\<exists>h s. two_requests 10000 = Inr h \<and> csc_HasWork (example_host_env 3) (fh_sched h) = Inr (True, s)"
proof -
  have "case two_requests 10000 of Inl _ \<Rightarrow> False
    | Inr h \<Rightarrow> (case csc_HasWork (example_host_env 3) (fh_sched h) of Inl _ \<Rightarrow> False | Inr (b, s) \<Rightarrow> b)"
    by code_simp
  then show ?thesis by (auto split: sum.splits)
qed

lemma example_config: "same_config (example_env 3) (example_host_env 3)"
  by (simp add: same_config_def example_host_env_def)

theorem packets_leave_in_order_witness:
  "\<exists>h. two_requests 10000 = Inr h \<and>
     queues_of (fh_sched h) 6 kPushDataQ = [\<lparr>wk_rsn = 9, wk_type = kPushSolicitedData\<rparr>] \<and>
     csc_pkt_count (fh_sched h) kPullAndOrderedPushRequest = 2 \<and> csc_pkt_count (fh_sched h) kPushDataQ = 0"
proof -
  obtain h where h: "two_requests 10000 = Inr h" using two_requests_work by blast
  note r = packets_leave_in_order [OF two_requests_run [OF h example_config]]
  show ?thesis
    using h r [of 6 kPushDataQ] r [of 6 kPullAndOrderedPushRequest] by (simp add: two_requests_log_def)
qed

text \<open>
  C9. The scheduler's choice: whenever \<^verbatim>\<open>HasWork\<close> says yes, \<^verbatim>\<open>ScheduleWork\<close> finds a packet type, a
  connection and a work item at the head of its queue without tripping a check; it is a phantom request, or the packet
  builder accepts packets and the item meets the congestion window, out-of-window and rate criteria, so that the check
  \<^verbatim>\<open>CanSend\<close> holds exactly when the packet is marked eligible and admission control lets it pass.
\<close>

theorem scheduler_choice_sound:
  assumes "csc_run P ins cnt outs h" and "same_config P E" and "length ins < 2 ^ 64"
    and "csc_HasWork E (fh_sched h) = Inr (True, s)"
  shows "\<exists>scid q w ws x h1. choose_work E (h\<lparr>fh_sched := s\<rparr>) = Inr (scid, q, w, h1) \<and>
    queues_of (fh_sched h) scid q = w # ws \<and> fh_connections h scid = Some x \<and>
    (wk_type w = kInvalid \<or> he_can_send E \<and>
      (\<forall>t m ok a. lookup_packet (hc_conn x) (wk_rsn w) (wk_type w) = Inr (t, m) \<and>
         MeetsAdmissionControlCriteria (he_admission E) (he_floor_fdiv E) (he_now E) (states_of h) scid (wk_rsn w) (wk_type w)
           (fh_admission h) = Inr (ok, a) \<longrightarrow>
         csc_CanSend E scid (wk_rsn w) (wk_type w) h1 = Inr (pm_is_transmission_eligible m \<and> ok, h1\<lparr>fh_admission := a\<rparr>)))"
proof -
  obtain scid q w ws x h1 where c: "choose_work E (h\<lparr>fh_sched := s\<rparr>) = Inr (scid, q, w, h1)"
    "queues_of (fh_sched h) scid q = w # ws" "fh_connections h scid = Some x" "head_ready P x q w"
    "fh_connections h1 = fh_connections h" "fh_admission h1 = fh_admission h" "wk_type w = kInvalid \<or> he_can_send E"
    using choose_work_ready [OF assms(1,4,3)] by (elim exE conjE) (rule that)
  have "states_of h1 = states_of h" using c(5) by (simp add: states_of_def)
  then have "csc_CanSend E scid (wk_rsn w) (wk_type w) h1 = Inr (pm_is_transmission_eligible m \<and> ok, h1\<lparr>fh_admission := a\<rparr>)"
    if "wk_type w \<noteq> kInvalid" "lookup_packet (hc_conn x) (wk_rsn w) (wk_type w) = Inr (t, m)"
      "MeetsAdmissionControlCriteria (he_admission E) (he_floor_fdiv E) (he_now E) (states_of h) scid (wk_rsn w) (wk_type w)
           (fh_admission h) = Inr (ok, a)" for t m ok a
    using that c(3-6) same_config_oow [OF assms(2)] by (simp add: csc_CanSend_def host_lookup_def head_ready_def)
  then show ?thesis using c(1,2,3,7) by blast
qed

theorem scheduler_choice_sound_witness:
  "\<exists>h s scid q w h1. two_requests 10000 = Inr h \<and> csc_HasWork (example_host_env 3) (fh_sched h) = Inr (True, s) \<and>
     choose_work (example_host_env 3) (h\<lparr>fh_sched := s\<rparr>) = Inr (scid, q, w, h1)"
proof -
  obtain h s where h: "two_requests 10000 = Inr h" "csc_HasWork (example_host_env 3) (fh_sched h) = Inr (True, s)"
    using two_requests_work by blast
  have "length two_requests_log < 2 ^ 64" by (simp add: two_requests_log_def)
  from scheduler_choice_sound [OF two_requests_run [OF h(1) example_config] example_config this h(2)] h show ?thesis by blast
qed


end
