(* ===== verification/Doubles.thy ===== *)
theory Doubles
  imports Complex_Main Falcon_Prelude
begin

text \<open>
  Double precision numbers. A \<^verbatim>\<open>double\<close> is a real number; the result of an arithmetic operation is the exact
  result, rounded. What the proofs use of rounding is the locale \<open>rounding\<close>; \<open>double_round\<close>, rounding to the
  nearest number of 53 significant bits with ties to even, satisfies it. Values that are not finite do not
  occur: where the code can produce one, the model says so. Conversions from and to integers and the
  fixed-point conversions of \<^verbatim>\<open>rue/fixed.h\<close> are here too.
\<close>

section \<open>Rounding\<close>

locale rounding =
  fixes rnd :: "real \<Rightarrow> real"
  assumes mono: "x \<le> y \<Longrightarrow> rnd x \<le> rnd y"
    and exact: "\<bar>k\<bar> \<le> 2 ^ 53 \<Longrightarrow> rnd (real_of_int k / 2 ^ n) = real_of_int k / 2 ^ n"
    and odd: "rnd (- x) = - rnd x"
begin

lemma exact_int: "\<bar>k\<bar> \<le> 2 ^ 53 \<Longrightarrow> rnd (real_of_int k) = real_of_int k"
  using exact [of k 0] by simp

lemma rnd_0 [simp]: "rnd 0 = 0"
  using exact_int [of 0] by simp

lemma rnd_1 [simp]: "rnd 1 = 1"
  using exact_int [of 1] by simp

lemma nonneg: "0 \<le> x \<Longrightarrow> 0 \<le> rnd x"
  using mono [of 0 x] by simp

lemma le_int: "x \<le> real_of_int k \<Longrightarrow> \<bar>k\<bar> \<le> 2 ^ 53 \<Longrightarrow> rnd x \<le> real_of_int k"
  using mono [of x "real_of_int k"] exact_int [of k] by simp

lemma ge_int: "real_of_int k \<le> x \<Longrightarrow> \<bar>k\<bar> \<le> 2 ^ 53 \<Longrightarrow> real_of_int k \<le> rnd x"
  using mono [of "real_of_int k" x] exact_int [of k] by simp

text \<open>A sum of numbers of opposite signs has the sign it should have.\<close>

lemma diff_nonneg: "y \<le> x \<Longrightarrow> 0 \<le> rnd (x - y)"
  by (rule nonneg) simp

end

section \<open>Rounding to nearest, ties to even\<close>

definition round_even :: "real \<Rightarrow> int" where
  "round_even y = (if y - of_int \<lfloor>y\<rfloor> < 1 / 2 \<or> y - of_int \<lfloor>y\<rfloor> = 1 / 2 \<and> even \<lfloor>y\<rfloor> then \<lfloor>y\<rfloor> else \<lfloor>y\<rfloor> + 1)"

definition binade :: "real \<Rightarrow> int" where
  "binade x = \<lfloor>log 2 \<bar>x\<bar>\<rfloor>"

definition double_round :: "real \<Rightarrow> real" where
  "double_round x =
     (if x = 0 then 0
      else real_of_int (round_even (x * 2 powr real_of_int (52 - binade x))) * 2 powr real_of_int (binade x - 52))"

lemma round_even_int [simp]: "round_even (real_of_int k) = k"
  by (simp add: round_even_def)

lemma round_even_mono:
  assumes "x \<le> y"
  shows "round_even x \<le> round_even y"
proof (cases "\<lfloor>x\<rfloor> = \<lfloor>y\<rfloor>")
  case True
  with assms show ?thesis by (auto simp: round_even_def)
next
  case False
  with assms have "\<lfloor>x\<rfloor> + 1 \<le> \<lfloor>y\<rfloor>" by (metis floor_mono order_le_less zless_imp_add1_zle)
  then show ?thesis by (auto simp: round_even_def)
qed

lemma round_even_minus: "round_even (- y) = - round_even y"
proof (cases "y = of_int \<lfloor>y\<rfloor>")
  case True
  then show ?thesis by (metis of_int_minus round_even_int)
next
  case False
  then have f: "\<lfloor>- y\<rfloor> = - \<lfloor>y\<rfloor> - 1" by linarith
  have d: "- y - real_of_int (- \<lfloor>y\<rfloor> - 1) = 1 - (y - of_int \<lfloor>y\<rfloor>)" by simp
  show ?thesis unfolding round_even_def f d by auto
qed

lemma powr_binade:
  assumes "x \<noteq> 0"
  shows "2 powr binade x \<le> \<bar>x\<bar>" and "\<bar>x\<bar> < 2 powr (binade x + 1)"
proof -
  have "0 < \<bar>x\<bar>" using assms by simp
  then show "2 powr binade x \<le> \<bar>x\<bar>" by (simp add: binade_def powr_le_iff)
  have "log 2 \<bar>x\<bar> < real_of_int \<lfloor>log 2 \<bar>x\<bar>\<rfloor> + 1" by linarith
  then show "\<bar>x\<bar> < 2 powr (binade x + 1)" using \<open>0 < \<bar>x\<bar>\<close> by (simp add: binade_def less_powr_iff)
qed

text \<open>The scaled number lies between \<open>2 ^ 52\<close> and \<open>2 ^ 53\<close>, so that the rounded one stays in its binade or is the next power.\<close>

lemma scaled_bounds:
  assumes "0 < x"
  shows "2 ^ 52 \<le> x * 2 powr real_of_int (52 - binade x)" and "x * 2 powr real_of_int (52 - binade x) \<le> 2 ^ 53"
proof -
  have *: "2 powr real_of_int (binade x) * 2 powr real_of_int (52 - binade x) = (2 :: real) ^ 52"
    by (simp add: powr_add [symmetric] powr_realpow [symmetric])
  have "2 powr real_of_int (binade x) * 2 powr real_of_int (52 - binade x) \<le> x * 2 powr real_of_int (52 - binade x)"
    using powr_binade(1) [of x] assms by (intro mult_right_mono) auto
  then show "2 ^ 52 \<le> x * 2 powr real_of_int (52 - binade x)" unfolding * .
  have **: "2 powr (real_of_int (binade x) + 1) * 2 powr real_of_int (52 - binade x) = (2 :: real) ^ 53"
    by (simp add: powr_add [symmetric] powr_realpow [symmetric])
  have "x * 2 powr real_of_int (52 - binade x) \<le> 2 powr (real_of_int (binade x) + 1) * 2 powr real_of_int (52 - binade x)"
    using powr_binade(2) [of x] assms by (intro mult_right_mono) auto
  then show "x * 2 powr real_of_int (52 - binade x) \<le> 2 ^ 53" unfolding ** .
qed

lemma double_round_bounds:
  assumes "0 < x"
  shows "2 powr binade x \<le> double_round x" and "double_round x \<le> 2 powr (binade x + 1)"
proof -
  let ?r = "round_even (x * 2 powr real_of_int (52 - binade x))"
  have "2 ^ 52 \<le> ?r" using round_even_mono [OF scaled_bounds(1) [OF assms]] round_even_int [of "2 ^ 52"] by simp
  then have 1: "(2 :: real) ^ 52 \<le> of_int ?r" by (metis of_int_le_iff of_int_numeral of_int_power)
  have "?r \<le> 2 ^ 53" using round_even_mono [OF scaled_bounds(2) [OF assms]] round_even_int [of "2 ^ 53"] by simp
  then have 2: "of_int ?r \<le> (2 :: real) ^ 53" by (metis of_int_le_iff of_int_numeral of_int_power)
  have p: "(2 :: real) ^ 52 * 2 powr real_of_int (binade x - 52) = 2 powr binade x"
    "(2 :: real) ^ 53 * 2 powr real_of_int (binade x - 52) = 2 powr (binade x + 1)"
    by (simp_all add: powr_diff powr_add powr_realpow [symmetric])
  have d: "double_round x = of_int ?r * 2 powr real_of_int (binade x - 52)" using assms by (simp add: double_round_def)
  show "2 powr binade x \<le> double_round x"
    unfolding d p(1) [symmetric] by (rule mult_right_mono [OF 1]) simp
  show "double_round x \<le> 2 powr (binade x + 1)"
    unfolding d p(2) [symmetric] by (rule mult_right_mono [OF 2]) simp
qed

lemma double_round_mono_pos:
  assumes "0 < x" "x \<le> y"
  shows "double_round x \<le> double_round y"
proof -
  have b: "binade x \<le> binade y" using assms by (simp add: binade_def floor_mono)
  show ?thesis
  proof (cases "binade x = binade y")
    case True
    have "round_even (x * 2 powr real_of_int (52 - binade x)) \<le> round_even (y * 2 powr real_of_int (52 - binade x))"
      using assms by (intro round_even_mono mult_right_mono) auto
    then show ?thesis using assms True by (auto simp: double_round_def intro!: mult_right_mono)
  next
    case False
    with b have "real_of_int (binade x) + 1 \<le> real_of_int (binade y)" by linarith
    then have "(2 :: real) powr (binade x + 1) \<le> 2 powr binade y" by simp
    then show ?thesis using double_round_bounds [of x] double_round_bounds [of y] assms by linarith
  qed
qed

lemma double_round_minus: "double_round (- x) = - double_round x"
  by (auto simp: double_round_def binade_def round_even_minus)

lemma double_round_pos: "0 < x \<Longrightarrow> 0 < double_round x"
  using double_round_bounds(1) [of x] powr_gt_zero [of 2 "binade x"] by linarith

lemma double_round_exact:
  assumes "\<bar>k\<bar> \<le> 2 ^ 53"
  shows "double_round (real_of_int k / 2 ^ n) = real_of_int k / 2 ^ n"
proof (cases "k = 0")
  case True
  then show ?thesis by (simp add: double_round_def)
next
  case False
  let ?x = "real_of_int k / 2 ^ n" and ?l = "\<lfloor>log 2 \<bar>real_of_int k\<bar>\<rfloor>"
  have k: "0 < \<bar>real_of_int k\<bar>" "1 \<le> \<bar>real_of_int k\<bar>" using False by linarith+
  have b: "binade ?x = ?l - int n"
  proof -
    have "log 2 \<bar>?x\<bar> = log 2 \<bar>real_of_int k\<bar> - real_of_int (int n)"
      using k(1) by (simp add: log_divide log_nat_power abs_divide)
    then show ?thesis unfolding binade_def by linarith
  qed
  have l0: "0 \<le> ?l" using k by simp
  have "\<bar>real_of_int k\<bar> \<le> 2 ^ 53" using assms by (metis of_int_abs of_int_le_iff of_int_numeral of_int_power)
  then have "log 2 \<bar>real_of_int k\<bar> \<le> 53" using k(1) by (simp add: log_le_iff powr_realpow)
  then have l: "?l \<le> 53" by linarith
  have s: "?x * 2 powr real_of_int (52 - binade ?x) = real_of_int k * 2 powr real_of_int (52 - ?l)"
    by (simp add: b powr_diff powr_add powr_realpow field_simps)
  have i: "\<exists>j. real_of_int k * 2 powr real_of_int (52 - ?l) = real_of_int j"
  proof (cases "?l = 53")
    case True
    then have "2 powr 53 \<le> \<bar>real_of_int k\<bar>" using k(1) by (simp add: floor_eq_iff le_log_iff)
    then have "\<bar>real_of_int k\<bar> = 2 ^ 53" using \<open>\<bar>real_of_int k\<bar> \<le> 2 ^ 53\<close> by (simp add: powr_realpow)
    then have "real_of_int k = 2 ^ 53 \<or> real_of_int k = - (2 ^ 53)" by linarith
    moreover have "(2 :: real) powr real_of_int (52 - ?l) = 1 / 2" using True by (simp add: powr_minus)
    ultimately show ?thesis by (auto intro: exI [of _ "2 ^ 52"] exI [of _ "- (2 ^ 52)"])
  next
    case False
    with l have n: "real_of_int (52 - ?l) = real (nat (52 - ?l))" by linarith
    have "2 powr real_of_int (52 - ?l) = real_of_int (2 ^ nat (52 - ?l))"
      unfolding n by (simp only: powr_realpow [of 2, simplified] of_int_power of_int_numeral)
    then show ?thesis by (metis of_int_mult)
  qed
  then obtain j where j: "real_of_int k * 2 powr real_of_int (52 - ?l) = real_of_int j" by blast
  have "double_round ?x = real_of_int j * 2 powr real_of_int (binade ?x - 52)"
    using False s j by (simp add: double_round_def)
  also have "\<dots> = real_of_int k * (2 powr real_of_int (52 - ?l) * 2 powr real_of_int (binade ?x - 52))"
    by (simp add: j [symmetric])
  also have "2 powr real_of_int (52 - ?l) * 2 powr real_of_int (binade ?x - 52) = (1 :: real) / 2 ^ n"
    unfolding b by (simp add: powr_add [symmetric] powr_minus powr_realpow divide_inverse)
  finally show ?thesis by simp
qed

interpretation dbl: rounding double_round
proof unfold_locales
  fix x y :: real
  assume le: "x \<le> y"
  consider "0 < x" | "x \<le> 0" "0 \<le> y" | "y < 0" by linarith
  then show "double_round x \<le> double_round y"
  proof cases
    case 1
    then show ?thesis using le by (rule double_round_mono_pos)
  next
    case 2
    have "double_round x \<le> 0"
      using double_round_pos [of "- x"] 2 by (cases "x = 0") (auto simp: double_round_minus double_round_def [of 0])
    moreover have "0 \<le> double_round y"
      using double_round_pos [of y] 2 by (cases "y = 0") (auto simp: double_round_def [of 0])
    ultimately show ?thesis by linarith
  next
    case 3
    then show ?thesis using double_round_mono_pos [of "- y" "- x"] le by (simp add: double_round_minus)
  qed
qed (simp_all add: double_round_exact double_round_minus)

section \<open>Conversions\<close>

text \<open>
  \<^verbatim>\<open>static_cast\<close> from a double to an unsigned type drops the fraction; it is undefined when the result does not fit.
  \<^verbatim>\<open>std::round\<close> rounds halves away from zero.
\<close>

definition trunc :: "real \<Rightarrow> int" where
  "trunc x = (if 0 \<le> x then \<lfloor>x\<rfloor> else \<lceil>x\<rceil>)"

definition to_unsigned :: "real \<Rightarrow> 'a::len word res" where
  "to_unsigned x = (if 0 \<le> trunc x \<and> trunc x < 2 ^ LENGTH('a) then Inr (word_of_int (trunc x)) else Inl UndefinedBehaviour)"

definition std_round :: "real \<Rightarrow> real" where
  "std_round x = of_int (if 0 \<le> x then \<lfloor>x + 1 / 2\<rfloor> else - \<lfloor>- x + 1 / 2\<rfloor>)"

text \<open>The conversions of \<^verbatim>\<open>fixed.h\<close>; scaling by a power of two is exact.\<close>

definition FixedToFloat :: "'a::len word \<Rightarrow> nat \<Rightarrow> real" where
  "FixedToFloat num nf = real (unat num) / 2 ^ nf"

definition FloatToFixed :: "real \<Rightarrow> nat \<Rightarrow> 'a::len word res" where
  "FloatToFixed num nf = to_unsigned (std_round (num * 2 ^ nf))"

text \<open>\<^verbatim>\<open>std::clamp\<close>.\<close>

definition std_clamp :: "'a::linorder \<Rightarrow> 'a \<Rightarrow> 'a \<Rightarrow> 'a" where
  "std_clamp v lo hi = (if v < lo then lo else if hi < v then hi else v)"

lemma std_clamp_bounds: "lo \<le> hi \<Longrightarrow> lo \<le> std_clamp v lo hi \<and> std_clamp v lo hi \<le> hi"
  by (auto simp: std_clamp_def)

lemma to_unsigned_total:
  assumes "0 \<le> x" "x < 2 ^ LENGTH('a)"
  shows "to_unsigned x = Inr (word_of_int \<lfloor>x\<rfloor> :: 'a::len word)" and "uint (word_of_int \<lfloor>x\<rfloor> :: 'a word) = \<lfloor>x\<rfloor>"
proof -
  have *: "0 \<le> \<lfloor>x\<rfloor>" "\<lfloor>x\<rfloor> < 2 ^ LENGTH('a)" using assms by (simp_all add: floor_less_iff)
  then show "to_unsigned x = Inr (word_of_int \<lfloor>x\<rfloor> :: 'a word)" using assms by (simp add: to_unsigned_def trunc_def)
  show "uint (word_of_int \<lfloor>x\<rfloor> :: 'a word) = \<lfloor>x\<rfloor>" using * by (simp add: uint_word_of_int)
qed

lemma std_round_near: "\<bar>std_round x - x\<bar> \<le> 1 / 2"
proof (cases "0 \<le> x")
  case True
  then have "std_round x = of_int \<lfloor>x + 1 / 2\<rfloor>" by (simp add: std_round_def)
  then show ?thesis by linarith
next
  case False
  then have "std_round x = - of_int \<lfloor>- x + 1 / 2\<rfloor>" by (simp add: std_round_def)
  then show ?thesis by linarith
qed

lemma std_round_nonneg: "0 \<le> x \<Longrightarrow> 0 \<le> std_round x"
  by (simp add: std_round_def)

lemma FloatToFixed_total:
  assumes "0 \<le> x" "x * 2 ^ nf + 1 < 2 ^ LENGTH('a)"
  obtains w where "FloatToFixed x nf = Inr (w :: 'a::len word)" "real (unat w) = std_round (x * 2 ^ nf)"
proof -
  let ?y = "std_round (x * 2 ^ nf)"
  have y: "0 \<le> ?y" "?y < 2 ^ LENGTH('a)"
    using assms(2) std_round_near [of "x * 2 ^ nf"] std_round_nonneg [of "x * 2 ^ nf"] assms(1)
    by (simp, linarith)
  have i: "of_int \<lfloor>?y\<rfloor> = ?y" by (simp add: std_round_def)
  note t = to_unsigned_total [OF y]
  have "real_of_int (uint (word_of_int \<lfloor>?y\<rfloor> :: 'a word)) = ?y" using t(2) i by simp
  then have "real (unat (word_of_int \<lfloor>?y\<rfloor> :: 'a word)) = ?y" by simp
  with t(1) that show thesis by (simp add: FloatToFixed_def)
qed

end
