(* ===== verification/Rue_Format.thy ===== *)
theory Rue_Format
  imports Doubles Falcon_Types
begin

unbundle bit_operations_syntax

text \<open>
  What the rate update engine and the congestion control algorithms exchange (\<^verbatim>\<open>rue/bits.h\<close>,
  \<^verbatim>\<open>rue/format_gen1.h\<close>, \<^verbatim>\<open>rue/format.h\<close>, \<^verbatim>\<open>rue/util.h\<close>): events and responses of the first generation.
  A bit field of width \<open>n\<close> is an \<open>n word\<close>: a value assigned to it is cut to its width, and it is widened where it
  is read. Reserved fields and fields that nothing reads are left out.
\<close>

section \<open>Bits\<close>

definition ValidMask :: "nat \<Rightarrow> 'a::len word" where
  "ValidMask bits = (if LENGTH('a) \<le> bits then NOT 0 else push_bit bits 1 - 1)"

definition InvalidMask :: "nat \<Rightarrow> 'a::len word" where
  "InvalidMask bits = NOT (ValidMask bits)"

definition ValidBits :: "nat \<Rightarrow> 'a::len word \<Rightarrow> 'a word" where
  "ValidBits bits num = ValidMask bits AND num"

definition InvalidBits :: "nat \<Rightarrow> 'a::len word \<Rightarrow> 'a word" where
  "InvalidBits bits num = InvalidMask bits AND num"

definition CheckBits :: "nat \<Rightarrow> 'a::len word \<Rightarrow> unit res" where
  "CheckBits bits num = check (InvalidBits bits num = 0) (Inr ())"

definition SaturateHigh :: "nat \<Rightarrow> 'a::len word \<Rightarrow> 'a word" where
  "SaturateHigh bits num = (if InvalidBits bits num \<noteq> 0 then ValidMask bits else num)"

definition kTimeBits :: nat where
  "kTimeBits = 24"

definition TimeBits :: "u32 \<Rightarrow> u32" where
  "TimeBits num = ValidBits kTimeBits num"

lemma ValidMask_mask: "ValidMask bits = (mask bits :: 'a::len word)"
  by (auto simp: ValidMask_def mask_eq_decr_exp push_bit_of_1 intro!: bit_word_eqI)

lemma ValidBits_take: "ValidBits bits num = take_bit bits num"
  by (simp add: ValidBits_def ValidMask_mask take_bit_eq_mask and.commute)

lemma InvalidBits_zero: "InvalidBits bits (num :: 'a::len word) = 0 \<longleftrightarrow> unat num < 2 ^ bits"
proof -
  have "InvalidBits bits num = 0 \<longleftrightarrow> take_bit bits num = num"
    by (auto simp: InvalidBits_def InvalidMask_def ValidMask_mask bit_eq_iff bit_simps)
  also have "\<dots> \<longleftrightarrow> unat num < 2 ^ bits"
    by (metis take_bit_nat_eq_self_iff unsigned_take_bit_eq unsigned_word_eqI)
  finally show ?thesis .
qed

lemma CheckBits_ok: "CheckBits bits num = Inr () \<longleftrightarrow> unat num < 2 ^ bits"
  by (auto simp: CheckBits_def res_simps InvalidBits_zero)

text \<open>Saturation keeps the number or yields the largest number of the given width.\<close>

lemma unat_SaturateHigh:
  assumes "bits < LENGTH('a)"
  shows "unat (SaturateHigh bits (num :: 'a::len word)) = min (unat num) (2 ^ bits - 1)"
proof -
  have "uint (mask bits :: 'a word) = mask bits" using assms by (simp add: uint_mask_eq min_def)
  then have "unat (mask bits :: 'a word) = nat (mask bits)" by (metis nat_uint_eq)
  then have "unat (mask bits :: 'a word) = 2 ^ bits - 1" by (simp add: mask_eq_exp_minus_1 nat_diff_distrib nat_power_eq)
  then show ?thesis by (auto simp: SaturateHigh_def InvalidBits_zero ValidMask_mask)
qed

lemma unat_TimeBits: "unat (TimeBits x) = unat x mod 2 ^ 24"
  unfolding TimeBits_def ValidBits_take kTimeBits_def unsigned_take_bit_eq by (rule take_bit_eq_mod)

lemma unat_TimeBits_less: "unat (TimeBits x) < 2 ^ 24"
  by (simp add: unat_TimeBits)

section \<open>Events and responses\<close>

datatype rue_event_type = kRueAck | kRueNack | kRueRetransmit

datatype delay_select = kFull | kFabric | kForward | kReverse

datatype window_direction = kDecrease | kIncrease

datatype rue_retransmit_reason = kRueTimeout | kRueEarly

record event =
  re_connection_id :: "24 word"
  re_event_type :: rue_event_type
  re_timestamp_1 :: "24 word"
  re_timestamp_2 :: "24 word"
  re_timestamp_3 :: "24 word"
  re_timestamp_4 :: "24 word"
  re_retransmit_count :: "3 word"
  re_retransmit_reason :: rue_retransmit_reason
  re_nack_code :: nack_code
  re_forward_hops :: "4 word"
  re_rx_buffer_level :: "5 word"
  re_cc_metadata :: "22 word"
  re_fabric_congestion_window :: "21 word"
  re_inter_packet_gap :: "20 word"
  re_nic_congestion_window :: "11 word"
  re_retransmit_timeout :: "24 word"
  re_num_packets_acked :: "10 word"
  re_eack_drop :: bool
  re_eack :: bool
  re_event_queue_select :: "2 word"
  re_delay_select :: delay_select
  re_fabric_window_time_marker :: "24 word"
  re_nic_window_time_marker :: "24 word"
  re_nic_window_direction :: window_direction
  re_base_delay :: "24 word"
  re_delay_state :: "24 word"
  re_rtt_state :: "24 word"
  re_cc_opaque :: "2 word"

record response =
  rr_connection_id :: "24 word"
  rr_randomize_path :: bool
  rr_cc_metadata :: "22 word"
  rr_fabric_congestion_window :: "21 word"
  rr_inter_packet_gap :: "20 word"
  rr_nic_congestion_window :: "11 word"
  rr_retransmit_timeout :: "24 word"
  rr_event_queue_select :: "2 word"
  rr_delay_select :: delay_select
  rr_fabric_window_time_marker :: "24 word"
  rr_nic_window_time_marker :: "24 word"
  rr_nic_window_direction :: window_direction
  rr_base_delay :: "24 word"
  rr_delay_state :: "24 word"
  rr_rtt_state :: "24 word"
  rr_cc_opaque :: "2 word"

text \<open>\<^verbatim>\<open>falcon_rue::SetResponse\<close>: the values are cut to the widths of their fields.\<close>

definition SetResponse ::
  "24 word \<Rightarrow> bool \<Rightarrow> 22 word \<Rightarrow> u32 \<Rightarrow> u32 \<Rightarrow> u32 \<Rightarrow> u32 \<Rightarrow> u32 \<Rightarrow> u32 \<Rightarrow> window_direction \<Rightarrow> 2 word \<Rightarrow>
   delay_select \<Rightarrow> 24 word \<Rightarrow> u32 \<Rightarrow> u32 \<Rightarrow> 2 word \<Rightarrow> response" where
  "SetResponse connection_id randomize_path cc_metadata fabric_congestion_window inter_packet_gap
     nic_congestion_window retransmit_timeout fabric_window_time_marker nic_window_time_marker
     nic_window_direction event_queue_select delay_select base_delay delay_state rtt_state cc_opaque =
     \<lparr>rr_connection_id = connection_id, rr_randomize_path = randomize_path, rr_cc_metadata = cc_metadata,
      rr_fabric_congestion_window = ucast fabric_congestion_window, rr_inter_packet_gap = ucast inter_packet_gap,
      rr_nic_congestion_window = ucast nic_congestion_window, rr_retransmit_timeout = ucast retransmit_timeout,
      rr_event_queue_select = event_queue_select, rr_delay_select = delay_select,
      rr_fabric_window_time_marker = ucast fabric_window_time_marker,
      rr_nic_window_time_marker = ucast nic_window_time_marker, rr_nic_window_direction = nic_window_direction,
      rr_base_delay = base_delay, rr_delay_state = ucast delay_state, rr_rtt_state = ucast rtt_state,
      rr_cc_opaque = cc_opaque\<rparr>"

section \<open>Timing and window guards\<close>

record packet_timing =
  pt_rtt :: u32
  pt_delay :: u32

definition GetWindowDelta :: "u32 \<Rightarrow> 24 word \<Rightarrow> u32" where
  "GetWindowDelta now window_time_marker = TimeBits (now - ucast window_time_marker)"

definition GetPacketTiming :: "event \<Rightarrow> packet_timing" where
  "GetPacketTiming e =
     (let rtt = TimeBits (ucast (re_timestamp_4 e) - ucast (re_timestamp_1 e)) in
      \<lparr>pt_rtt = rtt,
       pt_delay = (case re_delay_select e of
           kFull \<Rightarrow> rtt
         | kFabric \<Rightarrow> TimeBits (rtt - TimeBits (ucast (re_timestamp_3 e) - ucast (re_timestamp_2 e)))
         | kForward \<Rightarrow> TimeBits (ucast (re_timestamp_2 e) - ucast (re_timestamp_1 e))
         | kReverse \<Rightarrow> TimeBits (ucast (re_timestamp_4 e) - ucast (re_timestamp_3 e)))\<rparr>)"

definition GetFabricWindowTimeMarker :: "u32 \<Rightarrow> 24 word \<Rightarrow> u32 \<Rightarrow> real \<Rightarrow> real \<Rightarrow> real \<Rightarrow> u32" where
  "GetFabricWindowTimeMarker now last_marker rtt last_window next_window min_window =
     (if next_window < last_window \<or> next_window = min_window then now
      else if rtt < TimeBits (now - ucast last_marker) then TimeBits (now - rtt)
      else ucast last_marker)"

record nic_window_guard_info =
  ng_time_marker :: u32
  ng_direction :: window_direction

definition GetNicWindowGuardInfo ::
  "u32 \<Rightarrow> 24 word \<Rightarrow> u32 \<Rightarrow> window_direction \<Rightarrow> real \<Rightarrow> real \<Rightarrow> real \<Rightarrow> real \<Rightarrow> nic_window_guard_info" where
  "GetNicWindowGuardInfo now last_marker rtt last_direction last_window next_window min_window max_window =
     (if next_window < last_window \<or> next_window = min_window then \<lparr>ng_time_marker = now, ng_direction = kDecrease\<rparr>
      else if last_window < next_window \<or> next_window = max_window then \<lparr>ng_time_marker = now, ng_direction = kIncrease\<rparr>
      else \<lparr>ng_time_marker =
              (if rtt < TimeBits (now - ucast last_marker) then TimeBits (now - rtt) else ucast last_marker),
            ng_direction = last_direction\<rparr>)"

lemma timing_small: "unat (pt_rtt (GetPacketTiming e)) < 2 ^ 24" "unat (pt_delay (GetPacketTiming e)) < 2 ^ 24"
  by (auto simp: GetPacketTiming_def Let_def unat_TimeBits_less [simplified] split: delay_select.split)

end
