(* ===== verification/Swift_Algorithm.thy ===== *)
theory Swift_Algorithm
  imports Rue_Format
begin

text \<open>
  Swift, the congestion control algorithm of the rate update engine, for the event format of the first generation
  (\<^verbatim>\<open>rue/algorithm/swift.h\<close>, \<^verbatim>\<open>swift.cc\<close>, \<^verbatim>\<open>stateful_algorithm.h\<close>): validation of a configuration,
  processing of acknowledgements, NACKs and timeouts, path rerouting (PLB), the state kept per connection.
  Arithmetic in double precision takes the rounding function as an argument. Values that go only into
  fields of later generations (backpressure, flow labels and weights, ack request rate) are not computed.
\<close>

section \<open>Configuration\<close>

text \<open>\<^verbatim>\<open>SwiftConfiguration\<close>; an optional field whose presence the code asks for is an option.\<close>

record swift_configuration =
  sc_max_fabric_congestion_window :: real
  sc_min_fabric_congestion_window :: real
  sc_fabric_additive_increment_factor :: real
  sc_fabric_multiplicative_decrease_factor :: real
  sc_max_fabric_multiplicative_decrease :: real
  sc_max_decrease_on_eack_nack_drop :: bool
  sc_fabric_base_delay :: "u32 option"
  sc_max_nic_congestion_window :: real
  sc_min_nic_congestion_window :: real
  sc_nic_additive_increment_factor :: real
  sc_nic_multiplicative_decrease_factor :: real
  sc_max_nic_multiplicative_decrease :: real
  sc_target_rx_buffer_level :: u32
  sc_rtt_smoothing_alpha :: real
  sc_delay_smoothing_alpha :: real
  sc_topo_scaling_per_hop :: u32
  sc_min_retransmit_timeout :: u32
  sc_retransmit_timeout_scalar :: real
  sc_retransmit_limit :: u32
  sc_min_flow_scaling_window :: real
  sc_max_flow_scaling_window :: real
  sc_max_flow_scaling :: u32
  sc_calc_rtt_smooth :: bool
  sc_ipg_time_scalar :: real
  sc_ipg_bits :: u32
  sc_randomize_path :: bool
  sc_plb_target_rtt_multiplier :: real
  sc_plb_congestion_threshold :: real
  sc_plb_attempt_threshold :: u32
  sc_backpressure_alpha :: "real option"
  sc_backpressure_retransmit_alpha :: "real option"

record swift_parameters =
  sp_max_decrease_on_eack_nack_drop :: bool
  sp_calc_rtt_smooth :: bool
  sp_randomize_path :: bool
  sp_plb_attempt_threshold :: u8
  sp_retransmit_limit :: u8
  sp_target_rx_buffer_level :: u8
  sp_ipg_bits :: u8
  sp_max_fabric_congestion_window :: real
  sp_min_fabric_congestion_window :: real
  sp_fabric_additive_increment_factor :: real
  sp_fabric_multiplicative_decrease_factor :: real
  sp_max_fabric_multiplicative_decrease :: real
  sp_max_nic_congestion_window :: real
  sp_min_nic_congestion_window :: real
  sp_nic_additive_increment_factor :: real
  sp_nic_multiplicative_decrease_factor :: real
  sp_max_nic_multiplicative_decrease :: real
  sp_rtt_smoothing_alpha :: real
  sp_delay_smoothing_alpha :: real
  sp_retransmit_timeout_scalar :: real
  sp_flow_scaling_alpha :: real
  sp_flow_scaling_beta :: real
  sp_ipg_time_scalar :: real
  sp_plb_target_rtt_multiplier :: real
  sp_plb_congestion_threshold :: real
  sp_min_retransmit_timeout :: u32
  sp_max_flow_scaling :: u32
  sp_fabric_base_delay :: u32
  sp_topo_scaling_per_hop :: u16

definition kMaxFabricCongestionWindow :: real where
  "kMaxFabricCongestionWindow = FixedToFloat (ValidMask 21 :: u32) 10"

definition kMinFabricCongestionWindow :: real where
  "kMinFabricCongestionWindow = FixedToFloat (ValidMask 1 :: u32) 10"

definition kMaxGen1NicCongestionWindow :: real where
  "kMaxGen1NicCongestionWindow = real (unat (ValidMask 11 :: u32))"

definition kMaxPlbAckCount :: u32 where
  "kMaxPlbAckCount = ValidMask 10"

definition kMaxPlbAttemptCount :: u32 where
  "kMaxPlbAttemptCount = ValidMask 4"

text \<open>
  A quotient by zero, which has no finite value, is undefined behaviour here: the code converts it to an integer
  later on.
\<close>

definition CalculateFlowScalingAlpha :: "(real \<Rightarrow> real) \<Rightarrow> u32 \<Rightarrow> real \<Rightarrow> real \<Rightarrow> (status + real) res" where
  "CalculateFlowScalingAlpha rnd max_flow_scaling min_window max_window =
     (if min_window \<le> 0 then Inr (Inl InvalidArgumentError)
      else if max_window \<le> 0 then Inr (Inl InvalidArgumentError)
      else if max_window \<le> min_window then Inr (Inl InvalidArgumentError)
      else if sint max_flow_scaling < 0 then Inr (Inl InvalidArgumentError)
      else let d = rnd (rnd (1 / rnd (sqrt min_window)) - rnd (1 / rnd (sqrt max_window)))
           in if d = 0 then Inl UndefinedBehaviour else Inr (Inr (rnd (of_int (sint max_flow_scaling) / d))))"

definition CalculateFlowScalingBeta :: "(real \<Rightarrow> real) \<Rightarrow> real \<Rightarrow> real \<Rightarrow> status + real" where
  "CalculateFlowScalingBeta rnd flow_scaling_alpha max_window =
     (if flow_scaling_alpha < 0 then Inl InvalidArgumentError
      else if max_window \<le> 0 then Inl InvalidArgumentError
      else Inr (rnd (- flow_scaling_alpha / rnd (sqrt max_window))))"

definition ValidateNicCongestionWindowBounds :: "swift_configuration \<Rightarrow> status" where
  "ValidateNicCongestionWindowBounds c =
     (if sc_max_nic_congestion_window c < kMinFabricCongestionWindow \<or> sc_max_nic_congestion_window c > kMaxGen1NicCongestionWindow
      then InvalidArgumentError
      else if sc_min_nic_congestion_window c < kMinFabricCongestionWindow \<or> sc_min_nic_congestion_window c > kMaxGen1NicCongestionWindow
      then InvalidArgumentError else OkStatus)"

definition ValidateDelayStateConfig :: "swift_configuration \<Rightarrow> status" where
  "ValidateDelayStateConfig c =
     (if sc_randomize_path c \<and> sc_delay_smoothing_alpha c > 0 then InvalidArgumentError else OkStatus)"

definition valid_alpha :: "real option \<Rightarrow> bool" where
  "valid_alpha a = (case a of None \<Rightarrow> True | Some x \<Rightarrow> 1 / 2 ^ 12 \<le> x \<and> x \<le> 8)"

text \<open>
  The conditions of \<^verbatim>\<open>ConvertProfileToParameters\<close> before and after the flow scaling parameters are computed; each
  failing one makes it return the same error.
\<close>

definition valid_windows :: "swift_configuration \<Rightarrow> bool" where
  "valid_windows c \<longleftrightarrow>
     kMinFabricCongestionWindow \<le> sc_max_fabric_congestion_window c \<and>
     sc_max_fabric_congestion_window c \<le> kMaxFabricCongestionWindow \<and>
     kMinFabricCongestionWindow \<le> sc_min_fabric_congestion_window c \<and>
     sc_min_fabric_congestion_window c \<le> kMaxFabricCongestionWindow \<and>
     sc_min_fabric_congestion_window c \<le> sc_max_fabric_congestion_window c \<and>
     0 < sc_fabric_additive_increment_factor c \<and>
     0 < sc_fabric_multiplicative_decrease_factor c \<and> sc_fabric_multiplicative_decrease_factor c < 1 \<and>
     0 < sc_max_fabric_multiplicative_decrease c \<and> sc_max_fabric_multiplicative_decrease c < 1 \<and>
     ValidateNicCongestionWindowBounds c = OkStatus \<and>
     sc_min_nic_congestion_window c \<le> sc_max_nic_congestion_window c \<and>
     1 \<le> sc_nic_additive_increment_factor c \<and>
     0 < sc_nic_multiplicative_decrease_factor c \<and> sc_nic_multiplicative_decrease_factor c < 1 \<and>
     0 < sc_max_nic_multiplicative_decrease c \<and> sc_max_nic_multiplicative_decrease c < 1"

definition valid_timing :: "swift_configuration \<Rightarrow> bool" where
  "valid_timing c \<longleftrightarrow>
     sc_target_rx_buffer_level c \<le> 31 \<and>
     0 \<le> sc_rtt_smoothing_alpha c \<and> sc_rtt_smoothing_alpha c < 1 \<and>
     0 \<le> sc_delay_smoothing_alpha c \<and> sc_delay_smoothing_alpha c < 1 \<and>
     sc_topo_scaling_per_hop c \<noteq> 0 \<and> sc_topo_scaling_per_hop c \<le> ValidMask 12 \<and>
     sc_min_retransmit_timeout c \<noteq> 0 \<and> 1 \<le> sc_retransmit_timeout_scalar c \<and>
     sc_retransmit_limit c \<noteq> 0 \<and> sc_retransmit_limit c \<le> 255"

definition valid_rest :: "swift_configuration \<Rightarrow> bool" where
  "valid_rest c \<longleftrightarrow>
     0 < sc_ipg_time_scalar c \<and> sc_ipg_bits c \<noteq> 0 \<and> sc_ipg_bits c \<le> 20 \<and>
     \<not> (sc_randomize_path c \<and>
        (sc_max_fabric_congestion_window c > of_nat (unat kMaxPlbAckCount + 1) \<or>
         sc_max_nic_congestion_window c > of_nat (unat kMaxPlbAckCount + 1))) \<and>
     sc_plb_attempt_threshold c \<le> kMaxPlbAttemptCount \<and>
     ValidateDelayStateConfig c = OkStatus \<and>
     sc_fabric_base_delay c \<noteq> None \<and> sc_fabric_base_delay c \<noteq> Some 0 \<and>
     valid_alpha (sc_backpressure_alpha c) \<and> valid_alpha (sc_backpressure_retransmit_alpha c)"

definition parameters_of :: "swift_configuration \<Rightarrow> real \<Rightarrow> real \<Rightarrow> swift_parameters" where
  "parameters_of c alpha beta =
     \<lparr>sp_max_decrease_on_eack_nack_drop = sc_max_decrease_on_eack_nack_drop c, sp_calc_rtt_smooth = sc_calc_rtt_smooth c,
      sp_randomize_path = sc_randomize_path c, sp_plb_attempt_threshold = ucast (sc_plb_attempt_threshold c),
      sp_retransmit_limit = ucast (sc_retransmit_limit c), sp_target_rx_buffer_level = ucast (sc_target_rx_buffer_level c),
      sp_ipg_bits = ucast (sc_ipg_bits c),
      sp_max_fabric_congestion_window = sc_max_fabric_congestion_window c,
      sp_min_fabric_congestion_window = sc_min_fabric_congestion_window c,
      sp_fabric_additive_increment_factor = sc_fabric_additive_increment_factor c,
      sp_fabric_multiplicative_decrease_factor = sc_fabric_multiplicative_decrease_factor c,
      sp_max_fabric_multiplicative_decrease = sc_max_fabric_multiplicative_decrease c,
      sp_max_nic_congestion_window = sc_max_nic_congestion_window c,
      sp_min_nic_congestion_window = sc_min_nic_congestion_window c,
      sp_nic_additive_increment_factor = sc_nic_additive_increment_factor c,
      sp_nic_multiplicative_decrease_factor = sc_nic_multiplicative_decrease_factor c,
      sp_max_nic_multiplicative_decrease = sc_max_nic_multiplicative_decrease c,
      sp_rtt_smoothing_alpha = sc_rtt_smoothing_alpha c, sp_delay_smoothing_alpha = sc_delay_smoothing_alpha c,
      sp_retransmit_timeout_scalar = sc_retransmit_timeout_scalar c,
      sp_flow_scaling_alpha = alpha, sp_flow_scaling_beta = beta, sp_ipg_time_scalar = sc_ipg_time_scalar c,
      sp_plb_target_rtt_multiplier = sc_plb_target_rtt_multiplier c,
      sp_plb_congestion_threshold = sc_plb_congestion_threshold c,
      sp_min_retransmit_timeout = sc_min_retransmit_timeout c, sp_max_flow_scaling = sc_max_flow_scaling c,
      sp_fabric_base_delay = (case sc_fabric_base_delay c of Some d \<Rightarrow> d | None \<Rightarrow> 0),
      sp_topo_scaling_per_hop = ucast (sc_topo_scaling_per_hop c)\<rparr>"

definition ConvertProfileToParameters :: "(real \<Rightarrow> real) \<Rightarrow> swift_configuration \<Rightarrow> (status + swift_parameters) res" where
  "ConvertProfileToParameters rnd c =
     (if \<not> valid_windows c \<or> \<not> valid_timing c then Inr (Inl InvalidArgumentError)
      else res_bind (CalculateFlowScalingAlpha rnd (sc_max_flow_scaling c) (sc_min_flow_scaling_window c)
                       (sc_max_flow_scaling_window c)) (\<lambda>a.
        case a of
          Inl st \<Rightarrow> Inr (Inl st)
        | Inr alpha \<Rightarrow>
            (case CalculateFlowScalingBeta rnd alpha (sc_max_fabric_congestion_window c) of
               Inl st \<Rightarrow> Inr (Inl st)
             | Inr beta \<Rightarrow> Inr (if valid_rest c then Inr (parameters_of c alpha beta) else Inl InvalidArgumentError))))"

section \<open>Profiles\<close>

text \<open>The eight profiles; a profile that is not valid is \<open>None\<close>.\<close>

type_synonym swift_profiles = "swift_parameters option list"

definition kSwiftMaxNumProfiles :: nat where
  "kSwiftMaxNumProfiles = 8"

definition Swift_new :: "swift_parameters \<Rightarrow> swift_profiles" where
  "Swift_new p = Some p # replicate (kSwiftMaxNumProfiles - 1) None"

definition MakeBaseDelayField :: "u8 \<Rightarrow> u32 \<Rightarrow> u32" where
  "MakeBaseDelayField profile_index state_table_index = push_bit 21 (ucast profile_index) OR state_table_index"

definition GetProfileIndex :: "u32 \<Rightarrow> int" where
  "GetProfileIndex base_delay = sint (drop_bit 21 base_delay)"

definition GetStateTableIndex :: "u32 \<Rightarrow> u32" where
  "GetStateTableIndex base_delay = base_delay AND 0x001FFFFF"

definition InstallAlgorithmProfile ::
  "(real \<Rightarrow> real) \<Rightarrow> int \<Rightarrow> swift_configuration option \<Rightarrow> swift_profiles \<Rightarrow> (status \<times> swift_profiles) res" where
  "InstallAlgorithmProfile rnd profile_index profile ps =
     (if profile_index < 0 \<or> int (length ps) \<le> profile_index then Inr (InvalidArgumentError, ps)
      else if ps ! nat profile_index \<noteq> None then Inr (AlreadyExistsError, ps)
      else case profile of
             None \<Rightarrow> Inr (InvalidArgumentError, ps)
           | Some c \<Rightarrow> res_bind (ConvertProfileToParameters rnd c) (\<lambda>r.
               case r of Inl st \<Rightarrow> Inr (st, ps) | Inr p \<Rightarrow> Inr (OkStatus, ps[nat profile_index := Some p])))"

definition UninstallAlgorithmProfile :: "int \<Rightarrow> swift_profiles \<Rightarrow> status \<times> swift_profiles" where
  "UninstallAlgorithmProfile profile_index ps =
     (if profile_index < 0 \<or> int (length ps) \<le> profile_index then (InvalidArgumentError, ps)
      else if profile_index = 0 then (InvalidArgumentError, ps)
      else if ps ! nat profile_index = None then (NotFoundError, ps)
      else (OkStatus, ps[nat profile_index := None]))"

definition PickProfile :: "event \<Rightarrow> swift_profiles \<Rightarrow> swift_parameters res" where
  "PickProfile e ps =
     (let i = GetProfileIndex (ucast (re_base_delay e));
          j = (if i < 0 \<or> int (length ps) \<le> i \<or> ps ! nat i = None then 0 else nat i)
      in case ps ! j of Some p \<Rightarrow> Inr p | None \<Rightarrow> Inl CheckFailed)"

section \<open>Windows\<close>

text \<open>The state kept for a connection: the counters of PLB and the fraction of the NIC window.\<close>

record plb_state =
  plb_packets_congestion_acknowledged :: "10 word"
  plb_packets_acknowledged :: "10 word"
  plb_reroute_attempted :: "4 word"

record swift_state =
  ss_plb_state :: plb_state
  ss_ncwnd_fraction :: u16

definition swift_state_default :: swift_state where
  "swift_state_default =
     \<lparr>ss_plb_state = \<lparr>plb_packets_congestion_acknowledged = 0, plb_packets_acknowledged = 0, plb_reroute_attempted = 0\<rparr>,
      ss_ncwnd_fraction = 0\<rparr>"

definition GetSmoothed :: "(real \<Rightarrow> real) \<Rightarrow> real \<Rightarrow> u32 \<Rightarrow> u32 \<Rightarrow> u32 res" where
  "GetSmoothed rnd alpha smoothed_value value =
     to_unsigned (rnd (rnd (real (unat smoothed_value) * alpha) + rnd (real (unat value) * rnd (1 - alpha))))"

definition GetTargetDelay ::
  "(real \<Rightarrow> real) \<Rightarrow> u16 \<Rightarrow> real \<Rightarrow> real \<Rightarrow> u32 \<Rightarrow> u32 \<Rightarrow> real \<Rightarrow> 4 word \<Rightarrow> u32 res" where
  "GetTargetDelay rnd topo_scaling_per_hop flow_scaling_alpha flow_scaling_beta max_flow_scaling base_delay
     congestion_window hops =
     (if congestion_window = 0 then Inl UndefinedBehaviour
      else res_bind (to_unsigned (rnd (rnd (flow_scaling_alpha / rnd (sqrt congestion_window)) + flow_scaling_beta)))
        (\<lambda>flow_scaling.
           Inr (SaturateHigh kTimeBits (base_delay + std_clamp flow_scaling 0 max_flow_scaling +
             ucast topo_scaling_per_hop * ucast hops))))"

definition GetInterPacketGap :: "(real \<Rightarrow> real) \<Rightarrow> real \<Rightarrow> u8 \<Rightarrow> real \<Rightarrow> u32 \<Rightarrow> u32 res" where
  "GetInterPacketGap rnd ipg_time_scalar ipg_bits congestion_window rtt =
     check (0 < congestion_window)
       (if 1 \<le> congestion_window then Inr 0
        else let ipg_fp = rnd (rnd (rnd (real (unat rtt) / congestion_window) - real (unat rtt)) * ipg_time_scalar)
             in res_bind (to_unsigned (std_round ipg_fp) :: u64 res) (\<lambda>ipg. Inr (ucast (SaturateHigh (unat ipg_bits) ipg))))"

definition GetRetransmitTimeout :: "(real \<Rightarrow> real) \<Rightarrow> u32 \<Rightarrow> u32 \<Rightarrow> real \<Rightarrow> u32 \<Rightarrow> real \<Rightarrow> u32 res" where
  "GetRetransmitTimeout rnd min_retransmit_timeout rtt rtt_scalar inter_packet_gap ipg_time_scalar =
     res_bind (to_unsigned (rnd (real (unat rtt) * rtt_scalar)) :: u32 res) (\<lambda>rto.
     res_bind (to_unsigned (rnd (real (unat rto) + rnd (real (unat inter_packet_gap) / ipg_time_scalar)))) (\<lambda>rto'.
       Inr (max (SaturateHigh kTimeBits rto') min_retransmit_timeout)))"

text \<open>
  The amount of a multiplicative decrease, scaled by the excess over the target. The quotient of two zeros is not a
  number, and \<^verbatim>\<open>std::min\<close> returns its first argument then.
\<close>

definition scaled_decrease :: "(real \<Rightarrow> real) \<Rightarrow> real \<Rightarrow> real \<Rightarrow> u32 \<Rightarrow> u32 \<Rightarrow> real" where
  "scaled_decrease rnd max_decrease factor excess level =
     (if level = 0 then max_decrease
      else min max_decrease (rnd (rnd (real (unat excess) / real (unat level)) * factor)))"

definition clamp_fabric :: "swift_parameters \<Rightarrow> real \<Rightarrow> real" where
  "clamp_fabric p w = std_clamp w (sp_min_fabric_congestion_window p) (sp_max_fabric_congestion_window p)"

definition clamp_nic :: "swift_parameters \<Rightarrow> real \<Rightarrow> real" where
  "clamp_nic p w = std_clamp w (sp_min_nic_congestion_window p) (sp_max_nic_congestion_window p)"

definition ComputeAckFabricCongestionWindow ::
  "(real \<Rightarrow> real) \<Rightarrow> swift_parameters \<Rightarrow> event \<Rightarrow> real \<Rightarrow> u32 \<Rightarrow> u32 \<Rightarrow> packet_timing \<Rightarrow> u32 \<Rightarrow> real" where
  "ComputeAckFabricCongestionWindow rnd p e w smoothed_delay target_delay timing fabric_decrease_delta =
     clamp_fabric p
       (if smoothed_delay < target_delay
        then let increase = rnd (sp_fabric_additive_increment_factor p * real (unat (re_num_packets_acked e)))
             in rnd (w + (if 1 \<le> w then rnd (increase / w) else increase))
        else if pt_rtt timing \<le> fabric_decrease_delta
        then rnd (w * rnd (1 - scaled_decrease rnd (sp_max_fabric_multiplicative_decrease p)
               (sp_fabric_multiplicative_decrease_factor p) (smoothed_delay - target_delay) smoothed_delay))
        else w)"

definition ComputeNackFabricCongestionWindow ::
  "(real \<Rightarrow> real) \<Rightarrow> swift_parameters \<Rightarrow> real \<Rightarrow> packet_timing \<Rightarrow> u32 \<Rightarrow> real" where
  "ComputeNackFabricCongestionWindow rnd p w timing fabric_decrease_delta =
     clamp_fabric p
       (if pt_rtt timing \<le> fabric_decrease_delta then rnd (w * rnd (1 - sp_max_fabric_multiplicative_decrease p)) else w)"

definition ComputeTimeoutFabricCongestionWindow ::
  "(real \<Rightarrow> real) \<Rightarrow> swift_parameters \<Rightarrow> event \<Rightarrow> real \<Rightarrow> u32 \<Rightarrow> real" where
  "ComputeTimeoutFabricCongestionWindow rnd p e w fabric_decrease_delta =
     clamp_fabric p
       (if ucast (re_rtt_state e) \<le> fabric_decrease_delta
        then if re_retransmit_count e = 1 then rnd (w * rnd (1 - sp_max_fabric_multiplicative_decrease p))
             else if unat (sp_retransmit_limit p) \<le> unat (re_retransmit_count e) then sp_min_fabric_congestion_window p
             else w
        else w)"

definition ComputeAckNicCongestionWindow ::
  "(real \<Rightarrow> real) \<Rightarrow> swift_parameters \<Rightarrow> event \<Rightarrow> real \<Rightarrow> u32 \<Rightarrow> packet_timing \<Rightarrow> real" where
  "ComputeAckNicCongestionWindow rnd p e w nic_change_delta timing =
     (let level = ucast (re_rx_buffer_level e); target = ucast (sp_target_rx_buffer_level p) in
      clamp_nic p
        (if level < target
         then if re_nic_window_direction e = kDecrease \<or> pt_rtt timing \<le> nic_change_delta
              then rnd (w + sp_nic_additive_increment_factor p) else w
         else if pt_rtt timing \<le> nic_change_delta
         then rnd (w * rnd (1 - scaled_decrease rnd (sp_max_nic_multiplicative_decrease p)
                (sp_nic_multiplicative_decrease_factor p) (level - target) level))
         else w))"

definition ComputeNackNicCongestionWindow ::
  "(real \<Rightarrow> real) \<Rightarrow> swift_parameters \<Rightarrow> event \<Rightarrow> real \<Rightarrow> u32 \<Rightarrow> packet_timing \<Rightarrow> real" where
  "ComputeNackNicCongestionWindow rnd p e w nic_change_delta timing =
     clamp_nic p
       (if re_nic_window_direction e = kIncrease \<or> pt_rtt timing \<le> nic_change_delta
        then rnd (w * rnd (1 - sp_max_nic_multiplicative_decrease p)) else w)"

section \<open>Paths\<close>

definition plb_round ::
  "(real \<Rightarrow> real) \<Rightarrow> swift_parameters \<Rightarrow> u32 \<Rightarrow> u32 \<Rightarrow> plb_state \<Rightarrow> bool \<times> plb_state" where
  "plb_round rnd p congestion_acknowledged acknowledged s =
     (let done = s\<lparr>plb_packets_congestion_acknowledged := 0, plb_packets_acknowledged := 0\<rparr> in
      if acknowledged \<noteq> 0 \<and> rnd (real (unat congestion_acknowledged) / real (unat acknowledged)) < sp_plb_congestion_threshold p
      then (False, done\<lparr>plb_reroute_attempted := 0\<rparr>)
      else if unat (sp_plb_attempt_threshold p) \<le> unat (plb_reroute_attempted s + 1)
      then (True, done\<lparr>plb_reroute_attempted := 0\<rparr>)
      else (False, done\<lparr>plb_reroute_attempted := plb_reroute_attempted s + 1\<rparr>))"

definition ComputePlb ::
  "(real \<Rightarrow> real) \<Rightarrow> swift_parameters \<Rightarrow> event \<Rightarrow> u32 \<Rightarrow> u32 \<Rightarrow> plb_state \<Rightarrow> real \<Rightarrow> bool \<times> plb_state" where
  "ComputePlb rnd p e smoothed_delay target_delay s old_window_size =
     (if re_nack_code e \<noteq> kNotANack then (False, s)
      else if \<not> sp_randomize_path p then (False, s)
      else let acked = ucast (re_num_packets_acked e);
               acknowledged = ucast (plb_packets_acknowledged s) + acked;
               congested = rnd (real (unat target_delay) * sp_plb_target_rtt_multiplier p) < real (unat smoothed_delay);
               congestion_acknowledged = ucast (plb_packets_congestion_acknowledged s) + (if congested then acked else 0)
           in if old_window_size \<le> real (unat acknowledged)
              then plb_round rnd p congestion_acknowledged acknowledged s
              else (False, s\<lparr>plb_packets_congestion_acknowledged := ucast congestion_acknowledged,
                             plb_packets_acknowledged := ucast acknowledged\<rparr>))"

definition ComputeRandomizePath :: "swift_parameters \<Rightarrow> event \<Rightarrow> bool" where
  "ComputeRandomizePath p e \<longleftrightarrow> sp_randomize_path p \<and> re_cc_opaque e AND 1 \<noteq> 0"

section \<open>Events\<close>

definition UseMaxFabricDecrease :: "swift_parameters \<Rightarrow> event \<Rightarrow> bool" where
  "UseMaxFabricDecrease p e \<longleftrightarrow> sp_max_decrease_on_eack_nack_drop p \<and>
     (re_event_type e = kRueNack \<and> re_nack_code e = kReserved \<or> re_event_type e = kRueAck \<and> re_eack e \<and> re_eack_drop e)"

definition GetFloatNcwnd :: "(real \<Rightarrow> real) \<Rightarrow> event \<Rightarrow> swift_state \<Rightarrow> real" where
  "GetFloatNcwnd rnd e st = rnd (real (unat (re_nic_congestion_window e)) + FixedToFloat (ss_ncwnd_fraction st) 10)"

definition StoreFloatNcwndFraction :: "(real \<Rightarrow> real) \<Rightarrow> real \<Rightarrow> swift_state \<Rightarrow> swift_state res" where
  "StoreFloatNcwndFraction rnd w st =
     res_bind (FloatToFixed (rnd (w - of_int \<lfloor>w\<rfloor>)) 10) (\<lambda>f. Inr (st\<lparr>ss_ncwnd_fraction := f\<rparr>))"

definition GetNipg :: "(real \<Rightarrow> real) \<Rightarrow> swift_parameters \<Rightarrow> event \<Rightarrow> swift_state \<Rightarrow> u32 res" where
  "GetNipg rnd p e st =
     GetInterPacketGap rnd (sp_ipg_time_scalar p) (sp_ipg_bits p) (clamp_nic p (GetFloatNcwnd rnd e st)) (ucast (re_rtt_state e))"

definition fabric_window :: "event \<Rightarrow> real" where
  "fabric_window e = FixedToFloat (re_fabric_congestion_window e) 10"

text \<open>The new fabric window on an acknowledgement or a NACK (module 1).\<close>

definition new_fabric_window ::
  "(real \<Rightarrow> real) \<Rightarrow> swift_parameters \<Rightarrow> event \<Rightarrow> u32 \<Rightarrow> u32 \<Rightarrow> u32 \<Rightarrow> real" where
  "new_fabric_window rnd p e now smoothed_delay target_delay =
     (let delta = GetWindowDelta now (re_fabric_window_time_marker e); timing = GetPacketTiming e in
      if UseMaxFabricDecrease p e then ComputeNackFabricCongestionWindow rnd p (fabric_window e) timing delta
      else ComputeAckFabricCongestionWindow rnd p e (fabric_window e) smoothed_delay target_delay timing delta)"

definition new_nic_window :: "(real \<Rightarrow> real) \<Rightarrow> swift_parameters \<Rightarrow> event \<Rightarrow> u32 \<Rightarrow> swift_state \<Rightarrow> real" where
  "new_nic_window rnd p e now st =
     (let delta = GetWindowDelta now (re_nic_window_time_marker e); timing = GetPacketTiming e in
      if re_event_type e = kRueNack \<and> re_nack_code e = kRxResourceExhaustion
      then ComputeNackNicCongestionWindow rnd p e (GetFloatNcwnd rnd e st) delta timing
      else ComputeAckNicCongestionWindow rnd p e (GetFloatNcwnd rnd e st) delta timing)"

definition ProcessAckNack ::
  "(real \<Rightarrow> real) \<Rightarrow> swift_parameters \<Rightarrow> event \<Rightarrow> u32 \<Rightarrow> swift_state \<Rightarrow> (response \<times> swift_state) res" where
  "ProcessAckNack rnd p e now st =
     (let timing = GetPacketTiming e; old_nic = GetFloatNcwnd rnd e st in
      res_bind (GetTargetDelay rnd (sp_topo_scaling_per_hop p) (sp_flow_scaling_alpha p) (sp_flow_scaling_beta p)
        (sp_max_flow_scaling p) (sp_fabric_base_delay p) (fabric_window e) (re_forward_hops e)) (\<lambda>target_delay.
      res_bind (GetSmoothed rnd (sp_rtt_smoothing_alpha p) (ucast (re_rtt_state e)) (pt_rtt timing)) (\<lambda>smoothed_rtt.
      res_bind (GetSmoothed rnd (sp_delay_smoothing_alpha p) (ucast (re_delay_state e)) (pt_delay timing)) (\<lambda>smoothed_delay.
      let calc_rtt = (if sp_calc_rtt_smooth p then smoothed_rtt else pt_rtt timing);
          new_fabric = new_fabric_window rnd p e now smoothed_delay target_delay;
          fabric_marker = GetFabricWindowTimeMarker now (re_fabric_window_time_marker e) calc_rtt (fabric_window e)
            new_fabric (sp_min_fabric_congestion_window p) in
      res_bind (FloatToFixed new_fabric 10) (\<lambda>fabric_fixed.
      res_bind (GetInterPacketGap rnd (sp_ipg_time_scalar p) (sp_ipg_bits p) new_fabric calc_rtt) (\<lambda>fabric_ipg.
      let new_nic = new_nic_window rnd p e now st in
      res_bind (to_unsigned (of_int \<lfloor>new_nic\<rfloor>)) (\<lambda>nic_fixed.
      res_bind (StoreFloatNcwndFraction rnd new_nic st) (\<lambda>st1.
      let guard = GetNicWindowGuardInfo now (re_nic_window_time_marker e) calc_rtt (re_nic_window_direction e) old_nic
            new_nic (sp_min_nic_congestion_window p) (sp_max_nic_congestion_window p) in
      res_bind (GetInterPacketGap rnd (sp_ipg_time_scalar p) (sp_ipg_bits p) new_nic calc_rtt) (\<lambda>nic_ipg.
      res_bind (GetRetransmitTimeout rnd (sp_min_retransmit_timeout p) smoothed_rtt (sp_retransmit_timeout_scalar p)
        (max fabric_ipg nic_ipg) (sp_ipg_time_scalar p)) (\<lambda>rto.
      let (reroute, plb) = ComputePlb rnd p e smoothed_delay target_delay (ss_plb_state st1) (min (fabric_window e) old_nic) in
      Inr (SetResponse (re_connection_id e) (reroute \<or> ComputeRandomizePath p e) (re_cc_metadata e) fabric_fixed
             (max fabric_ipg nic_ipg) nic_fixed rto fabric_marker (ng_time_marker guard) (ng_direction guard)
             (re_event_queue_select e) (re_delay_select e) (re_base_delay e) smoothed_delay smoothed_rtt (re_cc_opaque e),
           st1\<lparr>ss_plb_state := plb\<rparr>)))))))))))"

definition ProcessRetransmit ::
  "(real \<Rightarrow> real) \<Rightarrow> swift_parameters \<Rightarrow> event \<Rightarrow> u32 \<Rightarrow> swift_state \<Rightarrow> (response \<times> swift_state) res" where
  "ProcessRetransmit rnd p e now st =
     (let delta = GetWindowDelta now (re_fabric_window_time_marker e); rtt = ucast (re_rtt_state e);
          w = ComputeTimeoutFabricCongestionWindow rnd p e (fabric_window e) delta in
      res_bind (GetNipg rnd p e st) (\<lambda>nic_ipg.
      res_bind (GetInterPacketGap rnd (sp_ipg_time_scalar p) (sp_ipg_bits p) w rtt) (\<lambda>fabric_ipg.
      res_bind (GetRetransmitTimeout rnd (sp_min_retransmit_timeout p) rtt (sp_retransmit_timeout_scalar p)
        (max fabric_ipg nic_ipg) (sp_ipg_time_scalar p)) (\<lambda>rto.
      let marker = GetFabricWindowTimeMarker now (re_fabric_window_time_marker e) rtt (fabric_window e) w
            (sp_min_fabric_congestion_window p) in
      res_bind (FloatToFixed w 10) (\<lambda>fixed.
      Inr (SetResponse (re_connection_id e) (ComputeRandomizePath p e) (re_cc_metadata e) fixed (max fabric_ipg nic_ipg)
             (ucast (re_nic_congestion_window e)) rto marker (ucast (re_nic_window_time_marker e))
             (re_nic_window_direction e) (re_event_queue_select e) (re_delay_select e) (re_base_delay e)
             (ucast (re_delay_state e)) (ucast (re_rtt_state e)) (re_cc_opaque e), st))))))"

definition process_event ::
  "(real \<Rightarrow> real) \<Rightarrow> swift_parameters \<Rightarrow> event \<Rightarrow> u32 \<Rightarrow> swift_state \<Rightarrow> (response \<times> swift_state) res" where
  "process_event rnd p e now st =
     (if re_event_type e = kRueRetransmit then ProcessRetransmit rnd p e now st else ProcessAckNack rnd p e now st)"

definition Swift_Process ::
  "(real \<Rightarrow> real) \<Rightarrow> swift_profiles \<Rightarrow> event \<Rightarrow> u32 \<Rightarrow> swift_state \<Rightarrow> (response \<times> swift_state) res" where
  "Swift_Process rnd ps e now st = res_bind (PickProfile e ps) (\<lambda>p. process_event rnd p e now st)"

text \<open>
  \<^verbatim>\<open>StatefulAlgorithm::Process\<close> over a \<^verbatim>\<open>HashMapDramStateManagerWithOnDemandInit\<close>: the state of the event's
  connection, with the default for a new one. No connection of the first generation is multipath.
\<close>

definition StatefulAlgorithm_Process ::
  "(real \<Rightarrow> real) \<Rightarrow> swift_profiles \<Rightarrow> event \<Rightarrow> u32 \<Rightarrow> (24 word \<rightharpoonup> swift_state) \<Rightarrow> (response \<times> (24 word \<rightharpoonup> swift_state)) res" where
  "StatefulAlgorithm_Process rnd ps e now states =
     (let st = (case states (re_connection_id e) of Some x \<Rightarrow> x | None \<Rightarrow> swift_state_default) in
      res_bind (Swift_Process rnd ps e now st) (\<lambda>(r, st'). Inr (r, states(re_connection_id e \<mapsto> st'))))"

end
