(* ===== verification/Swift_Windows.thy ===== *)
theory Swift_Windows
  imports Swift_Algorithm
begin

text \<open>
  What Swift guarantees: with a configuration it accepts, every event gets a response (no check fails and no
  conversion is undefined), the windows, the inter-packet gap and the retransmission timeout are in their bounds, and the
  fabric window shrinks at most once per round trip. The lemmas hold for every rounding (locale \<open>rounding\<close>).
\<close>

declare of_nat_unat [simp del]

section \<open>Accepted configurations\<close>

definition params_ok :: "(real \<Rightarrow> real) \<Rightarrow> swift_parameters \<Rightarrow> bool" where
  "params_ok rnd p \<longleftrightarrow>
     1 / 1024 \<le> sp_min_fabric_congestion_window p \<and> sp_min_fabric_congestion_window p \<le> sp_max_fabric_congestion_window p \<and>
     sp_max_fabric_congestion_window p \<le> (2 ^ 21 - 1) / 1024 \<and> 0 < sp_fabric_additive_increment_factor p \<and>
     1 / 1024 \<le> sp_min_nic_congestion_window p \<and> sp_min_nic_congestion_window p \<le> sp_max_nic_congestion_window p \<and>
     sp_max_nic_congestion_window p \<le> 2047 \<and>
     0 \<le> sp_rtt_smoothing_alpha p \<and> sp_rtt_smoothing_alpha p < 1 \<and>
     0 \<le> sp_delay_smoothing_alpha p \<and> sp_delay_smoothing_alpha p < 1 \<and>
     1 \<le> sp_retransmit_timeout_scalar p \<and> unat (sp_ipg_bits p) \<le> 20 \<and>
     0 \<le> sp_flow_scaling_alpha p \<and>
     sp_flow_scaling_beta p = rnd (- sp_flow_scaling_alpha p / rnd (sqrt (sp_max_fabric_congestion_window p)))"

text \<open>
  Bounds the validation does not check: the conversions to 32-bit integers need them, and the windows are handed back in
  steps of \<open>1 / 1024\<close>.
\<close>

definition moderate :: "swift_parameters \<Rightarrow> bool" where
  "moderate p \<longleftrightarrow> sp_flow_scaling_alpha p \<le> 2 ^ 26 \<and> sp_retransmit_timeout_scalar p \<le> 64 \<and>
     1 / 1024 \<le> sp_ipg_time_scalar p \<and> sp_ipg_time_scalar p \<le> 1024 \<and>
     sp_max_fabric_congestion_window p * 1024 \<in> \<int> \<and> unat (sp_min_retransmit_timeout p) < 2 ^ 24"

lemma window_constants:
  "kMaxFabricCongestionWindow = (2 ^ 21 - 1) / 1024" "kMinFabricCongestionWindow = 1 / 1024"
  "kMaxGen1NicCongestionWindow = 2047"
  by (simp_all add: kMaxFabricCongestionWindow_def kMinFabricCongestionWindow_def kMaxGen1NicCongestionWindow_def
      FixedToFloat_def ValidMask_def)

lemma Convert_shape:
  assumes "ConvertProfileToParameters rnd c = Inr (Inr p)"
  obtains alpha where "valid_windows c" "valid_timing c" "valid_rest c" "0 \<le> alpha"
    "p = parameters_of c alpha (rnd (- alpha / rnd (sqrt (sc_max_fabric_congestion_window c))))"
proof -
  from assms obtain a where v: "valid_windows c" "valid_timing c"
    and a: "(case a of Inl st \<Rightarrow> Inr (Inl st) | Inr alpha \<Rightarrow>
      (case CalculateFlowScalingBeta rnd alpha (sc_max_fabric_congestion_window c) of Inl st \<Rightarrow> Inr (Inl st)
       | Inr beta \<Rightarrow> Inr (if valid_rest c then Inr (parameters_of c alpha beta) else Inl InvalidArgumentError))) = (Inr (Inr p) :: (status + swift_parameters) res)"
    by (auto simp: ConvertProfileToParameters_def res_bind_eq_Inr split: if_split_asm)
  then obtain alpha where "a = Inr alpha" by (cases a) auto
  with a have "valid_rest c" "0 \<le> alpha"
    "p = parameters_of c alpha (rnd (- alpha / rnd (sqrt (sc_max_fabric_congestion_window c))))"
    by (auto simp: CalculateFlowScalingBeta_def split: if_split_asm)
  with v that show thesis by blast
qed

lemma ipg_bits_kept: "valid_rest c \<Longrightarrow> unat (ucast (sc_ipg_bits c) :: u8) = unat (sc_ipg_bits c) \<and> unat (sc_ipg_bits c) \<le> 20"
proof -
  assume "valid_rest c"
  then have "unat (sc_ipg_bits c) \<le> 20" by (simp add: valid_rest_def word_le_nat_alt)
  then show ?thesis by (simp add: unsigned_ucast_eq take_bit_eq_mod)
qed

lemma Convert_params:
  assumes "ConvertProfileToParameters rnd c = Inr (Inr p)"
  shows "params_ok rnd p"
  using assms
  by (rule Convert_shape)
     (simp add: params_ok_def parameters_of_def valid_windows_def valid_timing_def window_constants ipg_bits_kept
        ValidateNicCongestionWindowBounds_def split: if_splits)

lemma Convert_fields:
  assumes "ConvertProfileToParameters rnd c = Inr (Inr p)"
  shows "sp_min_fabric_congestion_window p = sc_min_fabric_congestion_window c"
    "sp_min_retransmit_timeout p = sc_min_retransmit_timeout c" "unat (sp_ipg_bits p) = unat (sc_ipg_bits c)"
  using assms by (auto elim!: Convert_shape simp: parameters_of_def ipg_bits_kept)

section \<open>Fixed point\<close>

lemma std_round_mono: "0 \<le> x \<Longrightarrow> x \<le> y \<Longrightarrow> std_round x \<le> std_round y"
  by (simp add: std_round_def floor_mono)

lemma std_round_ge: "real k \<le> x \<Longrightarrow> real k \<le> std_round x"
proof -
  assume k: "real k \<le> x"
  then have "int k \<le> \<lfloor>x + 1 / 2\<rfloor>" by (simp add: le_floor_iff)
  then show ?thesis using k by (simp add: std_round_def)
qed

lemma std_round_le: "0 \<le> x \<Longrightarrow> x \<le> real k \<Longrightarrow> std_round x \<le> real k"
proof -
  assume "0 \<le> x" "x \<le> real k"
  then have "\<lfloor>x + 1 / 2\<rfloor> \<le> int k" by (simp add: floor_le_iff)
  then show ?thesis using \<open>0 \<le> x\<close> by (simp add: std_round_def)
qed

text \<open>A window in range, converted and cut to 21 bits: it keeps its order with respect to the windows of the format.\<close>

lemma fabric_fixed:
  assumes "1 / 1024 \<le> x" "x \<le> (2 ^ 21 - 1) / 1024"
  obtains f :: u32 where "FloatToFixed x 10 = Inr f" "real (unat (ucast f :: 21 word)) = std_round (x * 1024)"
    "(ucast f :: 21 word) \<noteq> 0"
proof -
  have "0 \<le> x" "x * 2 ^ 10 + 1 < (2 :: real) ^ LENGTH(32)" using assms by simp_all
  then obtain f :: u32 where f: "FloatToFixed x 10 = Inr f" "real (unat f) = std_round (x * 2 ^ 10)"
    by (rule FloatToFixed_total)
  have "x * 1024 \<le> real (2 ^ 21 - 1)" using assms(2) by simp
  then have "real (unat f) \<le> real (2 ^ 21 - 1)" using std_round_le [of "x * 1024" "2 ^ 21 - 1"] assms(1) f(2) by simp
  then have "unat f \<le> 2 ^ 21 - 1" by (simp only: of_nat_le_iff)
  then have "unat f < 2 ^ 21" by simp
  then have u: "unat (ucast f :: 21 word) = unat f" by (simp add: unsigned_ucast_eq take_bit_nat_eq_self)
  have "1 \<le> std_round (x * 1024)" using std_round_ge [of 1 "x * 1024"] assms(1) by simp
  then have "unat f \<noteq> 0" using f(2) by simp
  then have "(ucast f :: 21 word) \<noteq> 0" using u by (metis unsigned_0)
  with f u that show thesis by simp
qed

lemma fabric_window_bounds: "0 \<le> fabric_window e" "fabric_window e < 2048"
  "re_fabric_congestion_window e \<noteq> 0 \<Longrightarrow> 1 / 1024 \<le> fabric_window e"
proof -
  have "unat (re_fabric_congestion_window e) < 2 ^ 21" using unsigned_less [of "re_fabric_congestion_window e"] by simp
  then have "real (unat (re_fabric_congestion_window e)) < 2 ^ 21" by (metis of_nat_less_iff of_nat_numeral of_nat_power)
  then show "fabric_window e < 2048" by (simp add: fabric_window_def FixedToFloat_def)
  show "0 \<le> fabric_window e" unfolding fabric_window_def FixedToFloat_def by (rule divide_nonneg_pos [OF of_nat_0_le_iff]) simp
  assume "re_fabric_congestion_window e \<noteq> 0"
  then have "1 \<le> unat (re_fabric_congestion_window e)" by (simp add: unat_gt_0 Suc_leI)
  then have "1 \<le> real (unat (re_fabric_congestion_window e))" by linarith
  then show "1 / 1024 \<le> fabric_window e" by (simp add: fabric_window_def FixedToFloat_def)
qed

lemma clamp_fabric_bounds:
  "params_ok rnd p \<Longrightarrow> 1 / 1024 \<le> clamp_fabric p w" "params_ok rnd p \<Longrightarrow> clamp_fabric p w \<le> sp_max_fabric_congestion_window p"
  using std_clamp_bounds [of "sp_min_fabric_congestion_window p" "sp_max_fabric_congestion_window p" w]
  by (auto simp: params_ok_def clamp_fabric_def)

lemma clamp_fabric_ge: "w \<le> v \<Longrightarrow> w \<le> sp_max_fabric_congestion_window p \<Longrightarrow> w \<le> clamp_fabric p v"
  by (auto simp: clamp_fabric_def std_clamp_def)

lemma clamp_nic_bounds:
  "params_ok rnd p \<Longrightarrow> 1 / 1024 \<le> clamp_nic p w" "params_ok rnd p \<Longrightarrow> clamp_nic p w \<le> 2047"
  using std_clamp_bounds [of "sp_min_nic_congestion_window p" "sp_max_nic_congestion_window p" w]
  by (auto simp: params_ok_def clamp_nic_def)

section \<open>Every conversion is defined\<close>

context rounding
begin

lemma exact_fabric_window [simp]: "rnd (fabric_window e) = fabric_window e"
proof -
  have "unat (re_fabric_congestion_window e) < 2 ^ 21" using unsigned_less [of "re_fabric_congestion_window e"] by simp
  then have "\<bar>int (unat (re_fabric_congestion_window e))\<bar> \<le> 2 ^ 53" unfolding abs_of_nat by (simp add: zle_int [symmetric, of _ "2 ^ 53", simplified] del: of_nat_numeral)
  from exact [OF this, of 10] show ?thesis by (simp add: fabric_window_def FixedToFloat_def)
qed

lemma le_real: "x \<le> real k \<Longrightarrow> k \<le> 2 ^ 53 \<Longrightarrow> rnd x \<le> real k"
  using le_int [of x "int k"] by simp

lemma ge_real: "real k \<le> x \<Longrightarrow> k \<le> 2 ^ 53 \<Longrightarrow> real k \<le> rnd x"
  using ge_int [of "int k" x] by simp

lemma rnd_unit: "0 \<le> x \<Longrightarrow> x \<le> 1 \<Longrightarrow> 0 \<le> rnd x \<and> rnd x \<le> 1"
  using mono [of 0 x] mono [of x 1] by simp

lemma GetSmoothed_total:
  assumes "0 \<le> alpha" "alpha \<le> 1" "unat s < 2 ^ 24" "unat v < 2 ^ 24"
  obtains x where "GetSmoothed rnd alpha s v = Inr x" "unat x \<le> 2 ^ 25"
proof -
  let ?a = "rnd (real (unat s) * alpha)" and ?b = "rnd (real (unat v) * rnd (1 - alpha))"
  have s: "real (unat s) \<le> real (2 ^ 24)" "real (unat v) \<le> real (2 ^ 24)" using assms(3,4) by linarith+
  have "real (unat s) * alpha \<le> real (2 ^ 24) * 1" using assms s by (intro mult_mono) auto
  then have a: "0 \<le> ?a" "?a \<le> real (2 ^ 24)" using assms le_real [of _ "2 ^ 24"] nonneg by auto
  have "real (unat v) * rnd (1 - alpha) \<le> real (2 ^ 24) * 1"
    using assms s rnd_unit [of "1 - alpha"] by (intro mult_mono) auto
  then have b: "0 \<le> ?b" "?b \<le> real (2 ^ 24)" using assms rnd_unit [of "1 - alpha"] le_real [of _ "2 ^ 24"] nonneg by auto
  have "?a + ?b \<le> real (2 ^ 25)" using a b by simp
  then have c2: "rnd (?a + ?b) \<le> real (2 ^ 25)" by (rule le_real) simp
  have c1: "0 \<le> rnd (?a + ?b)" by (rule nonneg [OF add_nonneg_nonneg [OF a(1) b(1)]])
  note c = c1 c2
  have "rnd (?a + ?b) < 2 ^ LENGTH(32)" using c2 by simp
  note t = to_unsigned_total [OF c(1) this]
  have "\<lfloor>rnd (?a + ?b)\<rfloor> \<le> 2 ^ 25" using c(2) by (simp add: floor_le_iff)
  then have "unat (word_of_int \<lfloor>rnd (?a + ?b)\<rfloor> :: u32) \<le> 2 ^ 25"
    using t(2) unfolding unat_eq_nat_uint by (simp only: t(2) nat_le_iff of_nat_power of_nat_numeral)
  with t(1) that show thesis by (simp add: GetSmoothed_def)
qed

text \<open>The scaling by flows is not negative below the largest window, where it is zero.\<close>

lemma GetTargetDelay_total:
  assumes "params_ok rnd p" "moderate p" "1 / 1024 \<le> w" "w \<le> sp_max_fabric_congestion_window p"
  shows "\<exists>d. GetTargetDelay rnd topo (sp_flow_scaling_alpha p) (sp_flow_scaling_beta p) max_scaling base w hops = Inr d"
proof -
  let ?a = "sp_flow_scaling_alpha p" and ?m = "sp_max_fabric_congestion_window p"
  have a: "0 \<le> ?a" "?a \<le> 2 ^ 26" using assms by (auto simp: params_ok_def moderate_def)
  have "1 / 32 = sqrt (1 / 1024)" by (simp add: real_sqrt_divide)
  also have "\<dots> \<le> sqrt w" using assms(3) by (rule real_sqrt_le_mono)
  finally have "rnd (1 / 32) \<le> rnd (sqrt w)" by (rule mono)
  then have sw: "1 / 32 \<le> rnd (sqrt w)" using exact [of 1 5] by simp
  have sm: "rnd (sqrt w) \<le> rnd (sqrt ?m)" using assms(4) by (intro mono real_sqrt_le_mono)
  have "?a / rnd (sqrt ?m) \<le> ?a / rnd (sqrt w)" using a sw sm by (intro divide_left_mono mult_pos_pos) auto
  then have "rnd (?a / rnd (sqrt ?m)) \<le> rnd (?a / rnd (sqrt w))" by (rule mono)
  moreover have beta: "sp_flow_scaling_beta p = - rnd (?a / rnd (sqrt ?m))"
    using assms(1) odd [of "?a / rnd (sqrt ?m)"] by (simp add: params_ok_def)
  ultimately have lo: "0 \<le> rnd (rnd (?a / rnd (sqrt w)) + sp_flow_scaling_beta p)" by (intro nonneg) simp
  have "?a / rnd (sqrt w) \<le> ?a / (1 / 32)" using a sw by (intro divide_left_mono) auto
  also have "\<dots> \<le> real (2 ^ 31)" using a by simp
  finally have "rnd (?a / rnd (sqrt w)) \<le> real (2 ^ 31)" by (rule le_real) simp
  moreover have "0 \<le> rnd (?a / rnd (sqrt ?m))" using a sw sm by (intro nonneg) auto
  ultimately have "rnd (?a / rnd (sqrt w)) + sp_flow_scaling_beta p \<le> real (2 ^ 31)" using beta by simp
  then have "rnd (rnd (?a / rnd (sqrt w)) + sp_flow_scaling_beta p) \<le> real (2 ^ 31)" by (rule le_real) simp
  then have "rnd (rnd (?a / rnd (sqrt w)) + sp_flow_scaling_beta p) < 2 ^ LENGTH(32)" by simp
  from to_unsigned_total(1) [OF lo this] assms(3) show ?thesis by (auto simp: GetTargetDelay_def)
qed

lemma GetInterPacketGap_total:
  assumes "params_ok rnd p" "moderate p" "1 / 1024 \<le> w" "unat rtt \<le> 2 ^ 25"
  obtains g where "GetInterPacketGap rnd (sp_ipg_time_scalar p) (sp_ipg_bits p) w rtt = Inr g" "unat g < 2 ^ unat (sp_ipg_bits p)"
proof (cases "1 \<le> w")
  case True
  then show ?thesis using that [of 0] assms(3) by (simp add: GetInterPacketGap_def)
next
  case False
  let ?r = "real (unat rtt)" and ?s = "sp_ipg_time_scalar p"
  let ?d = "rnd (rnd (?r / w) - ?r)"
  have r: "?r \<le> 2 ^ 25" using assms(4) by (metis of_nat_le_iff of_nat_numeral of_nat_power)
  have s: "0 \<le> ?s" "?s \<le> 1024" using assms(2) by (auto simp: moderate_def)
  have w: "0 < w" "w < 1" using assms(3) False by simp_all
  have "?r * w \<le> ?r" using w by (intro mult_left_le) auto
  then have "?r \<le> ?r / w" using w by (simp add: pos_le_divide_eq)
  then have "?r \<le> rnd (?r / w)" using assms(4) by (intro ge_real) auto
  then have d0: "0 \<le> ?d" by (rule diff_nonneg)
  have "?r / w \<le> 2 ^ 25 / (1 / 1024)" using r w assms(3) by (intro frac_le) auto
  then have "rnd (?r / w) \<le> real (2 ^ 35)" by (intro le_real) simp_all
  then have "?d \<le> real (2 ^ 35)" by (intro le_real) simp_all
  then have "?d * ?s \<le> real (2 ^ 35) * 1024" using d0 s by (intro mult_mono) auto
  then have "rnd (?d * ?s) \<le> real (2 ^ 45)" by (intro le_real) simp_all
  moreover have m0: "0 \<le> rnd (?d * ?s)" using d0 s by (intro nonneg) simp
  ultimately have "std_round (rnd (?d * ?s)) \<le> real (2 ^ 45)" by (intro std_round_le)
  then have "std_round (rnd (?d * ?s)) < 2 ^ LENGTH(64)" by simp
  from to_unsigned_total(1) [OF std_round_nonneg [OF m0] this] obtain i :: u64
    where i: "to_unsigned (std_round (rnd (?d * ?s))) = Inr i" by blast
  have b: "unat (sp_ipg_bits p) \<le> 20" using assms(1) by (simp add: params_ok_def)
  then have "unat (SaturateHigh (unat (sp_ipg_bits p)) i) \<le> 2 ^ unat (sp_ipg_bits p) - 1"
    by (subst unat_SaturateHigh) auto
  moreover have "(2 :: nat) ^ unat (sp_ipg_bits p) \<le> 2 ^ 20" using b by (rule power_increasing) simp
  ultimately have "unat (ucast (SaturateHigh (unat (sp_ipg_bits p)) i) :: u32) < 2 ^ unat (sp_ipg_bits p)"
    by (simp add: unsigned_ucast_eq take_bit_nat_eq_self) (metis Suc_pred le_imp_less_Suc zero_less_numeral zero_less_power)
  with i w that show thesis by (simp add: GetInterPacketGap_def Let_def)
qed

lemma GetRetransmitTimeout_total:
  assumes "params_ok rnd p" "moderate p" "unat rtt \<le> 2 ^ 25" "unat gap < 2 ^ 20"
  obtains x where "GetRetransmitTimeout rnd (sp_min_retransmit_timeout p) rtt (sp_retransmit_timeout_scalar p) gap (sp_ipg_time_scalar p) = Inr x"
    "sp_min_retransmit_timeout p \<le> x" "unat x < 2 ^ 24"
proof -
  let ?c = "sp_retransmit_timeout_scalar p" and ?s = "sp_ipg_time_scalar p"
  have c: "0 \<le> ?c" "?c \<le> 64" and s: "1 / 1024 \<le> ?s" and m: "unat (sp_min_retransmit_timeout p) < 2 ^ 24"
    using assms(1,2) by (auto simp: params_ok_def moderate_def)
  have r: "real (unat rtt) \<le> 2 ^ 25" using assms(3) by (metis of_nat_le_iff of_nat_numeral of_nat_power)
  have "real (unat rtt) * ?c \<le> 2 ^ 25 * 64" using r c by (intro mult_mono) auto
  then have x: "rnd (real (unat rtt) * ?c) \<le> real (2 ^ 31)" by (intro le_real) simp_all
  have x0: "0 \<le> rnd (real (unat rtt) * ?c)" using c by (intro nonneg) simp
  have "rnd (real (unat rtt) * ?c) < 2 ^ LENGTH(32)" using x by simp
  note t = to_unsigned_total [OF x0 this]
  define rto where "rto = (word_of_int \<lfloor>rnd (real (unat rtt) * ?c)\<rfloor> :: u32)"
  have "real (unat rto) = of_int \<lfloor>rnd (real (unat rtt) * ?c)\<rfloor>" using t(2) by (metis rto_def of_int_of_nat_eq uint_nat)
  then have rto: "real (unat rto) \<le> real (2 ^ 31)" using x by linarith
  have g: "real (unat gap) \<le> 2 ^ 20" using assms(4) by (metis less_imp_le of_nat_le_iff of_nat_numeral of_nat_power)
  have "real (unat gap) / ?s \<le> 2 ^ 20 / (1 / 1024)" using g s by (intro frac_le) auto
  then have "rnd (real (unat gap) / ?s) \<le> real (2 ^ 30)" by (intro le_real) simp_all
  then have "real (unat rto) + rnd (real (unat gap) / ?s) \<le> real (2 ^ 31 + 2 ^ 30)" using rto by simp
  then have y: "rnd (real (unat rto) + rnd (real (unat gap) / ?s)) \<le> real (2 ^ 31 + 2 ^ 30)" by (intro le_real) simp_all
  have y0: "0 \<le> rnd (real (unat rto) + rnd (real (unat gap) / ?s))" using s by (intro nonneg add_nonneg_nonneg) auto
  have "rnd (real (unat rto) + rnd (real (unat gap) / ?s)) < 2 ^ LENGTH(32)" using y by simp
  from to_unsigned_total(1) [OF y0 this] obtain z :: u32
    where z: "to_unsigned (rnd (real (unat rto) + rnd (real (unat gap) / ?s))) = Inr z" by blast
  have "unat (SaturateHigh kTimeBits z) < 2 ^ 24" by (simp add: kTimeBits_def unat_SaturateHigh)
  then have "unat (max (SaturateHigh kTimeBits z) (sp_min_retransmit_timeout p)) < 2 ^ 24" using m by (simp add: max_def)
  moreover have "GetRetransmitTimeout rnd (sp_min_retransmit_timeout p) rtt ?c gap ?s =
      Inr (max (SaturateHigh kTimeBits z) (sp_min_retransmit_timeout p))"
    using t(1) z by (simp add: GetRetransmitTimeout_def rto_def [symmetric])
  ultimately show thesis using that by simp
qed

lemma StoreFloatNcwndFraction_total: "\<exists>st'. StoreFloatNcwndFraction rnd w st = Inr st'"
proof -
  have f: "0 \<le> rnd (w - of_int \<lfloor>w\<rfloor>)" "rnd (w - of_int \<lfloor>w\<rfloor>) \<le> 1"
    using rnd_unit [of "w - of_int \<lfloor>w\<rfloor>"] real_of_int_floor_add_one_ge [of w] of_int_floor_le [of w] by auto
  then have "rnd (w - of_int \<lfloor>w\<rfloor>) * 2 ^ 10 + 1 < 2 ^ LENGTH(16)" by simp
  from f(1) this obtain x :: u16 where "FloatToFixed (rnd (w - of_int \<lfloor>w\<rfloor>)) 10 = Inr x" by (rule FloatToFixed_total)
  then show ?thesis by (simp add: StoreFloatNcwndFraction_def)
qed

text \<open>The fabric window shrinks only when a round trip has passed since the time of its marker.\<close>

lemma ack_guard:
  assumes "params_ok rnd p" "fabric_window e \<le> sp_max_fabric_congestion_window p"
    and "new_fabric_window rnd p e now smoothed_delay target_delay < fabric_window e"
  shows "pt_rtt (GetPacketTiming e) \<le> GetWindowDelta now (re_fabric_window_time_marker e)"
proof (rule ccontr)
  assume not_yet: "\<not> ?thesis"
  let ?w = "fabric_window e" and ?i = "rnd (sp_fabric_additive_increment_factor p * real (unat (re_num_packets_acked e)))"
  have "0 \<le> ?i" using assms(1) by (intro nonneg) (simp add: params_ok_def)
  then have "0 \<le> (if 1 \<le> ?w then rnd (?i / ?w) else ?i)" using nonneg [of "?i / ?w"] by simp
  then have "?w \<le> rnd (?w + (if 1 \<le> ?w then rnd (?i / ?w) else ?i))"
    using mono [of ?w "?w + (if 1 \<le> ?w then rnd (?i / ?w) else ?i)"] by simp
  with not_yet assms(2) have "?w \<le> new_fabric_window rnd p e now smoothed_delay target_delay"
    by (auto simp: new_fabric_window_def Let_def ComputeNackFabricCongestionWindow_def ComputeAckFabricCongestionWindow_def
        intro!: clamp_fabric_ge)
  with assms(3) show False by simp
qed

lemma timeout_guard:
  assumes "fabric_window e \<le> sp_max_fabric_congestion_window p"
    and "ComputeTimeoutFabricCongestionWindow rnd p e (fabric_window e) delta < fabric_window e"
  shows "ucast (re_rtt_state e) \<le> delta"
  using assms clamp_fabric_ge [of "fabric_window e" "fabric_window e" p]
  by (auto simp: ComputeTimeoutFabricCongestionWindow_def split: if_splits)

end

section \<open>Responses\<close>

definition event_rtt :: "event \<Rightarrow> nat" where
  "event_rtt e = (if re_event_type e = kRueRetransmit then unat (re_rtt_state e) else unat (pt_rtt (GetPacketTiming e)))"

text \<open>The new fabric window of a response, before it is converted, and what it means for the marker.\<close>

definition answers :: "swift_parameters \<Rightarrow> event \<Rightarrow> u32 \<Rightarrow> response \<Rightarrow> bool" where
  "answers p e now r \<longleftrightarrow> rr_connection_id r = re_connection_id e \<and> rr_fabric_congestion_window r \<noteq> 0 \<and>
     unat (sp_min_retransmit_timeout p) \<le> unat (rr_retransmit_timeout r) \<and>
     unat (rr_inter_packet_gap r) < 2 ^ unat (sp_ipg_bits p) \<and>
     (\<exists>v rtt. real (unat (rr_fabric_congestion_window r)) = std_round (v * 1024) \<and>
        sp_min_fabric_congestion_window p \<le> v \<and> v \<le> sp_max_fabric_congestion_window p \<and>
        (v < fabric_window e \<longrightarrow> event_rtt e \<le> unat (GetWindowDelta now (re_fabric_window_time_marker e))) \<and>
        rr_fabric_window_time_marker r = ucast (GetFabricWindowTimeMarker now (re_fabric_window_time_marker e) rtt
          (fabric_window e) v (sp_min_fabric_congestion_window p)))"

lemma unat_ucast_small: "unat (x :: 'a::len word) < 2 ^ LENGTH('b) \<Longrightarrow> unat (ucast x :: 'b::len word) = unat x"
  by (simp add: unsigned_ucast_eq take_bit_nat_eq_self)

lemma unat_24: "unat (x :: 24 word) < 2 ^ 24"
  using unsigned_less [where 'a = nat and 'b = 24, of x] by simp

lemma unat_ucast_up: "unat (ucast (x :: 24 word) :: u32) = unat x"
  using unat_24 [of x] by (intro unat_ucast_small) simp

lemma max_gap:
  assumes "unat (g :: u32) < 2 ^ unat (sp_ipg_bits p)" "unat (h :: u32) < 2 ^ unat (sp_ipg_bits p)" "unat (sp_ipg_bits p) \<le> 20"
  shows "unat (max g h) < 2 ^ 20" "unat (ucast (max g h) :: 20 word) < 2 ^ unat (sp_ipg_bits p)"
proof -
  have m: "unat (max g h) < 2 ^ unat (sp_ipg_bits p)" using assms by (simp add: max_def)
  also have "(2 :: nat) ^ unat (sp_ipg_bits p) \<le> 2 ^ 20" using assms(3) by (rule power_increasing) simp
  finally show "unat (max g h) < 2 ^ 20" .
  then have "unat (ucast (max g h) :: 20 word) = unat (max g h)" by (intro unat_ucast_small) simp
  with m show "unat (ucast (max g h) :: 20 word) < 2 ^ unat (sp_ipg_bits p)" by simp
qed

lemma clamp_fabric_range:
  "params_ok rnd p \<Longrightarrow> sp_min_fabric_congestion_window p \<le> clamp_fabric p w \<and> clamp_fabric p w \<le> sp_max_fabric_congestion_window p"
  using std_clamp_bounds [of "sp_min_fabric_congestion_window p" "sp_max_fabric_congestion_window p" w]
  by (auto simp: params_ok_def clamp_fabric_def)

lemma new_fabric_window_clamped: "\<exists>v. new_fabric_window rnd p e now sd td = clamp_fabric p v"
  unfolding new_fabric_window_def ComputeNackFabricCongestionWindow_def ComputeAckFabricCongestionWindow_def Let_def
  by (cases "UseMaxFabricDecrease p e") (simp_all, blast+)

lemma new_nic_window_clamped: "\<exists>v. new_nic_window rnd p e now st = clamp_nic p v"
proof (cases "re_event_type e = kRueNack \<and> re_nack_code e = kRxResourceExhaustion")
  case True
  then show ?thesis unfolding new_nic_window_def ComputeNackNicCongestionWindow_def Let_def by (simp, blast)
next
  case False
  show ?thesis unfolding new_nic_window_def ComputeAckNicCongestionWindow_def Let_def if_not_P [OF False] by blast
qed

lemma timeout_window_clamped: "\<exists>v. ComputeTimeoutFabricCongestionWindow rnd p e w delta = clamp_fabric p v"
  unfolding ComputeTimeoutFabricCongestionWindow_def Let_def by blast

context rounding
begin

lemma ProcessAckNack_answers:
  assumes "params_ok rnd p" "moderate p" "re_event_type e \<noteq> kRueRetransmit" "re_fabric_congestion_window e \<noteq> 0"
    and "fabric_window e \<le> sp_max_fabric_congestion_window p"
  shows "\<exists>r st'. ProcessAckNack rnd p e now st = Inr (r, st') \<and> answers p e now r"
proof -
  have a: "0 \<le> sp_rtt_smoothing_alpha p" "sp_rtt_smoothing_alpha p \<le> 1" "0 \<le> sp_delay_smoothing_alpha p"
    "sp_delay_smoothing_alpha p \<le> 1" and bits: "unat (sp_ipg_bits p) \<le> 20"
    using assms(1) by (auto simp: params_ok_def)
  have small: "unat (ucast (re_rtt_state e) :: u32) < 2 ^ 24" "unat (ucast (re_delay_state e) :: u32) < 2 ^ 24"
    by (simp_all add: unat_ucast_up unat_24 [simplified])
  obtain td where td: "GetTargetDelay rnd (sp_topo_scaling_per_hop p) (sp_flow_scaling_alpha p) (sp_flow_scaling_beta p)
      (sp_max_flow_scaling p) (sp_fabric_base_delay p) (fabric_window e) (re_forward_hops e) = Inr td"
    using GetTargetDelay_total [OF assms(1,2) fabric_window_bounds(3) [OF assms(4)] assms(5)] by blast
  obtain srtt where srtt: "GetSmoothed rnd (sp_rtt_smoothing_alpha p) (ucast (re_rtt_state e)) (pt_rtt (GetPacketTiming e)) = Inr srtt"
      "unat srtt \<le> 2 ^ 25" by (rule GetSmoothed_total [OF a(1,2) small(1) timing_small(1)])
  obtain sd where sd: "GetSmoothed rnd (sp_delay_smoothing_alpha p) (ucast (re_delay_state e)) (pt_delay (GetPacketTiming e)) = Inr sd"
    by (rule GetSmoothed_total [OF a(3,4) small(2) timing_small(2)])
  define rtt where "rtt = (if sp_calc_rtt_smooth p then srtt else pt_rtt (GetPacketTiming e))"
  have rtt: "unat rtt \<le> 2 ^ 25" using srtt(2) timing_small(1) [of e] by (simp add: rtt_def)
  define v where "v = new_fabric_window rnd p e now sd td"
  define n where "n = new_nic_window rnd p e now st"
  have v: "sp_min_fabric_congestion_window p \<le> v" "v \<le> sp_max_fabric_congestion_window p"
    using new_fabric_window_clamped [of rnd p e now sd td] clamp_fabric_range [OF assms(1)] by (auto simp: v_def)
  have v': "1 / 1024 \<le> v" "v \<le> (2 ^ 21 - 1) / 1024" using v assms(1) by (auto simp: params_ok_def)
  have n: "1 / 1024 \<le> n" "n \<le> 2047"
    using new_nic_window_clamped [of rnd p e now st] clamp_nic_bounds [OF assms(1)] by (auto simp: n_def)
  obtain f :: u32 where f: "FloatToFixed v 10 = Inr f" "real (unat (ucast f :: 21 word)) = std_round (v * 1024)" "(ucast f :: 21 word) \<noteq> 0"
    by (rule fabric_fixed [OF v'])
  obtain g where g: "GetInterPacketGap rnd (sp_ipg_time_scalar p) (sp_ipg_bits p) v rtt = Inr g" "unat g < 2 ^ unat (sp_ipg_bits p)"
    by (rule GetInterPacketGap_total [OF assms(1,2) v'(1) rtt])
  obtain h where h: "GetInterPacketGap rnd (sp_ipg_time_scalar p) (sp_ipg_bits p) n rtt = Inr h" "unat h < 2 ^ unat (sp_ipg_bits p)"
    by (rule GetInterPacketGap_total [OF assms(1,2) n(1) rtt])
  note gap = max_gap [OF g(2) h(2) bits]
  obtain rto where rto: "GetRetransmitTimeout rnd (sp_min_retransmit_timeout p) srtt (sp_retransmit_timeout_scalar p) (max g h)
      (sp_ipg_time_scalar p) = Inr rto" "sp_min_retransmit_timeout p \<le> rto" "unat rto < 2 ^ 24"
    by (rule GetRetransmitTimeout_total [OF assms(1,2) srtt(2) gap(1)])
  have "real_of_int \<lfloor>n\<rfloor> \<le> n" by simp
  with n have fl: "0 \<le> real_of_int \<lfloor>n\<rfloor>" "real_of_int \<lfloor>n\<rfloor> < 2 ^ LENGTH(32)" by auto
  obtain nf :: u32 where nf: "to_unsigned (real_of_int \<lfloor>n\<rfloor>) = Inr nf" using to_unsigned_total(1) [OF fl] by blast
  obtain st1 where st1: "StoreFloatNcwndFraction rnd n st = Inr st1" using StoreFloatNcwndFraction_total by blast
  have guard: "v < fabric_window e \<longrightarrow> event_rtt e \<le> unat (GetWindowDelta now (re_fabric_window_time_marker e))"
    using ack_guard [OF assms(1,5), of now sd td] assms(3) by (simp add: v_def event_rtt_def word_le_nat_alt)
  have r24: "unat (sp_min_retransmit_timeout p) \<le> unat (ucast rto :: 24 word)"
    using rto(2,3) by (simp add: unat_ucast_small word_le_nat_alt)
  note steps = td srtt(1) sd f(1) g(1) nf st1 h(1) rto(1)
  show ?thesis
    unfolding ProcessAckNack_def Let_def
    by (simp add: steps [unfolded v_def n_def rtt_def] case_prod_unfold answers_def SetResponse_def)
       (use f gap(2) v guard r24 in \<open>auto simp: v_def rtt_def\<close>)
qed

lemma ProcessRetransmit_answers:
  assumes "params_ok rnd p" "moderate p" "re_event_type e = kRueRetransmit" "fabric_window e \<le> sp_max_fabric_congestion_window p"
  shows "\<exists>r. ProcessRetransmit rnd p e now st = Inr (r, st) \<and> answers p e now r"
proof -
  let ?rtt = "ucast (re_rtt_state e) :: u32"
  have bits: "unat (sp_ipg_bits p) \<le> 20" using assms(1) by (auto simp: params_ok_def)
  have u: "unat ?rtt = unat (re_rtt_state e)" by (rule unat_ucast_up)
  have rtt: "unat ?rtt \<le> 2 ^ 25" using u unat_24 [of "re_rtt_state e"] by simp
  define v where "v = ComputeTimeoutFabricCongestionWindow rnd p e (fabric_window e) (GetWindowDelta now (re_fabric_window_time_marker e))"
  have v: "sp_min_fabric_congestion_window p \<le> v" "v \<le> sp_max_fabric_congestion_window p"
    using timeout_window_clamped [of rnd p e "fabric_window e"] clamp_fabric_range [OF assms(1)] by (metis v_def)+
  have v': "1 / 1024 \<le> v" "v \<le> (2 ^ 21 - 1) / 1024" using v assms(1) by (auto simp: params_ok_def)
  obtain f :: u32 where f: "FloatToFixed v 10 = Inr f" "real (unat (ucast f :: 21 word)) = std_round (v * 1024)" "(ucast f :: 21 word) \<noteq> 0"
    by (rule fabric_fixed [OF v'])
  obtain g where g: "GetInterPacketGap rnd (sp_ipg_time_scalar p) (sp_ipg_bits p) v ?rtt = Inr g" "unat g < 2 ^ unat (sp_ipg_bits p)"
    by (rule GetInterPacketGap_total [OF assms(1,2) v'(1) rtt])
  obtain h where h: "GetNipg rnd p e st = Inr h" "unat h < 2 ^ unat (sp_ipg_bits p)"
    unfolding GetNipg_def by (rule GetInterPacketGap_total [OF assms(1,2) clamp_nic_bounds(1) [OF assms(1)] rtt])
  note gap = max_gap [OF g(2) h(2) bits]
  obtain rto where rto: "GetRetransmitTimeout rnd (sp_min_retransmit_timeout p) ?rtt (sp_retransmit_timeout_scalar p) (max g h)
      (sp_ipg_time_scalar p) = Inr rto" "sp_min_retransmit_timeout p \<le> rto" "unat rto < 2 ^ 24"
    by (rule GetRetransmitTimeout_total [OF assms(1,2) rtt gap(1)])
  have guard: "v < fabric_window e \<longrightarrow> event_rtt e \<le> unat (GetWindowDelta now (re_fabric_window_time_marker e))"
    using timeout_guard [OF assms(4)] assms(3) u by (auto simp: v_def event_rtt_def word_le_nat_alt)
  have r24: "unat (sp_min_retransmit_timeout p) \<le> unat (ucast rto :: 24 word)"
    using rto(2,3) by (simp add: unat_ucast_small word_le_nat_alt)
  show ?thesis
    unfolding ProcessRetransmit_def Let_def
    by (simp add: h(1) g(1) [unfolded v_def] rto(1) f(1) [unfolded v_def] answers_def SetResponse_def)
       (use f gap(2) v guard r24 in \<open>auto simp: v_def\<close>)
qed

lemma process_event_answers:
  assumes "params_ok rnd p" "moderate p" "re_fabric_congestion_window e \<noteq> 0" "fabric_window e \<le> sp_max_fabric_congestion_window p"
  shows "\<exists>r st'. process_event rnd p e now st = Inr (r, st') \<and> answers p e now r"
proof (cases "re_event_type e = kRueRetransmit")
  case True
  then show ?thesis using ProcessRetransmit_answers [OF assms(1,2) True assms(4), of now st] by (auto simp: process_event_def)
next
  case False
  then show ?thesis using ProcessAckNack_answers [OF assms(1,2) False assms(3,4), of now st] by (auto simp: process_event_def)
qed

end

section \<open>A connection's windows over time\<close>

text \<open>
  The events of a connection in the order they are processed, with the times of their processing: the engine stores the
  fabric window and its time marker of each response and puts them into the next event.
\<close>

fun swift_run ::
  "(real \<Rightarrow> real) \<Rightarrow> swift_parameters \<Rightarrow> swift_state \<Rightarrow> 21 word \<Rightarrow> 24 word \<Rightarrow> (nat \<times> event) list \<Rightarrow>
   (nat \<times> 21 word \<times> event \<times> response) list res" where
  "swift_run rnd p st w m [] = Inr []"
| "swift_run rnd p st w m ((t, e) # evs) =
     res_bind (process_event rnd p (e\<lparr>re_fabric_congestion_window := w, re_fabric_window_time_marker := m\<rparr>) (of_nat t) st)
       (\<lambda>(r, st'). res_bind (swift_run rnd p st' (rr_fabric_congestion_window r) (rr_fabric_window_time_marker r) evs)
          (\<lambda>rs. Inr ((t, w, e, r) # rs)))"

text \<open>Two decreases are at least the round trip time of the later event apart.\<close>

definition decreases_apart :: "nat \<times> 21 word \<times> event \<times> response \<Rightarrow> nat \<times> 21 word \<times> event \<times> response \<Rightarrow> bool" where
  "decreases_apart = (\<lambda>(t, w, e, r) (t', w', e', r').
     rr_fabric_congestion_window r < w \<longrightarrow> rr_fabric_congestion_window r' < w' \<longrightarrow> t + event_rtt e' \<le> t')"

definition decreased_since :: "nat \<Rightarrow> nat \<times> 21 word \<times> event \<times> response \<Rightarrow> bool" where
  "decreased_since m = (\<lambda>(t, w, e, r). rr_fabric_congestion_window r < w \<longrightarrow> m + event_rtt e \<le> t)"

lemma decreased_since_mono: "decreased_since m' x \<Longrightarrow> m \<le> m' \<Longrightarrow> decreased_since m x"
  by (auto simp: decreased_since_def)

lemma decreases_apart_first: "decreased_since m' x \<Longrightarrow> (rr_fabric_congestion_window r < w \<longrightarrow> m' = t) \<Longrightarrow> decreases_apart (t, w, e, r) x"
  by (auto simp: decreased_since_def decreases_apart_def)

lemma ucast_minus_24: "(ucast (a - b :: u32) :: 24 word) = ucast a - ucast b"
proof transfer
  fix a b :: int
  have cut: "take_bit 24 (take_bit 32 c) = take_bit 24 c" for c :: int by simp
  show "take_bit LENGTH(24) (take_bit LENGTH(32) (a - b)) = take_bit LENGTH(24) (take_bit LENGTH(32) a - take_bit LENGTH(32) b)"
    using take_bit_diff [of 24 "take_bit 32 a" "take_bit 32 b"] take_bit_diff [of 24 a b] by (simp add: cut)
qed

lemma unat_TimeBits_24: "unat (TimeBits x) = unat (ucast x :: 24 word)"
  by (simp add: TimeBits_def ValidBits_take kTimeBits_def unsigned_take_bit_eq unsigned_ucast_eq)

lemma ucast_TimeBits: "(ucast (TimeBits x) :: 24 word) = ucast x"
  by (rule bit_word_eqI) (simp add: TimeBits_def ValidBits_take kTimeBits_def bit_simps)

lemma ucast_ucast_24: "ucast (ucast (x :: 24 word) :: u32) = x"
  by (rule bit_word_eqI) (simp add: bit_simps)

lemma ucast_of_nat_24: "(ucast (of_nat t :: u32) :: 24 word) = of_nat t"
  by transfer simp

lemma window_delta:
  assumes "M \<le> t"
  shows "unat (GetWindowDelta (of_nat t) (of_nat M)) \<le> t - M"
proof -
  have "unat (GetWindowDelta (of_nat t) (of_nat M)) = unat (of_nat (t - M) :: 24 word)"
    using assms by (simp add: GetWindowDelta_def unat_TimeBits_24 ucast_minus_24 ucast_of_nat_24 ucast_ucast_24 of_nat_diff)
  also have "\<dots> \<le> t - M" by (simp add: unsigned_of_nat take_bit_eq_mod)
  finally show ?thesis .
qed

text \<open>The marker never goes back and never past the time of the event; a decrease sets it to that time.\<close>

lemma marker_advances:
  assumes "M \<le> t"
  obtains M' where "ucast (GetFabricWindowTimeMarker (of_nat t) (of_nat M) rtt w v v0) = (of_nat M' :: 24 word)"
    "M \<le> M'" "M' \<le> t" "v < w \<Longrightarrow> M' = t"
proof -
  let ?delta = "TimeBits (of_nat t - ucast (of_nat M :: 24 word))"
  consider (dec) "v < w \<or> v = v0" | (move) "\<not> (v < w \<or> v = v0)" "rtt < ?delta" | (keep) "\<not> (v < w \<or> v = v0)" "\<not> rtt < ?delta"
    by blast
  then show thesis
  proof cases
    case dec
    then show ?thesis using that [of t] assms by (simp add: GetFabricWindowTimeMarker_def ucast_of_nat_24)
  next
    case move
    have rtt: "unat rtt < t - M" using move(2) window_delta [OF assms] by (simp add: GetWindowDelta_def word_less_nat_alt)
    then have "(of_nat t :: u32) - rtt = of_nat (t - unat rtt)"
      by (simp add: of_nat_diff of_nat_unat)
    then have "ucast (of_nat t - rtt) = (of_nat (t - unat rtt) :: 24 word)" by (simp only: ucast_of_nat_24)
    then show ?thesis
      using that [of "t - unat rtt"] move rtt by (simp add: GetFabricWindowTimeMarker_def ucast_TimeBits del: of_nat_diff)
  next
    case keep
    then show ?thesis using that [of M] assms by (simp add: GetFabricWindowTimeMarker_def ucast_ucast_24)
  qed
qed

definition window_ok :: "swift_parameters \<Rightarrow> 21 word \<Rightarrow> bool" where
  "window_ok p w \<longleftrightarrow> w \<noteq> 0 \<and> real (unat w) \<le> sp_max_fabric_congestion_window p * 1024"

lemma answers_window:
  assumes "moderate p" "params_ok rnd p" "answers p e now r"
  shows "window_ok p (rr_fabric_congestion_window r)"
proof -
  from assms(3) obtain v where v: "real (unat (rr_fabric_congestion_window r)) = std_round (v * 1024)"
    "sp_min_fabric_congestion_window p \<le> v" "v \<le> sp_max_fabric_congestion_window p" by (auto simp: answers_def)
  obtain z where z: "sp_max_fabric_congestion_window p * 1024 = of_int z" using assms(1) by (auto simp: moderate_def Ints_def)
  have "0 \<le> v" using v(2) assms(2) by (auto simp: params_ok_def)
  moreover from this v(3) z have "0 \<le> z" by (smt (verit, best) of_int_0_le_iff)
  then have "v * 1024 \<le> real (nat z)" using v(3) z by simp
  ultimately have "std_round (v * 1024) \<le> real (nat z)" by (intro std_round_le) auto
  with v(1) z \<open>0 \<le> z\<close> assms(3) show ?thesis by (simp add: window_ok_def answers_def)
qed

lemma answers_decrease:
  assumes "answers p e now r" "rr_fabric_congestion_window r < re_fabric_congestion_window e"
  shows "event_rtt e \<le> unat (GetWindowDelta now (re_fabric_window_time_marker e))"
    "\<exists>rtt v. v < fabric_window e \<and> rr_fabric_window_time_marker r = ucast (GetFabricWindowTimeMarker now
       (re_fabric_window_time_marker e) rtt (fabric_window e) v (sp_min_fabric_congestion_window p))"
proof -
  from assms(1) obtain v rtt where v: "real (unat (rr_fabric_congestion_window r)) = std_round (v * 1024)"
    "v < fabric_window e \<longrightarrow> event_rtt e \<le> unat (GetWindowDelta now (re_fabric_window_time_marker e))"
    "rr_fabric_window_time_marker r = ucast (GetFabricWindowTimeMarker now
       (re_fabric_window_time_marker e) rtt (fabric_window e) v (sp_min_fabric_congestion_window p))"
    by (auto simp: answers_def)
  have "v < fabric_window e"
  proof (rule ccontr)
    assume "\<not> v < fabric_window e"
    then have "real (unat (re_fabric_congestion_window e)) \<le> v * 1024" by (simp add: fabric_window_def FixedToFloat_def)
    then have "unat (re_fabric_congestion_window e) \<le> unat (rr_fabric_congestion_window r)"
      using std_round_ge v(1) by (metis of_nat_le_iff)
    with assms(2) show False by (simp add: word_less_nat_alt)
  qed
  with v show "event_rtt e \<le> unat (GetWindowDelta now (re_fabric_window_time_marker e))"
    "\<exists>rtt v. v < fabric_window e \<and> rr_fabric_window_time_marker r = ucast (GetFabricWindowTimeMarker now
       (re_fabric_window_time_marker e) rtt (fabric_window e) v (sp_min_fabric_congestion_window p))" by blast+
qed

lemma answers_marker:
  assumes "answers p e (of_nat t) r" "re_fabric_window_time_marker e = of_nat M" "M \<le> t"
  obtains M' where "rr_fabric_window_time_marker r = of_nat M'" "M \<le> M'" "M' \<le> t"
    "rr_fabric_congestion_window r < re_fabric_congestion_window e \<longrightarrow> M' = t \<and> M + event_rtt e \<le> t"
proof (cases "rr_fabric_congestion_window r < re_fabric_congestion_window e")
  case True
  from answers_decrease [OF assms(1) True] obtain rtt v where d: "event_rtt e \<le> unat (GetWindowDelta (of_nat t) (of_nat M))"
    "v < fabric_window e" "rr_fabric_window_time_marker r = ucast (GetFabricWindowTimeMarker (of_nat t)
       (of_nat M) rtt (fabric_window e) v (sp_min_fabric_congestion_window p))" using assms(2) by auto
  have "M + event_rtt e \<le> t" using d(1) window_delta [OF assms(3)] assms(3) by linarith
  moreover obtain M' where "rr_fabric_window_time_marker r = of_nat M'" "M \<le> M'" "M' \<le> t" "M' = t"
    using marker_advances [OF assms(3), of rtt "fabric_window e" v] d(2,3) by metis
  ultimately show ?thesis using that by blast
next
  case False
  from assms(1,2) obtain rtt v where "rr_fabric_window_time_marker r = ucast (GetFabricWindowTimeMarker (of_nat t)
       (of_nat M) rtt (fabric_window e) v (sp_min_fabric_congestion_window p))" by (auto simp: answers_def)
  with marker_advances [OF assms(3)] that False show ?thesis by metis
qed

context rounding
begin

lemma swift_run_ok:
  assumes "params_ok rnd p" "moderate p" "window_ok p w" "sorted (M # map fst evs)"
  shows "\<exists>rs. swift_run rnd p st w (of_nat M) evs = Inr rs \<and> length rs = length evs \<and>
    sorted_wrt decreases_apart rs \<and> (\<forall>x \<in> set rs. decreased_since M x)"
  using assms(3,4)
proof (induction evs arbitrary: M w st)
  case (Cons x evs)
  obtain t e where x: "x = (t, e)" by (cases x)
  let ?e = "e\<lparr>re_fabric_congestion_window := w, re_fabric_window_time_marker := of_nat M\<rparr>"
  have "re_fabric_congestion_window ?e \<noteq> 0" "fabric_window ?e \<le> sp_max_fabric_congestion_window p"
    using Cons.prems(1) by (auto simp: window_ok_def fabric_window_def FixedToFloat_def)
  from process_event_answers [OF assms(1,2) this] obtain r st'
    where r: "process_event rnd p ?e (of_nat t) st = Inr (r, st')" "answers p ?e (of_nat t) r" by blast
  have M: "M \<le> t" "sorted (t # map fst evs)" using Cons.prems(2) x by simp_all
  have marker: "re_fabric_window_time_marker ?e = of_nat M" by simp
  obtain M' where M': "rr_fabric_window_time_marker r = of_nat M'" "M \<le> M'" "M' \<le> t"
    "rr_fabric_congestion_window r < re_fabric_congestion_window ?e \<longrightarrow> M' = t \<and> M + event_rtt ?e \<le> t"
    by (rule answers_marker [OF r(2) marker M(1)])
  have "event_rtt ?e = event_rtt e" by (simp add: event_rtt_def GetPacketTiming_def Let_def)
  with M'(4) have now: "decreased_since M (t, w, e, r)" "rr_fabric_congestion_window r < w \<longrightarrow> M' = t"
    by (auto simp: decreased_since_def)
  have "sorted (M' # map fst evs)" using M M'(3) by auto
  from Cons.IH [OF answers_window [OF assms(2,1) r(2)] this, of st'] obtain rs
    where rs: "swift_run rnd p st' (rr_fabric_congestion_window r) (of_nat M') evs = Inr rs" "length rs = length evs"
      "sorted_wrt decreases_apart rs" "\<forall>x \<in> set rs. decreased_since M' x" by blast
  show ?case
  proof (intro exI conjI)
    show "swift_run rnd p st w (of_nat M) (x # evs) = Inr ((t, w, e, r) # rs)" using x r(1) rs(1) M'(1) by simp
    show "length ((t, w, e, r) # rs) = length (x # evs)" using rs(2) by simp
    show "sorted_wrt decreases_apart ((t, w, e, r) # rs)"
      using rs(3,4) decreases_apart_first [OF _ now(2)] by auto
    show "\<forall>x \<in> set ((t, w, e, r) # rs). decreased_since M x"
      using rs(4) now(1) decreased_since_mono [OF _ M'(2)] by auto
  qed
qed simp

end

section \<open>Properties\<close>

text \<open>
  An accepted configuration, and the events of a connection: an acknowledgement of one packet at the target delay, and the
  timeout of a packet.
\<close>

definition example_config :: swift_configuration where
  "example_config =
     \<lparr>sc_max_fabric_congestion_window = 256, sc_min_fabric_congestion_window = 1 / 64,
      sc_fabric_additive_increment_factor = 1, sc_fabric_multiplicative_decrease_factor = 3 / 4,
      sc_max_fabric_multiplicative_decrease = 1 / 2, sc_max_decrease_on_eack_nack_drop = True,
      sc_fabric_base_delay = Some 191, sc_max_nic_congestion_window = 256, sc_min_nic_congestion_window = 1,
      sc_nic_additive_increment_factor = 4, sc_nic_multiplicative_decrease_factor = 1 / 2,
      sc_max_nic_multiplicative_decrease = 1 / 2, sc_target_rx_buffer_level = 15, sc_rtt_smoothing_alpha = 3 / 4,
      sc_delay_smoothing_alpha = 0, sc_topo_scaling_per_hop = 8, sc_min_retransmit_timeout = 7634,
      sc_retransmit_timeout_scalar = 2, sc_retransmit_limit = 3, sc_min_flow_scaling_window = 1 / 4,
      sc_max_flow_scaling_window = 4, sc_max_flow_scaling = 30, sc_calc_rtt_smooth = False, sc_ipg_time_scalar = 1,
      sc_ipg_bits = 20, sc_randomize_path = True, sc_plb_target_rtt_multiplier = 3 / 2,
      sc_plb_congestion_threshold = 1 / 2, sc_plb_attempt_threshold = 4, sc_backpressure_alpha = None,
      sc_backpressure_retransmit_alpha = None\<rparr>"

definition example_event :: "rue_event_type \<Rightarrow> event" where
  "example_event k =
     \<lparr>re_connection_id = 7, re_event_type = k, re_timestamp_1 = 100, re_timestamp_2 = 250, re_timestamp_3 = 260,
      re_timestamp_4 = 400, re_retransmit_count = 1, re_retransmit_reason = kRueTimeout, re_nack_code = kNotANack,
      re_forward_hops = 5, re_rx_buffer_level = 4, re_cc_metadata = 0, re_fabric_congestion_window = 4096,
      re_inter_packet_gap = 0, re_nic_congestion_window = 10, re_retransmit_timeout = 0, re_num_packets_acked = 1,
      re_eack_drop = False, re_eack = False, re_event_queue_select = 0, re_delay_select = kFull,
      re_fabric_window_time_marker = 0, re_nic_window_time_marker = 0, re_nic_window_direction = kDecrease,
      re_base_delay = 0, re_delay_state = 300, re_rtt_state = 300, re_cc_opaque = 0\<rparr>"

lemma example_rounded:
  "double_round (sqrt (1 / 4)) = 1 / 2" "double_round (sqrt 4) = 2" "double_round (sqrt 256) = 16"
  "double_round (1 / 2) = 1 / 2" "double_round 2 = 2" "double_round (3 / 2) = 3 / 2" "double_round 20 = 20"
  "double_round (- (5 / 4)) = - (5 / 4)"
proof -
  have r: "sqrt (1 / 4) = (1 / 2 :: real)" "sqrt 4 = (2 :: real)" "sqrt 256 = (16 :: real)"
    by (simp_all add: real_sqrt_unique real_sqrt_divide)
  show h: "double_round (1 / 2) = 1 / 2" "double_round 2 = 2" "double_round (3 / 2) = 3 / 2" "double_round 20 = 20"
    "double_round (- (5 / 4)) = - (5 / 4)"
    using dbl.exact [of 1 1] dbl.exact [of 2 0] dbl.exact [of 3 1] dbl.exact [of 20 0] dbl.exact [of "-5" 2] by simp_all
  show "double_round (sqrt (1 / 4)) = 1 / 2" "double_round (sqrt 4) = 2" unfolding r by (rule h)+
  show "double_round (sqrt 256) = 16" unfolding r using dbl.exact [of 16 0] by simp
qed

lemma example_scaling:
  "CalculateFlowScalingAlpha double_round 30 (1 / 4) 4 = Inr (Inr 20)"
  "CalculateFlowScalingBeta double_round 20 256 = Inr (- 5 / 4)"
proof -
  have "sint (30 :: u32) = 30" by simp
  then show "CalculateFlowScalingAlpha double_round 30 (1 / 4) 4 = Inr (Inr 20)"
    unfolding CalculateFlowScalingAlpha_def Let_def example_rounded(1,2) by (simp add: example_rounded)
  show "CalculateFlowScalingBeta double_round 20 256 = Inr (- 5 / 4)"
    unfolding CalculateFlowScalingBeta_def example_rounded(3) by (simp add: example_rounded)
qed

lemma example_accepted:
  "ConvertProfileToParameters double_round example_config = Inr (Inr (parameters_of example_config 20 (- 5 / 4)))"
proof -
  have "valid_windows example_config" "valid_timing example_config" "valid_rest example_config"
    by (simp_all add: valid_windows_def valid_timing_def valid_rest_def example_config_def
        window_constants ValidateNicCongestionWindowBounds_def ValidateDelayStateConfig_def valid_alpha_def
        kMaxPlbAckCount_def kMaxPlbAttemptCount_def ValidMask_def)
  moreover have f: "sc_max_flow_scaling example_config = 30" "sc_min_flow_scaling_window example_config = 1 / 4"
    "sc_max_flow_scaling_window example_config = 4" "sc_max_fabric_congestion_window example_config = 256"
    by (simp_all add: example_config_def)
  ultimately show ?thesis by (simp only: ConvertProfileToParameters_def f example_scaling) (simp add: example_scaling)
qed

lemma example_moderate: "moderate (parameters_of example_config 20 (- 5 / 4))"
  using Ints_of_int [of "256 * 1024"] by (simp add: moderate_def parameters_of_def example_config_def)

lemma example_window: "window_ok (parameters_of example_config 20 (- 5 / 4)) 4096"
  by (simp add: window_ok_def parameters_of_def example_config_def)



text \<open>
  C17. Swift shrinks the fabric window at most once per round trip: over any sequence of events of a connection, processed
  at times that do not decrease (the 24-bit clock may wrap around) with the window and the time marker of each response
  fed into the next event, every event gets a response and two events that shrink the window are at least the round trip
  time of the later one apart.
\<close>

theorem swift_one_decrease_per_rtt:
  assumes "ConvertProfileToParameters double_round c = Inr (Inr p)" "moderate p" "window_ok p w" "sorted (M # map fst evs)"
  shows "\<exists>rs. swift_run double_round p st w (of_nat M) evs = Inr rs \<and> length rs = length evs \<and>
    sorted_wrt (\<lambda>(t, w, e, r) (t', w', e', r').
      rr_fabric_congestion_window r < w \<longrightarrow> rr_fabric_congestion_window r' < w' \<longrightarrow> t + event_rtt e' \<le> t') rs"
  using dbl.swift_run_ok [OF Convert_params [OF assms(1)] assms(2-4), of st] unfolding decreases_apart_def by blast

theorem swift_one_decrease_per_rtt_witness:
  "\<exists>rs. swift_run double_round (parameters_of example_config 20 (- 5 / 4)) swift_state_default 4096 (of_nat 1000)
      [(1500, example_event kRueAck), (1600, example_event kRueRetransmit), (1900, example_event kRueRetransmit)] = Inr rs \<and>
    length rs = 3 \<and> sorted_wrt decreases_apart rs"
  using swift_one_decrease_per_rtt [OF example_accepted example_moderate example_window,
      of 1000 "[(1500, example_event kRueAck), (1600, example_event kRueRetransmit), (1900, example_event kRueRetransmit)]" swift_state_default]
  unfolding decreases_apart_def by (simp add: eval_nat_numeral del: swift_run.simps)

end
