(* ===== verification/Rate_Update_Engine.thy ===== *)
theory Rate_Update_Engine
  imports Swift_Windows
begin

text \<open>
  The rate update engine of the first generation (\<^verbatim>\<open>gen1/rate_update_engine.cc\<close>), its adapter to a congestion control
  algorithm (\<^verbatim>\<open>gen1/rate_update_engine_adapter.h\<close>), the conversion between connection state and events
  (\<^verbatim>\<open>event_response_format_adapter.cc\<close>) and the latency generators (\<^verbatim>\<open>rue/latency_generator.h\<close>). The algorithm
  is an argument. Calls that only count for the statistics are left out.
\<close>

section \<open>Configuration and time units\<close>

text \<open>
  \<open>ue_nanoseconds\<close> is \<^verbatim>\<open>absl::Nanoseconds\<close> on a double. The initial values are those the constructor computes from the
  configuration.
\<close>

record rue_env =
  ue_nanoseconds :: "real \<Rightarrow> duration"
  ue_falcon_unit :: real                  \<comment> \<open>\<^verbatim>\<open>nanoseconds_per_falcon_time_unit_\<close>\<close>
  ue_tw_unit :: u64                       \<comment> \<open>\<^verbatim>\<open>nanoseconds_per_timing_wheel_unit_\<close>\<close>
  ue_initial_fcwnd :: u32
  ue_initial_ncwnd :: u32
  ue_retransmission_timeout :: duration
  ue_delay_select :: delay_select
  ue_randomize_path :: bool               \<comment> \<open>\<^verbatim>\<open>rue().swift().randomize_path()\<close>\<close>
  ue_falcon_latency :: duration
  ue_event_queue_size :: u64
  ue_event_queue_threshold_1 :: u64
  ue_event_queue_threshold_2 :: u64
  ue_event_queue_threshold_3 :: u64
  ue_predicate_1_time_threshold :: duration
  ue_predicate_2_packet_count_threshold :: u32
  ue_cc_metrics :: bool                   \<comment> \<open>\<^verbatim>\<open>enable_rue_cc_metrics\<close>\<close>

text \<open>The quotient by a nanosecond, converted to an unsigned number; it saturates for infinite durations.\<close>

definition to_ns :: "duration \<Rightarrow> u64" where
  "to_ns d = (case d of Finite n \<Rightarrow> of_int n | Infinite \<Rightarrow> 2 ^ 63 - 1 | NegInfinite \<Rightarrow> 2 ^ 63)"

definition ToFalconTimeUnits :: "rue_env \<Rightarrow> duration \<Rightarrow> u32 res" where
  "ToFalconTimeUnits E time =
     (if ue_falcon_unit E = 0 then Inl UndefinedBehaviour
      else res_bind (to_unsigned (double_round (double_round (real (unat (to_ns time))) / ue_falcon_unit E)) :: u64 res)
        (\<lambda>units. res_bind (CheckBits kTimeBits units) (\<lambda>_. Inr (ucast units))))"

definition FromFalconTimeUnits :: "rue_env \<Rightarrow> u32 \<Rightarrow> duration" where
  "FromFalconTimeUnits E time = ue_nanoseconds E (double_round (real (unat time) * ue_falcon_unit E))"

definition ToTimingWheelTimeUnits :: "rue_env \<Rightarrow> duration \<Rightarrow> u32 res" where
  "ToTimingWheelTimeUnits E time =
     (if ue_tw_unit E = 0 then Inl UndefinedBehaviour
      else let units = to_ns time div ue_tw_unit E in res_bind (CheckBits 20 units) (\<lambda>_. Inr (ucast units)))"

definition FromTimingWheelTimeUnits :: "rue_env \<Rightarrow> u32 \<Rightarrow> duration" where
  "FromTimingWheelTimeUnits E time = Finite (sint (ucast time * ue_tw_unit E))"

section \<open>Congestion control metadata\<close>

record ccmeta =
  ccm_flow_label :: "20 word"
  ccm_fabric_congestion_window :: u32
  ccm_inter_packet_gap :: duration
  ccm_nic_congestion_window :: u32
  ccm_retransmit_timeout :: duration
  ccm_cc_metadata :: "22 word"
  ccm_fabric_window_time_marker :: "24 word"
  ccm_nic_window_time_marker :: "24 word"
  ccm_nic_window_direction :: window_direction
  ccm_delay_select :: delay_select
  ccm_base_delay :: "24 word"
  ccm_delay_state :: "24 word"
  ccm_rtt_state :: "24 word"
  ccm_cc_opaque :: "2 word"
  ccm_rx_buffer_level :: "5 word"
  ccm_num_acked :: u32
  ccm_outstanding_rue_event :: bool
  ccm_last_rue_event_time :: duration

text \<open>A random number is an argument of the operations that draw one.\<close>

definition GenerateRandomFlowLabel :: "u32 \<Rightarrow> u32" where
  "GenerateRandomFlowLabel random32 = ValidBits 20 random32"

definition kDefaultDelayState :: duration where
  "kDefaultDelayState = Finite 25000"

definition kDefaultRttState :: duration where
  "kDefaultRttState = Finite 25000"

definition InitializeDelayState :: "rue_env \<Rightarrow> u32 res" where
  "InitializeDelayState E = (if ue_randomize_path E then Inr 0 else ToFalconTimeUnits E kDefaultDelayState)"

definition InitializeMetadata :: "rue_env \<Rightarrow> u32 \<Rightarrow> ccmeta res" where
  "InitializeMetadata E random32 =
     res_bind (InitializeDelayState E) (\<lambda>delay_state.
     res_bind (ToFalconTimeUnits E kDefaultRttState) (\<lambda>rtt_state.
       Inr \<lparr>ccm_flow_label = ucast (GenerateRandomFlowLabel random32),
            ccm_fabric_congestion_window = ue_initial_fcwnd E, ccm_inter_packet_gap = ZeroDuration,
            ccm_nic_congestion_window = ue_initial_ncwnd E, ccm_retransmit_timeout = ue_retransmission_timeout E,
            ccm_cc_metadata = 0, ccm_fabric_window_time_marker = 0, ccm_nic_window_time_marker = 0,
            ccm_nic_window_direction = kDecrease, ccm_delay_select = ue_delay_select E,
            ccm_base_delay = ucast (MakeBaseDelayField 0 0), ccm_delay_state = ucast delay_state,
            ccm_rtt_state = ucast rtt_state, ccm_cc_opaque = 0, ccm_rx_buffer_level = 0, ccm_num_acked = 0,
            ccm_outstanding_rue_event = False, ccm_last_rue_event_time = NegInfinite\<rparr>))"

section \<open>Events and responses\<close>

text \<open>What an event takes from the metadata of its connection; the other fields are zero.\<close>

definition metadata_event :: "rue_env \<Rightarrow> u32 \<Rightarrow> ccmeta \<Rightarrow> rue_event_type \<Rightarrow> event res" where
  "metadata_event E scid m kind =
     res_bind (ToTimingWheelTimeUnits E (ccm_inter_packet_gap m)) (\<lambda>gap.
     res_bind (ToFalconTimeUnits E (ccm_retransmit_timeout m)) (\<lambda>rto.
       Inr \<lparr>re_connection_id = ucast scid, re_event_type = kind,
            re_timestamp_1 = 0, re_timestamp_2 = 0, re_timestamp_3 = 0, re_timestamp_4 = 0,
            re_retransmit_count = 0, re_retransmit_reason = kRueEarly, re_nack_code = kNotANack, re_forward_hops = 0,
            re_rx_buffer_level = 0, re_cc_metadata = 0,
            re_fabric_congestion_window = ucast (ccm_fabric_congestion_window m), re_inter_packet_gap = ucast gap,
            re_nic_congestion_window = ucast (ccm_nic_congestion_window m), re_retransmit_timeout = ucast rto,
            re_num_packets_acked = 0, re_eack_drop = False, re_eack = False, re_event_queue_select = 0,
            re_delay_select = ccm_delay_select m, re_fabric_window_time_marker = ccm_fabric_window_time_marker m,
            re_nic_window_time_marker = ccm_nic_window_time_marker m,
            re_nic_window_direction = ccm_nic_window_direction m, re_base_delay = ccm_base_delay m,
            re_delay_state = ccm_delay_state m, re_rtt_state = ccm_rtt_state m, re_cc_opaque = ccm_cc_opaque m\<rparr>))"

definition stamp_event :: "rue_env \<Rightarrow> duration \<Rightarrow> duration \<Rightarrow> packet \<Rightarrow> event \<Rightarrow> event res" where
  "stamp_event E timestamp_1 timestamp_2 pkt e =
     res_bind (ToFalconTimeUnits E timestamp_1) (\<lambda>t1. res_bind (ToFalconTimeUnits E timestamp_2) (\<lambda>t2.
     res_bind (ToFalconTimeUnits E (pkt_sent_timestamp pkt)) (\<lambda>t3.
     res_bind (ToFalconTimeUnits E (pkt_received_timestamp pkt)) (\<lambda>t4.
       Inr (e\<lparr>re_timestamp_1 := ucast t1, re_timestamp_2 := ucast t2, re_timestamp_3 := ucast t3, re_timestamp_4 := ucast t4\<rparr>)))))"

definition FillTimeoutRetransmittedEvent :: "rue_env \<Rightarrow> u32 \<Rightarrow> ccmeta \<Rightarrow> u8 \<Rightarrow> event res" where
  "FillTimeoutRetransmittedEvent E scid m retransmit_count =
     res_bind (metadata_event E scid m kRueRetransmit) (\<lambda>e.
       Inr (e\<lparr>re_retransmit_count := ucast retransmit_count, re_retransmit_reason := kRueTimeout\<rparr>))"

definition FillNackEvent :: "rue_env \<Rightarrow> u32 \<Rightarrow> packet \<Rightarrow> ccmeta \<Rightarrow> u32 \<Rightarrow> event res" where
  "FillNackEvent E scid pkt m num_packets_acked =
     (let nack = pkt_nack pkt in
      res_bind (metadata_event E scid m kRueNack) (\<lambda>e.
      res_bind (stamp_event E (nack_timestamp_1 nack) (nack_timestamp_2 nack) pkt e) (\<lambda>e.
        Inr (e\<lparr>re_nack_code := nack_code nack, re_forward_hops := ucast (nack_forward_hops nack),
               re_rx_buffer_level := ucast (nack_rx_buffer_level nack), re_cc_metadata := ucast (nack_cc_metadata nack),
               re_num_packets_acked := ucast (ucast num_packets_acked :: u16)\<rparr>))))"

definition FillExplicitAckEvent :: "rue_env \<Rightarrow> u32 \<Rightarrow> packet \<Rightarrow> ccmeta \<Rightarrow> u32 \<Rightarrow> bool \<Rightarrow> bool \<Rightarrow> event res" where
  "FillExplicitAckEvent E scid pkt m num_packets_acked eack eack_drop =
     (let ack = pkt_ack pkt in
      res_bind (metadata_event E scid m kRueAck) (\<lambda>e.
      res_bind (stamp_event E (ack_timestamp_1 ack) (ack_timestamp_2 ack) pkt e) (\<lambda>e.
        Inr (e\<lparr>re_forward_hops := ucast (ack_forward_hops ack), re_rx_buffer_level := ucast (ack_rx_buffer_level ack),
               re_cc_metadata := ucast (ack_cc_metadata ack),
               re_num_packets_acked := ucast (ucast num_packets_acked :: u16), re_eack := eack, re_eack_drop := eack_drop\<rparr>))))"

definition UpdateConnectionStateFromResponse :: "rue_env \<Rightarrow> u32 \<Rightarrow> response \<Rightarrow> ccmeta \<Rightarrow> ccmeta" where
  "UpdateConnectionStateFromResponse E random32 r m =
     m\<lparr>ccm_flow_label := (if rr_randomize_path r then ucast (GenerateRandomFlowLabel random32) else ccm_flow_label m),
       ccm_fabric_congestion_window := ucast (rr_fabric_congestion_window r),
       ccm_inter_packet_gap := FromTimingWheelTimeUnits E (ucast (rr_inter_packet_gap r)),
       ccm_nic_congestion_window := ucast (rr_nic_congestion_window r),
       ccm_retransmit_timeout := FromFalconTimeUnits E (ucast (rr_retransmit_timeout r)),
       ccm_cc_metadata := rr_cc_metadata r, ccm_fabric_window_time_marker := rr_fabric_window_time_marker r,
       ccm_nic_window_time_marker := rr_nic_window_time_marker r, ccm_nic_window_direction := rr_nic_window_direction r,
       ccm_delay_select := rr_delay_select r, ccm_delay_state := rr_delay_state r, ccm_rtt_state := rr_rtt_state r\<rparr>"

definition IsRandomizePath :: "response \<Rightarrow> bool" where
  "IsRandomizePath r = rr_randomize_path r"

section \<open>Latency generators\<close>

text \<open>The Gaussian generator draws from a library distribution: the drawn number of nanoseconds is an argument.\<close>

datatype latency_generator =
    FixedLatencyGenerator duration
  | GaussianLatencyGenerator real                  \<comment> \<open>the minimum in nanoseconds\<close>
  | BurstLatencyGenerator u32 duration duration u32

fun GenerateLatency :: "rue_env \<Rightarrow> real \<Rightarrow> latency_generator \<Rightarrow> duration \<times> latency_generator" where
  "GenerateLatency E draw (FixedLatencyGenerator d) = (d, FixedLatencyGenerator d)"
| "GenerateLatency E draw (GaussianLatencyGenerator mn) = (ue_nanoseconds E (max mn draw), GaussianLatencyGenerator mn)"
| "GenerateLatency E draw (BurstLatencyGenerator interval base burst cnt) =
     (if cnt + 1 = interval then (burst, BurstLatencyGenerator interval base burst 0)
      else (base, BurstLatencyGenerator interval base burst (cnt + 1)))"

section \<open>The engine\<close>

datatype rue_task = ProcessNextEventTask | HandleNextResponseTask

text \<open>
  The engine with its adapter, the metadata of the connections, the tasks it has scheduled at the simulation environment
  (with their times), and the connections whose retransmission timeout was reported as reduced to the reliability manager.
\<close>

record 'a rue =
  ru_queue_scheduled :: bool
  ru_event_queue :: "event list"
  ru_response_queue :: "response list"
  ru_algorithm :: 'a
  ru_latency_gen :: latency_generator
  ru_plb_reroute_count :: "u32 \<Rightarrow> u32"
  ru_connections :: "u32 \<rightharpoonup> ccmeta"
  ru_tasks :: "(duration \<times> rue_task) list"
  ru_rto_reductions :: "u32 list"

definition rue_new :: "'a \<Rightarrow> latency_generator \<Rightarrow> 'a rue" where
  "rue_new a g =
     \<lparr>ru_queue_scheduled = False, ru_event_queue = [], ru_response_queue = [], ru_algorithm = a, ru_latency_gen = g,
      ru_plb_reroute_count = (\<lambda>_. 0), ru_connections = Map.empty, ru_tasks = [], ru_rto_reductions = []\<rparr>"

definition lookup_metadata :: "u32 \<Rightarrow> 'a rue \<Rightarrow> ccmeta res" where
  "lookup_metadata cid s = (case ru_connections s cid of Some m \<Rightarrow> Inr m | None \<Rightarrow> Inl CheckFailed)"

definition update_metadata :: "u32 \<Rightarrow> (ccmeta \<Rightarrow> ccmeta) \<Rightarrow> 'a rue \<Rightarrow> 'a rue" where
  "update_metadata cid f s =
     (case ru_connections s cid of Some m \<Rightarrow> s\<lparr>ru_connections := (ru_connections s)(cid \<mapsto> f m)\<rparr> | None \<Rightarrow> s)"

definition GetLastEventTime :: "u32 \<Rightarrow> 'a rue \<Rightarrow> duration res" where
  "GetLastEventTime cid s = res_bind (lookup_metadata cid s) (\<lambda>m. Inr (ccm_last_rue_event_time m))"

definition UpdateLastEventTime :: "duration \<Rightarrow> u32 \<Rightarrow> 'a rue \<Rightarrow> 'a rue res" where
  "UpdateLastEventTime now cid s =
     res_bind (lookup_metadata cid s) (\<lambda>_. Inr (update_metadata cid (\<lambda>m. m\<lparr>ccm_last_rue_event_time := now\<rparr>) s))"

definition GetOutstandingEvent :: "u32 \<Rightarrow> 'a rue \<Rightarrow> bool res" where
  "GetOutstandingEvent cid s = res_bind (lookup_metadata cid s) (\<lambda>m. Inr (ccm_outstanding_rue_event m))"

definition UpdateOutstandingEvent :: "u32 \<Rightarrow> bool \<Rightarrow> 'a rue \<Rightarrow> (bool \<times> 'a rue) res" where
  "UpdateOutstandingEvent cid v s =
     res_bind (lookup_metadata cid s) (\<lambda>m.
       Inr (ccm_outstanding_rue_event m \<noteq> v, update_metadata cid (\<lambda>m. m\<lparr>ccm_outstanding_rue_event := v\<rparr>) s))"

definition GetNumAcked :: "u32 \<Rightarrow> 'a rue \<Rightarrow> u32 res" where
  "GetNumAcked cid s = res_bind (lookup_metadata cid s) (\<lambda>m. Inr (ccm_num_acked m))"

definition ResetNumAcked :: "u32 \<Rightarrow> 'a rue \<Rightarrow> 'a rue res" where
  "ResetNumAcked cid s =
     res_bind (lookup_metadata cid s) (\<lambda>_. Inr (update_metadata cid (\<lambda>m. m\<lparr>ccm_num_acked := 0\<rparr>) s))"

definition GetNumEvents :: "'a rue \<Rightarrow> u64" where
  "GetNumEvents s = of_nat (length (ru_event_queue s))"

definition CanEnqueueEvent :: "rue_env \<Rightarrow> duration \<Rightarrow> u32 \<Rightarrow> 'a rue \<Rightarrow> bool res" where
  "CanEnqueueEvent E now cid s =
     res_bind (GetOutstandingEvent cid s) (\<lambda>outstanding.
       if outstanding then Inr False
       else if GetNumEvents s < ue_event_queue_threshold_1 E then Inr True
       else res_bind (GetLastEventTime cid s) (\<lambda>last_time. res_bind (GetNumAcked cid s) (\<lambda>num_acked.
         let predicate_1 = ue_predicate_1_time_threshold E \<le> dur_diff now last_time;
             predicate_2 = ue_predicate_2_packet_count_threshold E \<le> num_acked
         in Inr (if GetNumEvents s < ue_event_queue_threshold_2 E then predicate_1 \<or> predicate_2
                 else if GetNumEvents s < ue_event_queue_threshold_3 E then predicate_1
                 else if GetNumEvents s < ue_event_queue_size E then predicate_1 \<and> predicate_2
                 else False))))"

text \<open>The environment refuses a negative delay.\<close>

definition ScheduleEvent :: "duration \<Rightarrow> duration \<Rightarrow> rue_task \<Rightarrow> 'a rue \<Rightarrow> 'a rue res" where
  "ScheduleEvent now delay task s =
     (if delay < ZeroDuration then Inl LogFatal else Inr (s\<lparr>ru_tasks := ru_tasks s @ [(dur_add now delay, task)]\<rparr>))"

definition TriggerEventProcessing :: "duration \<Rightarrow> u32 \<Rightarrow> 'a rue \<Rightarrow> 'a rue res" where
  "TriggerEventProcessing now cid s =
     res_bind (UpdateOutstandingEvent cid True s) (\<lambda>(changed, s).
       check changed
         (if ru_queue_scheduled s then Inr s
          else ScheduleEvent now (Finite 1) ProcessNextEventTask (s\<lparr>ru_queue_scheduled := True\<rparr>)))"

definition push_event :: "event \<Rightarrow> 'a rue \<Rightarrow> 'a rue" where
  "push_event e s = s\<lparr>ru_event_queue := ru_event_queue s @ [e]\<rparr>"

definition EnqueueAck :: "rue_env \<Rightarrow> packet \<Rightarrow> ccmeta \<Rightarrow> u32 \<Rightarrow> u32 \<Rightarrow> bool \<Rightarrow> bool \<Rightarrow> 'a rue \<Rightarrow> 'a rue res" where
  "EnqueueAck E pkt m cid num_packets_acked eack eack_drop s =
     res_bind (FillExplicitAckEvent E cid pkt m num_packets_acked eack eack_drop) (\<lambda>e. Inr (push_event e s))"

definition EnqueueNack :: "rue_env \<Rightarrow> u32 \<Rightarrow> packet \<Rightarrow> ccmeta \<Rightarrow> u32 \<Rightarrow> 'a rue \<Rightarrow> 'a rue res" where
  "EnqueueNack E cid pkt m num_packets_acked s =
     res_bind (FillNackEvent E cid pkt m num_packets_acked) (\<lambda>e. Inr (push_event e s))"

definition EnqueueTimeoutRetransmit :: "rue_env \<Rightarrow> u32 \<Rightarrow> ccmeta \<Rightarrow> u8 \<Rightarrow> 'a rue \<Rightarrow> 'a rue res" where
  "EnqueueTimeoutRetransmit E cid m retransmit_count s =
     res_bind (FillTimeoutRetransmittedEvent E cid m retransmit_count) (\<lambda>e. Inr (push_event e s))"

definition ExplicitAckReceived :: "rue_env \<Rightarrow> duration \<Rightarrow> packet \<Rightarrow> bool \<Rightarrow> bool \<Rightarrow> 'a rue \<Rightarrow> 'a rue res" where
  "ExplicitAckReceived E now pkt eack eack_drop s =
     check (pkt_type pkt = kAck)
       (let cid = ack_dest_cid (pkt_ack pkt); key = GetFalconPacketConnectionId pkt in
        res_bind (CheckBits 24 cid) (\<lambda>_.
        res_bind (CanEnqueueEvent E now key s) (\<lambda>can.
          if \<not> can then Inr s
          else res_bind (GetNumAcked key s) (\<lambda>num_acked.
               res_bind (ResetNumAcked key s) (\<lambda>s. res_bind (UpdateLastEventTime now key s) (\<lambda>s.
               res_bind (lookup_metadata cid s) (\<lambda>m.
               res_bind (EnqueueAck E pkt m key (SaturateHigh 10 num_acked) eack eack_drop s)
                 (TriggerEventProcessing now key))))))))"

definition NackReceived :: "rue_env \<Rightarrow> duration \<Rightarrow> packet \<Rightarrow> 'a rue \<Rightarrow> 'a rue res" where
  "NackReceived E now pkt s =
     check (pkt_type pkt = kNack)
       (let cid = nack_dest_cid (pkt_nack pkt); key = GetFalconPacketConnectionId pkt in
        res_bind (CheckBits 24 cid) (\<lambda>_.
        res_bind (CanEnqueueEvent E now key s) (\<lambda>can.
          if \<not> can then Inr s
          else res_bind (GetNumAcked key s) (\<lambda>num_acked.
               res_bind (ResetNumAcked key s) (\<lambda>s. res_bind (UpdateLastEventTime now key s) (\<lambda>s.
               res_bind (lookup_metadata cid s) (\<lambda>m.
               res_bind (EnqueueNack E key pkt m (SaturateHigh 10 num_acked) s)
                 (TriggerEventProcessing now key))))))))"

definition HandlePacketTimeoutRetransmitted :: "rue_env \<Rightarrow> duration \<Rightarrow> u32 \<Rightarrow> packet \<Rightarrow> u8 \<Rightarrow> 'a rue \<Rightarrow> 'a rue res" where
  "HandlePacketTimeoutRetransmitted E now cid pkt retransmit_count s =
     check (pkt_type pkt \<noteq> kAck) (check (pkt_type pkt \<noteq> kNack)
       (let retransmit_count = (if 7 \<le> retransmit_count then 6 else retransmit_count) in
        res_bind (CheckBits 3 retransmit_count) (\<lambda>_.
        res_bind (CheckBits 24 cid) (\<lambda>_.
        res_bind (ResetNumAcked cid s) (\<lambda>s.
        res_bind (CanEnqueueEvent E now cid s) (\<lambda>can.
          if \<not> can then Inr s
          else res_bind (UpdateLastEventTime now cid s) (\<lambda>s.
               res_bind (lookup_metadata cid s) (\<lambda>m.
               res_bind (EnqueueTimeoutRetransmit E cid m retransmit_count s) (TriggerEventProcessing now cid)))))))))"

definition PacketTimeoutRetransmitted :: "rue_env \<Rightarrow> duration \<Rightarrow> u32 \<Rightarrow> packet \<Rightarrow> u8 \<Rightarrow> 'a rue \<Rightarrow> 'a rue res" where
  "PacketTimeoutRetransmitted E now cid pkt retransmit_count s =
     HandlePacketTimeoutRetransmitted E now cid pkt retransmit_count s"

text \<open>\<^verbatim>\<open>RueAdapter::ProcessNextEvent\<close>: the front of an empty queue is undefined.\<close>

definition adapter_ProcessNextEvent ::
  "(event \<Rightarrow> u32 \<Rightarrow> 'a \<Rightarrow> (response \<times> 'a) res) \<Rightarrow> u32 \<Rightarrow> 'a rue \<Rightarrow> 'a rue res" where
  "adapter_ProcessNextEvent process now s =
     (case ru_event_queue s of
        [] \<Rightarrow> Inl UndefinedBehaviour
      | e # es \<Rightarrow> res_bind (process e now (ru_algorithm s)) (\<lambda>(r, a).
          Inr (s\<lparr>ru_event_queue := es, ru_response_queue := ru_response_queue s @ [r], ru_algorithm := a\<rparr>)))"

definition ProcessNextEvent ::
  "rue_env \<Rightarrow> (event \<Rightarrow> u32 \<Rightarrow> 'a \<Rightarrow> (response \<times> 'a) res) \<Rightarrow> duration \<Rightarrow> real \<Rightarrow> 'a rue \<Rightarrow> 'a rue res" where
  "ProcessNextEvent E process now draw s =
     check (ru_queue_scheduled s)
       (if GetNumEvents s = 0 then Inr (s\<lparr>ru_queue_scheduled := False\<rparr>)
        else res_bind (ToFalconTimeUnits E now) (\<lambda>t.
             res_bind (adapter_ProcessNextEvent process t s) (\<lambda>s.
             let (latency, g) = GenerateLatency E draw (ru_latency_gen s) in
             res_bind (ScheduleEvent now latency ProcessNextEventTask (s\<lparr>ru_latency_gen := g\<rparr>)) (\<lambda>s.
             ScheduleEvent now (dur_add (ue_falcon_latency E) latency) HandleNextResponseTask s))))"

record response_metadata =
  rm_randomize_path :: bool
  rm_has_rto_decreased :: bool
  rm_rue_key :: u32

definition DequeueResponse :: "rue_env \<Rightarrow> u32 \<Rightarrow> 'a rue \<Rightarrow> (response_metadata \<times> 'a rue) res" where
  "DequeueResponse E random32 s =
     (case ru_response_queue s of
        [] \<Rightarrow> Inl UndefinedBehaviour
      | r # rs \<Rightarrow>
          (let cid = ucast (rr_connection_id r) in
           res_bind (lookup_metadata cid s) (\<lambda>m.
           let m' = UpdateConnectionStateFromResponse E random32 r m in
           Inr (\<lparr>rm_randomize_path = IsRandomizePath r,
                 rm_has_rto_decreased = ccm_retransmit_timeout m' < ccm_retransmit_timeout m, rm_rue_key = cid\<rparr>,
                s\<lparr>ru_response_queue := rs, ru_connections := (ru_connections s)(cid \<mapsto> m')\<rparr>))))"

definition CollectCongestionControlMetricsAfterResponse ::
  "rue_env \<Rightarrow> u32 \<Rightarrow> ccmeta \<Rightarrow> response_metadata \<Rightarrow> 'a rue \<Rightarrow> 'a rue res" where
  "CollectCongestionControlMetricsAfterResponse E cid m rm s =
     (if ue_cc_metrics E
      then check (FixedToFloat (ccm_fabric_congestion_window m) 10 \<noteq> 0)
        (Inr (if rm_randomize_path rm
              then s\<lparr>ru_plb_reroute_count := (ru_plb_reroute_count s)(cid := ru_plb_reroute_count s cid + 1)\<rparr> else s))
      else Inr s)"

definition HandleNextResponse :: "rue_env \<Rightarrow> u32 \<Rightarrow> 'a rue \<Rightarrow> 'a rue res" where
  "HandleNextResponse E random32 s =
     res_bind (DequeueResponse E random32 s) (\<lambda>(rm, s).
     let cid = rm_rue_key rm in
     res_bind (lookup_metadata cid s) (\<lambda>m.
     res_bind (CollectCongestionControlMetricsAfterResponse E cid m rm s) (\<lambda>s.
     let s = (if rm_has_rto_decreased rm then s\<lparr>ru_rto_reductions := ru_rto_reductions s @ [cid]\<rparr> else s) in
     res_bind (UpdateOutstandingEvent cid False s) (\<lambda>(changed, s). check changed (Inr s)))))"

end
