(* ===== verification/Rate_Update_Runs.thy ===== *)
theory Rate_Update_Runs
  imports Rate_Update_Engine
begin

text \<open>
  Runs of the rate update engine: connections are created, packets are acknowledged, ACKs, NACKs and timeouts arrive, and
  the scheduled tasks run, in any order. The engine relies on the algorithm through the locale \<open>rate_algorithm\<close>, which is
  interpreted on Swift. In every reachable state no check fails and nothing undefined happens.
\<close>

declare of_nat_unat [simp del]

section \<open>Steps\<close>

datatype rue_input =
    Connect u32 u32
  | PacketAcked u32
  | AckIn packet bool bool
  | NackIn packet
  | TimeoutIn u32 packet u8
  | RunTask nat real u32

definition remove_task :: "nat \<Rightarrow> 'a rue \<Rightarrow> 'a rue" where
  "remove_task i s = s\<lparr>ru_tasks := take i (ru_tasks s) @ drop (Suc i) (ru_tasks s)\<rparr>"

definition rue_step ::
  "rue_env \<Rightarrow> (event \<Rightarrow> u32 \<Rightarrow> 'a \<Rightarrow> (response \<times> 'a) res) \<Rightarrow> duration \<Rightarrow> rue_input \<Rightarrow> 'a rue \<Rightarrow> 'a rue res" where
  "rue_step E process now i s =
     (case i of
        Connect cid random32 \<Rightarrow> res_bind (InitializeMetadata E random32) (\<lambda>m. Inr (s\<lparr>ru_connections := (ru_connections s)(cid \<mapsto> m)\<rparr>))
      | PacketAcked cid \<Rightarrow> Inr (update_metadata cid (\<lambda>m. m\<lparr>ccm_num_acked := ccm_num_acked m + 1\<rparr>) s)
      | AckIn pkt eack eack_drop \<Rightarrow> ExplicitAckReceived E now pkt eack eack_drop s
      | NackIn pkt \<Rightarrow> NackReceived E now pkt s
      | TimeoutIn cid pkt n \<Rightarrow> PacketTimeoutRetransmitted E now cid pkt n s
      | RunTask k draw random32 \<Rightarrow>
          (case snd (ru_tasks s ! k) of
             ProcessNextEventTask \<Rightarrow> ProcessNextEvent E process now draw (remove_task k s)
           | HandleNextResponseTask \<Rightarrow> HandleNextResponse E random32 (remove_task k s)))"

text \<open>Times that fit in 24 bits of Falcon time units.\<close>

definition time_ok :: "rue_env \<Rightarrow> duration \<Rightarrow> bool" where
  "time_ok E d = (case d of Finite n \<Rightarrow> 0 \<le> n \<and> real_of_int n \<le> (2 ^ 24 - 1 / 2) * ue_falcon_unit E | _ \<Rightarrow> False)"

definition known :: "u32 \<Rightarrow> 'a rue \<Rightarrow> bool" where
  "known cid s \<longleftrightarrow> ru_connections s cid \<noteq> None"

definition admissible :: "rue_env \<Rightarrow> duration \<Rightarrow> rue_input \<Rightarrow> 'a rue \<Rightarrow> bool" where
  "admissible E now i s =
     (case i of
        Connect cid random32 \<Rightarrow> unat cid < 2 ^ 24 \<and> \<not> known cid s
      | PacketAcked cid \<Rightarrow> True
      | AckIn pkt eack eack_drop \<Rightarrow> pkt_type pkt = kAck \<and> known (ack_dest_cid (pkt_ack pkt)) s \<and>
          time_ok E (ack_timestamp_1 (pkt_ack pkt)) \<and> time_ok E (ack_timestamp_2 (pkt_ack pkt)) \<and>
          time_ok E (pkt_sent_timestamp pkt) \<and> time_ok E (pkt_received_timestamp pkt)
      | NackIn pkt \<Rightarrow> pkt_type pkt = kNack \<and> known (nack_dest_cid (pkt_nack pkt)) s \<and>
          time_ok E (nack_timestamp_1 (pkt_nack pkt)) \<and> time_ok E (nack_timestamp_2 (pkt_nack pkt)) \<and>
          time_ok E (pkt_sent_timestamp pkt) \<and> time_ok E (pkt_received_timestamp pkt)
      | TimeoutIn cid pkt n \<Rightarrow> pkt_type pkt \<noteq> kAck \<and> pkt_type pkt \<noteq> kNack \<and> known cid s
      | RunTask k draw random32 \<Rightarrow> k < length (ru_tasks s) \<and> time_ok E now)"

inductive rue_reachable ::
  "rue_env \<Rightarrow> (event \<Rightarrow> u32 \<Rightarrow> 'a \<Rightarrow> (response \<times> 'a) res) \<Rightarrow> 'a \<Rightarrow> latency_generator \<Rightarrow> 'a rue \<Rightarrow> bool"
  for E process a0 g0 where
  start: "rue_reachable E process a0 g0 (rue_new a0 g0)"
| step: "rue_reachable E process a0 g0 s \<Longrightarrow> admissible E now i s \<Longrightarrow> rue_step E process now i s = Inr s' \<Longrightarrow>
    rue_reachable E process a0 g0 s'"

section \<open>Time conversions\<close>

text \<open>What the documentation of \<^verbatim>\<open>absl::Nanoseconds\<close> promises: the conversion is precise to less than a nanosecond.\<close>

locale double_nanoseconds =
  fixes ns :: "real \<Rightarrow> duration"
  assumes close: "\<bar>x\<bar> < 2 ^ 62 \<Longrightarrow> \<exists>n. ns x = Finite n \<and> \<bar>real_of_int n - x\<bar> < 1"
    and sign: "0 \<le> x \<Longrightarrow> ZeroDuration \<le> ns x"

interpretation truncated_ns: double_nanoseconds "\<lambda>x. Finite (trunc x)"
  by unfold_locales (auto simp: trunc_def, linarith+)

definition units_ok :: "rue_env \<Rightarrow> bool" where
  "units_ok E \<longleftrightarrow> 4 \<le> ue_falcon_unit E \<and> ue_falcon_unit E \<le> 2 ^ 28 \<and> ue_tw_unit E \<noteq> 0 \<and> unat (ue_tw_unit E) < 2 ^ 40"

lemma to_ns_small:
  assumes "0 \<le> n" "n < 2 ^ 64"
  shows "real (unat (to_ns (Finite n))) = real_of_int n"
proof -
  have "unat (to_ns (Finite n)) = nat n" using assms by (simp add: to_ns_def unat_word_of_int)
  then show ?thesis using assms(1) by simp
qed

lemma CheckBits_floor:
  assumes "0 \<le> q" "q < 2 ^ bits" "bits < 64"
  obtains w :: u64 where "to_unsigned q = Inr w" "CheckBits bits w = Inr ()"
proof -
  have "(2 :: real) ^ bits \<le> 2 ^ LENGTH(64)" using assms(3) by (intro power_increasing) auto
  then have "q < 2 ^ LENGTH(64)" using assms(2) by linarith
  note t = to_unsigned_total [OF assms(1) this]
  have "\<lfloor>q\<rfloor> < 2 ^ bits" using assms(2) by (simp add: floor_less_iff)
  then have "uint (word_of_int \<lfloor>q\<rfloor> :: u64) < 2 ^ bits" using t(2) by simp
  then have "unat (word_of_int \<lfloor>q\<rfloor> :: u64) < 2 ^ bits" by (metis of_nat_less_iff of_nat_numeral of_nat_power uint_nat)
  then show thesis using that t(1) by (simp add: CheckBits_ok)
qed

lemma ToFalconTimeUnits_ok:
  assumes "units_ok E" "time_ok E d"
  shows "\<exists>u. ToFalconTimeUnits E d = Inr u"
proof -
  let ?u = "ue_falcon_unit E"
  from assms(2) obtain n where n: "d = Finite n" "0 \<le> n" "real_of_int n \<le> (2 ^ 24 - 1 / 2) * ?u"
    by (auto simp: time_ok_def split: duration.splits)
  have u: "4 \<le> ?u" "?u \<le> 2 ^ 28" using assms(1) by (auto simp: units_ok_def)
  have "(2 ^ 24 - 1 / 2) * ?u \<le> (2 ^ 24 - 1 / 2) * 2 ^ 28" using u(2) by (rule mult_left_mono) simp
  with n(3) have "real_of_int n \<le> real_of_int (2 ^ 53)" by simp
  then have n53: "n \<le> 2 ^ 53" by (simp only: of_int_le_iff)
  then have e: "real (unat (to_ns d)) = real_of_int n" unfolding n(1) using n(2) by (intro to_ns_small) simp_all
  have r: "double_round (real_of_int n) = real_of_int n" using n(2) n53 by (intro dbl.exact_int) simp
  let ?q = "double_round (real_of_int n / ?u)"
  have "real_of_int n / ?u \<le> real_of_int (2 ^ 25 - 1) / 2 ^ 1" using n(3) u by (simp add: divide_le_eq)
  then have "?q \<le> double_round (real_of_int (2 ^ 25 - 1) / 2 ^ 1)" by (rule dbl.mono)
  also have "\<dots> = real_of_int (2 ^ 25 - 1) / 2 ^ 1" by (rule dbl.exact) simp
  finally have q: "?q < 2 ^ 24" by simp
  have q0: "0 \<le> ?q" using n(2) u by (intro dbl.nonneg) auto
  obtain w :: u64 where "to_unsigned ?q = Inr w" "CheckBits 24 w = Inr ()" by (rule CheckBits_floor [OF q0 q]) simp
  then show ?thesis using u by (simp add: ToFalconTimeUnits_def e r kTimeBits_def)
qed

lemma FromFalconTimeUnits_ok:
  assumes "units_ok E" "double_nanoseconds (ue_nanoseconds E)"
  shows "time_ok E (FromFalconTimeUnits E (ucast (t :: 24 word)))"
proof -
  let ?u = "ue_falcon_unit E"
  define x where "x = real (unat t) * ?u"
  define k where "k = \<lceil>(2 ^ 24 - 1) * ?u\<rceil>"
  have u: "4 \<le> ?u" "?u \<le> 2 ^ 28" using assms(1) by (auto simp: units_ok_def)
  have "real (unat t) \<le> 2 ^ 24 - 1" using unat_24 [of t] by simp
  then have "x \<le> (2 ^ 24 - 1) * ?u" unfolding x_def using u by (intro mult_right_mono) auto
  then have xk: "x \<le> real_of_int k" unfolding k_def by linarith
  have "(2 ^ 24 - 1) * ?u \<le> (2 ^ 24 - 1) * 2 ^ 28" using u(2) by (rule mult_left_mono) simp
  then have k: "real_of_int k \<le> (2 ^ 24 - 1) * ?u + 1" "real_of_int k \<le> (2 ^ 24 - 1) * 2 ^ 28 + 1" unfolding k_def by linarith+
  then have "real_of_int k \<le> real_of_int (2 ^ 53)" by simp
  then have "k \<le> 2 ^ 53" by (simp only: of_int_le_iff)
  moreover have "0 \<le> (2 ^ 24 - 1) * ?u" using u by simp
  then have "0 \<le> k" unfolding k_def by linarith
  ultimately have d: "double_round x \<le> real_of_int k" using xk by (intro dbl.le_int) auto
  have d0: "0 \<le> double_round x" unfolding x_def using u by (intro dbl.nonneg) auto
  have "\<bar>double_round x\<bar> < 2 ^ 62" using d d0 k(2) by simp
  from double_nanoseconds.close [OF assms(2) this] obtain n
    where n: "ue_nanoseconds E (double_round x) = Finite n" "\<bar>real_of_int n - double_round x\<bar> < 1" by blast
  have "0 \<le> n" using double_nanoseconds.sign [OF assms(2) d0] n(1) by simp
  moreover have "real_of_int n \<le> (2 ^ 24 - 1 / 2) * ?u" using n(2) d k(1) u(1) by argo
  ultimately show ?thesis by (simp add: FromFalconTimeUnits_def time_ok_def unat_ucast_up n(1) flip: x_def)
qed

text \<open>Gaps of at most 20 bits of timing wheel units.\<close>

definition gap_ok :: "rue_env \<Rightarrow> duration \<Rightarrow> bool" where
  "gap_ok E d \<longleftrightarrow> (\<exists>g :: 20 word. d = FromTimingWheelTimeUnits E (ucast g))"

lemma FromTimingWheel_product:
  fixes g :: "20 word"
  assumes "units_ok E"
  defines "w \<equiv> ucast (ucast g :: u32) * ue_tw_unit E"
  shows "unat w = unat g * unat (ue_tw_unit E)" "FromTimingWheelTimeUnits E (ucast g) = Finite (uint w)"
proof -
  have g: "unat g < 2 ^ 20" using unsigned_less [where 'a = nat and 'b = 20, of g] by simp
  then have u32: "unat (ucast g :: u32) = unat g" by (intro unat_ucast_small) simp
  then have u64: "unat (ucast (ucast g :: u32) :: u64) = unat g" using g by (subst unat_ucast_small) simp_all
  have "unat g * unat (ue_tw_unit E) < 2 ^ 20 * 2 ^ 40" using g assms(1) by (intro mult_strict_mono) (auto simp: units_ok_def)
  then have lt: "unat g * unat (ue_tw_unit E) < 2 ^ 60" by simp
  then show w: "unat w = unat g * unat (ue_tw_unit E)"
    unfolding w_def using unat_mult_lem [of "ucast (ucast g :: u32) :: u64" "ue_tw_unit E"] u64 by simp
  have "int (unat w) < 2 ^ 60" unfolding w using lt by (metis of_nat_less_iff of_nat_numeral of_nat_power)
  then have "uint w < 2 ^ 60" by (simp only: uint_nat)
  moreover have "- (2 ^ 63) \<le> uint w" by (rule order_trans [OF _ uint_ge_0]) simp
  ultimately have "signed_take_bit 63 (uint w) = uint w" by (intro signed_take_bit_int_eq_self) simp_all
  then show "FromTimingWheelTimeUnits E (ucast g) = Finite (uint w)"
    by (simp add: FromTimingWheelTimeUnits_def w_def sint_uint)
qed

lemma ToTimingWheelTimeUnits_ok:
  assumes "units_ok E" "gap_ok E d"
  shows "\<exists>u. ToTimingWheelTimeUnits E d = Inr u"
proof -
  obtain g :: "20 word" where d: "d = FromTimingWheelTimeUnits E (ucast g)" using assms(2) by (auto simp: gap_ok_def)
  define w where "w = ucast (ucast g :: u32) * ue_tw_unit E"
  note p = FromTimingWheel_product [OF assms(1), of g, folded w_def]
  have "to_ns d = w" unfolding d p(2) to_ns_def by simp
  moreover have "0 < unat (ue_tw_unit E)" using assms(1) by (simp add: units_ok_def unat_gt_0)
  then have "unat (w div ue_tw_unit E) = unat g" unfolding unat_div p(1) by simp
  moreover have "unat g < 2 ^ 20" using unsigned_less [where 'a = nat and 'b = 20, of g] by simp
  ultimately have "CheckBits 20 (to_ns d div ue_tw_unit E) = Inr ()" by (simp add: CheckBits_ok)
  then show ?thesis using assms(1) by (simp add: ToTimingWheelTimeUnits_def Let_def units_ok_def)
qed

lemma gap_zero: "units_ok E \<Longrightarrow> gap_ok E ZeroDuration"
  unfolding gap_ok_def by (rule exI [of _ 0]) (simp add: FromTimingWheelTimeUnits_def)

section \<open>The algorithm\<close>

text \<open>
  What the engine needs of a congestion control algorithm: it answers an event whose window fits with a response for the
  same connection whose window fits. \<open>good\<close> is an invariant of the algorithm's state.
\<close>

locale rate_algorithm =
  fixes process :: "event \<Rightarrow> u32 \<Rightarrow> 'a \<Rightarrow> (response \<times> 'a) res"
    and good :: "'a \<Rightarrow> bool"
    and fits :: "'a \<Rightarrow> 21 word \<Rightarrow> bool"
  assumes nonzero: "good a \<Longrightarrow> fits a w \<Longrightarrow> w \<noteq> 0"
    and answers: "good a \<Longrightarrow> fits a (re_fabric_congestion_window e) \<Longrightarrow>
      \<exists>r a'. process e now a = Inr (r, a') \<and> rr_connection_id r = re_connection_id e \<and> good a' \<and>
        fits a' (rr_fabric_congestion_window r) \<and> (\<forall>w. fits a w \<longrightarrow> fits a' w)"

text \<open>Swift with one profile, as the engine creates it, and its states of the connections.\<close>

type_synonym swift = "swift_parameters \<times> (24 word \<rightharpoonup> swift_state)"

definition swift_process :: "event \<Rightarrow> u32 \<Rightarrow> swift \<Rightarrow> (response \<times> swift) res" where
  "swift_process e now = (\<lambda>(p, states).
     res_bind (StatefulAlgorithm_Process double_round (Swift_new p) e now states) (\<lambda>(r, states'). Inr (r, (p, states'))))"

definition swift_good :: "swift \<Rightarrow> bool" where
  "swift_good = (\<lambda>(p, states). params_ok double_round p \<and> moderate p)"

definition swift_fits :: "swift \<Rightarrow> 21 word \<Rightarrow> bool" where
  "swift_fits = (\<lambda>(p, states). window_ok p)"

lemma PickProfile_new: "PickProfile e (Swift_new p) = Inr p"
proof -
  let ?i = "GetProfileIndex (ucast (re_base_delay e))"
  have "Swift_new p ! nat ?i = None" if "0 < ?i" "?i < 8"
    using that by (auto simp: Swift_new_def kSwiftMaxNumProfiles_def nth_Cons split: nat.split)
  then show ?thesis
    by (auto simp: PickProfile_def Let_def Swift_new_def kSwiftMaxNumProfiles_def not_le not_less le_less)
qed

interpretation swift_alg: rate_algorithm swift_process swift_good swift_fits
proof
  fix a :: swift and w :: "21 word" and e :: event and now :: u32
  obtain p states where a: "a = (p, states)" by (cases a)
  show "swift_good a \<Longrightarrow> swift_fits a w \<Longrightarrow> w \<noteq> 0" by (simp add: a swift_fits_def window_ok_def)
  assume "swift_good a" "swift_fits a (re_fabric_congestion_window e)"
  then have ok: "params_ok double_round p" "moderate p" and w: "re_fabric_congestion_window e \<noteq> 0"
    "fabric_window e \<le> sp_max_fabric_congestion_window p"
    by (auto simp: a swift_good_def swift_fits_def window_ok_def fabric_window_def FixedToFloat_def)
  define st where "st = (case states (re_connection_id e) of Some x \<Rightarrow> x | None \<Rightarrow> swift_state_default)"
  from dbl.process_event_answers [OF ok w] obtain r st'
    where r: "process_event double_round p e now st = Inr (r, st')" "answers p e now r" by blast
  have "swift_process e now a = Inr (r, (p, states(re_connection_id e \<mapsto> st')))"
    using r(1) by (simp add: a swift_process_def StatefulAlgorithm_Process_def Swift_Process_def PickProfile_new st_def Let_def)
  moreover have "rr_connection_id r = re_connection_id e" using r(2) by (simp add: answers_def)
  moreover have "window_ok p (rr_fabric_congestion_window r)" by (rule answers_window [OF ok(2,1) r(2)])
  ultimately show "\<exists>r a'. swift_process e now a = Inr (r, a') \<and> rr_connection_id r = re_connection_id e \<and> swift_good a' \<and>
      swift_fits a' (rr_fabric_congestion_window r) \<and> (\<forall>w. swift_fits a w \<longrightarrow> swift_fits a' w)"
    using ok by (simp add: a swift_good_def swift_fits_def)
qed

section \<open>Invariant\<close>

definition outstanding_ids :: "'a rue \<Rightarrow> 24 word list" where
  "outstanding_ids s = map re_connection_id (ru_event_queue s) @ map rr_connection_id (ru_response_queue s)"

definition pending :: "rue_task \<Rightarrow> 'a rue \<Rightarrow> nat" where
  "pending k s = length (filter (\<lambda>t. snd t = k) (ru_tasks s))"

definition capacity :: "rue_env \<Rightarrow> u64" where
  "capacity E = max (max (ue_event_queue_threshold_1 E) (ue_event_queue_threshold_2 E))
     (max (ue_event_queue_threshold_3 E) (ue_event_queue_size E))"

fun latency_ok :: "latency_generator \<Rightarrow> bool" where
  "latency_ok (FixedLatencyGenerator d) \<longleftrightarrow> ZeroDuration \<le> d"
| "latency_ok (GaussianLatencyGenerator mn) \<longleftrightarrow> 0 \<le> mn"
| "latency_ok (BurstLatencyGenerator interval base burst cnt) \<longleftrightarrow> ZeroDuration \<le> base \<and> ZeroDuration \<le> burst"

definition env_ok :: "rue_env \<Rightarrow> bool" where
  "env_ok E \<longleftrightarrow> units_ok E \<and> double_nanoseconds (ue_nanoseconds E) \<and> time_ok E (ue_retransmission_timeout E) \<and>
     ZeroDuration \<le> ue_falcon_latency E \<and> 25000 \<le> (2 ^ 24 - 1 / 2) * ue_falcon_unit E"

definition meta_ok :: "rue_env \<Rightarrow> (21 word \<Rightarrow> bool) \<Rightarrow> ccmeta \<Rightarrow> bool" where
  "meta_ok E fit m \<longleftrightarrow> fit (ucast (ccm_fabric_congestion_window m)) \<and> time_ok E (ccm_retransmit_timeout m) \<and>
     gap_ok E (ccm_inter_packet_gap m)"

definition windows_fit :: "(21 word \<Rightarrow> bool) \<Rightarrow> 'a rue \<Rightarrow> bool" where
  "windows_fit fit s \<longleftrightarrow> (\<forall>e \<in> set (ru_event_queue s). fit (re_fabric_congestion_window e)) \<and>
     (\<forall>r \<in> set (ru_response_queue s). fit (rr_fabric_congestion_window r))"

definition connections_ok :: "rue_env \<Rightarrow> (21 word \<Rightarrow> bool) \<Rightarrow> 'a rue \<Rightarrow> bool" where
  "connections_ok E fit s \<longleftrightarrow>
     (\<forall>cid m. ru_connections s cid = Some m \<longrightarrow> unat cid < 2 ^ 24 \<and> meta_ok E fit m \<and>
        (ccm_outstanding_rue_event m \<longleftrightarrow> ucast cid \<in> set (outstanding_ids s))) \<and>
     distinct (outstanding_ids s) \<and> (\<forall>i \<in> set (outstanding_ids s). ru_connections s (ucast i) \<noteq> None)"

definition tasks_ok :: "'a rue \<Rightarrow> bool" where
  "tasks_ok s \<longleftrightarrow> pending ProcessNextEventTask s = (if ru_queue_scheduled s then 1 else 0) \<and>
     pending HandleNextResponseTask s = length (ru_response_queue s) \<and>
     (ru_event_queue s \<noteq> [] \<longrightarrow> ru_queue_scheduled s)"

definition rue_inv :: "rue_env \<Rightarrow> ('a \<Rightarrow> bool) \<Rightarrow> ('a \<Rightarrow> 21 word \<Rightarrow> bool) \<Rightarrow> 'a rue \<Rightarrow> bool" where
  "rue_inv E good fits s \<longleftrightarrow> good (ru_algorithm s) \<and> latency_ok (ru_latency_gen s) \<and>
     windows_fit (fits (ru_algorithm s)) s \<and> connections_ok E (fits (ru_algorithm s)) s \<and> tasks_ok s \<and>
     length (ru_event_queue s) \<le> unat (capacity E) \<and> fits (ru_algorithm s) (ucast (ue_initial_fcwnd E))"

lemma ucast_ucast_small: "unat (cid :: u32) < 2 ^ 24 \<Longrightarrow> ucast (ucast cid :: 24 word) = cid"
proof -
  assume "unat cid < 2 ^ 24"
  then have "unat (ucast (ucast cid :: 24 word) :: u32) = unat cid" by (simp add: unat_ucast_up unat_ucast_small)
  then show ?thesis by (simp only: word_unat_eq_iff)
qed

lemma ids_inj: "unat (a :: u32) < 2 ^ 24 \<Longrightarrow> unat b < 2 ^ 24 \<Longrightarrow> (ucast a :: 24 word) = ucast b \<longleftrightarrow> a = b"
  by (metis ucast_ucast_small)

subsection \<open>Updates of the metadata\<close>

lemma connections_update [simp]:
  "ru_connections (update_metadata cid f s) = (ru_connections s)(cid := map_option f (ru_connections s cid))"
  by (auto simp: update_metadata_def split: option.split)

lemma update_metadata_others [simp]:
  "ru_queue_scheduled (update_metadata cid f s) = ru_queue_scheduled s"
  "ru_event_queue (update_metadata cid f s) = ru_event_queue s"
  "ru_response_queue (update_metadata cid f s) = ru_response_queue s"
  "ru_algorithm (update_metadata cid f s) = ru_algorithm s" "ru_latency_gen (update_metadata cid f s) = ru_latency_gen s"
  "ru_tasks (update_metadata cid f s) = ru_tasks s" "outstanding_ids (update_metadata cid f s) = outstanding_ids s"
  by (auto simp: update_metadata_def outstanding_ids_def split: option.split)

lemma update_metadata_pending [simp]: "pending k (update_metadata cid f s) = pending k s"
  by (simp add: pending_def)

definition keeps :: "(ccmeta \<Rightarrow> ccmeta) \<Rightarrow> bool" where
  "keeps f \<longleftrightarrow> (\<forall>m. ccm_fabric_congestion_window (f m) = ccm_fabric_congestion_window m \<and>
     ccm_retransmit_timeout (f m) = ccm_retransmit_timeout m \<and> ccm_inter_packet_gap (f m) = ccm_inter_packet_gap m \<and>
     ccm_outstanding_rue_event (f m) = ccm_outstanding_rue_event m)"

lemma inv_update_metadata: "rue_inv E good fits s \<Longrightarrow> keeps f \<Longrightarrow> rue_inv E good fits (update_metadata cid f s)"
  by (auto simp: rue_inv_def windows_fit_def tasks_ok_def connections_ok_def keeps_def meta_ok_def)

lemma lookup_Some: "ru_connections s cid = Some m \<Longrightarrow> lookup_metadata cid s = Inr m"
  by (simp add: lookup_metadata_def)

subsection \<open>Enqueueing\<close>

lemma CanEnqueueEvent_ok:
  assumes "ru_connections s cid = Some m"
  obtains can where "CanEnqueueEvent E now cid s = Inr can"
    "can \<longrightarrow> \<not> ccm_outstanding_rue_event m \<and> GetNumEvents s < capacity E"
proof -
  have "\<exists>can. CanEnqueueEvent E now cid s = Inr can \<and>
      (can \<longrightarrow> \<not> ccm_outstanding_rue_event m \<and> GetNumEvents s < capacity E)"
    by (auto simp: CanEnqueueEvent_def GetOutstandingEvent_def GetLastEventTime_def GetNumAcked_def lookup_Some [OF assms]
        Let_def capacity_def less_max_iff_disj)
  then show thesis using that by blast
qed

lemma GetNumEvents_exact:
  assumes "rue_inv E good fits s"
  shows "unat (GetNumEvents s) = length (ru_event_queue s)"
proof -
  have "length (ru_event_queue s) \<le> unat (capacity E)" using assms by (simp add: rue_inv_def)
  moreover have "unat (capacity E) < 2 ^ 64" using unsigned_less [where 'a = nat and 'b = 64, of "capacity E"] by simp
  ultimately show ?thesis by (simp add: GetNumEvents_def unsigned_of_nat take_bit_nat_eq_self)
qed

lemma Trigger_ok:
  assumes inv: "rue_inv E good fits s" and m: "ru_connections s cid = Some m" "\<not> ccm_outstanding_rue_event m"
    and room: "GetNumEvents s < capacity E"
    and e: "re_connection_id e = ucast cid" "fits (ru_algorithm s) (re_fabric_congestion_window e)"
  shows "\<exists>s'. TriggerEventProcessing now cid (push_event e s) = Inr s' \<and> rue_inv E good fits s'"
proof -
  let ?s = "update_metadata cid (\<lambda>m. m\<lparr>ccm_outstanding_rue_event := True\<rparr>) (push_event e s)"
  define s' where "s' = (if ru_queue_scheduled s then ?s
    else ?s\<lparr>ru_queue_scheduled := True, ru_tasks := ru_tasks ?s @ [(dur_add now (Finite 1), ProcessNextEventTask)]\<rparr>)"
  have "TriggerEventProcessing now cid (push_event e s) = Inr s'"
    using m by (simp add: TriggerEventProcessing_def UpdateOutstandingEvent_def lookup_metadata_def push_event_def
        ScheduleEvent_def s'_def less_duration_def)
  moreover have "rue_inv E good fits s'"
  proof -
    have ids: "outstanding_ids s' = map re_connection_id (ru_event_queue s) @ ucast cid # map rr_connection_id (ru_response_queue s)"
      "ru_connections s' = (ru_connections s)(cid \<mapsto> m\<lparr>ccm_outstanding_rue_event := True\<rparr>)"
      using m(1) e(1) by (simp_all add: s'_def outstanding_ids_def push_event_def)
    have con: "connections_ok E (fits (ru_algorithm s)) s" using inv by (simp add: rue_inv_def)
    then have small: "unat cid < 2 ^ 24" and fresh: "ucast cid \<notin> set (outstanding_ids s)" using m by (auto simp: connections_ok_def)
    have "connections_ok E (fits (ru_algorithm s)) s'"
      using con fresh small ids_inj [of _ cid] ucast_ucast_small [OF small] m(1)
      unfolding connections_ok_def ids by (auto simp: outstanding_ids_def meta_ok_def)
    moreover have "tasks_ok s'" using inv by (auto simp: rue_inv_def tasks_ok_def s'_def pending_def push_event_def)
    moreover have "windows_fit (fits (ru_algorithm s)) s'"
      using inv e(2) by (auto simp: rue_inv_def windows_fit_def s'_def push_event_def)
    moreover have "length (ru_event_queue s') \<le> unat (capacity E)"
    proof -
      have "length (ru_event_queue s) < unat (capacity E)" using room GetNumEvents_exact [OF inv] by (simp add: word_less_nat_alt)
      then show ?thesis by (simp add: s'_def push_event_def)
    qed
    moreover have "ru_algorithm s' = ru_algorithm s" "ru_latency_gen s' = ru_latency_gen s" by (simp_all add: s'_def push_event_def)
    ultimately show ?thesis using inv by (simp add: rue_inv_def)
  qed
  ultimately show ?thesis by blast
qed

lemma connection_meta: "rue_inv E good fits s \<Longrightarrow> ru_connections s cid = Some m \<Longrightarrow> meta_ok E (fits (ru_algorithm s)) m"
  by (simp add: rue_inv_def connections_ok_def)

lemma metadata_event_ok:
  assumes "env_ok E" "meta_ok E fit m"
  shows "\<exists>e. metadata_event E cid m k = Inr e \<and> re_connection_id e = ucast cid \<and> fit (re_fabric_congestion_window e)"
proof -
  have u: "units_ok E" using assms(1) by (simp add: env_ok_def)
  obtain g rto where "ToTimingWheelTimeUnits E (ccm_inter_packet_gap m) = Inr g" "ToFalconTimeUnits E (ccm_retransmit_timeout m) = Inr rto"
    using ToTimingWheelTimeUnits_ok [OF u] ToFalconTimeUnits_ok [OF u] assms(2) unfolding meta_ok_def by metis
  then show ?thesis using assms(2) by (simp add: metadata_event_def meta_ok_def)
qed

lemma stamp_event_ok:
  assumes "env_ok E" "time_ok E t1" "time_ok E t2" "time_ok E (pkt_sent_timestamp pkt)" "time_ok E (pkt_received_timestamp pkt)"
  shows "\<exists>e'. stamp_event E t1 t2 pkt e = Inr e' \<and> re_connection_id e' = re_connection_id e \<and>
    re_fabric_congestion_window e' = re_fabric_congestion_window e"
proof -
  have u: "units_ok E" using assms(1) by (simp add: env_ok_def)
  from assms(2-5) [THEN ToFalconTimeUnits_ok [OF u]] show ?thesis by (auto simp: stamp_event_def)
qed

lemma event_ok_cases:
  assumes "env_ok E" "meta_ok E fit m"
  shows "\<exists>e. FillTimeoutRetransmittedEvent E cid m n = Inr e \<and> re_connection_id e = ucast cid \<and> fit (re_fabric_congestion_window e)"
    "admissible E now (AckIn pkt eack eack_drop) s \<Longrightarrow>
      \<exists>e. FillExplicitAckEvent E cid pkt m k eack eack_drop = Inr e \<and> re_connection_id e = ucast cid \<and> fit (re_fabric_congestion_window e)"
    "admissible E now (NackIn pkt) s \<Longrightarrow>
      \<exists>e. FillNackEvent E cid pkt m k = Inr e \<and> re_connection_id e = ucast cid \<and> fit (re_fabric_congestion_window e)"
proof -
  show "\<exists>e. FillTimeoutRetransmittedEvent E cid m n = Inr e \<and> re_connection_id e = ucast cid \<and> fit (re_fabric_congestion_window e)"
    using metadata_event_ok [OF assms, of cid kRueRetransmit] by (auto simp: FillTimeoutRetransmittedEvent_def)
next
  obtain e where e: "metadata_event E cid m kRueAck = Inr e" "re_connection_id e = ucast cid" "fit (re_fabric_congestion_window e)"
    using metadata_event_ok [OF assms] by blast
  assume "admissible E now (AckIn pkt eack eack_drop) s"
  with e show "\<exists>e. FillExplicitAckEvent E cid pkt m k eack eack_drop = Inr e \<and> re_connection_id e = ucast cid \<and> fit (re_fabric_congestion_window e)"
    using stamp_event_ok [OF assms(1), of "ack_timestamp_1 (pkt_ack pkt)" "ack_timestamp_2 (pkt_ack pkt)" pkt e]
    by (auto simp: FillExplicitAckEvent_def admissible_def Let_def)
next
  obtain e where e: "metadata_event E cid m kRueNack = Inr e" "re_connection_id e = ucast cid" "fit (re_fabric_congestion_window e)"
    using metadata_event_ok [OF assms] by blast
  assume "admissible E now (NackIn pkt) s"
  with e show "\<exists>e. FillNackEvent E cid pkt m k = Inr e \<and> re_connection_id e = ucast cid \<and> fit (re_fabric_congestion_window e)"
    using stamp_event_ok [OF assms(1), of "nack_timestamp_1 (pkt_nack pkt)" "nack_timestamp_2 (pkt_nack pkt)" pkt e]
    by (auto simp: FillNackEvent_def admissible_def Let_def)
qed

text \<open>The steps shared by the three handlers: the metadata is updated, then an event is filled from it and enqueued.\<close>

lemma enqueue_ok:
  assumes env: "env_ok E" and inv: "rue_inv E good fits s" and m: "ru_connections s cid = Some m" "\<not> ccm_outstanding_rue_event m"
    and room: "GetNumEvents s < capacity E" and f: "keeps f"
    and fill: "meta_ok E (fits (ru_algorithm s)) (f m) \<Longrightarrow>
      \<exists>e. fill (f m) = Inr e \<and> re_connection_id e = ucast cid \<and> fits (ru_algorithm s) (re_fabric_congestion_window e)"
  shows "\<exists>s'. res_bind (res_bind (fill (f m)) (\<lambda>e. Inr (push_event e (update_metadata cid f s)))) (TriggerEventProcessing now cid) = Inr s' \<and>
    rue_inv E good fits s'"
proof -
  let ?s = "update_metadata cid f s"
  have inv': "rue_inv E good fits ?s" by (rule inv_update_metadata [OF inv f])
  moreover have m': "ru_connections ?s cid = Some (f m)" "\<not> ccm_outstanding_rue_event (f m)"
    using m f by (simp_all add: keeps_def)
  moreover have "GetNumEvents ?s < capacity E" using room by (simp add: GetNumEvents_def)
  moreover have "meta_ok E (fits (ru_algorithm s)) (f m)" using connection_meta [OF inv' m'(1)] by simp
  then obtain e where e: "fill (f m) = Inr e" "re_connection_id e = ucast cid" "fits (ru_algorithm ?s) (re_fabric_congestion_window e)"
    using fill by auto
  ultimately show ?thesis using Trigger_ok [OF inv' m' _ e(2,3), of now] e(1) by simp
qed

lemma update_metadata_compose: "update_metadata cid f (update_metadata cid g s) = update_metadata cid (f \<circ> g) s"
  by (auto simp: update_metadata_def split: option.split)

lemma keeps_num_acked: "keeps (\<lambda>m. m\<lparr>ccm_num_acked := h m\<rparr>)"
  by (simp add: keeps_def)

definition fresh_meta :: "duration \<Rightarrow> ccmeta \<Rightarrow> ccmeta" where
  "fresh_meta now = (\<lambda>m. m\<lparr>ccm_last_rue_event_time := now\<rparr>) \<circ> (\<lambda>m. m\<lparr>ccm_num_acked := 0\<rparr>)"

lemma keeps_fresh_meta: "keeps (fresh_meta now)"
  by (simp add: keeps_def fresh_meta_def)

lemmas handler_defs = GetNumAcked_def ResetNumAcked_def UpdateLastEventTime_def EnqueueAck_def EnqueueNack_def
  EnqueueTimeoutRetransmit_def Let_def lookup_metadata_def update_metadata_compose

lemma known_connection:
  assumes "rue_inv E good fits s" "known cid s"
  obtains m where "ru_connections s cid = Some m" "unat cid < 2 ^ 24" "CheckBits 24 cid = Inr ()"
  using assms by (auto simp: rue_inv_def connections_ok_def known_def CheckBits_ok)

text \<open>What the handlers do once their packet and connection are checked.\<close>

definition try_enqueue :: "rue_env \<Rightarrow> duration \<Rightarrow> u32 \<Rightarrow> (ccmeta \<Rightarrow> event res) \<Rightarrow> ccmeta \<Rightarrow> 'a rue \<Rightarrow> 'a rue res" where
  "try_enqueue E now cid fill m s = res_bind (CanEnqueueEvent E now cid s) (\<lambda>can.
     if \<not> can then Inr s
     else res_bind (res_bind (fill (fresh_meta now m)) (\<lambda>e. Inr (push_event e (update_metadata cid (fresh_meta now) s))))
       (TriggerEventProcessing now cid))"

lemma try_enqueue_ok:
  assumes "env_ok E" "rue_inv E good fits s" "ru_connections s cid = Some m"
    and "\<And>m. meta_ok E (fits (ru_algorithm s)) m \<Longrightarrow>
      \<exists>e. fill m = Inr e \<and> re_connection_id e = ucast cid \<and> fits (ru_algorithm s) (re_fabric_congestion_window e)"
  shows "\<exists>s'. try_enqueue E now cid fill m s = Inr s' \<and> rue_inv E good fits s'"
proof -
  obtain can where can: "CanEnqueueEvent E now cid s = Inr can"
    "can \<longrightarrow> \<not> ccm_outstanding_rue_event m \<and> GetNumEvents s < capacity E" by (rule CanEnqueueEvent_ok [OF assms(3)])
  show ?thesis
  proof (cases can)
    case True
    with can(2) have "\<not> ccm_outstanding_rue_event m" "GetNumEvents s < capacity E" by simp_all
    then have
      "\<exists>s'. res_bind (res_bind (fill (fresh_meta now m)) (\<lambda>e. Inr (push_event e (update_metadata cid (fresh_meta now) s))))
        (TriggerEventProcessing now cid) = Inr s' \<and> rue_inv E good fits s'"
      by (rule enqueue_ok [OF assms(1-3) _ _ keeps_fresh_meta]) (rule assms(4))
    with True can(1) show ?thesis by (simp add: try_enqueue_def)
  qed (use can(1) assms(2) in \<open>simp add: try_enqueue_def\<close>)
qed

lemma AckIn_ok:
  assumes "env_ok E" "rue_inv E good fits s" "admissible E now (AckIn pkt eack eack_drop) s"
  shows "\<exists>s'. ExplicitAckReceived E now pkt eack eack_drop s = Inr s' \<and> rue_inv E good fits s'"
proof -
  let ?cid = "ack_dest_cid (pkt_ack pkt)"
  have type: "pkt_type pkt = kAck" and "known ?cid s" using assms(3) by (simp_all add: admissible_def)
  from known_connection [OF assms(2) this(2)] obtain m where m: "ru_connections s ?cid = Some m" "CheckBits 24 ?cid = Inr ()" .
  let ?fill = "\<lambda>m'. FillExplicitAckEvent E ?cid pkt m' (SaturateHigh 10 (ccm_num_acked m)) eack eack_drop"
  have "ExplicitAckReceived E now pkt eack eack_drop s = try_enqueue E now ?cid ?fill m s"
    using type m by (simp add: ExplicitAckReceived_def handler_defs GetFalconPacketConnectionId_def try_enqueue_def fresh_meta_def cong: if_cong)
  moreover have "\<exists>s'. try_enqueue E now ?cid ?fill m s = Inr s' \<and> rue_inv E good fits s'"
    by (rule try_enqueue_ok [OF assms(1,2) m(1)]) (rule event_ok_cases(2) [OF assms(1) _ assms(3)])
  ultimately show ?thesis by simp
qed

lemma NackIn_ok:
  assumes "env_ok E" "rue_inv E good fits s" "admissible E now (NackIn pkt) s"
  shows "\<exists>s'. NackReceived E now pkt s = Inr s' \<and> rue_inv E good fits s'"
proof -
  let ?cid = "nack_dest_cid (pkt_nack pkt)"
  have type: "pkt_type pkt = kNack" and "known ?cid s" using assms(3) by (simp_all add: admissible_def)
  from known_connection [OF assms(2) this(2)] obtain m where m: "ru_connections s ?cid = Some m" "CheckBits 24 ?cid = Inr ()" .
  let ?fill = "\<lambda>m'. FillNackEvent E ?cid pkt m' (SaturateHigh 10 (ccm_num_acked m))"
  have "NackReceived E now pkt s = try_enqueue E now ?cid ?fill m s"
    using type m by (simp add: NackReceived_def handler_defs GetFalconPacketConnectionId_def try_enqueue_def fresh_meta_def cong: if_cong)
  moreover have "\<exists>s'. try_enqueue E now ?cid ?fill m s = Inr s' \<and> rue_inv E good fits s'"
    by (rule try_enqueue_ok [OF assms(1,2) m(1)]) (rule event_ok_cases(3) [OF assms(1) _ assms(3)])
  ultimately show ?thesis by simp
qed

lemma TimeoutIn_ok:
  assumes "env_ok E" "rue_inv E good fits s" "admissible E now (TimeoutIn cid pkt n) s"
  shows "\<exists>s'. PacketTimeoutRetransmitted E now cid pkt n s = Inr s' \<and> rue_inv E good fits s'"
proof -
  have type: "pkt_type pkt \<noteq> kAck" "pkt_type pkt \<noteq> kNack" and "known cid s" using assms(3) by (simp_all add: admissible_def)
  from known_connection [OF assms(2) this(3)] obtain m where m: "ru_connections s cid = Some m" "CheckBits 24 cid = Inr ()" .
  let ?s = "update_metadata cid (\<lambda>m. m\<lparr>ccm_num_acked := 0\<rparr>) s" and ?m = "m\<lparr>ccm_num_acked := 0\<rparr>"
  let ?n = "if 7 \<le> n then 6 else n"
  have "unat ?n < 2 ^ 3" by (auto simp: word_le_nat_alt)
  then have n: "CheckBits 3 ?n = Inr ()" by (simp add: CheckBits_ok)
  have same: "update_metadata cid (fresh_meta now) ?s = update_metadata cid (fresh_meta now) s" "fresh_meta now ?m = fresh_meta now m"
    by (simp_all add: update_metadata_compose fresh_meta_def comp_def)
  let ?fill = "\<lambda>m'. FillTimeoutRetransmittedEvent E cid m' ?n"
  have "PacketTimeoutRetransmitted E now cid pkt n s = try_enqueue E now cid ?fill ?m ?s"
    using type m n unfolding try_enqueue_def same
    by (simp add: PacketTimeoutRetransmitted_def HandlePacketTimeoutRetransmitted_def handler_defs fresh_meta_def comp_def cong: if_cong)
  moreover have "\<exists>s'. try_enqueue E now cid ?fill ?m ?s = Inr s' \<and> rue_inv E good fits s'"
    by (rule try_enqueue_ok [OF assms(1) inv_update_metadata [OF assms(2) keeps_num_acked]])
       (use m event_ok_cases(1) [OF assms(1)] in \<open>simp_all\<close>)
  ultimately show ?thesis by simp
qed

subsection \<open>Tasks\<close>

lemma pending_remove:
  assumes "k < length (ru_tasks s)"
  shows "pending t s = pending t (remove_task k s) + (if snd (ru_tasks s ! k) = t then 1 else 0)"
  using arg_cong [OF id_take_nth_drop [OF assms], of "\<lambda>ts. length (filter (\<lambda>x. snd x = t) ts)"]
  by (simp add: pending_def remove_task_def)

lemma remove_task_others [simp]:
  "ru_queue_scheduled (remove_task k s) = ru_queue_scheduled s" "ru_event_queue (remove_task k s) = ru_event_queue s"
  "ru_response_queue (remove_task k s) = ru_response_queue s" "ru_algorithm (remove_task k s) = ru_algorithm s"
  "ru_latency_gen (remove_task k s) = ru_latency_gen s" "ru_connections (remove_task k s) = ru_connections s"
  by (simp_all add: remove_task_def)

lemma GenerateLatency_ok:
  assumes "env_ok E" "latency_ok g" "GenerateLatency E draw g = (d, g')"
  shows "ZeroDuration \<le> d" "latency_ok g'"
proof -
  have "ZeroDuration \<le> ue_nanoseconds E x" if "0 \<le> x" for x
    using assms(1) that double_nanoseconds.sign by (auto simp: env_ok_def)
  then show "ZeroDuration \<le> d" "latency_ok g'" using assms(2,3) by (cases g; auto split: if_splits)+
qed

lemma dur_add_nonneg: "ZeroDuration \<le> a \<Longrightarrow> ZeroDuration \<le> b \<Longrightarrow> ZeroDuration \<le> dur_add a b"
  by (cases a; cases b) simp_all

lemma ScheduleEvent_ok:
  "ZeroDuration \<le> d \<Longrightarrow> ScheduleEvent now d t s = Inr (s\<lparr>ru_tasks := ru_tasks s @ [(dur_add now d, t)]\<rparr>)"
  by (simp add: ScheduleEvent_def not_less [symmetric])

lemma windows_fit_mono: "windows_fit fit s \<Longrightarrow> (\<And>w. fit w \<Longrightarrow> fit' w) \<Longrightarrow> windows_fit fit' s"
  by (auto simp: windows_fit_def)

lemma connections_ok_clear:
  fixes i :: "24 word"
  assumes con: "connections_ok E fit s" and m: "ru_connections s (ucast i) = Some m" and m': "meta_ok E fit m'"
    and s': "ru_connections s' = (ru_connections s)(ucast i \<mapsto> m'\<lparr>ccm_outstanding_rue_event := False\<rparr>)"
      "set (outstanding_ids s') = set (outstanding_ids s) - {i}" "distinct (outstanding_ids s')"
  shows "connections_ok E fit s'"
  unfolding connections_ok_def s'(1,2)
proof (intro conjI allI impI ballI)
  fix cid n assume n: "((ru_connections s)(ucast i \<mapsto> m'\<lparr>ccm_outstanding_rue_event := False\<rparr>)) cid = Some n"
  have id: "ucast (ucast i :: u32) = i" by (rule ucast_ucast_24)
  have "\<exists>n. ru_connections s cid = Some n" using n m by (auto split: if_splits)
  then show small: "unat cid < 2 ^ 24" using con by (auto simp: connections_ok_def)
  show "meta_ok E fit n" using n m' con by (auto simp: connections_ok_def meta_ok_def split: if_splits)
  have "ucast cid \<noteq> i" if "cid \<noteq> ucast i" using that ucast_ucast_small [OF small] by metis
  then show "ccm_outstanding_rue_event n \<longleftrightarrow> ucast cid \<in> set (outstanding_ids s) - {i}"
    using n id con by (auto simp: connections_ok_def split: if_splits)
next
  show "distinct (outstanding_ids s')" by (rule s'(3))
next
  fix j assume "j \<in> set (outstanding_ids s) - {i}"
  then show "((ru_connections s)(ucast i \<mapsto> m'\<lparr>ccm_outstanding_rue_event := False\<rparr>)) (ucast j) \<noteq> None"
    using con by (auto simp: connections_ok_def)
qed

text \<open>What a response changes, when its connection is there and has an outstanding event.\<close>

lemma HandleNextResponse_changes:
  fixes E :: rue_env and random32 :: u32
  assumes r: "ru_response_queue s = r # rs" and m: "ru_connections s (ucast (rr_connection_id r)) = Some m" "ccm_outstanding_rue_event m"
    and nz: "rr_fabric_congestion_window r \<noteq> 0"
  defines "m' \<equiv> UpdateConnectionStateFromResponse E random32 r m"
  obtains s' where "HandleNextResponse E random32 s = Inr s'"
    "ru_connections s' = (ru_connections s)(ucast (rr_connection_id r) \<mapsto> m'\<lparr>ccm_outstanding_rue_event := False\<rparr>)"
    "ru_response_queue s' = rs" "ru_event_queue s' = ru_event_queue s" "ru_queue_scheduled s' = ru_queue_scheduled s"
    "ru_algorithm s' = ru_algorithm s" "ru_latency_gen s' = ru_latency_gen s" "ru_tasks s' = ru_tasks s"
proof -
  let ?cid = "ucast (rr_connection_id r) :: u32"
  let ?rm = "\<lparr>rm_randomize_path = IsRandomizePath r, rm_has_rto_decreased = ccm_retransmit_timeout m' < ccm_retransmit_timeout m, rm_rue_key = ?cid\<rparr>"
  have "(ucast (ucast (rr_fabric_congestion_window r) :: u32) :: 21 word) = rr_fabric_congestion_window r"
    by (rule bit_word_eqI) (simp add: bit_simps)
  then have "(ucast (rr_fabric_congestion_window r) :: u32) \<noteq> 0" using nz by (metis ucast_0)
  then have fcw: "FixedToFloat (ccm_fabric_congestion_window m') 10 \<noteq> 0"
    by (simp add: FixedToFloat_def m'_def UpdateConnectionStateFromResponse_def unsigned_eq_0_iff)
  have out: "ccm_outstanding_rue_event m'" using m(2) by (simp add: m'_def UpdateConnectionStateFromResponse_def)
  define s1 where "s1 = s\<lparr>ru_response_queue := rs, ru_connections := (ru_connections s)(?cid \<mapsto> m')\<rparr>"
  define s2 where "s2 = (if ue_cc_metrics E \<and> IsRandomizePath r
    then s1\<lparr>ru_plb_reroute_count := (ru_plb_reroute_count s1)(?cid := ru_plb_reroute_count s1 ?cid + 1)\<rparr> else s1)"
  define s3 where "s3 = (if ccm_retransmit_timeout m' < ccm_retransmit_timeout m
    then s2\<lparr>ru_rto_reductions := ru_rto_reductions s2 @ [?cid]\<rparr> else s2)"
  let ?s' = "update_metadata ?cid (\<lambda>m. m\<lparr>ccm_outstanding_rue_event := False\<rparr>) s3"
  have conn: "ru_connections s3 = (ru_connections s)(?cid \<mapsto> m')" "ru_connections s2 = (ru_connections s)(?cid \<mapsto> m')"
    "ru_connections s1 = (ru_connections s)(?cid \<mapsto> m')" by (simp_all add: s1_def s2_def s3_def)
  have "DequeueResponse E random32 s = Inr (?rm, s1)"
    using r m by (simp add: DequeueResponse_def lookup_metadata_def Let_def s1_def m'_def)
  moreover have "CollectCongestionControlMetricsAfterResponse E ?cid m' ?rm s1 = Inr s2"
    using fcw by (simp add: CollectCongestionControlMetricsAfterResponse_def s2_def)
  ultimately have "HandleNextResponse E random32 s = Inr ?s'"
    using out conn by (simp add: HandleNextResponse_def lookup_metadata_def UpdateOutstandingEvent_def s3_def Let_def)
  then show thesis by (rule that) (auto simp: s3_def s2_def s1_def)
qed

context rate_algorithm
begin

lemma ProcessNextEvent_ok:
  assumes env: "env_ok E" and inv: "rue_inv E good fits s" and now: "time_ok E now"
    and k: "k < length (ru_tasks s)" "snd (ru_tasks s ! k) = ProcessNextEventTask"
  shows "\<exists>s'. ProcessNextEvent E process now draw (remove_task k s) = Inr s' \<and> rue_inv E good fits s'"
proof -
  let ?s = "remove_task k s"
  have tasks: "pending ProcessNextEventTask s = (if ru_queue_scheduled s then 1 else 0)"
    "pending HandleNextResponseTask s = length (ru_response_queue s)" using inv by (simp_all add: rue_inv_def tasks_ok_def)
  have p: "ru_queue_scheduled s" "pending ProcessNextEventTask ?s = 0" "pending HandleNextResponseTask ?s = length (ru_response_queue s)"
    using tasks pending_remove [OF k(1)] k(2) by (auto split: if_splits)
  show ?thesis
  proof (cases "ru_event_queue s")
    case Nil
    then show ?thesis using inv p
      by (auto simp: ProcessNextEvent_def GetNumEvents_def rue_inv_def windows_fit_def connections_ok_def outstanding_ids_def
          tasks_ok_def pending_def)
  next
    case (Cons e es)
    obtain t where t: "ToFalconTimeUnits E now = Inr t" using ToFalconTimeUnits_ok now env by (auto simp: env_ok_def)
    from Cons have "fits (ru_algorithm s) (re_fabric_congestion_window e)" "good (ru_algorithm s)"
      using inv by (simp_all add: rue_inv_def windows_fit_def)
    then obtain r a where r: "process e t (ru_algorithm s) = Inr (r, a)" "rr_connection_id r = re_connection_id e" "good a"
      "fits a (rr_fabric_congestion_window r)" "\<And>w. fits (ru_algorithm s) w \<Longrightarrow> fits a w" using answers by metis
    obtain d g where g: "GenerateLatency E draw (ru_latency_gen s) = (d, g)" by (cases "GenerateLatency E draw (ru_latency_gen s)")
    have lat: "ZeroDuration \<le> d" "latency_ok g" using GenerateLatency_ok [OF env _ g] inv by (simp_all add: rue_inv_def)
    have fal: "ZeroDuration \<le> dur_add (ue_falcon_latency E) d" using env lat(1) by (intro dur_add_nonneg) (simp_all add: env_ok_def)
    have some: "GetNumEvents ?s \<noteq> 0"
      using GetNumEvents_exact [OF inv] Cons by (metis GetNumEvents_def length_0_conv list.discI remove_task_others(2) unsigned_0)
    define s' where "s' = ?s\<lparr>ru_event_queue := es, ru_response_queue := ru_response_queue s @ [r], ru_algorithm := a, ru_latency_gen := g,
      ru_tasks := ru_tasks ?s @ [(dur_add now d, ProcessNextEventTask), (dur_add now (dur_add (ue_falcon_latency E) d), HandleNextResponseTask)]\<rparr>"
    have "ProcessNextEvent E process now draw ?s = Inr s'"
      using p(1) some t r(1) Cons g lat(1) fal
      by (simp add: ProcessNextEvent_def adapter_ProcessNextEvent_def ScheduleEvent_ok s'_def)
    moreover have "rue_inv E good fits s'"
    proof -
      have ids: "set (outstanding_ids s') = set (outstanding_ids s)" "distinct (outstanding_ids s') \<longleftrightarrow> distinct (outstanding_ids s)"
        using Cons r(2) by (auto simp: outstanding_ids_def s'_def)
      have "windows_fit (fits a) s'" using inv Cons r(4,5) by (auto simp: rue_inv_def windows_fit_def s'_def)
      moreover have "connections_ok E (fits a) s'"
        using inv r(5) unfolding rue_inv_def connections_ok_def ids by (simp add: s'_def meta_ok_def)
      moreover have "tasks_ok s'" using p by (simp add: tasks_ok_def s'_def pending_def)
      moreover have "length (ru_event_queue s') \<le> unat (capacity E)" using inv Cons by (simp add: rue_inv_def s'_def)
      moreover have "good (ru_algorithm s')" "latency_ok (ru_latency_gen s')" "ru_algorithm s' = a" using r(3) lat(2) by (simp_all add: s'_def)
      ultimately show ?thesis using r(5) inv by (simp add: rue_inv_def)
    qed
    ultimately show ?thesis by blast
  qed
qed

lemma HandleNextResponse_ok:
  assumes env: "env_ok E" and inv: "rue_inv E good fits s"
    and k: "k < length (ru_tasks s)" "snd (ru_tasks s ! k) = HandleNextResponseTask"
  shows "\<exists>s'. HandleNextResponse E random32 (remove_task k s) = Inr s' \<and> rue_inv E good fits s'"
proof -
  let ?s = "remove_task k s" and ?fit = "fits (ru_algorithm s)"
  have tasks: "pending ProcessNextEventTask s = (if ru_queue_scheduled s then 1 else 0)" "ru_event_queue s \<noteq> [] \<longrightarrow> ru_queue_scheduled s"
    "pending HandleNextResponseTask s = length (ru_response_queue s)" using inv by (simp_all add: rue_inv_def tasks_ok_def)
  then have "ru_response_queue s \<noteq> []" using pending_remove [OF k(1)] k(2) by auto
  then obtain r rs where rs: "ru_response_queue s = r # rs" by (cases "ru_response_queue s") auto
  have p: "pending HandleNextResponseTask ?s = length rs" "pending ProcessNextEventTask ?s = pending ProcessNextEventTask s"
    using tasks(3) pending_remove [OF k(1)] k(2) rs by auto
  let ?id = "rr_connection_id r"
  have con: "connections_ok E ?fit s" and fit: "?fit (rr_fabric_congestion_window r)" using inv rs by (simp_all add: rue_inv_def windows_fit_def)
  have id: "?id \<in> set (outstanding_ids s)" by (simp add: outstanding_ids_def rs)
  then obtain m where m: "ru_connections s (ucast ?id) = Some m" using con by (auto simp: connections_ok_def)
  have out: "ccm_outstanding_rue_event m" using con m id ucast_ucast_24 [of ?id] unfolding connections_ok_def by metis
  let ?m = "UpdateConnectionStateFromResponse E random32 r m"
  have "(ucast (ucast (rr_fabric_congestion_window r) :: u32) :: 21 word) = rr_fabric_congestion_window r"
    by (rule bit_word_eqI) (simp add: bit_simps)
  then have mk: "meta_ok E ?fit ?m"
    using fit env FromFalconTimeUnits_ok by (auto simp: meta_ok_def UpdateConnectionStateFromResponse_def gap_ok_def env_ok_def)
  have nz: "rr_fabric_congestion_window r \<noteq> 0" using nonzero [OF _ fit] inv by (simp add: rue_inv_def)
  have "ru_response_queue ?s = r # rs" "ru_connections ?s (ucast ?id) = Some m" using rs m by simp_all
  then obtain s' where s': "HandleNextResponse E random32 ?s = Inr s'"
    "ru_connections s' = (ru_connections ?s)(ucast ?id \<mapsto> ?m\<lparr>ccm_outstanding_rue_event := False\<rparr>)"
    "ru_response_queue s' = rs" "ru_event_queue s' = ru_event_queue ?s" "ru_queue_scheduled s' = ru_queue_scheduled ?s"
    "ru_algorithm s' = ru_algorithm ?s" "ru_latency_gen s' = ru_latency_gen ?s" "ru_tasks s' = ru_tasks ?s"
    by (rule HandleNextResponse_changes [OF _ _ out nz])
  have "set (outstanding_ids s') = set (outstanding_ids s) - {?id}" "distinct (outstanding_ids s')"
    using con rs s'(3,4) unfolding connections_ok_def outstanding_ids_def by auto
  then have "connections_ok E ?fit s'" using connections_ok_clear [OF con m mk, of s'] s'(2) by simp
  moreover have "tasks_ok s'" using p tasks s' by (auto simp: tasks_ok_def pending_def)
  moreover have "windows_fit ?fit s'" using inv rs s' by (auto simp: rue_inv_def windows_fit_def)
  ultimately show ?thesis using inv s' by (simp add: rue_inv_def)
qed

lemma Connect_ok:
  assumes "env_ok E" "rue_inv E good fits s" "admissible E now (Connect cid random32) s"
  shows "\<exists>m. InitializeMetadata E random32 = Inr m \<and> rue_inv E good fits (s\<lparr>ru_connections := (ru_connections s)(cid \<mapsto> m)\<rparr>)"
proof -
  have u: "units_ok E" using assms(1) by (simp add: env_ok_def)
  have "time_ok E (Finite 25000)" using assms(1) by (simp add: time_ok_def env_ok_def)
  from ToFalconTimeUnits_ok [OF u this] obtain t where t: "ToFalconTimeUnits E (Finite 25000) = Inr t" by blast
  then have "\<exists>m. InitializeMetadata E random32 = Inr m \<and> ccm_fabric_congestion_window m = ue_initial_fcwnd E \<and>
      ccm_retransmit_timeout m = ue_retransmission_timeout E \<and> ccm_inter_packet_gap m = ZeroDuration \<and> \<not> ccm_outstanding_rue_event m"
    by (simp add: InitializeMetadata_def InitializeDelayState_def kDefaultDelayState_def kDefaultRttState_def)
  then obtain m where m: "InitializeMetadata E random32 = Inr m" "meta_ok E (fits (ru_algorithm s)) m" "\<not> ccm_outstanding_rue_event m"
    using assms(1,2) gap_zero [OF u] by (auto simp: meta_ok_def env_ok_def rue_inv_def)
  let ?s = "s\<lparr>ru_connections := (ru_connections s)(cid \<mapsto> m)\<rparr>"
  have cid: "unat cid < 2 ^ 24" "ru_connections s cid = None" using assms(3) by (auto simp: admissible_def known_def)
  have "ucast cid \<notin> set (outstanding_ids s)"
    using assms(2) cid ucast_ucast_small [OF cid(1)] by (auto simp: rue_inv_def connections_ok_def)
  then have "rue_inv E good fits ?s"
    using assms(2) m cid by (auto simp: rue_inv_def connections_ok_def windows_fit_def tasks_ok_def outstanding_ids_def pending_def)
  with m(1) show ?thesis by blast
qed

lemma rue_step_ok:
  assumes "env_ok E" "rue_inv E good fits s" "admissible E now i s"
  shows "\<exists>s'. rue_step E process now i s = Inr s' \<and> rue_inv E good fits s'"
proof (cases i)
  case (Connect cid random32)
  with assms(3) have "admissible E now (Connect cid random32) s" by simp
  from Connect_ok [OF assms(1,2) this] Connect show ?thesis by (auto simp: rue_step_def)
next
  case (PacketAcked cid)
  then show ?thesis using inv_update_metadata [OF assms(2) keeps_num_acked] by (simp add: rue_step_def)
next
  case (RunTask k draw random32)
  then have "k < length (ru_tasks s)" "time_ok E now" using assms(3) by (simp_all add: admissible_def)
  then show ?thesis
    using RunTask ProcessNextEvent_ok [OF assms(1,2)] HandleNextResponse_ok [OF assms(1,2)]
    by (cases "snd (ru_tasks s ! k)") (simp_all add: rue_step_def)
qed (use assms AckIn_ok NackIn_ok TimeoutIn_ok in \<open>auto simp: rue_step_def\<close>)

lemma reachable_inv:
  assumes "rue_reachable E process a0 g0 s" "env_ok E" "good a0" "fits a0 (ucast (ue_initial_fcwnd E))" "latency_ok g0"
  shows "rue_inv E good fits s"
  using assms(1)
proof induction
  case start
  then show ?case using assms(3-5)
    by (simp add: rue_inv_def rue_new_def windows_fit_def connections_ok_def tasks_ok_def outstanding_ids_def pending_def)
next
  case (step s now i s')
  then show ?case using rue_step_ok [OF assms(2) step.IH step.hyps(2)] by auto
qed

end

section \<open>Properties\<close>

text \<open>The engine as it is created: Swift with an accepted configuration, an initial window in range.\<close>

definition engine_ok :: "rue_env \<Rightarrow> swift_configuration \<Rightarrow> swift_parameters \<Rightarrow> latency_generator \<Rightarrow> bool" where
  "engine_ok E c p g \<longleftrightarrow> env_ok E \<and> ConvertProfileToParameters double_round c = Inr (Inr p) \<and> moderate p \<and>
     window_ok p (ucast (ue_initial_fcwnd E)) \<and> latency_ok g"

lemma engine_inv:
  assumes "engine_ok E c p g" "rue_reachable E swift_process (p, Map.empty) g s"
  shows "rue_inv E swift_good swift_fits s"
  using assms Convert_params
  by (intro swift_alg.reachable_inv [OF assms(2)]) (auto simp: engine_ok_def swift_good_def swift_fits_def)

definition example_rue_env :: rue_env where
  "example_rue_env =
     \<lparr>ue_nanoseconds = (\<lambda>x. Finite (trunc x)), ue_falcon_unit = 128, ue_tw_unit = 512, ue_initial_fcwnd = 32768,
      ue_initial_ncwnd = 64, ue_retransmission_timeout = Finite 1000000, ue_delay_select = kFabric, ue_randomize_path = False,
      ue_falcon_latency = Finite 400, ue_event_queue_size = 8, ue_event_queue_threshold_1 = 2, ue_event_queue_threshold_2 = 4,
      ue_event_queue_threshold_3 = 6, ue_predicate_1_time_threshold = Finite 8000,
      ue_predicate_2_packet_count_threshold = 3, ue_cc_metrics = True\<rparr>"

definition example_ack_packet :: packet where
  "example_ack_packet = packet_default\<lparr>pkt_type := kAck, pkt_sent_timestamp := Finite 9000, pkt_received_timestamp := Finite 20000,
     pkt_ack := ack_default\<lparr>ack_dest_cid := 7, ack_timestamp_1 := Finite 1000, ack_timestamp_2 := Finite 8000\<rparr>\<rparr>"

lemma example_engine:
  "engine_ok example_rue_env example_config (parameters_of example_config 20 (- 5 / 4)) (FixedLatencyGenerator (Finite 200))"
proof -
  have "units_ok example_rue_env" by (simp add: units_ok_def example_rue_env_def)
  moreover have "double_nanoseconds (ue_nanoseconds example_rue_env)"
    using truncated_ns.double_nanoseconds_axioms by (simp add: example_rue_env_def)
  ultimately have "env_ok example_rue_env" by (simp add: env_ok_def) (simp add: example_rue_env_def time_ok_def)
  moreover have "window_ok (parameters_of example_config 20 (- 5 / 4)) (ucast (ue_initial_fcwnd example_rue_env))"
    by (simp add: window_ok_def parameters_of_def example_config_def example_rue_env_def)
  ultimately show ?thesis using example_accepted example_moderate by (simp add: engine_ok_def)
qed

text \<open>A connection is set up.\<close>

lemma example_connected:
  obtains s where "rue_reachable example_rue_env swift_process (parameters_of example_config 20 (- 5 / 4), Map.empty)
    (FixedLatencyGenerator (Finite 200)) s" "known 7 s"
proof -
  let ?p = "parameters_of example_config 20 (- 5 / 4)" and ?g = "FixedLatencyGenerator (Finite 200)"
  let ?s0 = "rue_new (?p, Map.empty) ?g :: swift rue"
  have r0: "rue_reachable example_rue_env swift_process (?p, Map.empty) ?g ?s0" by (rule rue_reachable.start)
  have i: "admissible example_rue_env (Finite 0) (Connect 7 5) ?s0" by (simp add: admissible_def known_def rue_new_def)
  have "env_ok example_rue_env" using example_engine by (simp add: engine_ok_def)
  from swift_alg.Connect_ok [OF this engine_inv [OF example_engine r0] i] obtain m
    where m: "InitializeMetadata example_rue_env 5 = Inr m" by blast
  then have s: "rue_step example_rue_env swift_process (Finite 0) (Connect 7 5) ?s0 =
      Inr (?s0\<lparr>ru_connections := (ru_connections ?s0)(7 \<mapsto> m)\<rparr>)" by (simp add: rue_step_def)
  have "known 7 (?s0\<lparr>ru_connections := (ru_connections ?s0)(7 \<mapsto> m)\<rparr>)" by (simp add: known_def)
  with rue_reachable.step [OF r0 i s] that show thesis by blast
qed

text \<open>
  C15. The rate update engine never aborts within its time range: in every reachable state of the engine running
  Swift, with connections created, packets acknowledged, ACKs, NACKs and timeouts arriving and scheduled tasks run in any
  order, each of these succeeds. No check on connections, bit widths or outstanding events fails, no response is taken
  from an empty queue, and the algorithm always answers. The times must fit in 24 bits of Falcon time units.
\<close>

theorem rue_never_fails:
  assumes "engine_ok E c p g" "rue_reachable E swift_process (p, Map.empty) g s" "admissible E now i s"
  shows "\<exists>s'. rue_step E swift_process now i s = Inr s'"
  using swift_alg.rue_step_ok [OF _ engine_inv [OF assms(1,2)] assms(3)] assms(1) by (auto simp: engine_ok_def)

theorem rue_never_fails_witness:
  "\<exists>s s'. known 7 s \<and> rue_step example_rue_env swift_process (Finite 30000) (AckIn example_ack_packet False False) s = Inr s'"
proof -
  obtain s where s: "rue_reachable example_rue_env swift_process (parameters_of example_config 20 (- 5 / 4), Map.empty)
    (FixedLatencyGenerator (Finite 200)) s" "known 7 s" by (rule example_connected)
  have "admissible example_rue_env (Finite 30000) (AckIn example_ack_packet False False) s"
    using s(2) by (simp add: admissible_def example_ack_packet_def time_ok_def example_rue_env_def packet_default_def)
  from rue_never_fails [OF example_engine s(1) this] s(2) show ?thesis by blast
qed

text \<open>
  C16. One event per connection is on its way: in every reachable state the connections of the queued events and pending
  responses are pairwise distinct and are exactly those marked as having an outstanding event. For each pending response a
  task that will take it is scheduled, event processing is scheduled exactly once while events wait, and the event
  queue never exceeds the largest of its thresholds.
\<close>

theorem rue_one_outstanding_event:
  assumes "engine_ok E c p g" "rue_reachable E swift_process (p, Map.empty) g s"
  shows "distinct (outstanding_ids s) \<and>
    (\<forall>cid m. ru_connections s cid = Some m \<longrightarrow> (ccm_outstanding_rue_event m \<longleftrightarrow> ucast cid \<in> set (outstanding_ids s))) \<and>
    pending HandleNextResponseTask s = length (ru_response_queue s) \<and>
    pending ProcessNextEventTask s = (if ru_queue_scheduled s then 1 else 0) \<and>
    (ru_event_queue s \<noteq> [] \<longrightarrow> ru_queue_scheduled s) \<and>
    length (ru_event_queue s) \<le> unat (capacity E)"
  using engine_inv [OF assms] by (simp_all add: rue_inv_def connections_ok_def tasks_ok_def)

theorem rue_one_outstanding_event_witness:
  "\<exists>s. known 7 s \<and> distinct (outstanding_ids s) \<and> pending HandleNextResponseTask s = length (ru_response_queue s) \<and>
     length (ru_event_queue (s :: swift rue)) \<le> 8"
proof -
  obtain s where s: "rue_reachable example_rue_env swift_process (parameters_of example_config 20 (- 5 / 4), Map.empty)
    (FixedLatencyGenerator (Finite 200)) s" "known 7 s" by (rule example_connected)
  have "unat (capacity example_rue_env) = 8" by (simp add: capacity_def example_rue_env_def)
  with rue_one_outstanding_event [OF example_engine s(1)] s(2) show ?thesis by auto
qed

text \<open>
  C20. The clock of the engine overflows: when the simulation time reaches \<open>2 ^ 24\<close> Falcon time units (2.2 seconds with
  the unit of the hardware), processing the next event aborts on the width check of the time, whatever the event. The
  hardware's 24-bit time wraps around at that point, and the window guards are written for it.
\<close>

theorem rue_clock_overflow_aborts:
  assumes "units_ok E" "2 ^ 24 * ue_falcon_unit E \<le> real_of_int n" "n \<le> 2 ^ 53"
    and "ru_queue_scheduled s" "ru_event_queue s \<noteq> []" "length (ru_event_queue s) < 2 ^ 64"
  shows "ProcessNextEvent E process (Finite n) draw s = Inl CheckFailed"
proof -
  let ?u = "ue_falcon_unit E"
  have u: "4 \<le> ?u" using assms(1) by (simp add: units_ok_def)
  have "0 \<le> 2 ^ 24 * ?u" using u by simp
  then have n0: "0 \<le> n" using assms(2) by linarith
  have e: "real (unat (to_ns (Finite n))) = real_of_int n" using n0 assms(3) by (intro to_ns_small) simp_all
  have r: "double_round (real_of_int n) = real_of_int n" using n0 assms(3) by (intro dbl.exact_int) simp
  define q where "q = double_round (real_of_int n / ?u)"
  have "real_of_int (2 ^ 24) \<le> real_of_int n / ?u" using assms(2) u by (simp add: pos_le_divide_eq)
  then have lo: "2 ^ 24 \<le> q" unfolding q_def using dbl.ge_int [of "2 ^ 24"] by simp
  have "real_of_int n \<le> real_of_int (2 ^ 53)" using assms(3) by (simp only: of_int_le_iff)
  then have "real_of_int n / ?u \<le> real_of_int (2 ^ 53) / 1" using u n0 by (intro frac_le) auto
  then have hi: "q \<le> real_of_int (2 ^ 53)" unfolding q_def using dbl.le_int [of _ "2 ^ 53"] by simp
  have "0 \<le> q" "q < 2 ^ LENGTH(64)" using lo hi by simp_all
  note t = to_unsigned_total [OF this]
  have "2 ^ 24 \<le> uint (word_of_int \<lfloor>q\<rfloor> :: u64)" unfolding t(2) using lo by (simp add: le_floor_iff)
  then have "\<not> unat (word_of_int \<lfloor>q\<rfloor> :: u64) < 2 ^ 24" by (metis linorder_not_less of_nat_less_iff of_nat_numeral of_nat_power uint_nat)
  then have "CheckBits kTimeBits (word_of_int \<lfloor>q\<rfloor> :: u64) = Inl CheckFailed"
    by (simp add: CheckBits_def kTimeBits_def InvalidBits_zero)
  then have "ToFalconTimeUnits E (Finite n) = Inl CheckFailed" using u t(1) by (simp add: ToFalconTimeUnits_def e r q_def [symmetric])
  moreover have "GetNumEvents s \<noteq> 0"
  proof -
    have "unat (GetNumEvents s) = length (ru_event_queue s)" using assms(6) by (simp add: GetNumEvents_def unsigned_of_nat take_bit_nat_eq_self)
    then show ?thesis using assms(5) by (metis length_0_conv unsigned_0)
  qed
  ultimately show ?thesis using assms(4) by (simp add: ProcessNextEvent_def)
qed

theorem rue_clock_overflow_aborts_witness:
  "ProcessNextEvent example_rue_env swift_process (Finite 2200000000) 0
     ((rue_new (parameters_of example_config 20 (- 5 / 4), Map.empty) (FixedLatencyGenerator (Finite 200)))\<lparr>ru_queue_scheduled := True, ru_event_queue := [example_event kRueAck]\<rparr>) = Inl CheckFailed"
  by (rule rue_clock_overflow_aborts) (simp_all add: units_ok_def example_rue_env_def rue_new_def)

end
