(* ===== verification/Rate_Update_Config.thy ===== *)
theory Rate_Update_Config
  imports Rate_Update_Runs
begin

text \<open>
  How the rate update engine is set up: the constructor of \<^verbatim>\<open>gen1/rate_update_engine.cc\<close>, the default configuration of
  Swift (\<^verbatim>\<open>rue/algorithm/swift.cc\<close>) and the default configuration of the engine
  (\<^verbatim>\<open>common/default_config_generator.cc\<close>). The defaults are accepted, so that what \<open>Rate_Update_Runs\<close> shows holds for them.
\<close>

section \<open>Configurations\<close>

text \<open>The message \<^verbatim>\<open>FalconConfig.Rue\<close>; a field whose presence the code asks for is an option.\<close>

record rue_swift_config =
  rs_randomize_path :: "bool option"
  rs_plb_target_rtt_multiplier :: "real option"
  rs_plb_congestion_threshold :: "real option"
  rs_plb_attempt_threshold :: "u32 option"
  rs_target_rx_buffer_level :: "u32 option"
  rs_max_flow_scaling :: "u32 option"
  rs_max_decrease_on_eack_nack_drop :: "bool option"
  rs_max_fcwnd :: "u32 option"
  rs_max_ncwnd :: "u32 option"
  rs_fabric_additive_increment_factor :: "real option"

datatype latency_model =
    kFixedLatencyModel u64
  | kGaussianLatencyModel u64 u64 u64
  | kBurstLatencyModel u32 u64 u64

record rue_config =
  rc_algorithm :: string
  rc_falcon_latency_ns :: u64
  rc_falcon_unit_time_ns :: real
  rc_tw_unit_time_ns :: u64
  rc_initial_fcwnd :: "u32 option"
  rc_initial_ncwnd :: "u32 option"
  rc_initial_retransmit_timeout_ns :: "u64 option"
  rc_delay_select :: "delay_select option"
  rc_base_delay_us :: "u32 option"
  rc_swift :: "rue_swift_config option"
  rc_event_queue_size :: u64
  rc_event_queue_threshold_1 :: u64
  rc_event_queue_threshold_2 :: u64
  rc_event_queue_threshold_3 :: u64
  rc_predicate_1_time_threshold_ns :: u64
  rc_predicate_2_packet_count_threshold :: u64
  rc_latency_model :: "latency_model option"

text \<open>\<^verbatim>\<open>absl::Nanoseconds\<close> and \<^verbatim>\<open>absl::Microseconds\<close> of an integer.\<close>

definition Nanoseconds :: "u64 \<Rightarrow> duration" where
  "Nanoseconds n = Finite (sint n)"

definition Microseconds :: "u32 \<Rightarrow> duration" where
  "Microseconds n = Finite (uint n * 1000)"

definition GetRueProcessingLatencyGenerator :: "rue_config \<Rightarrow> status + latency_generator" where
  "GetRueProcessingLatencyGenerator rue =
     (case rc_latency_model rue of
        Some (kGaussianLatencyModel mean stddev mn) \<Rightarrow> Inr (GaussianLatencyGenerator (of_int (sint mn)))
      | Some (kBurstLatencyModel interval base burst) \<Rightarrow> Inr (BurstLatencyGenerator interval (Nanoseconds base) (Nanoseconds burst) 0)
      | Some (kFixedLatencyModel latency) \<Rightarrow> Inr (FixedLatencyGenerator (Nanoseconds latency))
      | None \<Rightarrow> Inl NotFoundError)"

text \<open>\<^verbatim>\<open>Swift::DefaultConfiguration\<close>: a decimal literal is the double next to it.\<close>

definition kFalconUnitTimeUs :: real where
  "kFalconUnitTimeUs = double_round (131072 / 1000000)"

definition kTimingWheelUnitTimeUs :: real where
  "kTimingWheelUnitTimeUs = double_round (512 / 1000)"

definition default_ipg_bits :: int where
  "default_ipg_bits = min 20 (min 16 (trunc (of_int \<lfloor>double_round (log 2 (double_round (512000 / kTimingWheelUnitTimeUs)))\<rfloor>)))"

definition default_swift :: "u32 \<Rightarrow> u32 \<Rightarrow> u32 \<Rightarrow> swift_configuration" where
  "default_swift per_hop min_rto flow_scaling =
     \<lparr>sc_max_fabric_congestion_window = 256, sc_min_fabric_congestion_window = double_round (1 / 100),
      sc_fabric_additive_increment_factor = 1, sc_fabric_multiplicative_decrease_factor = double_round (8 / 10),
      sc_max_fabric_multiplicative_decrease = 1 / 2, sc_max_decrease_on_eack_nack_drop = False,
      sc_fabric_base_delay = Some 191, sc_max_nic_congestion_window = 256, sc_min_nic_congestion_window = 1,
      sc_nic_additive_increment_factor = 1, sc_nic_multiplicative_decrease_factor = double_round (8 / 10),
      sc_max_nic_multiplicative_decrease = 1 / 2, sc_target_rx_buffer_level = 15, sc_rtt_smoothing_alpha = 3 / 4,
      sc_delay_smoothing_alpha = 0, sc_topo_scaling_per_hop = per_hop, sc_min_retransmit_timeout = min_rto,
      sc_retransmit_timeout_scalar = 2, sc_retransmit_limit = 3, sc_min_flow_scaling_window = double_round (1 / 10),
      sc_max_flow_scaling_window = 256, sc_max_flow_scaling = flow_scaling, sc_calc_rtt_smooth = False,
      sc_ipg_time_scalar = double_round (kFalconUnitTimeUs / kTimingWheelUnitTimeUs),
      sc_ipg_bits = word_of_int default_ipg_bits, sc_randomize_path = False,
      sc_plb_target_rtt_multiplier = double_round (101 / 100), sc_plb_congestion_threshold = 1 / 2,
      sc_plb_attempt_threshold = 5, sc_backpressure_alpha = Some (1 / 8),
      sc_backpressure_retransmit_alpha = Some (1 / 16)\<rparr>"

definition DefaultConfiguration :: "swift_configuration res" where
  "DefaultConfiguration =
     res_bind (to_unsigned (std_round (double_round (1 / kFalconUnitTimeUs)))) (\<lambda>per_hop.
     res_bind (to_unsigned (std_round (double_round (250 / kFalconUnitTimeUs)))) (\<lambda>min_rto.
     res_bind (to_unsigned (std_round (double_round (100 / kFalconUnitTimeUs)))) (\<lambda>flow_scaling.
       Inr (default_swift per_hop min_rto flow_scaling))))"

definition DefaultRue :: "rue_config res" where
  "DefaultRue = res_bind DefaultConfiguration (\<lambda>c.
     res_bind (to_unsigned (sc_max_fabric_congestion_window c)) (\<lambda>max_fcwnd.
     res_bind (to_unsigned (sc_max_nic_congestion_window c)) (\<lambda>max_ncwnd.
     Inr \<lparr>rc_algorithm = ''swift'', rc_falcon_latency_ns = 234, rc_falcon_unit_time_ns = double_round (131072 / 1000),
          rc_tw_unit_time_ns = 512, rc_initial_fcwnd = Some 32, rc_initial_ncwnd = Some 64,
          rc_initial_retransmit_timeout_ns = Some 1000000, rc_delay_select = Some kFabric, rc_base_delay_us = Some 25,
          rc_swift = Some \<lparr>rs_randomize_path = Some (sc_randomize_path c),
            rs_plb_target_rtt_multiplier = Some (sc_plb_target_rtt_multiplier c),
            rs_plb_congestion_threshold = Some (sc_plb_congestion_threshold c),
            rs_plb_attempt_threshold = Some (sc_plb_attempt_threshold c),
            rs_target_rx_buffer_level = Some (sc_target_rx_buffer_level c),
            rs_max_flow_scaling = Some (sc_max_flow_scaling c),
            rs_max_decrease_on_eack_nack_drop = Some (sc_max_decrease_on_eack_nack_drop c),
            rs_max_fcwnd = Some max_fcwnd, rs_max_ncwnd = Some max_ncwnd,
            rs_fabric_additive_increment_factor = Some (sc_fabric_additive_increment_factor c)\<rparr>,
          rc_event_queue_size = 65536, rc_event_queue_threshold_1 = 65536, rc_event_queue_threshold_2 = 65536,
          rc_event_queue_threshold_3 = 65536, rc_predicate_1_time_threshold_ns = 131 * 1024,
          rc_predicate_2_packet_count_threshold = 512, rc_latency_model = Some (kFixedLatencyModel 66)\<rparr>)))"

section \<open>The constructor\<close>

definition given :: "'a option \<Rightarrow> 'a \<Rightarrow> 'a" where
  "given new old = (case new of Some x \<Rightarrow> x | None \<Rightarrow> old)"

text \<open>The members of the engine.\<close>

definition kDefaultFabricCongestionWindow :: "u32 res" where
  "kDefaultFabricCongestionWindow = FloatToFixed 32 10"

definition engine_members :: "(real \<Rightarrow> duration) \<Rightarrow> bool \<Rightarrow> rue_config \<Rightarrow> rue_env res" where
  "engine_members nanoseconds cc_metrics rue =
     res_bind (case rc_initial_fcwnd rue of Some w \<Rightarrow> FloatToFixed (real (unat w)) 10 | None \<Rightarrow> kDefaultFabricCongestionWindow) (\<lambda>fcwnd.
     let E = \<lparr>ue_nanoseconds = nanoseconds, ue_falcon_unit = rc_falcon_unit_time_ns rue, ue_tw_unit = rc_tw_unit_time_ns rue,
              ue_initial_fcwnd = fcwnd, ue_initial_ncwnd = given (rc_initial_ncwnd rue) 64,
              ue_retransmission_timeout = ZeroDuration, ue_delay_select = given (rc_delay_select rue) kFabric,
              ue_randomize_path = (case rc_swift rue of Some sw \<Rightarrow> given (rs_randomize_path sw) False | None \<Rightarrow> False),
              ue_falcon_latency = Nanoseconds (rc_falcon_latency_ns rue), ue_event_queue_size = rc_event_queue_size rue,
              ue_event_queue_threshold_1 = rc_event_queue_threshold_1 rue,
              ue_event_queue_threshold_2 = rc_event_queue_threshold_2 rue,
              ue_event_queue_threshold_3 = rc_event_queue_threshold_3 rue,
              ue_predicate_1_time_threshold = Nanoseconds (rc_predicate_1_time_threshold_ns rue),
              ue_predicate_2_packet_count_threshold = ucast (rc_predicate_2_packet_count_threshold rue),
              ue_cc_metrics = cc_metrics\<rparr> in
     res_bind (ToFalconTimeUnits E (Nanoseconds (given (rc_initial_retransmit_timeout_ns rue) 1000000))) (\<lambda>units.
       Inr (E\<lparr>ue_retransmission_timeout := FromFalconTimeUnits E units\<rparr>)))"

text \<open>
  The configuration of Swift: the defaults, overridden where the engine's configuration has a value. A timing wheel unit of
  zero, by which the time conversions divide later, is undefined behaviour here. The seed of the flow labels is left out.
\<close>

definition swift_overrides :: "rue_env \<Rightarrow> rue_config \<Rightarrow> rue_swift_config \<Rightarrow> swift_configuration \<Rightarrow> swift_configuration res" where
  "swift_overrides E rue sw c =
     (if rc_tw_unit_time_ns rue = 0 then Inl UndefinedBehaviour else
     res_bind (case rc_initial_retransmit_timeout_ns rue of
         Some n \<Rightarrow> to_unsigned (std_round (double_round (double_round (real (unat n)) / rc_falcon_unit_time_ns rue)))
       | None \<Rightarrow> Inr (sc_min_retransmit_timeout c)) (\<lambda>min_rto.
     res_bind (case rc_base_delay_us rue of
         Some n \<Rightarrow> res_bind (ToFalconTimeUnits E (Microseconds n)) (\<lambda>d. Inr (Some d))
       | None \<Rightarrow> Inr (sc_fabric_base_delay c)) (\<lambda>base_delay.
     let max_fcwnd = (case rs_max_fcwnd sw of Some w \<Rightarrow> real (unat w) | None \<Rightarrow> 1024) in
     Inr (c\<lparr>sc_max_fabric_congestion_window := max_fcwnd,
            sc_max_nic_congestion_window := (case rs_max_ncwnd sw of Some w \<Rightarrow> real (unat w) | None \<Rightarrow> 1024),
            sc_min_retransmit_timeout := min_rto,
            sc_randomize_path := given (rs_randomize_path sw) (sc_randomize_path c),
            sc_fabric_base_delay := base_delay,
            sc_plb_target_rtt_multiplier := given (rs_plb_target_rtt_multiplier sw) (sc_plb_target_rtt_multiplier c),
            sc_plb_congestion_threshold := given (rs_plb_congestion_threshold sw) (sc_plb_congestion_threshold c),
            sc_plb_attempt_threshold := given (rs_plb_attempt_threshold sw) (sc_plb_attempt_threshold c),
            sc_target_rx_buffer_level := given (rs_target_rx_buffer_level sw) (sc_target_rx_buffer_level c),
            sc_max_flow_scaling := given (rs_max_flow_scaling sw) (sc_max_flow_scaling c),
            sc_max_decrease_on_eack_nack_drop := given (rs_max_decrease_on_eack_nack_drop sw) (sc_max_decrease_on_eack_nack_drop c),
            sc_fabric_additive_increment_factor := given (rs_fabric_additive_increment_factor sw) (sc_fabric_additive_increment_factor c),
            sc_ipg_time_scalar := double_round (rc_falcon_unit_time_ns rue / double_round (real (unat (rc_tw_unit_time_ns rue)))),
            sc_max_flow_scaling_window := max_fcwnd\<rparr>))))"

text \<open>
  The engine with its members, the parameters of its Swift and its latency generator, and the configuration of Swift that
  was accepted.
\<close>

definition ProtocolRateUpdateEngine_new ::
  "(real \<Rightarrow> duration) \<Rightarrow> bool \<Rightarrow> rue_config \<Rightarrow> (rue_env \<times> swift_configuration \<times> swift_parameters \<times> latency_generator) res" where
  "ProtocolRateUpdateEngine_new nanoseconds cc_metrics rue =
     res_bind (engine_members nanoseconds cc_metrics rue) (\<lambda>E.
     case GetRueProcessingLatencyGenerator rue of
       Inl st \<Rightarrow> Inl CheckFailed
     | Inr g \<Rightarrow>
         if rc_algorithm rue \<noteq> ''swift'' then Inl LogFatal
         else res_bind DefaultConfiguration (\<lambda>c.
           case rc_swift rue of
             None \<Rightarrow> Inl CheckFailed
           | Some sw \<Rightarrow>
               res_bind (swift_overrides E rue sw c) (\<lambda>c.
               res_bind (ConvertProfileToParameters double_round c) (\<lambda>r.
                 case r of Inl st \<Rightarrow> Inl CheckFailed | Inr p \<Rightarrow> Inr (E, c, p, g)))))"

section \<open>The defaults are accepted\<close>

lemma double_between: "real lo \<le> x * 2 ^ k \<Longrightarrow> x * 2 ^ k \<le> real hi \<Longrightarrow> lo \<le> 2 ^ 53 \<Longrightarrow> hi \<le> 2 ^ 53 \<Longrightarrow>
  real lo / 2 ^ k \<le> double_round x \<and> double_round x \<le> real hi / 2 ^ k"
  using dbl.mono [of "real lo / 2 ^ k" x] dbl.mono [of x "real hi / 2 ^ k"] dbl.exact [of "int lo" k] dbl.exact [of "int hi" k]
  by (simp add: divide_le_eq le_divide_eq)

text \<open>A number between two natural numbers stays between them when it is rounded and converted.\<close>

lemma rounded_word:
  assumes "real lo \<le> x" "x \<le> real hi" "hi < 2 ^ 32"
  obtains w :: u32 where "to_unsigned (std_round (double_round x)) = Inr w" "lo \<le> unat w" "unat w \<le> hi"
proof -
  have "x \<le> real_of_int (int hi)" "real_of_int (int lo) \<le> x" using assms by simp_all
  moreover have lohi: "lo \<le> hi" using order_trans [OF assms(1,2)] by simp
  then have "\<bar>int hi\<bar> \<le> 2 ^ 53" "\<bar>int lo\<bar> \<le> 2 ^ 53" using assms(3) by simp_all
  ultimately have d: "real lo \<le> double_round x" "double_round x \<le> real hi"
    using dbl.le_int [of x "int hi"] dbl.ge_int [of "int lo" x] by simp_all
  have "0 \<le> double_round x" using d(1) by linarith
  note y = std_round_ge [OF d(1)] std_round_le [OF this d(2)]
  have "0 \<le> std_round (double_round x)" "std_round (double_round x) < 2 ^ LENGTH(32)"
    using y assms(3) by (simp_all add: std_round_nonneg \<open>0 \<le> double_round x\<close>)
  note t = to_unsigned_total [OF this]
  let ?w = "word_of_int \<lfloor>std_round (double_round x)\<rfloor> :: u32"
  have "int lo \<le> uint ?w" "uint ?w \<le> int hi" using floor_mono [OF y(1)] floor_mono [OF y(2)] by (simp_all only: t(2) floor_of_nat)
  then have "lo \<le> unat ?w" "unat ?w \<le> hi" by (simp_all add: uint_nat)
  with t(1) that show thesis by blast
qed

lemma unit_bounds:
  "131 \<le> double_round (131072 / 1000)" "double_round (131072 / 1000) \<le> 132"
  "1 / 8 \<le> kFalconUnitTimeUs" "kFalconUnitTimeUs \<le> 1 / 4" "1 / 2 \<le> kTimingWheelUnitTimeUs" "kTimingWheelUnitTimeUs \<le> 1"
  "1 / 128 \<le> double_round (1 / 100)" "double_round (1 / 100) \<le> 1 / 64"
  "1 / 16 \<le> double_round (1 / 10)" "double_round (1 / 10) \<le> 1 / 8"
  "1 / 2 \<le> double_round (8 / 10)" "double_round (8 / 10) \<le> 7 / 8"
  using double_between [of 131 "131072 / 1000" 0 132] double_between [of 1 "131072 / 1000000" 3 2]
    double_between [of 1 "512 / 1000" 1 2] double_between [of 1 "1 / 100" 7 2]
    double_between [of 1 "1 / 10" 4 2] double_between [of 4 "8 / 10" 3 7]
  by (simp_all add: kFalconUnitTimeUs_def kTimingWheelUnitTimeUs_def)

lemma default_ipg_bits: "default_ipg_bits = 16"
proof -
  have "512000 \<le> 512000 / kTimingWheelUnitTimeUs" using unit_bounds(5,6) by (simp add: le_divide_eq)
  then have "real_of_int 512000 \<le> double_round (512000 / kTimingWheelUnitTimeUs)" by (intro dbl.ge_int) simp_all
  then have "2 ^ 16 \<le> double_round (512000 / kTimingWheelUnitTimeUs)" by simp
  then have "log 2 (2 ^ 16) \<le> log 2 (double_round (512000 / kTimingWheelUnitTimeUs))" by (rule log_mono [rotated 2]) simp_all
  moreover have "log 2 (2 ^ 16) = real_of_int 16" using log_pow_cancel [of 2 16] by simp
  ultimately have "real_of_int 16 \<le> log 2 (double_round (512000 / kTimingWheelUnitTimeUs))" by simp
  then have "real_of_int 16 \<le> double_round (log 2 (double_round (512000 / kTimingWheelUnitTimeUs)))" by (rule dbl.ge_int) simp
  then have "16 \<le> \<lfloor>double_round (log 2 (double_round (512000 / kTimingWheelUnitTimeUs)))\<rfloor>" by (simp add: le_floor_iff)
  then show ?thesis by (simp add: default_ipg_bits_def trunc_def)
qed

lemma default_configuration:
  obtains h m f where "DefaultConfiguration = Inr (default_swift h m f)" "h \<noteq> 0" "h \<le> 8" "400 \<le> unat f" "unat f \<le> 800"
proof -
  have k: "0 < kFalconUnitTimeUs" using unit_bounds(3) by simp
  note b = unit_bounds(3,4)
  obtain h :: u32 where h: "to_unsigned (std_round (double_round (1 / kFalconUnitTimeUs))) = Inr h" "4 \<le> unat h" "unat h \<le> 8"
    using rounded_word [of 4 "1 / kFalconUnitTimeUs" 8] k b by (auto simp: field_simps)
  obtain m :: u32 where m: "to_unsigned (std_round (double_round (250 / kFalconUnitTimeUs))) = Inr m"
    using rounded_word [of 1000 "250 / kFalconUnitTimeUs" 2000] k b by (auto simp: field_simps)
  obtain f :: u32 where f: "to_unsigned (std_round (double_round (100 / kFalconUnitTimeUs))) = Inr f" "400 \<le> unat f" "unat f \<le> 800"
    using rounded_word [of 400 "100 / kFalconUnitTimeUs" 800] k b by (auto simp: field_simps)
  have "h \<noteq> 0" "h \<le> 8" using h(2,3) by (auto simp: word_le_nat_alt)
  with h m f show thesis using that by (simp add: DefaultConfiguration_def)
qed

lemma default_scaling:
  assumes "400 \<le> unat f" "unat f \<le> 800"
  obtains alpha where "CalculateFlowScalingAlpha double_round f (double_round (1 / 10)) 256 = Inr (Inr alpha)" "0 \<le> alpha" "alpha \<le> 800"
proof -
  let ?w = "double_round (1 / 10)"
  have r16: "double_round 16 = 16" using dbl.exact_int [of 16] by simp
  have s4: "sqrt (1 / 16) = (1 / 4 :: real)" "sqrt (1 / 4) = (1 / 2 :: real)" by (simp_all add: real_sqrt_unique real_sqrt_divide)
  have "1 / 4 \<le> sqrt ?w" "sqrt ?w \<le> 1 / 2"
    using real_sqrt_le_mono [OF unit_bounds(9)] real_sqrt_le_mono [of ?w "1 / 4"] unit_bounds(10) unfolding s4 by simp_all
  then have sw: "1 / 4 \<le> double_round (sqrt ?w)" "double_round (sqrt ?w) \<le> 1 / 2"
    using double_between [of 1 "sqrt ?w" 2 2] by simp_all
  have "2 \<le> 1 / double_round (sqrt ?w)" "1 / double_round (sqrt ?w) \<le> 4" using sw by (simp_all add: field_simps)
  then have "2 \<le> double_round (1 / double_round (sqrt ?w))" using double_between [of 2 "1 / double_round (sqrt ?w)" 0 4] by simp
  moreover have "double_round (1 / 16) = 1 / 16" using dbl.exact [of 1 4] by simp
  ultimately have "real_of_int 1 \<le> double_round (1 / double_round (sqrt ?w)) - double_round (1 / 16)" by simp
  then have d: "1 \<le> double_round (double_round (1 / double_round (sqrt ?w)) - double_round (1 / 16))" (is "1 \<le> ?d")
    using dbl.ge_int [of 1] by simp
  have "int (unat f) < 2 ^ 31" using assms(2) by simp
  then have "uint f < 2 ^ 31" by (simp only: uint_nat)
  moreover have "- (2 ^ 31) \<le> uint f" by (rule order_trans [OF _ uint_ge_0]) simp
  ultimately have f: "sint f = int (unat f)" using signed_take_bit_int_eq_self [of 31 "uint f"] by (simp add: sint_uint uint_nat [symmetric] del: of_nat_unat)
  have "real (unat f) / ?d \<le> 800 / 1" using assms(2) d by (intro frac_le) auto
  moreover have "0 \<le> real (unat f) / ?d" using d by simp
  ultimately have "0 \<le> double_round (real (unat f) / ?d)" "double_round (real (unat f) / ?d) \<le> 800"
    using dbl.nonneg dbl.le_int [of _ 800] by simp_all
  then show thesis using that d f unit_bounds(9,10)
    by (simp add: CalculateFlowScalingAlpha_def Let_def r16)
qed

lemma ToFalconTimeUnits_result:
  assumes "ToFalconTimeUnits E (Finite n) = Inr u"
  shows "unat u < 2 ^ 24" "1 \<le> double_round (double_round (real (unat (to_ns (Finite n)))) / ue_falcon_unit E) \<Longrightarrow> u \<noteq> 0"
proof -
  let ?q = "double_round (double_round (real (unat (to_ns (Finite n)))) / ue_falcon_unit E)"
  from assms obtain w :: u64 where w: "to_unsigned ?q = Inr w" "CheckBits kTimeBits w = Inr ()" "u = ucast w"
    by (auto simp: ToFalconTimeUnits_def res_simps split: if_split_asm)
  have small: "unat w < 2 ^ 24" using w(2) by (simp add: CheckBits_ok kTimeBits_def)
  then have u: "unat u = unat w" unfolding w(3) by (intro unat_ucast_small) simp
  with small show "unat u < 2 ^ 24" by simp
  assume "1 \<le> ?q"
  then have "1 \<le> trunc ?q" by (simp add: trunc_def le_floor_iff)
  moreover have "0 \<le> trunc ?q" "trunc ?q < 2 ^ 64" "w = word_of_int (trunc ?q)"
    using w(1) by (auto simp: to_unsigned_def split: if_split_asm)
  then have "unat w = nat (trunc ?q)" by (simp add: unat_word_of_int)
  ultimately show "u \<noteq> 0" using u by auto
qed

lemma default_base_delay:
  assumes "units_ok E" "ue_falcon_unit E = double_round (131072 / 1000)"
  obtains d where "ToFalconTimeUnits E (Finite 25000) = Inr d" "d \<noteq> 0"
proof -
  have "time_ok E (Finite 25000)" using assms(2) unit_bounds(1) by (simp add: time_ok_def)
  from ToFalconTimeUnits_ok [OF assms(1) this] obtain d where d: "ToFalconTimeUnits E (Finite 25000) = Inr d" by blast
  have n: "double_round (real (unat (to_ns (Finite 25000)))) = 25000"
    using to_ns_small [of 25000] dbl.exact_int [of 25000] by simp
  have "real_of_int 1 \<le> 25000 / ue_falcon_unit E" using assms(2) unit_bounds(1,2) by (simp add: le_divide_eq)
  then have "real_of_int 1 \<le> double_round (25000 / ue_falcon_unit E)" by (rule dbl.ge_int) simp
  with ToFalconTimeUnits_result(2) [OF d] d n that show thesis by simp
qed

text \<open>The configuration the constructor hands to Swift.\<close>

definition default_engine_swift :: "u32 \<Rightarrow> u32 \<Rightarrow> u32 \<Rightarrow> u32 \<Rightarrow> real \<Rightarrow> swift_configuration" where
  "default_engine_swift h m f d s =
     (default_swift h m f)\<lparr>sc_fabric_base_delay := Some d, sc_ipg_time_scalar := s\<rparr>"

lemma default_accepted:
  assumes "h \<noteq> 0" "h \<le> 8" "400 \<le> unat f" "unat f \<le> 800" "m \<noteq> 0" "d \<noteq> 0" "1 / 4 \<le> s"
  obtains alpha where "ConvertProfileToParameters double_round (default_engine_swift h m f d s) =
    Inr (Inr (parameters_of (default_engine_swift h m f d s) alpha (double_round (- alpha / double_round (sqrt 256)))))"
    "0 \<le> alpha" "alpha \<le> 800"
proof -
  let ?c = "default_engine_swift h m f d s"
  note b = unit_bounds(7-12)
  have "valid_windows ?c"
    using b by (simp add: valid_windows_def default_engine_swift_def default_swift_def window_constants ValidateNicCongestionWindowBounds_def)
  moreover have "valid_timing ?c"
  proof -
    have "h \<le> (ValidMask 12 :: u32)" using assms(2) by (rule order_trans) (simp add: ValidMask_def)
    then show ?thesis using assms by (simp add: valid_timing_def default_engine_swift_def default_swift_def)
  qed
  moreover have "valid_rest ?c"
    using assms by (simp add: valid_rest_def default_engine_swift_def default_swift_def default_ipg_bits kMaxPlbAttemptCount_def
        ValidMask_def ValidateDelayStateConfig_def valid_alpha_def)
  moreover obtain alpha where a: "CalculateFlowScalingAlpha double_round f (double_round (1 / 10)) 256 = Inr (Inr alpha)" "0 \<le> alpha" "alpha \<le> 800"
    by (rule default_scaling [OF assms(3,4)])
  moreover have "sc_max_flow_scaling ?c = f" "sc_min_flow_scaling_window ?c = double_round (1 / 10)" "sc_max_flow_scaling_window ?c = 256"
    "sc_max_fabric_congestion_window ?c = 256" by (simp_all add: default_engine_swift_def default_swift_def)
  ultimately have "ConvertProfileToParameters double_round ?c =
      Inr (Inr (parameters_of ?c alpha (double_round (- alpha / double_round (sqrt 256)))))"
    by (simp add: ConvertProfileToParameters_def CalculateFlowScalingBeta_def)
  with a(2,3) that show thesis by blast
qed

text \<open>The members of the engine in the default configuration.\<close>

lemma time_ok_rto: "time_ok (E\<lparr>ue_retransmission_timeout := x\<rparr>) d = time_ok E d"
  by (cases d) (simp_all add: time_ok_def)

lemma default_members:
  assumes "double_nanoseconds ns" and rue: "DefaultRue = Inr rue"
  obtains E where "engine_members ns metrics rue = Inr E" "env_ok E" "ue_falcon_unit E = double_round (131072 / 1000)"
    "ue_initial_fcwnd E = 32768"
proof -
  obtain h m f where c: "DefaultConfiguration = Inr (default_swift h m f)" by (rule default_configuration)
  have f: "rc_falcon_unit_time_ns rue = double_round (131072 / 1000)" "rc_tw_unit_time_ns rue = 512" "rc_initial_fcwnd rue = Some 32"
    "rc_initial_retransmit_timeout_ns rue = Some 1000000" "rc_falcon_latency_ns rue = 234"
    using rue c by (auto simp: DefaultRue_def res_simps)
  have w: "(FloatToFixed 32 10 :: u32 res) = Inr 32768" by (simp add: FloatToFixed_def std_round_def to_unsigned_def trunc_def)
  define E where "E = \<lparr>ue_nanoseconds = ns, ue_falcon_unit = rc_falcon_unit_time_ns rue, ue_tw_unit = rc_tw_unit_time_ns rue,
      ue_initial_fcwnd = 32768, ue_initial_ncwnd = given (rc_initial_ncwnd rue) 64,
      ue_retransmission_timeout = ZeroDuration, ue_delay_select = given (rc_delay_select rue) kFabric,
      ue_randomize_path = (case rc_swift rue of Some sw \<Rightarrow> given (rs_randomize_path sw) False | None \<Rightarrow> False),
      ue_falcon_latency = Nanoseconds (rc_falcon_latency_ns rue), ue_event_queue_size = rc_event_queue_size rue,
      ue_event_queue_threshold_1 = rc_event_queue_threshold_1 rue,
      ue_event_queue_threshold_2 = rc_event_queue_threshold_2 rue,
      ue_event_queue_threshold_3 = rc_event_queue_threshold_3 rue,
      ue_predicate_1_time_threshold = Nanoseconds (rc_predicate_1_time_threshold_ns rue),
      ue_predicate_2_packet_count_threshold = ucast (rc_predicate_2_packet_count_threshold rue),
      ue_cc_metrics = metrics\<rparr>"
  have u: "units_ok E" using unit_bounds(1,2) f by (simp add: units_ok_def E_def)
  have "time_ok E (Finite 1000000)" using unit_bounds(1) f by (simp add: time_ok_def E_def)
  from ToFalconTimeUnits_ok [OF u this] obtain t where t: "ToFalconTimeUnits E (Finite 1000000) = Inr t" by blast
  let ?E = "E\<lparr>ue_retransmission_timeout := FromFalconTimeUnits E t\<rparr>"
  have n: "Nanoseconds 1000000 = Finite 1000000" "Nanoseconds 234 = Finite 234" by (simp_all add: Nanoseconds_def)
  have "engine_members ns metrics rue = Inr ?E"
    using t by (simp add: engine_members_def f w n given_def Let_def E_def)
  note members = this
  have "t = ucast (ucast t :: 24 word)" using ucast_ucast_small [OF ToFalconTimeUnits_result(1) [OF t]] by simp
  then have "time_ok E (FromFalconTimeUnits E t)"
    using FromFalconTimeUnits_ok [OF u, of "ucast t"] assms(1) by (simp add: E_def)
  moreover have "ue_nanoseconds E = ns" "ue_falcon_latency E = Finite 234" "ue_falcon_unit E = double_round (131072 / 1000)"
    using f n by (simp_all add: E_def)
  ultimately have "env_ok ?E" using u assms(1) unit_bounds(1) by (simp add: env_ok_def units_ok_def time_ok_rto)
  with members show thesis by (rule that) (simp_all add: E_def f)
qed

lemma default_rue:
  assumes "DefaultConfiguration = Inr (default_swift h m f)"
  shows "\<exists>rue. DefaultRue = Inr rue"
    "DefaultRue = Inr rue \<Longrightarrow> rc_algorithm rue = ''swift'' \<and> rc_tw_unit_time_ns rue = 512 \<and>
      rc_falcon_unit_time_ns rue = double_round (131072 / 1000) \<and> rc_initial_retransmit_timeout_ns rue = Some 1000000 \<and>
      rc_base_delay_us rue = Some 25 \<and> rc_latency_model rue = Some (kFixedLatencyModel 66) \<and>
      rc_swift rue = Some \<lparr>rs_randomize_path = Some False, rs_plb_target_rtt_multiplier = Some (double_round (101 / 100)),
         rs_plb_congestion_threshold = Some (1 / 2), rs_plb_attempt_threshold = Some 5, rs_target_rx_buffer_level = Some 15,
         rs_max_flow_scaling = Some f, rs_max_decrease_on_eack_nack_drop = Some False, rs_max_fcwnd = Some 256,
         rs_max_ncwnd = Some 256, rs_fabric_additive_increment_factor = Some 1\<rparr>"
proof -
  have w: "(to_unsigned 256 :: u32 res) = Inr 256" by (simp add: to_unsigned_def trunc_def)
  then show "\<exists>rue. DefaultRue = Inr rue" by (simp add: DefaultRue_def assms) (simp add: default_swift_def)
  assume "DefaultRue = Inr rue"
  then show "rc_algorithm rue = ''swift'' \<and> rc_tw_unit_time_ns rue = 512 \<and>
      rc_falcon_unit_time_ns rue = double_round (131072 / 1000) \<and> rc_initial_retransmit_timeout_ns rue = Some 1000000 \<and>
      rc_base_delay_us rue = Some 25 \<and> rc_latency_model rue = Some (kFixedLatencyModel 66) \<and>
      rc_swift rue = Some \<lparr>rs_randomize_path = Some False, rs_plb_target_rtt_multiplier = Some (double_round (101 / 100)),
         rs_plb_congestion_threshold = Some (1 / 2), rs_plb_attempt_threshold = Some 5, rs_target_rx_buffer_level = Some 15,
         rs_max_flow_scaling = Some f, rs_max_decrease_on_eack_nack_drop = Some False, rs_max_fcwnd = Some 256,
         rs_max_ncwnd = Some 256, rs_fabric_additive_increment_factor = Some 1\<rparr>"
    using w by (auto simp: DefaultRue_def assms default_swift_def res_simps)
qed

lemma default_overrides:
  assumes u: "units_ok E" "ue_falcon_unit E = double_round (131072 / 1000)"
    and c: "DefaultConfiguration = Inr (default_swift h m f)" and rue: "DefaultRue = Inr rue" "rc_swift rue = Some sw"
  obtains m' d s where "swift_overrides E rue sw (default_swift h m f) = Inr (default_engine_swift h m' f d s)"
    "m' \<noteq> 0" "unat m' \<le> 8000" "d \<noteq> 0" "1 / 4 \<le> s" "s \<le> 1"
proof -
  let ?u = "double_round (131072 / 1000)"
  note b = unit_bounds(1,2)
  have r: "double_round 1000000 = 1000000" "double_round 512 = 512" using dbl.exact_int [of 1000000] dbl.exact_int [of 512] by simp_all
  obtain m' :: u32 where m': "to_unsigned (std_round (double_round (1000000 / ?u))) = Inr m'" "7000 \<le> unat m'" "unat m' \<le> 8000"
    using rounded_word [of 7000 "1000000 / ?u" 8000] b by (auto simp: field_simps)
  obtain d where d: "ToFalconTimeUnits E (Finite 25000) = Inr d" "d \<noteq> 0" by (rule default_base_delay [OF u])
  let ?s = "double_round (?u / 512)"
  have s: "1 / 4 \<le> ?s" "?s \<le> 1" using double_between [of 1 "?u / 512" 2 4] b by simp_all
  have "swift_overrides E rue sw (default_swift h m f) = Inr (default_engine_swift h m' f d ?s)"
    using default_rue(2) [OF c rue(1)] rue(2) m'(1) d(1) r
    by (auto simp: swift_overrides_def Microseconds_def given_def Let_def default_engine_swift_def default_swift_def)
  moreover have "m' \<noteq> 0" using m'(2) by auto
  ultimately show thesis using that m'(3) d(2) s by blast
qed

text \<open>
  C19. The default configuration works: from the defaults of the configuration generator the constructor of the rate
  update engine succeeds, Swift accepts the configuration derived from them, and the engine meets the conditions
  under which it never aborts. This holds for any conversion of doubles to durations that is precise to a nanosecond.
\<close>

theorem default_engine_ok:
  assumes "double_nanoseconds ns"
  shows "\<exists>rue E c p g. DefaultRue = Inr rue \<and> ProtocolRateUpdateEngine_new ns metrics rue = Inr (E, c, p, g) \<and> engine_ok E c p g"
proof -
  obtain h m f where c: "DefaultConfiguration = Inr (default_swift h m f)" "h \<noteq> 0" "h \<le> 8" "400 \<le> unat f" "unat f \<le> 800"
    by (rule default_configuration)
  obtain rue where "DefaultRue = Inr rue" using default_rue(1) [OF c(1)] by blast
  with default_rue(2) [OF c(1)] obtain sw where rue: "DefaultRue = Inr rue" "rc_algorithm rue = ''swift''" "rc_swift rue = Some sw"
    "rc_latency_model rue = Some (kFixedLatencyModel 66)" by blast
  obtain E where E: "engine_members ns metrics rue = Inr E" "env_ok E" "ue_falcon_unit E = double_round (131072 / 1000)"
    "ue_initial_fcwnd E = 32768" by (rule default_members [OF assms rue(1)])
  have "units_ok E" using E(2) by (simp add: env_ok_def)
  then obtain m' d s where o: "swift_overrides E rue sw (default_swift h m f) = Inr (default_engine_swift h m' f d s)"
    "m' \<noteq> 0" "unat m' \<le> 8000" "d \<noteq> 0" "1 / 4 \<le> s" "s \<le> 1" by (rule default_overrides [OF _ E(3) c(1) rue(1,3)])
  let ?c = "default_engine_swift h m' f d s"
  obtain alpha where a: "ConvertProfileToParameters double_round ?c =
      Inr (Inr (parameters_of ?c alpha (double_round (- alpha / double_round (sqrt 256)))))" (is "_ = Inr (Inr ?p)") "0 \<le> alpha" "alpha \<le> 800"
    by (rule default_accepted [OF c(2-5) o(2,4,5)])
  let ?g = "FixedLatencyGenerator (Nanoseconds 66)"
  have "ProtocolRateUpdateEngine_new ns metrics rue = Inr (E, ?c, ?p, ?g)"
    by (simp add: ProtocolRateUpdateEngine_new_def GetRueProcessingLatencyGenerator_def E(1) rue c(1) o(1) a(1))
  moreover have "moderate ?p"
    using a(3) o(3,5,6) Ints_of_int [of "256 * 1024"]
    by (simp add: moderate_def parameters_of_def default_engine_swift_def default_swift_def)
  moreover have "window_ok ?p (ucast (ue_initial_fcwnd E))"
    by (simp add: window_ok_def parameters_of_def default_engine_swift_def default_swift_def E(4))
  moreover have "latency_ok ?g" by (simp add: Nanoseconds_def)
  ultimately show ?thesis using rue(1) E(2) a(1) by (auto simp: engine_ok_def)
qed

theorem default_engine_ok_witness:
  "\<exists>rue E c p g. DefaultRue = Inr rue \<and>
     ProtocolRateUpdateEngine_new (\<lambda>x. Finite (trunc x)) False rue = Inr (E, c, p, g) \<and> engine_ok E c p g"
  by (rule default_engine_ok [OF truncated_ns.double_nanoseconds_axioms])

end
