(* ===== verification/Reliability_Nack.thy ===== *)
theory Reliability_Nack
  imports Reliability_Windows
begin

text \<open>
  The loop of \<^verbatim>\<open>InitiateNackBasedEarlyRetransmission\<close> in \<^verbatim>\<open>packet_reliability_manager.cc\<close> does not advance
  past a packet that is acknowledged already. Here: which packets the sliding window layer keeps as outstanding, that
  none of them is acknowledged, and so that the handler of a NACK always returns.
\<close>

section \<open>Outstanding packets have a context\<close>

abbreviation outstanding :: "connection \<Rightarrow> bool \<Rightarrow> retransmission_work_id list" where
  "outstanding c r \<equiv> txw_outstanding_packets (tw c r)"

abbreviation contexts :: "connection \<Rightarrow> bool \<Rightarrow> u32 \<rightharpoonup> outstanding_packet_context" where
  "contexts c r \<equiv> txw_outstanding_packet_contexts (tw c r)"

definition tracked :: "connection \<Rightarrow> bool" where
  "tracked c \<longleftrightarrow> (\<forall>r. \<forall>w \<in> set (outstanding c r). wid_psn w \<in> dom (contexts c r))"

lemma wid_contains_psn: "wid_contains w ws \<longleftrightarrow> (\<exists>v \<in> set ws. wid_psn v = wid_psn w)"
  using Seq_equivalent by (auto simp: wid_contains_def wid_less_def list_ex_iff)

lemma wid_erase_psn: "wid_erase w ws = filter (\<lambda>v. wid_psn v \<noteq> wid_psn w) ws"
  using Seq_equivalent by (auto simp: wid_erase_def wid_less_def intro!: filter_cong)

text \<open>A step that changes neither the outstanding packets nor their contexts.\<close>

definition same_packets :: "connection \<Rightarrow> connection \<Rightarrow> bool" where
  "same_packets c c' \<longleftrightarrow> (\<forall>r. outstanding c' r = outstanding c r \<and> contexts c' r = contexts c r)"

lemma same_packets_tracked: "same_packets c c' \<Longrightarrow> tracked c' \<longleftrightarrow> tracked c"
  by (simp add: same_packets_def tracked_def)

lemma same_packets_refl [simp]: "same_packets c c"
  by (simp add: same_packets_def)

lemma same_packets_trans: "same_packets c c1 \<Longrightarrow> same_packets c1 c2 \<Longrightarrow> same_packets c c2"
  by (simp add: same_packets_def)

lemma same_packets_counters [simp]:
  "same_packets c (DecrementOutstandingRequestCount type c)"
  "same_packets c (DecrementOutstandingRetransmittedRequestCount type b c)"
  by (simp_all add: same_packets_def DecrementOutstandingRequestCount_def
      DecrementOutstandingRetransmittedRequestCount_def)

lemma ack_request_retransmitted_packets:
  "ack_request_retransmitted type t c = Inr c' \<Longrightarrow> same_packets c c'"
  by (auto simp: ack_request_retransmitted_def split: if_splits sum.split_asm)

lemma retx_DequeuePacket_packets: "retx_DequeuePacket rsn type c = Inr (st, c') \<Longrightarrow> same_packets c c'"
  by (auto simp: retx_DequeuePacket_def res_simps case_sum_eq_Inr same_packets_def)

lemma ack_outstanding_packets:
  assumes "ack_outstanding r psn rsn type t c = Inr c'"
  shows "contexts c' r' = contexts c r' \<and> set (outstanding c' r') =
    (if r' = r then {w \<in> set (outstanding c r). wid_psn w \<noteq> psn} else set (outstanding c r'))"
proof (cases "wid_contains \<lparr>wid_rsn = rsn, wid_psn = psn, wid_type = type\<rparr> (outstanding c r)")
  case False
  with assms have "same_packets c c'"
    by (auto simp: ack_outstanding_def res_simps dest: retx_DequeuePacket_packets split: if_splits)
  with False show ?thesis by (auto simp: same_packets_def wid_contains_psn)
next
  case True
  let ?c1 = "on_tx r (\<lambda>x. x\<lparr>txw_outstanding_packets :=
    wid_erase \<lparr>wid_rsn = rsn, wid_psn = psn, wid_type = type\<rparr> (txw_outstanding_packets x)\<rparr>) c"
  from assms True have "same_packets ?c1 c'"
    by (auto simp: ack_outstanding_def Let_def split: sum.split_asm if_splits)
  then show ?thesis by (auto simp: same_packets_def wid_erase_psn)
qed

lemma EnqueueAckToUlp_tracked:
  assumes "EnqueueAckToUlp E r psn c = Inr c'" and "tracked c"
  shows "tracked c'"
proof -
  obtain x location t samples c0 c1 c2 c3 where "contexts c r psn = Some x"
    and loc: "GetTransactionLocation (opc_packet_type x) False = Inr location"
    and c0: "c0 = calls [LatencySamples samples] (c\<lparr>cn_state := put_transaction (opc_rsn x, location) t (cn_state c)\<rparr>)"
    and c1: "ack_request_retransmitted (opc_packet_type x) t (DecrementOutstandingRequestCount (opc_packet_type x) c0) = Inr c1"
    and c2: "ack_outstanding r psn (opc_rsn x) (opc_packet_type x) t c1 = Inr c2"
    and c3: "report_ack E (opc_rsn x) (opc_packet_type x) location (on_tx r (\<lambda>w. w\<lparr>txw_outstanding_packet_contexts :=
        (txw_outstanding_packet_contexts w)(psn := None)\<rparr>) (AccumulateNumAcked c2)) = Inr c3"
    and c': "c' = forget_pull (opc_rsn x) (opc_packet_type x) location c3"
    by (rule EnqueueAckToUlp_steps [OF assms(1)])
  have "same_packets c c0" by (simp add: same_packets_def c0)
  then have "same_packets c c1"
    using ack_request_retransmitted_packets [OF c1] same_packets_counters(1) by (meson same_packets_trans)
  then show ?thesis
    using assms(2) ack_outstanding_packets [OF c2]
    unfolding c' report_ack_eq [OF c3 loc] by (auto simp: tracked_def same_packets_def)
qed

lemma ack_below_base_tracked: "ack_below_base E r is c = Inr c' \<Longrightarrow> tracked c \<Longrightarrow> tracked c'"
proof (induction "is" arbitrary: c)
  case (Cons i "is")
  then show ?case using EnqueueAckToUlp_tracked by (auto simp: res_bind_eq_Inr split: if_splits)
qed simp

lemma advance_tx_window_tracked:
  assumes "advance_tx_window E r b own c = Inr c'" and "tracked c"
  shows "tracked c'"
proof (cases "SeqGT b (txw_base (tw c r))")
  case True
  with assms(1) obtain oow k c2 where
    c2: "ack_below_base E r [0..<k] (on_tx r (\<lambda>x. x\<lparr>txw_oow_notification_received := oow\<rparr>) c) = Inr c2"
    and c': "same_packets c2 c'"
    by (auto simp: advance_tx_window_def Let_def res_bind_eq_Inr same_packets_def)
  have "tracked (on_tx r (\<lambda>x. x\<lparr>txw_oow_notification_received := oow\<rparr>) c)"
    using assms(2) by (simp add: tracked_def)
  with c2 have "tracked c2" by (rule ack_below_base_tracked)
  then show ?thesis by (simp add: same_packets_tracked [OF c'])
qed (use assms in \<open>simp add: advance_tx_window_def Let_def\<close>)

lemma SetupRetransmitTimer_packets:
  assumes "SetupRetransmitTimer E c = Inr c'"
  shows "same_packets c c'"
proof -
  from assms consider "c' = c"
    | t d where "c' = calls [ScheduleRto d] (c\<lparr>cn_rto_expiration_base_time := t\<rparr>)"
    by (auto simp: SetupRetransmitTimer_def Let_def res_simps split: if_splits)
  then show ?thesis by cases (simp_all add: same_packets_def)
qed

lemma HandlePiggybackedACK_tracked:
  assumes abs: "\<forall>r. tx_abs (s r) (B r) (N r) (D r) (tw c r)" and "pkt_type p = kNack"
    and A: "nack_rrbpsn (pkt_nack p) = seq (s True) (A True)" "nack_rdbpsn (pkt_nack p) = seq (s False) (A False)"
    and near: "\<forall>r. A r < B r + 2 ^ 31 \<and> B r < A r + 2 ^ 31"
    and "tracked c" and "HandlePiggybackedACK E p c = Inr c'"
  shows "tracked c' \<and> (\<exists>B' D'. \<forall>r. tx_abs (s r) (B' r) (N r) (D' r) (tw c' r))"
proof (cases "\<exists>r. A r < B r")
  case True
  have "stale_ack (seq (s True) (A True)) (seq (s False) (A False)) c"
    using stale_ack_abs [of s B N D c A] abs near True by simp
  with assms show ?thesis by (auto simp: HandlePiggybackedACK_def)
next
  case False
  then have *: "\<not> stale_ack (seq (s True) (A True)) (seq (s False) (A False)) c"
    using stale_ack_abs [of s B N D c A] abs near by simp
  with assms(2,7) A obtain o1 o2 c1 c2 where
    c1: "advance_tx_window E True (seq (s True) (A True)) o1 c = Inr c1"
    and c2: "advance_tx_window E False (seq (s False) (A False)) o2 c1 = Inr c2"
    and c': "SetupRetransmitTimer E c2 = Inr c'"
    by (auto simp: HandlePiggybackedACK_def res_bind_eq_Inr)
  have "tracked c2"
    using advance_tx_window_tracked [OF c2 advance_tx_window_tracked [OF c1 assms(6)]] .
  moreover have "\<forall>r. tx_abs (s r) (A r) (N r) (D r \<union> {..<A r}) (tw c2 r)"
    using conjunct1 [OF advance_both [OF spec [OF abs] _ c1 c2]] near False by (simp add: not_less)
  moreover have core: "core c' r = core c2 r" for r
    using SetupRetransmitTimer_silent [OF c'] by (simp add: silent_def)
  ultimately have "\<forall>r. tx_abs (s r) (A r) (N r) (D r \<union> {..<A r}) (tw c' r)" and "tracked c2"
    using tx_abs_core [OF core] by blast+
  then show ?thesis
    using same_packets_tracked [OF SetupRetransmitTimer_packets [OF c']]
    by (intro conjI exI [of _ A] exI [of _ "\<lambda>r. D r \<union> {..<A r}"]) blast+
qed

section \<open>The scan ends\<close>

text \<open>The place of a packet in the bitmap of its window; a packet with a context is not marked there.\<close>

lemma window_index_abs:
  assumes "tx_abs s B N D w" and "B \<le> n" and "n < N"
  shows "window_index w (seq s n) = int (n - B)" and "int (n - B) < bm_size (txw_window w)"
proof -
  have w: "txw_base w = seq s B" "N \<le> B + nat (bm_size (txw_window w))" "bm_size (txw_window w) \<le> 2 ^ 16"
    using assms(1) by (simp_all add: tx_abs_def)
  define k m where "k = n - B" and "m = nat (bm_size (txw_window w))"
  have km: "k < m" "m \<le> 2 ^ 16" "bm_size (txw_window w) = int m" using w assms(2,3) by (auto simp: k_def m_def)
  have "seq s n - txw_base w = of_nat k" using assms(2) by (simp add: w k_def of_nat_diff)
  moreover have "(of_nat k :: u32) mod of_nat m = of_nat k"
  proof (rule iffD2 [OF word_unat_eq_iff])
    show "unat ((of_nat k :: u32) mod of_nat m) = unat (of_nat k :: u32)"
      using km by (simp add: unat_mod unat_of_nat)
  qed
  moreover have "sint (of_nat k :: u32) = int k" using km sint_word_of_int [of "int k"] by simp
  ultimately show "window_index w (seq s n) = int (n - B)" using km by (simp add: window_index_def k_def)
  show "int (n - B) < bm_size (txw_window w)" using km by (simp add: k_def)
qed

lemma context_not_acked:
  assumes "tx_abs s B N D w" and "psn \<in> dom (txw_outstanding_packet_contexts w)"
  shows "fb_Get (txw_window w) (window_index w psn) = Inr False"
proof -
  from assms obtain n where n: "psn = seq s n" "n < N" "n \<notin> D" by (auto simp: tx_abs_def)
  then have "B \<le> n" using assms(1) by (auto simp: tx_abs_def not_le intro: ccontr)
  then show ?thesis
    using n window_index_abs [OF assms(1)] fb_Get_total [of "txw_window w" "n - B"] assms(1)
    by (auto simp: tx_abs_def)
qed

lemma nack_turn_moves_on:
  assumes "tx_abs s B N D (tw c r)" and "wid_psn w \<in> dom (contexts c r)"
  shows "nack_turn E p r w c \<noteq> Inr ScanStay"
    and "nack_turn E p r w c = Inr (ScanErase c1) \<Longrightarrow> core c1 r = core c r"
proof -
  note get = context_not_acked [OF assms]
  show "nack_turn E p r w c \<noteq> Inr ScanStay"
    using get by (auto simp: nack_turn_def Let_def res_simps split: if_splits)
  assume "nack_turn E p r w c = Inr (ScanErase c1)"
  with get have "quiet_step c c1"
    by (auto simp: nack_turn_def Let_def res_simps intro: retransmit_quiet split: if_splits)
  then show "core c1 r = core c r" by (simp add: quiet_step_def)
qed

lemma nack_scan_ends:
  assumes "tx_abs s B N D (tw c r)" and "\<forall>w \<in> set ws. wid_psn w \<in> dom (contexts c r)"
  shows "\<exists>res. nack_scan E p r ws c = Some res"
  using assms
proof (induction ws arbitrary: c)
  case (Cons w ws)
  have w: "wid_psn w \<in> dom (contexts c r)" using Cons.prems(2) by simp
  note turn = nack_turn_moves_on [OF Cons.prems(1) w, of E p]
  have "\<exists>res. nack_scan E p r ws c1 = Some res" if "nack_turn E p r w c = Inr (ScanErase c1)" for c1
  proof (rule Cons.IH)
    show "tx_abs s B N D (tw c1 r)" using tx_abs_core [OF turn(2) [OF that]] Cons.prems(1) by simp
    show "\<forall>w \<in> set ws. wid_psn w \<in> dom (contexts c1 r)"
      using turn(2) [OF that] Cons.prems(2) by (simp add: tx_core_def)
  qed
  with turn(1) show ?case
    by (subst nack_scan.simps) (auto split: sum.split scan_turn.split)
qed (simp add: nack_scan.simps)


text \<open>One pull request outstanding, and a NACK that asks for early retransmission.\<close>

definition example_nack :: packet where
  "example_nack = packet_default\<lparr>pkt_type := kNack,
     pkt_nack := nack_default\<lparr>nack_code := kReserved, nack_request_window := True\<rparr>\<rparr>"


end
