(* ===== verification/Strict_Priority.thy ===== *)
theory Strict_Priority
  imports Falcon_Prelude
begin

text \<open>
  The path selection policy of the third generation,
  \<^verbatim>\<open>src/isekai/host/falcon/gen3/strict_priority_policy.h\<close>, over any linearly ordered type of entities: the
  entity of the highest priority is served next, and entities of equal priority take turns.

  The \<^verbatim>\<open>btree_set\<close> of entities is a sorted list, an iterator into it the rest of the list from there on. The
  priority fetcher is an argument of the operation that calls it; the default fetcher is the constant \<open>0\<close>.
\<close>

section \<open>Operations\<close>

record 'a sp_policy =
  sp_entities :: "'a list"
  sp_last_serviced_entity :: "'a option"   \<comment> \<open>\<open>None\<close>: not yet assigned\<close>

definition StrictPriorityPolicy_new :: "'a sp_policy" where
  "StrictPriorityPolicy_new = \<lparr>sp_entities = [], sp_last_serviced_entity = None\<rparr>"

definition sp_InitializeEntity :: "'a::linorder \<Rightarrow> 'a sp_policy \<Rightarrow> status \<times> 'a sp_policy" where
  "sp_InitializeEntity entity s =
     (if entity \<in> set (sp_entities s) then (InvalidArgumentError, s)
      else (OkStatus, s\<lparr>sp_entities := oset_insert entity (sp_entities s), sp_last_serviced_entity := Some entity\<rparr>))"

definition sp_DeleteEntity :: "'a::linorder \<Rightarrow> 'a sp_policy \<Rightarrow> status \<times> 'a sp_policy" where
  "sp_DeleteEntity entity s =
     (if entity \<notin> set (sp_entities s) then (InvalidArgumentError, s)
      else (OkStatus, s\<lparr>sp_entities := oset_erase entity (sp_entities s)\<rparr>))"

definition sp_IsActive :: "'a \<Rightarrow> 'a sp_policy \<Rightarrow> bool" where
  "sp_IsActive entity s \<longleftrightarrow> entity \<in> set (sp_entities s)"

definition sp_HasWork :: "'a sp_policy \<Rightarrow> bool" where
  "sp_HasWork s \<longleftrightarrow> sp_entities s \<noteq> []"

text \<open>
  The loop: \<open>k\<close> turns are left, \<open>it\<close> is the iterator, \<open>best\<close> the entity chosen so far and \<open>max_prio\<close> its priority.
\<close>

fun sp_scan :: "('a \<Rightarrow> int) \<Rightarrow> 'a list \<Rightarrow> nat \<Rightarrow> 'a list \<Rightarrow> 'a \<Rightarrow> int \<Rightarrow> 'a" where
  "sp_scan prio es 0 it best max_prio = best"
| "sp_scan prio es (Suc k) it best max_prio =
     (let it' = (if tl it = [] then es else tl it); e = hd it'
      in if max_prio < prio e then sp_scan prio es k it' e (prio e) else sp_scan prio es k it' best max_prio)"

definition sp_GetNextEntity ::
  "('a::linorder \<Rightarrow> int) \<Rightarrow> 'a sp_policy \<Rightarrow> ((status + 'a) \<times> 'a sp_policy) res" where
  "sp_GetNextEntity prio s =
     (if sp_entities s = [] then Inr (Inl UnavailableError, s)
      else case sp_last_serviced_entity s of
        None \<Rightarrow> Inl UndefinedBehaviour
      | Some l \<Rightarrow>
          let es = sp_entities s; above = dropWhile (\<lambda>e. \<not> l < e) es;
              it = (if above = [] then es else above);
              e = sp_scan prio es (length es - 1) it (hd it) (prio (hd it))
          in Inr (Inr e, s\<lparr>sp_last_serviced_entity := Some e\<rparr>))"

section \<open>The order of a scan\<close>

text \<open>The entities in the order in which they get their turn after \<open>l\<close>.\<close>

definition turns :: "'a::linorder \<Rightarrow> 'a list \<Rightarrow> 'a list" where
  "turns l es = filter (\<lambda>e. l < e) es @ filter (\<lambda>e. \<not> l < e) es"

lemma set_turns [simp]: "set (turns l es) = set es"
  by (auto simp: turns_def)

lemma filter_turns: "filter P (turns l es) = turns l (filter P es)"
  by (simp add: turns_def filter_filter conj_commute)

lemma length_turns: "length (turns l es) = length es"
  using sum_length_filter_compl [of "\<lambda>e. l < e" es] by (simp add: turns_def)

lemma sorted_split:
  assumes "oset_ok es"
  shows "dropWhile (\<lambda>e. \<not> l < e) es = filter (\<lambda>e. l < e) es"
    and "takeWhile (\<lambda>e. \<not> l < e) es = filter (\<lambda>e. \<not> l < e) es"
proof -
  have "dropWhile (\<lambda>e. \<not> l < e) es = filter (\<lambda>e. l < e) es \<and> takeWhile (\<lambda>e. \<not> l < e) es = filter (\<lambda>e. \<not> l < e) es"
    using assms
  proof (induction es)
    case (Cons a es)
    show ?case
    proof (cases "l < a")
      case True
      with Cons.prems have "\<forall>x \<in> set es. l < x" by (auto simp: oset_ok_def)
      then have "filter (\<lambda>e. l < e) es = es" and "filter (\<lambda>e. \<not> l < e) es = []"
        by (simp_all add: filter_id_conv filter_empty_conv)
      with True show ?thesis by simp
    qed (use Cons in \<open>simp add: oset_ok_def\<close>)
  qed simp
  then show "dropWhile (\<lambda>e. \<not> l < e) es = filter (\<lambda>e. l < e) es"
    and "takeWhile (\<lambda>e. \<not> l < e) es = filter (\<lambda>e. \<not> l < e) es" by blast+
qed

text \<open>The entity a scan of \<open>xs\<close> chooses: the first of the highest priority.\<close>

fun first_max :: "('a \<Rightarrow> int) \<Rightarrow> 'a \<Rightarrow> 'a list \<Rightarrow> 'a" where
  "first_max prio best [] = best"
| "first_max prio best (x # xs) = first_max prio (if prio best < prio x then x else best) xs"

lemma first_max_max: "x \<in> insert best (set xs) \<Longrightarrow> prio x \<le> prio (first_max prio best xs)"
proof (induction xs arbitrary: x best)
  case (Cons a xs)
  let ?b = "if prio best < prio a then a else best"
  have b: "prio best \<le> prio ?b" "prio a \<le> prio ?b" by simp_all
  show ?case
  proof (cases "x \<in> set xs")
    case True
    then show ?thesis using Cons.IH [of x ?b] by simp
  next
    case False
    then have "prio x \<le> prio ?b" using Cons.prems b by auto
    also have "\<dots> \<le> prio (first_max prio ?b xs)" by (rule Cons.IH) simp
    finally show ?thesis by simp
  qed
qed simp

lemma first_max_is_first:
  "\<exists>ys zs. best # xs = ys @ first_max prio best xs # zs \<and> (\<forall>y \<in> set ys. prio y < prio (first_max prio best xs))"
proof (induction xs arbitrary: best)
  case (Cons x xs)
  show ?case
  proof (cases "prio best < prio x")
    case True
    obtain ys zs where "x # xs = ys @ first_max prio x xs # zs" "\<forall>y \<in> set ys. prio y < prio (first_max prio x xs)"
      using Cons.IH [of x] by blast
    moreover have "prio best < prio (first_max prio x xs)" using first_max_max [of x x xs prio] True by simp
    ultimately have "best # x # xs = (best # ys) @ first_max prio x xs # zs"
      and "\<forall>y \<in> set (best # ys). prio y < prio (first_max prio x xs)"
      by (metis append_Cons, metis set_ConsD)
    then show ?thesis unfolding first_max.simps if_P [OF True] by blast
  next
    case False
    obtain ys zs where *: "best # xs = ys @ first_max prio best xs # zs"
      "\<forall>y \<in> set ys. prio y < prio (first_max prio best xs)"
      using Cons.IH [of best] by blast
    show ?thesis
    proof (cases ys)
      case Nil
      with *(1) have "best # x # xs = [] @ first_max prio best xs # x # xs" by (metis append_Nil list.inject)
      then show ?thesis unfolding first_max.simps if_not_P [OF False] by (metis empty_iff empty_set)
    next
      case (Cons y ys')
      with * have "best # x # xs = (best # x # ys') @ first_max prio best xs # zs"
        and "\<forall>y \<in> set (best # x # ys'). prio y < prio (first_max prio best xs)"
        using False by auto
      then show ?thesis unfolding first_max.simps if_not_P [OF False] by blast
    qed
  qed
qed (intro exI [of _ "[]"], simp)

lemma first_max_filter:
  assumes "e = first_max prio best xs"
  shows "e = hd (filter (\<lambda>x. \<forall>y \<in> insert best (set xs). prio y \<le> prio x) (best # xs))"
proof -
  let ?P = "\<lambda>x. \<forall>y \<in> insert best (set xs). prio y \<le> prio x"
  obtain ys zs where *: "best # xs = ys @ e # zs" "\<forall>y \<in> set ys. prio y < prio e"
    using first_max_is_first [of best xs prio] assms by blast
  have e: "e \<in> insert best (set xs)" using arg_cong [OF *(1), of set] by auto
  have "filter ?P ys = []" using *(2) e by (fastforce simp: filter_empty_conv not_le)
  moreover have "?P e" using first_max_max [of _ best xs prio] assms by blast
  ultimately show ?thesis by (simp add: *(1) del: filter.simps(2)) simp
qed

lemma sp_scan_first_max:
  assumes "es = pre @ it" and "it \<noteq> []" and "k < length es"
  shows "sp_scan prio es k it best (prio best) = first_max prio best (take k (tl it @ es))"
  using assms
proof (induction k arbitrary: pre it best)
  case (Suc k)
  let ?it = "if tl it = [] then es else tl it"
  have es: "es \<noteq> []" using Suc.prems by auto
  obtain pre' where it: "es = pre' @ ?it" "?it \<noteq> []"
  proof (cases "tl it = []")
    case False
    then show thesis using that [of "pre @ [hd it]"] Suc.prems(1,2) by simp
  qed (use that [of "[]"] es in simp)
  have "take (Suc k) (tl it @ es) = hd ?it # take k (tl ?it @ es)"
  proof (cases "tl it = []")
    case True
    moreover have "take k (tl es @ es) = take k (tl es)" using Suc.prems(3) by simp
    ultimately show ?thesis using es by (cases es) simp_all
  qed (cases "tl it"; simp)
  then show ?case using Suc.IH [OF it] Suc.prems(3) by (simp add: Let_def)
qed simp

text \<open>The entities of the highest priority.\<close>

definition tops :: "('a \<Rightarrow> int) \<Rightarrow> 'a list \<Rightarrow> 'a list" where
  "tops prio es = filter (\<lambda>x. \<forall>y \<in> set es. prio y \<le> prio x) es"

lemma sp_GetNextEntity_turns:
  fixes prio :: "'a::linorder \<Rightarrow> int"
  assumes "oset_ok (sp_entities s)" and "sp_entities s \<noteq> []" and "sp_last_serviced_entity s = Some l"
  defines "e \<equiv> hd (turns l (tops prio (sp_entities s)))"
  shows "sp_GetNextEntity prio s = Inr (Inr e, s\<lparr>sp_last_serviced_entity := Some e\<rparr>)"
proof -
  let ?es = "sp_entities s" and ?above = "filter (\<lambda>e. l < e) (sp_entities s)"
    and ?below = "filter (\<lambda>e. \<not> l < e) (sp_entities s)"
  define it where "it = (if ?above = [] then ?es else ?above)"
  define pre where "pre = (if ?above = [] then [] else ?below)"
  have "?es = ?below @ ?above"
    using takeWhile_dropWhile_id [of "\<lambda>e. \<not> l < e" ?es] by (simp add: sorted_split [OF assms(1)])
  then have split: "?es = pre @ it" by (simp add: it_def pre_def)
  have it: "it \<noteq> []" using assms(2) by (simp add: it_def)
  have turns: "turns l ?es = hd it # take (length ?es - 1) (tl it @ ?es)"
  proof -
    have "turns l ?es = it @ pre" using \<open>?es = ?below @ ?above\<close> by (auto simp: turns_def it_def pre_def)
    moreover have "length ?es - 1 = length (tl it @ pre)" using split it by (cases it) auto
    moreover have "tl it @ ?es = (tl it @ pre) @ it" by (subst split) simp
    ultimately show ?thesis using it by (cases it) auto
  qed
  let ?c = "sp_scan prio ?es (length ?es - 1) it (hd it) (prio (hd it))"
  have "?c = first_max prio (hd it) (take (length ?es - 1) (tl it @ ?es))"
    using assms(2) by (intro sp_scan_first_max [OF split it]) simp
  from first_max_filter [OF this] have "?c = hd (filter (\<lambda>x. \<forall>y \<in> set (turns l ?es). prio y \<le> prio x) (turns l ?es))"
    unfolding turns by (simp only: set_simps)
  then have "?c = e" by (simp add: e_def tops_def filter_turns)
  then show ?thesis
    using assms(2,3)
    by (cases "?above = []") (simp_all add: sp_GetNextEntity_def Let_def sorted_split(1) [OF assms(1)] it_def
      del: dropWhile_eq_Nil_conv)
qed

section \<open>Properties\<close>

text \<open>The state of a policy in use: the set is sorted, and an entity has been initialized.\<close>

definition sp_ok :: "'a::linorder sp_policy \<Rightarrow> bool" where
  "sp_ok s \<longleftrightarrow> oset_ok (sp_entities s) \<and> (sp_entities s \<noteq> [] \<longrightarrow> sp_last_serviced_entity s \<noteq> None)"

lemma sp_ok_operations:
  "sp_ok StrictPriorityPolicy_new"
  "sp_ok s \<Longrightarrow> sp_ok (snd (sp_InitializeEntity x s))"
  "sp_ok s \<Longrightarrow> sp_ok (snd (sp_DeleteEntity x s))"
  by (auto simp: sp_ok_def StrictPriorityPolicy_new_def sp_InitializeEntity_def sp_DeleteEntity_def oset_erase_def)

lemma tops_nonempty:
  assumes "es \<noteq> []"
  shows "tops prio es \<noteq> []"
proof -
  have "Max (prio ` set es) \<in> prio ` set es" using assms by (intro Max_in) simp_all
  then obtain x where x: "x \<in> set es" "prio x = Max (prio ` set es)" by (metis imageE)
  then have "\<forall>y \<in> set es. prio y \<le> prio x" by simp
  with x(1) show ?thesis by (auto simp: tops_def filter_empty_conv)
qed

lemma tops_ok: "oset_ok es \<Longrightarrow> oset_ok (tops prio es)"
  by (simp add: tops_def)

text \<open>After an entity has had its turn the order of turns is the same, with this entity at its end.\<close>

lemma turns_rotate:
  assumes "oset_ok ts" and "turns l ts = e # xs"
  shows "turns e ts = xs @ [e]"
proof (cases "filter (\<lambda>x. l < x) ts")
  case Nil
  then have "turns l ts = ts" by (auto simp: turns_def filter_empty_conv intro: filter_True)
  with assms have "ts = e # xs" "\<forall>x \<in> set xs. e < x" by (auto simp: oset_ok_def)
  then have "filter (\<lambda>x. e < x) xs = xs" "filter (\<lambda>x. \<not> e < x) xs = []" by (auto simp: filter_empty_conv)
  with \<open>ts = e # xs\<close> show ?thesis by (simp add: turns_def)
next
  case (Cons a as)
  let ?below = "filter (\<lambda>x. \<not> l < x) ts"
  have a: "a = e" "xs = as @ ?below" using assms(2) Cons by (simp_all add: turns_def)
  have ts: "ts = ?below @ e # as"
    using takeWhile_dropWhile_id [of "\<lambda>x. \<not> l < x" ts] Cons a by (simp add: sorted_split [OF assms(1)])
  have "sorted_wrt (<) (?below @ e # as)" using assms(1) ts unfolding oset_ok_def by (rule back_subst)
  then have "\<forall>x \<in> set as. e < x" and "\<forall>x \<in> set ?below. x < e" by (simp_all add: sorted_wrt_append)
  then have "filter (\<lambda>x. e < x) ?below = []" "filter (\<lambda>x. e < x) as = as" "filter (\<lambda>x. \<not> e < x) as = []"
    "filter (\<lambda>x. \<not> e < x) ?below = ?below"
    by (auto simp: filter_empty_conv filter_id_conv simp del: filter_filter)
  then show ?thesis unfolding a by (subst ts) (simp add: turns_def del: filter_filter)
qed

text \<open>The entities \<open>n\<close> successive calls return while the priorities stay as they are.\<close>

fun sp_serves :: "('a::linorder \<Rightarrow> int) \<Rightarrow> nat \<Rightarrow> 'a sp_policy \<Rightarrow> ('a list \<times> 'a sp_policy) res" where
  "sp_serves prio 0 s = Inr ([], s)"
| "sp_serves prio (Suc n) s =
     res_bind (sp_GetNextEntity prio s) (\<lambda>(r, s1). case r of
       Inl _ \<Rightarrow> Inr ([], s1)
     | Inr e \<Rightarrow> res_bind (sp_serves prio n s1) (\<lambda>(xs, s2). Inr (e # xs, s2)))"

lemma sp_serves_turns:
  assumes "oset_ok (sp_entities s)" and "sp_entities s \<noteq> []" and "sp_last_serviced_entity s = Some l"
    and "n \<le> length (tops prio (sp_entities s))"
  shows "\<exists>s'. sp_serves prio n s = Inr (take n (turns l (tops prio (sp_entities s))), s')"
  using assms
proof (induction n arbitrary: s l)
  case (Suc n)
  let ?ts = "tops prio (sp_entities s)"
  have "length (turns l ?ts) = length ?ts" by (rule length_turns)
  then obtain e xs where t: "turns l ?ts = e # xs" using Suc.prems(4) by (cases "turns l ?ts") auto
  have rot: "turns e ?ts = xs @ [e]" by (rule turns_rotate [OF tops_ok [OF Suc.prems(1)] t])
  let ?s = "s\<lparr>sp_last_serviced_entity := Some e\<rparr>"
  have "\<exists>s'. sp_serves prio n ?s = Inr (take n (turns e ?ts), s')" using Suc.IH [of ?s e] Suc.prems by simp
  moreover have "take n (turns e ?ts) = take n xs"
    using rot t length_turns [of l ?ts] Suc.prems(4) by simp
  ultimately show ?case
    using sp_GetNextEntity_turns [OF Suc.prems(1-3), of prio] by (auto simp: t)
qed simp

text \<open>
  C26. The policy serves the highest priority, and equals in turn: with \<open>k\<close> entities of the highest priority, \<open>k\<close>
  successive calls succeed and return each of these entities exactly once and nothing else, whatever was served
  before; and a policy without entities reports that it has no work and changes nothing.
\<close>

theorem strict_priority_takes_turns:
  assumes "sp_ok s"
  defines "best \<equiv> \<lambda>prio. {x \<in> set (sp_entities s). \<forall>y \<in> set (sp_entities s). prio y \<le> prio x}"
  shows "if sp_HasWork s
    then best prio \<noteq> {} \<and> (\<exists>xs s'. sp_serves prio (card (best prio)) s = Inr (xs, s') \<and> distinct xs \<and> set xs = best prio)
    else sp_GetNextEntity prio s = Inr (Inl UnavailableError, s)"
proof (cases "sp_HasWork s")
  case True
  let ?ts = "tops prio (sp_entities s)"
  have s: "oset_ok (sp_entities s)" "sp_entities s \<noteq> []" using assms(1) True by (simp_all add: sp_ok_def sp_HasWork_def)
  then obtain l where l: "sp_last_serviced_entity s = Some l" using assms(1) by (auto simp: sp_ok_def)
  have best: "best prio = set ?ts" by (auto simp: best_def tops_def)
  have d: "distinct ?ts" using oset_ok_distinct [OF tops_ok [OF s(1)]] .
  then have c: "card (set ?ts) = length ?ts" by (rule distinct_card)
  obtain s' where "sp_serves prio (length ?ts) s = Inr (turns l ?ts, s')"
    using sp_serves_turns [OF s l, of "length ?ts" prio] length_turns [of l ?ts] by auto
  moreover have "distinct (turns l ?ts)"
    using d by (auto simp: turns_def)
  ultimately show ?thesis using True tops_nonempty [OF s(2), of prio] unfolding best c by auto
qed (simp add: sp_HasWork_def sp_GetNextEntity_def)

text \<open>Three entities, the first and the last of equal priority.\<close>

theorem strict_priority_takes_turns_witness:
  "\<exists>xs s'. sp_serves (\<lambda>x. if x = 2 then 1 else 5) 2 \<lparr>sp_entities = [1, 2, 3 :: nat], sp_last_serviced_entity = Some 3\<rparr> =
     Inr (xs, s') \<and> distinct xs \<and> set xs = {1, 3}"
proof -
  let ?s = "\<lparr>sp_entities = [1, 2, 3 :: nat], sp_last_serviced_entity = Some 3\<rparr>"
  have best: "{x \<in> set (sp_entities ?s). \<forall>y \<in> set (sp_entities ?s). (if y = 2 then 1 else 5 :: int) \<le> (if x = 2 then 1 else 5)} = {1, 3}"
    by auto
  have "sp_ok ?s" by (simp add: sp_ok_def oset_ok_def)
  note * = strict_priority_takes_turns [OF this, of "\<lambda>x. if x = 2 then 1 else 5", unfolded best]
  have "sp_HasWork ?s" and "card {1, 3 :: nat} = 2" by (simp_all add: sp_HasWork_def)
  then show ?thesis using conjunct2 [OF * [unfolded if_P [OF \<open>sp_HasWork ?s\<close>]]] by metis
qed

end
