(* ===== verification/Multipath.thy ===== *)
theory Multipath
  imports Strict_Priority WRR_Policy Reliability_Tx Rate_Update_Engine
begin

text \<open>
  Several paths per connection, the extension of the second and third generation: flow labels that carry the number of
  their path (\<^verbatim>\<open>gen2/falcon_utils.h\<close>, \<^verbatim>\<open>gen2/rate_update_engine.cc\<close>, \<^verbatim>\<open>rue/algorithm/swift.h\<close>), the state kept
  per path (\<^verbatim>\<open>gen2\<close>/\<^verbatim>\<open>gen3/connection_state_manager.cc\<close>, \<^verbatim>\<open>rate_update_engine.cc\<close>), the choice of a path for an
  outgoing packet and the counters of packets under way (\<^verbatim>\<open>gen2\<close>/\<^verbatim>\<open>gen3/reliability_manager.cc\<close>), and what a response of
  the rate update engine changes (\<^verbatim>\<open>event_response_format_adapter.cc\<close>).

  An access to a vector out of its range is undefined. Random numbers are arguments.
\<close>

section \<open>Vectors\<close>

definition vec_get :: "'a list \<Rightarrow> nat \<Rightarrow> 'a res" where
  "vec_get v i = (if i < length v then Inr (v ! i) else Inl UndefinedBehaviour)"

definition vec_set :: "'a list \<Rightarrow> nat \<Rightarrow> 'a \<Rightarrow> 'a list res" where
  "vec_set v i x = (if i < length v then Inr (v[i := x]) else Inl UndefinedBehaviour)"

definition resize :: "nat \<Rightarrow> 'a \<Rightarrow> 'a list \<Rightarrow> 'a list" where
  "resize n x v = take n v @ replicate (n - length v) x"

lemma length_resize [simp]: "length (resize n x v) = n"
  by (simp add: resize_def)

lemma vec_get_in [simp]: "i < length v \<Longrightarrow> vec_get v i = Inr (v ! i)"
  by (simp add: vec_get_def)

lemma vec_set_in [simp]: "i < length v \<Longrightarrow> vec_set v i x = Inr (v[i := x])"
  by (simp add: vec_set_def)

section \<open>Flow labels\<close>

definition GetFlowIdFromFlowLabel :: "u32 \<Rightarrow> u8 \<Rightarrow> u8 res" where
  "GetFlowIdFromFlowLabel flow_label num_flows =
     (if num_flows = 0 then Inl UndefinedBehaviour else Inr (ucast (flow_label mod ucast num_flows)))"

definition GetGen2MultipathingNumFlows :: "u32 \<Rightarrow> u32 res" where
  "GetGen2MultipathingNumFlows degree_of_multipathing = check (0 < degree_of_multipathing) (Inr degree_of_multipathing)"

text \<open>The overload that looks the number of flows up, which it passes on as a byte.\<close>

definition flow_id_of_label :: "u32 \<Rightarrow> u32 \<Rightarrow> u8 res" where
  "flow_id_of_label degree flow_label =
     res_bind (GetGen2MultipathingNumFlows degree) (\<lambda>n. GetFlowIdFromFlowLabel flow_label (ucast n))"

fun bit_width :: "nat \<Rightarrow> nat" where
  "bit_width n = (if n = 0 then 0 else Suc (bit_width (n div 2)))"

declare bit_width.simps [simp del]

definition EncodeFlowIdBitsInFlowLabel :: "u32 \<Rightarrow> u8 \<Rightarrow> u32 \<Rightarrow> u32 res" where
  "EncodeFlowIdBitsInFlowLabel flow_label flow_id num_flows =
     check (0 < num_flows) (check (ucast flow_id < num_flows)
       (let width = bit_width (unat (num_flows - 1))
        in if 32 \<le> width then Inl UndefinedBehaviour
           else let m = push_bit width 1 - 1 in Inr (or (and flow_label (not m)) (ucast flow_id))))"

text \<open>\<^verbatim>\<open>swift.h\<close>: new labels for a path that is rerouted; the generator draws numbers of 18 bits.\<close>

definition RandomFlowLabel :: "18 word \<Rightarrow> u8 \<Rightarrow> u32" where
  "RandomFlowLabel draw flow_id = or (push_bit 2 (ucast draw)) (ucast flow_id)"

definition kDefaultFlowLabels :: "u32 list" where
  "kDefaultFlowLabels = [0x01230, 0x45671, 0x89012, 0x23453]"

section \<open>State\<close>

text \<open>
  \<^verbatim>\<open>Gen2CongestionControlMetadata\<close> and \<^verbatim>\<open>Gen3CongestionControlMetadata\<close> with the metadata of the first generation, and
  the parameters of the backpressure manager.
\<close>

record mp_metadata =
  mp_ccmeta :: ccmeta
  mp_plb_state :: "24 word"
  mp_flow_weights :: "u8 list"
  mp_flow_labels :: "u32 list"
  mp_num_acked :: "u32 list"
  mp_outstanding_rue_event :: "bool list"
  mp_last_rue_event_time :: "duration list"
  mp_flow_fcwnds :: "u32 list"
  mp_outstanding_count :: "u32 list"
  mp_flow_rtt_state :: "u32 list"
  mp_alpha_request :: u8
  mp_alpha_response :: u8

abbreviation num_flows :: "mp_metadata \<Rightarrow> nat" where
  "num_flows m \<equiv> length (mp_flow_labels m)"

definition gen2_SetupGenSpecificConnectionState :: "u32 \<Rightarrow> mp_metadata \<Rightarrow> (status \<times> mp_metadata) res" where
  "gen2_SetupGenSpecificConnectionState degree m =
     res_bind (GetGen2MultipathingNumFlows degree) (\<lambda>n.
       if n \<noteq> 1 \<and> n \<noteq> 4 then Inr (InvalidArgumentError, m)
       else Inr (OkStatus, m
         \<lparr>mp_flow_labels := resize (unat n) 0 (mp_flow_labels m), mp_flow_weights := resize (unat n) 0 (mp_flow_weights m),
          mp_num_acked := resize (unat n) 0 (mp_num_acked m),
          mp_last_rue_event_time := resize (unat n) ZeroDuration (mp_last_rue_event_time m),
          mp_outstanding_rue_event := resize (unat n) False (mp_outstanding_rue_event m)\<rparr>))"

definition gen3_SetupGenSpecificConnectionState :: "u32 \<Rightarrow> mp_metadata \<Rightarrow> (status \<times> mp_metadata) res" where
  "gen3_SetupGenSpecificConnectionState degree m =
     res_bind (GetGen2MultipathingNumFlows degree) (\<lambda>n.
       gen2_SetupGenSpecificConnectionState degree
         (m\<lparr>mp_flow_fcwnds := resize (unat n) 0 (mp_flow_fcwnds m),
            mp_outstanding_count := resize (unat n) 0 (mp_outstanding_count m),
            mp_flow_rtt_state := resize (unat n) 0 (mp_flow_rtt_state m)\<rparr>))"

text \<open>The loops over the flows; \<open>random\<close> gives the number drawn for each.\<close>

fun init_gen2_flows :: "(nat \<Rightarrow> u32) \<Rightarrow> u32 \<Rightarrow> nat list \<Rightarrow> mp_metadata \<Rightarrow> mp_metadata res" where
  "init_gen2_flows random n [] m = Inr m"
| "init_gen2_flows random n (i # is) m =
     res_bind (EncodeFlowIdBitsInFlowLabel (GenerateRandomFlowLabel (random i)) (of_nat i) n) (\<lambda>label.
     res_bind (vec_set (mp_flow_labels m) i label) (\<lambda>labels.
     res_bind (vec_set (mp_flow_weights m) i 1) (\<lambda>weights.
     res_bind (vec_set (mp_last_rue_event_time m) i NegInfinite) (\<lambda>times.
     res_bind (vec_set (mp_num_acked m) i 0) (\<lambda>acked.
     res_bind (vec_set (mp_outstanding_rue_event m) i False) (\<lambda>outstanding.
       init_gen2_flows random n is (m\<lparr>mp_flow_labels := labels, mp_flow_weights := weights, mp_last_rue_event_time := times,
         mp_num_acked := acked, mp_outstanding_rue_event := outstanding\<rparr>)))))))"

definition gen2_InitializeGenSpecificMetadata :: "(nat \<Rightarrow> u32) \<Rightarrow> mp_metadata \<Rightarrow> mp_metadata res" where
  "gen2_InitializeGenSpecificMetadata random m =
     check (length (mp_flow_labels m) = length (mp_flow_weights m))
       (init_gen2_flows random (of_nat (num_flows m)) [0..<num_flows m] (m\<lparr>mp_plb_state := 0\<rparr>))"

fun init_gen3_flows :: "u32 \<Rightarrow> u32 \<Rightarrow> nat list \<Rightarrow> mp_metadata \<Rightarrow> mp_metadata res" where
  "init_gen3_flows fcwnd rtt [] m = Inr m"
| "init_gen3_flows fcwnd rtt (i # is) m =
     res_bind (vec_set (mp_flow_fcwnds m) i fcwnd) (\<lambda>fcwnds.
     res_bind (vec_set (mp_flow_rtt_state m) i rtt) (\<lambda>rtts.
       init_gen3_flows fcwnd rtt is (m\<lparr>mp_flow_fcwnds := fcwnds, mp_flow_rtt_state := rtts\<rparr>)))"

definition gen3_InitializeGenSpecificMetadata :: "rue_env \<Rightarrow> (nat \<Rightarrow> u32) \<Rightarrow> mp_metadata \<Rightarrow> mp_metadata res" where
  "gen3_InitializeGenSpecificMetadata E random m =
     res_bind (gen2_InitializeGenSpecificMetadata random m) (\<lambda>m.
     check (num_flows m = length (mp_flow_fcwnds m))
       (let per_conn = FixedToFloat (ccm_fabric_congestion_window (mp_ccmeta m)) 10
        in if num_flows m = 0 then Inl UndefinedBehaviour
           else res_bind (FloatToFixed (double_round (per_conn / real (num_flows m))) 10) (\<lambda>fcwnd.
                res_bind (ToFalconTimeUnits E kDefaultRttState) (\<lambda>rtt.
                  init_gen3_flows fcwnd rtt [0..<num_flows m] m))))"

section \<open>Per-flow state of the rate update engine\<close>

definition gen2_GetLastEventTime :: "u8 \<Rightarrow> mp_metadata \<Rightarrow> duration res" where
  "gen2_GetLastEventTime flow_id m = vec_get (mp_last_rue_event_time m) (unat flow_id)"

definition gen2_UpdateLastEventTime :: "duration \<Rightarrow> u8 \<Rightarrow> mp_metadata \<Rightarrow> mp_metadata res" where
  "gen2_UpdateLastEventTime now flow_id m =
     res_bind (vec_set (mp_last_rue_event_time m) (unat flow_id) now) (\<lambda>v. Inr (m\<lparr>mp_last_rue_event_time := v\<rparr>))"

definition gen2_GetOutstandingEvent :: "u8 \<Rightarrow> mp_metadata \<Rightarrow> bool res" where
  "gen2_GetOutstandingEvent flow_id m = vec_get (mp_outstanding_rue_event m) (unat flow_id)"

definition gen2_UpdateOutstandingEvent :: "u8 \<Rightarrow> bool \<Rightarrow> mp_metadata \<Rightarrow> (bool \<times> mp_metadata) res" where
  "gen2_UpdateOutstandingEvent flow_id x m =
     res_bind (vec_get (mp_outstanding_rue_event m) (unat flow_id)) (\<lambda>old.
     res_bind (vec_set (mp_outstanding_rue_event m) (unat flow_id) x) (\<lambda>v.
       Inr (old \<noteq> x, m\<lparr>mp_outstanding_rue_event := v\<rparr>)))"

definition gen2_GetNumAcked :: "u8 \<Rightarrow> mp_metadata \<Rightarrow> u32 res" where
  "gen2_GetNumAcked flow_id m = vec_get (mp_num_acked m) (unat flow_id)"

definition gen2_ResetNumAcked :: "u8 \<Rightarrow> mp_metadata \<Rightarrow> mp_metadata res" where
  "gen2_ResetNumAcked flow_id m =
     res_bind (vec_set (mp_num_acked m) (unat flow_id) 0) (\<lambda>v. Inr (m\<lparr>mp_num_acked := v\<rparr>))"

definition gen2_AccumulateNumAcked :: "u8 \<Rightarrow> mp_metadata \<Rightarrow> mp_metadata res" where
  "gen2_AccumulateNumAcked flow_id m =
     res_bind (vec_get (mp_num_acked m) (unat flow_id)) (\<lambda>k.
     res_bind (vec_set (mp_num_acked m) (unat flow_id) (k + 1)) (\<lambda>v. Inr (m\<lparr>mp_num_acked := v\<rparr>)))"

text \<open>
  A stale ACK is dropped with an error, reported to the rate update engine (\<open>Inr True\<close>), or handled as in the first
  generation (\<open>Inr False\<close>).
\<close>

definition gen2_HandleStaleAck :: "bool \<Rightarrow> bool \<Rightarrow> u32 \<Rightarrow> u32 \<Rightarrow> mp_metadata \<Rightarrow> (status + bool) res" where
  "gen2_HandleStaleAck single_path_accept multipath_accept degree flow_label m =
     (if num_flows m = 1 \<and> single_path_accept \<or> 1 < num_flows m \<and> multipath_accept
      then res_bind (flow_id_of_label degree flow_label) (\<lambda>flow_id.
           res_bind (vec_get (mp_num_acked m) (unat flow_id)) (\<lambda>k.
             Inr (if k = 0 then Inl FailedPreconditionError else Inr True)))
      else Inr (Inr False))"

section \<open>Choosing a path\<close>

datatype path_selection_policy =
    OPEN_LOOP_FCWND_WEIGHTED_ROUND_ROBIN
  | OPEN_LOOP_ROUND_ROBIN
  | CLOSED_LOOP_MAX_OPEN_FCWND_RR_WHEN_TIE

datatype path_policy = WrrPolicy bool "u8 wrr" | SpPolicy "u8 sp_policy"   \<comment> \<open>the flag: weights are fetched\<close>

definition fetch_flow_weight :: "bool \<Rightarrow> mp_metadata \<Rightarrow> (u8 \<Rightarrow> int) option" where
  "fetch_flow_weight weighted m = (if weighted then Some (\<lambda>flow_id. uint (mp_flow_weights m ! unat flow_id)) else None)"

text \<open>The difference is computed in 32 unsigned bits and returned as a signed number.\<close>

definition fetch_flow_priority :: "mp_metadata \<Rightarrow> u8 \<Rightarrow> int" where
  "fetch_flow_priority m flow_id =
     sint (drop_bit 10 (mp_flow_fcwnds m ! unat flow_id) - mp_outstanding_count m ! unat flow_id)"

fun add_wrr_flows :: "(u8 \<Rightarrow> int) option \<Rightarrow> u8 list \<Rightarrow> u8 wrr \<Rightarrow> u8 wrr res" where
  "add_wrr_flows fetcher [] p = Inr p"
| "add_wrr_flows fetcher (f # fs) p =
     (case InitializeEntity fetcher f p of (status, p1) \<Rightarrow>
        check (status = OkStatus) (res_bind (MarkEntityActive f p1) (\<lambda>(_, p2). add_wrr_flows fetcher fs p2)))"

definition gen2_InitializeConnection :: "path_selection_policy \<Rightarrow> bool \<Rightarrow> mp_metadata \<Rightarrow> path_policy res" where
  "gen2_InitializeConnection policy batched_packet_scheduling m =
     (let weighted = (policy = OPEN_LOOP_FCWND_WEIGHTED_ROUND_ROBIN)
      in res_bind (add_wrr_flows (fetch_flow_weight weighted m) (map of_nat [0..<length (mp_flow_weights m)])
           (wrr_new batched_packet_scheduling False)) (\<lambda>p. Inr (WrrPolicy weighted p)))"

fun add_sp_flows :: "u8 list \<Rightarrow> u8 sp_policy \<Rightarrow> u8 sp_policy res" where
  "add_sp_flows [] p = Inr p"
| "add_sp_flows (f # fs) p =
     (case sp_InitializeEntity f p of (status, p1) \<Rightarrow> check (status = OkStatus) (add_sp_flows fs p1))"

definition gen3_InitializeConnection :: "path_selection_policy \<Rightarrow> bool \<Rightarrow> mp_metadata \<Rightarrow> path_policy res" where
  "gen3_InitializeConnection policy batched_packet_scheduling m =
     (if policy = OPEN_LOOP_ROUND_ROBIN \<or> policy = OPEN_LOOP_FCWND_WEIGHTED_ROUND_ROBIN
      then gen2_InitializeConnection policy batched_packet_scheduling m
      else res_bind (add_sp_flows (map of_nat [0..<num_flows m]) StrictPriorityPolicy_new) (\<lambda>p. Inr (SpPolicy p)))"

definition ResetWrrForConnection :: "mp_metadata \<Rightarrow> path_policy \<Rightarrow> path_policy res" where
  "ResetWrrForConnection m pp =
     (case pp of
        WrrPolicy weighted p \<Rightarrow> res_bind (ResetAndRestartRound (fetch_flow_weight weighted m) p) (\<lambda>p'. Inr (WrrPolicy weighted p'))
      | SpPolicy p \<Rightarrow> Inr pp)"

text \<open>\<^verbatim>\<open>CHECK_OK_THEN_ASSIGN(chosen_flow_id, path_selection_policies_[scid]->GetNextEntity())\<close>.\<close>

definition next_flow :: "mp_metadata \<Rightarrow> path_policy \<Rightarrow> (u8 \<times> path_policy) res" where
  "next_flow m pp =
     (case pp of
        WrrPolicy weighted p \<Rightarrow> res_bind (GetNextEntity (fetch_flow_weight weighted m) p) (\<lambda>(r, p'). case r of
          Inl _ \<Rightarrow> Inl CheckFailed | Inr f \<Rightarrow> Inr (f, WrrPolicy weighted p'))
      | SpPolicy p \<Rightarrow> res_bind (sp_GetNextEntity (fetch_flow_priority m) p) (\<lambda>(r, p'). case r of
          Inl _ \<Rightarrow> Inl CheckFailed | Inr f \<Rightarrow> Inr (f, SpPolicy p')))"

definition ChooseRetxFlowLabel :: "u32 \<Rightarrow> u32 \<Rightarrow> mp_metadata \<Rightarrow> u32 res" where
  "ChooseRetxFlowLabel degree flow_label m =
     res_bind (flow_id_of_label degree flow_label) (\<lambda>flow_id. vec_get (mp_flow_labels m) (unat flow_id))"

definition mp_ChooseOutgoingPacketFlowLabel ::
  "connection \<Rightarrow> u32 \<Rightarrow> packet_type \<Rightarrow> u32 \<Rightarrow> mp_metadata \<times> path_policy \<Rightarrow> (u32 \<times> path_policy) res" where
  "mp_ChooseOutgoingPacketFlowLabel c rsn type degree mpp =
     (let (m, pp) = mpp in
      res_bind (lookup_packet c rsn type) (\<lambda>(t, p).
        if 1 < pm_transmit_attempts p
        then case pm_active_packet p of
               None \<Rightarrow> Inl UndefinedBehaviour
             | Some pkt \<Rightarrow> res_bind (ChooseRetxFlowLabel degree (pkt_flow_label pkt) m) (\<lambda>label. Inr (label, pp))
        else res_bind (next_flow m pp) (\<lambda>(f, pp').
             res_bind (vec_get (mp_flow_labels m) (unat f)) (\<lambda>label. Inr (label, pp')))))"

section \<open>Packets under way\<close>

definition UpdateOutstandingCounter :: "u8 \<Rightarrow> int \<Rightarrow> mp_metadata \<Rightarrow> mp_metadata res" where
  "UpdateOutstandingCounter flow_id delta m =
     res_bind (vec_get (mp_outstanding_count m) (unat flow_id)) (\<lambda>k.
     res_bind (vec_set (mp_outstanding_count m) (unat flow_id) (k + of_int delta)) (\<lambda>v.
       Inr (m\<lparr>mp_outstanding_count := v\<rparr>)))"

definition UpdateOutstandingCounterAfterNewFlowLabel :: "u8 \<Rightarrow> u8 \<Rightarrow> bool \<Rightarrow> mp_metadata \<Rightarrow> mp_metadata res" where
  "UpdateOutstandingCounterAfterNewFlowLabel old_flow_id new_flow_id is_retx m =
     res_bind (if is_retx then UpdateOutstandingCounter old_flow_id (- 1) m else Inr m)
       (UpdateOutstandingCounter new_flow_id 1)"

definition mp_AfterChooseOutgoingPacketFlowLabel ::
  "connection \<Rightarrow> u32 \<Rightarrow> packet_type \<Rightarrow> u32 \<Rightarrow> u32 \<Rightarrow> u32 \<Rightarrow> mp_metadata \<Rightarrow> mp_metadata res" where
  "mp_AfterChooseOutgoingPacketFlowLabel c rsn type degree old_flow_label new_flow_label m =
     res_bind (lookup_packet c rsn type) (\<lambda>(t, p).
     res_bind (flow_id_of_label degree old_flow_label) (\<lambda>old_flow_id.
     res_bind (flow_id_of_label degree new_flow_label) (\<lambda>new_flow_id.
       UpdateOutstandingCounterAfterNewFlowLabel old_flow_id new_flow_id (1 < pm_transmit_attempts p) m)))"

definition mp_AfterPacketAcked :: "u8 \<Rightarrow> mp_metadata \<Rightarrow> mp_metadata res" where
  "mp_AfterPacketAcked flow_id m =
     res_bind (UpdateOutstandingCounter flow_id (- 1) m) (gen2_AccumulateNumAcked flow_id)"

section \<open>Responses\<close>

text \<open>
  The fields of \<^verbatim>\<open>Response_Gen2\<close> and \<^verbatim>\<open>Response_Gen3\<close> that are read; a response of the third generation has no
  weights.
\<close>

record mp_response =
  mr_fabric_congestion_window :: "21 word"
  mr_inter_packet_gap :: "20 word"
  mr_nic_congestion_window :: "21 word"
  mr_cc_metadata :: "22 word"
  mr_alpha_request :: "4 word"
  mr_alpha_response :: "4 word"
  mr_fabric_window_time_marker :: "24 word"
  mr_nic_window_time_marker :: "24 word"
  mr_delay_state :: "24 word"
  mr_plb_state :: "24 word"
  mr_delay_select :: delay_select
  mr_rtt_state :: "24 word"
  mr_flow_label_1 :: "20 word"
  mr_flow_label_2 :: "20 word"
  mr_flow_label_3 :: "20 word"
  mr_flow_label_4 :: "20 word"
  mr_flow_label_1_weight :: "4 word"
  mr_flow_label_2_weight :: "4 word"
  mr_flow_label_3_weight :: "4 word"
  mr_flow_label_4_weight :: "4 word"
  mr_flow_label_1_valid :: bool
  mr_flow_label_2_valid :: bool
  mr_flow_label_3_valid :: bool
  mr_flow_label_4_valid :: bool
  mr_wrr_restart_round :: bool
  mr_flow_id :: "2 word"
  mr_retransmit_timeout :: "24 word"

definition put_label :: "bool \<Rightarrow> nat \<Rightarrow> 20 word \<Rightarrow> mp_metadata \<Rightarrow> mp_metadata res" where
  "put_label valid i label m =
     (if valid then res_bind (vec_set (mp_flow_labels m) i (ucast label)) (\<lambda>v. Inr (m\<lparr>mp_flow_labels := v\<rparr>)) else Inr m)"

definition put_weight :: "nat \<Rightarrow> 4 word \<Rightarrow> mp_metadata \<Rightarrow> mp_metadata res" where
  "put_weight i weight m = res_bind (vec_set (mp_flow_weights m) i (ucast weight)) (\<lambda>v. Inr (m\<lparr>mp_flow_weights := v\<rparr>))"

text \<open>The branch for several flows: labels, weights, and the restart of the round.\<close>

definition apply_flows :: "mp_response \<Rightarrow> mp_metadata \<times> path_policy \<Rightarrow> (mp_metadata \<times> path_policy) res" where
  "apply_flows r mpp =
     (let (m, pp) = mpp in
      res_bind (put_label (mr_flow_label_1_valid r) 0 (mr_flow_label_1 r) m) (\<lambda>m.
      res_bind (put_label (mr_flow_label_2_valid r) 1 (mr_flow_label_2 r) m) (\<lambda>m.
      res_bind (put_label (mr_flow_label_3_valid r) 2 (mr_flow_label_3 r) m) (\<lambda>m.
      res_bind (put_label (mr_flow_label_4_valid r) 3 (mr_flow_label_4 r) m) (\<lambda>m.
      check (0 < uint (mr_flow_label_1_weight r) + uint (mr_flow_label_2_weight r) + uint (mr_flow_label_3_weight r) +
               uint (mr_flow_label_4_weight r))
       (res_bind (put_weight 0 (mr_flow_label_1_weight r) m) (\<lambda>m.
        res_bind (put_weight 1 (mr_flow_label_2_weight r) m) (\<lambda>m.
        res_bind (put_weight 2 (mr_flow_label_3_weight r) m) (\<lambda>m.
        res_bind (put_weight 3 (mr_flow_label_4_weight r) m) (\<lambda>m.
        res_bind (if mr_wrr_restart_round r then ResetWrrForConnection m pp else Inr pp) (\<lambda>pp.
          Inr (m, pp))))))))))))"

text \<open>What changes for the whole connection; under the bypass algorithm the timeout is kept.\<close>

definition apply_connection :: "rue_env \<Rightarrow> bool \<Rightarrow> mp_response \<Rightarrow> mp_metadata \<Rightarrow> mp_metadata" where
  "apply_connection E bypass r m =
     m\<lparr>mp_ccmeta := (mp_ccmeta m)
         \<lparr>ccm_fabric_congestion_window := ucast (mr_fabric_congestion_window r),
          ccm_inter_packet_gap := FromTimingWheelTimeUnits E (ucast (mr_inter_packet_gap r)),
          ccm_nic_congestion_window := max 1 (drop_bit 10 (ucast (mr_nic_congestion_window r))),
          ccm_retransmit_timeout := (if bypass then ccm_retransmit_timeout (mp_ccmeta m)
             else FromFalconTimeUnits E (ucast (mr_retransmit_timeout r))),
          ccm_cc_metadata := mr_cc_metadata r, ccm_fabric_window_time_marker := mr_fabric_window_time_marker r,
          ccm_nic_window_time_marker := mr_nic_window_time_marker r, ccm_delay_select := mr_delay_select r,
          ccm_delay_state := mr_delay_state r, ccm_rtt_state := mr_rtt_state r\<rparr>,
       mp_plb_state := mr_plb_state r, mp_alpha_request := ucast (mr_alpha_request r),
       mp_alpha_response := ucast (mr_alpha_response r)\<rparr>"

definition gen2_UpdateConnectionStateFromResponse ::
  "rue_env \<Rightarrow> bool \<Rightarrow> mp_response \<Rightarrow> mp_metadata \<times> path_policy \<Rightarrow> (mp_metadata \<times> path_policy) res" where
  "gen2_UpdateConnectionStateFromResponse E bypass r mpp =
     (let (m, pp) = mpp in
      res_bind (if (of_nat (num_flows m) :: u8) = 1
                then res_bind (put_label (mr_flow_label_1_valid r) 0 (mr_flow_label_1 r) m) (\<lambda>m. Inr (m, pp))
                else apply_flows r (m, pp)) (\<lambda>(m, pp).
        Inr (apply_connection E bypass r m, pp)))"

text \<open>\<^verbatim>\<open>swift.h\<close>: the weight of a flow is its share of the connection's window, between 1 and 15.\<close>

definition ComputeFlowWeight :: "real \<Rightarrow> real \<Rightarrow> u8 res" where
  "ComputeFlowWeight flow_fcwnd connection_fcwnd =
     (if connection_fcwnd = 0 then Inl UndefinedBehaviour
      else res_bind (to_unsigned (std_round (double_round (double_round (15 * flow_fcwnd) / connection_fcwnd))) :: u32 res)
        (\<lambda>ratio. Inr (std_clamp (ucast (SaturateHigh 4 ratio)) 1 15)))"

text \<open>
  \<^verbatim>\<open>ConvertGen3ResponseToGen2Response\<close> recovers the weights from the windows of the flows, with the one of the
  response in its place. For a single flow they are left unset, and not read.
\<close>

definition flow_windows :: "mp_response \<Rightarrow> mp_metadata \<Rightarrow> real list res" where
  "flow_windows r m =
     (if length (mp_flow_fcwnds m) < 4 then Inl UndefinedBehaviour
      else Inr ((map (\<lambda>w. FixedToFloat w 10) (take 4 (mp_flow_fcwnds m)))
        [unat (mr_flow_id r) := FixedToFloat (mr_fabric_congestion_window r) 10]))"

definition sum4 :: "real list \<Rightarrow> real" where
  "sum4 ws = double_round (double_round (double_round (ws ! 0 + ws ! 1) + ws ! 2) + ws ! 3)"

definition ConvertGen3ResponseToGen2Response :: "mp_response \<Rightarrow> mp_metadata \<Rightarrow> mp_response res" where
  "ConvertGen3ResponseToGen2Response r m =
     (if (of_nat (num_flows m) :: u8) = 1 then Inr r
      else res_bind (flow_windows r m) (\<lambda>ws.
           res_bind (ComputeFlowWeight (ws ! 0) (sum4 ws)) (\<lambda>w1. res_bind (ComputeFlowWeight (ws ! 1) (sum4 ws)) (\<lambda>w2.
           res_bind (ComputeFlowWeight (ws ! 2) (sum4 ws)) (\<lambda>w3. res_bind (ComputeFlowWeight (ws ! 3) (sum4 ws)) (\<lambda>w4.
             Inr (r\<lparr>mr_flow_label_1_weight := ucast w1, mr_flow_label_2_weight := ucast w2,
                    mr_flow_label_3_weight := ucast w3, mr_flow_label_4_weight := ucast w4,
                    mr_wrr_restart_round := False\<rparr>)))))))"

definition gen3_UpdateConnectionStateFromResponse ::
  "rue_env \<Rightarrow> bool \<Rightarrow> mp_response \<Rightarrow> mp_metadata \<times> path_policy \<Rightarrow> (mp_metadata \<times> path_policy) res" where
  "gen3_UpdateConnectionStateFromResponse E bypass r mpp =
     res_bind (ConvertGen3ResponseToGen2Response r (fst mpp)) (\<lambda>r2.
     res_bind (gen2_UpdateConnectionStateFromResponse E bypass r2 mpp) (\<lambda>(m, pp).
       check (0 < mr_fabric_congestion_window r)
        (let i = (if (of_nat (num_flows m) :: u8) = 1 then 0 else unat (mr_flow_id r))
         in res_bind (vec_set (mp_flow_fcwnds m) i (ucast (mr_fabric_congestion_window r))) (\<lambda>fcwnds.
            res_bind (if (of_nat (num_flows m) :: u8) = 1 then Inr (fcwnds ! 0)
                      else if length fcwnds < 4 then Inl UndefinedBehaviour
                      else FloatToFixed (sum4 (map (\<lambda>w. FixedToFloat w 10) fcwnds)) 10) (\<lambda>total.
            res_bind (vec_set (mp_flow_rtt_state m) i (ucast (mr_rtt_state r))) (\<lambda>rtts.
              Inr (m\<lparr>mp_flow_fcwnds := fcwnds, mp_ccmeta := (mp_ccmeta m)\<lparr>ccm_fabric_congestion_window := total\<rparr>,
                     mp_flow_rtt_state := rtts\<rparr>, pp)))))))"

definition gen2_IsRandomizePath :: "mp_response \<Rightarrow> bool" where
  "gen2_IsRandomizePath r \<longleftrightarrow> mr_flow_label_1_valid r \<or> mr_flow_label_2_valid r \<or> mr_flow_label_3_valid r \<or> mr_flow_label_4_valid r"

text \<open>The labels of a response: a new one for the flow that is rerouted.\<close>

definition UpdateFlowLabels :: "18 word \<Rightarrow> bool \<Rightarrow> u8 \<Rightarrow> mp_response \<Rightarrow> mp_response" where
  "UpdateFlowLabels draw reroute flow_id r =
     (if \<not> reroute then r
      else let new_flow_label = ucast (RandomFlowLabel draw flow_id)
           in if flow_id = 0 then r\<lparr>mr_flow_label_1_valid := True, mr_flow_label_1 := new_flow_label\<rparr>
              else if flow_id = 1 then r\<lparr>mr_flow_label_2_valid := True, mr_flow_label_2 := new_flow_label\<rparr>
              else if flow_id = 2 then r\<lparr>mr_flow_label_3_valid := True, mr_flow_label_3 := new_flow_label\<rparr>
              else if flow_id = 3 then r\<lparr>mr_flow_label_4_valid := True, mr_flow_label_4 := new_flow_label\<rparr>
              else r)"

definition GetFlowIdFromEvent :: "bool \<Rightarrow> 20 word \<Rightarrow> u8" where
  "GetFlowIdFromEvent multipath_enable flow_label = (if multipath_enable then ucast (and flow_label 3) else 0)"

end
