(* ===== verification/Multipath_Flows.thy ===== *)
theory Multipath_Flows
  imports Multipath
begin

text \<open>
  Properties of the paths of a connection: a flow label names its flow, the vectors kept per flow stay in step, the
  counters say how many packets are under way on each flow, and the closed-loop policy of the third generation
  sends a packet on the flow with the most room.
\<close>

section \<open>Labels name their flow\<close>

definition names :: "nat \<Rightarrow> u32 \<Rightarrow> nat \<Rightarrow> bool" where
  "names n label i \<longleftrightarrow> unat label mod n = i"

definition degree_ok :: "nat \<Rightarrow> bool" where
  "degree_ok n \<longleftrightarrow> n = 1 \<or> n = 4"

lemma take_bit_2_mod: "unat (label :: 'a::len word) mod 4 = unat (take_bit 2 label)"
proof -
  have "unat (take_bit 2 label) = take_bit 2 (unat label)" by (rule unsigned_take_bit_eq)
  also have "\<dots> = unat label mod 2 ^ 2" by (rule take_bit_eq_mod)
  finally show ?thesis by simp
qed

lemma unat_u8_u32: "unat (ucast (f :: u8) :: u32) = unat f"
proof -
  have "unat f < 2 ^ 32" using unsigned_less [where 'a = nat, of f] by simp
  then show ?thesis by (simp add: unsigned_ucast_eq take_bit_nat_eq_self)
qed

lemma flow_id_of_label:
  assumes "degree_ok n"
  shows "flow_id_of_label (of_nat n) label = Inr (of_nat (unat label mod n))"
proof -
  have "(ucast (label mod 4) :: u8) = of_nat (unat (label mod 4))" by simp
  also have "unat (label mod 4) = unat label mod 4" by (simp add: unat_mod)
  finally have "(ucast (label mod 4) :: u8) = of_nat (unat label mod 4)" .
  then show ?thesis
    using assms by (auto simp: degree_ok_def flow_id_of_label_def GetGen2MultipathingNumFlows_def GetFlowIdFromFlowLabel_def)
qed


lemma low_bits_or:
  assumes "unat f < 4" and "take_bit 2 x = (0 :: u32)"
  shows "names 4 (or x (ucast (f :: u8))) (unat f)"
proof -
  have "unat (ucast f :: u32) = unat f" by (rule unat_u8_u32)
  then have "take_bit 2 (ucast f :: u32) = ucast f"
    using assms(1) unfolding word_unat_eq_iff unsigned_take_bit_eq by (simp add: take_bit_nat_eq_self)
  then have "take_bit 2 (or x (ucast f)) = (ucast f :: u32)" using assms(2) by (simp add: take_bit_or)
  then show ?thesis using \<open>unat (ucast f :: u32) = unat f\<close> by (simp add: names_def take_bit_2_mod)
qed

lemma Encode_names:
  assumes "degree_ok n" and "i < n"
  shows "\<exists>label. EncodeFlowIdBitsInFlowLabel l (of_nat i) (of_nat n) = Inr label \<and> names n label i"
proof (cases "n = 1")
  case True
  with assms(2) show ?thesis
    by (auto simp: EncodeFlowIdBitsInFlowLabel_def bit_width.simps names_def)
next
  case False
  with assms(1) have n: "n = 4" by (simp add: degree_ok_def)
  have i: "unat (of_nat i :: u8) = i" using assms(2) n by (simp add: unat_of_nat)
  have w: "bit_width 3 = 2" by (simp add: bit_width.simps)
  have "take_bit 2 (and l (not 3)) = (0 :: u32)"
  proof -
    have "(3 :: u32) = mask 2" by (simp add: mask_eq_exp_minus_1)
    then show ?thesis by (auto intro!: bit_word_eqI simp: bit_simps)
  qed
  from low_bits_or [OF _ this, of "of_nat i"] have "names 4 (or (and l (not 3)) (ucast (of_nat i :: u8))) i"
    using assms(2) n i by simp
  moreover have "(ucast (of_nat i :: u8) :: u32) < 4"
    using assms(2) n i unat_u8_u32 [of "of_nat i"] by (simp add: word_less_nat_alt)
  ultimately show ?thesis
    unfolding n EncodeFlowIdBitsInFlowLabel_def by (simp add: w Let_def)
qed

lemma RandomFlowLabel_names:
  assumes "unat f < 4"
  shows "names 4 (ucast (ucast (RandomFlowLabel draw f) :: 20 word)) (unat f)"
proof -
  have "take_bit 2 (push_bit 2 (ucast draw)) = (0 :: u32)" by (auto intro!: bit_word_eqI simp: bit_simps)
  then have "unat (take_bit 2 (RandomFlowLabel draw f)) = unat f"
    using low_bits_or [OF assms, of "push_bit 2 (ucast draw)"] by (simp add: names_def RandomFlowLabel_def take_bit_2_mod)
  moreover have "take_bit 2 (ucast (ucast x :: 20 word) :: u32) = take_bit 2 x" for x :: u32
    by (auto intro!: bit_word_eqI simp: bit_simps)
  ultimately show ?thesis by (simp add: names_def take_bit_2_mod)
qed

section \<open>Well-formed metadata\<close>

definition mp_lens :: "nat \<Rightarrow> mp_metadata \<Rightarrow> bool" where
  "mp_lens n m \<longleftrightarrow> num_flows m = n \<and> length (mp_flow_weights m) = n \<and> length (mp_num_acked m) = n \<and>
     length (mp_outstanding_rue_event m) = n \<and> length (mp_last_rue_event_time m) = n \<and> length (mp_flow_fcwnds m) = n \<and>
     length (mp_outstanding_count m) = n \<and> length (mp_flow_rtt_state m) = n"

definition mp_ok :: "nat \<Rightarrow> mp_metadata \<Rightarrow> bool" where
  "mp_ok n m \<longleftrightarrow> degree_ok n \<and> mp_lens n m \<and> (\<forall>i < n. names n (mp_flow_labels m ! i) i) \<and>
     (\<forall>i < n. 1 \<le> mp_flow_weights m ! i \<and> mp_flow_weights m ! i \<le> 15)"

lemma degree_cases: "degree_ok n \<Longrightarrow> (n = 1 \<Longrightarrow> P) \<Longrightarrow> (n = 4 \<Longrightarrow> P) \<Longrightarrow> P"
  by (auto simp: degree_ok_def)

lemma gen3_Setup_degrees:
  "gen3_SetupGenSpecificConnectionState degree m =
     (if degree = 0 then Inl CheckFailed
      else if degree_ok (unat degree)
      then Inr (OkStatus, m
         \<lparr>mp_flow_labels := resize (unat degree) 0 (mp_flow_labels m), mp_flow_weights := resize (unat degree) 0 (mp_flow_weights m),
          mp_num_acked := resize (unat degree) 0 (mp_num_acked m),
          mp_last_rue_event_time := resize (unat degree) ZeroDuration (mp_last_rue_event_time m),
          mp_outstanding_rue_event := resize (unat degree) False (mp_outstanding_rue_event m),
          mp_flow_fcwnds := resize (unat degree) 0 (mp_flow_fcwnds m),
          mp_outstanding_count := resize (unat degree) 0 (mp_outstanding_count m),
          mp_flow_rtt_state := resize (unat degree) 0 (mp_flow_rtt_state m)\<rparr>)
      else Inr (InvalidArgumentError, m
         \<lparr>mp_flow_fcwnds := resize (unat degree) 0 (mp_flow_fcwnds m),
          mp_outstanding_count := resize (unat degree) 0 (mp_outstanding_count m),
          mp_flow_rtt_state := resize (unat degree) 0 (mp_flow_rtt_state m)\<rparr>))"
proof -
  have "degree = 1 \<longleftrightarrow> unat degree = 1" and "degree = 4 \<longleftrightarrow> unat degree = 4"
    by (simp_all add: word_unat_eq_iff)
  then have "degree_ok (unat degree) \<longleftrightarrow> degree = 1 \<or> degree = 4" by (simp add: degree_ok_def)
  then show ?thesis
    by (auto simp: gen3_SetupGenSpecificConnectionState_def gen2_SetupGenSpecificConnectionState_def
        GetGen2MultipathingNumFlows_def check_def word_greater_zero_iff)
qed

lemma init_gen2_flows_effect:
  assumes "degree_ok n" and "set is \<subseteq> {..<n}" and "distinct is" and "mp_lens n m"
    and "init_gen2_flows random (of_nat n) is m = Inr m'"
  shows "mp_lens n m' \<and> mp_outstanding_count m' = mp_outstanding_count m \<and> mp_ccmeta m' = mp_ccmeta m \<and>
    (\<forall>i \<in> set is. names n (mp_flow_labels m' ! i) i \<and> mp_flow_weights m' ! i = 1) \<and>
    (\<forall>i. i \<notin> set is \<longrightarrow> mp_flow_labels m' ! i = mp_flow_labels m ! i \<and> mp_flow_weights m' ! i = mp_flow_weights m ! i)"
  using assms(2-5)
proof (induction "is" arbitrary: m)
  case (Cons j "is")
  have j: "j < n" using Cons.prems(1) by simp
  obtain label where label: "EncodeFlowIdBitsInFlowLabel (GenerateRandomFlowLabel (random j)) (of_nat j) (of_nat n) = Inr label"
    "names n label j" using Encode_names [OF assms(1) j] by blast
  let ?m = "m\<lparr>mp_flow_labels := (mp_flow_labels m)[j := label], mp_flow_weights := (mp_flow_weights m)[j := 1],
    mp_last_rue_event_time := (mp_last_rue_event_time m)[j := NegInfinite], mp_num_acked := (mp_num_acked m)[j := 0],
    mp_outstanding_rue_event := (mp_outstanding_rue_event m)[j := False]\<rparr>"
  have lens: "mp_lens n ?m" using Cons.prems(3) by (simp add: mp_lens_def)
  have "init_gen2_flows random (of_nat n) is ?m = Inr m'"
    using Cons.prems(3,4) j by (simp add: label(1) mp_lens_def)
  from Cons.IH [OF _ _ lens this] Cons.prems j label(2) show ?case
    by (auto simp: mp_lens_def nth_list_update)
qed simp

lemma init_gen3_flows_effect:
  assumes "set is \<subseteq> {..<n}" and "mp_lens n m" and "init_gen3_flows fcwnd rtt is m = Inr m'"
  shows "mp_lens n m' \<and> mp_outstanding_count m' = mp_outstanding_count m \<and> mp_flow_labels m' = mp_flow_labels m \<and>
    mp_flow_weights m' = mp_flow_weights m \<and> (\<forall>i \<in> set is. mp_flow_fcwnds m' ! i = fcwnd) \<and>
    (\<forall>i. i \<notin> set is \<longrightarrow> mp_flow_fcwnds m' ! i = mp_flow_fcwnds m ! i)"
  using assms
proof (induction "is" arbitrary: m)
  case (Cons j "is")
  let ?m = "m\<lparr>mp_flow_fcwnds := (mp_flow_fcwnds m)[j := fcwnd], mp_flow_rtt_state := (mp_flow_rtt_state m)[j := rtt]\<rparr>"
  have "mp_lens n ?m" and "init_gen3_flows fcwnd rtt is ?m = Inr m'"
    using Cons.prems by (simp_all add: mp_lens_def)
  moreover have "(mp_flow_fcwnds ?m) ! j = fcwnd" using Cons.prems(1,2) by (simp add: mp_lens_def)
  ultimately show ?case using Cons.IH [of ?m] Cons.prems(1) by (cases "j \<in> set is") auto
qed simp

lemma gen3_Initialize_ok:
  assumes "degree_ok n" and "mp_lens n m" and "gen3_InitializeGenSpecificMetadata E random m = Inr m'"
  shows "mp_ok n m'" and "mp_outstanding_count m' = mp_outstanding_count m"
    and "\<exists>fcwnd. mp_flow_fcwnds m' = replicate n fcwnd \<and>
      FloatToFixed (double_round (FixedToFloat (ccm_fabric_congestion_window (mp_ccmeta m)) 10 / real n)) 10 = Inr fcwnd"
proof -
  from assms(2,3) obtain m1 fcwnd rtt where
    fcwnd: "FloatToFixed (double_round (FixedToFloat (ccm_fabric_congestion_window (mp_ccmeta m1)) 10 /
      real (length (mp_flow_fcwnds m1)))) 10 = Inr fcwnd" and
    m1: "init_gen2_flows random (of_nat n) [0..<n] (m\<lparr>mp_plb_state := 0\<rparr>) = Inr m1"
    and m': "init_gen3_flows fcwnd rtt [0..<length (mp_flow_fcwnds m1)] m1 = Inr m'"
    by (auto simp: gen3_InitializeGenSpecificMetadata_def gen2_InitializeGenSpecificMetadata_def res_simps Let_def
        mp_lens_def split: if_splits)
  have l0: "mp_lens n (m\<lparr>mp_plb_state := 0\<rparr>)" using assms(2) by (simp add: mp_lens_def)
  have sub: "set [0..<n] \<subseteq> {..<n}" by auto
  note 1 = init_gen2_flows_effect [OF assms(1) sub distinct_upt l0 m1]
  then have "mp_lens n m1" by blast
  then have len: "length (mp_flow_fcwnds m1) = n" by (simp add: mp_lens_def)
  with m' len have m': "init_gen3_flows fcwnd rtt [0..<n] m1 = Inr m'" by simp
  note 2 = init_gen3_flows_effect [OF sub \<open>mp_lens n m1\<close> m']
  show "mp_ok n m'" and "mp_outstanding_count m' = mp_outstanding_count m"
    using 1 2 assms(1) by (auto simp: mp_ok_def)
  have "mp_flow_fcwnds m' = replicate n fcwnd" using 2 by (intro nth_equalityI) (simp_all add: mp_lens_def)
  then show "\<exists>fcwnd. mp_flow_fcwnds m' = replicate n fcwnd \<and>
      FloatToFixed (double_round (FixedToFloat (ccm_fabric_congestion_window (mp_ccmeta m)) 10 / real n)) 10 = Inr fcwnd"
    using fcwnd 1 len by simp
qed

section \<open>Responses\<close>

text \<open>A response that reroutes a flow gives it a label of its own.\<close>

definition labels_fit :: "nat \<Rightarrow> mp_response \<Rightarrow> bool" where
  "labels_fit n r \<longleftrightarrow> n = 1 \<or>
     (mr_flow_label_1_valid r \<longrightarrow> names 4 (ucast (mr_flow_label_1 r)) 0) \<and>
     (mr_flow_label_2_valid r \<longrightarrow> names 4 (ucast (mr_flow_label_2 r)) 1) \<and>
     (mr_flow_label_3_valid r \<longrightarrow> names 4 (ucast (mr_flow_label_3 r)) 2) \<and>
     (mr_flow_label_4_valid r \<longrightarrow> names 4 (ucast (mr_flow_label_4 r)) 3)"

lemma UpdateFlowLabels_fit: "labels_fit n r \<Longrightarrow> labels_fit n (UpdateFlowLabels draw reroute flow_id r)"
  using RandomFlowLabel_names [of 0 draw] RandomFlowLabel_names [of 1 draw] RandomFlowLabel_names [of 2 draw]
    RandomFlowLabel_names [of 3 draw]
  by (auto simp: labels_fit_def UpdateFlowLabels_def Let_def)

text \<open>Windows of at most 21 bits with ten fractional bits are added without rounding.\<close>

definition fcwnds_fit :: "mp_metadata \<Rightarrow> bool" where
  "fcwnds_fit m \<longleftrightarrow> (\<forall>w \<in> set (mp_flow_fcwnds m). unat w < 2 ^ 21)"

lemma sum4_exact:
  assumes "a < 2 ^ 21" "b < 2 ^ 21" "c < 2 ^ 21" "d < 2 ^ 21"
  shows "sum4 [real a / 2 ^ 10, real b / 2 ^ 10, real c / 2 ^ 10, real d / 2 ^ 10] = real (a + b + c + d) / 2 ^ 10"
proof -
  have r: "double_round (real k / 2 ^ 10) = real k / 2 ^ 10" if "k < 2 ^ 24" for k
    using dbl.exact [of "int k" 10] that by simp
  have "double_round (real a / 2 ^ 10 + real b / 2 ^ 10) = real (a + b) / 2 ^ 10"
    using r [of "a + b"] assms by (simp add: add_divide_distrib)
  moreover have "double_round (real (a + b) / 2 ^ 10 + real c / 2 ^ 10) = real (a + b + c) / 2 ^ 10"
    using r [of "a + b + c"] assms by (simp add: add_divide_distrib)
  moreover have "double_round (real (a + b + c) / 2 ^ 10 + real d / 2 ^ 10) = real (a + b + c + d) / 2 ^ 10"
    using r [of "a + b + c + d"] assms by (simp add: add_divide_distrib)
  ultimately show ?thesis by (simp only: sum4_def nth_Cons_0 nth_Cons_Suc One_nat_def numeral_2_eq_2 numeral_3_eq_3)
qed

lemma ComputeFlowWeight_total:
  assumes "a \<le> t" and "0 < t" and "t < 2 ^ 24"
  shows "\<exists>w. ComputeFlowWeight (real a / 2 ^ 10) (real t / 2 ^ 10) = Inr w \<and> 1 \<le> w \<and> w \<le> 15"
proof -
  have e: "double_round (15 * (real a / 2 ^ 10)) = real (15 * a) / 2 ^ 10"
    using dbl.exact [of "int (15 * a)" 10] assms by simp
  let ?x = "double_round (real (15 * a) / 2 ^ 10 / (real t / 2 ^ 10))"
  have "real (15 * a) / 2 ^ 10 / (real t / 2 ^ 10) \<le> 15" using assms by (simp add: field_simps)
  then have "?x \<le> 15" using dbl.le_int [of _ 15] by simp
  moreover have "0 \<le> ?x" by (rule dbl.nonneg) simp
  ultimately have "0 \<le> std_round ?x" and b: "std_round ?x \<le> 15 + 1 / 2"
    using std_round_near [of ?x] std_round_nonneg [of ?x] by (simp, linarith)
  moreover have "std_round ?x < 2 ^ LENGTH(32)" using b by simp
  ultimately obtain k :: u32 where k: "to_unsigned (std_round ?x) = Inr k" using to_unsigned_total(1) by blast
  have nz: "real t / 2 ^ 10 \<noteq> 0" using assms(2) by simp
  have "ComputeFlowWeight (real a / 2 ^ 10) (real t / 2 ^ 10) = Inr (std_clamp (ucast (SaturateHigh 4 k)) 1 15)"
    unfolding ComputeFlowWeight_def e if_not_P [OF nz] k by simp
  moreover have "(1 :: u8) \<le> 15" by simp
  ultimately show ?thesis using std_clamp_bounds [of "1 :: u8" 15] by blast
qed

lemma ucast_weight:
  assumes "1 \<le> w" and "w \<le> (15 :: u8)"
  shows "1 \<le> (ucast (ucast w :: 4 word) :: u8)" and "(ucast (ucast w :: 4 word) :: u8) \<le> 15"
    and "0 < uint (ucast w :: 4 word)"
proof -
  have "take_bit 4 w = w"
    using assms(2) unfolding word_unat_eq_iff unsigned_take_bit_eq by (simp add: take_bit_nat_eq_self word_le_nat_alt)
  then have eq: "(ucast (ucast w :: 4 word) :: u8) = w" by (auto intro!: bit_word_eqI simp: bit_simps bit_eq_iff)
  then show "1 \<le> (ucast (ucast w :: 4 word) :: u8)" "(ucast (ucast w :: 4 word) :: u8) \<le> 15" using assms by simp_all
  have "(ucast w :: 4 word) \<noteq> 0" using eq assms(1) by auto
  then show "0 < uint (ucast w :: 4 word)" by (simp add: uint_0_iff less_le)
qed

lemma put_label_in:
  "i < num_flows m \<Longrightarrow> put_label valid i label m =
     Inr (m\<lparr>mp_flow_labels := if valid then (mp_flow_labels m)[i := ucast label] else mp_flow_labels m\<rparr>)"
  by (simp add: put_label_def)

lemma put_weight_in:
  "i < length (mp_flow_weights m) \<Longrightarrow> put_weight i w m = Inr (m\<lparr>mp_flow_weights := (mp_flow_weights m)[i := ucast w]\<rparr>)"
  by (simp add: put_weight_def)

text \<open>The labels after a response for four flows.\<close>

definition new_labels :: "mp_response \<Rightarrow> u32 list \<Rightarrow> u32 list" where
  "new_labels r ls =
     [if mr_flow_label_1_valid r then ucast (mr_flow_label_1 r) else ls ! 0,
      if mr_flow_label_2_valid r then ucast (mr_flow_label_2 r) else ls ! 1,
      if mr_flow_label_3_valid r then ucast (mr_flow_label_3 r) else ls ! 2,
      if mr_flow_label_4_valid r then ucast (mr_flow_label_4 r) else ls ! 3]"

lemma length_4: "length xs = 4 \<longleftrightarrow> (\<exists>a b c d. xs = [a, b, c, d])"
  by (auto simp: numeral_eq_Suc length_Suc_conv)

lemma all_less_4: "(\<forall>i < (4 :: nat). P i) \<longleftrightarrow> P 0 \<and> P 1 \<and> P 2 \<and> P 3"
  by (auto simp: numeral_eq_Suc less_Suc_eq)

lemma apply_flows_total:
  assumes "num_flows m = 4" and "length (mp_flow_weights m) = 4" and "\<not> mr_wrr_restart_round r"
    and "0 < uint (mr_flow_label_1_weight r)"
  shows "apply_flows r (m, pp) = Inr (m\<lparr>mp_flow_labels := new_labels r (mp_flow_labels m),
    mp_flow_weights := [ucast (mr_flow_label_1_weight r), ucast (mr_flow_label_2_weight r),
      ucast (mr_flow_label_3_weight r), ucast (mr_flow_label_4_weight r)]\<rparr>, pp)"
proof -
  obtain l1 l2 l3 l4 w1 w2 w3 w4 where "mp_flow_labels m = [l1, l2, l3, l4]" "mp_flow_weights m = [w1, w2, w3, w4]"
    using assms(1,2) unfolding length_4 by blast
  moreover have "0 < uint (mr_flow_label_1_weight r) + uint (mr_flow_label_2_weight r) +
      uint (mr_flow_label_3_weight r) + uint (mr_flow_label_4_weight r)"
    using assms(4) by (simp add: add_pos_nonneg)
  ultimately show ?thesis using assms(3)
    by (simp add: apply_flows_def put_label_in put_weight_in new_labels_def check_def numeral_2_eq_2 numeral_3_eq_3)
qed

lemma unat_21_32: "unat (ucast (w :: 21 word) :: u32) = unat w" "unat w < 2 ^ 21"
proof -
  show "unat w < 2 ^ 21" using unsigned_less [where 'a = nat, of w] by simp
  then show "unat (ucast w :: u32) = unat w" by (simp add: unsigned_ucast_eq take_bit_nat_eq_self)
qed

text \<open>The windows of four flows after a response: the sum is exact, and each flow gets a weight.\<close>

lemma windows_after:
  assumes "length (mp_flow_fcwnds m) = 4" and "fcwnds_fit m" and "0 < mr_fabric_congestion_window r"
  defines "fw \<equiv> (mp_flow_fcwnds m)[unat (mr_flow_id r) := ucast (mr_fabric_congestion_window r)]"
  shows "length fw = 4" "\<forall>w \<in> set fw. unat w < 2 ^ 21" "sum_list (map unat fw) < 2 ^ 23" "0 < sum_list (map unat fw)"
    and "flow_windows r m = Inr (map (\<lambda>w. FixedToFloat w 10) fw)"
    and "sum4 (map (\<lambda>w. FixedToFloat w 10) fw) = real (sum_list (map unat fw)) / 2 ^ 10"
    and "i < 4 \<Longrightarrow> \<exists>w. ComputeFlowWeight (map (\<lambda>w. FixedToFloat w 10) fw ! i)
      (sum4 (map (\<lambda>w. FixedToFloat w 10) fw)) = Inr w \<and> 1 \<le> w \<and> w \<le> 15"
proof -
  have f: "unat (mr_flow_id r) < 4" using unsigned_less [where 'a = nat, of "mr_flow_id r"] by simp
  show len: "length fw = 4" using assms(1) by (simp add: fw_def)
  show small: "\<forall>w \<in> set fw. unat w < 2 ^ 21"
    using assms(2) unat_21_32 set_update_subset_insert [of "mp_flow_fcwnds m"]
    by (fastforce simp: fw_def fcwnds_fit_def)
  obtain a b c d where abcd: "fw = [a, b, c, d]" using len by (auto simp: length_4)
  show "sum_list (map unat fw) < 2 ^ 23" using small by (simp add: abcd)
  have "0 < unat (mr_fabric_congestion_window r)" using assms(3) by (simp add: word_less_nat_alt)
  moreover have "fw ! unat (mr_flow_id r) = ucast (mr_fabric_congestion_window r)" using f assms(1) by (simp add: fw_def)
  ultimately have "0 < unat (fw ! unat (mr_flow_id r))" by (simp add: unat_21_32)
  then show pos: "0 < sum_list (map unat fw)"
    using f len by (metis gr0I length_map nth_map nth_mem sum_list_eq_0_iff less_irrefl)
  have "FixedToFloat (ucast (mr_fabric_congestion_window r) :: u32) 10 = FixedToFloat (mr_fabric_congestion_window r) 10"
    by (simp add: FixedToFloat_def unat_21_32)
  then show "flow_windows r m = Inr (map (\<lambda>w. FixedToFloat w 10) fw)"
    using assms(1) by (simp add: flow_windows_def fw_def map_update)
  show sum: "sum4 (map (\<lambda>w. FixedToFloat w 10) fw) = real (sum_list (map unat fw)) / 2 ^ 10"
    using sum4_exact [of "unat a" "unat b" "unat c" "unat d"] small by (simp add: abcd FixedToFloat_def add.assoc)
  assume i: "i < 4"
  have "unat (fw ! i) \<le> sum_list (map unat fw)"
    using i len by (intro member_le_sum_list) simp_all
  then have "\<exists>w. ComputeFlowWeight (real (unat (fw ! i)) / 2 ^ 10) (real (sum_list (map unat fw)) / 2 ^ 10) = Inr w \<and>
      1 \<le> w \<and> w \<le> 15"
    using pos \<open>sum_list (map unat fw) < 2 ^ 23\<close> by (intro ComputeFlowWeight_total) simp_all
  then show "\<exists>w. ComputeFlowWeight (map (\<lambda>w. FixedToFloat w 10) fw ! i) (sum4 (map (\<lambda>w. FixedToFloat w 10) fw)) = Inr w \<and>
      1 \<le> w \<and> w \<le> 15"
    unfolding sum using i len by (simp add: FixedToFloat_def)
qed

lemma new_labels_name:
  assumes "labels_fit 4 r" and "\<forall>i < 4. names 4 (ls ! i) i" and "i < 4"
  shows "names 4 (new_labels r ls ! i) i"
  using assms unfolding labels_fit_def all_less_4 by (auto simp: new_labels_def numeral_eq_Suc less_Suc_eq)

lemma FloatToFixed_exact:
  assumes "k < 2 ^ 32"
  shows "FloatToFixed (real k / 2 ^ 10) 10 = Inr (of_nat k :: u32)"
proof -
  have "std_round (real k / 2 ^ 10 * 2 ^ 10) = real k" by (simp add: std_round_def)
  moreover have "to_unsigned (real k) = Inr (word_of_int \<lfloor>real k\<rfloor> :: u32)"
    using assms by (intro to_unsigned_total(1)) (simp_all flip: of_nat_less_iff)
  ultimately show ?thesis by (simp add: FloatToFixed_def)
qed

lemma gen3_response_one:
  assumes "mp_ok 1 m" and "fcwnds_fit m" and "0 < mr_fabric_congestion_window r"
  shows "\<exists>m'. gen3_UpdateConnectionStateFromResponse E bypass r (m, pp) = Inr (m', pp) \<and> mp_ok 1 m' \<and> fcwnds_fit m' \<and>
    mp_flow_fcwnds m' = [ucast (mr_fabric_congestion_window r)] \<and>
    ccm_fabric_congestion_window (mp_ccmeta m') = ucast (mr_fabric_congestion_window r) \<and>
    mp_outstanding_count m' = mp_outstanding_count m"
proof -
  obtain w where w: "mp_flow_fcwnds m = [w]" using assms(1) by (auto simp: mp_ok_def mp_lens_def length_Suc_conv)
  show ?thesis using assms unat_21_32
    by (auto simp: gen3_UpdateConnectionStateFromResponse_def ConvertGen3ResponseToGen2Response_def
        gen2_UpdateConnectionStateFromResponse_def put_label_in apply_connection_def mp_ok_def mp_lens_def fcwnds_fit_def
        names_def Let_def w check_def)
qed

lemma gen3_response_four:
  assumes "mp_ok 4 m" and "fcwnds_fit m" and "0 < mr_fabric_congestion_window r" and "labels_fit 4 r"
  defines "fw \<equiv> (mp_flow_fcwnds m)[unat (mr_flow_id r) := ucast (mr_fabric_congestion_window r)]"
  shows "\<exists>m'. gen3_UpdateConnectionStateFromResponse E bypass r (m, pp) = Inr (m', pp) \<and> mp_ok 4 m' \<and> fcwnds_fit m' \<and>
    mp_flow_fcwnds m' = fw \<and> ccm_fabric_congestion_window (mp_ccmeta m') = of_nat (sum_list (map unat fw)) \<and>
    mp_outstanding_count m' = mp_outstanding_count m"
proof -
  have lens: "mp_lens 4 m" and names: "\<forall>i < 4. names 4 (mp_flow_labels m ! i) i" using assms(1) by (simp_all add: mp_ok_def)
  have len: "length (mp_flow_fcwnds m) = 4" "num_flows m = 4" "length (mp_flow_weights m) = 4" using lens by (simp_all add: mp_lens_def)
  note w = windows_after [OF len(1) assms(2,3), folded fw_def]
  let ?ws = "map (\<lambda>w. FixedToFloat w 10) fw"
  obtain w1 w2 w3 w4 where weights: "ComputeFlowWeight (?ws ! 0) (sum4 ?ws) = Inr w1" "ComputeFlowWeight (?ws ! 1) (sum4 ?ws) = Inr w2"
      "ComputeFlowWeight (?ws ! 2) (sum4 ?ws) = Inr w3" "ComputeFlowWeight (?ws ! 3) (sum4 ?ws) = Inr w4"
    and range: "1 \<le> w1" "w1 \<le> 15" "1 \<le> w2" "w2 \<le> 15" "1 \<le> w3" "w3 \<le> 15" "1 \<le> w4" "w4 \<le> 15"
    using w(7) [of 0] w(7) [of 1] w(7) [of 2] w(7) [of 3] by auto
  let ?r = "r\<lparr>mr_flow_label_1_weight := ucast w1, mr_flow_label_2_weight := ucast w2, mr_flow_label_3_weight := ucast w3,
    mr_flow_label_4_weight := ucast w4, mr_wrr_restart_round := False\<rparr>"
  have conv: "ConvertGen3ResponseToGen2Response r m = Inr ?r"
    using len(2) by (simp add: ConvertGen3ResponseToGen2Response_def w(5) weights weights(2) [unfolded One_nat_def])
  let ?m1 = "m\<lparr>mp_flow_labels := new_labels ?r (mp_flow_labels m), mp_flow_weights :=
    [ucast (ucast w1 :: 4 word), ucast (ucast w2 :: 4 word), ucast (ucast w3 :: 4 word), ucast (ucast w4 :: 4 word)]\<rparr>"
  have flows: "apply_flows ?r (m, pp) = Inr (?m1, pp)"
    using apply_flows_total [OF len(2,3), of ?r pp] ucast_weight(3) [OF range(1,2)] by simp
  have gen2: "gen2_UpdateConnectionStateFromResponse E bypass ?r (m, pp) = Inr (apply_connection E bypass ?r ?m1, pp)"
    unfolding gen2_UpdateConnectionStateFromResponse_def using len(2) by (simp add: flows)
  let ?m2 = "apply_connection E bypass ?r ?m1"
  have same: "num_flows ?m2 = 4" "mp_flow_fcwnds ?m2 = mp_flow_fcwnds m" "mp_flow_rtt_state ?m2 = mp_flow_rtt_state m"
    by (simp_all add: apply_connection_def new_labels_def)
  have f: "unat (mr_flow_id r) < 4" using unsigned_less [where 'a = nat, of "mr_flow_id r"] by simp
  have total: "FloatToFixed (sum4 ?ws) 10 = Inr (of_nat (sum_list (map unat fw)) :: u32)"
    unfolding w(6) by (rule FloatToFixed_exact) (use w(3) in simp)
  let ?m' = "?m2\<lparr>mp_flow_fcwnds := fw, mp_ccmeta := (mp_ccmeta ?m2)\<lparr>ccm_fabric_congestion_window :=
    of_nat (sum_list (map unat fw))\<rparr>, mp_flow_rtt_state := (mp_flow_rtt_state m)[unat (mr_flow_id r) := ucast (mr_rtt_state r)]\<rparr>"
  have "gen3_UpdateConnectionStateFromResponse E bypass r (m, pp) = Inr (?m', pp)"
    unfolding gen3_UpdateConnectionStateFromResponse_def fst_conv conv res_bind_Inr gen2
    using same f len assms(3) lens by (simp add: fw_def [symmetric] total w(1) Let_def mp_lens_def)
  moreover have "mp_ok 4 ?m'"
    using lens w(1) range names new_labels_name [of ?r "mp_flow_labels m"] assms(4)
    by (auto simp: mp_ok_def mp_lens_def degree_ok_def apply_connection_def new_labels_def labels_fit_def all_less_4 ucast_weight)
  moreover have "fcwnds_fit ?m'" using w(2) by (simp add: fcwnds_fit_def)
  ultimately show ?thesis by (intro exI [of _ ?m']) (simp add: apply_connection_def)
qed

end
