(* ===== verification/Multipath_Runs.thy ===== *)
theory Multipath_Runs
  imports Multipath_Flows Rate_Update_Runs Reliability_Windows
begin

text \<open>
  A connection of the third generation along any sequence of transmissions, retransmissions, acknowledgements, responses
  and bookkeeping of the rate update engine: what is under way on each flow, and where the next packet goes.
\<close>

section \<open>Runs\<close>

text \<open>
  \<open>mp_run E d m pp ctx\<close>: a connection of degree \<open>d\<close> has reached the metadata \<open>m\<close> and path policy \<open>pp\<close>; \<open>ctx\<close> holds the flow
  in the context of each outstanding packet, which is named by its window and sequence number. A packet sent again
  still carries the label of its last transmission, the label whose flow is in its context.
\<close>

inductive mp_run ::
  "rue_env \<Rightarrow> u32 \<Rightarrow> mp_metadata \<Rightarrow> path_policy \<Rightarrow> (bool \<times> u32 \<rightharpoonup> u8) \<Rightarrow> bool" for E d where
  start: "gen3_SetupGenSpecificConnectionState d m0 = Inr (OkStatus, m1) \<Longrightarrow> mp_outstanding_count m0 = [] \<Longrightarrow>
    unat (ccm_fabric_congestion_window (mp_ccmeta m0)) < 2 ^ 21 \<Longrightarrow>
    gen3_InitializeGenSpecificMetadata E random m1 = Inr m \<Longrightarrow>
    gen3_InitializeConnection policy batched_scheduling m = Inr pp \<Longrightarrow> mp_run E d m pp Map.empty"
| send: "mp_run E d m pp ctx \<Longrightarrow> lookup_packet c rsn type = Inr (t, p) \<Longrightarrow>
    mp_ChooseOutgoingPacketFlowLabel c rsn type d (m, pp) = Inr (label, pp') \<Longrightarrow>
    mp_AfterChooseOutgoingPacketFlowLabel c rsn type d old label m = Inr m' \<Longrightarrow> flow_id_of_label d label = Inr f \<Longrightarrow>
    (if 1 < pm_transmit_attempts p
     then (\<exists>pkt f0. pm_active_packet p = Some pkt \<and> old = pkt_flow_label pkt \<and> flow_id_of_label d old = Inr f0 \<and> ctx k = Some f0)
     else ctx k = None) \<Longrightarrow>
    mp_run E d m' pp' (ctx(k \<mapsto> f))"
| acked: "mp_run E d m pp ctx \<Longrightarrow> ctx k = Some f \<Longrightarrow> mp_AfterPacketAcked f m = Inr m' \<Longrightarrow> mp_run E d m' pp (ctx(k := None))"
| response: "mp_run E d m pp ctx \<Longrightarrow> labels_fit (unat d) r \<Longrightarrow>
    gen3_UpdateConnectionStateFromResponse E bypass r (m, pp) = Inr (m', pp') \<Longrightarrow> mp_run E d m' pp' ctx"
| event_time: "mp_run E d m pp ctx \<Longrightarrow> gen2_UpdateLastEventTime now f m = Inr m' \<Longrightarrow> mp_run E d m' pp ctx"
| event_flag: "mp_run E d m pp ctx \<Longrightarrow> gen2_UpdateOutstandingEvent f x m = Inr (b, m') \<Longrightarrow> mp_run E d m' pp ctx"
| reset_acked: "mp_run E d m pp ctx \<Longrightarrow> gen2_ResetNumAcked f m = Inr m' \<Longrightarrow> mp_run E d m' pp ctx"

definition in_flight :: "('k \<rightharpoonup> u8) \<Rightarrow> u8 \<Rightarrow> nat" where
  "in_flight ctx f = card {k. ctx k = Some f}"

definition policy_ok :: "nat \<Rightarrow> path_policy \<Rightarrow> bool" where
  "policy_ok n pp \<longleftrightarrow> (case pp of WrrPolicy _ _ \<Rightarrow> True | SpPolicy p \<Rightarrow> sp_ok p \<and> sp_entities p = map of_nat [0..<n])"

definition mp_inv :: "u32 \<Rightarrow> mp_metadata \<Rightarrow> path_policy \<Rightarrow> ('k \<rightharpoonup> u8) \<Rightarrow> bool" where
  "mp_inv d m pp ctx \<longleftrightarrow> mp_ok (unat d) m \<and> fcwnds_fit m \<and> finite (dom ctx) \<and> (\<forall>f \<in> ran ctx. unat f < unat d) \<and>
     (\<forall>f. unat f < unat d \<longrightarrow> mp_outstanding_count m ! unat f = of_nat (in_flight ctx f)) \<and> policy_ok (unat d) pp"

section \<open>Counting\<close>

lemma finite_flow [simp]: "finite (dom ctx) \<Longrightarrow> finite {k. ctx k = Some f}"
  by (rule finite_subset [of _ "dom ctx"]) auto

lemma in_flight_new:
  assumes "finite (dom ctx)" and "ctx k = None"
  shows "in_flight (ctx(k \<mapsto> f)) g = (if g = f then Suc (in_flight ctx g) else in_flight ctx g)"
proof -
  have "{x. (ctx(k \<mapsto> f)) x = Some g} = (if g = f then insert k {x. ctx x = Some g} else {x. ctx x = Some g})"
    using assms(2) by auto
  then show ?thesis using assms by (simp add: in_flight_def)
qed

lemma in_flight_gone:
  assumes "finite (dom ctx)" and "ctx k = Some f"
  shows "in_flight ctx g = (if g = f then Suc (in_flight (ctx(k := None)) g) else in_flight (ctx(k := None)) g)"
proof -
  have "ctx = (ctx(k := None))(k \<mapsto> f)" using assms(2) by auto
  then show ?thesis using in_flight_new [of "ctx(k := None)" k f g] assms(1) by (simp add: fun_upd_idem)
qed

lemma UpdateOutstandingCounter_in:
  assumes "unat f < length (mp_outstanding_count m)"
  shows "UpdateOutstandingCounter f delta m = Inr (m\<lparr>mp_outstanding_count :=
    (mp_outstanding_count m)[unat f := mp_outstanding_count m ! unat f + of_int delta]\<rparr>)"
  using assms by (simp add: UpdateOutstandingCounter_def)

lemma flow_of_label:
  assumes "degree_ok (unat d)"
  shows "flow_id_of_label d label = Inr (of_nat (unat label mod unat d))"
    and "unat (of_nat (unat label mod unat d) :: u8) = unat label mod unat d" and "unat label mod unat d < unat d"
proof -
  show "flow_id_of_label d label = Inr (of_nat (unat label mod unat d))"
    using flow_id_of_label [OF assms, of label] by simp
  show less: "unat label mod unat d < unat d" using assms by (auto simp: degree_ok_def)
  have "unat d \<le> 4" using assms by (auto simp: degree_ok_def)
  then show "unat (of_nat (unat label mod unat d) :: u8) = unat label mod unat d"
    using less by (simp add: unat_of_nat)
qed

section \<open>Invariant\<close>

lemma add_sp_flows_ok:
  assumes "degree_ok n"
  shows "\<exists>p. add_sp_flows (map of_nat [0..<n]) StrictPriorityPolicy_new = Inr p \<and> sp_ok p \<and> sp_entities p = map of_nat [0..<n]"
proof -
  have "[0..<4] = [0, 1, 2, 3 :: nat]" by (simp add: numeral_eq_Suc)
  then show ?thesis
    using assms by (auto simp: degree_ok_def StrictPriorityPolicy_new_def sp_InitializeEntity_def sp_ok_def oset_ok_def)
qed

lemma gen3_InitializeConnection_ok:
  assumes "mp_ok n m" and "gen3_InitializeConnection policy b m = Inr pp"
  shows "policy_ok n pp"
proof -
  have n: "num_flows m = n" "degree_ok n" using assms(1) by (simp_all add: mp_ok_def mp_lens_def)
  show ?thesis using assms(2) add_sp_flows_ok [OF n(2)]
    by (auto simp: gen3_InitializeConnection_def gen2_InitializeConnection_def n(1) Let_def res_simps policy_ok_def
        split: if_splits)
qed

lemma share_fits:
  assumes "k < 2 ^ 21" and "degree_ok n"
  obtains v :: u32 where "FloatToFixed (double_round (real k / 2 ^ 10 / real n)) 10 = Inr v" "unat v < 2 ^ 21"
proof -
  have r: "double_round (real k / 2 ^ e) = real k / 2 ^ e" for e using dbl.exact [of "int k" e] assms(1) by simp
  let ?y = "real k / 2 ^ 10 / real n * 2 ^ 10"
  have e: "double_round (real k / 2 ^ 10 / real n) = real k / 2 ^ 10 / real n"
    using r [of 10] r [of 12] assms(2) by (auto simp: degree_ok_def)
  have y: "?y \<le> real k" "?y = real k \<or> ?y = real k / 4" using assms(2) by (auto simp: degree_ok_def)
  have kr: "real k < 2 ^ 21" using assms(1) by (simp flip: of_nat_less_iff)
  have "0 \<le> real k / 2 ^ 10 / real n" and "?y + 1 < 2 ^ LENGTH(32)" using y(1) kr by simp_all
  then obtain v :: u32 where v: "FloatToFixed (real k / 2 ^ 10 / real n) 10 = Inr v" "real (unat v) = std_round ?y"
    using FloatToFixed_total [where 'a = 32, of "real k / 2 ^ 10 / real n"] by blast
  have "std_round ?y \<le> real k"
  proof (cases "?y = real k")
    case False
    then have q: "?y = real k / 4" "k \<noteq> 0" using y(2) by auto
    show ?thesis unfolding q(1) using std_round_near [of "real k / 4"] q(2) by linarith
  qed (simp add: std_round_def)
  then have "real (unat v) < 2 ^ 21" using v(2) kr by linarith
  then have "unat v < 2 ^ 21" by (metis of_nat_less_iff of_nat_numeral of_nat_power)
  with v(1) show thesis using that [of v] unfolding e by blast
qed

lemma initial_fcwnds_fit:
  assumes "degree_ok n" and "mp_lens n m" and "unat (ccm_fabric_congestion_window (mp_ccmeta m)) < 2 ^ 21"
    and "gen3_InitializeGenSpecificMetadata E random m = Inr m'"
  shows "fcwnds_fit m'"
proof -
  obtain fcwnd where "mp_flow_fcwnds m' = replicate n fcwnd"
    "FloatToFixed (double_round (FixedToFloat (ccm_fabric_congestion_window (mp_ccmeta m)) 10 / real n)) 10 = Inr fcwnd"
    using gen3_Initialize_ok(3) [OF assms(1,2,4)] by blast
  with share_fits [OF assms(3,1)] show ?thesis
    by (metis FixedToFloat_def fcwnds_fit_def in_set_replicate sum.inject(2))
qed

lemma mp_inv_start:
  assumes "gen3_SetupGenSpecificConnectionState d m0 = Inr (OkStatus, m1)" and "mp_outstanding_count m0 = []"
    and "unat (ccm_fabric_congestion_window (mp_ccmeta m0)) < 2 ^ 21"
    and "gen3_InitializeGenSpecificMetadata E random m1 = Inr m" and "gen3_InitializeConnection policy b m = Inr pp"
  shows "mp_inv d m pp Map.empty"
proof -
  have d: "degree_ok (unat d)" and lens: "mp_lens (unat d) m1" and cc: "mp_ccmeta m1 = mp_ccmeta m0"
    and zero: "mp_outstanding_count m1 = replicate (unat d) 0"
    using assms(1,2) by (auto simp: gen3_Setup_degrees mp_lens_def resize_def split: if_splits)
  have ok: "mp_ok (unat d) m" and count: "mp_outstanding_count m = mp_outstanding_count m1"
    using gen3_Initialize_ok [OF d lens assms(4)] by simp_all
  have "fcwnds_fit m" using initial_fcwnds_fit [OF d lens _ assms(4)] assms(3) cc by simp
  then show ?thesis
    using ok gen3_InitializeConnection_ok [OF ok assms(5)] by (simp add: mp_inv_def count zero in_flight_def)
qed

text \<open>The part of a step that sends a packet: the label that was chosen, and the counters.\<close>

lemma next_flow_policy:
  assumes "next_flow m pp = Inr (f, pp')" and "policy_ok n pp"
  shows "policy_ok n pp'"
proof (cases pp)
  case (WrrPolicy w p)
  with assms(1) show ?thesis
    by (cases "GetNextEntity (fetch_flow_weight w m) p") (auto simp: next_flow_def policy_ok_def split: sum.split_asm)
next
  case (SpPolicy p)
  with assms(1) obtain p' where "sp_GetNextEntity (fetch_flow_priority m) p = Inr (Inr f, p')" "pp' = SpPolicy p'"
    by (cases "sp_GetNextEntity (fetch_flow_priority m) p") (auto simp: next_flow_def split: sum.split_asm)
  then show ?thesis using assms(2) SpPolicy
    by (auto simp: sp_GetNextEntity_def policy_ok_def sp_ok_def Let_def split: if_splits option.splits)
qed

lemma choose_keeps_policy:
  assumes "mp_ChooseOutgoingPacketFlowLabel c rsn type d (m, pp) = Inr (label, pp')" and "policy_ok n pp"
  shows "policy_ok n pp'"
  using assms next_flow_policy [of m pp _ pp' n]
  by (auto simp: mp_ChooseOutgoingPacketFlowLabel_def res_simps split: if_splits option.splits)

lemma mp_ok_count:
  "mp_ok n m \<Longrightarrow> length v = length (mp_outstanding_count m) \<Longrightarrow> mp_ok n (m\<lparr>mp_outstanding_count := v\<rparr>)"
  by (simp add: mp_ok_def mp_lens_def)

lemma counted:
  assumes "mp_inv d m pp ctx" and "unat f < unat d" and "policy_ok (unat d) pp'" and "finite (dom ctx')"
    and "\<forall>g \<in> ran ctx'. unat g < unat d"
    and "\<And>g. of_nat (in_flight ctx' g) = (of_nat (in_flight ctx g) + (if g = f then delta else 0) :: u32)"
  shows "mp_inv d (m\<lparr>mp_outstanding_count := (mp_outstanding_count m)[unat f := mp_outstanding_count m ! unat f + delta]\<rparr>) pp' ctx'"
proof -
  have ok: "mp_ok (unat d) m" using assms(1) by (simp add: mp_inv_def)
  then have len: "length (mp_outstanding_count m) = unat d" by (simp add: mp_ok_def mp_lens_def)
  have "(mp_outstanding_count m)[unat f := mp_outstanding_count m ! unat f + delta] ! unat g = of_nat (in_flight ctx' g)"
    if "unat g < unat d" for g
  proof (cases "g = f")
    case True
    have "mp_outstanding_count m ! unat f = of_nat (in_flight ctx f)" using assms(1,2) by (simp add: mp_inv_def)
    then show ?thesis using assms(2) assms(6) [of f] len True by simp
  next
    case False
    then have "unat f \<noteq> unat g" by (auto simp: word_unat_eq_iff)
    moreover have "mp_outstanding_count m ! unat g = of_nat (in_flight ctx g)" using assms(1) that by (simp add: mp_inv_def)
    ultimately show ?thesis using assms(6) [of g] False by simp
  qed
  then show ?thesis
    using assms(1,3-5) mp_ok_count [OF ok] by (simp add: mp_inv_def fcwnds_fit_def)
qed

lemma names_flow:
  assumes "mp_ok (unat d) m" and "i < unat d"
  shows "flow_id_of_label d (mp_flow_labels m ! i) = Inr (of_nat i)" and "unat (of_nat i :: u8) = i"
proof -
  have d: "degree_ok (unat d)" and "names (unat d) (mp_flow_labels m ! i) i" using assms by (simp_all add: mp_ok_def)
  then have "unat (mp_flow_labels m ! i) mod unat d = i" by (simp add: names_def)
  with flow_of_label [OF d, of "mp_flow_labels m ! i"]
  show "flow_id_of_label d (mp_flow_labels m ! i) = Inr (of_nat i)" and "unat (of_nat i :: u8) = i" by simp_all
qed

text \<open>The label of a retransmission names the flow of the label before.\<close>

lemma retx_label:
  assumes "mp_ok (unat d) m" and "flow_id_of_label d old = Inr f"
  shows "ChooseRetxFlowLabel d old m = Inr (mp_flow_labels m ! unat f)" and "unat f < unat d"
    and "flow_id_of_label d (mp_flow_labels m ! unat f) = Inr f"
proof -
  have d: "degree_ok (unat d)" and len: "num_flows m = unat d" using assms(1) by (simp_all add: mp_ok_def mp_lens_def)
  have f: "f = of_nat (unat old mod unat d)" using flow_of_label(1) [OF d, of old] assms(2) by simp
  show less: "unat f < unat d" using flow_of_label(2,3) [OF d, of old] by (simp add: f)
  then show "ChooseRetxFlowLabel d old m = Inr (mp_flow_labels m ! unat f)"
    using assms(2) len by (simp add: ChooseRetxFlowLabel_def)
  show "flow_id_of_label d (mp_flow_labels m ! unat f) = Inr f" using names_flow(1) [OF assms(1) less] by simp
qed

lemma in_flight_moved:
  assumes "ctx k = Some f"
  shows "in_flight (ctx(k \<mapsto> f)) g = in_flight ctx g"
  using assms by (simp add: fun_upd_idem)

lemma mp_inv_send:
  assumes inv: "mp_inv d m pp ctx" and p: "lookup_packet c rsn type = Inr (t, p)"
    and choose: "mp_ChooseOutgoingPacketFlowLabel c rsn type d (m, pp) = Inr (label, pp')"
    and after: "mp_AfterChooseOutgoingPacketFlowLabel c rsn type d old label m = Inr m'"
    and f: "flow_id_of_label d label = Inr f"
    and ctx: "if 1 < pm_transmit_attempts p
      then \<exists>pkt f0. pm_active_packet p = Some pkt \<and> old = pkt_flow_label pkt \<and> flow_id_of_label d old = Inr f0 \<and> ctx k = Some f0
      else ctx k = None"
  shows "mp_inv d m' pp' (ctx(k \<mapsto> f))"
proof -
  have ok: "mp_ok (unat d) m" and fin: "finite (dom ctx)" and ran: "\<forall>g \<in> ran ctx. unat g < unat d" and pol: "policy_ok (unat d) pp"
    using inv by (simp_all add: mp_inv_def)
  have d: "degree_ok (unat d)" and len: "length (mp_outstanding_count m) = unat d"
    using ok by (simp_all add: mp_ok_def mp_lens_def)
  have f_less: "unat f < unat d" using flow_of_label [OF d, of label] f by auto
  have pol': "policy_ok (unat d) pp'" by (rule choose_keeps_policy [OF choose pol])
  have ran': "\<forall>g \<in> ran (ctx(k \<mapsto> f)). unat g < unat d"
    using ran f_less by (auto simp: ran_def split: if_splits)
  obtain f_old where upd: "UpdateOutstandingCounterAfterNewFlowLabel f_old f (1 < pm_transmit_attempts p) m = Inr m'"
    "flow_id_of_label d old = Inr f_old"
    using after p f by (auto simp: mp_AfterChooseOutgoingPacketFlowLabel_def res_simps)
  show ?thesis
  proof (cases "1 < pm_transmit_attempts p")
    case True
    with ctx upd(2) have k: "ctx k = Some f_old" by auto
    note retx = retx_label [OF ok upd(2)]
    have "label = mp_flow_labels m ! unat f_old"
      using choose p True ctx retx(1) by (auto simp: mp_ChooseOutgoingPacketFlowLabel_def res_simps)
    then have "f = f_old" using retx(3) f by simp
    let ?v = "(mp_outstanding_count m)[unat f := mp_outstanding_count m ! unat f - 1]"
    have "m' = m\<lparr>mp_outstanding_count := ?v[unat f := ?v ! unat f + 1]\<rparr>"
      using upd(1) True f_less len \<open>f = f_old\<close>
      by (simp add: UpdateOutstandingCounterAfterNewFlowLabel_def UpdateOutstandingCounter_in)
    then have "m' = m" using f_less len by simp
    then show ?thesis using inv pol' k \<open>f = f_old\<close> by (simp add: mp_inv_def fun_upd_idem)
  next
    case False
    with ctx have k: "ctx k = None" by simp
    have m': "m' = m\<lparr>mp_outstanding_count := (mp_outstanding_count m)[unat f := mp_outstanding_count m ! unat f + 1]\<rparr>"
      using upd(1) False f_less len by (simp add: UpdateOutstandingCounterAfterNewFlowLabel_def UpdateOutstandingCounter_in)
    show ?thesis unfolding m'
      by (rule counted [OF inv f_less pol' _ ran']) (simp_all add: fin in_flight_new [OF fin k])
  qed
qed

lemma mp_inv_acked:
  assumes inv: "mp_inv d m pp ctx" and k: "ctx k = Some f" and m': "mp_AfterPacketAcked f m = Inr m'"
  shows "mp_inv d m' pp (ctx(k := None))"
proof -
  have ok: "mp_ok (unat d) m" and fin: "finite (dom ctx)" and ran: "\<forall>g \<in> ran ctx. unat g < unat d" and pol: "policy_ok (unat d) pp"
    using inv by (simp_all add: mp_inv_def)
  have f_less: "unat f < unat d" using ran k by (auto simp: ran_def)
  have len: "length (mp_outstanding_count m) = unat d" "length (mp_num_acked m) = unat d"
    using ok by (simp_all add: mp_ok_def mp_lens_def)
  let ?m = "m\<lparr>mp_outstanding_count := (mp_outstanding_count m)[unat f := mp_outstanding_count m ! unat f + - 1]\<rparr>"
  have "mp_inv d ?m pp (ctx(k := None))"
  proof (rule counted [OF inv f_less pol])
    show "\<forall>g \<in> ran (ctx(k := None)). unat g < unat d" using ran by (auto simp: ran_def)
    show "of_nat (in_flight (ctx(k := None)) g) = (of_nat (in_flight ctx g) + (if g = f then - 1 else 0) :: u32)" for g
      using in_flight_gone [OF fin k, of g] by simp
  qed (simp add: fin)
  moreover have "m' = ?m\<lparr>mp_num_acked := (mp_num_acked m)[unat f := mp_num_acked m ! unat f + 1]\<rparr>"
    using m' f_less len by (simp add: mp_AfterPacketAcked_def UpdateOutstandingCounter_in gen2_AccumulateNumAcked_def)
  ultimately show ?thesis by (simp add: mp_inv_def mp_ok_def mp_lens_def fcwnds_fit_def)
qed

lemma mp_inv_response:
  assumes inv: "mp_inv d m pp ctx" and fit: "labels_fit (unat d) r"
    and m': "gen3_UpdateConnectionStateFromResponse E bypass r (m, pp) = Inr (m', pp')"
  shows "mp_inv d m' pp' ctx"
proof -
  have ok: "mp_ok (unat d) m" and w: "fcwnds_fit m" using inv by (simp_all add: mp_inv_def)
  have pos: "0 < mr_fabric_congestion_window r"
    using m' by (auto simp: gen3_UpdateConnectionStateFromResponse_def res_simps)
  have "unat d = 1 \<or> unat d = 4" using ok by (simp add: mp_ok_def degree_ok_def)
  then have "pp' = pp \<and> mp_ok (unat d) m' \<and> fcwnds_fit m' \<and> mp_outstanding_count m' = mp_outstanding_count m"
  proof
    assume d: "unat d = 1"
    show ?thesis using gen3_response_one [of m r E bypass pp] ok w pos m' by (auto simp: d)
  next
    assume d: "unat d = 4"
    show ?thesis using gen3_response_four [of m r E bypass pp] ok w pos fit m' by (auto simp: d)
  qed
  then show ?thesis using inv by (simp add: mp_inv_def)
qed

text \<open>The bookkeeping of the rate update engine leaves the counters alone.\<close>

lemma mp_inv_event_time: "mp_inv d m pp ctx \<Longrightarrow> gen2_UpdateLastEventTime now f m = Inr m' \<Longrightarrow> mp_inv d m' pp ctx"
  by (auto simp: gen2_UpdateLastEventTime_def vec_set_def mp_inv_def mp_ok_def mp_lens_def fcwnds_fit_def split: if_splits)

lemma mp_inv_event_flag: "mp_inv d m pp ctx \<Longrightarrow> gen2_UpdateOutstandingEvent f x m = Inr (b, m') \<Longrightarrow> mp_inv d m' pp ctx"
  by (auto simp: gen2_UpdateOutstandingEvent_def vec_get_def vec_set_def mp_inv_def mp_ok_def mp_lens_def fcwnds_fit_def
      split: if_splits)

lemma mp_inv_reset_acked: "mp_inv d m pp ctx \<Longrightarrow> gen2_ResetNumAcked f m = Inr m' \<Longrightarrow> mp_inv d m' pp ctx"
  by (auto simp: gen2_ResetNumAcked_def vec_set_def mp_inv_def mp_ok_def mp_lens_def fcwnds_fit_def split: if_splits)

lemma mp_run_inv: "mp_run E d m pp ctx \<Longrightarrow> mp_inv d m pp ctx"
proof (induction rule: mp_run.induct)
  case (start m0 m1 random m policy batched_scheduling pp)
  show ?case by (rule mp_inv_start [OF start])
next
  case (send m pp ctx c rsn type t p label pp' old m' f k)
  show ?case by (rule mp_inv_send [OF send.IH send.hyps(2-6)])
next
  case (acked m pp ctx k f m')
  show ?case by (rule mp_inv_acked [OF acked.IH acked.hyps(2,3)])
next
  case (response m pp ctx r bypass m' pp')
  show ?case by (rule mp_inv_response [OF response.IH response.hyps(2,3)])
next
  case (event_time m pp ctx now f m')
  show ?case by (rule mp_inv_event_time [OF event_time.IH event_time.hyps(2)])
next
  case (event_flag m pp ctx f x b m')
  show ?case by (rule mp_inv_event_flag [OF event_flag.IH event_flag.hyps(2)])
next
  case (reset_acked m pp ctx f m')
  show ?case by (rule mp_inv_reset_acked [OF reset_acked.IH reset_acked.hyps(2)])
qed

text \<open>A connection of degree one or four does start.\<close>

lemma init_gen2_flows_total:
  "degree_ok n \<Longrightarrow> set is \<subseteq> {..<n} \<Longrightarrow> mp_lens n m \<Longrightarrow> \<exists>m'. init_gen2_flows random (of_nat n) is m = Inr m'"
proof (induction "is" arbitrary: m)
  case (Cons j "is")
  have j: "j < n" using Cons.prems(2) by simp
  obtain label where label: "EncodeFlowIdBitsInFlowLabel (GenerateRandomFlowLabel (random j)) (of_nat j) (of_nat n) = Inr label"
    using Encode_names [OF Cons.prems(1) j] by blast
  let ?m = "m\<lparr>mp_flow_labels := (mp_flow_labels m)[j := label], mp_flow_weights := (mp_flow_weights m)[j := 1],
    mp_last_rue_event_time := (mp_last_rue_event_time m)[j := NegInfinite], mp_num_acked := (mp_num_acked m)[j := 0],
    mp_outstanding_rue_event := (mp_outstanding_rue_event m)[j := False]\<rparr>"
  have "\<exists>m'. init_gen2_flows random (of_nat n) is ?m = Inr m'"
    using Cons.prems by (intro Cons.IH) (simp_all add: mp_lens_def)
  then show ?case using Cons.prems(3) j by (simp add: label mp_lens_def)
qed simp

lemma init_gen3_flows_total:
  "set is \<subseteq> {..<n} \<Longrightarrow> mp_lens n m \<Longrightarrow> \<exists>m'. init_gen3_flows fcwnd rtt is m = Inr m'"
proof (induction "is" arbitrary: m)
  case (Cons j "is")
  let ?m = "m\<lparr>mp_flow_fcwnds := (mp_flow_fcwnds m)[j := fcwnd], mp_flow_rtt_state := (mp_flow_rtt_state m)[j := rtt]\<rparr>"
  have "\<exists>m'. init_gen3_flows fcwnd rtt is ?m = Inr m'"
    using Cons.prems by (intro Cons.IH) (simp_all add: mp_lens_def)
  then show ?case using Cons.prems by (simp add: mp_lens_def)
qed simp

lemma mp_run_starts:
  fixes m0 :: mp_metadata
  assumes "degree_ok (unat d)" and "mp_outstanding_count m0 = []"
    and "unat (ccm_fabric_congestion_window (mp_ccmeta m0)) < 2 ^ 21" and "ToFalconTimeUnits E kDefaultRttState = Inr rtt"
  obtains m p where "mp_run E d m (SpPolicy p) Map.empty"
proof -
  have "d \<noteq> 0" using assms(1) by (auto simp: degree_ok_def)
  then obtain m1 where m1: "gen3_SetupGenSpecificConnectionState d m0 = Inr (OkStatus, m1)" "mp_lens (unat d) m1"
    "mp_ccmeta m1 = mp_ccmeta m0"
    using assms(1) by (simp add: gen3_Setup_degrees mp_lens_def)
  have sub: "set [0..<unat d] \<subseteq> {..<unat d}" by auto
  have lens0: "mp_lens (unat d) (m1\<lparr>mp_plb_state := 0\<rparr>)" using m1(2) by (simp add: mp_lens_def)
  then obtain m2 where m2: "init_gen2_flows (\<lambda>_. 0) (of_nat (unat d)) [0..<unat d] (m1\<lparr>mp_plb_state := 0\<rparr>) = Inr m2"
    using init_gen2_flows_total [OF assms(1) sub] by blast
  have eff: "mp_lens (unat d) m2" "mp_ccmeta m2 = mp_ccmeta m0"
    using init_gen2_flows_effect [OF assms(1) sub distinct_upt lens0 m2] m1(3) by simp_all
  obtain fcwnd :: u32 where fcwnd: "FloatToFixed (double_round (FixedToFloat (ccm_fabric_congestion_window (mp_ccmeta m0)) 10 / real (unat d))) 10 = Inr fcwnd"
    using share_fits [OF assms(3,1)] unfolding FixedToFloat_def by metis
  obtain m where m: "init_gen3_flows fcwnd rtt [0..<unat d] m2 = Inr m" using init_gen3_flows_total [OF sub eff(1)] by blast
  have "num_flows m2 = unat d" "num_flows m1 = unat d" "length (mp_flow_weights m1) = unat d" "length (mp_flow_fcwnds m2) = unat d"
    using eff(1) m1(2) by (simp_all add: mp_lens_def)
  moreover have "unat d \<noteq> 0" using assms(1) by (auto simp: degree_ok_def)
  ultimately have init: "gen3_InitializeGenSpecificMetadata E (\<lambda>_. 0) m1 = Inr m"
    unfolding gen3_InitializeGenSpecificMetadata_def gen2_InitializeGenSpecificMetadata_def
    using m2 fcwnd m assms(4) eff(2) by (auto simp: Let_def check_def)
  have "mp_ok (unat d) m" by (rule gen3_Initialize_ok(1) [OF assms(1) m1(2) init])
  then have "num_flows m = unat d" by (simp add: mp_ok_def mp_lens_def)
  with add_sp_flows_ok [OF assms(1)]
  obtain p where "gen3_InitializeConnection CLOSED_LOOP_MAX_OPEN_FCWND_RR_WHEN_TIE False m = Inr (SpPolicy p)"
    by (auto simp: gen3_InitializeConnection_def)
  from that mp_run.start [OF m1(1) assms(2,3) init this] show thesis .
qed

section \<open>Properties\<close>

lemma in_flight_total:
  assumes "finite (dom ctx)" and "\<forall>f \<in> ran ctx. unat f < n" and "n \<le> 2 ^ 8"
  shows "(\<Sum>i<n. in_flight ctx (of_nat i)) = card (dom ctx)"
proof -
  have u: "unat (of_nat i :: u8) = i" if "i < n" for i using that assms(3) by (simp add: unat_of_nat)
  have "dom ctx = (\<Union>i \<in> {..<n}. {k. ctx k = Some (of_nat i)})"
  proof -
    have "\<exists>i < n. ctx k = Some (of_nat i)" if "ctx k = Some f" for k f
      using assms(2) that by (intro exI [of _ "unat f"]) (auto simp: ran_def)
    then show ?thesis by (auto simp: dom_def)
  qed
  moreover have "card (\<Union>i \<in> {..<n}. {k. ctx k = Some (of_nat i)}) = (\<Sum>i<n. card {k. ctx k = Some (of_nat i)})"
  proof (rule card_UN_disjoint)
    show "\<forall>i \<in> {..<n}. \<forall>j \<in> {..<n}. i \<noteq> j \<longrightarrow> {k. ctx k = Some (of_nat i)} \<inter> {k. ctx k = Some (of_nat j :: u8)} = {}"
      using u by (auto simp: word_unat_eq_iff)
  qed (simp_all add: assms(1))
  ultimately show ?thesis by (simp add: in_flight_def)
qed

text \<open>
  C10. The counters of packets under way are exact. However transmissions, retransmissions, acknowledgements, responses
  that change windows, labels and weights, and the bookkeeping of the rate update engine follow one another, the counter
  of a flow is the number of outstanding packets last sent on it, modulo $2^{32}$, and the flows share out the
  outstanding packets: a label that is replaced while its packets are under way loses none of them.
\<close>

theorem flow_counters_exact:
  assumes "mp_run E d m pp ctx"
  shows "(\<forall>f. unat f < unat d \<longrightarrow> mp_outstanding_count m ! unat f = of_nat (in_flight ctx f)) \<and>
    (\<Sum>i<unat d. in_flight ctx (of_nat i)) = card (dom ctx)"
proof -
  have inv: "mp_inv d m pp ctx" by (rule mp_run_inv [OF assms])
  then have "unat d \<le> 2 ^ 8" by (auto simp: mp_inv_def mp_ok_def degree_ok_def)
  then show ?thesis using inv in_flight_total [of ctx "unat d"] by (simp add: mp_inv_def)
qed


text \<open>The room of a flow: the packets its window still admits, below zero when the window shrank under the packets.\<close>

definition room :: "mp_metadata \<Rightarrow> ('k \<rightharpoonup> u8) \<Rightarrow> u8 \<Rightarrow> int" where
  "room m ctx f = int (unat (mp_flow_fcwnds m ! unat f) div 2 ^ 10) - int (in_flight ctx f)"

lemma in_flight_le: "finite (dom ctx) \<Longrightarrow> in_flight ctx f \<le> card (dom ctx)"
  unfolding in_flight_def by (rule card_mono) auto

lemma sint_small: "- (2 ^ 31) \<le> i \<Longrightarrow> i < 2 ^ 31 \<Longrightarrow> sint (word_of_int i :: u32) = i"
  by (simp add: signed_of_int signed_take_bit_int_eq_self)

lemma priority_is_room:
  assumes "mp_inv d m pp ctx" and "unat f < unat d" and "card (dom ctx) < 2 ^ 31"
  shows "fetch_flow_priority m f = room m ctx f"
proof -
  let ?w = "unat (mp_flow_fcwnds m ! unat f)" and ?k = "in_flight ctx f"
  have "finite (dom ctx)" "fcwnds_fit m" "length (mp_flow_fcwnds m) = unat d"
    and count: "mp_outstanding_count m ! unat f = of_nat ?k"
    using assms(1,2) by (simp_all add: mp_inv_def mp_ok_def mp_lens_def)
  then have w: "?w < 2 ^ 21" and k: "?k < 2 ^ 31"
    using assms(2,3) in_flight_le [of ctx f] by (simp_all add: fcwnds_fit_def)
  have "drop_bit 10 (mp_flow_fcwnds m ! unat f) = of_nat (?w div 2 ^ 10)"
  proof -
    have "?w div 2 ^ 10 < 2 ^ 32" using w by (simp add: div_less_dividend less_mult_imp_div_less)
    then have "unat (of_nat (?w div 2 ^ 10) :: u32) = ?w div 2 ^ 10" by (simp add: unat_of_nat)
    then show ?thesis unfolding word_unat_eq_iff unsigned_drop_bit_eq drop_bit_eq_div by (simp add: unat_div)
  qed
  then have "drop_bit 10 (mp_flow_fcwnds m ! unat f) - of_nat ?k = (word_of_int (room m ctx f) :: u32)"
    by (simp add: room_def)
  moreover have "sint (word_of_int (room m ctx f) :: u32) = room m ctx f"
    using sint_small [of "room m ctx f"] w k by (simp only: room_def) simp
  ultimately show ?thesis by (simp add: fetch_flow_priority_def count)
qed

lemma next_flow_most_room:
  assumes inv: "mp_inv d m (SpPolicy p) ctx" and "card (dom ctx) < 2 ^ 31"
  obtains f p' where "next_flow m (SpPolicy p) = Inr (f, SpPolicy p')" "unat f < unat d"
    "\<And>g. unat g < unat d \<Longrightarrow> room m ctx g \<le> room m ctx f"
proof -
  let ?es = "sp_entities p"
  have "sp_ok p" and es: "?es = map of_nat [0..<unat d]" and d: "degree_ok (unat d)"
    using inv by (simp_all add: mp_inv_def policy_ok_def mp_ok_def)
  then have ok: "oset_ok ?es" and l: "?es \<noteq> [] \<longrightarrow> sp_last_serviced_entity p \<noteq> None" unfolding sp_ok_def by blast+
  have mem: "g \<in> set ?es \<longleftrightarrow> unat g < unat d" for g
  proof -
    have "unat (of_nat i :: u8) = i" if "i < unat d" for i
      using that d by (auto simp: degree_ok_def unat_of_nat)
    then show ?thesis unfolding es by (auto intro!: image_eqI [of _ _ "unat g"])
  qed
  have ne: "?es \<noteq> []" using d by (auto simp: es degree_ok_def)
  with l obtain x where x: "sp_last_serviced_entity p = Some x" by blast
  let ?f = "hd (turns x (tops (fetch_flow_priority m) ?es))"
  have "turns x (tops (fetch_flow_priority m) ?es) \<noteq> []"
    using tops_nonempty [OF ne] by (metis set_turns set_empty)
  then have "?f \<in> set (tops (fetch_flow_priority m) ?es)" by (metis hd_in_set set_turns)
  then have f: "?f \<in> set ?es" "\<And>g. g \<in> set ?es \<Longrightarrow> fetch_flow_priority m g \<le> fetch_flow_priority m ?f"
    by (simp_all add: tops_def)
  show thesis
  proof (rule that)
    show "next_flow m (SpPolicy p) = Inr (?f, SpPolicy (p\<lparr>sp_last_serviced_entity := Some ?f\<rparr>))"
      by (simp add: next_flow_def sp_GetNextEntity_turns [OF ok ne x])
    show "unat ?f < unat d" using f(1) mem by blast
    show "room m ctx g \<le> room m ctx ?f" if "unat g < unat d" for g
      using f(2) [of g] f(1) that priority_is_room [OF inv _ assms(2)] mem by metis
  qed
qed

text \<open>
  C11. Where a packet goes. A packet that is sent for the first time under the closed-loop policy of the third generation
  goes out on a flow with the most room: no flow's window admits more packets beyond those under way, computed from the
  windows of the rate update engine and the packets that are really outstanding, and a label for it is always found. A
  retransmission stays on the flow of the transmission before, under the flow's current label.
\<close>

theorem packet_takes_flow_with_most_room:
  assumes "mp_run E d m pp ctx" and "lookup_packet c rsn type = Inr (t, k)" and "card (dom ctx) < 2 ^ 31"
  shows "if 1 < pm_transmit_attempts k
    then \<forall>pkt. pm_active_packet k = Some pkt \<longrightarrow> (\<exists>f. flow_id_of_label d (pkt_flow_label pkt) = Inr f \<and>
      flow_id_of_label d (mp_flow_labels m ! unat f) = Inr f \<and>
      mp_ChooseOutgoingPacketFlowLabel c rsn type d (m, pp) = Inr (mp_flow_labels m ! unat f, pp))
    else \<forall>p. pp = SpPolicy p \<longrightarrow> (\<exists>f p'. unat f < unat d \<and> flow_id_of_label d (mp_flow_labels m ! unat f) = Inr f \<and>
      mp_ChooseOutgoingPacketFlowLabel c rsn type d (m, pp) = Inr (mp_flow_labels m ! unat f, SpPolicy p') \<and>
      (\<forall>g. unat g < unat d \<longrightarrow> room m ctx g \<le> room m ctx f))"
proof -
  have inv: "mp_inv d m pp ctx" by (rule mp_run_inv [OF assms(1)])
  then have ok: "mp_ok (unat d) m" by (simp add: mp_inv_def)
  then have d: "degree_ok (unat d)" and len: "num_flows m = unat d" by (simp_all add: mp_ok_def mp_lens_def)
  have first: "\<exists>f p'. unat f < unat d \<and> flow_id_of_label d (mp_flow_labels m ! unat f) = Inr f \<and>
      mp_ChooseOutgoingPacketFlowLabel c rsn type d (m, pp) = Inr (mp_flow_labels m ! unat f, SpPolicy p') \<and>
      (\<forall>g. unat g < unat d \<longrightarrow> room m ctx g \<le> room m ctx f)"
    if attempts: "\<not> 1 < pm_transmit_attempts k" and pp: "pp = SpPolicy p" for p
  proof -
    obtain f p' where f: "next_flow m (SpPolicy p) = Inr (f, SpPolicy p')" "unat f < unat d"
      "\<And>g. unat g < unat d \<Longrightarrow> room m ctx g \<le> room m ctx f"
      using next_flow_most_room [OF inv [unfolded pp] assms(3)] by blast
    then have "mp_ChooseOutgoingPacketFlowLabel c rsn type d (m, pp) = Inr (mp_flow_labels m ! unat f, SpPolicy p')"
      using attempts pp len assms(2) by (simp add: mp_ChooseOutgoingPacketFlowLabel_def)
    then show ?thesis using f names_flow(1) [OF ok f(2)] by auto
  qed
  have again: "\<exists>f. flow_id_of_label d (pkt_flow_label pkt) = Inr f \<and>
      flow_id_of_label d (mp_flow_labels m ! unat f) = Inr f \<and>
      mp_ChooseOutgoingPacketFlowLabel c rsn type d (m, pp) = Inr (mp_flow_labels m ! unat f, pp)"
    if "1 < pm_transmit_attempts k" "pm_active_packet k = Some pkt" for pkt
  proof -
    obtain f where f: "flow_id_of_label d (pkt_flow_label pkt) = Inr f" using flow_of_label(1) [OF d] by blast
    then show ?thesis
      using retx_label [OF ok f] that assms(2) by (simp add: mp_ChooseOutgoingPacketFlowLabel_def)
  qed
  show ?thesis using first again by simp
qed

text \<open>A connection with four flows that has just started, and its first pull request.\<close>

definition example_metadata :: mp_metadata where
  "example_metadata = \<lparr>mp_ccmeta = \<lparr>ccm_flow_label = 0, ccm_fabric_congestion_window = 32768, ccm_inter_packet_gap = ZeroDuration,
       ccm_nic_congestion_window = 64, ccm_retransmit_timeout = Finite 1000000, ccm_cc_metadata = 0,
       ccm_fabric_window_time_marker = 0, ccm_nic_window_time_marker = 0, ccm_nic_window_direction = kDecrease,
       ccm_delay_select = kFabric, ccm_base_delay = 0, ccm_delay_state = 0, ccm_rtt_state = 0, ccm_cc_opaque = 0,
       ccm_rx_buffer_level = 0, ccm_num_acked = 0, ccm_outstanding_rue_event = False, ccm_last_rue_event_time = NegInfinite\<rparr>,
     mp_plb_state = 0, mp_flow_weights = [], mp_flow_labels = [], mp_num_acked = [], mp_outstanding_rue_event = [],
     mp_last_rue_event_time = [], mp_flow_fcwnds = [], mp_outstanding_count = [], mp_flow_rtt_state = [],
     mp_alpha_request = 0, mp_alpha_response = 0\<rparr>"

lemma example_mp_run: obtains m p where "mp_run example_rue_env 4 m (SpPolicy p) Map.empty"
proof -
  obtain rtt where "ToFalconTimeUnits example_rue_env kDefaultRttState = Inr rtt"
    using ToFalconTimeUnits_ok [of example_rue_env kDefaultRttState]
    by (auto simp: units_ok_def time_ok_def example_rue_env_def kDefaultRttState_def)
  then show thesis
    using mp_run_starts [of 4 example_metadata example_rue_env rtt] that by (auto simp: degree_ok_def example_metadata_def)
qed

theorem flow_counters_exact_witness:
  "\<exists>m p. mp_run example_rue_env 4 m (SpPolicy p) Map.empty \<and> mp_outstanding_count m ! 3 = 0"
proof -
  obtain m p where run: "mp_run example_rue_env 4 m (SpPolicy p) Map.empty" by (rule example_mp_run)
  have "unat (3 :: u8) < unat (4 :: u32)" by simp
  then have "mp_outstanding_count m ! unat (3 :: u8) = of_nat (in_flight (Map.empty :: bool \<times> u32 \<rightharpoonup> u8) 3)"
    using flow_counters_exact [OF run] by blast
  then have "mp_outstanding_count m ! 3 = 0" by (simp add: in_flight_def)
  then show ?thesis using run by blast
qed


theorem packet_takes_flow_with_most_room_witness:
  "\<exists>m p f p'. mp_run example_rue_env 4 m (SpPolicy p) Map.empty \<and> unat (f :: u8) < 4 \<and>
     mp_ChooseOutgoingPacketFlowLabel example_pull_sent 9 kPullRequest 4 (m, SpPolicy p) = Inr (mp_flow_labels m ! unat f, SpPolicy p')"
proof -
  obtain m p where run: "mp_run example_rue_env 4 m (SpPolicy p) Map.empty" by (rule example_mp_run)
  obtain t k where k: "lookup_packet example_pull_sent 9 kPullRequest = Inr (t, k)" "\<not> 1 < pm_transmit_attempts k"
    by (simp add: lookup_packet_def example_pull_sent_def GetTransaction_def
        GetPacketMetadata_def PacketMetadata_new_def TransactionMetadata_new_def)
  have none: "card (dom (Map.empty :: bool \<times> u32 \<rightharpoonup> u8)) < 2 ^ 31" by simp
  obtain f :: u8 and p' where "unat f < unat (4 :: u32)"
    "mp_ChooseOutgoingPacketFlowLabel example_pull_sent 9 kPullRequest 4 (m, SpPolicy p) = Inr (mp_flow_labels m ! unat f, SpPolicy p')"
    using packet_takes_flow_with_most_room [OF run k(1) none, unfolded if_not_P [OF k(2)]] by blast
  then show ?thesis using run by (intro exI [of _ m] exI [of _ p] exI [of _ f] exI [of _ p']) simp
qed

end
