(* ===== verification/Spec2Isabelle.thy ===== *)
theory Spec2Isabelle
  imports Resource_Manager Inter_Host_Rx Admission_Control Arbiter Reliability_Delivery Scheduler_Eligibility Rate_Update_Config
    Reliability_Nack Multipath_Runs
begin

text \<open>
  A verification library for isekai, the simulator of the Falcon transport protocol: the
  protocol engine of \<^verbatim>\<open>src/isekai/host/falcon\<close> (first generation, \<^verbatim>\<open>gen1\<close>, and the multipath connections of
  \<^verbatim>\<open>gen2\<close> and \<^verbatim>\<open>gen3\<close>) and the parts of
  \<^verbatim>\<open>src/isekai/common\<close> it rests on.

  \<^bold>\<open>The program.\<close> A Falcon host carries requests of an upper layer protocol (ULP, an RDMA model)
  over an unreliable network. A request becomes a transaction of a connection
  (\<^verbatim>\<open>falcon_connection_state.cc\<close>); its packets need credits of shared pools
  (\<^verbatim>\<open>resource_manager.cc\<close>) and pass admission control (\<^verbatim>\<open>admission_control_manager.cc\<close>); schedulers that
  pick connections and queues by a weighted round-robin policy
  (\<^verbatim>\<open>weighted_round_robin_policy.h\<close>) compete through an arbiter (\<^verbatim>\<open>round_robin_arbiter.cc\<close>). Received
  packets go through the reorder engine (\<^verbatim>\<open>buffer_reorder_engine.cc\<close>) and reach the ULP of the right host
  through the inter-host receive scheduler (\<^verbatim>\<open>inter_host_rx_scheduler.cc\<close>). Between them stands the sliding
  window layer (\<^verbatim>\<open>packet_reliability_manager.cc\<close>): it numbers packets, decides which received packets are new,
  acknowledges them through the coalescing engine (\<^verbatim>\<open>ack_coalescing_engine.cc\<close>), and retransmits those that get
  lost. Windows are kept in bitmaps (\<^verbatim>\<open>falcon_bitmap.cc\<close>, \<^verbatim>\<open>common/bitmap.cc\<close>), rates in token buckets
  (\<^verbatim>\<open>common/token_bucket.cc\<close>).

  \<^bold>\<open>The theories.\<close>
  \<^item> \<open>Falcon_Prelude\<close>: outcomes (\<open>'a res\<close>: a failed \<^verbatim>\<open>CHECK\<close>, a \<^verbatim>\<open>LOG(FATAL)\<close> or undefined behaviour is
    \<open>Inl\<close>), status codes, simulation time, ordered maps (locale \<open>ordered_map\<close>) and sets, words and lists.
  \<^item> \<open>Bitmaps\<close>: both bitmaps against lists of booleans (locale \<open>bit_vector\<close>, interpreted on each);
    first hole, shifting the window, narrowing copies.
  \<^item> \<open>Falcon_Types\<close>: packets, transactions, keys, packet classification, buffer credits of a length.
  \<^item> \<open>Transactions\<close>: \<open>UpdateState\<close> refines the abstract step relation of a transaction's life cycle;
    causality of completions; latency samples add up; transactions created from the ULP and from the network.
  \<^item> \<open>Reorder_Engine\<close>: the four reorder buffers, retries after receiver-not-ready; in-order and complete
    delivery (locale \<open>in_order_buffer\<close>, interpreted on the three buffers drained from their head).
  \<^item> \<open>Token_Bucket\<close>: policing and refilling of the rate limiter.
  \<^item> \<open>Resource_Credits\<close>, \<open>Resource_Manager\<close>: credit vectors (locale \<open>credit_vector\<close>, two
    interpretations); reservation, release, admission zones, xoff, occupancy reflection; what the packets of a
    transaction reserve is what they release.
  \<^item> \<open>Admission_Control\<close>: the solicitation window and the rate limiters under the five policies; the window's
    byte count is exact and never wraps.
  \<^item> \<open>WRR_Policy\<close>: the weighted round-robin policy over any ordered type; its sets partition the entities, its
    checks never fail, a round is fair; locale \<open>work_policy\<close> states what clients rely on and is interpreted
    on the plain round-robin instance.
  \<^item> \<open>Inter_Host_Rx\<close>: per-host queues of callbacks over that policy: first in first out, exactly once, no
    stall, also when callbacks call back into the scheduler.
  \<^item> \<open>Arbiter\<close>: the loop of the arbiter equals its specification and ends; shares by weight; one
    paced event.
  \<^item> \<open>Sequence_Numbers\<close>: comparison of wrapping sequence numbers, sets of packets ordered by it.
  \<^item> \<open>Reliability_State\<close>: the windows and contexts of a connection; calls that leave the sliding window layer are
    listed in the connection in their order, answers that come back are fields of an environment.
  \<^item> \<open>Ack_Coalescing\<close>: the coalescing engine; no received packet is forgotten; what an explicit ACK says.
  \<^item> \<open>Reliability_Tx\<close>, \<open>Reliability_Rx\<close>: every handler of the packet reliability manager.
  \<^item> \<open>Reliability_Windows\<close>: transmit windows as a refinement of a base, a length and a set of acknowledged packets;
    acknowledgements are processed exactly once.
  \<^item> \<open>Reliability_Receive\<close>: the receive side along runs of handlers: packets are accepted at most once, the decision
    on each incoming packet is right.
  \<^item> \<open>Reliability_Delivery\<close>: the acknowledgement built by a receiver, processed by the sender.
  \<^item> \<open>Scheduler_Host\<close>: the host as the schedulers see it (connections, sliding window layer, admission control, both
    schedulers), the queues by packet type, recomputation of eligibility, gating variables.
  \<^item> \<open>Retransmission_Scheduler\<close>: its operations and those of the ack/nack scheduler; the active connections are the
    eligible ones along every run, so that the check before a retransmission never fails.
  \<^item> \<open>Connection_Scheduler\<close>, \<open>Scheduler_Eligibility\<close>: first transmissions; queues are first in first out, the
    invariant that ties eligibility to the gating criteria along every run, and the case in which the scheduler's own
    check fails.
  \<^item> \<open>Doubles\<close>: rounding to double precision (locale \<open>rounding\<close>, interpreted on rounding to 53 bits with ties to
    even), conversions to integers and fixed point.
  \<^item> \<open>Rue_Format\<close>: events and responses of the rate update engine, bit masks, timing of packets and window guards.
  \<^item> \<open>Swift_Algorithm\<close>, \<open>Swift_Windows\<close>: the congestion control algorithm Swift; every event is answered within
    the configured bounds, and the fabric window shrinks at most once per round trip.
  \<^item> \<open>Rate_Update_Engine\<close>: the rate update engine around the algorithm: thresholds of the event queue, the adapter that
    queues events and responses, formats of the first generation, latency generators, metadata of connections.
  \<^item> \<open>Rate_Update_Runs\<close>: the engine along runs (locale \<open>rate_algorithm\<close> for what it needs of an algorithm, interpreted
    on Swift): no check fails while times fit their width, each connection has at most one outstanding event.
  \<^item> \<open>Rate_Update_Config\<close>: the default configuration and the constructor; the engine it builds meets those conditions.
  \<^item> \<open>Reliability_Nack\<close>: the handler of a NACK returns.
  \<^item> \<open>Strict_Priority\<close>: the path selection policy of the third generation over any ordered type; the best are served, equals
    in turn.
  \<^item> \<open>Multipath\<close>, \<open>Multipath_Flows\<close>, \<open>Multipath_Runs\<close>: connections with several paths, of the second and third
    generation: flow labels, state per flow, path selection, responses; along runs the counters of outstanding packets are
    exact, and a packet takes the flow with the most room.
  \<^item> This theory: properties that span components.

  \<^bold>\<open>How the code is rendered.\<close> An object is a record with the fields of the class, an operation a function from the
  state to the new state with its result, a \<^verbatim>\<open>switch\<close> or early return a case of it, a loop over a
  container a recursion over the list of its elements. Calls that leave the modelled part (into the RDMA model,
  the histogram collector, the event queue) are outputs of the operation. Unsigned integers are words of
  their width, so they wrap around; signed integers are integers, with the range written out where the
  code can leave it. \<^verbatim>\<open>ElapsedTime()\<close> is an argument \<open>now\<close>.

  \<^bold>\<open>Parameters.\<close> Computations in floating point are arguments of the definitions: \<open>floor_fdiv\<close> and \<open>tokens_of\<close>
  (token bucket; \<open>he_floor_fdiv\<close> in the host), \<open>per_sec\<close> (rates in configuration units), \<open>ema_blend\<close> (moving average of occupancy),
  \<open>delay_of\<close> (serialization delay). Swift and its engine take the rounding of real arithmetic to doubles
  as an argument too; \<open>double_round\<close> of \<open>Doubles\<close> is the one of the machine. The conversion of a double to a time
  (\<open>ue_nanoseconds\<close>, \<^verbatim>\<open>absl::Nanoseconds\<close>) is an argument with the contract of the locale \<open>double_nanoseconds\<close>; samples of random
  generators are arguments. Whether the packet builder accepts packets is \<open>he_can_send\<close>. So are the weight fetcher of the policy, the callbacks of the receive scheduler
  and the schedulers behind the arbiter, which the code passes as functions or abstract classes. The only
  hypotheses on them are those a theorem states: a floor of a quotient does not exceed it, weights are not
  negative, callbacks name hosts that exist.

  \<^bold>\<open>Termination.\<close> All recursions are structural or have a termination proof, except two loops that are partial
  functions into \<open>option\<close>: the loop of the arbiter, which would not end for an index out of range (that it returns is
  part of its theorem), and the scan for early retransmission after a NACK, which does not advance past
  an acknowledged packet. There is no fuel.

  \<^bold>\<open>Not modelled.\<close> Of the second and third generation what is not named above, the RDMA and RNIC models, the fabric, statistics, and
  everything that talks to OMNeT++, protocol buffers or files. The last group is glue or pure input and output; the
  others build on the components of the first generation modelled here.
\<close>

section \<open>Delivery to the upper layer\<close>

lemma prefix_of_upt:
  assumes "xs @ ys = map f [0..<n]"
  shows "xs = map f [0..<length xs]"
proof -
  have "xs = take (length xs) (map f [0..<n])" using assms by (metis append_eq_conv_conj)
  moreover have "length xs \<le> n" using arg_cong [OF assms, of length] by simp
  ultimately show ?thesis by (metis add_0 take_map take_upt)
qed

definition of_connection :: "u32 \<Rightarrow> (u32 \<times> u32) list \<Rightarrow> u32 list" where
  "of_connection cid cbs = map snd (filter (\<lambda>cb. fst cb = cid) cbs)"

lemma of_connection_append [simp]:
  "of_connection cid (xs @ ys) = of_connection cid xs @ of_connection cid ys"
  by (simp add: of_connection_def)


text \<open>One host, one connection: two completions enqueued, the first of them run.\<close>

definition no_calls :: "u32 \<times> u32 \<Rightarrow> (u32 \<times> u32) rx_call list" where
  "no_calls cb = []"

lemma no_calls_targets: "targets_known H (no_calls cb)"
  by (simp add: no_calls_def targets_known_def)

lemma example_delivery:
  "\<exists>s k. rx_run no_delay no_calls 1 s [(0, (3, 0)), (0, (3, 1))] [(0, (3, 0))] k"
proof -
  obtain s0 :: "(u32 \<times> u32) ihrx" where s0: "ProtocolInterHostRxScheduler 200 (Finite 3) 1 = Inr s0"
    "rx_ok s0" "hosts s0 = {h. h < 1}" "\<forall>h. queue s0 h = []"
    using ProtocolInterHostRxScheduler_spec [of 1 200 "Finite 3"] by auto
  obtain s1 where s1: "Enqueue (Finite 0) 0 (3, 0) s0 = Inr s1" "rx_ok s1" "hosts s1 = hosts s0"
    "queue s1 = (queue s0)(0 := queue s0 0 @ [(3, 0)])"
    using Enqueue_spec [OF s0(2), where h = 0 and now = "Finite 0" and cb = "(3, 0)"] s0(3) by auto
  obtain s2 where s2: "Enqueue (Finite 0) 0 (3, 1) s1 = Inr s2" "rx_ok s2" "hosts s2 = hosts s1"
    "queue s2 = (queue s1)(0 := queue s1 0 @ [(3, 1)])"
    using Enqueue_spec [OF s1(2), where h = 0 and now = "Finite 0" and cb = "(3, 1)"] s1(3) s0(3) by auto
  obtain s3 where s3: "SetXoff_rx (Finite 1) 0 False s2 = Inr s3" "rx_ok s3" "hosts s3 = hosts s2" "queue s3 = queue s2"
    "stopped s3 = (stopped s2)(0 := False)"
    using SetXoff_rx_spec [OF s2(2), where h = 0 and now = "Finite 1" and x = False] s2(3) s1(3) s0(3) by auto
  have hq: "hosts s3 = {h. h < 1}" "queue s3 0 = [(3, 0), (3, 1)]" using s3 s2 s1 s0 by auto
  let ?E = "[(0, (3, 0)), (0, (3, 1))] :: (u8 \<times> u32 \<times> u32) list"
  have run: "rx_run no_delay no_calls 1 s3 (([] @ [(0, (3, 0))]) @ [(0, (3, 1))]) []
      (0 + new_events s0 s1 + new_events s1 s2 + new_events s2 s3)"
    by (rule rx_run.xoff [OF rx_run.enqueue [OF rx_run.enqueue [OF rx_run.start [OF s0(1)] s1(1)] s2(1)] s3(1)])
  have h0: "ready s3 = {0}"
    using hq s3(5) by (auto simp: ready_def word_less_nat_alt unat_eq_0)
  then have "0 < 0 + new_events s0 s1 + new_events s1 s2 + new_events s2 s3"
    using rx_run_invariant [OF run no_calls_targets] by auto
  then obtain k where k: "0 + new_events s0 s1 + new_events s1 s2 + new_events s2 s3 = Suc k"
    by (metis gr0_implies_Suc)
  obtain r s4 where s4: "ScheduleWork no_delay no_calls (Finite 5) s3 = Inr (r, s4)" "r = None \<longleftrightarrow> ready s3 = {}"
    "\<forall>h cb. r = Some (h, cb) \<longrightarrow> h \<in> ready s3"
    "\<forall>g. queue s3 g @ of_host g (enq_by no_calls r) = of_host g (ran r) @ queue s4 g"
    using ScheduleWork_spec [where calls = no_calls and delay_of = no_delay and now = "Finite 5", OF s3(2) no_calls_targets] by (elim exE conjE)
  obtain cb where cb: "r = Some (0, cb)" using s4(2,3) h0 by (cases r) auto
  have "cb = (3, 0)" using s4(4) [rule_format, of 0] cb hq(2) by (simp add: ran_def)
  then show ?thesis
    using rx_run.fire [OF run [unfolded k] s4(1)] cb by (auto simp: enq_by_def no_calls_def ran_def)
qed


section \<open>From the upper layer to admission\<close>

text \<open>
  A request the upper layer has just handed over is known to admission control: checking it under the sequence
  number and packet type it was given never trips a lookup, and is decided by the request
  length of the upper layer's packet alone.
\<close>

theorem filed_request_admission:
  assumes "initiates pkt" and "1 \<le> cs_version cs"
    and "CreateOrUpdateTransactionFromUlp (Finite t0) pkt thr mode cs = Inr ((rsn, type), samples, cs')"
  shows "MeetsAdmissionControlCriteria cfg fd now (conns(scid \<mapsto> cs')) scid rsn type a =
    MeetsAdmissionControlCriteria_length cfg fd now (ucast (rdma_request_length pkt)) type a"
proof -
  obtain type' where type': "RdmaOpcodeToPacketType pkt thr = Inr type'"
    using assms(1) by (auto simp: initiates_def RdmaOpcodeToPacketType_def)
  obtain t where t: "rsn = cs_tx_next_rsn cs" "type = type'" "cs_transactions cs' (rsn, kInitiator) = Some t"
    "tm_request_length t = rdma_request_length pkt"
    using from_ulp_initiates [OF assms(1,2), of t0 thr mode] assms(3) type' by auto
  have "GetTransactionLocation type False = Inr kInitiator"
    using type' t(2) assms(1) by (auto simp: initiates_def RdmaOpcodeToPacketType_def split: if_splits)
  then show ?thesis
    using t(3,4) by (simp add: MeetsAdmissionControlCriteria_def PerformDirectLookup_def GetTransaction_def)
qed

theorem filed_request_admission_witness:
  "\<exists>rsn type samples cs'. CreateOrUpdateTransactionFromUlp (Finite 3) (packet_default\<lparr>rdma_opcode := kReadRequest\<rparr>) 64
      kOrdered (ConnectionState_new 1 5 kOrdered) = Inr ((rsn, type), samples, cs') \<and>
    MeetsAdmissionControlCriteria example_ac_config (div) 50 [5 \<mapsto> cs'] 5 rsn type example_admission =
      MeetsAdmissionControlCriteria_length example_ac_config (div) 50 0 type example_admission"
proof -
  let ?pkt = "packet_default\<lparr>rdma_opcode := kReadRequest\<rparr>" and ?cs = "ConnectionState_new 1 5 kOrdered"
  have i: "initiates ?pkt" "1 \<le> cs_version ?cs" by (simp_all add: initiates_def ConnectionState_new_def)
  obtain rsn type samples cs' where r: "CreateOrUpdateTransactionFromUlp (Finite 3) ?pkt 64 kOrdered ?cs =
      Inr ((rsn, type), samples, cs')"
    using from_ulp_initiates [OF i, of 3 64 kOrdered] by auto
  have "rdma_request_length ?pkt = 0" by (simp add: packet_default_def)
  then show ?thesis
    using filed_request_admission [OF i r, of example_ac_config "(div)" 50 Map.empty 5 example_admission] r by auto
qed

end
